(* ===== verification/Prelude.thy ===== *)
theory Prelude
  imports Main "HOL-Library.Char_ord" "HOL-Library.List_Lexorder" "HOL-Library.Multiset"
begin

text \<open>
  Shared vocabulary of the development: how Go's time, durations, errors and slices are
  represented, and the generic lemmas the components use.

  A \<open>time.Time\<close> is an instant, an integer number of nanoseconds since the Unix epoch; a
  \<open>time.Duration\<close> is an integer number of nanoseconds, with the 64-bit wrap-around written
  out where the code multiplies. A Go \<open>string\<close> is a list of bytes (type \<open>string\<close>). A function
  returning only an \<open>error\<close> is a function into \<open>'e option\<close> (\<open>None\<close> is Go's \<open>nil\<close>), and a
  function returning a value and an error is a function into the sum \<open>'e + 'a\<close>.
\<close>

named_theorems guard_simps \<open>unfolding of guard chains and error results\<close>

section \<open>Time\<close>

type_synonym time = int
type_synonym duration = int

definition nanosecond :: duration where "nanosecond = 1"
definition millisecond :: duration where "millisecond = 1000000"
definition second :: duration where "second = 1000000000"
definition minute :: duration where "minute = 60000000000"
definition hour :: duration where "hour = 3600000000000"

lemmas duration_defs = nanosecond_def millisecond_def second_def minute_def hour_def

text \<open>Go's zero \<open>time.Time\<close>: midnight, 1 January of year 1, UTC.\<close>

definition zero_time :: time where "zero_time = -62135596800000000000"

text \<open>Signed 64-bit wrap-around (\<open>int\<close>, \<open>int64\<close> and \<open>time.Duration\<close> arithmetic).\<close>

definition wrap64 :: "int \<Rightarrow> int" where
  "wrap64 x = (x + 2 ^ 63) mod 2 ^ 64 - 2 ^ 63"

definition in_int64 :: "int \<Rightarrow> bool" where
  "in_int64 x \<longleftrightarrow> - (2 ^ 63) \<le> x \<and> x < 2 ^ 63"

lemma wrap64_id [simp]: "in_int64 x \<Longrightarrow> wrap64 x = x"
  by (simp add: wrap64_def in_int64_def)

lemma in_int64_wrap64 [simp]: "in_int64 (wrap64 x)"
  unfolding wrap64_def in_int64_def
  using pos_mod_bound [of "2 ^ 64 :: int" "x + 2 ^ 63"] pos_mod_sign [of "2 ^ 64 :: int" "x + 2 ^ 63"]
  by simp

text \<open>\<open>Time.Sub\<close> saturates at the bounds of \<open>time.Duration\<close>.\<close>

definition time_sub :: "time \<Rightarrow> time \<Rightarrow> duration" where
  "time_sub t u = max (- (2 ^ 63)) (min (2 ^ 63 - 1) (t - u))"

lemma time_sub_le: "d < 2 ^ 63 - 1 \<Longrightarrow> - (2 ^ 63) \<le> d \<Longrightarrow> time_sub t u \<le> d \<longleftrightarrow> t - u \<le> d"
  by (auto simp: time_sub_def)

section \<open>Errors\<close>

text \<open>A chain of \<open>if err := f(); err != nil { return err }\<close> returns the first error.\<close>

fun first_err :: "'e option list \<Rightarrow> 'e option" where
  "first_err [] = None"
| "first_err (Some e # _) = Some e"
| "first_err (None # es) = first_err es"

lemma first_err_Cons [guard_simps]:
  "first_err (x # es) = (case x of Some e \<Rightarrow> Some e | None \<Rightarrow> first_err es)"
  by (cases x) auto

lemma first_err_Cons_None: "first_err (x # es) = None \<longleftrightarrow> x = None \<and> first_err es = None"
  by (cases x) auto

lemma first_err_None: "first_err es = None \<longleftrightarrow> (\<forall>e \<in> set es. e = None)"
  by (induction es rule: first_err.induct) auto

lemma first_err_Some: "first_err es = Some e \<Longrightarrow> Some e \<in> set es"
  by (induction es rule: first_err.induct) auto

lemma first_err_map_None: "first_err (map f xs) = None \<longleftrightarrow> (\<forall>x \<in> set xs. f x = None)"
  by (auto simp: first_err_None)

text \<open>\<open>if cond { return err }\<close> as one link of such a chain.\<close>

definition fail_if :: "bool \<Rightarrow> 'e \<Rightarrow> 'e option" where
  "fail_if b e = (if b then Some e else None)"

lemma fail_if_None [simp]: "fail_if b e = None \<longleftrightarrow> \<not> b"
  by (simp add: fail_if_def)

lemma fail_if_Some [simp]: "fail_if b e = Some e' \<longleftrightarrow> b \<and> e' = e"
  by (auto simp: fail_if_def)

text \<open>Sequencing of a call that returns a value and an error.\<close>

definition bind_res :: "'e + 'a \<Rightarrow> ('a \<Rightarrow> 'e + 'b) \<Rightarrow> 'e + 'b" where
  "bind_res m f = (case m of Inl e \<Rightarrow> Inl e | Inr x \<Rightarrow> f x)"

lemma bind_res_Inl [simp]: "bind_res (Inl e) f = Inl e"
  and bind_res_Inr [simp]: "bind_res (Inr x) f = f x"
  by (simp_all add: bind_res_def)

lemma bind_res_eq_Inr: "bind_res m f = Inr y \<longleftrightarrow> (\<exists>x. m = Inr x \<and> f x = Inr y)"
  by (cases m) auto

lemma bind_res_eq_Inl: "bind_res m f = Inl e \<longleftrightarrow> m = Inl e \<or> (\<exists>x. m = Inr x \<and> f x = Inl e)"
  by (cases m) auto

section \<open>Slices\<close>

text \<open>
  \<open>sort.SliceStable\<close>: a stable sort by the caller's \<open>less\<close>. For a \<open>less\<close> that compares a key in a
  linear order it is the library's \<open>sort_key\<close>, which carries the proofs.
\<close>

fun insert_by :: "('a \<Rightarrow> 'a \<Rightarrow> bool) \<Rightarrow> 'a \<Rightarrow> 'a list \<Rightarrow> 'a list" where
  "insert_by lt x [] = [x]"
| "insert_by lt x (y # ys) = (if lt y x then y # insert_by lt x ys else x # y # ys)"

definition slice_stable :: "('a \<Rightarrow> 'a \<Rightarrow> bool) \<Rightarrow> 'a list \<Rightarrow> 'a list" where
  "slice_stable lt xs = foldr (insert_by lt) xs []"

lemma insert_by_insort:
  fixes f :: "'a \<Rightarrow> 'k :: linorder"
  assumes "\<And>a b. lt a b \<longleftrightarrow> f a < f b"
  shows "insert_by lt x xs = insort_key f x xs"
  by (induction xs) (auto simp: assms not_le)

lemma slice_stable_sort_key:
  fixes f :: "'a \<Rightarrow> 'k :: linorder"
  assumes "\<And>a b. lt a b \<longleftrightarrow> f a < f b"
  shows "slice_stable lt xs = sort_key f xs"
proof -
  have "insert_by lt = insort_key f"
    using insert_by_insort [of lt f] assms by blast
  then show ?thesis by (simp add: slice_stable_def sort_key_def)
qed

lemma sort_key_take_le_drop:
  assumes "x \<in> set (take n (sort_key f xs))" and "y \<in> set (drop n (sort_key f xs))"
  shows "f x \<le> f y"
proof -
  have "sorted (map f (take n (sort_key f xs) @ drop n (sort_key f xs)))"
    by simp
  then have "sorted (map f (take n (sort_key f xs)) @ map f (drop n (sort_key f xs)))"
    by (simp only: map_append)
  then show ?thesis using assms by (auto simp: sorted_append)
qed

lemma distinct_map_sort_key [simp]: "distinct (map g (sort_key f xs)) \<longleftrightarrow> distinct (map g xs)"
proof (rule mset_eq_imp_distinct_iff)
  show "mset (map g (sort_key f xs)) = mset (map g xs)" by simp
qed

text \<open>In a list sorted by a key that is injective on it, the position of an element is the number
  of elements with a smaller key.\<close>

lemma sort_key_index:
  fixes f :: "'a \<Rightarrow> 'k :: linorder"
  assumes "distinct (map f xs)" and "j < length xs"
  defines "ys \<equiv> sort_key f xs"
  shows "card {x \<in> set xs. f x < f (ys ! j)} = j"
proof -
  have len: "length ys = length xs" by (simp add: ys_def)
  have dist: "distinct (map f ys)" using assms(1) by (simp add: ys_def)
  have sorted: "sorted (map f ys)" by (simp add: ys_def)
  have mono: "f (ys ! a) < f (ys ! b) \<longleftrightarrow> a < b" if "a < length ys" "b < length ys" for a b
  proof -
    have "sorted_wrt (<) (map f ys)" using sorted dist by (simp add: strict_sorted_iff)
    then have less: "f (ys ! c) < f (ys ! d)" if "c < d" "d < length ys" for c d
      using that by (auto simp: sorted_wrt_iff_nth_less)
    show ?thesis
      using less [of a b] less [of b a] that by (cases a b rule: linorder_cases) auto
  qed
  have "{x \<in> set xs. f x < f (ys ! j)} = (!) ys ` {..<j}"
  proof (intro set_eqI iffI)
    fix x assume "x \<in> {x \<in> set xs. f x < f (ys ! j)}"
    then have "x \<in> set ys" and lt: "f x < f (ys ! j)" by (auto simp: ys_def)
    then obtain i where "i < length ys" "x = ys ! i" by (auto simp: in_set_conv_nth)
    then show "x \<in> (!) ys ` {..<j}" using mono [of i j] lt assms(2) len by auto
  next
    fix x assume "x \<in> (!) ys ` {..<j}"
    then obtain i where "i < j" "x = ys ! i" by auto
    moreover have "ys ! i \<in> set ys" using \<open>i < j\<close> assms(2) len by (intro nth_mem) simp
    ultimately show "x \<in> {x \<in> set xs. f x < f (ys ! j)}"
      using mono [of i j] assms(2) len by (auto simp: ys_def)
  qed
  moreover have "inj_on ((!) ys) {..<j}"
    using dist assms(2) len by (auto simp: inj_on_def distinct_map nth_eq_iff_index_eq)
  ultimately show ?thesis by (simp add: card_image)
qed

lemma sort_key_mem_drop:
  fixes f :: "'a \<Rightarrow> 'k :: linorder"
  assumes "distinct (map f xs)" "x \<in> set xs"
  shows "x \<in> set (drop n (sort_key f xs)) \<longleftrightarrow> n \<le> card {y \<in> set xs. f y < f x}"
proof -
  define ys where "ys = sort_key f xs"
  have ys: "length ys = length xs" "set ys = set xs" by (simp_all add: ys_def)
  have inj: "inj_on f (set xs)" "distinct xs" using assms(1) by (simp_all add: distinct_map)
  from assms(2) ys obtain j where j: "j < length xs" "ys ! j = x" by (metis in_set_conv_nth)
  have card: "card {y \<in> set xs. f y < f x} = j"
    using sort_key_index [OF assms(1) j(1)] j(2) by (simp add: ys_def)
  have dist: "distinct ys" using inj(2) by (simp add: ys_def)
  have "x \<in> set (drop n ys) \<longleftrightarrow> n \<le> j"
  proof
    assume "x \<in> set (drop n ys)"
    then obtain i where "i < length (drop n ys)" "drop n ys ! i = x" by (metis in_set_conv_nth)
    then have "ys ! (n + i) = ys ! j" "n + i < length ys" using j by simp_all
    then have "n + i = j" using dist j ys nth_eq_iff_index_eq [of ys "n + i" j] by simp
    then show "n \<le> j" by simp
  next
    assume "n \<le> j"
    then have "drop n ys ! (j - n) = x" "j - n < length (drop n ys)" using j ys by simp_all
    then show "x \<in> set (drop n ys)" by (metis nth_mem)
  qed
  then show ?thesis by (simp add: card ys_def)
qed

text \<open>
  The recency key that the retention of backups and of releases sorts by: a moment that may be
  missing, a second moment, and the identifier as the tie-breaker. A smaller key is more recent.
\<close>

datatype recency = Recency "time option" time string

fun more_recent :: "recency \<Rightarrow> recency \<Rightarrow> bool" where
  "more_recent (Recency (Some a) c i) (Recency (Some b) d j) \<longleftrightarrow>
     b < a \<or> a = b \<and> (d < c \<or> c = d \<and> j < i)"
| "more_recent (Recency (Some a) c i) (Recency None d j) \<longleftrightarrow> True"
| "more_recent (Recency None c i) (Recency (Some b) d j) \<longleftrightarrow> False"
| "more_recent (Recency None c i) (Recency None d j) \<longleftrightarrow> d < c \<or> c = d \<and> j < i"

lemma more_recent_irrefl: "\<not> more_recent k k"
  by (cases "(k, k)" rule: more_recent.cases) auto

lemma more_recent_trans: "more_recent k l \<Longrightarrow> more_recent l m \<Longrightarrow> more_recent k m"
  by (cases "(k, l)" rule: more_recent.cases; cases m; cases "case m of Recency t c i \<Rightarrow> t") auto

lemma more_recent_total: "more_recent k l \<or> k = l \<or> more_recent l k"
  by (cases "(k, l)" rule: more_recent.cases) auto

instantiation recency :: linorder
begin

definition less_recency :: "recency \<Rightarrow> recency \<Rightarrow> bool" where
  "less_recency k l \<longleftrightarrow> more_recent k l"

definition less_eq_recency :: "recency \<Rightarrow> recency \<Rightarrow> bool" where
  "less_eq_recency k l \<longleftrightarrow> more_recent k l \<or> k = l"

instance
proof
  fix k l m :: recency
  show "k < l \<longleftrightarrow> k \<le> l \<and> \<not> l \<le> k"
    unfolding less_recency_def less_eq_recency_def
    using more_recent_irrefl more_recent_trans by blast
  show "k \<le> k" by (simp add: less_eq_recency_def)
  show "k \<le> l \<Longrightarrow> l \<le> m \<Longrightarrow> k \<le> m"
    unfolding less_eq_recency_def using more_recent_trans by blast
  show "k \<le> l \<Longrightarrow> l \<le> k \<Longrightarrow> k = l"
    unfolding less_eq_recency_def using more_recent_irrefl more_recent_trans by blast
  show "k \<le> l \<or> l \<le> k"
    unfolding less_eq_recency_def using more_recent_total by blast
qed

end

end
