(* ===== verification/ApiErrors.thy ===== *)
theory ApiErrors
  imports Prelude
begin

text \<open>
  The error codes of the API (\<open>api/v1/errors.go\<close>) with their HTTP status and process exit code,
  the operation kinds (\<open>api/v1/types.go\<close>), and the error values of \<open>internal/domain/errors.go\<close>.

  \<open>ErrorCode\<close> is a string type in Go; a constructor stands for each declared constant and
  \<open>CodeOther\<close> for any other string. The message text of a \<open>CodedError\<close> is not modelled: an error
  value is its code, which is what callers branch on.
\<close>

section \<open>Error codes\<close>

datatype (plugins only: code size) ErrorCode =
    CodeConfigInvalid
  | CodeInvalidRequest
  | CodeOperationNotFound
  | CodeIdempotencyConflict
  | CodeLockBusy
  | CodeExecTimeout
  | CodeExecCancelled
  | CodeExecExitNonZero
  | CodeDaemonRestarted
  | CodePermissionDenied
  | CodeInternal
  | CodeArtifactNotFound
  | CodeArtifactChecksum
  | CodeArtifactInUse
  | CodeUploadTooLarge
  | CodeStorageQuotaExceeded
  | CodeSecretUnresolved
  | CodeApplicationNotFound
  | CodeReleaseNotFound
  | CodeReleaseConflict
  | CodeScheduleNotFound
  | CodeScheduleEnabled
  | CodeScheduleInvalid
  | CodeSpecNotFound
  | CodeManifestInvalid
  | CodeManifestConflict
  | CodeRuntimeNotReady
  | CodeRuntimeUnsupport
  | CodeHostNotFound
  | CodeEnvNotFound
  | CodeRetryPolicyInvalid
  | CodeBackupNotFound
  | CodeBackupPreflightFailed
  | CodeBackupVerifyFailed
  | CodeBackupRestoreUnconfirmed
  | CodeBackupInUse
  | CodeBackupKeyUnresolved
  | CodeBackupRestoreFailed
  | CodeArtifactUnpackFailed
  | CodeDeployRolledBack
  | CodeNginxConfigInvalid
  | CodeNginxReloadFailed
  | CodeHostUnreachable
  | CodeHostTLSFailed
  | CodeRemoteForbidden
  | CodeBatchPreflightFailed
  | CodeBatchFailed
  | CodeOther string

text \<open>The texts of the codes, as they are stored, logged and sent.\<close>

definition code_texts :: "(ErrorCode \<times> string) list" where
  "code_texts =
    [(CodeConfigInvalid, ''CONFIG_INVALID''),
     (CodeInvalidRequest, ''INVALID_REQUEST''),
     (CodeOperationNotFound, ''OPERATION_NOT_FOUND''),
     (CodeIdempotencyConflict, ''IDEMPOTENCY_CONFLICT''),
     (CodeLockBusy, ''LOCK_BUSY''),
     (CodeExecTimeout, ''EXEC_TIMEOUT''),
     (CodeExecCancelled, ''EXEC_CANCELLED''),
     (CodeExecExitNonZero, ''EXEC_EXIT_NONZERO''),
     (CodeDaemonRestarted, ''DAEMON_RESTARTED''),
     (CodePermissionDenied, ''PERMISSION_DENIED''),
     (CodeInternal, ''INTERNAL''),
     (CodeArtifactNotFound, ''ARTIFACT_NOT_FOUND''),
     (CodeArtifactChecksum, ''ARTIFACT_CHECKSUM_MISMATCH''),
     (CodeArtifactInUse, ''ARTIFACT_IN_USE''),
     (CodeUploadTooLarge, ''UPLOAD_TOO_LARGE''),
     (CodeStorageQuotaExceeded, ''STORAGE_QUOTA_EXCEEDED''),
     (CodeSecretUnresolved, ''SECRET_UNRESOLVED''),
     (CodeApplicationNotFound, ''APPLICATION_NOT_FOUND''),
     (CodeReleaseNotFound, ''RELEASE_NOT_FOUND''),
     (CodeReleaseConflict, ''RELEASE_CONFLICT''),
     (CodeScheduleNotFound, ''SCHEDULE_NOT_FOUND''),
     (CodeScheduleEnabled, ''SCHEDULE_ENABLED''),
     (CodeScheduleInvalid, ''SCHEDULE_INVALID''),
     (CodeSpecNotFound, ''SPEC_NOT_FOUND''),
     (CodeManifestInvalid, ''MANIFEST_INVALID''),
     (CodeManifestConflict, ''MANIFEST_CONFLICT''),
     (CodeRuntimeNotReady, ''RUNTIME_NOT_READY''),
     (CodeRuntimeUnsupport, ''RUNTIME_UNSUPPORTED''),
     (CodeHostNotFound, ''HOST_NOT_FOUND''),
     (CodeEnvNotFound, ''ENVIRONMENT_NOT_FOUND''),
     (CodeRetryPolicyInvalid, ''RETRY_POLICY_INVALID''),
     (CodeBackupNotFound, ''BACKUP_NOT_FOUND''),
     (CodeBackupPreflightFailed, ''BACKUP_PREFLIGHT_FAILED''),
     (CodeBackupVerifyFailed, ''BACKUP_VERIFY_FAILED''),
     (CodeBackupRestoreUnconfirmed, ''BACKUP_RESTORE_UNCONFIRMED''),
     (CodeBackupInUse, ''BACKUP_IN_USE''),
     (CodeBackupKeyUnresolved, ''BACKUP_KEY_UNRESOLVED''),
     (CodeBackupRestoreFailed, ''BACKUP_RESTORE_FAILED''),
     (CodeArtifactUnpackFailed, ''ARTIFACT_UNPACK_FAILED''),
     (CodeDeployRolledBack, ''DEPLOY_ROLLED_BACK''),
     (CodeNginxConfigInvalid, ''NGINX_CONFIG_INVALID''),
     (CodeNginxReloadFailed, ''NGINX_RELOAD_FAILED''),
     (CodeHostUnreachable, ''HOST_UNREACHABLE''),
     (CodeHostTLSFailed, ''HOST_TLS_FAILED''),
     (CodeRemoteForbidden, ''REMOTE_FORBIDDEN''),
     (CodeBatchPreflightFailed, ''BATCH_PREFLIGHT_FAILED''),
     (CodeBatchFailed, ''BATCH_FAILED'')]"

definition code_text :: "ErrorCode \<Rightarrow> string" where
  "code_text c =
     (case c of CodeOther s \<Rightarrow> s
      | _ \<Rightarrow> (case map_of code_texts c of Some s \<Rightarrow> s | None \<Rightarrow> []))"

definition httpStatusByCode :: "ErrorCode \<Rightarrow> nat option" where
  "httpStatusByCode = map_of
    [(CodeConfigInvalid, 400),
     (CodeInvalidRequest, 400),
     (CodeOperationNotFound, 404),
     (CodeIdempotencyConflict, 409),
     (CodeLockBusy, 409),
     (CodePermissionDenied, 403),
     (CodeInternal, 500),
     (CodeArtifactNotFound, 404),
     (CodeArtifactChecksum, 409),
     (CodeArtifactInUse, 409),
     (CodeUploadTooLarge, 413),
     (CodeStorageQuotaExceeded, 507),
     (CodeSecretUnresolved, 400),
     (CodeApplicationNotFound, 404),
     (CodeReleaseNotFound, 404),
     (CodeReleaseConflict, 409),
     (CodeScheduleNotFound, 404),
     (CodeScheduleEnabled, 409),
     (CodeScheduleInvalid, 400),
     (CodeSpecNotFound, 404),
     (CodeManifestInvalid, 400),
     (CodeManifestConflict, 409),
     (CodeRuntimeNotReady, 409),
     (CodeRuntimeUnsupport, 409),
     (CodeHostNotFound, 404),
     (CodeEnvNotFound, 404),
     (CodeRetryPolicyInvalid, 400),
     (CodeBackupNotFound, 404),
     (CodeBackupPreflightFailed, 409),
     (CodeBackupVerifyFailed, 409),
     (CodeBackupRestoreUnconfirmed, 409),
     (CodeBackupInUse, 409),
     (CodeBackupKeyUnresolved, 400),
     (CodeBackupRestoreFailed, 409),
     (CodeArtifactUnpackFailed, 409),
     (CodeDeployRolledBack, 409),
     (CodeNginxConfigInvalid, 409),
     (CodeNginxReloadFailed, 409),
     (CodeHostUnreachable, 502),
     (CodeHostTLSFailed, 502),
     (CodeRemoteForbidden, 403)]"

definition HTTPStatus :: "ErrorCode \<Rightarrow> nat" where
  "HTTPStatus code = (case httpStatusByCode code of Some s \<Rightarrow> s | None \<Rightarrow> 500)"

definition exitCodeByCode :: "ErrorCode \<Rightarrow> nat option" where
  "exitCodeByCode = map_of
    [(CodeInternal, 1),
     (CodeConfigInvalid, 2),
     (CodeInvalidRequest, 2),
     (CodeOperationNotFound, 2),
     (CodeIdempotencyConflict, 3),
     (CodeLockBusy, 4),
     (CodeExecTimeout, 10),
     (CodeExecCancelled, 11),
     (CodeExecExitNonZero, 12),
     (CodeDaemonRestarted, 13),
     (CodePermissionDenied, 20),
     (CodeArtifactNotFound, 2),
     (CodeArtifactChecksum, 5),
     (CodeArtifactInUse, 6),
     (CodeUploadTooLarge, 7),
     (CodeStorageQuotaExceeded, 8),
     (CodeSecretUnresolved, 9),
     (CodeApplicationNotFound, 2),
     (CodeReleaseNotFound, 2),
     (CodeReleaseConflict, 14),
     (CodeScheduleNotFound, 2),
     (CodeScheduleEnabled, 15),
     (CodeScheduleInvalid, 16),
     (CodeSpecNotFound, 2),
     (CodeManifestInvalid, 17),
     (CodeManifestConflict, 18),
     (CodeRuntimeNotReady, 19),
     (CodeRuntimeUnsupport, 21),
     (CodeHostNotFound, 2),
     (CodeEnvNotFound, 2),
     (CodeRetryPolicyInvalid, 22),
     (CodeBackupNotFound, 2),
     (CodeBackupPreflightFailed, 23),
     (CodeBackupVerifyFailed, 24),
     (CodeBackupRestoreUnconfirmed, 25),
     (CodeBackupInUse, 26),
     (CodeBackupKeyUnresolved, 27),
     (CodeBackupRestoreFailed, 28),
     (CodeArtifactUnpackFailed, 30),
     (CodeDeployRolledBack, 29),
     (CodeNginxConfigInvalid, 31),
     (CodeNginxReloadFailed, 32),
     (CodeHostUnreachable, 33),
     (CodeHostTLSFailed, 34),
     (CodeRemoteForbidden, 35),
     (CodeBatchPreflightFailed, 36),
     (CodeBatchFailed, 37)]"

definition ExitCode :: "ErrorCode \<Rightarrow> nat" where
  "ExitCode code = (case exitCodeByCode code of Some c \<Rightarrow> c | None \<Rightarrow> 1)"

text \<open>
  The inverse reading of an exit code, for the codes a script can act on: every exit code above 2
  stands for one error code.
\<close>

definition code_of_exit :: "nat \<Rightarrow> ErrorCode option" where
  "code_of_exit n = map_of
    [(3, CodeIdempotencyConflict),
     (4, CodeLockBusy),
     (10, CodeExecTimeout),
     (11, CodeExecCancelled),
     (12, CodeExecExitNonZero),
     (13, CodeDaemonRestarted),
     (20, CodePermissionDenied),
     (5, CodeArtifactChecksum),
     (6, CodeArtifactInUse),
     (7, CodeUploadTooLarge),
     (8, CodeStorageQuotaExceeded),
     (9, CodeSecretUnresolved),
     (14, CodeReleaseConflict),
     (15, CodeScheduleEnabled),
     (16, CodeScheduleInvalid),
     (17, CodeManifestInvalid),
     (18, CodeManifestConflict),
     (19, CodeRuntimeNotReady),
     (21, CodeRuntimeUnsupport),
     (22, CodeRetryPolicyInvalid),
     (23, CodeBackupPreflightFailed),
     (24, CodeBackupVerifyFailed),
     (25, CodeBackupRestoreUnconfirmed),
     (26, CodeBackupInUse),
     (27, CodeBackupKeyUnresolved),
     (28, CodeBackupRestoreFailed),
     (30, CodeArtifactUnpackFailed),
     (29, CodeDeployRolledBack),
     (31, CodeNginxConfigInvalid),
     (32, CodeNginxReloadFailed),
     (33, CodeHostUnreachable),
     (34, CodeHostTLSFailed),
     (35, CodeRemoteForbidden),
     (36, CodeBatchPreflightFailed),
     (37, CodeBatchFailed)] n"

lemma ExitCode_inverse: "2 < ExitCode c \<Longrightarrow> code_of_exit (ExitCode c) = Some c"
  by (cases c) (simp_all add: ExitCode_def exitCodeByCode_def code_of_exit_def)

lemma ExitCode_pos: "0 < ExitCode c"
  by (cases c) (simp_all add: ExitCode_def exitCodeByCode_def)

lemma HTTPStatus_error: "400 \<le> HTTPStatus c \<and> HTTPStatus c < 600"
  by (cases c) (simp_all add: HTTPStatus_def httpStatusByCode_def)

text \<open>Every error ends \<open>opsctl\<close> with a non-zero exit code, and an exit code above 2 identifies
  the error code: two errors with the same exit code above 2 are the same error.\<close>

theorem exit_code_identifies_error:
  "0 < ExitCode a \<and> (2 < ExitCode a \<longrightarrow> ExitCode a = ExitCode b \<longrightarrow> a = b)"
proof (intro conjI impI)
  show "0 < ExitCode a" by (rule ExitCode_pos)
  assume big: "2 < ExitCode a" and eq: "ExitCode a = ExitCode b"
  from big have inv_a: "code_of_exit (ExitCode a) = Some a" by (rule ExitCode_inverse)
  from big have "code_of_exit (ExitCode b) = Some b" unfolding eq by (rule ExitCode_inverse)
  then have "Some a = Some b" unfolding eq [symmetric] inv_a .
  then show "a = b" by simp
qed

theorem exit_code_identifies_error_witness: "{c. ExitCode c = 4} = {CodeLockBusy}"
proof -
  have lock: "ExitCode CodeLockBusy = 4" by (simp add: ExitCode_def exitCodeByCode_def)
  have "c = CodeLockBusy" if "ExitCode c = 4" for c
    using exit_code_identifies_error [of CodeLockBusy c] that lock by simp
  with lock show ?thesis by auto
qed

section \<open>Operation kinds\<close>

datatype Kind =
    KindExecutorCommand
  | KindRuntimeStart
  | KindRuntimeStop
  | KindBackupRun
  | KindBackupVerify
  | KindBackupRestore
  | KindAppDeploy
  | KindAppRollback
  | KindOther string

end
