(* ===== verification/Retention.thy ===== *)
theory Retention
  imports ApiErrors
begin

text \<open>
  Backup records and the retention plan (\<open>internal/domain/backup.go\<close>, \<open>internal/domain/retention.go\<close>):
  which backups a policy keeps and which it deletes. Only usable backups (succeeded and not failed
  in verification) take part; everything else is neither kept nor deleted.
\<close>

section \<open>Backups\<close>

datatype BackupStatus =
    BackupPending | BackupRunning | BackupSucceeded | BackupFailed | BackupPruned
  | BackupStatusOther string

fun BackupStatus_Terminal :: "BackupStatus \<Rightarrow> bool" where
  "BackupStatus_Terminal BackupSucceeded = True"
| "BackupStatus_Terminal BackupFailed = True"
| "BackupStatus_Terminal BackupPruned = True"
| "BackupStatus_Terminal _ = False"

record Backup =
  BackupID :: string
  BkPolicyID :: string
  BkOperationID :: string
  BkStatus :: BackupStatus
  StorageDigest :: string
  LogicalBytes :: int
  StoredBytes :: int
  BkCompression :: string
  EncryptionKeyID :: string
  BkResourceKind :: string
  ServerVersion :: string
  ClientVersion :: string
  BkTool :: string
  Labels :: "(string \<times> string) list"
  BkStartedAt :: time
  BkFinishedAt :: "time option"
  VerifiedAt :: "time option"
  VerifiedOK :: "bool option"
  BkErrorCode :: string
  BkErrorMessage :: string

definition Usable :: "Backup \<Rightarrow> bool" where
  "Usable b \<longleftrightarrow>
     (if BkStatus b \<noteq> BackupSucceeded then False
      else case VerifiedOK b of None \<Rightarrow> True | Some ok \<Rightarrow> ok)"

record BackupGFS =
  Daily :: int
  Weekly :: int
  Monthly :: int

record BackupRetention =
  BrKeepLast :: int
  KeepDays :: int
  GFS :: BackupGFS

definition GFS_Declared :: "BackupGFS \<Rightarrow> bool" where
  "GFS_Declared g \<longleftrightarrow> 0 < Daily g \<or> 0 < Weekly g \<or> 0 < Monthly g"

definition BackupRetention_Empty :: "BackupRetention \<Rightarrow> bool" where
  "BackupRetention_Empty r \<longleftrightarrow> BrKeepLast r \<le> 0 \<and> KeepDays r \<le> 0 \<and>
     Daily (GFS r) \<le> 0 \<and> Weekly (GFS r) \<le> 0 \<and> Monthly (GFS r) \<le> 0"

section \<open>The plan\<close>

record RetentionPlan =
  Keep :: "string list"
  Delete :: "string list"
  Ignored :: "string list"

text \<open>The \<open>less\<close> function of \<open>sortUsableByRecency\<close>.\<close>

definition usable_less :: "Backup \<Rightarrow> Backup \<Rightarrow> bool" where
  "usable_less left right =
     (case (BkFinishedAt left, BkFinishedAt right) of
        (Some a, Some b) \<Rightarrow> if a \<noteq> b then b < a else BackupID right < BackupID left
      | (Some a, None) \<Rightarrow> True
      | (None, Some b) \<Rightarrow> False
      | (None, None) \<Rightarrow> BackupID right < BackupID left)"

definition sortUsableByRecency :: "Backup list \<Rightarrow> Backup list" where
  "sortUsableByRecency backups = slice_stable usable_less backups"

text \<open>The cut-off \<open>now.Add(-time.Duration(keepDays) * 24 * time.Hour)\<close>, with the 64-bit products.\<close>

definition retention_cutoff :: "BackupRetention \<Rightarrow> time \<Rightarrow> time" where
  "retention_cutoff r now = now + wrap64 (wrap64 (wrap64 (- KeepDays r) * 24) * hour)"

text \<open>The decision of the loop body for the backup at position \<open>i\<close> of the sorted list.\<close>

definition keeps :: "BackupRetention \<Rightarrow> time \<Rightarrow> nat \<Rightarrow> Backup \<Rightarrow> bool" where
  "keeps r cutoff i b =
     (if 0 < BrKeepLast r \<and> int i < BrKeepLast r then True
      else case BkFinishedAt b of
        None \<Rightarrow> True
      | Some t \<Rightarrow> 0 < KeepDays r \<and> \<not> t < cutoff)"

fun plan_loop :: "BackupRetention \<Rightarrow> time \<Rightarrow> nat \<Rightarrow> Backup list \<Rightarrow> RetentionPlan \<Rightarrow> RetentionPlan" where
  "plan_loop r cutoff i [] plan = plan"
| "plan_loop r cutoff i (b # bs) plan =
     plan_loop r cutoff (Suc i) bs
       (if keeps r cutoff i b then plan\<lparr>Keep := BackupID b # Keep plan\<rparr>
        else plan\<lparr>Delete := Delete plan @ [BackupID b]\<rparr>)"

definition PlanRetention :: "BackupRetention option \<Rightarrow> Backup list \<Rightarrow> time \<Rightarrow> RetentionPlan" where
  "PlanRetention policy backups now =
     (case policy of
        None \<Rightarrow> \<lparr>Keep = [], Delete = [], Ignored = []\<rparr>
      | Some r \<Rightarrow>
          plan_loop r (retention_cutoff r now) 0 (sortUsableByRecency (filter Usable backups))
            \<lparr>Keep = [], Delete = [], Ignored = (if GFS_Declared (GFS r) then [''gfs''] else [])\<rparr>)"

section \<open>The sorted candidates\<close>

definition backup_key :: "Backup \<Rightarrow> recency" where
  "backup_key b = Recency (BkFinishedAt b) 0 (BackupID b)"

lemma usable_less_key: "usable_less a b \<longleftrightarrow> backup_key a < backup_key b"
  by (auto simp: usable_less_def backup_key_def less_recency_def split: option.splits)

lemma sortUsableByRecency_sort_key: "sortUsableByRecency bs = sort_key backup_key bs"
  unfolding sortUsableByRecency_def by (rule slice_stable_sort_key) (rule usable_less_key)

section \<open>The loop\<close>

lemma plan_loop_fields:
  "Keep (plan_loop r c i bs plan) =
     rev (map (BackupID \<circ> snd) (filter (\<lambda>(j, b). keeps r c j b) (enumerate i bs))) @ Keep plan"
  "Delete (plan_loop r c i bs plan) =
     Delete plan @ map (BackupID \<circ> snd) (filter (\<lambda>(j, b). \<not> keeps r c j b) (enumerate i bs))"
  "Ignored (plan_loop r c i bs plan) = Ignored plan"
  by (induction r c i bs plan rule: plan_loop.induct) auto

lemma PlanRetention_Delete:
  "d \<in> set (Delete (PlanRetention (Some r) backups now)) \<longleftrightarrow>
     (let bs = sort_key backup_key (filter Usable backups)
      in \<exists>j < length bs. BackupID (bs ! j) = d \<and> \<not> keeps r (retention_cutoff r now) j (bs ! j))"
  by (auto simp: PlanRetention_def plan_loop_fields sortUsableByRecency_sort_key Let_def
      in_set_enumerate_eq image_iff Bex_def)

lemma PlanRetention_Keep:
  "k \<in> set (Keep (PlanRetention (Some r) backups now)) \<longleftrightarrow>
     (let bs = sort_key backup_key (filter Usable backups)
      in \<exists>j < length bs. BackupID (bs ! j) = k \<and> keeps r (retention_cutoff r now) j (bs ! j))"
  by (auto simp: PlanRetention_def plan_loop_fields sortUsableByRecency_sort_key Let_def
      in_set_enumerate_eq image_iff Bex_def)

lemma keeps_False:
  "\<not> keeps r cutoff i b \<longleftrightarrow>
     BrKeepLast r \<le> int i \<and> (\<exists>t. BkFinishedAt b = Some t \<and> (0 < KeepDays r \<longrightarrow> t < cutoff))"
  by (auto simp: keeps_def split: option.splits)

lemma distinct_backup_key:
  "distinct (map BackupID bs) \<Longrightarrow> distinct (map backup_key bs)"
  by (auto simp: distinct_map inj_on_def backup_key_def)

lemma distinct_usable: "distinct (map BackupID bs) \<Longrightarrow> distinct (map BackupID (filter Usable bs))"
  by (auto simp: distinct_map intro: inj_on_subset)

section \<open>What the plan deletes\<close>

text \<open>C6 The plan deletes exactly the usable backups that neither rule keeps: at least \<open>keepLast\<close>
  usable backups are more recent, and the backup has a finish time that is before the \<open>keepDays\<close>
  cut-off (or no \<open>keepDays\<close> is set). Unusable backups and backups without a finish time are never
  deleted.\<close>

theorem retention_deletes_spec:
  assumes "distinct (map BackupID backups)" and "b \<in> set backups"
  shows "BackupID b \<in> set (Delete (PlanRetention (Some r) backups now)) \<longleftrightarrow>
     Usable b
     \<and> BrKeepLast r \<le> int (card {c \<in> set backups. Usable c \<and> backup_key c < backup_key b})
     \<and> (\<exists>t. BkFinishedAt b = Some t \<and> (0 < KeepDays r \<longrightarrow> t < retention_cutoff r now))"
proof -
  define us where "us = filter Usable backups"
  define bs where "bs = sort_key backup_key us"
  have keys: "distinct (map backup_key us)"
    using assms(1) by (simp add: us_def distinct_backup_key distinct_usable)
  have idx: "card {c \<in> set us. backup_key c < backup_key (bs ! j)} = j" if "j < length us" for j
    using sort_key_index [OF keys that] by (simp add: bs_def)
  have ids: "c = b" if "c \<in> set backups" "BackupID c = BackupID b" for c
    using that assms by (auto simp: distinct_map inj_on_def)
  have len: "length bs = length us" and set_bs: "set bs = set us" by (simp_all add: bs_def)
  have mem: "BackupID (bs ! j) = BackupID b \<longleftrightarrow> bs ! j = b" if "j < length us" for j
    using ids [of "bs ! j"] nth_mem [of j bs] that by (auto simp: len set_bs us_def)
  have "BackupID b \<in> set (Delete (PlanRetention (Some r) backups now)) \<longleftrightarrow>
      (\<exists>j < length us. BackupID (bs ! j) = BackupID b \<and> \<not> keeps r (retention_cutoff r now) j (bs ! j))"
    by (simp add: PlanRetention_Delete Let_def us_def [symmetric] bs_def [symmetric] len)
  also have "\<dots> \<longleftrightarrow> (\<exists>j < length us. bs ! j = b \<and> \<not> keeps r (retention_cutoff r now) j b)"
    by (rule ex_cong1) (auto simp: mem)
  also have "\<dots> \<longleftrightarrow> b \<in> set us \<and>
      \<not> keeps r (retention_cutoff r now) (card {c \<in> set us. backup_key c < backup_key b}) b"
  proof
    assume "\<exists>j < length us. bs ! j = b \<and> \<not> keeps r (retention_cutoff r now) j b"
    then obtain j where j: "j < length us" "bs ! j = b" "\<not> keeps r (retention_cutoff r now) j b"
      by blast
    then have "b \<in> set us" using len set_bs nth_mem [of j bs] by simp
    with j idx [of j] show "b \<in> set us \<and>
        \<not> keeps r (retention_cutoff r now) (card {c \<in> set us. backup_key c < backup_key b}) b" by simp
  next
    assume R: "b \<in> set us \<and>
        \<not> keeps r (retention_cutoff r now) (card {c \<in> set us. backup_key c < backup_key b}) b"
    then obtain j where "j < length us" "bs ! j = b"
      using set_bs len by (metis in_set_conv_nth)
    with R idx [of j] show "\<exists>j < length us. bs ! j = b \<and> \<not> keeps r (retention_cutoff r now) j b"
      by auto
  qed
  also have "\<dots> \<longleftrightarrow> Usable b
      \<and> BrKeepLast r \<le> int (card {c \<in> set backups. Usable c \<and> backup_key c < backup_key b})
      \<and> (\<exists>t. BkFinishedAt b = Some t \<and> (0 < KeepDays r \<longrightarrow> t < retention_cutoff r now))"
    using assms(2) by (auto simp: keeps_False us_def)
  finally show ?thesis .
qed

definition sample_backup :: "string \<Rightarrow> time \<Rightarrow> Backup" where
  "sample_backup i t = \<lparr>BackupID = i, BkPolicyID = ''p'', BkOperationID = ''o'',
     BkStatus = BackupSucceeded, StorageDigest = ''d'',
     LogicalBytes = 1, StoredBytes = 1, BkCompression = ''none'', EncryptionKeyID = [],
     BkResourceKind = ''files'', ServerVersion = [], ClientVersion = [], BkTool = [], Labels = [],
     BkStartedAt = 0, BkFinishedAt = Some t,
     VerifiedAt = None, VerifiedOK = None, BkErrorCode = [], BkErrorMessage = []\<rparr>"

definition keep_only :: "int \<Rightarrow> int \<Rightarrow> BackupRetention" where
  "keep_only n days = \<lparr>BrKeepLast = n, KeepDays = days, GFS = \<lparr>Daily = 0, Weekly = 0, Monthly = 0\<rparr>\<rparr>"

theorem retention_deletes_spec_witness:
  "''old'' \<in> set (Delete (PlanRetention (Some (keep_only 1 0))
     [sample_backup ''old'' 1, sample_backup ''new'' 2] 10))"
proof -
  define bs where "bs = [sample_backup ''old'' 1, sample_backup ''new'' 2]"
  have "{c \<in> set bs. Usable c \<and> backup_key c < backup_key (sample_backup ''old'' 1)}
      = {sample_backup ''new'' 2}"
    by (auto simp: bs_def Usable_def sample_backup_def backup_key_def less_recency_def)
  then have "BackupID (sample_backup ''old'' 1) \<in>
      set (Delete (PlanRetention (Some (keep_only 1 0)) bs 10))"
    by (subst retention_deletes_spec)
      (auto simp: bs_def sample_backup_def keep_only_def Usable_def)
  then show ?thesis by (simp add: bs_def sample_backup_def)
qed

lemma Delete_subset:
  assumes "d \<in> set (Delete (PlanRetention (Some r) backups now))"
  obtains b where "b \<in> set backups" "Usable b" "BackupID b = d"
proof -
  define bs where "bs = sort_key backup_key (filter Usable backups)"
  from assms obtain j where j: "j < length bs" "BackupID (bs ! j) = d"
    by (auto simp: PlanRetention_Delete Let_def bs_def)
  then have "bs ! j \<in> set bs" by simp
  then have "bs ! j \<in> set backups" "Usable (bs ! j)" by (simp_all add: bs_def)
  with j(2) show ?thesis using that by blast
qed

text \<open>Keeping and deleting split the usable backups: every usable backup is in exactly one of the
  two sets, and nothing else is in either.\<close>

theorem retention_partition:
  fixes r :: BackupRetention and now :: time
  assumes "distinct (map BackupID backups)"
  defines "plan \<equiv> PlanRetention (Some r) backups now"
  shows "set (Keep plan) \<union> set (Delete plan) = BackupID ` {b \<in> set backups. Usable b}
       \<and> set (Keep plan) \<inter> set (Delete plan) = {}"
proof -
  define bs where "bs = sort_key backup_key (filter Usable backups)"
  have bs: "set bs = {b \<in> set backups. Usable b}" by (auto simp: bs_def)
  have keep: "k \<in> set (Keep plan) \<longleftrightarrow> (\<exists>j < length bs. BackupID (bs ! j) = k \<and>
      keeps r (retention_cutoff r now) j (bs ! j))" for k
    by (simp add: plan_def PlanRetention_Keep Let_def bs_def)
  have del: "k \<in> set (Delete plan) \<longleftrightarrow> (\<exists>j < length bs. BackupID (bs ! j) = k \<and>
      \<not> keeps r (retention_cutoff r now) j (bs ! j))" for k
    by (simp add: plan_def PlanRetention_Delete Let_def bs_def)
  have dist: "distinct (map BackupID bs)"
    using assms(1) by (simp add: bs_def distinct_usable)
  have same: "i = j" if "i < length bs" "j < length bs" "BackupID (bs ! i) = BackupID (bs ! j)" for i j
    using dist that by (metis length_map nth_eq_iff_index_eq nth_map)
  have ids: "BackupID ` set bs = {BackupID (bs ! j) |j. j < length bs}"
    by (auto simp: set_conv_nth)
  have "set (Keep plan) \<union> set (Delete plan) = BackupID ` set bs"
    unfolding ids set_eq_iff Un_iff keep del by blast
  moreover have "\<not> (k \<in> set (Keep plan) \<and> k \<in> set (Delete plan))" for k
    unfolding keep del using same by metis
  then have "set (Keep plan) \<inter> set (Delete plan) = {}" by blast
  ultimately show ?thesis by (simp add: bs)
qed

theorem retention_partition_witness:
  "set (Keep (PlanRetention (Some (keep_only 1 0)) [sample_backup ''a'' 1] 10)) \<union>
   set (Delete (PlanRetention (Some (keep_only 1 0)) [sample_backup ''a'' 1] 10)) = {''a''}"
proof -
  have "distinct (map BackupID [sample_backup ''a'' 1])" by simp
  from retention_partition [OF this, of "keep_only 1 0" 10]
  have "set (Keep (PlanRetention (Some (keep_only 1 0)) [sample_backup ''a'' 1] 10)) \<union>
      set (Delete (PlanRetention (Some (keep_only 1 0)) [sample_backup ''a'' 1] 10)) =
      BackupID ` {b \<in> set [sample_backup ''a'' 1]. Usable b}" by (rule conjunct1)
  also have "{b \<in> set [sample_backup ''a'' 1]. Usable b} = {sample_backup ''a'' 1}"
    by (auto simp: Usable_def sample_backup_def)
  finally show ?thesis by (simp add: sample_backup_def)
qed

lemma sort_key_mset_cong:
  fixes f :: "'a \<Rightarrow> 'k :: linorder"
  assumes "mset xs = mset ys" and "distinct (map f xs)"
  shows "sort_key f xs = sort_key f ys"
proof -
  have dist: "distinct (map f ys)"
    using assms by (metis mset_eq_imp_distinct_iff mset_map)
  have "set xs = set ys" using assms(1) by (rule mset_eq_setD)
  then have "map f (sort_key f xs) = map f (sort_key f ys)"
    using assms(2) dist by (intro sorted_distinct_set_unique) auto
  moreover have "inj_on f (set (sort_key f xs) \<union> set (sort_key f ys))"
    using assms(2) \<open>set xs = set ys\<close> by (simp add: distinct_map)
  ultimately show ?thesis by (rule map_inj_on)
qed

text \<open>The plan is replayable: it does not depend on the order the backups are listed in, and once
  the deletions of a plan have been carried out the same plan has nothing more to delete.\<close>

theorem retention_replayable:
  fixes r :: BackupRetention and now :: time
  assumes "distinct (map BackupID backups)"
  defines "plan \<equiv> PlanRetention (Some r) backups now"
  shows "(mset backups' = mset backups \<longrightarrow> PlanRetention (Some r) backups' now = plan)
       \<and> Delete (PlanRetention (Some r) (filter (\<lambda>b. BackupID b \<notin> set (Delete plan)) backups) now) = []"
proof (intro conjI impI)
  assume "mset backups' = mset backups"
  then have "sort_key backup_key (filter Usable backups) = sort_key backup_key (filter Usable backups')"
    using assms(1) by (intro sort_key_mset_cong) (simp_all add: distinct_backup_key distinct_usable)
  then show "PlanRetention (Some r) backups' now = plan"
    by (simp add: plan_def PlanRetention_def sortUsableByRecency_sort_key)
next
  define rest where "rest = filter (\<lambda>b. BackupID b \<notin> set (Delete plan)) backups"
  have dist: "distinct (map BackupID rest)"
    using assms(1) by (auto simp: rest_def distinct_map intro: inj_on_subset)
  have False if d: "d \<in> set (Delete (PlanRetention (Some r) rest now))" for d
  proof -
    from d obtain b where b: "b \<in> set rest" "BackupID b = d" by (rule Delete_subset)
    have "card {c \<in> set rest. Usable c \<and> backup_key c < backup_key b}
        \<le> card {c \<in> set backups. Usable c \<and> backup_key c < backup_key b}"
      by (intro card_mono) (auto simp: rest_def)
    with d b retention_deletes_spec [OF dist b(1), of r now]
      retention_deletes_spec [OF assms(1), of b r now]
    have "BackupID b \<in> set (Delete plan)" by (auto simp: plan_def rest_def)
    with b show False by (simp add: rest_def)
  qed
  then show "Delete (PlanRetention (Some r) rest now) = []"
    by (metis list.set_intros(1) neq_Nil_conv)
qed

theorem retention_replayable_witness:
  "PlanRetention (Some (keep_only 1 0)) [sample_backup ''b'' 2, sample_backup ''a'' 1] 10
   = PlanRetention (Some (keep_only 1 0)) [sample_backup ''a'' 1, sample_backup ''b'' 2] 10"
proof -
  define xs where "xs = [sample_backup ''a'' 1, sample_backup ''b'' 2]"
  have "distinct (map BackupID xs)" by (simp add: xs_def sample_backup_def)
  from retention_replayable [OF this, of "[sample_backup ''b'' 2, sample_backup ''a'' 1]"]
  show ?thesis by (simp add: xs_def add_mset_commute)
qed

text \<open>The \<open>keepDays\<close> cut-off overflows for large values: with \<open>keepDays\<close> set to 999999 and no
  \<open>keepLast\<close> (a policy that is not empty and has no negative entry), a backup that has finished
  this very moment is deleted.\<close>

theorem retention_keep_days_overflow:
  "\<not> BackupRetention_Empty (keep_only 0 999999)
   \<and> Delete (PlanRetention (Some (keep_only 0 999999)) [sample_backup ''a'' now] now) = [''a'']"
  by (simp add: BackupRetention_Empty_def keep_only_def PlanRetention_def sortUsableByRecency_def
      slice_stable_def Usable_def sample_backup_def keeps_def retention_cutoff_def wrap64_def
      duration_defs)

end
