(* ===== verification/GoStrings.thy ===== *)
theory GoStrings
  imports Prelude "HOL-Library.Sublist"
begin

text \<open>
  The functions of Go's \<open>strings\<close> and \<open>path\<close> packages the program uses, on byte lists:
  \<open>TrimSpace\<close>, \<open>HasPrefix\<close>, \<open>Cut\<close>, \<open>ReplaceAll\<close>, \<open>Split\<close>, \<open>path.Clean\<close> and \<open>path.Join\<close>.
\<close>

section \<open>TrimSpace\<close>

text \<open>The UTF-8 encodings of the white-space characters of Unicode, which \<open>TrimSpace\<close> removes.\<close>

definition space_encodings :: "string list" where
  "space_encodings =
     map (\<lambda>c. [c]) [CHR 0x09, CHR 0x0A, CHR 0x0B, CHR 0x0C, CHR 0x0D, CHR 0x20]
     @ [[CHR 0xC2, CHR 0x85], [CHR 0xC2, CHR 0xA0], [CHR 0xE1, CHR 0x9A, CHR 0x80]]
     @ map (\<lambda>c. [CHR 0xE2, CHR 0x80, c])
         [CHR 0x80, CHR 0x81, CHR 0x82, CHR 0x83, CHR 0x84, CHR 0x85, CHR 0x86, CHR 0x87, CHR 0x88,
          CHR 0x89, CHR 0x8A, CHR 0xA8, CHR 0xA9, CHR 0xAF]
     @ [[CHR 0xE2, CHR 0x81, CHR 0x9F], [CHR 0xE3, CHR 0x80, CHR 0x80]]"

text \<open>Removes the listed (non-empty) prefixes as long as there is one.\<close>

function strip_prefixes :: "string list \<Rightarrow> string \<Rightarrow> string" where
  "strip_prefixes es s =
     (case find (\<lambda>e. e \<noteq> [] \<and> prefix e s) es of
        None \<Rightarrow> s
      | Some e \<Rightarrow> strip_prefixes es (drop (length e) s))"
  by pat_completeness auto

termination strip_prefixes
proof (relation "measure (\<lambda>(es, s). length s)", simp)
  fix es s e assume "find (\<lambda>e. e \<noteq> [] \<and> prefix e s) es = Some e"
  then have "e \<noteq> []" "prefix e s" by (auto simp: find_Some_iff)
  then show "((es, drop (length e) s), (es, s)) \<in> measure (\<lambda>(es, s). length s)"
    using prefix_length_le [of e s] by (cases e) auto
qed

declare strip_prefixes.simps [simp del]

definition TrimSpace :: "string \<Rightarrow> string" where
  "TrimSpace s =
     rev (strip_prefixes (map rev space_encodings) (rev (strip_prefixes space_encodings s)))"

definition blank :: "string \<Rightarrow> bool" where
  "blank s \<longleftrightarrow> TrimSpace s = []"

lemma strip_prefixes_id:
  assumes "\<And>e. e \<in> set es \<Longrightarrow> e \<noteq> [] \<Longrightarrow> \<not> prefix e s"
  shows "strip_prefixes es s = s"
  using assms by (subst strip_prefixes.simps) (auto split: option.splits simp: find_Some_iff)

lemma strip_prefixes_suffix: "suffix (strip_prefixes es s) s"
proof (induction es s rule: strip_prefixes.induct)
  case (1 es s)
  show ?case
  proof (cases "find (\<lambda>e. e \<noteq> [] \<and> prefix e s) es")
    case None
    then show ?thesis by (subst strip_prefixes.simps) simp
  next
    case (Some e)
    from 1 [OF Some] have "suffix (strip_prefixes es (drop (length e) s)) s"
      using suffix_drop suffix_order.trans by blast
    with Some show ?thesis by (subst strip_prefixes.simps) simp
  qed
qed

lemma strip_prefixes_done:
  "e \<in> set es \<Longrightarrow> e \<noteq> [] \<Longrightarrow> \<not> prefix e (strip_prefixes es s)"
proof (induction es s rule: strip_prefixes.induct)
  case (1 es s)
  show ?case
  proof (cases "find (\<lambda>e. e \<noteq> [] \<and> prefix e s) es")
    case None
    then have "strip_prefixes es s = s" by (subst strip_prefixes.simps) simp
    with None 1 show ?thesis by (auto simp: find_None_iff)
  next
    case (Some e')
    with 1 show ?thesis by (subst strip_prefixes.simps) simp
  qed
qed

text \<open>Texts that begin and end with a byte that is no part of a white-space character are kept.\<close>

definition solid :: "char \<Rightarrow> bool" where
  "solid c \<longleftrightarrow> (\<forall>e \<in> set space_encodings. c \<notin> set e)"

lemma space_encodings_nonempty: "[] \<notin> set space_encodings"
  by (simp add: space_encodings_def image_iff)

lemma prefix_hd: "prefix e s \<Longrightarrow> e \<noteq> [] \<Longrightarrow> hd s \<in> set e"
  by (cases e; cases s) auto

lemma TrimSpace_solid:
  assumes "s \<noteq> []" "solid (hd s)" "solid (last s)"
  shows "TrimSpace s = s"
proof -
  have "strip_prefixes space_encodings s = s"
    using assms prefix_hd by (intro strip_prefixes_id) (auto simp: solid_def)
  moreover have "strip_prefixes (map rev space_encodings) (rev s) = rev s"
  proof (rule strip_prefixes_id)
    fix e assume e: "e \<in> set (map rev space_encodings)" "e \<noteq> []"
    then obtain d where d: "d \<in> set space_encodings" "e = rev d" by auto
    show "\<not> prefix e (rev s)"
    proof
      assume "prefix e (rev s)"
      with e prefix_hd have "hd (rev s) \<in> set e" by blast
      with assms d show False by (auto simp: solid_def hd_rev)
    qed
  qed
  ultimately show ?thesis by (simp add: TrimSpace_def)
qed

lemma TrimSpace_Nil [simp]: "TrimSpace [] = []"
proof -
  have "strip_prefixes es [] = []" for es
    using strip_prefixes_suffix [of es "[]"] by simp
  then show ?thesis by (simp add: TrimSpace_def)
qed

lemma blank_Nil [simp]: "blank []"
  by (simp add: blank_def)

lemma solid_code [code]: "solid c = list_all (\<lambda>e. c \<notin> set e) space_encodings"
  by (simp add: solid_def list_all_iff)

lemma solid_not_blank: "s \<noteq> [] \<Longrightarrow> solid (hd s) \<Longrightarrow> solid (last s) \<Longrightarrow> \<not> blank s"
  by (simp add: blank_def TrimSpace_solid)

section \<open>ReplaceAll\<close>

text \<open>\<open>strings.ReplaceAll\<close> for a non-empty old text, the only case the program has: leftmost
  occurrences first, not overlapping.\<close>

function ReplaceAll :: "string \<Rightarrow> string \<Rightarrow> string \<Rightarrow> string" where
  "ReplaceAll [] new s = s"
| "ReplaceAll (c # cs) new [] = []"
| "ReplaceAll (c # cs) new (x # xs) =
     (if prefix (c # cs) (x # xs) then new @ ReplaceAll (c # cs) new (drop (length cs) xs)
      else x # ReplaceAll (c # cs) new xs)"
  by pat_completeness auto
termination by (relation "measure (\<lambda>(old, new, s). length s)") auto

lemma ReplaceAll_miss:
  "\<not> prefix old (x # xs) \<Longrightarrow> ReplaceAll old new (x # xs) = x # ReplaceAll old new xs"
  by (cases old) auto

lemma ReplaceAll_absent: "\<not> sublist old s \<Longrightarrow> ReplaceAll old new s = s"
  by (induction old new s rule: ReplaceAll.induct) (auto simp: sublist_Cons_right)

text \<open>A text without the byte \<open>x\<close> that occurs in \<open>a @ x # b\<close> occurs in \<open>a\<close> or in \<open>b\<close>.\<close>

lemma sublist_around:
  assumes "x \<notin> set v"
  shows "sublist v (a @ x # b) \<longleftrightarrow> sublist v a \<or> sublist v b"
proof
  assume "sublist v (a @ x # b)"
  then show "sublist v a \<or> sublist v b"
  proof (induction a)
    case Nil
    then show ?case using assms by (cases v) (auto simp: sublist_Cons_right)
  next
    case (Cons y a)
    from Cons.prems have "prefix v (y # a @ x # b) \<or> sublist v (a @ x # b)"
      by (simp add: sublist_Cons_right)
    then show ?case
    proof
      assume "prefix v (y # a @ x # b)"
      then have "prefix v ((y # a) @ x # b)" by simp
      then have "prefix v (y # a)"
        using assms unfolding prefix_append by (auto simp: prefix_Cons)
      then show ?thesis by (meson prefix_imp_sublist)
    next
      assume "sublist v (a @ x # b)"
      with Cons.IH show ?thesis by (auto simp: sublist_Cons_right)
    qed
  qed
next
  assume "sublist v a \<or> sublist v b"
  then show "sublist v (a @ x # b)"
    by (auto simp: sublist_append sublist_Cons_right)
qed

section \<open>Cut, Split\<close>

text \<open>\<open>strings.Cut\<close> at a single byte: before, after and whether the byte occurs.\<close>

definition Cut :: "string \<Rightarrow> char \<Rightarrow> string \<times> string \<times> bool" where
  "Cut s c = (if c \<in> set s then (takeWhile (\<lambda>x. x \<noteq> c) s, tl (dropWhile (\<lambda>x. x \<noteq> c) s), True)
              else (s, [], False))"

text \<open>\<open>strings.Split\<close> at a single byte.\<close>

fun Split :: "char \<Rightarrow> string \<Rightarrow> string list" where
  "Split c [] = [[]]"
| "Split c (x # xs) =
     (if x = c then [] # Split c xs
      else case Split c xs of [] \<Rightarrow> [[x]] | y # ys \<Rightarrow> (x # y) # ys)"

lemma Split_nonempty [simp]: "Split c s \<noteq> []"
  by (induction s) (auto split: list.splits)

lemma Split_parts: "p \<in> set (Split c s) \<Longrightarrow> c \<notin> set p"
  by (induction s arbitrary: p) (auto split: list.splits if_splits)

fun Join :: "char \<Rightarrow> string list \<Rightarrow> string" where
  "Join c [] = []"
| "Join c [p] = p"
| "Join c (p # q # ps) = p @ c # Join c (q # ps)"

lemma Join_Cons: "ps \<noteq> [] \<Longrightarrow> Join c (p # ps) = p @ c # Join c ps"
  by (cases ps) auto

lemma Join_Split [simp]: "Join c (Split c s) = s"
proof (induction s)
  case (Cons x xs)
  obtain y ys where "Split c xs = y # ys" by (cases "Split c xs") auto
  with Cons show ?case by (cases ys) auto
qed simp

lemma Split_append: "c \<notin> set p \<Longrightarrow> Split c (p @ c # s) = p # Split c s"
  by (induction p) auto

lemma Split_single: "c \<notin> set p \<Longrightarrow> Split c p = [p]"
  by (induction p) auto

lemma Split_Join: "ps \<noteq> [] \<Longrightarrow> (\<And>p. p \<in> set ps \<Longrightarrow> c \<notin> set p) \<Longrightarrow> Split c (Join c ps) = ps"
  by (induction c ps rule: Join.induct) (auto simp: Split_append Split_single)

section \<open>Paths\<close>

text \<open>\<open>path.Clean\<close> on the segments of a path: the stack holds the segments kept so far, the last
  one first.\<close>

definition clean_segment :: "bool \<Rightarrow> string \<Rightarrow> string list \<Rightarrow> string list" where
  "clean_segment rooted seg stack =
     (if seg = [] \<or> seg = ''.'' then stack
      else if seg = ''..'' then
        (case stack of
           t # rest \<Rightarrow> if t \<noteq> ''..'' then rest else ''..'' # stack
         | [] \<Rightarrow> if rooted then [] else [''..''])
      else seg # stack)"

definition PathClean :: "string \<Rightarrow> string" where
  "PathClean p =
     (if p = [] then ''.''
      else let rooted = hd p = CHR ''/'';
               segs = rev (fold (clean_segment rooted) (Split CHR ''/'' p) [])
           in if rooted then CHR ''/'' # Join CHR ''/'' segs
              else if segs = [] then ''.'' else Join CHR ''/'' segs)"

definition PathJoin :: "string list \<Rightarrow> string" where
  "PathJoin elems =
     (let parts = filter (\<lambda>e. e \<noteq> []) elems
      in if parts = [] then [] else PathClean (Join CHR ''/'' parts))"

definition PathIsAbs :: "string \<Rightarrow> bool" where
  "PathIsAbs p = prefix ''/'' p"

end
