(* ===== verification/Secret.thy ===== *)
theory Secret
  imports GoStrings ApiErrors
begin

text \<open>
  Secrets and their redaction (\<open>internal/domain/secret.go\<close>, \<open>internal/domain/redact.go\<close>). A
  \<open>*Redactor\<close> is an option: \<open>None\<close> is the nil pointer. \<open>sort.Slice\<close> is not stable, so the order of
  values of equal length is a parameter: the contract of the sort is the locale \<open>slice_sorter\<close>.
\<close>

section \<open>References to secrets\<close>

datatype SecretKind = SecretKindEnv | SecretKindFile | SecretKindOther string

record SecretRef =
  RefKind :: SecretKind
  RefName :: string

definition SecretRef_Validate :: "SecretRef \<Rightarrow> ErrorCode option" where
  "SecretRef_Validate r =
     first_err [
       fail_if (RefKind r \<noteq> SecretKindEnv \<and> RefKind r \<noteq> SecretKindFile) CodeInvalidRequest,
       fail_if (blank (RefName r)) CodeInvalidRequest]"

section \<open>Redaction by value\<close>

definition RedactedPlaceholder :: string where "RedactedPlaceholder = ''[redacted]''"

record Redactor =
  Values :: "string list"

text \<open>The values that are kept: not empty, first occurrences only.\<close>

fun unique_values :: "string list \<Rightarrow> string list \<Rightarrow> string list" where
  "unique_values seen [] = []"
| "unique_values seen (v # vs) =
     (if v = [] \<or> v \<in> set seen then unique_values seen vs
      else v # unique_values (v # seen) vs)"

type_synonym sorter = "(string \<Rightarrow> string \<Rightarrow> bool) \<Rightarrow> string list \<Rightarrow> string list"

definition longer :: "string \<Rightarrow> string \<Rightarrow> bool" where
  "longer a b \<longleftrightarrow> length b < length a"

definition NewRedactor :: "sorter \<Rightarrow> string list \<Rightarrow> Redactor" where
  "NewRedactor sort_slice vs = \<lparr>Values = sort_slice longer (unique_values [] vs)\<rparr>"

definition Redact :: "Redactor option \<Rightarrow> string \<Rightarrow> string" where
  "Redact r text =
     (case r of
        None \<Rightarrow> text
      | Some red \<Rightarrow>
          if text = [] \<or> Values red = [] then text
          else fold (\<lambda>v t. ReplaceAll v RedactedPlaceholder t) (Values red) text)"

definition RedactFields :: "Redactor option \<Rightarrow> (string \<times> string) list \<Rightarrow> (string \<times> string) list" where
  "RedactFields r kvs =
     (case r of
        None \<Rightarrow> kvs
      | Some red \<Rightarrow>
          if kvs = [] \<or> Values red = [] then kvs
          else map (\<lambda>(k, v). (k, Redact r v)) kvs)"

definition Redactor_Empty :: "Redactor option \<Rightarrow> bool" where
  "Redactor_Empty r \<longleftrightarrow> (case r of None \<Rightarrow> True | Some red \<Rightarrow> Values red = [])"

section \<open>Redaction by position and key\<close>

fun RedactArgv :: "string list \<Rightarrow> int list \<Rightarrow> string list" where
  "RedactArgv argv [] = argv"
| "RedactArgv argv (i # is) =
     RedactArgv (if 0 \<le> i \<and> i < int (length argv) then argv[nat i := RedactedPlaceholder] else argv) is"

definition RedactEnv :: "(string \<times> string) list \<Rightarrow> string list \<Rightarrow> (string \<times> string) list" where
  "RedactEnv env sensitiveKeys =
     map (\<lambda>(k, v). (k, if k \<in> set sensitiveKeys then RedactedPlaceholder else v)) env"

section \<open>What does not survive\<close>

text \<open>The values a replacement can remove for good: they do not touch the placeholder.\<close>

definition redactable :: "string \<Rightarrow> bool" where
  "redactable v \<longleftrightarrow> v \<noteq> [] \<and> CHR ''['' \<notin> set v \<and> CHR '']'' \<notin> set v \<and> \<not> sublist v ''redacted''"

lemma placeholder_split: "RedactedPlaceholder @ s = [] @ CHR ''['' # (''redacted'' @ CHR '']'' # s)"
  by (simp add: RedactedPlaceholder_def)

lemma sublist_placeholder:
  assumes "redactable v"
  shows "sublist v (RedactedPlaceholder @ s) \<longleftrightarrow> sublist v s"
proof -
  from assms have v: "v \<noteq> []" "CHR ''['' \<notin> set v" "CHR '']'' \<notin> set v" "\<not> sublist v ''redacted''"
    by (simp_all add: redactable_def)
  show ?thesis
    unfolding placeholder_split sublist_around [OF v(2)] sublist_around [OF v(3)]
    using v(1,4) by simp
qed

text \<open>A prefix without brackets of the replaced text was there before.\<close>

lemma prefix_ReplaceAll:
  assumes "CHR ''['' \<notin> set v" and "prefix v (ReplaceAll w RedactedPlaceholder s)"
  shows "prefix v s"
  using assms
proof (induction w RedactedPlaceholder s arbitrary: v rule: ReplaceAll.induct)
  case (3 c cs x xs)
  show ?case
  proof (cases "prefix (c # cs) (x # xs)")
    case True
    with 3(4) have "prefix v (RedactedPlaceholder @
        ReplaceAll (c # cs) RedactedPlaceholder (drop (length cs) xs))" by simp
    then have "v = []" using 3(3) by (cases v) (auto simp: RedactedPlaceholder_def)
    then show ?thesis by simp
  next
    case False
    with 3(4) have pre: "prefix v (x # ReplaceAll (c # cs) RedactedPlaceholder xs)"
      by (simp add: split: if_splits)
    show ?thesis
    proof (cases v)
      case (Cons y v')
      with pre have "y = x" "prefix v' (ReplaceAll (c # cs) RedactedPlaceholder xs)" by auto
      with 3(2) [OF False, of v'] 3(3) Cons show ?thesis by simp
    qed simp
  qed
qed auto

lemma ReplaceAll_removes:
  assumes "redactable v"
  shows "\<not> sublist v (ReplaceAll v RedactedPlaceholder s)"
  using assms
proof (induction v RedactedPlaceholder s rule: ReplaceAll.induct)
  case (3 c cs x xs)
  let ?R = "ReplaceAll (c # cs) RedactedPlaceholder xs"
  show ?case
  proof (cases "prefix (c # cs) (x # xs)")
    case True
    with 3 show ?thesis by (simp add: sublist_placeholder)
  next
    case False
    have "\<not> prefix (c # cs) (x # ?R)"
    proof
      assume "prefix (c # cs) (x # ?R)"
      then have "c = x" "prefix cs ?R" by auto
      moreover from 3(3) have "CHR ''['' \<notin> set cs" by (simp add: redactable_def)
      ultimately have "prefix (c # cs) (x # xs)" using prefix_ReplaceAll by simp
      with False show False by simp
    qed
    with 3(2) [OF False 3(3)] show ?thesis
      unfolding ReplaceAll_miss [OF False] sublist_Cons_right by blast
  qed
qed (auto simp: redactable_def)

lemma ReplaceAll_keeps_absent:
  assumes "redactable v" and "\<not> sublist v s"
  shows "\<not> sublist v (ReplaceAll w RedactedPlaceholder s)"
  using assms
proof (induction w RedactedPlaceholder s rule: ReplaceAll.induct)
  case (3 c cs x xs)
  let ?R = "ReplaceAll (c # cs) RedactedPlaceholder xs"
  show ?case
  proof (cases "prefix (c # cs) (x # xs)")
    case True
    have "\<not> sublist v (drop (length cs) xs)"
      using 3(4) by (metis sublist_Cons_right sublist_drop sublist_order.order.trans)
    with 3(1) [OF True 3(3)] 3(3) True show ?thesis by (simp add: sublist_placeholder)
  next
    case False
    have "\<not> prefix v (x # ?R)"
    proof
      assume pre: "prefix v (x # ?R)"
      from 3(3) obtain y v' where v: "v = y # v'" by (cases v) (auto simp: redactable_def)
      with pre have "y = x" "prefix v' ?R" by auto
      moreover from 3(3) v have "CHR ''['' \<notin> set v'" by (simp add: redactable_def)
      ultimately have "prefix v (x # xs)" using prefix_ReplaceAll v by simp
      with 3(4) show False by (meson prefix_imp_sublist)
    qed
    moreover have "\<not> sublist v ?R"
      using 3(2) [OF False 3(3)] 3(4) by (simp add: sublist_Cons_right)
    ultimately show ?thesis unfolding ReplaceAll_miss [OF False] sublist_Cons_right by blast
  qed
qed auto

lemma fold_ReplaceAll_keeps_absent:
  assumes "redactable v" and "\<not> sublist v s"
  shows "\<not> sublist v (fold (\<lambda>w t. ReplaceAll w RedactedPlaceholder t) ws s)"
  using assms(2) by (induction ws arbitrary: s) (simp_all add: ReplaceAll_keeps_absent assms(1))

lemma fold_ReplaceAll_removes:
  assumes "redactable v" and "v \<in> set ws"
  shows "\<not> sublist v (fold (\<lambda>w t. ReplaceAll w RedactedPlaceholder t) ws s)"
  using assms(2)
proof (induction ws arbitrary: s)
  case (Cons w ws)
  show ?case
  proof (cases "v = w")
    case True
    then show ?thesis
      using fold_ReplaceAll_keeps_absent [OF assms(1) ReplaceAll_removes [OF assms(1)]] by simp
  next
    case False
    with Cons show ?thesis by simp
  qed
qed simp

lemma Redact_removes:
  assumes "redactable v" and "v \<in> set (Values r)"
  shows "\<not> sublist v (Redact (Some r) text)"
  using fold_ReplaceAll_removes [OF assms] assms by (auto simp: Redact_def redactable_def)

lemma set_unique_values: "set (unique_values seen vs) = set vs - insert [] (set seen)"
  by (induction seen vs rule: unique_values.induct) auto

lemma distinct_unique_values: "distinct (unique_values seen vs)"
  by (induction seen vs rule: unique_values.induct) (auto simp: set_unique_values)

section \<open>The contract of the sort\<close>

locale slice_sorter =
  fixes sort_slice :: sorter
  assumes permutes: "mset (sort_slice lt xs) = mset xs"
    and longest_first: "sorted_wrt (\<lambda>a b. length b \<le> length a) (sort_slice longer xs)"
begin

lemma set_values: "set (Values (NewRedactor sort_slice vs)) = set vs - {[]}"
proof -
  have "set (sort_slice longer (unique_values [] vs)) = set (unique_values [] vs)"
    using permutes by (rule mset_eq_setD)
  then show ?thesis by (simp add: NewRedactor_def set_unique_values)
qed

lemma removes:
  assumes "redactable v" and "v \<in> set vs"
  shows "\<not> sublist v (Redact (Some (NewRedactor sort_slice vs)) text)"
  using assms by (intro Redact_removes) (auto simp: set_values redactable_def)

text \<open>A value that contains another one is replaced first: where it occurs, the shorter value leaves
  nothing of it behind.\<close>

lemma contained_later:
  assumes "Values (NewRedactor sort_slice vs) = xs @ v # ys" and "w \<in> set ys"
  shows "\<not> strict_sublist v w"
proof
  assume "strict_sublist v w"
  then have "length v < length w"
    unfolding strict_sublist_def sublist_def by auto
  moreover have "sorted_wrt (\<lambda>a b. length b \<le> length a) (xs @ v # ys)"
    using assms(1) longest_first [of "unique_values [] vs"] by (simp add: NewRedactor_def)
  ultimately show False using assms(2) by (auto simp: sorted_wrt_append)
qed

end

lemma slice_stable_longer: "slice_stable longer xs = sort_key (\<lambda>s. - int (length s)) xs"
  by (rule slice_stable_sort_key) (simp add: longer_def)

lemma mset_insert_by [simp]: "mset (insert_by lt x xs) = add_mset x (mset xs)"
  by (induction xs) auto

lemma mset_slice_stable [simp]: "mset (slice_stable lt xs) = mset xs"
  unfolding slice_stable_def by (induction xs) auto

interpretation redaction_order: slice_sorter slice_stable
proof
  fix lt :: "string \<Rightarrow> string \<Rightarrow> bool" and xs
  show "mset (slice_stable lt xs) = mset xs" by simp
  have "sorted (map (\<lambda>s. - int (length s)) (slice_stable longer xs))"
    by (simp add: slice_stable_longer)
  then show "sorted_wrt (\<lambda>a b. length b \<le> length a) (slice_stable longer xs)"
    by (simp add: sorted_map)
qed

text \<open>A secret that was handed to the redactor occurs nowhere in a redacted text, wherever it stood
  and whatever the other secrets are, provided it has no square bracket and is not a part of the word
  \<open>redacted\<close> itself (the placeholder contains those). The sort is any that meets the contract of
  \<open>sort.Slice\<close>.\<close>

theorem redact_removes_secrets:
  assumes "slice_sorter sort_slice" and "v \<in> set secrets" and "v \<noteq> []"
    and "CHR ''['' \<notin> set v" and "CHR '']'' \<notin> set v" and "\<not> sublist v ''redacted''"
  shows "\<not> sublist v (Redact (Some (NewRedactor sort_slice secrets)) text)"
  using assms by (intro slice_sorter.removes) (simp_all add: redactable_def)

theorem redact_removes_secrets_witness:
  "\<not> sublist ''hunter2'' (Redact (Some (NewRedactor slice_stable [''hunter'', ''hunter2''])) ''pw=hunter2!'')"
  by (rule redact_removes_secrets [OF redaction_order.slice_sorter_axioms]) (simp_all add: sublist_code)

end
