(* ===== verification/Principal.thy ===== *)
theory Principal
  imports GoStrings ApiErrors
begin

text \<open>
  Callers, deployment targets, hosts and artifacts (\<open>internal/domain/principal.go\<close>, \<open>target.go\<close>,
  \<open>host.go\<close>, \<open>artifact.go\<close>). The request context carries at most one \<open>Principal\<close>: it is modelled
  by \<open>Principal option\<close>.
\<close>

section \<open>Principals\<close>

datatype PrincipalKind = PrincipalKindLocal | PrincipalKindRemote | PrincipalKindOther string

datatype AccessScope = ScopeRead | ScopeWrite | ScopeOther string

record Principal =
  PrKind :: PrincipalKind
  PrName :: string
  PrScope :: AccessScope
  Applications :: "string list"

definition Allows :: "AccessScope \<Rightarrow> AccessScope \<Rightarrow> bool" where
  "Allows s want \<longleftrightarrow> (if s = ScopeWrite then True else s = ScopeRead \<and> want = ScopeRead)"

definition AccessScope_Valid :: "AccessScope \<Rightarrow> bool" where
  "AccessScope_Valid s \<longleftrightarrow> s = ScopeRead \<or> s = ScopeWrite"

definition LocalPrincipal :: Principal where
  "LocalPrincipal =
     \<lparr>PrKind = PrincipalKindLocal, PrName = [], PrScope = ScopeWrite, Applications = []\<rparr>"

definition IsRemote :: "Principal \<Rightarrow> bool" where
  "IsRemote p \<longleftrightarrow> PrKind p = PrincipalKindRemote"

definition AllowsApplication :: "Principal \<Rightarrow> string \<Rightarrow> bool" where
  "AllowsApplication p name \<longleftrightarrow> (if Applications p = [] then True else name \<in> set (Applications p))"

record RemoteIdentity =
  CN :: string
  IdScope :: AccessScope
  IdApplications :: "string list"

definition RemoteIdentity_Principal :: "RemoteIdentity \<Rightarrow> Principal" where
  "RemoteIdentity_Principal r =
     \<lparr>PrKind = PrincipalKindRemote, PrName = CN r, PrScope = IdScope r, Applications = IdApplications r\<rparr>"

text \<open>The pair of the trusted actor and the claimed one.\<close>

definition ClaimedActor :: "Principal option \<Rightarrow> string \<Rightarrow> string \<times> string" where
  "ClaimedActor ctx createdBy =
     (let claimed = TrimSpace createdBy
      in case ctx of
           None \<Rightarrow> (claimed, [])
         | Some p \<Rightarrow>
             if \<not> IsRemote p then (claimed, [])
             else let actor = ''remote:'' @ PrName p
                  in if claimed \<noteq> [] \<and> claimed \<noteq> actor then (actor, claimed) else (actor, []))"

text \<open>Whatever the request body of a remote caller claims, the actor is the certificate's name.\<close>

lemma ClaimedActor_remote:
  assumes "IsRemote p"
  shows "fst (ClaimedActor (Some p) createdBy) = ''remote:'' @ PrName p"
  using assms by (auto simp: ClaimedActor_def Let_def)

lemma ClaimedActor_local:
  assumes "case ctx of None \<Rightarrow> True | Some p \<Rightarrow> \<not> IsRemote p"
  shows "ClaimedActor ctx createdBy = (TrimSpace createdBy, [])"
  using assms by (auto simp: ClaimedActor_def Let_def split: option.splits)

section \<open>Deployment targets\<close>

fun normalize_loop :: "string list \<Rightarrow> string list \<Rightarrow> string list" where
  "normalize_loop seen [] = []"
| "normalize_loop seen (host # hosts) =
     (let name = TrimSpace host
      in if name = [] then normalize_loop seen hosts
         else if name \<in> set seen then normalize_loop seen hosts
         else name # normalize_loop (name # seen) hosts)"

definition NormalizeTargets :: "string list \<Rightarrow> string list" where
  "NormalizeTargets hosts = normalize_loop [] hosts"

definition ValidateApplicationName :: "string \<Rightarrow> ErrorCode option" where
  "ValidateApplicationName name = fail_if (blank name) CodeInvalidRequest"

lemma normalize_loop_set:
  "set (normalize_loop seen hosts) = TrimSpace ` set hosts - insert [] (set seen)"
  by (induction seen hosts rule: normalize_loop.induct) (auto simp: Let_def)

lemma normalize_loop_distinct: "distinct (normalize_loop seen hosts)"
  by (induction seen hosts rule: normalize_loop.induct) (auto simp: Let_def normalize_loop_set)

lemma normalize_loop_subseq:
  "subseq (normalize_loop seen hosts) (map TrimSpace hosts)"
  by (induction seen hosts rule: normalize_loop.induct) (auto simp: Let_def)

lemma NormalizeTargets_set: "set (NormalizeTargets hosts) = TrimSpace ` set hosts - {[]}"
  by (simp add: NormalizeTargets_def normalize_loop_set)

lemma NormalizeTargets_distinct [simp]: "distinct (NormalizeTargets hosts)"
  by (simp add: NormalizeTargets_def normalize_loop_distinct)

section \<open>Hosts and environments\<close>

record Host =
  HostID :: string
  HostName :: string
  Address :: string
  HostLabels :: "(string \<times> string) list"
  HostCreatedAt :: time
  HostUpdatedAt :: time

definition Host_Validate :: "Host \<Rightarrow> ErrorCode option" where
  "Host_Validate h = fail_if (blank (HostName h)) CodeInvalidRequest"

section \<open>Artifacts\<close>

definition digestAlgorithm :: string where "digestAlgorithm = ''sha256''"

definition lower_hex :: "char \<Rightarrow> bool" where
  "lower_hex c \<longleftrightarrow> (CHR ''0'' \<le> c \<and> c \<le> CHR ''9'') \<or> (CHR ''a'' \<le> c \<and> c \<le> CHR ''f'')"

definition Digest_Validate :: "string \<Rightarrow> ErrorCode option" where
  "Digest_Validate d =
     (case Cut d (CHR '':'') of (algorithm, hexPart, found) \<Rightarrow>
       first_err [
         fail_if (\<not> found \<or> algorithm \<noteq> digestAlgorithm) CodeInvalidRequest,
         fail_if (length hexPart \<noteq> 64) CodeInvalidRequest,
         fail_if (list_ex (\<lambda>c. \<not> lower_hex c) hexPart) CodeInvalidRequest])"

definition ParseDigest :: "string \<Rightarrow> ErrorCode + string" where
  "ParseDigest value = (case Digest_Validate value of Some e \<Rightarrow> Inl e | None \<Rightarrow> Inr value)"

definition hex_digit :: "nat \<Rightarrow> char" where
  "hex_digit n = (if n < 10 then char_of (48 + n) else char_of (87 + n))"

definition NewDigestFromHash :: "nat list \<Rightarrow> string" where
  "NewDigestFromHash bs =
     digestAlgorithm @ '':'' @ concat (map (\<lambda>b. [hex_digit (b div 16), hex_digit (b mod 16)]) bs)"

record Artifact =
  ArtID :: string
  ArtDigest :: string
  ArtSize :: int
  MediaType :: string
  ArtName :: string
  ArtCreatedAt :: time
  ArtCreatedBy :: string
  DeletedAt :: "time option"

definition Artifact_Validate :: "Artifact \<Rightarrow> ErrorCode option" where
  "Artifact_Validate a =
     first_err [
       Digest_Validate (ArtDigest a),
       fail_if (ArtSize a < 0) CodeInvalidRequest,
       fail_if (ArtID a = []) CodeInternal]"

definition Deleted :: "Artifact \<Rightarrow> bool" where
  "Deleted a \<longleftrightarrow> DeletedAt a \<noteq> None"

end
