(* ===== verification/Release.thy ===== *)
theory Release
  imports GoStrings ApiErrors
begin

text \<open>
  Releases and slots (\<open>internal/domain/release.go\<close>, \<open>internal/domain/slotevent.go\<close>): their states,
  and which release directories the keep-last policy removes.
\<close>

section \<open>Records\<close>

datatype ReleaseStatus =
    ReleaseCreated | ReleaseDeploying | ReleaseActive | ReleaseStandby | ReleaseSuperseded
  | ReleaseFailed | ReleaseRemoved | ReleaseStatusOther string

definition Rollbackable :: "ReleaseStatus \<Rightarrow> bool" where
  "Rollbackable s \<longleftrightarrow> s = ReleaseActive \<or> s = ReleaseSuperseded"

datatype SlotState = SlotServing | SlotStandby | SlotDraining | SlotStopped | SlotFailed
  | SlotStateOther string

fun SlotState_Valid :: "SlotState \<Rightarrow> bool" where
  "SlotState_Valid (SlotStateOther _) = False"
| "SlotState_Valid _ = True"

text \<open>A slot name: the empty string (no slot), blue, green, or anything else a client sends.\<close>

datatype Slot = NoSlot | SlotBlue | SlotGreen | SlotOther string

record Application =
  AppID :: string
  AppName :: string
  AppLabels :: "(string \<times> string) list"
  AppCreatedAt :: time
  AppUpdatedAt :: time

definition Application_Validate :: "Application \<Rightarrow> ErrorCode option" where
  "Application_Validate a = fail_if (blank (AppName a)) CodeInvalidRequest"

record ApplicationSlot =
  AsApplicationID :: string
  AsSlot :: Slot
  AsReleaseID :: string
  AsState :: SlotState
  SwitchedAt :: "time option"
  AsUpdatedAt :: time

record Release =
  RelID :: string
  RelApplicationID :: string
  ArtifactID :: string
  RelVersion :: string
  RelLabels :: "(string \<times> string) list"
  RelCreatedAt :: time
  RelCreatedBy :: string
  RelStatus :: ReleaseStatus
  RelSlot :: Slot
  Directory :: string
  ActivatedAt :: "time option"
  RelFinishedAt :: "time option"
  RelErrorCode :: "ErrorCode option"
  RelErrorMessage :: string

definition Release_Validate :: "Release \<Rightarrow> ErrorCode option" where
  "Release_Validate r =
     first_err [
       fail_if (blank (RelApplicationID r)) CodeInvalidRequest,
       fail_if (blank (ArtifactID r)) CodeInvalidRequest,
       fail_if (blank (RelVersion r)) CodeInvalidRequest]"

datatype SlotEventKind =
    SlotEventSwitched | SlotEventObserved | SlotEventFailed | SlotEventStopped | SlotEventReconciled
  | SlotEventOther string

fun SlotEventKind_Valid :: "SlotEventKind \<Rightarrow> bool" where
  "SlotEventKind_Valid (SlotEventOther _) = False"
| "SlotEventKind_Valid _ = True"

record SlotEvent =
  SeApplicationID :: string
  SeSlot :: Slot
  SeReleaseID :: string
  SeVersion :: string
  SeKind :: SlotEventKind
  SeDetail :: string
  SeOperationID :: string
  SeAt :: time

section \<open>Which releases are removed\<close>

text \<open>The loop that collects the candidates and remembers the last active release it meets.\<close>

fun removal_scan :: "string \<Rightarrow> Release list \<Rightarrow> Release list \<Rightarrow> string \<times> Release list" where
  "removal_scan active candidates [] = (active, candidates)"
| "removal_scan active candidates (r # rs) =
     (if RelStatus r = ReleaseActive then removal_scan (RelID r) candidates rs
      else if RelStatus r = ReleaseSuperseded \<and> Directory r \<noteq> [] then
        removal_scan active (candidates @ [r]) rs
      else removal_scan active candidates rs)"

definition youngest_first :: "Release \<Rightarrow> Release \<Rightarrow> bool" where
  "youngest_first left right =
     (let by_creation = (if RelCreatedAt left \<noteq> RelCreatedAt right
                         then RelCreatedAt right < RelCreatedAt left
                         else RelID right < RelID left)
      in case (ActivatedAt left, ActivatedAt right) of
           (Some a, Some b) \<Rightarrow> if a \<noteq> b then b < a else by_creation
         | (Some a, None) \<Rightarrow> True
         | (None, Some b) \<Rightarrow> False
         | (None, None) \<Rightarrow> by_creation)"

definition PlanReleaseRemoval :: "Release list \<Rightarrow> int \<Rightarrow> string list" where
  "PlanReleaseRemoval releases keepLast =
     (case removal_scan [] [] releases of (active, found) \<Rightarrow>
        if keepLast \<le> 0 then []
        else
          let candidates = slice_stable youngest_first found;
              keepOthers = (if active = [] then keepLast else keepLast - 1);
              keepOthers = (if keepOthers < 0 then 0 else keepOthers)
          in if int (length candidates) \<le> keepOthers then []
             else map RelID (rev (drop (nat keepOthers) candidates)))"

section \<open>Its meaning\<close>

definition removable :: "Release \<Rightarrow> bool" where
  "removable r \<longleftrightarrow> RelStatus r = ReleaseSuperseded \<and> Directory r \<noteq> []"

definition release_key :: "Release \<Rightarrow> recency" where
  "release_key r = Recency (ActivatedAt r) (RelCreatedAt r) (RelID r)"

definition has_active :: "Release list \<Rightarrow> bool" where
  "has_active releases \<longleftrightarrow> list_ex (\<lambda>r. RelStatus r = ReleaseActive) releases"

lemma youngest_first_key: "youngest_first a b \<longleftrightarrow> release_key a < release_key b"
  by (auto simp: youngest_first_def release_key_def less_recency_def Let_def split: option.splits)

lemma removal_scan_candidates:
  "snd (removal_scan active found rs) = found @ filter removable rs"
  by (induction active found rs rule: removal_scan.induct) (auto simp: removable_def)

lemma removal_scan_active:
  "(\<forall>r \<in> set rs. RelID r \<noteq> []) \<Longrightarrow>
   fst (removal_scan active found rs) = [] \<longleftrightarrow> active = [] \<and> \<not> has_active rs"
  by (induction active found rs rule: removal_scan.induct) (auto simp: has_active_def)

text \<open>How many superseded releases are kept beside the active one.\<close>

definition kept_others :: "Release list \<Rightarrow> int \<Rightarrow> nat" where
  "kept_others releases keepLast = nat (if has_active releases then keepLast - 1 else keepLast)"

lemma PlanReleaseRemoval_drop:
  assumes "\<forall>r \<in> set releases. RelID r \<noteq> []" and "0 < keepLast"
  shows "PlanReleaseRemoval releases keepLast =
     map RelID (rev (drop (kept_others releases keepLast)
       (sort_key release_key (filter removable releases))))"
proof -
  have sort: "slice_stable youngest_first xs = sort_key release_key xs" for xs
    by (rule slice_stable_sort_key) (rule youngest_first_key)
  have scan: "snd (removal_scan [] [] releases) = filter removable releases"
    by (simp add: removal_scan_candidates)
  have act: "fst (removal_scan [] [] releases) = [] \<longleftrightarrow> \<not> has_active releases"
    using assms(1) by (simp add: removal_scan_active)
  show ?thesis
    using assms(2) scan act
    by (auto simp: PlanReleaseRemoval_def sort kept_others_def Let_def split: prod.splits)
qed

text \<open>With a keep-last of at least 1, the directories removed are exactly those of the superseded
  releases that have a directory and at least \<open>keepLast - 1\<close> more recent ones of their kind
  (\<open>keepLast\<close> when nothing is active): the active release is never removed, and neither is one that
  is deploying, on standby, failed or removed already.\<close>

theorem release_removal_spec:
  assumes "distinct (map RelID releases)" and "\<forall>r \<in> set releases. RelID r \<noteq> []"
    and "0 < keepLast" and "r \<in> set releases"
  shows "RelID r \<in> set (PlanReleaseRemoval releases keepLast) \<longleftrightarrow>
     RelStatus r = ReleaseSuperseded \<and> Directory r \<noteq> []
     \<and> (if \<exists>a \<in> set releases. RelStatus a = ReleaseActive then keepLast - 1 else keepLast)
        \<le> int (card {q \<in> set releases. RelStatus q = ReleaseSuperseded \<and> Directory q \<noteq> []
                      \<and> release_key q < release_key r})"
proof -
  define cs where "cs = filter removable releases"
  define n where "n = kept_others releases keepLast"
  have inj: "inj_on RelID (set releases)" using assms(1) by (simp add: distinct_map)
  have keys: "distinct (map release_key cs)"
    using assms(1) by (auto simp: cs_def distinct_map inj_on_def release_key_def)
  have ids: "RelID r \<in> RelID ` set (drop n (sort_key release_key cs)) \<longleftrightarrow>
      r \<in> set (drop n (sort_key release_key cs))"
  proof -
    have "set (drop n (sort_key release_key cs)) \<subseteq> set releases"
      using set_drop_subset [of n "sort_key release_key cs"] by (auto simp: cs_def)
    with inj assms(4) show ?thesis by (auto simp: inj_on_def)
  qed
  define K where "K = (if \<exists>a \<in> set releases. RelStatus a = ReleaseActive then keepLast - 1 else keepLast)"
  define newer where "newer = {q \<in> set releases. RelStatus q = ReleaseSuperseded \<and> Directory q \<noteq> []
                      \<and> release_key q < release_key r}"
  have K: "K = int n"
    using assms(3) by (auto simp: K_def n_def kept_others_def has_active_def list_ex_iff)
  have newer: "{q \<in> set cs. release_key q < release_key r} = newer"
    by (auto simp: cs_def removable_def newer_def)
  have "RelID r \<in> set (PlanReleaseRemoval releases keepLast) \<longleftrightarrow> r \<in> set (drop n (sort_key release_key cs))"
    using ids by (simp add: PlanReleaseRemoval_drop [OF assms(2,3)] n_def [symmetric] cs_def [symmetric])
  also have "\<dots> \<longleftrightarrow> r \<in> set cs \<and> n \<le> card newer"
    using sort_key_mem_drop [OF keys, of r n] set_drop_subset [of n "sort_key release_key cs"]
    by (auto simp: newer)
  also have "\<dots> \<longleftrightarrow> RelStatus r = ReleaseSuperseded \<and> Directory r \<noteq> [] \<and> K \<le> int (card newer)"
    using assms(4) by (simp add: cs_def removable_def K)
  finally show ?thesis unfolding K_def newer_def .
qed

text \<open>The plan removes from old to new, and every removed release is older than every superseded
  one it keeps: stopping half-way leaves the more recent directories.\<close>

theorem release_removal_order:
  assumes "\<forall>r \<in> set releases. RelID r \<noteq> []" and "0 < keepLast"
  shows "\<exists>keep gone. mset keep + mset gone = mset (filter removable releases)
     \<and> PlanReleaseRemoval releases keepLast = map RelID gone
     \<and> sorted_wrt (\<lambda>a b. release_key b \<le> release_key a) gone
     \<and> length keep = min (length (filter removable releases)) (kept_others releases keepLast)
     \<and> {(k, g). k \<in> set keep \<and> g \<in> set gone \<and> release_key g < release_key k} = {}"
proof -
  define ys where "ys = sort_key release_key (filter removable releases)"
  define n where "n = kept_others releases keepLast"
  have "mset (take n ys) + mset (rev (drop n ys)) = mset (filter removable releases)"
    by (simp add: mset_append [symmetric] del: mset_append) (simp add: ys_def)
  moreover have "PlanReleaseRemoval releases keepLast = map RelID (rev (drop n ys))"
    using PlanReleaseRemoval_drop [OF assms] by (simp add: n_def ys_def)
  moreover have "sorted_wrt (\<lambda>a b. release_key b \<le> release_key a) (rev (drop n ys))"
  proof -
    have "sorted (map release_key (drop n ys))"
      by (metis sorted_sort_key sorted_wrt_drop drop_map ys_def)
    then show ?thesis by (simp add: sorted_map sorted_wrt_rev)
  qed
  moreover have "length (take n ys) = min (length (filter removable releases)) n"
    by (simp add: ys_def)
  moreover have "release_key k \<le> release_key g" if "k \<in> set (take n ys)" "g \<in> set (drop n ys)" for k g
    using that unfolding ys_def by (rule sort_key_take_le_drop)
  then have "{(k, g). k \<in> set (take n ys) \<and> g \<in> set (rev (drop n ys))
      \<and> release_key g < release_key k} = {}"
    by (auto simp: not_less [symmetric])
  ultimately show ?thesis unfolding n_def by blast
qed

definition sample_release :: "string \<Rightarrow> ReleaseStatus \<Rightarrow> time \<Rightarrow> Release" where
  "sample_release i st t = \<lparr>RelID = i, RelApplicationID = ''app'', ArtifactID = ''a'',
     RelVersion = ''v'', RelLabels = [], RelCreatedAt = t, RelCreatedBy = ''me'', RelStatus = st,
     RelSlot = NoSlot, Directory = ''/d'', ActivatedAt = Some t, RelFinishedAt = Some t,
     RelErrorCode = None, RelErrorMessage = []\<rparr>"

definition sample_releases :: "Release list" where
  "sample_releases = [sample_release ''r1'' ReleaseSuperseded 1, sample_release ''r2'' ReleaseActive 2,
     sample_release ''r3'' ReleaseSuperseded 3]"

theorem release_removal_spec_witness:
  "''r1'' \<in> set (PlanReleaseRemoval sample_releases 2) \<and> ''r3'' \<notin> set (PlanReleaseRemoval sample_releases 2)"
proof -
  have d: "distinct (map RelID sample_releases)" "\<forall>r \<in> set sample_releases. RelID r \<noteq> []"
    by (simp_all add: sample_releases_def sample_release_def)
  have m: "sample_release ''r1'' ReleaseSuperseded 1 \<in> set sample_releases"
    "sample_release ''r3'' ReleaseSuperseded 3 \<in> set sample_releases"
    by (simp_all add: sample_releases_def)
  have c: "{q \<in> set sample_releases. RelStatus q = ReleaseSuperseded \<and> Directory q \<noteq> []
      \<and> release_key q < release_key (sample_release ''r1'' ReleaseSuperseded 1)}
      = {sample_release ''r3'' ReleaseSuperseded 3}"
    "{q \<in> set sample_releases. RelStatus q = ReleaseSuperseded \<and> Directory q \<noteq> []
      \<and> release_key q < release_key (sample_release ''r3'' ReleaseSuperseded 3)} = {}"
    by (auto simp: sample_releases_def sample_release_def release_key_def less_recency_def)
  have a: "\<exists>a \<in> set sample_releases. RelStatus a = ReleaseActive"
    by (simp add: sample_releases_def sample_release_def)
  show ?thesis
    using release_removal_spec [OF d, of 2, OF _ m(1)] release_removal_spec [OF d, of 2, OF _ m(2)]
    by (simp only: c a) (simp add: sample_release_def)
qed

theorem release_removal_order_witness:
  "PlanReleaseRemoval sample_releases 1 = [''r1'', ''r3'']
   \<and> (\<exists>keep gone. mset keep + mset gone = mset (filter removable sample_releases)
       \<and> PlanReleaseRemoval sample_releases 1 = map RelID gone \<and> length keep = 0)"
proof
  show "PlanReleaseRemoval sample_releases 1 = [''r1'', ''r3'']"
    by (simp add: sample_releases_def sample_release_def PlanReleaseRemoval_def slice_stable_def
        youngest_first_def Let_def)
  have "\<forall>r \<in> set sample_releases. RelID r \<noteq> []"
    by (simp add: sample_releases_def sample_release_def)
  from release_removal_order [OF this, of 1]
  show "\<exists>keep gone. mset keep + mset gone = mset (filter removable sample_releases)
       \<and> PlanReleaseRemoval sample_releases 1 = map RelID gone \<and> length keep = 0"
    by (auto simp: kept_others_def has_active_def sample_releases_def sample_release_def)
qed

end
