(* ===== verification/Schedule.thy ===== *)
theory Schedule
  imports GoStrings ApiErrors
begin

text \<open>
  Schedules (\<open>internal/domain/schedule.go\<close>): their validation, the evaluator that yields the next
  moment, and the enumeration of the moments that are due.

  Two things come from outside \<open>src/\<close>: the time zone database (\<open>time.LoadLocation\<close>) and the cron
  library (its parser and its \<open>Next\<close>). They are the fields of \<open>calendar\<close>, a parameter of the
  definitions that need them. The contract of an evaluator is the locale \<open>evaluator\<close>.
\<close>

section \<open>Records\<close>

datatype ScheduleKind = ScheduleKindCron | ScheduleKindInterval | ScheduleKindOther string

datatype MissedRunPolicy = MissedRunSkip | MissedRunOnce | MissedRunOther string

definition MissedRunPolicy_Valid :: "MissedRunPolicy \<Rightarrow> bool" where
  "MissedRunPolicy_Valid p \<longleftrightarrow> p = MissedRunSkip \<or> p = MissedRunOnce"

datatype ScheduleRunResult = RunDispatched | RunMissed | RunFailed

definition MinInterval :: duration where "MinInterval = minute"

definition maxScheduledMoments :: int where "maxScheduledMoments = 1000"

record Schedule =
  SchID :: string
  SchName :: string
  Enabled_Schedule :: bool
  SchKind :: ScheduleKind
  Cron :: string
  Interval :: duration
  Timezone :: string
  SchResource :: string
  OperationKind :: Kind
  SchSpec :: string
  SchMissedRunPolicy :: MissedRunPolicy
  NextRunAt :: "time option"
  LastRunAt :: "time option"
  LastResult :: string
  SchCreatedAt :: time
  SchUpdatedAt :: time
  SchCreatedBy :: string

record ScheduleRun =
  RunID :: string
  RunScheduleID :: string
  ScheduledFor :: time
  RunStartedAt :: time
  RunFinishedAt :: "time option"
  Result :: ScheduleRunResult
  RunOperationID :: string
  RunErrorCode :: "ErrorCode option"

record ScheduleProgress =
  ProgNextRunAt :: "time option"
  ProgLastRunAt :: "time option"
  ProgLastResult :: string

section \<open>Validation\<close>

record calendar =
  known_location :: "string \<Rightarrow> bool"
  cron_parses :: "string \<Rightarrow> bool"
  cron_next :: "string \<Rightarrow> string \<Rightarrow> time \<Rightarrow> time"

text \<open>The empty operation kind is \<open>KindOther []\<close>.\<close>

fun schedulableKinds :: "Kind \<Rightarrow> bool" where
  "schedulableKinds KindExecutorCommand = True"
| "schedulableKinds KindRuntimeStart = True"
| "schedulableKinds KindRuntimeStop = True"
| "schedulableKinds KindBackupRun = True"
| "schedulableKinds KindBackupVerify = True"
| "schedulableKinds KindBackupRestore = True"
| "schedulableKinds _ = False"

definition OperationKindOrDefault :: "Schedule \<Rightarrow> Kind" where
  "OperationKindOrDefault s =
     (if OperationKind s = KindOther [] then KindExecutorCommand else OperationKind s)"

text \<open>The location: UTC (the empty name) for a blank time zone.\<close>

definition Location :: "calendar \<Rightarrow> Schedule \<Rightarrow> ErrorCode + string" where
  "Location cal s =
     (if blank (Timezone s) then Inr []
      else if known_location cal (Timezone s) then Inr (Timezone s)
      else Inl CodeScheduleInvalid)"

definition parseCronSpec :: "calendar \<Rightarrow> string \<Rightarrow> ErrorCode + string" where
  "parseCronSpec cal expr =
     (if cron_parses cal (TrimSpace expr) then Inr (TrimSpace expr) else Inl CodeScheduleInvalid)"

definition err_of :: "'e + 'a \<Rightarrow> 'e option" where
  "err_of r = (case r of Inl e \<Rightarrow> Some e | Inr _ \<Rightarrow> None)"

definition validate_head :: "Schedule \<Rightarrow> ErrorCode option" where
  "validate_head s =
     first_err [
       fail_if (blank (SchName s)) CodeScheduleInvalid,
       fail_if (blank (SchResource s)) CodeScheduleInvalid,
       fail_if (SchSpec s = []) CodeScheduleInvalid]"

definition validate_kind :: "calendar \<Rightarrow> Schedule \<Rightarrow> ErrorCode option" where
  "validate_kind cal s =
     (case SchKind s of
        ScheduleKindCron \<Rightarrow>
          first_err [
            fail_if (blank (Cron s)) CodeScheduleInvalid,
            fail_if (Interval s \<noteq> 0) CodeScheduleInvalid,
            err_of (parseCronSpec cal (Cron s))]
      | ScheduleKindInterval \<Rightarrow>
          first_err [
            fail_if (Interval s \<le> 0) CodeScheduleInvalid,
            fail_if (Interval s < MinInterval) CodeScheduleInvalid,
            fail_if (Cron s \<noteq> []) CodeScheduleInvalid]
      | ScheduleKindOther _ \<Rightarrow> Some CodeScheduleInvalid)"

text \<open>\<open>Validate\<close> fills in the default operation kind, so it returns the schedule as well.\<close>

definition Schedule_Validate :: "calendar \<Rightarrow> Schedule \<Rightarrow> ErrorCode option \<times> Schedule" where
  "Schedule_Validate cal s =
     (case validate_head s of
        Some e \<Rightarrow> (Some e, s)
      | None \<Rightarrow>
          if OperationKind s \<noteq> KindOther [] \<and> \<not> schedulableKinds (OperationKind s)
          then (Some CodeScheduleInvalid, s)
          else
            let s' = s\<lparr>OperationKind := OperationKindOrDefault s\<rparr>
            in (first_err [
                  fail_if (\<not> MissedRunPolicy_Valid (SchMissedRunPolicy s')) CodeScheduleInvalid,
                  err_of (Location cal s'),
                  validate_kind cal s'], s'))"

section \<open>Evaluators\<close>

datatype Evaluator = cronEvaluator string string | intervalEvaluator duration

definition NewEvaluator :: "calendar \<Rightarrow> Schedule \<Rightarrow> ErrorCode + Evaluator" where
  "NewEvaluator cal s =
     (case Schedule_Validate cal s of
        (Some e, _) \<Rightarrow> Inl e
      | (None, s') \<Rightarrow>
          bind_res (Location cal s') (\<lambda>location.
            case SchKind s' of
              ScheduleKindCron \<Rightarrow>
                bind_res (parseCronSpec cal (Cron s')) (\<lambda>spec. Inr (cronEvaluator spec location))
            | ScheduleKindInterval \<Rightarrow> Inr (intervalEvaluator (Interval s'))
            | ScheduleKindOther _ \<Rightarrow> Inl CodeScheduleInvalid))"

fun Next :: "calendar \<Rightarrow> Evaluator \<Rightarrow> time \<Rightarrow> time" where
  "Next cal (cronEvaluator spec location) after = cron_next cal spec location after"
| "Next cal (intervalEvaluator interval) after = after + interval"

section \<open>Due moments\<close>

fun due_loop :: "(time \<Rightarrow> time) \<Rightarrow> time \<Rightarrow> nat \<Rightarrow> time \<Rightarrow> time list \<times> bool" where
  "due_loop nxt until 0 cursor = ([], True)"
| "due_loop nxt until (Suc n) cursor =
     (let t = nxt cursor
      in if t = zero_time \<or> until < t then ([], False)
         else if \<not> cursor < t then ([], False)
         else case due_loop nxt until n t of (ms, truncated) \<Rightarrow> (t # ms, truncated))"

definition DueMoments :: "(time \<Rightarrow> time) \<Rightarrow> time \<Rightarrow> time \<Rightarrow> int \<Rightarrow> time list \<times> bool" where
  "DueMoments nxt first until limit =
     (if until < first then ([], False)
      else let limit = (if limit \<le> 0 then maxScheduledMoments else limit)
           in case due_loop nxt until (nat limit - 1) first of (ms, truncated) \<Rightarrow> (first # ms, truncated))"

lemma due_loop_length: "length (fst (due_loop nxt until n c)) \<le> n"
  by (induction nxt until n c rule: due_loop.induct) (auto simp: Let_def split: prod.splits)

lemma due_loop_sorted:
  "sorted_wrt (<) (c # fst (due_loop nxt until n c))"
  by (induction nxt until n c rule: due_loop.induct) (fastforce simp: Let_def split: prod.splits)+

lemma due_loop_until: "m \<in> set (fst (due_loop nxt until n c)) \<Longrightarrow> m \<le> until"
  by (induction nxt until n c rule: due_loop.induct) (auto simp: Let_def split: prod.splits if_splits)

lemma due_loop_iterates:
  "i < length (fst (due_loop nxt until n c)) \<Longrightarrow> fst (due_loop nxt until n c) ! i = (nxt ^^ Suc i) c"
proof (induction nxt until n c arbitrary: i rule: due_loop.induct)
  case (2 nxt until n c)
  show ?case
  proof (cases "nxt c = zero_time \<or> until < nxt c \<or> \<not> c < nxt c")
    case True
    then show ?thesis using 2(2) by (auto simp: Let_def)
  next
    case False
    with 2 show ?thesis
      by (cases i) (auto simp: Let_def funpow_swap1 split: prod.splits)
  qed
qed simp

lemma due_loop_truncated: "snd (due_loop nxt until n c) \<longleftrightarrow> length (fst (due_loop nxt until n c)) = n"
proof (induction nxt until n c rule: due_loop.induct)
  case (2 nxt until n c)
  then show ?case by (auto simp: Let_def split: prod.splits)
qed simp

text \<open>Not truncated: the moment after the last one is out of range, or the evaluator has stopped.\<close>

lemma due_loop_complete:
  assumes "\<not> snd (due_loop nxt until n c)"
  shows "let l = last (c # fst (due_loop nxt until n c))
         in nxt l = zero_time \<or> until < nxt l \<or> nxt l \<le> l"
  using assms
proof (induction nxt until n c rule: due_loop.induct)
  case (2 nxt until n c)
  then show ?case
    by (cases "nxt c = zero_time \<or> until < nxt c \<or> \<not> c < nxt c")
      (auto simp: Let_def split: prod.splits if_splits)
qed simp

definition moment_limit :: "int \<Rightarrow> int" where
  "moment_limit limit = (if limit \<le> 0 then maxScheduledMoments else limit)"

lemma DueMoments_due_loop:
  "first \<le> until \<Longrightarrow> DueMoments nxt first until limit =
     (first # fst (due_loop nxt until (nat (moment_limit limit) - 1) first),
      snd (due_loop nxt until (nat (moment_limit limit) - 1) first))"
  by (simp add: DueMoments_def moment_limit_def Let_def split: prod.splits)

text \<open>The moments of one round: whatever the evaluator does, the enumeration ends, begins with the
  stored moment, strictly increases, stays within the bound and never exceeds the limit; each moment
  is what the evaluator yields for the one before. When it is not truncated nothing is left out: the
  evaluator has no further moment up to the bound (or does not advance any more), and it is truncated
  exactly when it holds as many moments as the limit.\<close>

theorem due_moments_spec:
  fixes nxt :: "time \<Rightarrow> time" and limit :: int
  assumes "first \<le> until"
  defines "ms \<equiv> fst (DueMoments nxt first until limit)"
    and "truncated \<equiv> snd (DueMoments nxt first until limit)"
    and "bound \<equiv> (if limit \<le> 0 then maxScheduledMoments else limit)"
  shows "ms = map (\<lambda>k. (nxt ^^ k) first) [0..<length ms]
     \<and> 0 < length ms \<and> int (length ms) \<le> bound
     \<and> sorted_wrt (<) ms \<and> set ms \<subseteq> {first..until}
     \<and> (truncated \<longleftrightarrow> int (length ms) = bound)
     \<and> (truncated \<or> nxt (last ms) = zero_time \<or> until < nxt (last ms) \<or> nxt (last ms) \<le> last ms)"
proof -
  define rest where "rest = fst (due_loop nxt until (nat bound - 1) first)"
  have bound: "0 < bound" by (simp add: bound_def maxScheduledMoments_def)
  have ms: "ms = first # rest" and tr: "truncated = snd (due_loop nxt until (nat bound - 1) first)"
    using assms(1) by (simp_all add: ms_def truncated_def DueMoments_due_loop rest_def bound_def
        moment_limit_def)
  have len: "length rest \<le> nat bound - 1" unfolding rest_def by (rule due_loop_length)
  have "ms = map (\<lambda>k. (nxt ^^ k) first) [0..<length ms]"
  proof (rule nth_equalityI)
    fix i assume "i < length ms"
    then show "ms ! i = map (\<lambda>k. (nxt ^^ k) first) [0..<length ms] ! i"
      using due_loop_iterates [of "i - 1" nxt until "nat bound - 1" first]
      by (cases i) (simp_all add: ms rest_def del: upt_Suc)
  qed simp
  moreover have "int (length ms) \<le> bound" using len bound by (simp add: ms)
  moreover have sorted: "sorted_wrt (<) ms" unfolding ms rest_def by (rule due_loop_sorted)
  moreover have "set ms \<subseteq> {first..until}"
    using sorted assms(1) due_loop_until [of _ nxt until "nat bound - 1" first]
    by (force simp: ms rest_def)
  moreover have "truncated \<longleftrightarrow> int (length ms) = bound"
    using bound unfolding tr due_loop_truncated rest_def [symmetric] ms by auto
  moreover have "truncated \<or> nxt (last ms) = zero_time \<or> until < nxt (last ms) \<or> nxt (last ms) \<le> last ms"
    using due_loop_complete [of nxt until "nat bound - 1" first]
    unfolding tr ms rest_def Let_def by blast
  ultimately show ?thesis by (simp add: ms)
qed

theorem due_moments_spec_witness:
  "fst (DueMoments (\<lambda>t. t + minute) 0 (2 * minute + 1) 0) = [0, minute, 2 * minute]
   \<and> int (length (fst (DueMoments (\<lambda>t. t + minute) 0 (2 * minute + 1) 0))) \<le> 1000"
proof
  show "fst (DueMoments (\<lambda>t. t + minute) 0 (2 * minute + 1) 0) = [0, minute, 2 * minute]"
    by (simp add: DueMoments_def minute_def maxScheduledMoments_def zero_time_def Let_def
        eval_nat_numeral)
  have "(0::time) \<le> 2 * minute + 1" by (simp add: minute_def)
  from due_moments_spec [OF this, of "\<lambda>t. t + minute" 0]
  show "int (length (fst (DueMoments (\<lambda>t. t + minute) 0 (2 * minute + 1) 0))) \<le> 1000"
    by (simp add: maxScheduledMoments_def)
qed

section \<open>The contract of an evaluator\<close>

text \<open>\<open>Next\<close> is strictly later than its argument, or the zero time when there is no next moment.\<close>

locale evaluator =
  fixes nxt :: "time \<Rightarrow> time"
  assumes advances: "nxt t = zero_time \<or> t < nxt t"
begin

text \<open>An enumeration that was not truncated is complete: no moment up to the bound is missing.\<close>

lemma nothing_missed:
  assumes "first \<le> until" and "\<not> snd (DueMoments nxt first until limit)"
    and "nxt (last (fst (DueMoments nxt first until limit))) \<noteq> zero_time"
  shows "until < nxt (last (fst (DueMoments nxt first until limit)))"
  using assms due_loop_complete [of nxt until "nat (moment_limit limit) - 1" first]
    advances [of "last (fst (DueMoments nxt first until limit))"]
  by (auto simp: DueMoments_due_loop Let_def)

end

lemma interval_advances: "0 < i \<Longrightarrow> evaluator (Next cal (intervalEvaluator i))"
  by unfold_locales simp

interpretation minute_evaluator: evaluator "Next cal (intervalEvaluator MinInterval)" for cal
  by (rule interval_advances) (simp add: MinInterval_def minute_def)

text \<open>The evaluators of valid schedules keep the contract when the cron library does.\<close>

lemma NewEvaluator_evaluator:
  assumes "NewEvaluator cal s = Inr ev"
    and "\<And>spec location. evaluator (cron_next cal spec location)"
  shows "evaluator (Next cal ev)"
proof -
  obtain s' where s': "Schedule_Validate cal s = (None, s')"
    using assms(1) by (auto simp: NewEvaluator_def split: prod.splits option.splits)
  show ?thesis
  proof (cases "SchKind s'")
    case ScheduleKindCron
    then obtain spec location where "ev = cronEvaluator spec location"
      using assms(1) s' by (auto simp: NewEvaluator_def bind_res_eq_Inr)
    then have "Next cal ev = cron_next cal spec location" by auto
    then show ?thesis using assms(2) by simp
  next
    case ScheduleKindInterval
    then have "0 < Interval s'"
      using s' by (auto simp: Schedule_Validate_def validate_kind_def Let_def guard_simps
        split: option.splits if_splits)
    moreover have "ev = intervalEvaluator (Interval s')"
      using assms(1) s' ScheduleKindInterval by (auto simp: NewEvaluator_def bind_res_eq_Inr)
    ultimately show ?thesis by (simp only: interval_advances)
  next
    case (ScheduleKindOther k)
    then show ?thesis using assms(1) s' by (auto simp: NewEvaluator_def bind_res_eq_Inr)
  qed
qed

lemma Validate_schedulable:
  "Schedule_Validate cal s = (None, s') \<Longrightarrow> schedulableKinds (OperationKind s') \<and> SchSpec s' \<noteq> []"
  by (auto simp: Schedule_Validate_def validate_head_def OperationKindOrDefault_def Let_def guard_simps
      split: option.splits if_splits)

end
