(* ===== verification/Float64.thy ===== *)
theory Float64
  imports Prelude Complex_Main "HOL-Library.Log_Nat"
begin

text \<open>
  The part of Go's \<open>float64\<close> arithmetic that the retry back-off uses, on rational numbers: every
  operation is the exact rational operation followed by a rounding to a 53-bit significand,
  ties to even. Overflow to infinity, subnormal numbers and NaN do not arise for the magnitudes of
  that code (between \<open>2 ^ -60\<close> and \<open>2 ^ 64\<close>) and are not modelled, nor is the fusing of two
  operations into one that Go permits on some architectures.
\<close>

definition pow2 :: "int \<Rightarrow> rat" where
  "pow2 n = (if 0 \<le> n then 2 ^ nat n else 1 / 2 ^ nat (- n))"

text \<open>The exponent of a positive rational: \<open>pow2 (exponent2 x) \<le> x < 2 * pow2 (exponent2 x)\<close>.\<close>

definition exponent2 :: "rat \<Rightarrow> int" where
  "exponent2 x =
     (let (p, q) = quotient_of x;
          k = int (floorlog 2 (nat p)) - int (floorlog 2 (nat q))
      in if pow2 k \<le> x then k else k - 1)"

text \<open>The nearest integer, ties to even.\<close>

definition round_even :: "rat \<Rightarrow> int" where
  "round_even x =
     (let n = \<lfloor>x\<rfloor>; d = x - of_int n
      in if d < 1 / 2 then n else if 1 / 2 < d then n + 1 else if even n then n else n + 1)"

definition round_pos :: "rat \<Rightarrow> rat" where
  "round_pos x = (let u = pow2 (exponent2 x - 52) in of_int (round_even (x / u)) * u)"

definition float64 :: "rat \<Rightarrow> rat" where
  "float64 x = (if x = 0 then 0 else if x < 0 then - round_pos (- x) else round_pos x)"

text \<open>Conversion of a \<open>float64\<close> to \<open>int64\<close>: truncation, and the minimal value when out of range
  (what the amd64 instruction gives; Go leaves the value implementation-defined).\<close>

definition int64_of_float :: "rat \<Rightarrow> int" where
  "int64_of_float x =
     (let n = (if 0 \<le> x then \<lfloor>x\<rfloor> else \<lceil>x\<rceil>) in if in_int64 n then n else - (2 ^ 63))"

section \<open>Rounding error\<close>

lemma pow2_pos [simp]: "0 < pow2 n"
  by (simp add: pow2_def)

lemma pow2_add1: "pow2 (n + 1) = 2 * pow2 n"
proof (cases "0 \<le> n")
  case True
  then have "nat (n + 1) = Suc (nat n)" by simp
  with True show ?thesis by (simp add: pow2_def)
next
  case False
  then have "nat (- n) = Suc (nat (- (n + 1)))" by simp
  with False show ?thesis by (cases "n = -1") (auto simp: pow2_def)
qed

lemma pow2_diff1: "pow2 (n - 1) = pow2 n / 2"
  using pow2_add1 [of "n - 1"] by simp

lemma pow2_shift: "pow2 n = 2 ^ k * pow2 (n - int k)"
proof (induction k arbitrary: n)
  case 0
  then show ?case by simp
next
  case (Suc k)
  have "pow2 n = 2 * pow2 (n - 1)" using pow2_add1 [of "n - 1"] by simp
  also have "pow2 (n - 1) = 2 ^ k * pow2 (n - 1 - int k)" by (rule Suc.IH)
  finally show ?case by (simp add: algebra_simps)
qed

lemma pow2_diff: "pow2 (int a - int b) = 2 ^ a / 2 ^ b"
proof (cases "b \<le> a")
  case True
  then have "nat (int a - int b) = a - b" by simp
  with True show ?thesis by (simp add: pow2_def power_diff)
next
  case False
  then have "nat (int b - int a) = b - a" by simp
  with False show ?thesis by (simp add: pow2_def power_diff)
qed

lemma floorlog2_bounds:
  assumes "0 < n"
  shows "2 ^ floorlog 2 n \<le> 2 * n" and "n < 2 ^ floorlog 2 n"
proof -
  have "2 ^ (floorlog 2 n - 1) \<le> n \<and> n < 2 ^ floorlog 2 n"
    using floorlog_bounds [of n 2] assms by simp
  moreover have "0 < floorlog 2 n"
    using assms by (simp add: floorlog_def)
  ultimately show "2 ^ floorlog 2 n \<le> 2 * n" and "n < 2 ^ floorlog 2 n"
    by (cases "floorlog 2 n"; simp)+
qed

lemma exponent2_le:
  assumes "0 < x"
  shows "pow2 (exponent2 x) \<le> x"
proof -
  obtain p q where pq: "quotient_of x = (p, q)" by (cases "quotient_of x")
  then have q: "0 < q" and x: "x = of_int p / of_int q"
    by (simp_all add: quotient_of_denom_pos quotient_of_div)
  with assms have p: "0 < p" by (simp add: zero_less_divide_iff)
  define a b where "a = floorlog 2 (nat p)" and "b = floorlog 2 (nat q)"
  have "2 ^ a \<le> 2 * nat p" and "nat q < 2 ^ b"
    using floorlog2_bounds [of "nat p"] floorlog2_bounds [of "nat q"] p q
    by (simp_all add: a_def b_def)
  then have "int (2 ^ a) \<le> int (2 * nat p)" and "int (nat q) \<le> int (2 ^ b)"
    by linarith+
  then have "(2 :: int) ^ a \<le> 2 * p" and "q \<le> (2 :: int) ^ b"
    using p q by simp_all
  then have "rat_of_int (2 ^ a) \<le> rat_of_int (2 * p)" and "rat_of_int q \<le> rat_of_int (2 ^ b)"
    by (simp_all only: of_int_le_iff)
  then have "(2 ^ a :: rat) \<le> 2 * of_int p" and "of_int q \<le> (2 ^ b :: rat)"
    by simp_all
  then have "(2 ^ a / 2 ^ b :: rat) \<le> 2 * of_int p / of_int q"
    using p q by (intro frac_le) auto
  then have "pow2 (int a - int b) / 2 \<le> x"
    by (simp add: pow2_diff x)
  then show ?thesis
    by (simp add: exponent2_def pq Let_def a_def b_def pow2_diff1)
qed

lemma round_even_error: "\<bar>of_int (round_even x) - x\<bar> \<le> 1 / 2"
proof -
  have "of_int \<lfloor>x\<rfloor> \<le> x" and "x < of_int \<lfloor>x\<rfloor> + 1"
    by linarith+
  then show ?thesis
    by (simp add: round_even_def Let_def abs_le_iff)
qed

lemma round_pos_error:
  assumes "0 < x"
  shows "\<bar>round_pos x - x\<bar> \<le> x / 2 ^ 53"
proof -
  define u where "u = pow2 (exponent2 x - 52)"
  have u: "0 < u" by (simp add: u_def)
  have "2 ^ 52 * u \<le> x"
    using exponent2_le [OF assms] pow2_shift [of "exponent2 x" 52] by (simp add: u_def)
  have "round_pos x - x = (of_int (round_even (x / u)) - x / u) * u"
    using u by (simp add: round_pos_def Let_def u_def [symmetric] field_simps)
  then have "\<bar>round_pos x - x\<bar> = \<bar>of_int (round_even (x / u)) - x / u\<bar> * u"
    using u by (simp add: abs_mult)
  also have "\<dots> \<le> 1 / 2 * u"
    using round_even_error u by (intro mult_right_mono) auto
  also have "\<dots> \<le> x / 2 ^ 53"
    using \<open>2 ^ 52 * u \<le> x\<close> by (simp add: field_simps)
  finally show ?thesis .
qed

lemma float64_error: "\<bar>float64 x - x\<bar> \<le> \<bar>x\<bar> / 2 ^ 53"
  using round_pos_error [of x] round_pos_error [of "- x"]
  by (cases x "0 :: rat" rule: linorder_cases) (simp_all add: float64_def abs_minus_commute)

lemma float64_near:
  assumes "a \<le> x" "x \<le> b" "\<bar>a\<bar> \<le> m" "\<bar>b\<bar> \<le> m"
  shows "a - m / 2 ^ 53 \<le> float64 x" and "float64 x \<le> b + m / 2 ^ 53"
proof -
  have "\<bar>x\<bar> \<le> m" using assms by (auto simp: abs_le_iff)
  then have "\<bar>x\<bar> / 2 ^ 53 \<le> m / 2 ^ 53" by (rule divide_right_mono) simp
  with float64_error [of x] have "\<bar>float64 x - x\<bar> \<le> m / 2 ^ 53" by (rule order_trans)
  then have "x - m / 2 ^ 53 \<le> float64 x" and "float64 x \<le> x + m / 2 ^ 53"
    by (simp_all only: abs_le_iff, linarith+)
  with assms(1,2) show "a - m / 2 ^ 53 \<le> float64 x" and "float64 x \<le> b + m / 2 ^ 53"
    by linarith+
qed

lemma float64_0 [simp]: "float64 0 = 0"
  by (simp add: float64_def)

lemma float64_nonneg: "0 \<le> x \<Longrightarrow> 0 \<le> float64 x"
proof -
  assume x: "0 \<le> x"
  then have "\<bar>x\<bar> / 2 ^ 53 \<le> x" by (simp add: divide_le_eq)
  with float64_error [of x] have "\<bar>float64 x - x\<bar> \<le> x" by (rule order_trans)
  then show ?thesis by (simp add: abs_le_iff)
qed

lemma float64_minus: "float64 (- x) = - float64 x"
  by (simp add: float64_def)

lemma float64_nonpos: "x \<le> 0 \<Longrightarrow> float64 x \<le> 0"
  using float64_nonneg [of "- x"] by (simp add: float64_minus)

end
