(* ===== verification/Retry.thy ===== *)
theory Retry
  imports ApiErrors Float64
begin

text \<open>
  Retry policies (\<open>internal/domain/retry.go\<close>): the policy value, its defaults and validation, which
  error codes are retried, and the exponential back-off with jitter.

  The persisted policy text (\<open>RetryPolicyJSON\<close>) is modelled by what \<open>json.Unmarshal\<close> makes of it:
  no text at all, the encoding of a \<open>RetrySpec\<close>, or a text that does not decode.
\<close>

section \<open>Policy values\<close>

record RetrySpec =
  SpecMaxAttempts :: int
  BaseDelaySeconds :: int
  MaxDelaySeconds :: int
  RetryableErrorCodes :: "ErrorCode list"

datatype RetryJSON = NoJSON | JSONOf RetrySpec | BadJSON

record RetryPolicy =
  MaxAttempts :: int
  BaseDelay :: duration
  MaxDelay :: duration
  RetryableCodes :: "ErrorCode list"

definition zero_policy :: RetryPolicy where
  "zero_policy = \<lparr>MaxAttempts = 0, BaseDelay = 0, MaxDelay = 0, RetryableCodes = []\<rparr>"

definition DefaultRetryMaxAttempts :: int where "DefaultRetryMaxAttempts = 1"
definition DefaultRetryBaseDelay :: duration where "DefaultRetryBaseDelay = 5 * second"
definition DefaultRetryMaxDelay :: duration where "DefaultRetryMaxDelay = 5 * minute"
definition MaxRetryAttempts :: int where "MaxRetryAttempts = 10"
definition retryJitterPercent :: int where "retryJitterPercent = 20"

lemmas retry_const_defs = DefaultRetryMaxAttempts_def DefaultRetryBaseDelay_def
  DefaultRetryMaxDelay_def MaxRetryAttempts_def retryJitterPercent_def duration_defs

definition RetryPolicyFromSpec :: "RetrySpec \<Rightarrow> RetryPolicy" where
  "RetryPolicyFromSpec spec =
     (let attempts = SpecMaxAttempts spec;
          base = wrap64 (BaseDelaySeconds spec * second);
          maxd = wrap64 (MaxDelaySeconds spec * second)
      in \<lparr>MaxAttempts = (if attempts = 0 then DefaultRetryMaxAttempts else attempts),
          BaseDelay = (if base = 0 then DefaultRetryBaseDelay else base),
          MaxDelay = (if maxd = 0 then DefaultRetryMaxDelay else maxd),
          RetryableCodes = RetryableErrorCodes spec\<rparr>)"

definition ParseRetryPolicy :: "RetryJSON \<Rightarrow> unit + RetryPolicy" where
  "ParseRetryPolicy raw =
     (case raw of
        NoJSON \<Rightarrow> Inr zero_policy
      | BadJSON \<Rightarrow> Inl ()
      | JSONOf spec \<Rightarrow> Inr (RetryPolicyFromSpec spec))"

definition defaultRetryableCodes :: "ErrorCode list" where
  "defaultRetryableCodes =
     [CodeExecTimeout, CodeExecExitNonZero, CodeRuntimeNotReady, CodeDaemonRestarted,
      CodeBackupPreflightFailed, CodeBackupVerifyFailed]"

definition neverRetryableCodes :: "ErrorCode list" where
  "neverRetryableCodes =
     [CodeExecCancelled, CodePermissionDenied, CodeLockBusy, CodeSecretUnresolved, CodeInternal,
      CodeConfigInvalid, CodeInvalidRequest, CodeManifestInvalid]"

definition Enabled :: "RetryPolicy \<Rightarrow> bool" where
  "Enabled p \<longleftrightarrow> 1 < MaxAttempts p"

definition defaultRetryable :: "ErrorCode \<Rightarrow> bool" where
  "defaultRetryable code \<longleftrightarrow> code \<in> set defaultRetryableCodes"

definition RetryPolicy_Validate :: "RetryPolicy \<Rightarrow> ErrorCode option" where
  "RetryPolicy_Validate p = first_err
     ([fail_if (MaxAttempts p < 1) CodeRetryPolicyInvalid,
       fail_if (MaxRetryAttempts < MaxAttempts p) CodeRetryPolicyInvalid,
       fail_if (BaseDelay p < 0) CodeRetryPolicyInvalid,
       fail_if (MaxDelay p < 0) CodeRetryPolicyInvalid,
       fail_if (0 < MaxDelay p \<and> MaxDelay p < BaseDelay p) CodeRetryPolicyInvalid] @
      map (\<lambda>code. first_err
        [fail_if (code \<in> set neverRetryableCodes) CodeRetryPolicyInvalid,
         fail_if (\<not> defaultRetryable code) CodeRetryPolicyInvalid]) (RetryableCodes p))"

definition Retryable :: "RetryPolicy \<Rightarrow> ErrorCode \<Rightarrow> bool" where
  "Retryable p code \<longleftrightarrow>
     (if \<not> Enabled p then False
      else if code \<in> set neverRetryableCodes then False
      else if \<not> defaultRetryable code then False
      else if RetryableCodes p = [] then True
      else code \<in> set (RetryableCodes p))"

section \<open>Back-off\<close>

text \<open>The doubling loop of \<open>NextDelay\<close>: \<open>n\<close> iterations are left.\<close>

fun backoff_loop :: "duration \<Rightarrow> nat \<Rightarrow> duration \<Rightarrow> duration" where
  "backoff_loop maxd 0 delay = delay"
| "backoff_loop maxd (Suc n) delay =
     (let delay' = wrap64 (delay * 2)
      in if maxd \<le> delay' then maxd else backoff_loop maxd n delay')"

definition effective_base :: "RetryPolicy \<Rightarrow> duration" where
  "effective_base p = (if BaseDelay p \<le> 0 then DefaultRetryBaseDelay else BaseDelay p)"

definition effective_max :: "RetryPolicy \<Rightarrow> duration" where
  "effective_max p = (if MaxDelay p \<le> 0 then DefaultRetryMaxDelay else MaxDelay p)"

definition jitter_factor :: "rat \<Rightarrow> rat" where
  "jitter_factor jitter =
     float64 (1 + float64 (float64 (float64 (float64 (jitter * 2) - 1)
       * of_int retryJitterPercent) / 100))"

definition NextDelay :: "RetryPolicy \<Rightarrow> int \<Rightarrow> rat \<Rightarrow> duration" where
  "NextDelay p attempt jitter =
     (let base = effective_base p;
          maxd = effective_max p;
          attempt = (if attempt < 1 then 1 else attempt);
          delay = backoff_loop maxd (nat (attempt - 1)) base;
          delay = (if maxd < delay then maxd else delay);
          jitter = (if jitter < 0 then 0 else jitter);
          jitter = (if 1 < jitter then 1 else jitter);
          delay = int64_of_float (float64 (float64 (of_int delay) * jitter_factor jitter));
          delay = (if maxd < delay then maxd else delay)
      in if delay < 0 then 0 else delay)"

section \<open>Which failures are retried\<close>

lemma default_never_disjoint: "set defaultRetryableCodes \<inter> set neverRetryableCodes = {}"
  by (simp add: defaultRetryableCodes_def neverRetryableCodes_def)

lemma RetryPolicy_Validate_None:
  "RetryPolicy_Validate p = None \<longleftrightarrow>
     1 \<le> MaxAttempts p \<and> MaxAttempts p \<le> MaxRetryAttempts \<and> 0 \<le> BaseDelay p \<and> 0 \<le> MaxDelay p \<and>
     (0 < MaxDelay p \<longrightarrow> BaseDelay p \<le> MaxDelay p) \<and>
     set (RetryableCodes p) \<subseteq> set defaultRetryableCodes"
  using default_never_disjoint
  by (auto simp: RetryPolicy_Validate_def first_err_None defaultRetryable_def not_less)

lemma Retryable_iff:
  assumes "RetryPolicy_Validate p = None"
  shows "Retryable p code \<longleftrightarrow> 1 < MaxAttempts p \<and>
     code \<in> set (if RetryableCodes p = [] then defaultRetryableCodes else RetryableCodes p)"
  using assms default_never_disjoint
  by (auto simp: RetryPolicy_Validate_None Retryable_def Enabled_def defaultRetryable_def)

text \<open>A policy that passes validation retries a failure exactly when it allows more than one attempt
  and the code is in the requested subset (or in the whole default list, when no subset was given);
  a code that must never be retried is never retried.\<close>

theorem retryable_spec:
  assumes "RetryPolicy_Validate p = None"
  shows "(Retryable p code \<longleftrightarrow> 1 < MaxAttempts p \<and>
            code \<in> set (if RetryableCodes p = [] then defaultRetryableCodes else RetryableCodes p))
         \<and> (code \<in> set neverRetryableCodes \<longrightarrow> \<not> Retryable p code)"
proof (intro conjI impI)
  show "Retryable p code \<longleftrightarrow> 1 < MaxAttempts p \<and>
      code \<in> set (if RetryableCodes p = [] then defaultRetryableCodes else RetryableCodes p)"
    by (rule Retryable_iff [OF assms])
  show "\<not> Retryable p code" if "code \<in> set neverRetryableCodes"
    using that by (simp add: Retryable_def)
qed

theorem retryable_spec_witness:
  "Retryable \<lparr>MaxAttempts = 3, BaseDelay = second, MaxDelay = minute,
     RetryableCodes = [CodeExecTimeout]\<rparr> CodeExecTimeout
   \<and> \<not> Retryable \<lparr>MaxAttempts = 3, BaseDelay = second, MaxDelay = minute,
     RetryableCodes = [CodeExecTimeout]\<rparr> CodeRuntimeNotReady"
proof -
  define p where "p = \<lparr>MaxAttempts = 3, BaseDelay = second, MaxDelay = minute,
     RetryableCodes = [CodeExecTimeout]\<rparr>"
  have valid: "RetryPolicy_Validate p = None"
    by (simp add: RetryPolicy_Validate_None p_def retry_const_defs defaultRetryableCodes_def)
  have "Retryable p CodeExecTimeout"
    using retryable_spec [OF valid, of CodeExecTimeout] by (simp add: p_def)
  moreover have "\<not> Retryable p CodeRuntimeNotReady"
    using retryable_spec [OF valid, of CodeRuntimeNotReady] by (simp add: p_def)
  ultimately show ?thesis by (simp add: p_def)
qed

section \<open>The back-off and its bounds\<close>

lemma backoff_loop_closed:
  assumes "0 < base" "base \<le> maxd" "maxd < 2 ^ 62"
  shows "backoff_loop maxd n base = min (base * 2 ^ n) maxd"
  using assms
proof (induction n arbitrary: base)
  case 0
  then show ?case by simp
next
  case (Suc n)
  have fits: "wrap64 (base * 2) = base * 2"
    using Suc.prems by (intro wrap64_id) (simp add: in_int64_def)
  show ?case
  proof (cases "maxd \<le> base * 2")
    case True
    moreover have "base * 2 * 1 \<le> base * 2 * 2 ^ n"
      using Suc.prems by (intro mult_left_mono) auto
    ultimately show ?thesis by (simp add: fits Let_def algebra_simps)
  next
    case False
    then have "backoff_loop maxd n (base * 2) = min (base * 2 * 2 ^ n) maxd"
      using Suc.prems by (intro Suc.IH) auto
    with False show ?thesis by (simp add: fits Let_def algebra_simps)
  qed
qed

lemma effective_max_pos: "0 < effective_max p"
  by (simp add: effective_max_def retry_const_defs)

lemma effective_base_pos: "0 < effective_base p"
  by (simp add: effective_base_def retry_const_defs)

lemma jitter_factor_bounds:
  assumes "0 \<le> j" "j \<le> 1"
  shows "7998 / 10000 \<le> jitter_factor j" and "jitter_factor j \<le> 12002 / 10000"
proof -
  define f1 f2 f3 f4 where "f1 = float64 (j * 2)" and "f2 = float64 (f1 - 1)"
    and "f3 = float64 (f2 * 20)" and "f4 = float64 (f3 / 100)"
  have "- 1 / 10000 \<le> f1 \<and> f1 \<le> 20001 / 10000"
    using float64_near [of 0 "j * 2" 2 2] assms by (simp add: f1_def)
  then have "- 10002 / 10000 \<le> f2 \<and> f2 \<le> 10002 / 10000"
    using float64_near [of "- 10001 / 10000" "f1 - 1" "10001 / 10000" 2] by (simp add: f2_def)
  then have "- 20005 / 1000 \<le> f3 \<and> f3 \<le> 20005 / 1000"
    using float64_near [of "- 20004 / 1000" "f2 * 20" "20004 / 1000" 21] by (simp add: f3_def)
  then have "- 2001 / 10000 \<le> f4 \<and> f4 \<le> 2001 / 10000"
    using float64_near [of "- 20005 / 100000" "f3 / 100" "20005 / 100000" 1] by (simp add: f4_def)
  then have "7998 / 10000 \<le> float64 (1 + f4) \<and> float64 (1 + f4) \<le> 12002 / 10000"
    using float64_near [of "7999 / 10000" "1 + f4" "12001 / 10000" 2] by simp
  then show "7998 / 10000 \<le> jitter_factor j" and "jitter_factor j \<le> 12002 / 10000"
    by (simp_all add: jitter_factor_def retryJitterPercent_def f1_def f2_def f3_def f4_def)
qed

lemma scaled_delay_bounds:
  assumes b: "0 < b" "b < 2 ^ 62" and j: "0 \<le> j" "j \<le> 1"
  defines "d \<equiv> int64_of_float (float64 (float64 (of_int b) * jitter_factor j))"
  shows "799 * b \<le> 1000 * (d + 1)" and "1000 * d \<le> 1201 * b" and "0 \<le> d"
proof -
  define x f where "x = (of_int b :: rat)" and "f = jitter_factor j"
  have x: "1 \<le> x" "x < 2 ^ 62" using b by (simp_all add: x_def)
  have f: "7998 / 10000 \<le> f" "f \<le> 12002 / 10000"
    using jitter_factor_bounds [OF j] by (simp_all add: f_def)
  have fx: "99999 / 100000 * x \<le> float64 x" "float64 x \<le> 100001 / 100000 * x"
    using float64_near [of x x x x] x by simp_all
  have "99999 / 100000 * x * (7998 / 10000) \<le> float64 x * f"
    using fx f x by (intro mult_mono) auto
  moreover have "float64 x * f \<le> 100001 / 100000 * x * (12002 / 10000)"
    using fx f x by (intro mult_mono) auto
  ultimately have "7997 / 10000 * x \<le> float64 x * f" "float64 x * f \<le> 12004 / 10000 * x"
    using x by linarith+
  note prod = this
  have m: "\<bar>7997 / 10000 * x\<bar> \<le> 2 * x" "\<bar>12004 / 10000 * x\<bar> \<le> 2 * x" using x by simp_all
  from float64_near [OF prod m]
  have y: "7995 / 10000 * x \<le> float64 (float64 x * f)" "float64 (float64 x * f) \<le> 12006 / 10000 * x"
    using x by simp_all
  define y where "y = float64 (float64 x * f)"
  have y_bounds: "7995 / 10000 * x \<le> y" "y \<le> 12006 / 10000 * x" using y by (simp_all add: y_def)
  have y0: "0 \<le> y" using y_bounds x by linarith
  have floor: "of_int \<lfloor>y\<rfloor> \<le> y" "y < of_int \<lfloor>y\<rfloor> + 1" by linarith+
  have "of_int \<lfloor>y\<rfloor> < (2 ^ 63 :: rat)" using floor y_bounds x by simp
  then have "\<lfloor>y\<rfloor> < 2 ^ 63" by (metis of_int_less_iff of_int_numeral of_int_power)
  moreover have "0 \<le> \<lfloor>y\<rfloor>" using y0 by simp
  ultimately have d: "d = \<lfloor>y\<rfloor>"
    using y0 by (simp add: d_def int64_of_float_def in_int64_def y_def x_def f_def)
  show "0 \<le> d" using \<open>0 \<le> \<lfloor>y\<rfloor>\<close> d by simp
  have "799 * x \<le> 1000 * (of_int d + 1)" using floor(2) y_bounds(1) x(1) unfolding d by simp
  then have "rat_of_int (799 * b) \<le> rat_of_int (1000 * (d + 1))" by (simp add: x_def)
  then show "799 * b \<le> 1000 * (d + 1)" by (simp only: of_int_le_iff)
  have "1000 * y \<le> 1201 * x" using y_bounds(2) x(1) by simp
  with floor(1) have "1000 * of_int d \<le> 1201 * x" unfolding d by linarith
  then have "rat_of_int (1000 * d) \<le> rat_of_int (1201 * b)" by (simp add: x_def)
  then show "1000 * d \<le> 1201 * b" by (simp only: of_int_le_iff)
qed

text \<open>Whatever the attempt number and the jitter, the delay before the next attempt is never
  negative and never exceeds the policy's maximal delay (five minutes when none is set).\<close>

theorem next_delay_capped:
  "0 \<le> NextDelay p attempt jitter \<and> NextDelay p attempt jitter \<le> effective_max p"
  using effective_max_pos [of p] by (auto simp: NextDelay_def Let_def)

text \<open>The delay after attempt \<open>n\<close> follows \<open>base * 2 ^ (n - 1)\<close>, cut at the maximal delay, within
  the jitter band: up to rounding it is between 80 and 120 percent of that value.\<close>

theorem next_delay_exponential:
  assumes "effective_base p \<le> effective_max p" and "effective_max p < 2 ^ 62"
    and "1 \<le> attempt" and "0 \<le> jitter" and "jitter \<le> 1"
  defines "b \<equiv> min (effective_base p * 2 ^ nat (attempt - 1)) (effective_max p)"
  shows "799 * b \<le> 1000 * (NextDelay p attempt jitter + 1)
       \<and> 1000 * NextDelay p attempt jitter \<le> 1201 * b"
proof -
  have pos: "0 < effective_base p" "0 < effective_max p"
    by (rule effective_base_pos, rule effective_max_pos)
  have loop: "backoff_loop (effective_max p) (nat (attempt - 1)) (effective_base p) = b"
    using assms(1,2) pos by (simp add: backoff_loop_closed b_def)
  have b: "0 < b" "b \<le> effective_max p" "b < 2 ^ 62"
    using assms(2) pos by (auto simp: b_def)
  define d where "d = int64_of_float (float64 (float64 (of_int b) * jitter_factor jitter))"
  have d: "799 * b \<le> 1000 * (d + 1)" "1000 * d \<le> 1201 * b" "0 \<le> d"
    using scaled_delay_bounds [OF b(1,3) assms(4,5)] by (simp_all add: d_def)
  have "NextDelay p attempt jitter = min d (effective_max p)"
    using assms(3-5) b(2) d(3) pos by (simp add: NextDelay_def Let_def loop d_def [symmetric])
  with b d show ?thesis by (auto simp: min_def)
qed

theorem next_delay_exponential_witness:
  "NextDelay (RetryPolicyFromSpec \<lparr>SpecMaxAttempts = 5, BaseDelaySeconds = 5, MaxDelaySeconds = 60,
     RetryableErrorCodes = []\<rparr>) 3 (1 / 2) \<le> 24020000000"
proof -
  define p where "p = RetryPolicyFromSpec \<lparr>SpecMaxAttempts = 5, BaseDelaySeconds = 5,
     MaxDelaySeconds = 60, RetryableErrorCodes = []\<rparr>"
  have p: "effective_base p = 5000000000" "effective_max p = 60000000000"
    by (simp_all add: p_def RetryPolicyFromSpec_def effective_base_def effective_max_def
        Let_def duration_defs in_int64_def)
  have "1000 * NextDelay p 3 (1 / 2) \<le> 1201 * min (effective_base p * 2 ^ nat (3 - 1)) (effective_max p)"
    using next_delay_exponential [of p 3 "1 / 2"] by (simp add: p)
  then show ?thesis by (simp add: p p_def [symmetric])
qed

text \<open>The doubling overflows 64 bits when the maximal delay is above half the range: a policy
  that passes validation with delays of that size retries at once after the second attempt, where
  the cap says it should wait for the maximal delay.\<close>

theorem next_delay_overflow:
  "\<exists>p. RetryPolicy_Validate p = None \<and> 0 < MaxDelay p \<and>
     NextDelay p 2 ` {0..1} = {0}"
proof -
  define p where "p = \<lparr>MaxAttempts = 3, BaseDelay = 4700000000000000000,
     MaxDelay = 9000000000000000000, RetryableCodes = []\<rparr>"
  have "NextDelay p 2 j = 0" if j: "0 \<le> j" "j \<le> 1" for j :: rat
  proof -
    define x where "x = float64 (of_int (- 9046744073709551616))"
    have x: "x \<le> - 9000000000000000000"
      using float64_near(2) [of "- 9046744073709551616" "- 9046744073709551616"
          "- 9046744073709551616" "9046744073709551616"] by (simp add: x_def)
    have "x * jitter_factor j \<le> - 9000000000000000000 * (7998 / 10000)"
      using mult_mono [of "9000000000000000000" "- x" "7998 / 10000" "jitter_factor j"]
        x jitter_factor_bounds(1) [OF j] by simp
    then have neg: "x * jitter_factor j < 0" by (rule le_less_trans) simp
    from neg have "float64 (x * jitter_factor j) \<le> 0"
      by (intro float64_nonpos) simp
    then have "int64_of_float (float64 (x * jitter_factor j)) \<le> 0"
      by (auto simp: int64_of_float_def Let_def ceiling_le_zero)
    then show ?thesis
      using j by (simp add: NextDelay_def p_def effective_base_def effective_max_def Let_def
          wrap64_def x_def [simplified])
  qed
  then have "NextDelay p 2 ` {0..1} = {0}" by (force simp: image_iff)
  moreover have "RetryPolicy_Validate p = None"
    by (simp add: RetryPolicy_Validate_None p_def MaxRetryAttempts_def)
  ultimately show ?thesis by (intro exI [of _ p]) (simp add: p_def)
qed

end
