(* ===== verification/Operation.thy ===== *)
theory Operation
  imports Retry
begin

text \<open>
  Operations (\<open>internal/domain/operation.go\<close>, \<open>lock.go\<close>, \<open>audit.go\<close>): the record every piece of work is
  tracked by, its status machine, the resource lock, and the audit and log entries written beside
  it. Optional fields that Go spells as the empty string (\<open>IdempotencyKey\<close>, \<open>RetryOf\<close>, ...) stay
  strings, pointers are options.
\<close>

section \<open>Status machine\<close>

datatype Status =
    StatusPending
  | StatusRunning
  | StatusSucceeded
  | StatusFailed
  | StatusCancelled
  | StatusRolledBack
  | StatusOther string

fun Status_Terminal :: "Status \<Rightarrow> bool" where
  "Status_Terminal StatusSucceeded = True"
| "Status_Terminal StatusFailed = True"
| "Status_Terminal StatusCancelled = True"
| "Status_Terminal StatusRolledBack = True"
| "Status_Terminal _ = False"

fun Status_Valid :: "Status \<Rightarrow> bool" where
  "Status_Valid (StatusOther _) = False"
| "Status_Valid _ = True"

fun allowedTransitions :: "Status \<Rightarrow> Status list" where
  "allowedTransitions StatusPending = [StatusRunning, StatusCancelled]"
| "allowedTransitions StatusRunning = [StatusSucceeded, StatusFailed, StatusCancelled]"
| "allowedTransitions _ = []"

definition CanTransition :: "Status \<Rightarrow> Status \<Rightarrow> bool" where
  "CanTransition from to \<longleftrightarrow> to \<in> set (allowedTransitions from)"

definition CanRetry :: "Status \<Rightarrow> bool" where
  "CanRetry s \<longleftrightarrow> s = StatusFailed \<or> s = StatusCancelled"

text \<open>What the store calls incomplete: neither finished nor cancelled yet.\<close>

definition incomplete :: "Status \<Rightarrow> bool" where
  "incomplete s \<longleftrightarrow> s = StatusPending \<or> s = StatusRunning"

lemma incomplete_simps [simp]:
  "incomplete StatusPending" "incomplete StatusRunning"
  "Status_Terminal s \<Longrightarrow> \<not> incomplete s"
  by (simp_all add: incomplete_def) (cases s; simp)

lemma Terminal_final: "Status_Terminal s \<Longrightarrow> \<not> CanTransition s t"
  by (cases s) (simp_all add: CanTransition_def)

lemma CanTransition_simps [simp]:
  "CanTransition StatusPending t \<longleftrightarrow> t = StatusRunning \<or> t = StatusCancelled"
  "CanTransition StatusRunning t \<longleftrightarrow> t = StatusSucceeded \<or> t = StatusFailed \<or> t = StatusCancelled"
  by (auto simp: CanTransition_def)

fun status_name :: "Status \<Rightarrow> string" where
  "status_name StatusPending = ''pending''"
| "status_name StatusRunning = ''running''"
| "status_name StatusSucceeded = ''succeeded''"
| "status_name StatusFailed = ''failed''"
| "status_name StatusCancelled = ''cancelled''"
| "status_name StatusRolledBack = ''rolled_back''"
| "status_name (StatusOther s) = s"

section \<open>Records\<close>

datatype Phase = PhaseNone | PhaseValidate | PhasePrepare | PhaseExecute | PhaseRollback | PhaseFinalize

record Operation =
  ID :: string
  OpKind :: Kind
  Resource :: string
  OpStatus :: Status
  OpPhase :: Phase
  DryRun :: bool
  IdempotencyKey :: string
  RequestHash :: string
  RetryOf :: string
  OpExitCode :: "int option"
  OpErrorCode :: "ErrorCode option"
  OpErrorMessage :: string
  Spec :: string
  CreatedAt :: time
  StartedAt :: "time option"
  FinishedAt :: "time option"
  CreatedBy :: string
  ClaimedBy :: string
  Attempt :: int
  NotBefore :: "time option"
  OpRetryPolicy :: RetryPolicy
  RetryPolicyJSON :: RetryJSON

definition RetryExhausted :: "Operation \<Rightarrow> bool" where
  "RetryExhausted op \<longleftrightarrow> OpStatus op = StatusFailed \<and> Enabled (OpRetryPolicy op)
     \<and> MaxAttempts (OpRetryPolicy op) \<le> Attempt op"

record RetryPlan =
  PlanOperationID :: string
  PlanNotBefore :: time
  PlanRetryPolicyJSON :: RetryJSON

record FinishInput =
  FinOperationID :: string
  FinStatus :: Status
  FinExitCode :: "int option"
  FinErrorCode :: "ErrorCode option"
  FinErrorMessage :: string
  FinRetry :: "RetryPlan option"

record ResourceLock =
  LockResource :: string
  OwnerOperationID :: string
  AcquiredAt :: time
  ReleasedAt :: "time option"

definition Lock_Active :: "ResourceLock \<Rightarrow> bool" where
  "Lock_Active l \<longleftrightarrow> ReleasedAt l = None"

text \<open>Values of the free-form detail maps: the text is kept as the value it was printed from.\<close>

datatype Detail = VStr string | VCode ErrorCode | VTime time | VInt int

datatype (plugins only: code size) EventType =
    EventOperationCreated
  | EventOperationStarted
  | EventOperationSucceeded
  | EventOperationFailed
  | EventOperationCancelled
  | EventOperationRetried
  | EventDaemonRecovered
  | EventLockAcquired
  | EventLockReleased
  | EventArtifactCreated
  | EventArtifactDeleted
  | EventArtifactCollected
  | EventScheduleCreated
  | EventScheduleEnabled
  | EventScheduleDisabled
  | EventScheduleDeleted
  | EventRuntimePrepared
  | EventBackupPolicySaved
  | EventBackupFinished
  | EventBackupSucceeded
  | EventBackupFailed
  | EventBackupPruned

record AuditEvent =
  EvType :: EventType
  EvActor :: string
  EvOperationID :: string
  EvResource :: string
  EvResult :: string
  EvTime :: time
  EvDetails :: "(string \<times> Detail) list"

record LogEntry =
  LogOperationID :: string
  LogLevel :: string
  LogPhase :: Phase
  LogMessage :: string
  LogFields :: "(string \<times> Detail) list"
  LogTime :: time

end
