(* ===== verification/OpStore.thy ===== *)
theory OpStore
  imports Operation "HOL-Library.Product_Lexorder"
begin

text \<open>
  The operation tables of the SQLite store (\<open>internal/adapters/sqlite/store.go\<close>): operations, resource
  locks, audit events and operation logs, with every statement that changes them.

  A database is a record of its tables, each a list of rows in insertion order. A method that runs in
  a transaction returns its result and the new state; when it returns an error, or returns before the
  commit, the state is the old one. The constraints the code relies on are checked where SQLite checks
  them: primary key and foreign keys of \<open>operations\<close>, the unique index on the idempotency key, the
  \<open>CHECK\<close> on the status, the foreign keys of the logs and audit events. A violated constraint is a
  driver error, which \<open>CodeOf\<close> maps to \<open>INTERNAL\<close>. Failures of the disk or of the driver are not
  modelled. Times are stored with a fixed width, so comparing the texts compares the times.
\<close>

section \<open>State\<close>

record OpDb =
  operations :: "Operation list"
  resource_locks :: "ResourceLock list"
  audit_events :: "AuditEvent list"
  operation_logs :: "LogEntry list"

definition empty_db :: OpDb where
  "empty_db = \<lparr>operations = [], resource_locks = [], audit_events = [], operation_logs = []\<rparr>"

definition find_operation :: "OpDb \<Rightarrow> string \<Rightarrow> Operation option" where
  "find_operation db i = find (\<lambda>r. ID r = i) (operations db)"

definition loadOperation :: "OpDb \<Rightarrow> string \<Rightarrow> ErrorCode + Operation" where
  "loadOperation db i =
     (case find_operation db i of None \<Rightarrow> Inl CodeOperationNotFound | Some op \<Rightarrow> Inr op)"

definition GetOperation :: "OpDb \<Rightarrow> string \<Rightarrow> ErrorCode + Operation" where
  "GetOperation db i = loadOperation db i"

definition getOperationByKey :: "OpDb \<Rightarrow> string \<Rightarrow> Operation option" where
  "getOperationByKey db key = find (\<lambda>r. IdempotencyKey r = key) (operations db)"

text \<open>\<open>ORDER BY created_at DESC, id DESC LIMIT ?\<close>, restricted to one status when one is given.\<close>

definition ListOperations :: "OpDb \<Rightarrow> nat \<Rightarrow> Status option \<Rightarrow> Operation list" where
  "ListOperations db limit status =
     take limit (rev (sort_key (\<lambda>r. (CreatedAt r, ID r))
       (filter (\<lambda>r. case status of None \<Rightarrow> True | Some s \<Rightarrow> OpStatus r = s) (operations db))))"

definition CountByStatus :: "OpDb \<Rightarrow> Status \<Rightarrow> nat" where
  "CountByStatus db status = length (filter (\<lambda>r. OpStatus r = status) (operations db))"

definition hasIncompleteOperation :: "OpDb \<Rightarrow> string \<Rightarrow> bool" where
  "hasIncompleteOperation db resource \<longleftrightarrow>
     list_ex (\<lambda>r. Resource r = resource \<and> (OpStatus r = StatusPending \<or> OpStatus r = StatusRunning))
       (operations db)"

definition ActiveLock :: "OpDb \<Rightarrow> string \<Rightarrow> ResourceLock option" where
  "ActiveLock db resource =
     find (\<lambda>l. LockResource l = resource \<and> ReleasedAt l = None) (resource_locks db)"

section \<open>Inserts\<close>

definition normalizeAttempt :: "int \<Rightarrow> int" where
  "normalizeAttempt attempt = (if attempt < 1 then 1 else attempt)"

text \<open>What reading a row back makes of the operation that was written: \<open>ClaimedBy\<close> has no column, the
  attempt is normalised, and the retry policy is parsed from its text (a text that does not parse
  gives the zero policy).\<close>

definition stored :: "Operation \<Rightarrow> Operation" where
  "stored op = op\<lparr>ClaimedBy := [], Attempt := normalizeAttempt (Attempt op),
     OpRetryPolicy := (case ParseRetryPolicy (RetryPolicyJSON op) of
                         Inr p \<Rightarrow> p | Inl _ \<Rightarrow> zero_policy)\<rparr>"

definition insertOperation :: "OpDb \<Rightarrow> Operation \<Rightarrow> ErrorCode + OpDb" where
  "insertOperation db op =
     (if find_operation db (ID op) \<noteq> None
         \<or> (IdempotencyKey op \<noteq> [] \<and> getOperationByKey db (IdempotencyKey op) \<noteq> None)
         \<or> (RetryOf op \<noteq> [] \<and> RetryOf op \<noteq> ID op \<and> find_operation db (RetryOf op) = None)
         \<or> \<not> Status_Valid (OpStatus op)
      then Inl CodeInternal
      else Inr (db\<lparr>operations := operations db @ [stored op]\<rparr>))"

definition insertAudit :: "OpDb \<Rightarrow> AuditEvent \<Rightarrow> ErrorCode + OpDb" where
  "insertAudit db event =
     (if EvOperationID event \<noteq> [] \<and> find_operation db (EvOperationID event) = None
      then Inl CodeInternal
      else Inr (db\<lparr>audit_events := audit_events db @ [event]\<rparr>))"

definition insertLog :: "OpDb \<Rightarrow> LogEntry \<Rightarrow> ErrorCode + OpDb" where
  "insertLog db entry =
     (if find_operation db (LogOperationID entry) = None then Inl CodeInternal
      else Inr (db\<lparr>operation_logs := operation_logs db @ [entry]\<rparr>))"

definition releaseLock :: "OpDb \<Rightarrow> string \<Rightarrow> string \<Rightarrow> time \<Rightarrow> OpDb" where
  "releaseLock db resource owner now =
     db\<lparr>resource_locks := map (\<lambda>l.
         if LockResource l = resource \<and> OwnerOperationID l = owner \<and> ReleasedAt l = None
         then l\<lparr>ReleasedAt := Some now\<rparr> else l) (resource_locks db)\<rparr>"

text \<open>\<open>UPDATE operations SET ... WHERE id = ? AND status = ?\<close>: the new table and whether a row was hit.\<close>

definition update_operation ::
  "OpDb \<Rightarrow> string \<Rightarrow> Status \<Rightarrow> (Operation \<Rightarrow> Operation) \<Rightarrow> OpDb" where
  "update_operation db i st f =
     db\<lparr>operations := map (\<lambda>r. if ID r = i \<and> OpStatus r = st then f r else r) (operations db)\<rparr>"

definition AppendLog :: "OpDb \<Rightarrow> LogEntry \<Rightarrow> ErrorCode + OpDb" where
  "AppendLog db entry = insertLog db entry"

definition AppendAudit :: "OpDb \<Rightarrow> AuditEvent \<Rightarrow> ErrorCode + OpDb" where
  "AppendAudit db event = insertAudit db event"

definition errorDetail :: "ErrorCode option \<Rightarrow> (string \<times> Detail) list" where
  "errorDetail code = (case code of None \<Rightarrow> [] | Some c \<Rightarrow> [(''errorCode'', VCode c)])"

fun terminalEvent :: "Status \<Rightarrow> EventType" where
  "terminalEvent StatusSucceeded = EventOperationSucceeded"
| "terminalEvent StatusCancelled = EventOperationCancelled"
| "terminalEvent _ = EventOperationFailed"

definition logLevel :: "Status \<Rightarrow> string" where
  "logLevel st = (if st = StatusSucceeded then ''info'' else ''error'')"

definition finishMessage :: "FinishInput \<Rightarrow> string" where
  "finishMessage inp =
     (case FinErrorCode inp of
        Some c \<Rightarrow> ''operation finished with '' @ code_text c
      | None \<Rightarrow> ''operation '' @ status_name (FinStatus inp))"

section \<open>Creating\<close>

definition CreateOperation :: "OpDb \<Rightarrow> Operation \<Rightarrow> (ErrorCode + Operation \<times> bool) \<times> OpDb" where
  "CreateOperation db op =
     (case (if IdempotencyKey op = [] then None else getOperationByKey db (IdempotencyKey op)) of
        Some existing \<Rightarrow>
          if RequestHash existing \<noteq> RequestHash op then (Inl CodeIdempotencyConflict, db)
          else (Inr (existing, False), db)
      | None \<Rightarrow>
          if hasIncompleteOperation db (Resource op) then (Inl CodeLockBusy, db)
          else
            (case bind_res (insertOperation db op) (\<lambda>db1.
                    insertAudit db1
                      \<lparr>EvType = EventOperationCreated, EvActor = CreatedBy op, EvOperationID = ID op,
                       EvResource = Resource op, EvResult = status_name (OpStatus op),
                       EvTime = CreatedAt op,
                       EvDetails = (if ClaimedBy op \<noteq> [] then [(''claimedBy'', VStr (ClaimedBy op))] else [])\<rparr>)
             of Inl e \<Rightarrow> (Inl e, db)
              | Inr db2 \<Rightarrow> (Inr (op, True), db2)))"

section \<open>Claiming\<close>

definition claimable :: "OpDb \<Rightarrow> time \<Rightarrow> Operation \<Rightarrow> bool" where
  "claimable db now op \<longleftrightarrow>
     OpStatus op = StatusPending
     \<and> (case NotBefore op of None \<Rightarrow> True | Some t \<Rightarrow> t \<le> now)
     \<and> \<not> list_ex (\<lambda>l. LockResource l = Resource op \<and> ReleasedAt l = None) (resource_locks db)"

text \<open>The upsert of the lock row; the flag tells whether a row was inserted or updated.\<close>

definition upsert_lock :: "ResourceLock \<Rightarrow> ResourceLock list \<Rightarrow> ResourceLock list \<times> bool" where
  "upsert_lock lock locks =
     (case find (\<lambda>l. LockResource l = LockResource lock) locks of
        None \<Rightarrow> (locks @ [lock], True)
      | Some l \<Rightarrow>
          if ReleasedAt l = None then (locks, False)
          else (map (\<lambda>l. if LockResource l = LockResource lock then lock else l) locks, True))"

definition ClaimNextPending :: "OpDb \<Rightarrow> time \<Rightarrow> (ErrorCode + Operation option) \<times> OpDb" where
  "ClaimNextPending db now =
     (case sort_key (\<lambda>r. (CreatedAt r, ID r)) (filter (claimable db now) (operations db)) of
        [] \<Rightarrow> (Inr None, db)
      | op # _ \<Rightarrow>
          (case upsert_lock \<lparr>LockResource = Resource op, OwnerOperationID = ID op,
                   AcquiredAt = now, ReleasedAt = None\<rparr> (resource_locks db) of
             (_, False) \<Rightarrow> (Inr None, db)
           | (locks, True) \<Rightarrow>
               let start = (\<lambda>r. r\<lparr>OpStatus := StatusRunning, OpPhase := PhaseExecute, StartedAt := Some now\<rparr>);
                   db1 = update_operation (db\<lparr>resource_locks := locks\<rparr>) (ID op) StatusPending start
               in case bind_res
                    (insertAudit db1
                      \<lparr>EvType = EventLockAcquired, EvActor = [], EvOperationID = ID op,
                       EvResource = Resource op, EvResult = status_name StatusRunning, EvTime = now,
                       EvDetails = []\<rparr>)
                    (\<lambda>db2. insertLog db2
                      \<lparr>LogOperationID = ID op, LogLevel = ''info'', LogPhase = PhaseExecute,
                       LogMessage = ''operation started'', LogFields = [], LogTime = now\<rparr>)
                  of Inl e \<Rightarrow> (Inl e, db)
                   | Inr db3 \<Rightarrow> (Inr (Some (start op)), db3)))"

section \<open>Finishing\<close>

definition retry_operation :: "Operation \<Rightarrow> RetryPlan \<Rightarrow> time \<Rightarrow> Operation" where
  "retry_operation original plan now =
     \<lparr>ID = PlanOperationID plan, OpKind = OpKind original, Resource = Resource original,
      OpStatus = StatusPending, OpPhase = PhaseNone, DryRun = DryRun original, IdempotencyKey = [],
      RequestHash = RequestHash original, RetryOf = ID original, OpExitCode = None,
      OpErrorCode = None, OpErrorMessage = [], Spec = Spec original, CreatedAt = now,
      StartedAt = None, FinishedAt = None, CreatedBy = CreatedBy original, ClaimedBy = [],
      Attempt = normalizeAttempt (Attempt original) + 1, NotBefore = Some (PlanNotBefore plan),
      OpRetryPolicy = zero_policy, RetryPolicyJSON = PlanRetryPolicyJSON plan\<rparr>"

definition insertRetryOperation :: "OpDb \<Rightarrow> Operation \<Rightarrow> RetryPlan \<Rightarrow> time \<Rightarrow> ErrorCode + OpDb" where
  "insertRetryOperation db original plan now =
     (let retry = retry_operation original plan now;
          details = [(''retryOf'', VStr (ID original)), (''attempt'', VInt (Attempt retry)),
                     (''notBefore'', VTime (PlanNotBefore plan)), (''automatic'', VStr ''true'')]
      in bind_res (insertOperation db retry) (\<lambda>db1.
         bind_res (insertAudit db1
           \<lparr>EvType = EventOperationRetried, EvActor = CreatedBy original, EvOperationID = ID retry,
            EvResource = Resource retry, EvResult = status_name StatusPending, EvTime = now,
            EvDetails = details\<rparr>) (\<lambda>db2.
         insertLog db2
           \<lparr>LogOperationID = ID retry, LogLevel = ''info'', LogPhase = PhasePrepare,
            LogMessage = ''retry scheduled'', LogFields = details, LogTime = now\<rparr>)))"

definition finished :: "FinishInput \<Rightarrow> time \<Rightarrow> Operation \<Rightarrow> Operation" where
  "finished inp now op = op\<lparr>OpStatus := FinStatus inp, OpPhase := PhaseFinalize,
     OpExitCode := FinExitCode inp, OpErrorCode := FinErrorCode inp,
     OpErrorMessage := FinErrorMessage inp, FinishedAt := Some now\<rparr>"

definition Finish :: "OpDb \<Rightarrow> FinishInput \<Rightarrow> time \<Rightarrow> (ErrorCode + Operation) \<times> OpDb" where
  "Finish db inp now =
     (case loadOperation db (FinOperationID inp) of
        Inl e \<Rightarrow> (Inl e, db)
      | Inr op \<Rightarrow>
          if OpStatus op \<noteq> StatusRunning then (Inr op, db)
          else if \<not> Status_Valid (FinStatus inp) then (Inl CodeInternal, db)
          else
            let db1 = update_operation db (ID op) StatusRunning (finished inp now);
                db2 = releaseLock db1 (Resource op) (ID op) now
            in case
                 bind_res (insertAudit db2
                   \<lparr>EvType = terminalEvent (FinStatus inp), EvActor = [], EvOperationID = ID op,
                    EvResource = Resource op, EvResult = status_name (FinStatus inp), EvTime = now,
                    EvDetails = errorDetail (FinErrorCode inp)\<rparr>) (\<lambda>db3.
                 bind_res (insertLog db3
                   \<lparr>LogOperationID = ID op, LogLevel = logLevel (FinStatus inp),
                    LogPhase = PhaseFinalize, LogMessage = finishMessage inp,
                    LogFields = errorDetail (FinErrorCode inp), LogTime = now\<rparr>) (\<lambda>db4.
                 case FinRetry inp of
                   None \<Rightarrow> Inr db4
                 | Some plan \<Rightarrow> insertRetryOperation db4 op plan now))
               of Inl e \<Rightarrow> (Inl e, db)
                | Inr db5 \<Rightarrow> (Inr (finished inp now op), db5))"

section \<open>Cancelling\<close>

definition cancelled :: "time \<Rightarrow> Operation \<Rightarrow> Operation" where
  "cancelled now op =
     op\<lparr>OpStatus := StatusCancelled, OpPhase := PhaseFinalize, FinishedAt := Some now\<rparr>"

definition CancelPending :: "OpDb \<Rightarrow> string \<Rightarrow> time \<Rightarrow> (ErrorCode + Operation \<times> bool) \<times> OpDb" where
  "CancelPending db i now =
     (case loadOperation db i of
        Inl e \<Rightarrow> (Inl e, db)
      | Inr op \<Rightarrow>
          if OpStatus op \<noteq> StatusPending then (Inr (op, False), db)
          else
            (case insertAudit (update_operation db i StatusPending (cancelled now))
                    \<lparr>EvType = EventOperationCancelled, EvActor = [], EvOperationID = ID op,
                     EvResource = Resource op, EvResult = status_name StatusCancelled, EvTime = now,
                     EvDetails = []\<rparr>
             of Inl e \<Rightarrow> (Inl e, db)
              | Inr db1 \<Rightarrow> (Inr (cancelled now op, True), db1)))"

section \<open>Recovery\<close>

definition interrupted :: "time \<Rightarrow> Operation \<Rightarrow> Operation" where
  "interrupted now op =
     op\<lparr>OpStatus := StatusFailed, OpPhase := PhaseFinalize, OpErrorCode := Some CodeDaemonRestarted,
        OpErrorMessage := ''daemon restarted while the operation was running'', FinishedAt := Some now\<rparr>"

definition recover_one ::
  "time \<Rightarrow> (Operation \<Rightarrow> RetryPlan option) \<Rightarrow> Operation \<Rightarrow> OpDb \<Rightarrow> ErrorCode + OpDb" where
  "recover_one now plan op db =
     (let db1 = update_operation db (ID op) StatusRunning (interrupted now);
          db2 = releaseLock db1 (Resource op) (ID op) now
      in bind_res (insertAudit db2
           \<lparr>EvType = EventDaemonRecovered, EvActor = [], EvOperationID = ID op,
            EvResource = Resource op, EvResult = status_name StatusFailed, EvTime = now,
            EvDetails = [(''errorCode'', VCode CodeDaemonRestarted)]\<rparr>) (\<lambda>db3.
         bind_res (insertLog db3
           \<lparr>LogOperationID = ID op, LogLevel = ''error'', LogPhase = PhaseFinalize,
            LogMessage = ''daemon restarted while the operation was running'',
            LogFields = [(''errorCode'', VCode CodeDaemonRestarted)], LogTime = now\<rparr>) (\<lambda>db4.
         case plan op of
           None \<Rightarrow> Inr db4
         | Some retry \<Rightarrow> insertRetryOperation db4 op retry now)))"

fun recover_loop ::
  "time \<Rightarrow> (Operation \<Rightarrow> RetryPlan option) \<Rightarrow> Operation list \<Rightarrow> OpDb \<Rightarrow> ErrorCode + OpDb" where
  "recover_loop now plan [] db = Inr db"
| "recover_loop now plan (op # ops) db =
     bind_res (recover_one now plan op db) (recover_loop now plan ops)"

definition RecoverRunning ::
  "OpDb \<Rightarrow> time \<Rightarrow> (Operation \<Rightarrow> RetryPlan option) \<Rightarrow> (ErrorCode + Operation list) \<times> OpDb" where
  "RecoverRunning db now plan =
     (let stale = sort_key CreatedAt (filter (\<lambda>r. OpStatus r = StatusRunning) (operations db))
      in case recover_loop now plan stale db of
           Inl e \<Rightarrow> (Inl e, db)
         | Inr db' \<Rightarrow> (Inr stale, db'))"

end
