(* ===== verification/OpInv.thy ===== *)
theory OpInv
  imports OpStore
begin

text \<open>
  The invariant of the operation tables and its preservation by every method of the store: operation
  identifiers and idempotency keys are unique, a resource has at most one incomplete operation, and a
  lock is held exactly by the running operation of its resource.
\<close>

section \<open>The invariant\<close>

definition running_pairs :: "OpDb \<Rightarrow> (string \<times> string) set" where
  "running_pairs db = (\<lambda>r. (Resource r, ID r)) ` {r \<in> set (operations db). OpStatus r = StatusRunning}"

definition active_pairs :: "OpDb \<Rightarrow> (string \<times> string) set" where
  "active_pairs db =
     (\<lambda>l. (LockResource l, OwnerOperationID l)) ` {l \<in> set (resource_locks db). ReleasedAt l = None}"

definition incomplete_ops :: "OpDb \<Rightarrow> Operation list" where
  "incomplete_ops db = filter (\<lambda>r. incomplete (OpStatus r)) (operations db)"

definition keyed_ops :: "OpDb \<Rightarrow> Operation list" where
  "keyed_ops db = filter (\<lambda>r. IdempotencyKey r \<noteq> []) (operations db)"

definition op_inv :: "OpDb \<Rightarrow> bool" where
  "op_inv db \<longleftrightarrow>
     distinct (map ID (operations db))
     \<and> distinct (map Resource (incomplete_ops db))
     \<and> distinct (map IdempotencyKey (keyed_ops db))
     \<and> distinct (map LockResource (resource_locks db))
     \<and> active_pairs db = running_pairs db
     \<and> (\<forall>r \<in> set (operations db). 1 \<le> Attempt r \<and> Status_Valid (OpStatus r)
          \<and> (FinishedAt r \<noteq> None \<longleftrightarrow> Status_Terminal (OpStatus r)))
     \<and> LogOperationID ` set (operation_logs db) \<subseteq> ID ` set (operations db)"

lemma op_inv_empty: "op_inv empty_db"
  by (simp add: op_inv_def empty_db_def incomplete_ops_def keyed_ops_def active_pairs_def
      running_pairs_def)

lemma op_invD:
  assumes "op_inv db"
  shows "distinct (map ID (operations db))"
    and "distinct (map Resource (incomplete_ops db))"
    and "active_pairs db = running_pairs db"
    and "r \<in> set (operations db) \<Longrightarrow> FinishedAt r \<noteq> None \<longleftrightarrow> Status_Terminal (OpStatus r)"
  using assms unfolding op_inv_def by blast+

lemma op_unique:
  "op_inv db \<Longrightarrow> r \<in> set (operations db) \<Longrightarrow> q \<in> set (operations db) \<Longrightarrow> ID r = ID q \<Longrightarrow> r = q"
  using op_invD(1) by (auto simp: distinct_map inj_on_def)

lemma incomplete_unique:
  assumes "op_inv db" "r \<in> set (operations db)" "q \<in> set (operations db)"
    and "incomplete (OpStatus r)" "incomplete (OpStatus q)" "Resource r = Resource q"
  shows "r = q"
  using op_invD(2) [OF assms(1)] assms(2-) by (auto simp: incomplete_ops_def distinct_map inj_on_def)

lemma hasIncomplete_iff:
  "hasIncompleteOperation db res \<longleftrightarrow> (\<exists>r \<in> set (operations db). Resource r = res \<and> incomplete (OpStatus r))"
  by (auto simp: hasIncompleteOperation_def list_ex_iff incomplete_def)

lemma find_operation_Some:
  "find_operation db i = Some r \<Longrightarrow> r \<in> set (operations db) \<and> ID r = i"
  unfolding find_operation_def by (auto simp: find_Some_iff)

lemma find_operation_None: "find_operation db i = None \<longleftrightarrow> i \<notin> ID ` set (operations db)"
  unfolding find_operation_def by (auto simp: find_None_iff)

lemma find_operation_mem:
  assumes "op_inv db" "r \<in> set (operations db)"
  shows "find_operation db (ID r) = Some r"
proof -
  obtain q where q: "find_operation db (ID r) = Some q"
    using assms(2) find_operation_None [of db "ID r"] by fastforce
  from find_operation_Some [OF q] have "q = r" using op_unique assms by blast
  with q show ?thesis by simp
qed

lemma loadOperation_Inr: "loadOperation db i = Inr r \<Longrightarrow> r \<in> set (operations db) \<and> ID r = i"
  by (auto simp: loadOperation_def find_operation_Some split: option.splits)

section \<open>Frame facts of the small steps\<close>

lemma insertAudit_Inr:
  assumes "insertAudit db e = Inr db'"
  shows "operations db' = operations db" "resource_locks db' = resource_locks db"
    "operation_logs db' = operation_logs db" "audit_events db' = audit_events db @ [e]"
  using assms by (auto simp: insertAudit_def split: if_splits)

lemma insertLog_Inr:
  assumes "insertLog db e = Inr db'"
  shows "operations db' = operations db" "resource_locks db' = resource_locks db"
    "operation_logs db' = operation_logs db @ [e]" "audit_events db' = audit_events db"
    "LogOperationID e \<in> ID ` set (operations db)"
  using assms by (auto simp: insertLog_def find_operation_None split: if_splits)

lemma insertOperation_Inr:
  assumes "insertOperation db op = Inr db'"
  shows "db' = db\<lparr>operations := operations db @ [stored op]\<rparr>"
    and "ID op \<notin> ID ` set (operations db)"
    and "IdempotencyKey op \<noteq> [] \<Longrightarrow> IdempotencyKey op \<notin> IdempotencyKey ` set (operations db)"
    and "Status_Valid (OpStatus op)"
  using assms
  by (auto simp: insertOperation_def find_operation_None getOperationByKey_def find_None_iff
      split: if_splits)

lemma stored_simps [simp]:
  "ID (stored op) = ID op" "Resource (stored op) = Resource op" "OpStatus (stored op) = OpStatus op"
  "IdempotencyKey (stored op) = IdempotencyKey op" "FinishedAt (stored op) = FinishedAt op"
  "StartedAt (stored op) = StartedAt op" "OpKind (stored op) = OpKind op"
  "RequestHash (stored op) = RequestHash op" "RetryOf (stored op) = RetryOf op"
  "CreatedAt (stored op) = CreatedAt op" "NotBefore (stored op) = NotBefore op"
  "Spec (stored op) = Spec op" "CreatedBy (stored op) = CreatedBy op"
  "RetryPolicyJSON (stored op) = RetryPolicyJSON op" "DryRun (stored op) = DryRun op"
  "Attempt (stored op) = normalizeAttempt (Attempt op)"
  by (simp_all add: stored_def)

lemma normalizeAttempt_ge [simp]: "1 \<le> normalizeAttempt a"
  by (simp add: normalizeAttempt_def)

lemma inv_cong:
  assumes "op_inv db" "operations db' = operations db" "resource_locks db' = resource_locks db"
    and "LogOperationID ` set (operation_logs db') \<subseteq> ID ` set (operations db)"
  shows "op_inv db'"
  using assms
  by (simp add: op_inv_def incomplete_ops_def keyed_ops_def active_pairs_def running_pairs_def)

lemma op_inv_logs: "op_inv db \<Longrightarrow> LogOperationID ` set (operation_logs db) \<subseteq> ID ` set (operations db)"
  by (simp add: op_inv_def)

lemma inv_audit:
  assumes "op_inv db" "insertAudit db e = Inr db'"
  shows "op_inv db'"
  by (rule inv_cong [OF assms(1)]) (simp_all add: insertAudit_Inr [OF assms(2)] op_inv_logs [OF assms(1)])

lemma inv_log:
  assumes "op_inv db" "insertLog db e = Inr db'"
  shows "op_inv db'"
  by (rule inv_cong [OF assms(1)])
    (use insertLog_Inr [OF assms(2)] op_inv_logs [OF assms(1)] in simp_all)

section \<open>Preservation: adding a pending operation\<close>

lemma inv_insert:
  assumes "op_inv db" and "insertOperation db op = Inr db'"
    and "OpStatus op = StatusPending" "FinishedAt op = None"
    and "\<not> hasIncompleteOperation db (Resource op)"
  shows "op_inv db'"
proof -
  note ins = insertOperation_Inr [OF assms(2)]
  have "Resource op \<notin> Resource ` set (incomplete_ops db)"
    using assms(5) by (auto simp: hasIncomplete_iff incomplete_ops_def)
  moreover have "IdempotencyKey op \<notin> IdempotencyKey ` set (keyed_ops db)" if "IdempotencyKey op \<noteq> []"
    using ins(3) [OF that] by (auto simp: keyed_ops_def)
  moreover have "incomplete_ops db' = incomplete_ops db @ [stored op]"
    "keyed_ops db' = keyed_ops db @ (if IdempotencyKey op = [] then [] else [stored op])"
    using assms(3) by (simp_all add: incomplete_ops_def keyed_ops_def ins(1))
  moreover have "active_pairs db' = active_pairs db" "running_pairs db' = running_pairs db"
    using assms(3) by (auto simp: active_pairs_def running_pairs_def ins(1))
  moreover have "operations db' = operations db @ [stored op]"
    "resource_locks db' = resource_locks db" "operation_logs db' = operation_logs db"
    by (simp_all add: ins(1))
  ultimately show ?thesis
    using assms(1,3,4) ins(2) unfolding op_inv_def
    by (simp add: subset_insertI2 del: not_None_eq split: if_splits)
qed

section \<open>Preservation: changing the status of one operation\<close>

text \<open>The updates the store makes keep what identifies an operation.\<close>

definition identity_of :: "Operation \<Rightarrow> Operation" where
  "identity_of r = r\<lparr>OpStatus := StatusPending, OpPhase := PhaseNone, OpExitCode := None,
     OpErrorCode := None, OpErrorMessage := [], StartedAt := None, FinishedAt := None\<rparr>"

lemma identity_of_sels:
  "ID (identity_of r) = ID r" "Resource (identity_of r) = Resource r"
  "IdempotencyKey (identity_of r) = IdempotencyKey r" "Attempt (identity_of r) = Attempt r"
  "OpKind (identity_of r) = OpKind r" "Spec (identity_of r) = Spec r"
  "RequestHash (identity_of r) = RequestHash r" "RetryOf (identity_of r) = RetryOf r"
  "CreatedBy (identity_of r) = CreatedBy r" "CreatedAt (identity_of r) = CreatedAt r"
  "DryRun (identity_of r) = DryRun r" "NotBefore (identity_of r) = NotBefore r"
  "RetryPolicyJSON (identity_of r) = RetryPolicyJSON r"
  by (simp_all add: identity_of_def)

lemma identity_of_eqD:
  assumes "identity_of q = identity_of r"
  shows "ID q = ID r" "Resource q = Resource r" "IdempotencyKey q = IdempotencyKey r"
    "Attempt q = Attempt r" "OpKind q = OpKind r" "Spec q = Spec r" "RequestHash q = RequestHash r"
    "RetryOf q = RetryOf r" "CreatedBy q = CreatedBy r" "CreatedAt q = CreatedAt r"
    "DryRun q = DryRun r" "NotBefore q = NotBefore r" "RetryPolicyJSON q = RetryPolicyJSON r"
  using identity_of_sels [of q] identity_of_sels [of r] unfolding assms by simp_all

lemma identity_of_updates [simp]:
  "identity_of (finished inp now r) = identity_of r"
  "identity_of (cancelled now r) = identity_of r"
  "identity_of (interrupted now r) = identity_of r"
  "identity_of (r\<lparr>OpStatus := StatusRunning, OpPhase := PhaseExecute, StartedAt := Some now\<rparr>) = identity_of r"
  by (simp_all add: identity_of_def finished_def cancelled_def interrupted_def)

lemma distinct_map_filter_map:
  assumes "distinct (map g (filter P xs))"
    and "\<And>x. x \<in> set xs \<Longrightarrow> P (f x) \<Longrightarrow> P x" "\<And>x. x \<in> set xs \<Longrightarrow> g (f x) = g x"
  shows "distinct (map g (filter P (map f xs)))"
  using assms
proof (induction xs)
  case (Cons a xs)
  have "g (f x) \<in> g ` {y \<in> set xs. P y}" if "x \<in> set xs" "P (f x)" for x
    using Cons.prems(2,3) [of x] that by (metis (mono_tags, lifting) imageI list.set_intros(2) mem_Collect_eq)
  moreover have "distinct (map g (filter P (map f xs)))"
    using Cons by (auto split: if_splits)
  moreover have "P (f a) \<Longrightarrow> P a" "g (f a) = g a" using Cons.prems(2,3) by simp_all
  ultimately show ?case using Cons.prems(1) by (auto split: if_splits)
qed simp

text \<open>One row changes from \<open>st\<close> to \<open>f r\<close> and the lock table changes with it.\<close>

lemma inv_update:
  assumes inv: "op_inv db"
    and f: "\<And>r. identity_of (f r) = identity_of r"
    and st: "incomplete st"
    and valid: "\<And>r. Status_Valid (OpStatus (f r))"
    and fin: "\<And>r. r \<in> set (operations db) \<Longrightarrow> OpStatus r = st \<Longrightarrow>
        FinishedAt (f r) \<noteq> None \<longleftrightarrow> Status_Terminal (OpStatus (f r))"
    and ops: "operations db' = map (\<lambda>r. if ID r = i \<and> OpStatus r = st then f r else r) (operations db)"
    and locks: "distinct (map LockResource (resource_locks db'))"
    and logs: "operation_logs db' = operation_logs db"
    and pairs: "active_pairs db' = running_pairs db'"
  shows "op_inv db'"
proof -
  define u where "u = (\<lambda>r. if ID r = i \<and> OpStatus r = st then f r else r)"
  have u: "identity_of (u r) = identity_of r" for r by (simp add: u_def f)
  note keep = identity_of_eqD [OF u]
  have ids: "map ID (operations db') = map ID (operations db)"
    by (simp add: ops u_def [symmetric] keep)
  have "distinct (map Resource (incomplete_ops db'))"
    unfolding incomplete_ops_def ops u_def [symmetric]
  proof (rule distinct_map_filter_map)
    show "distinct (map Resource (filter (\<lambda>r. incomplete (OpStatus r)) (operations db)))"
      using op_invD(2) [OF inv] by (simp add: incomplete_ops_def)
    show "incomplete (OpStatus (u r)) \<Longrightarrow> incomplete (OpStatus r)" for r
      using st by (auto simp: u_def split: if_splits)
  qed (simp add: keep)
  moreover have "distinct (map IdempotencyKey (keyed_ops db'))"
    unfolding keyed_ops_def ops u_def [symmetric]
  proof (rule distinct_map_filter_map)
    show "distinct (map IdempotencyKey (filter (\<lambda>r. IdempotencyKey r \<noteq> []) (operations db)))"
      using inv by (simp add: op_inv_def keyed_ops_def)
  qed (simp_all add: keep)
  moreover have "ID ` set (operations db') = ID ` set (operations db)"
    using ids by (metis set_map)
  moreover have "1 \<le> Attempt q \<and> Status_Valid (OpStatus q)
      \<and> (FinishedAt q \<noteq> None \<longleftrightarrow> Status_Terminal (OpStatus q))" if q: "q \<in> set (operations db')" for q
  proof -
    from q obtain r where r: "r \<in> set (operations db)" "q = u r" by (auto simp: ops u_def)
    have old: "1 \<le> Attempt r \<and> Status_Valid (OpStatus r)
      \<and> (FinishedAt r \<noteq> None \<longleftrightarrow> Status_Terminal (OpStatus r))"
      using inv r(1) unfolding op_inv_def by blast
    show ?thesis
    proof (cases "ID r = i \<and> OpStatus r = st")
      case True
      then have "q = f r" using r(2) by (simp add: u_def)
      moreover have "Attempt q = Attempt r" using r(2) keep(4) by simp
      ultimately show ?thesis using old valid fin r(1) True by metis
    next
      case False
      then have "q = r" using r(2) unfolding u_def by (simp only: if_False)
      with old show ?thesis by simp
    qed
  qed
  ultimately show ?thesis
    using inv locks logs pairs ids unfolding op_inv_def by simp
qed

lemma active_pairs_iff:
  "(res, own) \<in> active_pairs db \<longleftrightarrow>
     (\<exists>l \<in> set (resource_locks db). LockResource l = res \<and> OwnerOperationID l = own \<and> ReleasedAt l = None)"
  by (auto simp: active_pairs_def)

lemma running_pairs_iff:
  "(res, i) \<in> running_pairs db \<longleftrightarrow>
     (\<exists>r \<in> set (operations db). Resource r = res \<and> ID r = i \<and> OpStatus r = StatusRunning)"
  by (auto simp: running_pairs_def)

lemma active_pairs_releaseLock:
  "active_pairs (releaseLock db res own now) = active_pairs db - {(res, own)}"
proof -
  have "(r', w') \<in> active_pairs (releaseLock db res own now) \<longleftrightarrow>
      (r', w') \<in> active_pairs db \<and> (r', w') \<noteq> (res, own)" for r' w'
    unfolding active_pairs_iff releaseLock_def by force
  then show ?thesis by auto
qed

lemma update_operation_simps [simp]:
  "resource_locks (update_operation db i st f) = resource_locks db"
  "operation_logs (update_operation db i st f) = operation_logs db"
  "audit_events (update_operation db i st f) = audit_events db"
  "operations (update_operation db i st f) =
     map (\<lambda>r. if ID r = i \<and> OpStatus r = st then f r else r) (operations db)"
  by (simp_all add: update_operation_def)

lemma releaseLock_simps [simp]:
  "operations (releaseLock db res own now) = operations db"
  "operation_logs (releaseLock db res own now) = operation_logs db"
  "audit_events (releaseLock db res own now) = audit_events db"
  "map LockResource (resource_locks (releaseLock db res own now)) = map LockResource (resource_locks db)"
  by (auto simp: releaseLock_def)

section \<open>Preservation by the methods\<close>

lemma Terminal_not_incomplete: "Status_Terminal s \<Longrightarrow> \<not> incomplete s"
  by simp

text \<open>A running operation reaches a terminal status and its lock is released.\<close>

lemma inv_terminate:
  fixes now :: time
  assumes inv: "op_inv db" and op: "op \<in> set (operations db)" "OpStatus op = StatusRunning"
    and f: "\<And>r. identity_of (f r) = identity_of r"
    and fin: "\<And>r. Status_Terminal (OpStatus (f r))" "\<And>r. FinishedAt (f r) \<noteq> None"
  defines "db' \<equiv> releaseLock (update_operation db (ID op) StatusRunning f) (Resource op) (ID op) now"
  shows "op_inv db'" and "\<not> hasIncompleteOperation db' (Resource op)"
proof -
  define u where "u = (\<lambda>r. if ID r = ID op \<and> OpStatus r = StatusRunning then f r else r)"
  have u: "identity_of (u r) = identity_of r" for r by (simp add: u_def f)
  note keep = identity_of_eqD [OF u]
  have nr: "OpStatus (f r) \<noteq> StatusRunning" "OpStatus (f r) \<noteq> StatusPending" for r
    using fin(1) [of r] by auto
  have ops: "operations db' = map u (operations db)" by (simp add: db'_def u_def)
  have uniq: "r = op" if "r \<in> set (operations db)" "ID r = ID op" for r
    using op_unique [OF inv] that op by blast
  have run_u: "OpStatus (u r) = StatusRunning \<longleftrightarrow> OpStatus r = StatusRunning \<and> ID r \<noteq> ID op" for r
    using nr by (auto simp: u_def)
  have "(res, i) \<in> running_pairs db' \<longleftrightarrow> (res, i) \<in> running_pairs db \<and> (res, i) \<noteq> (Resource op, ID op)"
    for res i
    unfolding running_pairs_iff ops using uniq by (fastforce simp: run_u keep)
  moreover have "active_pairs db' = active_pairs db - {(Resource op, ID op)}"
    unfolding db'_def active_pairs_releaseLock by (simp add: active_pairs_def)
  ultimately have pairs: "active_pairs db' = running_pairs db'"
    using op_invD(3) [OF inv] by auto
  show inv': "op_inv db'"
  proof (rule inv_update [OF inv f, where st = StatusRunning and i = "ID op"])
    show "Status_Valid (OpStatus (f r))" for r
      using fin(1) [of r] by (cases "OpStatus (f r)") auto
    show "distinct (map LockResource (resource_locks db'))"
      using inv by (simp add: db'_def op_inv_def)
    show "FinishedAt (f r) \<noteq> None \<longleftrightarrow> Status_Terminal (OpStatus (f r))" for r
      using fin [of r] by simp
  qed (simp_all add: ops u_def db'_def pairs [unfolded db'_def])
  show "\<not> hasIncompleteOperation db' (Resource op)"
  proof
    assume "hasIncompleteOperation db' (Resource op)"
    then obtain r where r: "r \<in> set (operations db)" "Resource r = Resource op" "incomplete (OpStatus (u r))"
      by (auto simp: hasIncomplete_iff ops keep)
    then have "incomplete (OpStatus r)" using op(2) by (auto simp: u_def split: if_splits)
    then have "r = op" using incomplete_unique [OF inv r(1) op(1)] r(2) op(2) by simp
    with r(3) op(2) fin(1) [of op] show False by (simp add: u_def)
  qed
qed

lemma inv_cancelled:
  assumes inv: "op_inv db"
  shows "op_inv (update_operation db i StatusPending (cancelled now))" (is "op_inv ?db")
proof (rule inv_update [OF inv, where f = "cancelled now" and st = StatusPending and i = i])
  have "(res, j) \<in> running_pairs ?db \<longleftrightarrow> (res, j) \<in> running_pairs db" for res j
    unfolding running_pairs_iff by (force simp: cancelled_def)
  then have "running_pairs ?db = running_pairs db" by auto
  then show "active_pairs ?db = running_pairs ?db"
    using op_invD(3) [OF inv] by (simp add: active_pairs_def)
  show "distinct (map LockResource (resource_locks ?db))" using inv by (simp add: op_inv_def)
qed (simp_all add: cancelled_def identity_of_def)

lemma upsert_lock_spec:
  assumes "distinct (map LockResource locks)"
    and "\<not> (\<exists>l \<in> set locks. LockResource l = LockResource lock \<and> ReleasedAt l = None)"
    and "ReleasedAt lock = None"
  shows "snd (upsert_lock lock locks)"
    and "distinct (map LockResource (fst (upsert_lock lock locks)))"
    and "(\<lambda>l. (LockResource l, OwnerOperationID l)) ` {l \<in> set (fst (upsert_lock lock locks)). ReleasedAt l = None}
       = insert (LockResource lock, OwnerOperationID lock)
           ((\<lambda>l. (LockResource l, OwnerOperationID l)) ` {l \<in> set locks. ReleasedAt l = None})"
proof -
  let ?f = "\<lambda>l. if LockResource l = LockResource lock then lock else l"
  consider (new) "find (\<lambda>l. LockResource l = LockResource lock) locks = None"
    | (old) l where "find (\<lambda>l. LockResource l = LockResource lock) locks = Some l" "l \<in> set locks"
      "LockResource l = LockResource lock" "ReleasedAt l \<noteq> None"
    using assms(2) by (cases "find (\<lambda>l. LockResource l = LockResource lock) locks")
      (auto simp: find_Some_iff)
  then have "snd (upsert_lock lock locks) \<and> distinct (map LockResource (fst (upsert_lock lock locks))) \<and>
     (\<lambda>l. (LockResource l, OwnerOperationID l)) ` {l \<in> set (fst (upsert_lock lock locks)). ReleasedAt l = None}
       = insert (LockResource lock, OwnerOperationID lock)
           ((\<lambda>l. (LockResource l, OwnerOperationID l)) ` {l \<in> set locks. ReleasedAt l = None})"
  proof cases
    case new
    then have "LockResource lock \<notin> LockResource ` set locks" by (auto simp: find_None_iff)
    then show ?thesis using assms new by (auto simp: upsert_lock_def)
  next
    case old
    have eq: "fst (upsert_lock lock locks) = map ?f locks" "snd (upsert_lock lock locks)"
      using old by (cases "ReleasedAt l"; simp add: upsert_lock_def)+
    have res: "map LockResource (map ?f locks) = map LockResource locks" by auto
    have "{l \<in> set (map ?f locks). ReleasedAt l = None} = insert lock {l \<in> set locks. ReleasedAt l = None}"
      using old assms(2,3) by force
    then show ?thesis using assms(1) eq res by (simp only: image_insert)
  qed
  then show "snd (upsert_lock lock locks)"
    and "distinct (map LockResource (fst (upsert_lock lock locks)))"
    and "(\<lambda>l. (LockResource l, OwnerOperationID l)) ` {l \<in> set (fst (upsert_lock lock locks)). ReleasedAt l = None}
       = insert (LockResource lock, OwnerOperationID lock)
           ((\<lambda>l. (LockResource l, OwnerOperationID l)) ` {l \<in> set locks. ReleasedAt l = None})"
    by blast+
qed

end
