(* ===== verification/OpSteps.thy ===== *)
theory OpSteps
  imports OpInv "HOL-Library.Sublist"
begin

text \<open>
  The operation store as a state machine: every method preserves the invariant, the steps of the
  daemon on the tables, reachable states, and what follows for mutual exclusion, the evolution of an
  operation's status, claiming, finishing with a retry, and recovery after a restart.
\<close>

section \<open>Creating\<close>

lemma CreateOperation_inv:
  assumes "op_inv db" "OpStatus op = StatusPending" "FinishedAt op = None"
  shows "op_inv (snd (CreateOperation db op))"
proof -
  have "op_inv db2"
    if "\<not> hasIncompleteOperation db (Resource op)" "insertOperation db op = Inr db1" "insertAudit db1 e = Inr db2"
    for db1 db2 e
    using inv_audit [OF inv_insert [OF assms(1) that(2) assms(2,3) that(1)] that(3)] .
  then show ?thesis
    using assms(1)
    by (auto simp: CreateOperation_def bind_res_def split: option.splits sum.splits if_splits)
qed

section \<open>Claiming\<close>

definition due :: "time \<Rightarrow> Operation \<Rightarrow> bool" where
  "due now r \<longleftrightarrow> OpStatus r = StatusPending \<and> (case NotBefore r of None \<Rightarrow> True | Some t \<Rightarrow> t \<le> now)"

lemma claimable_due:
  assumes "op_inv db" "r \<in> set (operations db)"
  shows "claimable db now r \<longleftrightarrow> due now r"
proof -
  have "\<not> list_ex (\<lambda>l. LockResource l = Resource r \<and> ReleasedAt l = None) (resource_locks db)"
    if "OpStatus r = StatusPending"
  proof
    assume "list_ex (\<lambda>l. LockResource l = Resource r \<and> ReleasedAt l = None) (resource_locks db)"
    then obtain l where "l \<in> set (resource_locks db)" "LockResource l = Resource r" "ReleasedAt l = None"
      by (auto simp: list_ex_iff)
    then have "(Resource r, OwnerOperationID l) \<in> running_pairs db"
      using op_invD(3) [OF assms(1)] by (metis active_pairs_iff)
    then obtain q where q: "q \<in> set (operations db)" "Resource q = Resource r" "OpStatus q = StatusRunning"
      by (auto simp: running_pairs_iff)
    with incomplete_unique [OF assms(1) q(1) assms(2)] that show False by simp
  qed
  then show ?thesis by (auto simp: claimable_def due_def split: option.splits)
qed

definition started :: "time \<Rightarrow> Operation \<Rightarrow> Operation" where
  "started now r = r\<lparr>OpStatus := StatusRunning, OpPhase := PhaseExecute, StartedAt := Some now\<rparr>"

lemma identity_of_started [simp]: "identity_of (started now r) = identity_of r"
  by (simp add: started_def)

lemma ClaimNextPending_none:
  assumes "op_inv db" "\<not> (\<exists>r \<in> set (operations db). due now r)"
  shows "ClaimNextPending db now = (Inr None, db)"
proof -
  have "filter (claimable db now) (operations db) = []"
    using assms claimable_due by (auto simp: filter_empty_conv)
  then show ?thesis by (simp add: ClaimNextPending_def)
qed

lemma sort_key_hd_least:
  fixes f :: "'a \<Rightarrow> 'k :: linorder"
  assumes "sort_key f xs = y # ys"
  shows "y \<in> set xs" and "x \<in> set xs \<Longrightarrow> f y \<le> f x"
proof -
  have set: "set xs = set (y # ys)" using assms by (metis set_sort)
  then show "y \<in> set xs" by simp
  have "sorted (map f (y # ys))" using assms by (metis sorted_sort_key)
  then show "x \<in> set xs \<Longrightarrow> f y \<le> f x" using set by auto
qed

lemma ClaimNextPending_some:
  assumes inv: "op_inv db" and "\<exists>r \<in> set (operations db). due now r"
  obtains op db' where
    "ClaimNextPending db now = (Inr (Some (started now op)), db')"
    "op \<in> set (operations db)" "due now op"
    "\<And>r. r \<in> set (operations db) \<Longrightarrow> due now r \<Longrightarrow> (CreatedAt op, ID op) \<le> (CreatedAt r, ID r)"
    "operations db' = map (\<lambda>r. if r = op then started now r else r) (operations db)"
    "active_pairs db' = insert (Resource op, ID op) (active_pairs db)"
    "op_inv db'" "prefix (audit_events db) (audit_events db')"
proof -
  have cl: "filter (claimable db now) (operations db) = filter (due now) (operations db)"
    using claimable_due [OF inv] by (auto intro: filter_cong)
  obtain op ops where hd: "sort_key (\<lambda>r. (CreatedAt r, ID r)) (filter (due now) (operations db)) = op # ops"
    using assms(2) by (cases "sort_key (\<lambda>r. (CreatedAt r, ID r)) (filter (due now) (operations db))")
      (auto simp: filter_empty_conv dest: arg_cong [where f = set])
  from sort_key_hd_least(1) [OF hd] have op: "op \<in> set (operations db)" "due now op" by simp_all
  have least: "(CreatedAt op, ID op) \<le> (CreatedAt r, ID r)" if "r \<in> set (operations db)" "due now r" for r
    using sort_key_hd_least(2) [OF hd, of r] that by simp
  define lock where "lock = \<lparr>LockResource = Resource op, OwnerOperationID = ID op, AcquiredAt = now,
    ReleasedAt = None\<rparr>"
  have free: "\<not> (\<exists>l \<in> set (resource_locks db). LockResource l = LockResource lock \<and> ReleasedAt l = None)"
    using op claimable_due [OF inv op(1), of now] by (auto simp: claimable_def lock_def list_ex_iff)
  have dl: "distinct (map LockResource (resource_locks db))" using inv by (simp add: op_inv_def)
  have held: "ReleasedAt lock = None" by (simp add: lock_def)
  obtain locks where ul: "upsert_lock lock (resource_locks db) = (locks, True)"
    using upsert_lock_spec(1) [OF dl free held] by (cases "upsert_lock lock (resource_locks db)") auto
  note up = upsert_lock_spec [OF dl free held, unfolded ul fst_conv]
  define db1 where "db1 = update_operation (db\<lparr>resource_locks := locks\<rparr>)
    (ID op) StatusPending (started now)"
  have pending: "OpStatus op = StatusPending" using op(2) by (simp add: due_def)
  have ops1: "operations db1 = map (\<lambda>r. if r = op then started now r else r) (operations db)"
    using op_unique [OF inv _ op(1)] pending by (auto simp: db1_def)
  have act1: "active_pairs db1 = insert (Resource op, ID op) (active_pairs db)"
    using up(3) by (simp add: db1_def active_pairs_def lock_def)
  have inv1: "op_inv db1"
  proof (rule inv_update [OF inv, where f = "started now" and st = StatusPending and i = "ID op"])
    have "(res, j) \<in> running_pairs db1 \<longleftrightarrow> (res, j) = (Resource op, ID op) \<or> (res, j) \<in> running_pairs db"
      for res j
      unfolding running_pairs_iff ops1 using op pending by (force simp: started_def)
    then have "running_pairs db1 = insert (Resource op, ID op) (running_pairs db)" by auto
    then show "active_pairs db1 = running_pairs db1" using act1 op_invD(3) [OF inv] by simp
    show "FinishedAt (started now r) \<noteq> None \<longleftrightarrow> Status_Terminal (OpStatus (started now r))"
      if "r \<in> set (operations db)" "OpStatus r = StatusPending" for r
      using op_invD(4) [OF inv that(1)] that(2) by (simp add: started_def)
    show "distinct (map LockResource (resource_locks db1))"
      using up(2) by (simp add: db1_def lock_def)
  qed (simp_all add: db1_def started_def identity_of_def)
  have found: "find_operation db1 (ID op) \<noteq> None"
    using op(1) by (auto simp: find_operation_None ops1 image_iff started_def)
  obtain db2 where db2: "insertAudit db1 \<lparr>EvType = EventLockAcquired, EvActor = [], EvOperationID = ID op,
      EvResource = Resource op, EvResult = status_name StatusRunning, EvTime = now, EvDetails = []\<rparr> = Inr db2"
    using found by (auto simp: insertAudit_def)
  have ops2: "operations db2 = operations db1" using insertAudit_Inr(1) [OF db2] .
  obtain db3 where db3: "insertLog db2 \<lparr>LogOperationID = ID op, LogLevel = ''info'', LogPhase = PhaseExecute,
      LogMessage = ''operation started'', LogFields = [], LogTime = now\<rparr> = Inr db3"
    using found by (auto simp: insertLog_def find_operation_def ops2)
  have "ClaimNextPending db now = (Inr (Some (started now op)), db3)"
    unfolding ClaimNextPending_def cl hd
    using db2 db3 by (simp add: lock_def [symmetric] ul db1_def [symmetric] started_def [abs_def, symmetric]
        started_def [symmetric] Let_def)
  moreover have "op_inv db3" using inv_log [OF inv_audit [OF inv1 db2] db3] .
  moreover have "operations db3 = map (\<lambda>r. if r = op then started now r else r) (operations db)"
    using insertLog_Inr(1) [OF db3] ops2 ops1 by simp
  moreover have "active_pairs db3 = insert (Resource op, ID op) (active_pairs db)"
    using insertLog_Inr(2) [OF db3] insertAudit_Inr(2) [OF db2] act1 by (simp add: active_pairs_def)
  moreover have "prefix (audit_events db) (audit_events db3)"
    using insertLog_Inr(4) [OF db3] insertAudit_Inr(4) [OF db2] by (simp add: db1_def)
  ultimately show ?thesis using that op least by blast
qed

lemma ClaimNextPending_inv: "op_inv db \<Longrightarrow> op_inv (snd (ClaimNextPending db now))"
  by (cases "\<exists>r \<in> set (operations db). due now r")
    (auto simp: ClaimNextPending_none elim: ClaimNextPending_some [of db now])

section \<open>Finishing and retrying\<close>

lemma insertRetryOperation_elim:
  assumes "insertRetryOperation db op plan now = Inr db'"
  obtains db1 db2 e l where "insertOperation db (retry_operation op plan now) = Inr db1"
    "insertAudit db1 e = Inr db2" "insertLog db2 l = Inr db'"
  using assms by (auto simp: insertRetryOperation_def Let_def bind_res_eq_Inr)

lemma insertRetryOperation_Inr:
  assumes "insertRetryOperation db op plan now = Inr db'"
  shows "operations db' = operations db @ [stored (retry_operation op plan now)]"
    and "resource_locks db' = resource_locks db"
    and "prefix (audit_events db) (audit_events db')"
proof -
  obtain db1 db2 e l where steps: "insertOperation db (retry_operation op plan now) = Inr db1"
    "insertAudit db1 e = Inr db2" "insertLog db2 l = Inr db'"
    using assms by (rule insertRetryOperation_elim)
  note facts = insertOperation_Inr(1) [OF steps(1)] insertAudit_Inr [OF steps(2)] insertLog_Inr [OF steps(3)]
  show "operations db' = operations db @ [stored (retry_operation op plan now)]"
    "resource_locks db' = resource_locks db"
    "prefix (audit_events db) (audit_events db')"
    using facts by simp_all
qed

lemma inv_retry:
  assumes "op_inv db" "insertRetryOperation db op plan now = Inr db'"
    and "\<not> hasIncompleteOperation db (Resource op)"
  shows "op_inv db'"
proof -
  obtain db1 db2 e l where steps: "insertOperation db (retry_operation op plan now) = Inr db1"
    "insertAudit db1 e = Inr db2" "insertLog db2 l = Inr db'"
    using assms(2) by (rule insertRetryOperation_elim)
  have "op_inv db1"
    by (rule inv_insert [OF assms(1) steps(1)]) (use assms(3) in \<open>simp_all add: retry_operation_def\<close>)
  then show ?thesis using inv_audit inv_log steps by blast
qed

text \<open>With a fresh identifier the retry is always inserted.\<close>

lemma insertRetryOperation_total:
  assumes "op_inv db" "PlanOperationID plan \<notin> ID ` set (operations db)" "ID op \<in> ID ` set (operations db)"
  shows "\<exists>db'. insertRetryOperation db op plan now = Inr db'"
proof -
  have "insertOperation db (retry_operation op plan now) =
      Inr (db\<lparr>operations := operations db @ [stored (retry_operation op plan now)]\<rparr>)"
    using assms by (auto simp: insertOperation_def retry_operation_def find_operation_None)
  then show ?thesis
    by (simp add: insertRetryOperation_def Let_def insertAudit_def insertLog_def find_operation_None)
qed

text \<open>
  \<open>Finish\<close> and the recovery share a shape: a running operation gets a terminal status, its lock is
  released, an audit event and a log entry are written, and a retry may be inserted.
\<close>

definition terminate_chain ::
  "OpDb \<Rightarrow> Operation \<Rightarrow> (Operation \<Rightarrow> Operation) \<Rightarrow> AuditEvent \<Rightarrow> LogEntry \<Rightarrow> RetryPlan option \<Rightarrow> time \<Rightarrow> ErrorCode + OpDb"
where
  "terminate_chain db op f e l retry now =
     bind_res (insertAudit (releaseLock (update_operation db (ID op) StatusRunning f) (Resource op) (ID op) now) e)
       (\<lambda>db3. bind_res (insertLog db3 l)
       (\<lambda>db4. case retry of None \<Rightarrow> Inr db4 | Some plan \<Rightarrow> insertRetryOperation db4 op plan now))"

definition retry_rows :: "Operation \<Rightarrow> RetryPlan option \<Rightarrow> time \<Rightarrow> Operation list" where
  "retry_rows op retry now =
     (case retry of None \<Rightarrow> [] | Some plan \<Rightarrow> [stored (retry_operation op plan now)])"

lemma terminate_chain_cases:
  assumes inv: "op_inv db" and op: "op \<in> set (operations db)" "OpStatus op = StatusRunning"
    and f: "\<And>r. identity_of (f r) = identity_of r"
      "\<And>r. Status_Terminal (OpStatus (f r))" "\<And>r. FinishedAt (f r) \<noteq> None"
    and refs: "EvOperationID e = ID op" "LogOperationID l = ID op"
  obtains (taken) c plan where "terminate_chain db op f e l retry now = Inl c"
      "retry = Some plan" "PlanOperationID plan \<in> ID ` set (operations db)"
    | (ended) db' where "terminate_chain db op f e l retry now = Inr db'" "op_inv db'"
      "operations db' = map (\<lambda>r. if r = op then f r else r) (operations db) @ retry_rows op retry now"
      "active_pairs db' = active_pairs db - {(Resource op, ID op)}"
      "prefix (audit_events db) (audit_events db')"
proof -
  define db2 where "db2 = releaseLock (update_operation db (ID op) StatusRunning f) (Resource op) (ID op) now"
  have inv2: "op_inv db2" and free2: "\<not> hasIncompleteOperation db2 (Resource op)"
    using inv_terminate [OF inv op f] by (simp_all add: db2_def)
  have ops2: "operations db2 = map (\<lambda>r. if r = op then f r else r) (operations db)"
    using op_unique [OF inv _ op(1)] op(2) by (auto simp: db2_def)
  have "map ID (operations db2) = map ID (operations db)"
    using identity_of_eqD(1) [OF f(1)] by (simp add: ops2)
  then have ids2: "ID ` set (operations db2) = ID ` set (operations db)" by (metis set_map)
  have act2: "active_pairs db2 = active_pairs db - {(Resource op, ID op)}"
    unfolding db2_def active_pairs_releaseLock by (simp add: active_pairs_def)
  have found2: "find_operation db2 (ID op) \<noteq> None"
    using op(1) ids2 by (auto simp: find_operation_None)
  obtain db3 where db3: "insertAudit db2 e = Inr db3"
    using found2 refs(1) by (auto simp: insertAudit_def)
  have found3: "find_operation db3 (ID op) \<noteq> None"
    using found2 insertAudit_Inr(1) [OF db3] by (simp add: find_operation_def)
  obtain db4 where db4: "insertLog db3 l = Inr db4"
    using found3 refs(2) by (auto simp: insertLog_def)
  have same4: "operations db4 = operations db2" "resource_locks db4 = resource_locks db2"
    "prefix (audit_events db) (audit_events db4)"
    using insertLog_Inr [OF db4] insertAudit_Inr [OF db3] by (auto simp: db2_def)
  have inv4: "op_inv db4" using inv_log [OF inv_audit [OF inv2 db3] db4] .
  have act4: "active_pairs db4 = active_pairs db - {(Resource op, ID op)}"
    using same4(2) act2 by (simp add: active_pairs_def)
  have free4: "\<not> hasIncompleteOperation db4 (Resource op)"
    using free2 same4(1) by (simp add: hasIncompleteOperation_def)
  have eq: "terminate_chain db op f e l retry now =
      (case retry of None \<Rightarrow> Inr db4 | Some plan \<Rightarrow> insertRetryOperation db4 op plan now)"
    by (simp add: terminate_chain_def db2_def [symmetric] db3 db4)
  show thesis
  proof (cases retry)
    case None
    then show ?thesis using ended [of db4] eq inv4 act4 ops2 same4 by (simp add: retry_rows_def)
  next
    case (Some plan)
    show ?thesis
    proof (cases "insertRetryOperation db4 op plan now")
      case (Inl c)
      have "ID op \<in> ID ` set (operations db4)" using op(1) ids2 same4(1) by simp
      then have "PlanOperationID plan \<in> ID ` set (operations db4)"
        using insertRetryOperation_total [OF inv4, of plan op now] Inl by auto
      then show ?thesis using taken [of c plan] eq Some Inl ids2 same4(1) by simp
    next
      case (Inr db5)
      note ins = insertRetryOperation_Inr [OF Inr]
      show ?thesis
      proof (rule ended [of db5])
        show "op_inv db5" using inv_retry [OF inv4 Inr free4] .
        show "active_pairs db5 = active_pairs db - {(Resource op, ID op)}"
          using ins(2) act4 by (simp add: active_pairs_def)
        show "prefix (audit_events db) (audit_events db5)"
          using ins(3) same4(3) prefix_order.trans by blast
      qed (use eq Some Inr ins(1) same4(1) ops2 in \<open>simp_all add: retry_rows_def\<close>)
    qed
  qed
qed

lemma finished_terminal [simp]:
  "OpStatus (finished inp now r) = FinStatus inp" "FinishedAt (finished inp now r) \<noteq> None"
  by (simp_all add: finished_def)

definition finish_event :: "FinishInput \<Rightarrow> Operation \<Rightarrow> time \<Rightarrow> AuditEvent" where
  "finish_event inp op now = \<lparr>EvType = terminalEvent (FinStatus inp), EvActor = [],
     EvOperationID = ID op, EvResource = Resource op, EvResult = status_name (FinStatus inp), EvTime = now,
     EvDetails = errorDetail (FinErrorCode inp)\<rparr>"

definition finish_log :: "FinishInput \<Rightarrow> Operation \<Rightarrow> time \<Rightarrow> LogEntry" where
  "finish_log inp op now = \<lparr>LogOperationID = ID op, LogLevel = logLevel (FinStatus inp),
     LogPhase = PhaseFinalize, LogMessage = finishMessage inp,
     LogFields = errorDetail (FinErrorCode inp), LogTime = now\<rparr>"

lemma Finish_running_eq:
  assumes "op_inv db" "op \<in> set (operations db)" "OpStatus op = StatusRunning"
    and "FinOperationID inp = ID op" "Status_Terminal (FinStatus inp)"
  shows "Finish db inp now =
     (case terminate_chain db op (finished inp now) (finish_event inp op now) (finish_log inp op now) (FinRetry inp) now of
        Inl e \<Rightarrow> (Inl e, db) | Inr db' \<Rightarrow> (Inr (finished inp now op), db'))"
proof -
  have load: "loadOperation db (FinOperationID inp) = Inr op"
    by (simp add: loadOperation_def assms(4) find_operation_mem [OF assms(1,2)])
  have valid: "Status_Valid (FinStatus inp)" using assms(5) by (cases "FinStatus inp") auto
  show ?thesis
    unfolding Finish_def load terminate_chain_def finish_event_def finish_log_def Let_def
    using assms(3) valid by simp
qed

lemma Finish_other:
  assumes "\<not> (\<exists>op \<in> set (operations db). ID op = FinOperationID inp \<and> OpStatus op = StatusRunning)"
  shows "snd (Finish db inp now) = db"
  using assms by (auto simp: Finish_def dest!: loadOperation_Inr split: sum.splits)

lemma Finish_inv:
  assumes inv: "op_inv db" and fin: "Status_Terminal (FinStatus inp)"
  shows "op_inv (snd (Finish db inp now))"
proof (cases "\<exists>op \<in> set (operations db). ID op = FinOperationID inp \<and> OpStatus op = StatusRunning")
  case True
  then obtain op where op: "op \<in> set (operations db)" "OpStatus op = StatusRunning" "FinOperationID inp = ID op"
    by auto
  show ?thesis
    unfolding Finish_running_eq [OF inv op fin]
    by (rule terminate_chain_cases [OF inv op(1,2), of "finished inp now" "finish_event inp op now"
          "finish_log inp op now" "FinRetry inp" now])
      (use inv fin in \<open>simp_all add: finish_event_def finish_log_def\<close>)
next
  case False
  then show ?thesis using Finish_other [OF False] inv by simp
qed

section \<open>Cancelling\<close>

lemma CancelPending_inv:
  assumes "op_inv db"
  shows "op_inv (snd (CancelPending db i now))"
  using assms inv_audit [OF inv_cancelled [OF assms]]
  by (auto simp: CancelPending_def split: sum.splits)

section \<open>Recovery\<close>

lemma interrupted_simps [simp]:
  "OpStatus (interrupted now r) = StatusFailed" "FinishedAt (interrupted now r) \<noteq> None"
  by (simp_all add: interrupted_def)

lemma recover_one_chain:
  "\<exists>e l. recover_one now plan op db = terminate_chain db op (interrupted now) e l (plan op) now
     \<and> EvOperationID e = ID op \<and> LogOperationID l = ID op"
  unfolding recover_one_def terminate_chain_def Let_def
  by (intro exI conjI, rule refl) simp_all

definition retry_ids :: "(Operation \<Rightarrow> RetryPlan option) \<Rightarrow> Operation list \<Rightarrow> string list" where
  "retry_ids plan ops =
     concat (map (\<lambda>r. case plan r of None \<Rightarrow> [] | Some p \<Rightarrow> [PlanOperationID p]) ops)"

definition all_retry_rows ::
  "(Operation \<Rightarrow> RetryPlan option) \<Rightarrow> time \<Rightarrow> Operation list \<Rightarrow> Operation list" where
  "all_retry_rows plan now ops = concat (map (\<lambda>r. retry_rows r (plan r) now) ops)"

lemma retry_rows_pending: "q \<in> set (retry_rows op retry now) \<Longrightarrow> OpStatus q = StatusPending"
  by (auto simp: retry_rows_def retry_operation_def split: option.splits)

lemma ID_retry_rows: "map ID (retry_rows op (plan op) now) = retry_ids plan [op]"
  by (auto simp: retry_rows_def retry_ids_def retry_operation_def split: option.splits)

text \<open>The loop over the interrupted operations, with identifiers for the retries that are fresh.\<close>

lemma recover_loop_spec:
  assumes "op_inv db" "distinct ops"
    and "\<forall>r \<in> set ops. r \<in> set (operations db) \<and> OpStatus r = StatusRunning"
    and "distinct (retry_ids plan ops)" "set (retry_ids plan ops) \<inter> ID ` set (operations db) = {}"
  shows "\<exists>db'. recover_loop now plan ops db = Inr db' \<and> op_inv db'
     \<and> operations db' = map (\<lambda>r. if r \<in> set ops then interrupted now r else r) (operations db)
         @ all_retry_rows plan now ops"
  using assms
proof (induction ops arbitrary: db)
  case Nil
  then show ?case by (simp add: all_retry_rows_def)
next
  case (Cons op ops)
  have op: "op \<in> set (operations db)" "OpStatus op = StatusRunning" using Cons.prems(3) by simp_all
  obtain e l where el: "EvOperationID e = ID op" "LogOperationID l = ID op"
    and one: "recover_one now plan op db = terminate_chain db op (interrupted now) e l (plan op) now"
    using recover_one_chain by blast
  have ids: "retry_ids plan (op # ops) = retry_ids plan [op] @ retry_ids plan ops"
    by (simp add: retry_ids_def)
  obtain db1 where db1: "recover_one now plan op db = Inr db1" "op_inv db1"
    "operations db1 = map (\<lambda>r. if r = op then interrupted now r else r) (operations db) @ retry_rows op (plan op) now"
  proof (rule terminate_chain_cases [OF Cons.prems(1) op, of "interrupted now" e l "plan op" now])
    fix c p assume "plan op = Some p" "PlanOperationID p \<in> ID ` set (operations db)"
    then show thesis using Cons.prems(5) by (auto simp: retry_ids_def)
  qed (use el one in \<open>simp_all\<close>)
  have "map ID (map (\<lambda>r. if r = op then interrupted now r else r) (operations db)) = map ID (operations db)"
    by (simp add: interrupted_def)
  then have ids1: "ID ` set (operations db1) = ID ` set (operations db) \<union> set (retry_ids plan [op])"
    unfolding db1(3) set_append image_Un using ID_retry_rows [of op plan now] by (metis set_map)
  have "\<exists>db'. recover_loop now plan ops db1 = Inr db' \<and> op_inv db'
     \<and> operations db' = map (\<lambda>r. if r \<in> set ops then interrupted now r else r) (operations db1)
         @ all_retry_rows plan now ops"
  proof (rule Cons.IH [OF db1(2)])
    show "distinct ops" using Cons.prems(2) by simp
    show "\<forall>r \<in> set ops. r \<in> set (operations db1) \<and> OpStatus r = StatusRunning"
      using Cons.prems(2,3) by (auto simp: db1(3) image_iff)
    show "distinct (retry_ids plan ops)" using Cons.prems(4) ids by simp
    show "set (retry_ids plan ops) \<inter> ID ` set (operations db1) = {}"
      using Cons.prems(4,5) unfolding ids ids1 by auto
  qed
  moreover have "r \<notin> set ops" if "r \<in> set (retry_rows op (plan op) now)" for r
    using retry_rows_pending [OF that] Cons.prems(3) by auto
  then have "map (\<lambda>r. if r \<in> set ops then interrupted now r else r) (operations db1)
      = map (\<lambda>r. if r \<in> set (op # ops) then interrupted now r else r) (operations db) @ retry_rows op (plan op) now"
    using Cons.prems(2,3) by (auto simp: db1(3) intro!: map_idI)
  ultimately show ?case using db1(1) by (auto simp: all_retry_rows_def)
qed

text \<open>Whatever the plan, the recovery either changes nothing or keeps the invariant.\<close>

lemma recover_loop_inv:
  assumes "op_inv db" "distinct ops"
    and "\<forall>r \<in> set ops. r \<in> set (operations db) \<and> OpStatus r = StatusRunning"
    and "recover_loop now plan ops db = Inr db'"
  shows "op_inv db'"
  using assms
proof (induction ops arbitrary: db)
  case (Cons op ops)
  have op: "op \<in> set (operations db)" "OpStatus op = StatusRunning" using Cons.prems(3) by simp_all
  obtain e l where el: "EvOperationID e = ID op" "LogOperationID l = ID op"
    and one: "recover_one now plan op db = terminate_chain db op (interrupted now) e l (plan op) now"
    using recover_one_chain by blast
  from Cons.prems(4) obtain db1 where db1: "recover_one now plan op db = Inr db1"
    "recover_loop now plan ops db1 = Inr db'" by (auto simp: bind_res_eq_Inr)
  have "op_inv db1 \<and> operations db1 = map (\<lambda>r. if r = op then interrupted now r else r) (operations db)
      @ retry_rows op (plan op) now"
    by (rule terminate_chain_cases [OF Cons.prems(1) op, of "interrupted now" e l "plan op" now])
      (use el one db1(1) in \<open>simp_all\<close>)
  then show ?case
    using Cons.IH [of db1] Cons.prems(2,3) db1(2) by (auto simp: image_iff)
qed simp

lemma RecoverRunning_stale:
  assumes "op_inv db"
  defines "stale \<equiv> sort_key CreatedAt (filter (\<lambda>r. OpStatus r = StatusRunning) (operations db))"
  shows "distinct stale" "\<forall>r \<in> set stale. r \<in> set (operations db) \<and> OpStatus r = StatusRunning"
proof -
  have "distinct (operations db)" using op_invD(1) [OF assms(1)] by (simp add: distinct_map)
  then show "distinct stale" by (simp add: stale_def)
qed (simp add: stale_def)

lemma RecoverRunning_inv: "op_inv db \<Longrightarrow> op_inv (snd (RecoverRunning db now plan))"
  using recover_loop_inv [OF _ RecoverRunning_stale]
  by (auto simp: RecoverRunning_def Let_def split: sum.splits)

end
