(* ===== verification/OpMachine.thy ===== *)
theory OpMachine
  imports OpSteps
begin

text \<open>
  The daemon's steps on the operation tables as an inductive relation, the reachable states, and the
  properties of the store: mutual exclusion, the evolution of a row, claiming, the retry that is
  committed with the failure, idempotent creation and the recovery after a restart. The contract of
  the repository that the application layer relies on is the locale \<open>op_repository\<close>.
\<close>

section \<open>Steps\<close>

text \<open>New operations are pending and have no finish time (as \<open>Service\<close>, \<open>Scheduler\<close> and the retries
  create them); the worker finishes with a terminal status.\<close>

inductive op_step :: "OpDb \<Rightarrow> OpDb \<Rightarrow> bool" where
  step_create: "OpStatus op = StatusPending \<Longrightarrow> FinishedAt op = None \<Longrightarrow>
     op_step db (snd (CreateOperation db op))"
| step_claim: "op_step db (snd (ClaimNextPending db now))"
| step_finish: "FinStatus inp \<in> {StatusSucceeded, StatusFailed, StatusCancelled} \<Longrightarrow>
     op_step db (snd (Finish db inp now))"
| step_cancel: "op_step db (snd (CancelPending db i now))"
| step_recover: "op_step db (snd (RecoverRunning db now plan))"
| step_log: "AppendLog db entry = Inr db' \<Longrightarrow> op_step db db'"
| step_audit: "AppendAudit db event = Inr db' \<Longrightarrow> op_step db db'"

inductive_cases op_step_cases: "op_step db db'"

definition reachable :: "OpDb \<Rightarrow> bool" where
  "reachable db \<longleftrightarrow> op_step\<^sup>*\<^sup>* empty_db db"

lemma op_step_inv: "op_step db db' \<Longrightarrow> op_inv db \<Longrightarrow> op_inv db'"
proof (induction rule: op_step.induct)
  case (step_finish inp db now)
  then show ?case by (intro Finish_inv) auto
next
  case (step_log db entry db')
  then show ?case using inv_log by (auto simp: AppendLog_def)
next
  case (step_audit db event db')
  then show ?case using inv_audit by (auto simp: AppendAudit_def)
qed (auto intro: CreateOperation_inv ClaimNextPending_inv CancelPending_inv RecoverRunning_inv)

lemma reachable_inv: "reachable db \<Longrightarrow> op_inv db"
  unfolding reachable_def
  by (induction rule: rtranclp_induct) (auto intro: op_inv_empty op_step_inv)


definition sample_op :: "string \<Rightarrow> string \<Rightarrow> time \<Rightarrow> Operation" where
  "sample_op i res t = \<lparr>ID = i, OpKind = KindExecutorCommand, Resource = res, OpStatus = StatusPending,
     OpPhase = PhaseNone, DryRun = False, IdempotencyKey = [], RequestHash = ''h'', RetryOf = [],
     OpExitCode = None, OpErrorCode = None, OpErrorMessage = [], Spec = ''s'', CreatedAt = t,
     StartedAt = None, FinishedAt = None, CreatedBy = ''me'', ClaimedBy = [], Attempt = 1,
     NotBefore = None, OpRetryPolicy = zero_policy, RetryPolicyJSON = NoJSON\<rparr>"

lemma sample_op_simps [simp]:
  "ID (sample_op i res t) = i" "Resource (sample_op i res t) = res"
  "OpStatus (sample_op i res t) = StatusPending" "CreatedAt (sample_op i res t) = t"
  "Attempt (sample_op i res t) = 1" "NotBefore (sample_op i res t) = None"
  "FinishedAt (sample_op i res t) = None" "IdempotencyKey (sample_op i res t) = []"
  by (simp_all add: sample_op_def)

lemmas store_eval = CreateOperation_def insertOperation_def insertAudit_def insertLog_def empty_db_def
  hasIncompleteOperation_def find_operation_def stored_def normalizeAttempt_def sample_op_def
  ClaimNextPending_def claimable_def upsert_lock_def update_operation_def Let_def bind_res_def
  getOperationByKey_def

definition sample_db :: OpDb where
  "sample_db = snd (ClaimNextPending (snd (CreateOperation empty_db (sample_op ''op1'' ''web'' 5))) 7)"

lemma sample_db_reachable: "reachable sample_db"
proof -
  have "op_step empty_db (snd (CreateOperation empty_db (sample_op ''op1'' ''web'' 5)))"
    by (rule step_create) (simp_all add: sample_op_def)
  then have "op_step\<^sup>*\<^sup>* empty_db (snd (CreateOperation empty_db (sample_op ''op1'' ''web'' 5)))" by (rule r_into_rtranclp)
  then show ?thesis
    unfolding reachable_def sample_db_def by (rule rtranclp.rtrancl_into_rtrancl) (rule step_claim)
qed


section \<open>How a row evolves\<close>

definition row_evolves :: "Operation \<Rightarrow> Operation \<Rightarrow> bool" where
  "row_evolves r q \<longleftrightarrow> identity_of q = identity_of r \<and> (q = r \<or> CanTransition (OpStatus r) (OpStatus q))"

lemma row_evolves_refl [simp]: "row_evolves r r"
  by (simp add: row_evolves_def)

definition evolves :: "OpDb \<Rightarrow> OpDb \<Rightarrow> bool" where
  "evolves db db' \<longleftrightarrow>
     (\<exists>new. list_all2 row_evolves (operations db) (take (length (operations db)) (operations db'))
        \<and> operations db' = take (length (operations db)) (operations db') @ new
        \<and> (\<forall>r \<in> set new. OpStatus r = StatusPending))
     \<and> prefix (audit_events db) (audit_events db')"

lemma evolves_refl [simp]: "evolves db db"
  by (simp add: evolves_def list_all2_refl)

lemma evolvesI:
  assumes "operations db' = map u (operations db) @ new"
    and "\<And>r. r \<in> set (operations db) \<Longrightarrow> row_evolves r (u r)"
    and "\<And>r. r \<in> set new \<Longrightarrow> OpStatus r = StatusPending"
    and "prefix (audit_events db) (audit_events db')"
  shows "evolves db db'"
proof -
  have "list_all2 row_evolves (operations db) (map u (operations db))"
    using assms(2) by (simp add: list_all2_map2 list_all2_same)
  then show ?thesis using assms(1,3,4) by (auto simp: evolves_def)
qed

lemma evolves_frame:
  "operations db' = operations db \<Longrightarrow> prefix (audit_events db) (audit_events db') \<Longrightarrow> evolves db db'"
  by (rule evolvesI [where u = id and new = "[]"]) simp_all

lemma evolves_update:
  assumes "\<And>r. identity_of (f r) = identity_of r" "\<And>r. CanTransition st (OpStatus (f r))"
    and "operations db' = map (\<lambda>r. if ID r = i \<and> OpStatus r = st then f r else r) (operations db) @ new"
    and "\<And>r. r \<in> set new \<Longrightarrow> OpStatus r = StatusPending"
    and "prefix (audit_events db) (audit_events db')"
  shows "evolves db db'"
  by (rule evolvesI [OF assms(3) _ assms(4,5)]) (use assms(1,2) in \<open>auto simp: row_evolves_def\<close>)

lemma evolves_create:
  assumes "OpStatus op = StatusPending"
  shows "evolves db (snd (CreateOperation db op))"
proof -
  have "evolves db db2" if "insertOperation db op = Inr db1" "insertAudit db1 e = Inr db2" for db1 db2 e
    using insertOperation_Inr(1) [OF that(1)] insertAudit_Inr [OF that(2)] assms
    by (intro evolvesI [where u = id and new = "[stored op]"]) simp_all
  then show ?thesis
    by (auto simp: CreateOperation_def bind_res_def split: option.splits sum.splits if_splits)
qed

lemma evolves_claim: "op_inv db \<Longrightarrow> evolves db (snd (ClaimNextPending db now))"
proof (cases "\<exists>r \<in> set (operations db). due now r")
  case True
  assume "op_inv db"
  then obtain op db' where "ClaimNextPending db now = (Inr (Some (started now op)), db')" "due now op"
    "operations db' = map (\<lambda>r. if r = op then started now r else r) (operations db)"
    "prefix (audit_events db) (audit_events db')"
    by (rule ClaimNextPending_some [OF _ True])
  then show ?thesis
    by (intro evolvesI [where u = "\<lambda>r. if r = op then started now r else r" and new = "[]"])
      (auto simp: row_evolves_def due_def started_def identity_of_def)
qed (simp add: ClaimNextPending_none)

lemma evolves_finish:
  assumes inv: "op_inv db" and fin: "FinStatus inp \<in> {StatusSucceeded, StatusFailed, StatusCancelled}"
  shows "evolves db (snd (Finish db inp now))"
proof (cases "\<exists>op \<in> set (operations db). ID op = FinOperationID inp \<and> OpStatus op = StatusRunning")
  case True
  then obtain op where op: "op \<in> set (operations db)" "OpStatus op = StatusRunning" "FinOperationID inp = ID op"
    by auto
  have final: "Status_Terminal (FinStatus inp)" using fin by auto
  show ?thesis
    unfolding Finish_running_eq [OF inv op final]
  proof (rule terminate_chain_cases [OF inv op(1,2), of "finished inp now" "finish_event inp op now"
          "finish_log inp op now" "FinRetry inp" now])
    fix db' assume "terminate_chain db op (finished inp now) (finish_event inp op now)
        (finish_log inp op now) (FinRetry inp) now = Inr db'"
      and "operations db' = map (\<lambda>r. if r = op then finished inp now r else r) (operations db)
        @ retry_rows op (FinRetry inp) now"
      and "prefix (audit_events db) (audit_events db')"
    then show "evolves db (snd (case terminate_chain db op (finished inp now) (finish_event inp op now)
        (finish_log inp op now) (FinRetry inp) now of
        Inl e \<Rightarrow> (Inl e, db) | Inr db' \<Rightarrow> (Inr (finished inp now op), db')))"
      using op(2) fin retry_rows_pending
      by (intro evolvesI [where u = "\<lambda>r. if r = op then finished inp now r else r"])
        (auto simp: row_evolves_def)
  qed (use final in \<open>simp_all add: finish_event_def finish_log_def\<close>)
qed (simp add: Finish_other)

lemma evolves_cancel: "evolves db (snd (CancelPending db i now))"
proof -
  have "evolves db db1" if "insertAudit (update_operation db i StatusPending (cancelled now)) e = Inr db1" for e db1
    using insertAudit_Inr [OF that]
    by (intro evolves_update [where f = "cancelled now" and st = StatusPending and i = i and new = "[]"])
      (simp_all add: cancelled_def identity_of_def)
  then show ?thesis by (auto simp: CancelPending_def split: sum.splits)
qed

lemma recover_loop_evolves:
  assumes "op_inv db" "distinct ops"
    and "\<forall>r \<in> set ops. r \<in> set (operations db) \<and> OpStatus r = StatusRunning"
    and "recover_loop now plan ops db = Inr db'"
  shows "\<exists>new. operations db' = map (\<lambda>r. if r \<in> set ops then interrupted now r else r) (operations db) @ new
     \<and> (\<forall>r \<in> set new. OpStatus r = StatusPending) \<and> prefix (audit_events db) (audit_events db')"
  using assms
proof (induction ops arbitrary: db)
  case (Cons op ops)
  have op: "op \<in> set (operations db)" "OpStatus op = StatusRunning" using Cons.prems(3) by simp_all
  obtain e l where el: "EvOperationID e = ID op" "LogOperationID l = ID op"
    and one: "recover_one now plan op db = terminate_chain db op (interrupted now) e l (plan op) now"
    using recover_one_chain by blast
  from Cons.prems(4) obtain db1 where db1: "recover_one now plan op db = Inr db1"
    "recover_loop now plan ops db1 = Inr db'" by (auto simp: bind_res_eq_Inr)
  have step: "op_inv db1 \<and> operations db1 = map (\<lambda>r. if r = op then interrupted now r else r) (operations db)
      @ retry_rows op (plan op) now \<and> prefix (audit_events db) (audit_events db1)"
    by (rule terminate_chain_cases [OF Cons.prems(1) op, of "interrupted now" e l "plan op" now])
      (use el one db1(1) in \<open>simp_all\<close>)
  have "\<forall>r \<in> set ops. r \<in> set (operations db1) \<and> OpStatus r = StatusRunning"
    using Cons.prems(2,3) step by (auto simp: image_iff)
  with Cons.IH [of db1] step Cons.prems(2) db1(2) obtain new where
    new: "operations db' = map (\<lambda>r. if r \<in> set ops then interrupted now r else r) (operations db1) @ new"
    "\<forall>r \<in> set new. OpStatus r = StatusPending" "prefix (audit_events db1) (audit_events db')" by auto
  have "r \<notin> set ops" if "r \<in> set (retry_rows op (plan op) now)" for r
    using retry_rows_pending [OF that] Cons.prems(3) by auto
  then have "map (\<lambda>r. if r \<in> set ops then interrupted now r else r) (operations db1)
      = map (\<lambda>r. if r \<in> set (op # ops) then interrupted now r else r) (operations db) @ retry_rows op (plan op) now"
    using Cons.prems(2,3) step by (auto intro!: map_idI)
  then show ?case
    using new step retry_rows_pending by (intro exI [of _ "retry_rows op (plan op) now @ new"]) auto
qed simp

lemma evolves_recover:
  assumes "op_inv db"
  shows "evolves db (snd (RecoverRunning db now plan))"
proof -
  define stale where "stale = sort_key CreatedAt (filter (\<lambda>r. OpStatus r = StatusRunning) (operations db))"
  note stale = RecoverRunning_stale [OF assms, folded stale_def]
  have "evolves db db'" if rl: "recover_loop now plan stale db = Inr db'" for db'
  proof -
    obtain new where "operations db' = map (\<lambda>r. if r \<in> set stale then interrupted now r else r) (operations db) @ new"
      "\<forall>r \<in> set new. OpStatus r = StatusPending" "prefix (audit_events db) (audit_events db')"
      using recover_loop_evolves [OF assms stale rl] by blast
    then show ?thesis
      using stale(2)
      by (intro evolvesI [where u = "\<lambda>r. if r \<in> set stale then interrupted now r else r" and new = new])
        (auto simp: row_evolves_def)
  qed
  then show ?thesis by (auto simp: RecoverRunning_def Let_def stale_def [symmetric] split: sum.splits)
qed



section \<open>Claiming in a reachable state\<close>

text \<open>C3 In a reachable state a worker finds work exactly when some pending operation is past its
  back-off: no such operation is ever blocked by a lock. It gets the oldest one (by creation time, then
  identifier), which becomes running and takes the lock of its resource; nothing else changes.\<close>

theorem claim_oldest_due:
  fixes now :: time
  assumes "reachable db"
  defines "D \<equiv> {r \<in> set (operations db). OpStatus r = StatusPending
                 \<and> (NotBefore r = None \<or> the (NotBefore r) \<le> now)}"
  shows "(D = {} \<and> ClaimNextPending db now = (Inr None, db))
     \<or> (\<exists>op \<in> D. \<exists>db'.
          ClaimNextPending db now =
            (Inr (Some (op\<lparr>OpStatus := StatusRunning, OpPhase := PhaseExecute, StartedAt := Some now\<rparr>)), db')
          \<and> (\<lambda>r. (CreatedAt r, ID r)) ` D \<subseteq> {(CreatedAt op, ID op)..}
          \<and> operations db' = map (\<lambda>r. if r = op
              then r\<lparr>OpStatus := StatusRunning, OpPhase := PhaseExecute, StartedAt := Some now\<rparr> else r) (operations db)
          \<and> active_pairs db' = insert (Resource op, ID op) (active_pairs db))"
proof -
  note inv = reachable_inv [OF assms(1)]
  have D: "r \<in> D \<longleftrightarrow> r \<in> set (operations db) \<and> due now r" for r
    by (auto simp: D_def due_def split: option.splits)
  show ?thesis
  proof (cases "\<exists>r \<in> set (operations db). due now r")
    case True
    obtain op db' where op: "ClaimNextPending db now = (Inr (Some (started now op)), db')"
      "op \<in> set (operations db)" "due now op"
      "\<And>r. r \<in> set (operations db) \<Longrightarrow> due now r \<Longrightarrow> (CreatedAt op, ID op) \<le> (CreatedAt r, ID r)"
      "operations db' = map (\<lambda>r. if r = op then started now r else r) (operations db)"
      "active_pairs db' = insert (Resource op, ID op) (active_pairs db)"
      by (rule ClaimNextPending_some [OF inv True]) blast
    then show ?thesis
      using D unfolding started_def by (intro disjI2 bexI [of _ op] exI [of _ db']) auto
  next
    case False
    then show ?thesis using ClaimNextPending_none [OF inv False] D by blast
  qed
qed

definition pending_db :: OpDb where
  "pending_db = snd (CreateOperation empty_db (sample_op ''op1'' ''web'' 5))"

lemma pending_db_reachable: "reachable pending_db"
proof -
  have "op_step empty_db pending_db"
    unfolding pending_db_def by (rule step_create) (simp_all add: sample_op_def)
  then show ?thesis by (simp add: reachable_def r_into_rtranclp)
qed

lemma pending_db_rows: "operations pending_db = [stored (sample_op ''op1'' ''web'' 5)]"
  by (simp add: pending_db_def store_eval)

theorem claim_oldest_due_witness:
  "\<exists>op db'. ClaimNextPending pending_db 7 =
     (Inr (Some (op\<lparr>OpStatus := StatusRunning, OpPhase := PhaseExecute, StartedAt := Some 7\<rparr>)), db')
     \<and> active_pairs db' = insert (''web'', ''op1'') (active_pairs pending_db)"
proof -
  define op where "op = stored (sample_op ''op1'' ''web'' 5)"
  have D: "{r \<in> set (operations pending_db). OpStatus r = StatusPending
      \<and> (NotBefore r = None \<or> the (NotBefore r) \<le> 7)} = {op}"
    by (auto simp: pending_db_rows op_def)
  have "ID op = ''op1''" "Resource op = ''web''" by (simp_all add: op_def)
  then show ?thesis
    using claim_oldest_due [OF pending_db_reachable, of 7] unfolding D by auto
qed

section \<open>Finishing with a retry\<close>

text \<open>A failure and the retry that follows it are one transaction: finishing a running operation with
  a retry plan either leaves the database as it was (only when the plan's identifier is taken) or ends
  with both the failed operation and the pending next attempt, which repeats the same request, counts one
  attempt more and waits for the plan's moment. The lock is released with it.\<close>

theorem finish_retry_atomic:
  assumes "reachable db" and "op \<in> set (operations db)" and "OpStatus op = StatusRunning"
    and "FinOperationID inp = ID op" and "FinStatus inp = StatusFailed" and "FinRetry inp = Some plan"
  shows "((\<exists>e. fst (Finish db inp now) = Inl e) \<and> snd (Finish db inp now) = db
            \<and> PlanOperationID plan \<in> ID ` set (operations db))
     \<or> (\<exists>db' q. Finish db inp now = (Inr (finished inp now op), db')
          \<and> operations db' = map (\<lambda>r. if r = op then finished inp now r else r) (operations db) @ [q]
          \<and> ID q = PlanOperationID plan \<and> RetryOf q = ID op \<and> Attempt q = Attempt op + 1
          \<and> OpStatus q = StatusPending \<and> NotBefore q = Some (PlanNotBefore plan)
          \<and> OpKind q = OpKind op \<and> Resource q = Resource op \<and> Spec q = Spec op
          \<and> RequestHash q = RequestHash op \<and> DryRun q = DryRun op
          \<and> active_pairs db' = active_pairs db - {(Resource op, ID op)})"
proof -
  note inv = reachable_inv [OF assms(1)]
  have final: "Status_Terminal (FinStatus inp)" using assms(5) by simp
  have att: "1 \<le> Attempt op" using inv assms(2) unfolding op_inv_def by blast
  show ?thesis
  proof (rule terminate_chain_cases [OF inv assms(2,3), of "finished inp now" "finish_event inp op now"
        "finish_log inp op now" "FinRetry inp" now])
    fix c p assume "terminate_chain db op (finished inp now) (finish_event inp op now)
        (finish_log inp op now) (FinRetry inp) now = Inl c" "FinRetry inp = Some p"
      "PlanOperationID p \<in> ID ` set (operations db)"
    then show ?thesis
      using assms(6) Finish_running_eq [OF inv assms(2,3,4) final, of now] by auto
  next
    fix db' assume *: "terminate_chain db op (finished inp now) (finish_event inp op now)
        (finish_log inp op now) (FinRetry inp) now = Inr db'"
      "operations db' = map (\<lambda>r. if r = op then finished inp now r else r) (operations db)
        @ retry_rows op (FinRetry inp) now"
      "active_pairs db' = active_pairs db - {(Resource op, ID op)}"
    then have "Finish db inp now = (Inr (finished inp now op), db')"
      using Finish_running_eq [OF inv assms(2,3,4) final, of now] by simp
    moreover have "retry_rows op (FinRetry inp) now = [stored (retry_operation op plan now)]"
      by (simp add: retry_rows_def assms(6))
    ultimately show ?thesis
      using * att by (intro disjI2 exI [of _ db'] exI [of _ "stored (retry_operation op plan now)"])
        (simp add: retry_operation_def normalizeAttempt_def)
  qed (use final in \<open>simp_all add: finish_event_def finish_log_def\<close>)
qed

definition sample_finish :: FinishInput where
  "sample_finish = \<lparr>FinOperationID = ''op1'', FinStatus = StatusFailed, FinExitCode = None,
     FinErrorCode = Some CodeExecTimeout, FinErrorMessage = [],
     FinRetry = Some \<lparr>PlanOperationID = ''op2'', PlanNotBefore = 20, PlanRetryPolicyJSON = NoJSON\<rparr>\<rparr>"

lemma sample_db_rows: "operations sample_db = [started 7 (stored (sample_op ''op1'' ''web'' 5))]"
  by (simp add: sample_db_def store_eval started_def)

theorem finish_retry_atomic_witness:
  "\<exists>db' q. snd (Finish sample_db sample_finish 9) = db' \<and> q \<in> set (operations db')
     \<and> ID q = ''op2'' \<and> RetryOf q = ''op1'' \<and> Attempt q = 2 \<and> active_pairs db' = {}"
proof -
  define op where "op = started 7 (stored (sample_op ''op1'' ''web'' 5))"
  have op: "op \<in> set (operations sample_db)" "OpStatus op = StatusRunning" "FinOperationID sample_finish = ID op"
    "ID op = ''op1''" "Attempt op = 1" "Resource op = ''web''"
    by (simp_all add: op_def sample_db_rows started_def sample_op_def sample_finish_def normalizeAttempt_def)
  have act: "active_pairs sample_db = {(''web'', ''op1'')}"
    unfolding op_invD(3) [OF reachable_inv [OF sample_db_reachable]]
    by (auto simp: running_pairs_def sample_db_rows started_def)
  have fr: "FinRetry sample_finish = Some \<lparr>PlanOperationID = ''op2'', PlanNotBefore = 20, PlanRetryPolicyJSON = NoJSON\<rparr>"
    "FinStatus sample_finish = StatusFailed" by (simp_all add: sample_finish_def)
  from finish_retry_atomic [OF sample_db_reachable op(1,2,3) fr(2,1), of 9]
  show ?thesis using act op by (auto simp: sample_db_rows op_def)
qed

section \<open>Submitting again\<close>

text \<open>A row, once written, is found again in every later state, with the same identity.\<close>

lemma op_step_evolves: "op_inv db \<Longrightarrow> op_step db db' \<Longrightarrow> evolves db db'"
proof -
  assume inv: "op_inv db" and "op_step db db'"
  from this(2) show ?thesis
  proof cases
    case (step_log entry)
    then show ?thesis by (intro evolves_frame) (simp_all add: AppendLog_def insertLog_Inr)
  next
    case (step_audit event)
    then show ?thesis by (intro evolves_frame) (simp_all add: AppendAudit_def insertAudit_Inr)
  qed (use inv in \<open>auto intro: evolves_create evolves_claim evolves_finish evolves_cancel evolves_recover\<close>)
qed

lemma evolves_persists:
  assumes "evolves db db'" "r \<in> set (operations db)"
  shows "\<exists>q \<in> set (operations db'). identity_of q = identity_of r"
proof -
  have l: "list_all2 row_evolves (operations db) (take (length (operations db)) (operations db'))"
    using assms(1) by (auto simp: evolves_def)
  obtain i where "i < length (operations db)" "operations db ! i = r"
    using assms(2) by (auto simp: in_set_conv_nth)
  with l have "row_evolves r (take (length (operations db)) (operations db') ! i)"
    "i < length (take (length (operations db)) (operations db'))"
    by (auto simp: list_all2_conv_all_nth)
  then show ?thesis
    by (meson in_set_takeD nth_mem row_evolves_def)
qed

lemma steps_persist:
  assumes "op_step\<^sup>*\<^sup>* db db'" "op_inv db" "r \<in> set (operations db)"
  shows "op_inv db' \<and> (\<exists>q \<in> set (operations db'). identity_of q = identity_of r)"
  using assms(1)
proof (induction rule: rtranclp_induct)
  case (step db1 db2)
  then obtain q where q: "q \<in> set (operations db1)" "identity_of q = identity_of r" "op_inv db1" by blast
  then have "op_inv db2" "\<exists>p \<in> set (operations db2). identity_of p = identity_of q"
    using op_step_inv [OF step(2)] evolves_persists [OF op_step_evolves [OF q(3) step(2)] q(1)] by blast+
  with q(2) show ?case by auto
qed (use assms in auto)

lemma getOperationByKey_mem:
  assumes "op_inv db" "q \<in> set (operations db)" "IdempotencyKey q \<noteq> []"
  shows "getOperationByKey db (IdempotencyKey q) = Some q"
proof -
  obtain p where p: "getOperationByKey db (IdempotencyKey q) = Some p"
    using assms(2) unfolding getOperationByKey_def
    by (cases "find (\<lambda>r. IdempotencyKey r = IdempotencyKey q) (operations db)") (auto simp: find_None_iff)
  then have "p \<in> set (operations db)" "IdempotencyKey p = IdempotencyKey q"
    unfolding getOperationByKey_def by (auto simp: find_Some_iff)
  moreover have "inj_on IdempotencyKey {r \<in> set (operations db). IdempotencyKey r \<noteq> []}"
    using assms(1) by (auto simp: op_inv_def keyed_ops_def distinct_map)
  ultimately have "p = q" using assms(2,3) by (auto simp: inj_on_def)
  with p show ?thesis by simp
qed



section \<open>Restart\<close>

text \<open>C5 After a restart nothing is left running and no lock is held: with fresh identifiers for the
  planned retries the recovery succeeds, every operation that was running is failed with
  \<open>DAEMON_RESTARTED\<close>, every other row is as before, and the only new rows are the planned retries of
  the interrupted operations.\<close>

theorem recovery_spec:
  fixes plan :: "Operation \<Rightarrow> RetryPlan option" and now :: time
  assumes "reachable db"
  defines "stale \<equiv> sort_key CreatedAt (filter (\<lambda>r. OpStatus r = StatusRunning) (operations db))"
  assumes "distinct (retry_ids plan stale)" and "set (retry_ids plan stale) \<inter> ID ` set (operations db) = {}"
  shows "\<exists>db'. RecoverRunning db now plan = (Inr stale, db')
     \<and> operations db' =
         map (\<lambda>r. if OpStatus r = StatusRunning then interrupted now r else r) (operations db)
         @ concat (map (\<lambda>r. case plan r of None \<Rightarrow> [] | Some p \<Rightarrow> [stored (retry_operation r p now)]) stale)
     \<and> CountByStatus db' StatusRunning = 0 \<and> (\<forall>res. ActiveLock db' res = None)"
proof -
  note inv = reachable_inv [OF assms(1)]
  note stale = RecoverRunning_stale [OF inv, folded stale_def]
  obtain db' where db': "recover_loop now plan stale db = Inr db'" "op_inv db'"
    "operations db' = map (\<lambda>r. if r \<in> set stale then interrupted now r else r) (operations db)
       @ all_retry_rows plan now stale"
    using recover_loop_spec [OF inv stale assms(3,4)] by blast
  have "map (\<lambda>r. if r \<in> set stale then interrupted now r else r) (operations db)
      = map (\<lambda>r. if OpStatus r = StatusRunning then interrupted now r else r) (operations db)"
    by (auto simp: stale_def)
  with db'(3) have ops: "operations db' =
      map (\<lambda>r. if OpStatus r = StatusRunning then interrupted now r else r) (operations db)
      @ all_retry_rows plan now stale" by simp
  have none: "OpStatus r \<noteq> StatusRunning" if "r \<in> set (operations db')" for r
    using that retry_rows_pending by (force simp: ops all_retry_rows_def split: if_splits)
  then have "active_pairs db' = {}"
    unfolding op_invD(3) [OF db'(2)] by (auto simp: running_pairs_def)
  then have "ActiveLock db' res = None" for res
    by (auto simp: ActiveLock_def find_None_iff active_pairs_def)
  moreover have "CountByStatus db' StatusRunning = 0"
    using none by (simp add: CountByStatus_def filter_empty_conv)
  moreover have "RecoverRunning db now plan = (Inr stale, db')"
    by (simp add: RecoverRunning_def stale_def [symmetric] db'(1) Let_def)
  ultimately show ?thesis using ops by (simp add: all_retry_rows_def retry_rows_def)
qed

theorem recovery_spec_witness:
  "\<exists>db'. RecoverRunning sample_db 30 (\<lambda>r. None) = (Inr (operations sample_db), db')
     \<and> CountByStatus db' StatusRunning = 0 \<and> ActiveLock db' ''web'' = None"
proof -
  have stale: "sort_key CreatedAt (filter (\<lambda>r. OpStatus r = StatusRunning) (operations sample_db)) = operations sample_db"
    by (simp add: sample_db_rows started_def)
  have "retry_ids (\<lambda>r. None) xs = []" for xs by (simp add: retry_ids_def)
  then show ?thesis
    using recovery_spec [OF sample_db_reachable, of "\<lambda>r. None" 30] unfolding stale by auto
qed

section \<open>The contract of the repository\<close>

text \<open>
  What the application layer relies on (\<open>Repository\<close> in \<open>internal/application/ports.go\<close>) for running one
  operation: a good state stays good; a claimed operation was pending and due and is now running; no
  claim means there is nothing due; finishing a running operation without a retry gives it the terminal
  status and leaves the other rows.
\<close>

lemma two_updates:
  "(\<lambda>q. if q = b then c else q) \<circ> (\<lambda>q. if q = a then b else q) = (\<lambda>q. if q = a \<or> q = b then c else q)"
  by auto

locale op_repository =
  fixes good :: "'s \<Rightarrow> bool" and rows :: "'s \<Rightarrow> Operation list"
    and claim_next :: "'s \<Rightarrow> time \<Rightarrow> (ErrorCode + Operation option) \<times> 's"
    and finish_op :: "'s \<Rightarrow> FinishInput \<Rightarrow> time \<Rightarrow> (ErrorCode + Operation) \<times> 's"
  assumes claim_good: "good s \<Longrightarrow> good (snd (claim_next s t))"
    and claim_cases: "good s \<Longrightarrow>
      (claim_next s t = (Inr None, s) \<and> filter (due t) (rows s) = []) \<or>
      (\<exists>r s'. claim_next s t = (Inr (Some (started t r)), s') \<and> r \<in> set (rows s) \<and> due t r
         \<and> rows s' = map (\<lambda>q. if q = r then started t r else q) (rows s))"
    and finish_good: "good s \<Longrightarrow> Status_Terminal (FinStatus inp) \<Longrightarrow> good (snd (finish_op s inp t))"
    and finish_running: "good s \<Longrightarrow> r \<in> set (rows s) \<Longrightarrow> OpStatus r = StatusRunning \<Longrightarrow>
      FinOperationID inp = ID r \<Longrightarrow> Status_Terminal (FinStatus inp) \<Longrightarrow> FinRetry inp = None \<Longrightarrow>
      \<exists>s'. finish_op s inp t = (Inr (finished inp t r), s')
         \<and> rows s' = map (\<lambda>q. if q = r then finished inp t r else q) (rows s)"
begin

text \<open>One round of a worker: it claims, runs and finishes. Exactly the claimed row changes, from pending
  to the terminal status, and no row is left running by the round.\<close>

lemma one_round:
  assumes "good s" "claim_next s t = (Inr (Some op), s1)"
    and "FinOperationID inp = ID op" "Status_Terminal (FinStatus inp)" "FinRetry inp = None"
  shows "\<exists>r \<in> set (rows s). due t r \<and> op = started t r
     \<and> good (snd (finish_op s1 inp u))
     \<and> rows (snd (finish_op s1 inp u)) =
        map (\<lambda>q. if q = r \<or> q = started t r then finished inp u (started t r) else q) (rows s)"
proof -
  have good1: "good s1" using claim_good [OF assms(1), of t] assms(2) by simp
  from claim_cases [OF assms(1), of t] assms(2) obtain r where r: "op = started t r" "r \<in> set (rows s)" "due t r"
    "rows s1 = map (\<lambda>q. if q = r then started t r else q) (rows s)" by auto
  have run: "op \<in> set (rows s1)" "OpStatus op = StatusRunning"
    using r by (auto simp: started_def image_iff)
  obtain s' where s': "finish_op s1 inp u = (Inr (finished inp u op), s')"
    "rows s' = map (\<lambda>q. if q = op then finished inp u op else q) (rows s1)"
    using finish_running [OF good1 run assms(3,4,5), of u] by blast
  have "(\<lambda>q. if q = op then finished inp u op else q) \<circ> (\<lambda>q. if q = r then started t r else q)
      = (\<lambda>q. if q = r \<or> q = started t r then finished inp u (started t r) else q)"
    unfolding r(1) by (rule two_updates)
  then have "rows (snd (finish_op s1 inp u)) =
      map (\<lambda>q. if q = r \<or> q = started t r then finished inp u (started t r) else q) (rows s)"
    unfolding s'(1) snd_conv s'(2) r(4) map_map by (rule arg_cong)
  with r(1,2,3) finish_good [OF good1 assms(4), of u] show ?thesis by blast
qed

end

lemma ClaimNextPending_cases:
  assumes "op_inv s"
  shows "(ClaimNextPending s t = (Inr None, s) \<and> filter (due t) (operations s) = []) \<or>
      (\<exists>r s'. ClaimNextPending s t = (Inr (Some (started t r)), s') \<and> r \<in> set (operations s) \<and> due t r
         \<and> operations s' = map (\<lambda>q. if q = r then started t r else q) (operations s))"
proof (cases "\<exists>r \<in> set (operations s). due t r")
  case True
  obtain r s' where r: "ClaimNextPending s t = (Inr (Some (started t r)), s')" "r \<in> set (operations s)" "due t r"
    and rows: "operations s' = map (\<lambda>q. if q = r then started t q else q) (operations s)"
    by (rule ClaimNextPending_some [OF assms True]) blast
  have "(\<lambda>q. if q = r then started t q else q) = (\<lambda>q. if q = r then started t r else q)" by auto
  with rows have "operations s' = map (\<lambda>q. if q = r then started t r else q) (operations s)" by (simp only:)
  with r show ?thesis by blast
next
  case False
  then show ?thesis using ClaimNextPending_none [OF assms False] by (simp add: filter_empty_conv)
qed

lemma Finish_without_retry:
  assumes inv: "op_inv s" and r: "r \<in> set (operations s)" "OpStatus r = StatusRunning"
    and inp: "FinOperationID inp = ID r" "Status_Terminal (FinStatus inp)" "FinRetry inp = None"
  shows "\<exists>s'. Finish s inp t = (Inr (finished inp t r), s')
         \<and> operations s' = map (\<lambda>q. if q = r then finished inp t r else q) (operations s)"
proof (rule terminate_chain_cases [OF inv r, of "finished inp t" "finish_event inp r t"
      "finish_log inp r t" "FinRetry inp" t])
  fix s' assume *: "terminate_chain s r (finished inp t) (finish_event inp r t) (finish_log inp r t) (FinRetry inp) t = Inr s'"
    "operations s' = map (\<lambda>q. if q = r then finished inp t q else q) (operations s) @ retry_rows r (FinRetry inp) t"
  have "(\<lambda>q. if q = r then finished inp t q else q) = (\<lambda>q. if q = r then finished inp t r else q)" by auto
  with *(2) have "operations s' = map (\<lambda>q. if q = r then finished inp t r else q) (operations s)"
    by (simp only: retry_rows_def inp(3) option.case append_Nil2)
  moreover have "Finish s inp t = (Inr (finished inp t r), s')"
    unfolding Finish_running_eq [OF inv r inp(1,2)] *(1) by (simp only: sum.case)
  ultimately show ?thesis by blast
qed (use inp in \<open>simp_all add: finish_event_def finish_log_def\<close>)

interpretation sqlite: op_repository op_inv operations ClaimNextPending Finish
  by unfold_locales
    (fact ClaimNextPending_inv ClaimNextPending_cases Finish_inv Finish_without_retry)+

end
