(* ===== verification/SchedStore.thy ===== *)
theory SchedStore
  imports Schedule OpMachine
begin

text \<open>
  The schedule tables of the SQLite store (\<open>internal/adapters/sqlite/schedule.go\<close>): schedules and the
  record of their runs, next to the operation tables. A run is identified by its schedule and the
  planned moment; that unique index is what keeps a moment from being triggered twice.
\<close>

section \<open>State\<close>

record SchedDb =
  opdb :: OpDb
  schedules :: "Schedule list"
  schedule_runs :: "ScheduleRun list"

text \<open>What reading a row back makes of the schedule that was written: the operation kind is never empty,
  the interval is kept in whole seconds, and a new row has no last run.\<close>

definition intervalSeconds :: "duration \<Rightarrow> int option" where
  "intervalSeconds interval = (if interval \<le> 0 then None else Some (interval div second))"

definition stored_schedule :: "Schedule \<Rightarrow> Schedule" where
  "stored_schedule s = s\<lparr>OperationKind := OperationKindOrDefault s,
     Interval := (case intervalSeconds (Interval s) of None \<Rightarrow> 0 | Some n \<Rightarrow> n * second),
     LastRunAt := None, LastResult := []\<rparr>"

definition CreateSchedule :: "calendar \<Rightarrow> SchedDb \<Rightarrow> Schedule \<Rightarrow> ErrorCode option \<times> SchedDb" where
  "CreateSchedule cal db s =
     (case Schedule_Validate cal s of
        (Some e, _) \<Rightarrow> (Some e, db)
      | (None, s') \<Rightarrow>
          if list_ex (\<lambda>q. SchID q = SchID s' \<or> SchName q = SchName s') (schedules db)
          then (Some CodeScheduleInvalid, db)
          else (None, db\<lparr>schedules := schedules db @ [stored_schedule s']\<rparr>))"

definition GetSchedule :: "SchedDb \<Rightarrow> string \<Rightarrow> ErrorCode + Schedule" where
  "GetSchedule db ref =
     (case find (\<lambda>s. SchID s = ref \<or> SchName s = ref) (schedules db) of
        None \<Rightarrow> Inl CodeScheduleNotFound | Some s \<Rightarrow> Inr s)"

definition ListEnabledSchedules :: "SchedDb \<Rightarrow> Schedule list" where
  "ListEnabledSchedules db =
     sort_key (\<lambda>s. (SchCreatedAt s, SchID s)) (filter Enabled_Schedule (schedules db))"

definition ListSchedules :: "SchedDb \<Rightarrow> nat \<Rightarrow> Schedule list" where
  "ListSchedules db limit = take limit (sort_key (\<lambda>s. (SchCreatedAt s, SchID s)) (schedules db))"

definition update_schedule :: "SchedDb \<Rightarrow> string \<Rightarrow> (Schedule \<Rightarrow> Schedule) \<Rightarrow> ErrorCode option \<times> SchedDb" where
  "update_schedule db i f =
     (if list_ex (\<lambda>s. SchID s = i) (schedules db)
      then (None, db\<lparr>schedules := map (\<lambda>s. if SchID s = i then f s else s) (schedules db)\<rparr>)
      else (Some CodeScheduleNotFound, db))"

definition SetScheduleEnabled ::
  "SchedDb \<Rightarrow> string \<Rightarrow> bool \<Rightarrow> time \<Rightarrow> (ErrorCode + Schedule) \<times> SchedDb" where
  "SetScheduleEnabled db i enabled now =
     (case update_schedule db i (\<lambda>s. s\<lparr>Enabled_Schedule := enabled, SchUpdatedAt := now\<rparr>) of
        (Some e, db') \<Rightarrow> (Inl e, db')
      | (None, db') \<Rightarrow> (GetSchedule db' i, db'))"

definition UpdateScheduleProgress ::
  "SchedDb \<Rightarrow> string \<Rightarrow> ScheduleProgress \<Rightarrow> time \<Rightarrow> ErrorCode option \<times> SchedDb" where
  "UpdateScheduleProgress db i progress now =
     update_schedule db i (\<lambda>s. s\<lparr>NextRunAt := ProgNextRunAt progress, LastRunAt := ProgLastRunAt progress,
       LastResult := ProgLastResult progress, SchUpdatedAt := now\<rparr>)"

text \<open>Deleting a schedule deletes its runs with it (\<open>ON DELETE CASCADE\<close>).\<close>

definition DeleteSchedule :: "SchedDb \<Rightarrow> string \<Rightarrow> ErrorCode option \<times> SchedDb" where
  "DeleteSchedule db i =
     (if list_ex (\<lambda>s. SchID s = i) (schedules db)
      then (None, db\<lparr>schedules := filter (\<lambda>s. SchID s \<noteq> i) (schedules db),
                    schedule_runs := filter (\<lambda>r. RunScheduleID r \<noteq> i) (schedule_runs db)\<rparr>)
      else (Some CodeScheduleNotFound, db))"

section \<open>Runs\<close>

record ScheduledDispatch =
  DispScheduleID :: string
  DispScheduledFor :: time
  DispRunID :: string
  DispOperation :: "Operation option"
  DispNow :: time

datatype insert_result = Inserted SchedDb | Unique | OtherFailure

text \<open>Inserting a run: the primary key and the index on schedule and moment are unique, and the
  schedule must exist.\<close>

definition insert_run :: "SchedDb \<Rightarrow> ScheduleRun \<Rightarrow> insert_result" where
  "insert_run db run =
     (if list_ex (\<lambda>r. RunID r = RunID run
           \<or> (RunScheduleID r = RunScheduleID run \<and> ScheduledFor r = ScheduledFor run)) (schedule_runs db)
      then Unique
      else if \<not> list_ex (\<lambda>s. SchID s = RunScheduleID run) (schedules db) then OtherFailure
      else Inserted (db\<lparr>schedule_runs := schedule_runs db @ [run]\<rparr>))"

definition handled_before :: "SchedDb \<Rightarrow> string \<Rightarrow> time \<Rightarrow> bool" where
  "handled_before db sid moment \<longleftrightarrow>
     list_ex (\<lambda>r. RunScheduleID r = sid \<and> ScheduledFor r = moment) (schedule_runs db)"

definition update_run :: "SchedDb \<Rightarrow> ScheduleRun \<Rightarrow> SchedDb" where
  "update_run db run = db\<lparr>schedule_runs := map (\<lambda>r. if RunID r = RunID run then run else r) (schedule_runs db)\<rparr>"

definition DispatchScheduledRun ::
  "SchedDb \<Rightarrow> ScheduledDispatch \<Rightarrow> (ErrorCode + ScheduleRun \<times> bool) \<times> SchedDb" where
  "DispatchScheduledRun db inp =
     (let run = \<lparr>RunID = DispRunID inp, RunScheduleID = DispScheduleID inp,
                 ScheduledFor = DispScheduledFor inp, RunStartedAt = DispNow inp, RunFinishedAt = None,
                 Result = RunDispatched, RunOperationID = [], RunErrorCode = None\<rparr>
      in if handled_before db (DispScheduleID inp) (DispScheduledFor inp) then (Inr (run, True), db)
         else case insert_run db run of
           Unique \<Rightarrow> (Inr (run, True), db)
         | OtherFailure \<Rightarrow> (Inl CodeInternal, db)
         | Inserted db1 \<Rightarrow>
             (case DispOperation inp of
                None \<Rightarrow> (Inr (run, False), db1)
              | Some op \<Rightarrow>
                  if hasIncompleteOperation (opdb db1) (Resource op) then
                    let failed = run\<lparr>Result := RunFailed, RunErrorCode := Some CodeLockBusy,
                                     RunFinishedAt := Some (DispNow inp)\<rparr>
                    in (Inr (failed, False), update_run db1 failed)
                  else
                    (case bind_res (insertOperation (opdb db1) op) (\<lambda>ops.
                            insertAudit ops
                              \<lparr>EvType = EventOperationCreated, EvActor = CreatedBy op, EvOperationID = ID op,
                               EvResource = Resource op, EvResult = status_name StatusPending,
                               EvTime = DispNow inp,
                               EvDetails = [(''scheduleId'', VStr (DispScheduleID inp)),
                                            (''scheduledFor'', VTime (DispScheduledFor inp))]\<rparr>)
                     of Inl e \<Rightarrow> (Inl e, db)
                      | Inr ops \<Rightarrow>
                          let dispatched = run\<lparr>RunOperationID := ID op\<rparr>
                          in (Inr (dispatched, False), (update_run db1 dispatched)\<lparr>opdb := ops\<rparr>))))"

text \<open>The result tells whether the moment had been handled before.\<close>

definition RecordMissedRun ::
  "SchedDb \<Rightarrow> string \<Rightarrow> string \<Rightarrow> time \<Rightarrow> time \<Rightarrow> (ErrorCode + bool) \<times> SchedDb" where
  "RecordMissedRun db sid rid moment now =
     (case insert_run db \<lparr>RunID = rid, RunScheduleID = sid, ScheduledFor = moment, RunStartedAt = now,
             RunFinishedAt = Some now, Result = RunMissed, RunOperationID = [], RunErrorCode = None\<rparr> of
        Unique \<Rightarrow> (Inr True, db)
      | OtherFailure \<Rightarrow> (Inl CodeInternal, db)
      | Inserted db1 \<Rightarrow> (Inr False, db1))"

definition ListScheduleRuns :: "SchedDb \<Rightarrow> string \<Rightarrow> nat \<Rightarrow> ScheduleRun list" where
  "ListScheduleRuns db sid limit =
     take limit (rev (sort_key (\<lambda>r. (ScheduledFor r, RunID r))
       (filter (\<lambda>r. RunScheduleID r = sid) (schedule_runs db))))"

section \<open>Facts\<close>

lemma insert_run_Inserted:
  assumes "insert_run db run = Inserted db1"
  shows "db1 = db\<lparr>schedule_runs := schedule_runs db @ [run]\<rparr>"
    and "\<not> handled_before db (RunScheduleID run) (ScheduledFor run)"
    and "RunID run \<notin> RunID ` set (schedule_runs db)"
    and "list_ex (\<lambda>s. SchID s = RunScheduleID run) (schedules db)"
  using assms by (auto simp: insert_run_def handled_before_def list_ex_iff split: if_splits)

text \<open>The store keeps the operation invariant and the uniqueness of runs.\<close>

definition sched_inv :: "SchedDb \<Rightarrow> bool" where
  "sched_inv db \<longleftrightarrow> op_inv (opdb db)
     \<and> distinct (map (\<lambda>r. (RunScheduleID r, ScheduledFor r)) (schedule_runs db))
     \<and> distinct (map RunID (schedule_runs db))"

lemma map_update_run:
  assumes "\<And>r. r \<in> set (schedule_runs db) \<Longrightarrow> RunID r = RunID run \<Longrightarrow> f r = f run"
  shows "map f (schedule_runs (update_run db run)) = map f (schedule_runs db)"
  using assms by (simp add: update_run_def)

text \<open>The possible outcomes of a dispatch.\<close>

lemma DispatchScheduledRun_cases:
  obtains (handled) run where "DispatchScheduledRun db inp = (Inr (run, True), db)"
    | (failed) e where "DispatchScheduledRun db inp = (Inl e, db)"
    | (done1) run ops where
        "DispatchScheduledRun db inp =
           (Inr (run, False), db\<lparr>opdb := ops, schedule_runs := schedule_runs db @ [run]\<rparr>)"
        "RunScheduleID run = DispScheduleID inp" "ScheduledFor run = DispScheduledFor inp"
        "RunID run = DispRunID inp"
        "\<not> handled_before db (DispScheduleID inp) (DispScheduledFor inp)"
        "DispRunID inp \<notin> RunID ` set (schedule_runs db)"
        "(Result run = RunDispatched \<and> (\<exists>op. DispOperation inp = Some op \<and> RunOperationID run = ID op
            \<and> \<not> hasIncompleteOperation (opdb db) (Resource op)
            \<and> (\<exists>ops1 e. insertOperation (opdb db) op = Inr ops1 \<and> insertAudit ops1 e = Inr ops)))
         \<or> (Result run = RunDispatched \<and> DispOperation inp = None \<and> ops = opdb db)
         \<or> (Result run = RunFailed \<and> RunErrorCode run = Some CodeLockBusy \<and> ops = opdb db
            \<and> (\<exists>op. DispOperation inp = Some op \<and> hasIncompleteOperation (opdb db) (Resource op)))"
proof -
  define run where "run = \<lparr>RunID = DispRunID inp, RunScheduleID = DispScheduleID inp,
    ScheduledFor = DispScheduledFor inp, RunStartedAt = DispNow inp, RunFinishedAt = None,
    Result = RunDispatched, RunOperationID = [], RunErrorCode = None\<rparr>"
  have upd: "update_run (db\<lparr>schedule_runs := schedule_runs db @ [run]\<rparr>) q =
      db\<lparr>schedule_runs := schedule_runs db @ [q]\<rparr>"
    if "RunID q = DispRunID inp" "DispRunID inp \<notin> RunID ` set (schedule_runs db)" for q
  proof -
    have "map (\<lambda>r. if RunID r = RunID q then q else r) (schedule_runs db) = schedule_runs db"
      using that by (intro map_idI) (auto simp: image_iff)
    then show ?thesis using that by (simp add: update_run_def run_def)
  qed
  show thesis
  proof (cases "handled_before db (DispScheduleID inp) (DispScheduledFor inp)")
    case True
    then show ?thesis using handled by (simp add: DispatchScheduledRun_def Let_def)
  next
    case False
    show ?thesis
    proof (cases "insert_run db run")
      case Unique
      then show ?thesis using handled False by (simp add: DispatchScheduledRun_def Let_def run_def)
    next
      case OtherFailure
      then show ?thesis using failed False by (simp add: DispatchScheduledRun_def Let_def run_def)
    next
      case (Inserted db1)
      note ins = insert_run_Inserted [OF Inserted]
      have fresh: "DispRunID inp \<notin> RunID ` set (schedule_runs db)" using ins(3) by (simp add: run_def)
      show ?thesis
      proof (cases "DispOperation inp")
        case None
        have "DispatchScheduledRun db inp = (Inr (run, False), db1)"
          using False Inserted None by (simp add: DispatchScheduledRun_def Let_def run_def)
        then show ?thesis
          using done1 [of run "opdb db"] False fresh None ins(1) by (simp add: run_def)
      next
        case (Some op)
        show ?thesis
        proof (cases "hasIncompleteOperation (opdb db) (Resource op)")
          case True
          define q where "q = run\<lparr>Result := RunFailed, RunErrorCode := Some CodeLockBusy,
            RunFinishedAt := Some (DispNow inp)\<rparr>"
          have "DispatchScheduledRun db inp = (Inr (q, False), update_run db1 q)"
            using False Inserted Some True ins(1)
            by (simp add: DispatchScheduledRun_def Let_def run_def [symmetric] q_def)
          moreover have "update_run db1 q = db\<lparr>schedule_runs := schedule_runs db @ [q]\<rparr>"
            using upd [of q] fresh ins(1) by (simp add: q_def run_def)
          ultimately show ?thesis
            using done1 [of q "opdb db"] False fresh Some True by (simp add: q_def run_def)
        next
          case free: False
          define ev where "ev = \<lparr>EvType = EventOperationCreated, EvActor = CreatedBy op, EvOperationID = ID op,
            EvResource = Resource op, EvResult = ''pending'', EvTime = DispNow inp,
            EvDetails = [(''scheduleId'', VStr (DispScheduleID inp)),
              (''scheduledFor'', VTime (DispScheduledFor inp))]\<rparr>"
          show ?thesis
          proof (cases "bind_res (insertOperation (opdb db) op) (\<lambda>ops. insertAudit ops ev)")
            case (Inl e)
            then have "DispatchScheduledRun db inp = (Inl e, db)"
              using False Inserted Some free ins(1)
              by (simp add: DispatchScheduledRun_def Let_def run_def [symmetric] ev_def [symmetric])
            then show ?thesis by (rule failed)
          next
            case (Inr ops)
            define q where "q = run\<lparr>RunOperationID := ID op\<rparr>"
            have "DispatchScheduledRun db inp = (Inr (q, False), (update_run db1 q)\<lparr>opdb := ops\<rparr>)"
              using False Inserted Some free ins(1) Inr
              by (simp add: DispatchScheduledRun_def Let_def run_def [symmetric] ev_def [symmetric] q_def)
            moreover have "update_run db1 q = db\<lparr>schedule_runs := schedule_runs db @ [q]\<rparr>"
              using upd [of q] fresh ins(1) by (simp add: q_def run_def)
            ultimately show ?thesis
              using done1 [of q ops] False fresh Some free Inr
              by (auto simp: q_def run_def bind_res_eq_Inr)
          qed
        qed
      qed
    qed
  qed
qed

lemma handled_before_iff:
  "handled_before db sid t \<longleftrightarrow> (sid, t) \<in> (\<lambda>r. (RunScheduleID r, ScheduledFor r)) ` set (schedule_runs db)"
  by (auto simp: handled_before_def list_ex_iff image_iff)

lemma DispatchScheduledRun_inv:
  assumes "sched_inv db" and "\<And>op. DispOperation inp = Some op \<Longrightarrow> OpStatus op = StatusPending \<and> FinishedAt op = None"
  shows "sched_inv (snd (DispatchScheduledRun db inp))"
proof (cases rule: DispatchScheduledRun_cases [of db inp])
  case (done1 run ops)
  have "op_inv ops"
    using done1(7) assms inv_audit [OF inv_insert [of "opdb db"]] by (auto simp: sched_inv_def)
  then show ?thesis
    using assms(1) done1 by (simp add: sched_inv_def handled_before_iff)
qed (use assms(1) in simp_all)

lemma RecordMissedRun_inv:
  assumes "sched_inv db"
  shows "sched_inv (snd (RecordMissedRun db sid rid t now))"
proof -
  have "sched_inv db1" if "insert_run db run = Inserted db1" for run db1
    using assms insert_run_Inserted [OF that] by (simp add: sched_inv_def handled_before_iff)
  then show ?thesis using assms by (simp add: RecordMissedRun_def split: insert_result.splits)
qed

text \<open>A moment that was handled stays handled, and handling it again does nothing.\<close>

lemma DispatchScheduledRun_again:
  "handled_before db (DispScheduleID inp) (DispScheduledFor inp) \<Longrightarrow>
   \<exists>run. DispatchScheduledRun db inp = (Inr (run, True), db)"
  by (simp add: DispatchScheduledRun_def Let_def)

lemma RecordMissedRun_again:
  "handled_before db sid t \<Longrightarrow> RecordMissedRun db sid rid t now = (Inr True, db)"
  by (auto simp: RecordMissedRun_def insert_run_def handled_before_def list_ex_iff)

end
