(* ===== verification/CommandSpec.thy ===== *)
theory CommandSpec
  imports Secret Operation
begin

text \<open>
  The specification of a command operation (\<open>internal/application/spec.go\<close>): how the JSON of a request
  becomes a \<open>CommandSpec\<close>, and the digest of a request.

  Reading JSON text and SHA-256 are the fields of \<open>codec\<close>, a parameter: \<open>decode_command\<close> is
  \<open>json.Decoder\<close> with unknown fields disallowed, \<open>decode_restore\<close> reads the mode and the confirmation of
  a restore, \<open>canonical\<close> is \<open>json.Unmarshal\<close> followed by \<open>json.Marshal\<close>, and \<open>sha256_hex\<close> the digest of
  the canonical request. Go maps are association lists in the order they are iterated.
\<close>

record ExecutorCommandSpec =
  XArgv :: "string list"
  XWorkingDirectory :: string
  XEnvironment :: "(string \<times> string) list"
  XSecretEnvironment :: "(string \<times> SecretRef) list"
  XTimeoutSeconds :: int
  XMaxOutputBytes :: int
  XSensitiveEnvKeys :: "string list"
  XSensitiveArgIndexes :: "int list"

record CommandSpec =
  Argv :: "string list"
  WorkingDirectory :: string
  Environment :: "(string \<times> string) list"
  SecretEnv :: "(string \<times> SecretRef) list"
  Timeout :: duration
  MaxOutputBytes :: int
  SensitiveEnvKeys :: "string list"
  SensitiveArgIndexes :: "int list"
  CmdDryRun :: bool

datatype RestoreMode = RestoreIsolated | RestoreInPlace | RestoreOther string

definition RestoreMode_Valid :: "RestoreMode \<Rightarrow> bool" where
  "RestoreMode_Valid m \<longleftrightarrow> m = RestoreIsolated \<or> m = RestoreInPlace"

record RestoreOptions =
  RestMode :: RestoreMode
  Confirmed :: bool

record codec =
  decode_command :: "string \<Rightarrow> ExecutorCommandSpec option"
  decode_restore :: "string \<Rightarrow> RestoreOptions option"
  canonical :: "string \<Rightarrow> string option"
  sha256_hex :: "Kind \<times> string \<times> bool \<times> RetryJSON \<times> string option \<Rightarrow> string"

definition timeSeconds :: "int \<Rightarrow> duration" where
  "timeSeconds seconds = (if seconds \<le> 0 then 0 else wrap64 (seconds * second))"

definition check_secret_env :: "ExecutorCommandSpec \<Rightarrow> string \<times> SecretRef \<Rightarrow> ErrorCode option" where
  "check_secret_env parsed entry =
     first_err [
       fail_if (blank (fst entry)) CodeInvalidRequest,
       fail_if (fst entry \<in> fst ` set (XEnvironment parsed)) CodeInvalidRequest,
       SecretRef_Validate (snd entry)]"

definition check_command :: "ExecutorCommandSpec \<Rightarrow> ErrorCode option" where
  "check_command parsed =
     first_err [
       fail_if (XArgv parsed = [] \<or> blank (hd (XArgv parsed))) CodeInvalidRequest,
       fail_if (\<not> PathIsAbs (hd (XArgv parsed))) CodeInvalidRequest,
       fail_if (XWorkingDirectory parsed \<noteq> [] \<and> \<not> PathIsAbs (XWorkingDirectory parsed)) CodeInvalidRequest,
       fail_if (XMaxOutputBytes parsed < 0) CodeInvalidRequest,
       fail_if (XTimeoutSeconds parsed < 0) CodeInvalidRequest,
       first_err (map (\<lambda>i. fail_if (i < 0 \<or> int (length (XArgv parsed)) \<le> i) CodeInvalidRequest)
         (XSensitiveArgIndexes parsed)),
       first_err (map (check_secret_env parsed) (XSecretEnvironment parsed))]"

definition BuildCommandSpec :: "codec \<Rightarrow> Kind \<Rightarrow> string \<Rightarrow> ErrorCode + CommandSpec" where
  "BuildCommandSpec cd kind raw =
     (if kind \<noteq> KindExecutorCommand \<or> raw = [] then Inl CodeInvalidRequest
      else case decode_command cd raw of
        None \<Rightarrow> Inl CodeInvalidRequest
      | Some parsed \<Rightarrow>
          (case check_command parsed of
             Some e \<Rightarrow> Inl e
           | None \<Rightarrow> Inr \<lparr>Argv = XArgv parsed, WorkingDirectory = XWorkingDirectory parsed,
                Environment = XEnvironment parsed, SecretEnv = XSecretEnvironment parsed,
                Timeout = timeSeconds (XTimeoutSeconds parsed), MaxOutputBytes = XMaxOutputBytes parsed,
                SensitiveEnvKeys = XSensitiveEnvKeys parsed,
                SensitiveArgIndexes = XSensitiveArgIndexes parsed, CmdDryRun = False\<rparr>))"

definition DecodeRestoreOptions :: "codec \<Rightarrow> string \<Rightarrow> ErrorCode + RestoreOptions" where
  "DecodeRestoreOptions cd raw =
     (if raw = [] then Inl CodeInvalidRequest
      else case decode_restore cd raw of
        None \<Rightarrow> Inl CodeInvalidRequest
      | Some options \<Rightarrow>
          if \<not> RestoreMode_Valid (RestMode options) then Inl CodeInvalidRequest else Inr options)"

text \<open>The retry policy is digested too; its text was written by the program, so only a text that does
  not decode can fail.\<close>

definition requestHash ::
  "codec \<Rightarrow> Kind \<Rightarrow> string \<Rightarrow> bool \<Rightarrow> RetryJSON \<Rightarrow> string \<Rightarrow> ErrorCode + string" where
  "requestHash cd kind resource dryRun retry spec =
     (if spec \<noteq> [] \<and> canonical cd spec = None then Inl CodeInvalidRequest
      else if retry = BadJSON then Inl CodeInvalidRequest
      else Inr (''sha256:'' @ sha256_hex cd (kind, resource, dryRun, retry,
                  if spec = [] then None else canonical cd spec)))"

text \<open>An accepted command has an absolute executable, and every index it marks as sensitive exists.\<close>

lemma check_command_None:
  "check_command p = None \<longleftrightarrow>
     XArgv p \<noteq> [] \<and> \<not> blank (hd (XArgv p)) \<and> PathIsAbs (hd (XArgv p))
     \<and> (XWorkingDirectory p = [] \<or> PathIsAbs (XWorkingDirectory p))
     \<and> 0 \<le> XMaxOutputBytes p \<and> 0 \<le> XTimeoutSeconds p
     \<and> (\<forall>i \<in> set (XSensitiveArgIndexes p). 0 \<le> i \<and> i < int (length (XArgv p)))
     \<and> (\<forall>e \<in> set (XSecretEnvironment p). check_secret_env p e = None)"
  by (auto simp: check_command_def first_err_Cons_None first_err_map_None not_less)

lemma BuildCommandSpec_ok:
  assumes "BuildCommandSpec cd kind raw = Inr spec"
  shows "kind = KindExecutorCommand" "raw \<noteq> []" "Argv spec \<noteq> []" "PathIsAbs (hd (Argv spec))"
    "\<forall>i \<in> set (SensitiveArgIndexes spec). 0 \<le> i \<and> i < int (length (Argv spec))"
proof -
  from assms obtain parsed where p: "kind = KindExecutorCommand" "raw \<noteq> []" "check_command parsed = None"
    "Argv spec = XArgv parsed" "SensitiveArgIndexes spec = XSensitiveArgIndexes parsed"
    by (auto simp: BuildCommandSpec_def split: if_splits option.splits)
  then show "kind = KindExecutorCommand" "raw \<noteq> []" "Argv spec \<noteq> []" "PathIsAbs (hd (Argv spec))"
    "\<forall>i \<in> set (SensitiveArgIndexes spec). 0 \<le> i \<and> i < int (length (Argv spec))"
    unfolding check_command_None by simp_all
qed

end
