(* ===== verification/Scheduler.thy ===== *)
theory Scheduler
  imports SchedStore CommandSpec
begin

text \<open>
  The scheduler and the schedule service (\<open>internal/application/scheduler.go\<close>,
  \<open>internal/application/schedule.go\<close>): one round over the due moments of a schedule, which moments are
  dispatched, and the use cases that create, enable and delete schedules.

  Identifiers come from \<open>new_id prefix n\<close>, the \<open>n\<close>-th identifier generated; the counter is threaded
  through. Writing to the log and waking the workers change no state that is modelled.
\<close>

section \<open>Rounds of the scheduler\<close>

definition fallbackPoll :: duration where "fallbackPoll = 60 * second"
definition minWait :: duration where "minWait = 200 * millisecond"
definition misfireThreshold :: duration where "misfireThreshold = minute"

record sched_env =
  env_calendar :: calendar
  env_codec :: codec
  new_id :: "string \<Rightarrow> nat \<Rightarrow> string"

text \<open>How long to wait: \<open>None\<close> as the earliest moment stands for the zero time of the code.\<close>

fun earliest_loop :: "time option \<Rightarrow> Schedule list \<Rightarrow> unit + time option" where
  "earliest_loop earliest [] = Inr earliest"
| "earliest_loop earliest (s # ss) =
     (case NextRunAt s of
        None \<Rightarrow> Inl ()
      | Some t \<Rightarrow>
          earliest_loop (case earliest of None \<Rightarrow> Some t
                         | Some e \<Rightarrow> if e = zero_time \<or> t < e then Some t else Some e) ss)"

definition nextWait :: "SchedDb \<Rightarrow> time \<Rightarrow> duration" where
  "nextWait db now =
     (case earliest_loop None (ListEnabledSchedules db) of
        Inl _ \<Rightarrow> minWait
      | Inr None \<Rightarrow> fallbackPoll
      | Inr (Some earliest) \<Rightarrow>
          if earliest = zero_time then fallbackPoll
          else if \<not> now < earliest then minWait
          else let wait = time_sub earliest now in if wait < minWait then minWait else wait)"

definition chooseDispatchedMoments :: "time list \<Rightarrow> MissedRunPolicy \<Rightarrow> time \<Rightarrow> time set" where
  "chooseDispatchedMoments moments policy now =
     (if length moments = 1 \<and> time_sub now (hd moments) \<le> misfireThreshold then {hd moments}
      else if policy = MissedRunOnce then {last moments}
      else {})"

fun result_name :: "ScheduleRunResult \<Rightarrow> string" where
  "result_name RunDispatched = ''dispatched''"
| "result_name RunMissed = ''missed''"
| "result_name RunFailed = ''failed''"

definition buildOperation :: "sched_env \<Rightarrow> Schedule \<Rightarrow> time \<Rightarrow> nat \<Rightarrow> ErrorCode + Operation" where
  "buildOperation env s now n =
     (let kind = (if OperationKind s = KindOther [] then KindExecutorCommand else OperationKind s)
      in bind_res (requestHash (env_codec env) kind (SchResource s) False NoJSON (SchSpec s)) (\<lambda>hash.
         Inr \<lparr>ID = new_id env ''op'' n, OpKind = kind, Resource = SchResource s,
              OpStatus = StatusPending, OpPhase = PhaseNone, DryRun = False, IdempotencyKey = [],
              RequestHash = hash, RetryOf = [], OpExitCode = None, OpErrorCode = None,
              OpErrorMessage = [], Spec = SchSpec s, CreatedAt = now, StartedAt = None,
              FinishedAt = None, CreatedBy = ''schedule:'' @ SchName s, ClaimedBy = [], Attempt = 0,
              NotBefore = None, OpRetryPolicy = zero_policy, RetryPolicyJSON = NoJSON\<rparr>))"

text \<open>The body of the loop over the due moments: the error, the last result, the counter and the
  database after it.\<close>

definition handle_moment ::
  "sched_env \<Rightarrow> Schedule \<Rightarrow> time set \<Rightarrow> time \<Rightarrow> time \<Rightarrow> string \<Rightarrow> nat \<Rightarrow> SchedDb
   \<Rightarrow> ErrorCode option \<times> string \<times> nat \<times> SchedDb" where
  "handle_moment env s dispatch now moment lastResult n db =
     (if moment \<notin> dispatch then
        (case RecordMissedRun db (SchID s) (new_id env ''run'' n) moment now of
           (Inl e, db') \<Rightarrow> (Some e, lastResult, Suc n, db')
         | (Inr handled, db') \<Rightarrow>
             (None, if handled then lastResult else result_name RunMissed, Suc n, db'))
      else
        (case buildOperation env s now n of
           Inl e \<Rightarrow> (Some e, lastResult, n, db)
         | Inr op \<Rightarrow>
             (case DispatchScheduledRun db
                     \<lparr>DispScheduleID = SchID s, DispScheduledFor = moment,
                      DispRunID = new_id env ''run'' (Suc n), DispOperation = Some op, DispNow = now\<rparr> of
                (Inl e, db') \<Rightarrow> (Some e, lastResult, n + 2, db')
              | (Inr (run, handled), db') \<Rightarrow>
                  (None, if handled then lastResult else result_name (Result run), n + 2, db'))))"

fun moments_loop ::
  "sched_env \<Rightarrow> Schedule \<Rightarrow> time set \<Rightarrow> time \<Rightarrow> time list \<Rightarrow> string \<Rightarrow> nat \<Rightarrow> SchedDb
   \<Rightarrow> ErrorCode option \<times> string \<times> nat \<times> SchedDb" where
  "moments_loop env s dispatch now [] lastResult n db = (None, lastResult, n, db)"
| "moments_loop env s dispatch now (m # ms) lastResult n db =
     (case handle_moment env s dispatch now m lastResult n db of
        (Some e, r) \<Rightarrow> (Some e, r)
      | (None, lastResult', n', db') \<Rightarrow> moments_loop env s dispatch now ms lastResult' n' db')"

definition processSchedule ::
  "sched_env \<Rightarrow> Schedule \<Rightarrow> time \<Rightarrow> nat \<Rightarrow> SchedDb \<Rightarrow> ErrorCode option \<times> nat \<times> SchedDb" where
  "processSchedule env sch now n db =
     (case NewEvaluator (env_calendar env) sch of
        Inl e \<Rightarrow> (Some e, n, db)
      | Inr ev \<Rightarrow>
          let s = snd (Schedule_Validate (env_calendar env) sch);
              nxt = Next (env_calendar env) ev
          in case NextRunAt s of
               None \<Rightarrow>
                 (case UpdateScheduleProgress db (SchID s)
                         \<lparr>ProgNextRunAt = Some (nxt now), ProgLastRunAt = None,
                          ProgLastResult = LastResult s\<rparr> now of (err, db') \<Rightarrow> (err, n, db'))
             | Some first \<Rightarrow>
                 if now < first then (None, n, db)
                 else
                   (case DueMoments nxt first now 0 of (moments, truncated) \<Rightarrow>
                      (case moments_loop env s
                              (chooseDispatchedMoments moments (SchMissedRunPolicy s) now) now moments
                              (LastResult s) n db of
                         (Some e, _, n', db') \<Rightarrow> (Some e, n', db')
                       | (None, lastResult, n', db') \<Rightarrow>
                           (case UpdateScheduleProgress db' (SchID s)
                                   \<lparr>ProgNextRunAt = Some (if truncated then nxt now else nxt (last moments)),
                                    ProgLastRunAt = Some (last moments),
                                    ProgLastResult = lastResult\<rparr> now of
                              (err, db'') \<Rightarrow> (err, n', db'')))))"

text \<open>\<open>Tick\<close> handles every enabled schedule and collects the errors.\<close>

fun tick_loop ::
  "sched_env \<Rightarrow> time \<Rightarrow> Schedule list \<Rightarrow> nat \<Rightarrow> SchedDb \<Rightarrow> ErrorCode list \<times> nat \<times> SchedDb" where
  "tick_loop env now [] n db = ([], n, db)"
| "tick_loop env now (s # ss) n db =
     (case processSchedule env s now n db of (err, n', db') \<Rightarrow>
        (case tick_loop env now ss n' db' of (errs, r) \<Rightarrow>
           (case err of None \<Rightarrow> errs | Some e \<Rightarrow> e # errs, r)))"

definition Tick :: "sched_env \<Rightarrow> time \<Rightarrow> nat \<Rightarrow> SchedDb \<Rightarrow> ErrorCode list \<times> nat \<times> SchedDb" where
  "Tick env now n db = tick_loop env now (ListEnabledSchedules db) n db"

section \<open>The schedule service\<close>

record CreateScheduleInput =
  InName :: string
  InKind :: ScheduleKind
  InCron :: string
  InInterval :: duration
  InTimezone :: string
  InResource :: string
  InOperationKind :: Kind
  InSpec :: string
  InMissedRunPolicy :: MissedRunPolicy
  InCreatedBy :: string

definition default_kind :: "Kind \<Rightarrow> Kind" where
  "default_kind k = (if k = KindOther [] then KindExecutorCommand else k)"

definition isRuntimeKind :: "Kind \<Rightarrow> bool" where
  "isRuntimeKind k \<longleftrightarrow> k = KindRuntimeStart \<or> k = KindRuntimeStop"

definition isBackupKind :: "Kind \<Rightarrow> bool" where
  "isBackupKind k \<longleftrightarrow> k = KindBackupRun \<or> k = KindBackupVerify \<or> k = KindBackupRestore"

definition isDeployKind :: "Kind \<Rightarrow> bool" where
  "isDeployKind k \<longleftrightarrow> k = KindAppDeploy \<or> k = KindAppRollback"

text \<open>The check of the specification by the declared kind of operation.\<close>

definition check_schedule_spec :: "codec \<Rightarrow> Kind \<Rightarrow> string \<Rightarrow> ErrorCode option" where
  "check_schedule_spec cd kind spec =
     (if kind = KindExecutorCommand then err_of (BuildCommandSpec cd kind spec)
      else if kind = KindBackupRestore then err_of (DecodeRestoreOptions cd spec)
      else if isRuntimeKind kind \<or> kind = KindBackupRun \<or> kind = KindBackupVerify
      then fail_if (spec \<noteq> []) CodeScheduleInvalid
      else None)"

definition new_schedule :: "sched_env \<Rightarrow> CreateScheduleInput \<Rightarrow> time \<Rightarrow> nat \<Rightarrow> Schedule" where
  "new_schedule env inp now n =
     \<lparr>SchID = new_id env ''sch'' n, SchName = TrimSpace (InName inp), Enabled_Schedule = True,
      SchKind = InKind inp, Cron = InCron inp, Interval = InInterval inp, Timezone = InTimezone inp,
      SchResource = InResource inp, OperationKind = InOperationKind inp, SchSpec = InSpec inp,
      SchMissedRunPolicy =
        (if InMissedRunPolicy inp = MissedRunOther [] then MissedRunSkip else InMissedRunPolicy inp),
      NextRunAt = None, LastRunAt = None, LastResult = [], SchCreatedAt = now, SchUpdatedAt = now,
      SchCreatedBy = InCreatedBy inp\<rparr>"

definition ScheduleService_Create ::
  "sched_env \<Rightarrow> CreateScheduleInput \<Rightarrow> time \<Rightarrow> nat \<Rightarrow> SchedDb \<Rightarrow> (ErrorCode + Schedule) \<times> SchedDb" where
  "ScheduleService_Create env inp now n db =
     (case check_schedule_spec (env_codec env) (default_kind (InOperationKind inp)) (InSpec inp) of
        Some e \<Rightarrow> (Inl e, db)
      | None \<Rightarrow>
          (case Schedule_Validate (env_calendar env) (new_schedule env inp now n) of
             (Some e, _) \<Rightarrow> (Inl e, db)
           | (None, s) \<Rightarrow>
               (case NewEvaluator (env_calendar env) s of
                  Inl e \<Rightarrow> (Inl e, db)
                | Inr ev \<Rightarrow>
                    let s' = s\<lparr>NextRunAt := Some (Next (env_calendar env) ev now)\<rparr>
                    in case CreateSchedule (env_calendar env) db s' of
                         (Some e, db') \<Rightarrow> (Inl e, db')
                       | (None, db') \<Rightarrow>
                           (case AppendAudit (opdb db')
                                   \<lparr>EvType = EventScheduleCreated, EvActor = InCreatedBy inp,
                                    EvOperationID = [], EvResource = SchResource s', EvResult = ''created'',
                                    EvTime = now,
                                    EvDetails = [(''scheduleId'', VStr (SchID s')), (''name'', VStr (SchName s')),
                                      (''nextRunAt'', VTime (Next (env_calendar env) ev now))]\<rparr> of
                              Inl e \<Rightarrow> (Inl e, db')
                            | Inr ops \<Rightarrow> (Inr s', db'\<lparr>opdb := ops\<rparr>)))))"

definition schedule_event :: "EventType \<Rightarrow> string \<Rightarrow> Schedule \<Rightarrow> time \<Rightarrow> AuditEvent" where
  "schedule_event ty res s now = \<lparr>EvType = ty, EvActor = [], EvOperationID = [],
     EvResource = SchResource s, EvResult = res, EvTime = now,
     EvDetails = [(''scheduleId'', VStr (SchID s)), (''name'', VStr (SchName s))]\<rparr>"

definition SetEnabled ::
  "sched_env \<Rightarrow> string \<Rightarrow> bool \<Rightarrow> time \<Rightarrow> SchedDb \<Rightarrow> (ErrorCode + Schedule) \<times> SchedDb" where
  "SetEnabled env ref enabled now db =
     (case GetSchedule db ref of
        Inl e \<Rightarrow> (Inl e, db)
      | Inr s \<Rightarrow>
          (case (if enabled then
                   (case NewEvaluator (env_calendar env) s of
                      Inl e \<Rightarrow> (Some e, db)
                    | Inr ev \<Rightarrow>
                        UpdateScheduleProgress db (SchID s)
                          \<lparr>ProgNextRunAt = Some (Next (env_calendar env) ev now), ProgLastRunAt = None,
                           ProgLastResult = LastResult s\<rparr> now)
                 else (None, db)) of
             (Some e, db1) \<Rightarrow> (Inl e, db1)
           | (None, db1) \<Rightarrow>
               (case SetScheduleEnabled db1 (SchID s) enabled now of
                  (Inl e, db2) \<Rightarrow> (Inl e, db2)
                | (Inr updated, db2) \<Rightarrow>
                    (case AppendAudit (opdb db2)
                            (if enabled then schedule_event EventScheduleEnabled ''enabled'' updated now
                             else schedule_event EventScheduleDisabled ''disabled'' updated now) of
                       Inl e \<Rightarrow> (Inl e, db2)
                     | Inr ops \<Rightarrow> (Inr updated, db2\<lparr>opdb := ops\<rparr>)))))"

definition ScheduleService_Delete :: "string \<Rightarrow> time \<Rightarrow> SchedDb \<Rightarrow> ErrorCode option \<times> SchedDb" where
  "ScheduleService_Delete ref now db =
     (case GetSchedule db ref of
        Inl e \<Rightarrow> (Some e, db)
      | Inr s \<Rightarrow>
          if Enabled_Schedule s then (Some CodeScheduleEnabled, db)
          else
            (case DeleteSchedule db (SchID s) of
               (Some e, db1) \<Rightarrow> (Some e, db1)
             | (None, db1) \<Rightarrow>
                 (case AppendAudit (opdb db1) (schedule_event EventScheduleDeleted ''deleted'' s now) of
                    Inl e \<Rightarrow> (Some e, db1)
                  | Inr ops \<Rightarrow> (None, db1\<lparr>opdb := ops\<rparr>))))"

section \<open>What a round does\<close>

lemma choose_subset: "moments \<noteq> [] \<Longrightarrow> chooseDispatchedMoments moments policy now \<subseteq> {last moments}"
  by (cases moments) (auto simp: chooseDispatchedMoments_def)

text \<open>The generated run identifiers are new.\<close>

definition fresh_runs :: "sched_env \<Rightarrow> nat \<Rightarrow> SchedDb \<Rightarrow> bool" where
  "fresh_runs env n db \<longleftrightarrow> inj (new_id env ''run'')
     \<and> (\<forall>k \<ge> n. new_id env ''run'' k \<notin> RunID ` set (schedule_runs db))"

text \<open>The effect of handling some moments of one schedule: runs and operations that are added.\<close>

definition adds :: "string \<Rightarrow> time set \<Rightarrow> time set \<Rightarrow> SchedDb \<Rightarrow> SchedDb \<Rightarrow> bool" where
  "adds sid moments D db db' \<longleftrightarrow>
     (\<exists>new added. schedule_runs db' = schedule_runs db @ new
        \<and> operations (opdb db') = operations (opdb db) @ added
        \<and> schedules db' = schedules db
        \<and> (\<forall>r \<in> set new. RunScheduleID r = sid \<and> ScheduledFor r \<in> moments
             \<and> \<not> handled_before db sid (ScheduledFor r))
        \<and> length added \<le> card (D \<inter> moments)
        \<and> (\<forall>op \<in> set added. \<exists>r \<in> set new. Result r = RunDispatched \<and> RunOperationID r = ID op))"

lemma adds_refl: "adds sid {} D db db"
  by (auto simp: adds_def)

lemma handled_before_append:
  assumes "schedule_runs db' = schedule_runs db @ new"
  shows "handled_before db' sid t \<longleftrightarrow>
     handled_before db sid t \<or> (\<exists>r \<in> set new. RunScheduleID r = sid \<and> ScheduledFor r = t)"
  by (auto simp: handled_before_def list_ex_iff assms)

lemma adds_trans:
  assumes "adds sid M D db db1" "adds sid N D db1 db2" "M \<inter> N = {}" "finite M" "finite N"
  shows "adds sid (M \<union> N) D db db2"
proof -
  from assms(1) obtain new added where 1: "schedule_runs db1 = schedule_runs db @ new"
    "operations (opdb db1) = operations (opdb db) @ added" "schedules db1 = schedules db"
    "\<forall>r \<in> set new. RunScheduleID r = sid \<and> ScheduledFor r \<in> M \<and> \<not> handled_before db sid (ScheduledFor r)"
    "length added \<le> card (D \<inter> M)"
    "\<forall>op \<in> set added. \<exists>r \<in> set new. Result r = RunDispatched \<and> RunOperationID r = ID op"
    unfolding adds_def by blast
  from assms(2) obtain new' added' where 2: "schedule_runs db2 = schedule_runs db1 @ new'"
    "operations (opdb db2) = operations (opdb db1) @ added'" "schedules db2 = schedules db1"
    "\<forall>r \<in> set new'. RunScheduleID r = sid \<and> ScheduledFor r \<in> N \<and> \<not> handled_before db1 sid (ScheduledFor r)"
    "length added' \<le> card (D \<inter> N)"
    "\<forall>op \<in> set added'. \<exists>r \<in> set new'. Result r = RunDispatched \<and> RunOperationID r = ID op"
    unfolding adds_def by blast
  have "card (D \<inter> (M \<union> N)) = card (D \<inter> M) + card (D \<inter> N)"
    using assms(3-5) by (subst card_Un_disjoint [symmetric]) (auto simp: Int_Un_distrib)
  moreover have "\<forall>r \<in> set new'. \<not> handled_before db sid (ScheduledFor r)"
    using 2(4) handled_before_append [OF 1(1)] by blast
  ultimately show ?thesis
    unfolding adds_def using 1 2
    by (intro exI [of _ "new @ new'"] exI [of _ "added @ added'"]) auto
qed

lemma RecordMissedRun_cases:
  assumes "RecordMissedRun db sid rid t now = (Inr handled, db')"
  obtains "db' = db" "handled_before db sid t \<or> rid \<in> RunID ` set (schedule_runs db)"
    | run where "db' = db\<lparr>schedule_runs := schedule_runs db @ [run]\<rparr>" "RunScheduleID run = sid"
      "ScheduledFor run = t" "RunID run = rid" "\<not> handled_before db sid t"
proof -
  define run where "run = \<lparr>RunID = rid, RunScheduleID = sid, ScheduledFor = t, RunStartedAt = now,
    RunFinishedAt = Some now, Result = RunMissed, RunOperationID = [], RunErrorCode = None\<rparr>"
  show thesis
  proof (cases "insert_run db run")
    case (Inserted db1)
    then show ?thesis
      using assms insert_run_Inserted [OF Inserted] that(2) [of run]
      by (simp add: RecordMissedRun_def run_def)
  next
    case Unique
    then show ?thesis
      using assms that(1)
      by (auto simp: RecordMissedRun_def run_def insert_run_def handled_before_def list_ex_iff split: if_splits)
  next
    case OtherFailure
    then show ?thesis using assms by (simp add: RecordMissedRun_def run_def)
  qed
qed

lemma DispatchScheduledRun_handled:
  assumes "DispatchScheduledRun db inp = (Inr (run, True), db)"
    and "DispRunID inp \<notin> RunID ` set (schedule_runs db)"
  shows "handled_before db (DispScheduleID inp) (DispScheduledFor inp)"
proof (rule ccontr)
  assume "\<not> handled_before db (DispScheduleID inp) (DispScheduledFor inp)"
  with assms show False
    by (auto simp: DispatchScheduledRun_def Let_def insert_run_def handled_before_def list_ex_iff image_iff
        split: if_splits option.splits sum.splits)
qed

text \<open>Handling one moment: it is handled afterwards, and at most one run and one operation are added,
  the operation only for a moment that is to be dispatched.\<close>

lemma handle_moment_None:
  assumes "handle_moment env s D now m lr n db = (None, lr', n', db')" and "fresh_runs env n db"
  shows "adds (SchID s) {m} D db db' \<and> handled_before db' (SchID s) m \<and> fresh_runs env n' db'"
proof (cases "m \<in> D")
  case False
  obtain handled where rec: "RecordMissedRun db (SchID s) (new_id env ''run'' n) m now = (Inr handled, db')"
    and n': "n' = Suc n"
    using assms(1) False by (auto simp: handle_moment_def split: prod.splits sum.splits)
  from rec show ?thesis
  proof (cases rule: RecordMissedRun_cases)
    case 1
    then have "handled_before db (SchID s) m" using assms(2) by (auto simp: fresh_runs_def)
    then show ?thesis using 1 assms(2) n' by (auto simp: adds_def fresh_runs_def)
  next
    case (2 run)
    have "adds (SchID s) {m} D db db'"
      unfolding adds_def using 2 by (intro exI [of _ "[run]"] exI [of _ "[]"]) auto
    moreover have "fresh_runs env n' db'"
      using assms(2) 2 n' by (auto simp: fresh_runs_def inj_eq)
    ultimately show ?thesis using 2 by (simp add: handled_before_def)
  qed
next
  case True
  define inp where "inp = (\<lambda>op. \<lparr>DispScheduleID = SchID s, DispScheduledFor = m,
    DispRunID = new_id env ''run'' (Suc n), DispOperation = Some op, DispNow = now\<rparr>)"
  obtain op run handled where disp: "DispatchScheduledRun db (inp op) = (Inr (run, handled), db')"
    and n': "n' = n + 2"
    using assms(1) True by (auto simp: handle_moment_def inp_def split: prod.splits sum.splits)
  have fresh: "new_id env ''run'' (Suc n) \<notin> RunID ` set (schedule_runs db)"
    using assms(2) by (simp add: fresh_runs_def)
  show ?thesis
  proof (cases rule: DispatchScheduledRun_cases [of db "inp op"])
    case (handled run)
    with DispatchScheduledRun_handled [OF handled] fresh have "handled_before db (SchID s) m"
      by (simp add: inp_def)
    moreover have "db' = db" using handled disp by simp
    ultimately show ?thesis using assms(2) n' by (auto simp: adds_def fresh_runs_def)
  next
    case (failed e)
    then show ?thesis using disp by simp
  next
    case (done1 q ops)
    have db': "db' = db\<lparr>opdb := ops, schedule_runs := schedule_runs db @ [q]\<rparr>" using done1(1) disp by simp
    from done1(7) obtain added where added: "operations ops = operations (opdb db) @ added" "length added \<le> 1"
      "\<forall>p \<in> set added. Result q = RunDispatched \<and> RunOperationID q = ID p"
    proof (elim disjE conjE exE)
      fix p ops1 e
      assume *: "Result q = RunDispatched" "RunOperationID q = ID p" "insertOperation (opdb db) p = Inr ops1"
        "insertAudit ops1 e = Inr ops"
      show thesis
        using that [of "[stored p]"] insertOperation_Inr(1) [OF *(3)] insertAudit_Inr(1) [OF *(4)] *(1,2) by simp
    qed (use that [of "[]"] in simp_all)
    have "adds (SchID s) {m} D db db'"
      unfolding adds_def using done1(2,3,5) added True
      by (intro exI [of _ "[q]"] exI [of _ added]) (auto simp: db' inp_def)
    moreover have "fresh_runs env n' db'"
      using assms(2) done1(4) n' by (auto simp: fresh_runs_def db' inp_def inj_eq)
    ultimately show ?thesis using done1(2,3) by (simp add: handled_before_def db' inp_def)
  qed
qed

lemma adds_keeps_handled: "adds sid M D db db' \<Longrightarrow> handled_before db sid' t \<Longrightarrow> handled_before db' sid' t"
  by (auto simp: adds_def handled_before_def)

lemma moments_loop_None:
  assumes "moments_loop env s D now ms lr n db = (None, lr', n', db')" and "fresh_runs env n db" "distinct ms"
  shows "adds (SchID s) (set ms) D db db' \<and> (\<forall>m \<in> set ms. handled_before db' (SchID s) m) \<and> fresh_runs env n' db'"
  using assms
proof (induction ms arbitrary: lr n db)
  case Nil
  then show ?case by (simp add: adds_refl)
next
  case (Cons m ms)
  obtain lr1 n1 db1 where one: "handle_moment env s D now m lr n db = (None, lr1, n1, db1)"
    and rest: "moments_loop env s D now ms lr1 n1 db1 = (None, lr', n', db')"
    using Cons.prems(1) by (auto split: prod.splits option.splits)
  note h = handle_moment_None [OF one Cons.prems(2)]
  have IH: "adds (SchID s) (set ms) D db1 db' \<and> (\<forall>m \<in> set ms. handled_before db' (SchID s) m)
      \<and> fresh_runs env n' db'"
    using Cons.IH [OF rest] h Cons.prems(3) by simp
  have "adds (SchID s) ({m} \<union> set ms) D db db'"
    using h IH Cons.prems(3) by (intro adds_trans [of _ "{m}" _ db db1]) auto
  then show ?case using h IH adds_keeps_handled [of "SchID s" "set ms" D db1 db'] by auto
qed

section \<open>Rounds: properties\<close>

lemma Validate_fields:
  assumes "Schedule_Validate cal s = (e, s')"
  shows "SchID s' = SchID s" "NextRunAt s' = NextRunAt s" "SchMissedRunPolicy s' = SchMissedRunPolicy s"
    "LastResult s' = LastResult s" "SchSpec s' = SchSpec s"
  using assms by (auto simp: Schedule_Validate_def Let_def split: option.splits if_splits)

lemma update_schedule_frame:
  assumes "update_schedule db i f = (e, db')"
  shows "opdb db' = opdb db" "schedule_runs db' = schedule_runs db"
  using assms by (auto simp: update_schedule_def split: if_splits)

text \<open>A due schedule, taken apart: the loop and the update of its progress.\<close>

lemma processSchedule_due:
  assumes "processSchedule env sch now n db = (None, n', db')"
    and "NewEvaluator (env_calendar env) sch = Inr ev" "NextRunAt sch = Some first" "first \<le> now"
  defines "nxt \<equiv> Next (env_calendar env) ev"
  obtains s lr db1 moments truncated where
    "SchID s = SchID sch" "SchMissedRunPolicy s = SchMissedRunPolicy sch"
    "DueMoments nxt first now 0 = (moments, truncated)"
    "moments_loop env s (chooseDispatchedMoments moments (SchMissedRunPolicy sch) now) now moments
       (LastResult sch) n db = (None, lr, n', db1)"
    "UpdateScheduleProgress db1 (SchID sch)
       \<lparr>ProgNextRunAt = Some (if truncated then nxt now else nxt (last moments)),
        ProgLastRunAt = Some (last moments), ProgLastResult = lr\<rparr> now = (None, db')"
proof -
  define s where "s = snd (Schedule_Validate (env_calendar env) sch)"
  have fields: "SchID s = SchID sch" "NextRunAt s = NextRunAt sch" "SchMissedRunPolicy s = SchMissedRunPolicy sch"
    "LastResult s = LastResult sch"
    using Validate_fields [of "env_calendar env" sch "fst (Schedule_Validate (env_calendar env) sch)" s]
    by (simp_all add: s_def)
  show thesis
    using assms(1) that [OF fields(1,3)]
    by (auto simp: processSchedule_def assms(2,3) fields Let_def s_def [symmetric] nxt_def [symmetric]
        not_less assms(4) split: prod.splits option.splits if_splits)
      (use assms(4) in \<open>simp_all\<close>)
qed

lemma DueMoments_sorted:
  assumes "first \<le> until"
  shows "sorted_wrt (<) (fst (DueMoments nxt first until limit))" "fst (DueMoments nxt first until limit) \<noteq> []"
  using due_loop_sorted [of first nxt until "nat (moment_limit limit) - 1"]
  by (simp_all add: DueMoments_due_loop [OF assms])

text \<open>A store with one schedule that runs every minute and is due now, and one that has missed a moment.\<close>

definition sample_env :: sched_env where
  "sample_env = \<lparr>env_calendar = \<lparr>known_location = (\<lambda>_. True), cron_parses = (\<lambda>_. False), cron_next = (\<lambda>_ _ t. t)\<rparr>,
     env_codec = \<lparr>decode_command = (\<lambda>_. None), decode_restore = (\<lambda>_. None), canonical = Some,
       sha256_hex = (\<lambda>_. ''00'')\<rparr>,
     new_id = (\<lambda>p n. p @ replicate n CHR ''1'')\<rparr>"

definition sample_schedule :: "time \<Rightarrow> Schedule" where
  "sample_schedule t = \<lparr>SchID = ''sch'', SchName = ''nightly'', Enabled_Schedule = True,
     SchKind = ScheduleKindInterval, Cron = [], Interval = minute, Timezone = [], SchResource = ''web'',
     OperationKind = KindExecutorCommand, SchSpec = ''s'', SchMissedRunPolicy = MissedRunSkip,
     NextRunAt = Some t, LastRunAt = None, LastResult = [], SchCreatedAt = 0, SchUpdatedAt = 0,
     SchCreatedBy = ''me''\<rparr>"

definition sample_sched_db :: "time \<Rightarrow> SchedDb" where
  "sample_sched_db t = \<lparr>opdb = empty_db, schedules = [sample_schedule t], schedule_runs = []\<rparr>"

lemma sample_evaluator: "NewEvaluator (env_calendar sample_env) (sample_schedule minute) = Inr (intervalEvaluator minute)"
  by code_simp

lemma sample_round:
  obtains n' db' where "processSchedule sample_env (sample_schedule minute) minute 0 (sample_sched_db minute) = (None, n', db')"
proof -
  have "fst (processSchedule sample_env (sample_schedule minute) minute 0 (sample_sched_db minute)) = None"
    by code_simp
  then show thesis by (metis prod.collapse that)
qed

lemma sample_schedule_simps [simp]:
  "SchID (sample_schedule t) = ''sch''" "NextRunAt (sample_schedule t) = Some t"
  by (simp_all add: sample_schedule_def)

lemma sample_fresh: "fresh_runs sample_env 0 (sample_sched_db minute)"
  by (auto simp: fresh_runs_def sample_env_def sample_sched_db_def inj_def)

text \<open>C7 One round over a due schedule: every due moment has a run record afterwards, runs are only
  added for moments that had none (so a moment is never triggered twice, also when a crash repeats the
  round), and at most one operation is created, which a dispatched run of this round points to.\<close>

theorem schedule_round:
  assumes "processSchedule env sch now n db = (None, n', db')"
    and "NewEvaluator (env_calendar env) sch = Inr ev" and "NextRunAt sch = Some first" and "first \<le> now"
    and "fresh_runs env n db"
  shows "(\<forall>m \<in> set (fst (DueMoments (Next (env_calendar env) ev) first now 0)). handled_before db' (SchID sch) m)
     \<and> (\<exists>new added. schedule_runs db' = schedule_runs db @ new
          \<and> (\<forall>r \<in> set new. RunScheduleID r = SchID sch \<and> \<not> handled_before db (SchID sch) (ScheduledFor r))
          \<and> operations (opdb db') = operations (opdb db) @ added \<and> length added \<le> 1
          \<and> (\<forall>op \<in> set added. \<exists>r \<in> set new. Result r = RunDispatched \<and> RunOperationID r = ID op))"
proof -
  obtain s lr db1 ms truncated where r: "SchID s = SchID sch" "SchMissedRunPolicy s = SchMissedRunPolicy sch"
    "DueMoments (Next (env_calendar env) ev) first now 0 = (ms, truncated)"
    "moments_loop env s (chooseDispatchedMoments ms (SchMissedRunPolicy sch) now) now ms
       (LastResult sch) n db = (None, lr, n', db1)"
    "\<exists>p. UpdateScheduleProgress db1 (SchID sch) p now = (None, db')"
    by (rule processSchedule_due [OF assms(1-4)]) blast
  define D where "D = chooseDispatchedMoments ms (SchMissedRunPolicy sch) now"
  have ms: "distinct ms" "ms \<noteq> []"
    using DueMoments_sorted [OF assms(4), of "Next (env_calendar env) ev" 0] r(3)
    by (auto simp: strict_sorted_iff)
  have "card (D \<inter> set ms) \<le> card {last ms}"
    using choose_subset [OF ms(2)] by (intro card_mono) (auto simp: D_def)
  moreover have "adds (SchID sch) (set ms) D db db1 \<and> (\<forall>m \<in> set ms. handled_before db1 (SchID sch) m)"
    using moments_loop_None [OF r(4) assms(5) ms(1)] r(1) by (simp add: D_def)
  moreover have "opdb db' = opdb db1" "schedule_runs db' = schedule_runs db1"
    using r(5) update_schedule_frame by (auto simp: UpdateScheduleProgress_def)
  ultimately show ?thesis
    unfolding adds_def r(3) fst_conv handled_before_def by (fastforce simp: handled_before_def)
qed

theorem schedule_round_witness:
  "handled_before (snd (snd (processSchedule sample_env (sample_schedule minute) minute 0 (sample_sched_db minute))))
     ''sch'' minute"
proof -
  obtain n' db' where r: "processSchedule sample_env (sample_schedule minute) minute 0 (sample_sched_db minute)
      = (None, n', db')"
    by (rule sample_round)
  have "minute \<in> set (fst (DueMoments (Next (env_calendar sample_env) (intervalEvaluator minute)) minute minute 0))"
    by (simp add: DueMoments_def split: prod.split)
  then have "handled_before db' (SchID (sample_schedule minute)) minute"
    using schedule_round [OF r sample_evaluator _ _ sample_fresh] by auto
  then show ?thesis by (simp add: r)
qed

text \<open>After a round that succeeded the schedule is not due any more: its next moment is in the
  future (or there is none), so the scheduler does not spin on it. The evaluator is any that keeps its
  contract, as interval schedules do.\<close>

theorem schedule_round_advances:
  assumes "processSchedule env sch now n db = (None, n', db')"
    and "NewEvaluator (env_calendar env) sch = Inr ev" and "NextRunAt sch = Some first" and "first \<le> now"
    and "evaluator (Next (env_calendar env) ev)"
  shows "\<forall>q \<in> set (schedules db'). SchID q = SchID sch \<longrightarrow>
           (\<exists>t. NextRunAt q = Some t \<and> (t = zero_time \<or> now < t))"
proof -
  let ?nxt = "Next (env_calendar env) ev"
  obtain lr db1 ms truncated where r: "DueMoments ?nxt first now 0 = (ms, truncated)"
    "UpdateScheduleProgress db1 (SchID sch)
       \<lparr>ProgNextRunAt = Some (if truncated then ?nxt now else ?nxt (last ms)),
        ProgLastRunAt = Some (last ms), ProgLastResult = lr\<rparr> now = (None, db')"
    by (rule processSchedule_due [OF assms(1-4)]) blast
  define t where "t = (if truncated then ?nxt now else ?nxt (last ms))"
  have "t = zero_time \<or> now < t"
  proof (cases truncated)
    case True
    then show ?thesis using evaluator.advances [OF assms(5), of now] by (simp add: t_def)
  next
    case False
    then show ?thesis
      using evaluator.nothing_missed [OF assms(5,4), of 0] r(1) by (auto simp: t_def)
  qed
  moreover have "NextRunAt q = Some t" if "q \<in> set (schedules db')" "SchID q = SchID sch" for q
    using r(2) that by (auto simp: UpdateScheduleProgress_def update_schedule_def t_def split: if_splits)
  ultimately show ?thesis by blast
qed

theorem schedule_round_advances_witness:
  "list_all (\<lambda>q. \<exists>t. NextRunAt q = Some t \<and> (t = zero_time \<or> minute < t))
     (filter (\<lambda>q. SchID q = ''sch'')
       (schedules (snd (snd (processSchedule sample_env (sample_schedule minute) minute 0 (sample_sched_db minute))))))"
proof -
  obtain n' db' where r: "processSchedule sample_env (sample_schedule minute) minute 0 (sample_sched_db minute)
      = (None, n', db')"
    by (rule sample_round)
  have "evaluator (Next (env_calendar sample_env) (intervalEvaluator minute))"
    by (rule interval_advances) (simp add: minute_def)
  from schedule_round_advances [OF r sample_evaluator _ _ this] show ?thesis
    by (auto simp: list_all_iff r)
qed

section \<open>A backlog longer than the limit\<close>

lemma due_loop_interval:
  assumes "0 < i" "zero_time < c" "c + int n * i \<le> until"
  shows "due_loop (\<lambda>t. t + i) until n c = (map (\<lambda>k. c + int (Suc k) * i) [0..<n], True)"
  using assms
proof (induction n arbitrary: c)
  case (Suc n)
  have "due_loop (\<lambda>t. t + i) until n (c + i) = (map (\<lambda>k. (c + i) + int (Suc k) * i) [0..<n], True)"
    using Suc.prems by (intro Suc.IH) (simp_all add: algebra_simps)
  moreover have "map (\<lambda>k. c + int (Suc k) * i) [0..<Suc n]
      = (c + i) # map (\<lambda>k. (c + i) + int (Suc k) * i) [0..<n]"
    by (simp add: upt_conv_Cons map_Suc_upt [symmetric] algebra_simps del: upt_Suc)
  moreover have "c + i \<noteq> zero_time \<and> \<not> until < c + i"
  proof -
    have "0 \<le> int n * i" using Suc.prems(1) by simp
    moreover have "c + i + int n * i \<le> until" using Suc.prems(3) by (simp add: algebra_simps)
    ultimately show ?thesis using Suc.prems(1,2) by linarith
  qed
  ultimately show ?case using Suc.prems(1) by (simp add: Let_def del: upt_Suc)
qed simp

text \<open>With a backlog longer than the limit, \<open>runOnce\<close> does not dispatch the most recent moment: for a
  schedule that runs every minute and was down for 2000 minutes it dispatches the moment 1001 minutes
  ago, although the present one is due as well.\<close>

theorem run_once_not_most_recent:
  "chooseDispatchedMoments (fst (DueMoments (Next cal (intervalEvaluator minute)) 0 (2000 * minute) 0))
     MissedRunOnce (2000 * minute) = {999 * minute}
   \<and> Next cal (intervalEvaluator minute) (1999 * minute) = 2000 * minute"
proof -
  have nxt: "Next cal (intervalEvaluator minute) = (\<lambda>t. t + minute)" by auto
  have "due_loop (\<lambda>t. t + minute) (2000 * minute) 999 0 = (map (\<lambda>k. int (Suc k) * minute) [0..<999], True)"
    using due_loop_interval [of minute 0 999 "2000 * minute"] by (simp add: minute_def zero_time_def)
  then have "DueMoments (\<lambda>t. t + minute) 0 (2000 * minute) 0
      = (0 # map (\<lambda>k. int (Suc k) * minute) [0..<999], True)"
    by (subst DueMoments_due_loop) (simp_all add: minute_def moment_limit_def maxScheduledMoments_def)
  moreover have "last (0 # map (\<lambda>k. int (Suc k) * minute) [0..<999]) = 999 * minute"
    by (simp add: last_map)
  ultimately show ?thesis
    unfolding nxt by (simp add: chooseDispatchedMoments_def minute_def)
qed

section \<open>Schedules that cannot be created\<close>

text \<open>No schedule can be created for \<open>runtime.start\<close>, \<open>runtime.stop\<close>, \<open>backup.run\<close> or
  \<open>backup.verify\<close>: the service refuses a specification for these kinds and the validation of the
  schedule refuses its absence, so every request ends with \<open>SCHEDULE_INVALID\<close> and no row.\<close>

theorem schedule_kinds_uncreatable:
  assumes "InOperationKind inp \<in> {KindRuntimeStart, KindRuntimeStop, KindBackupRun, KindBackupVerify}"
  shows "ScheduleService_Create env inp now n db = (Inl CodeScheduleInvalid, db)"
proof (cases "InSpec inp = []")
  case True
  have "fst (Schedule_Validate cal (new_schedule env inp now n)) = Some CodeScheduleInvalid" for cal
    using True by (simp add: Schedule_Validate_def validate_head_def new_schedule_def first_err_Cons fail_if_def)
  then obtain s' where "Schedule_Validate (env_calendar env) (new_schedule env inp now n) = (Some CodeScheduleInvalid, s')"
    by (metis prod.collapse)
  then show ?thesis
    using assms True
    by (auto simp: ScheduleService_Create_def check_schedule_spec_def default_kind_def isRuntimeKind_def fail_if_def)
next
  case False
  then show ?thesis
    using assms
    by (auto simp: ScheduleService_Create_def check_schedule_spec_def default_kind_def isRuntimeKind_def fail_if_def)
qed

theorem schedule_kinds_uncreatable_witness:
  "ScheduleService_Create sample_env
     \<lparr>InName = ''nightly'', InKind = ScheduleKindInterval, InCron = [], InInterval = minute, InTimezone = [],
      InResource = ''web'', InOperationKind = KindBackupRun, InSpec = [], InMissedRunPolicy = MissedRunSkip,
      InCreatedBy = ''me''\<rparr> 0 0 (sample_sched_db minute) = (Inl CodeScheduleInvalid, sample_sched_db minute)"
  by (rule schedule_kinds_uncreatable) simp

end
