(* ===== verification/GoPaths.thy ===== *)
theory GoPaths
  imports GoStrings
begin

text \<open>
  Facts about \<open>path.Clean\<close> and \<open>path.Join\<close> on the paths the program derives: absolute paths of plain
  segments, extended by relative paths.
\<close>

definition plain_segment :: "string \<Rightarrow> bool" where
  "plain_segment s \<longleftrightarrow> s \<noteq> [] \<and> CHR ''/'' \<notin> set s \<and> s \<noteq> ''.'' \<and> s \<noteq> ''..''"

text \<open>An absolute path of the given segments.\<close>

definition abs_path :: "string list \<Rightarrow> string" where
  "abs_path segs = CHR ''/'' # Join CHR ''/'' segs"

lemma plain_segmentI [intro]:
  "s \<noteq> [] \<Longrightarrow> CHR ''/'' \<notin> set s \<Longrightarrow> hd s \<noteq> CHR ''.'' \<Longrightarrow> plain_segment s"
  by (auto simp: plain_segment_def)

lemma plain_segment_append:
  "plain_segment s \<Longrightarrow> hd s \<noteq> CHR ''.'' \<Longrightarrow> CHR ''/'' \<notin> set t \<Longrightarrow> plain_segment (s @ t)"
  by (cases s) (auto simp: plain_segment_def)

lemma clean_segment_plain [simp]: "plain_segment s \<Longrightarrow> clean_segment r s stack = s # stack"
  by (simp add: clean_segment_def plain_segment_def)

lemma fold_clean_plain:
  "(\<forall>s \<in> set segs. plain_segment s) \<Longrightarrow> fold (clean_segment r) segs stack = rev segs @ stack"
  by (induction segs arbitrary: stack) auto

text \<open>Relative paths without \<open>..\<close>: empty segments and dots disappear, the others stay.\<close>

definition kept_segments :: "string list \<Rightarrow> string list" where
  "kept_segments segs = filter (\<lambda>s. s \<noteq> [] \<and> s \<noteq> ''.'') segs"

lemma fold_clean_kept:
  "''..'' \<notin> set segs \<Longrightarrow> fold (clean_segment r) segs stack = rev (kept_segments segs) @ stack"
  by (induction segs arbitrary: stack) (auto simp: clean_segment_def kept_segments_def)

lemma Split_abs_path:
  assumes "segs \<noteq> []" "\<forall>s \<in> set segs. plain_segment s"
  shows "Split CHR ''/'' (abs_path segs) = [] # segs"
  using assms by (simp add: abs_path_def Split_Join plain_segment_def)

lemma Split_append_slash: "Split c (p @ c # s) = Split c p @ Split c s"
proof (induction p)
  case (Cons x p)
  then show ?case by (cases "Split c p") auto
qed simp

lemma clean_segment_Nil [simp]: "clean_segment r [] stack = stack"
  by (simp add: clean_segment_def)

text \<open>Cleaning an absolute path that is extended by a relative one.\<close>

lemma PathClean_abs_path_append:
  assumes "segs \<noteq> []" "\<forall>s \<in> set segs. plain_segment s" "''..'' \<notin> set (Split CHR ''/'' rel)"
  shows "PathClean (abs_path segs @ CHR ''/'' # rel) = abs_path (segs @ kept_segments (Split CHR ''/'' rel))"
proof -
  have "fold (clean_segment True) (Split CHR ''/'' (abs_path segs @ CHR ''/'' # rel)) []
      = rev (segs @ kept_segments (Split CHR ''/'' rel))"
    using assms
    by (simp add: Split_append_slash Split_abs_path fold_clean_plain fold_clean_kept)
  moreover have "abs_path segs @ CHR ''/'' # rel \<noteq> []" "hd (abs_path segs @ CHR ''/'' # rel) = CHR ''/''"
    by (simp_all add: abs_path_def)
  ultimately show ?thesis by (simp add: PathClean_def Let_def abs_path_def)
qed

lemma PathClean_abs_path [simp]:
  assumes "segs \<noteq> []" "\<forall>s \<in> set segs. plain_segment s"
  shows "PathClean (abs_path segs) = abs_path segs"
  using assms
  by (simp add: PathClean_def Let_def Split_abs_path fold_clean_plain)
    (simp add: abs_path_def)

lemma Join_append:
  "ps \<noteq> [] \<Longrightarrow> qs \<noteq> [] \<Longrightarrow> Join c (ps @ qs) = Join c ps @ c # Join c qs"
  by (induction c ps rule: Join.induct) (auto simp: Join_Cons)

lemma abs_path_append:
  "ps \<noteq> [] \<Longrightarrow> qs \<noteq> [] \<Longrightarrow> abs_path (ps @ qs) = abs_path ps @ CHR ''/'' # Join CHR ''/'' qs"
  by (simp add: abs_path_def Join_append)

lemma kept_plain [simp]:
  "(\<forall>s \<in> set segs. plain_segment s) \<Longrightarrow> kept_segments segs = segs"
  by (auto simp: kept_segments_def plain_segment_def filter_id_conv)

lemma kept_segments_slashless: "s \<in> set (kept_segments (Split CHR ''/'' rel)) \<Longrightarrow> CHR ''/'' \<notin> set s"
  by (auto simp: kept_segments_def dest: Split_parts)

text \<open>\<open>path.Join\<close> of an absolute path and plain segments is the path of all segments.\<close>

lemma PathJoin_segments:
  assumes "segs \<noteq> []" "rest \<noteq> []" "\<forall>s \<in> set segs \<union> set rest. plain_segment s"
  shows "PathJoin (abs_path segs # rest) = abs_path (segs @ rest)"
proof -
  have ne: "filter (\<lambda>e. e \<noteq> []) (abs_path segs # rest) = abs_path segs # rest"
    using assms(3) by (auto simp: abs_path_def plain_segment_def filter_id_conv)
  show ?thesis
    unfolding PathJoin_def ne Let_def
    using assms PathClean_abs_path [of "segs @ rest"] by (simp add: Join_Cons abs_path_append)
qed

text \<open>\<open>path.Join\<close> of an absolute path and a relative path without \<open>..\<close> stays below it.\<close>

lemma PathJoin_relative:
  assumes "segs \<noteq> []" "\<forall>s \<in> set segs. plain_segment s" "''..'' \<notin> set (Split CHR ''/'' rel)"
  shows "PathJoin [abs_path segs, rel] = abs_path (segs @ kept_segments (Split CHR ''/'' rel))"
proof (cases "rel = []")
  case True
  then show ?thesis using assms by (simp add: PathJoin_def abs_path_def kept_segments_def)
      (use PathClean_abs_path [OF assms(1,2)] in \<open>simp add: abs_path_def\<close>)
next
  case False
  then have "PathJoin [abs_path segs, rel] = PathClean (abs_path segs @ CHR ''/'' # rel)"
    by (simp add: PathJoin_def abs_path_def)
  then show ?thesis using PathClean_abs_path_append [OF assms] by simp
qed

lemma abs_path_below:
  assumes "segs \<noteq> []"
  shows "abs_path (segs @ more) = abs_path segs \<or> prefix (abs_path segs @ ''/'') (abs_path (segs @ more))"
  using assms by (cases "more = []") (auto simp: abs_path_append)

lemma Join_inject:
  assumes "ps \<noteq> []" "qs \<noteq> []" "\<And>p. p \<in> set ps \<union> set qs \<Longrightarrow> c \<notin> set p"
  shows "Join c ps = Join c qs \<longleftrightarrow> ps = qs"
  using assms Split_Join [of ps c] Split_Join [of qs c] by (metis UnCI)

lemma abs_path_inject:
  assumes "ps \<noteq> []" "qs \<noteq> []" "\<forall>p \<in> set ps \<union> set qs. plain_segment p"
  shows "abs_path ps = abs_path qs \<longleftrightarrow> ps = qs"
  using assms Join_inject [of ps qs "CHR ''/''"] by (simp add: abs_path_def plain_segment_def)

lemma abs_path_strictly_below:
  assumes "ps \<noteq> []" "qs \<noteq> []" "\<forall>p \<in> set ps \<union> set qs. plain_segment p"
  shows "prefix (abs_path ps @ ''/'') (abs_path qs) \<longleftrightarrow> (\<exists>more. more \<noteq> [] \<and> qs = ps @ more)"
proof
  assume "prefix (abs_path ps @ ''/'') (abs_path qs)"
  then obtain rest where "abs_path qs = abs_path ps @ CHR ''/'' # rest" by (auto simp: prefix_def)
  then have "Split CHR ''/'' (abs_path qs) = Split CHR ''/'' (abs_path ps) @ Split CHR ''/'' rest"
    by (simp add: Split_append_slash)
  then have "qs = ps @ Split CHR ''/'' rest" using assms by (simp add: Split_abs_path)
  then show "\<exists>more. more \<noteq> [] \<and> qs = ps @ more" by (rule exI [of _ "Split CHR ''/'' rest", OF conjI, rotated]) simp
next
  assume "\<exists>more. more \<noteq> [] \<and> qs = ps @ more"
  then show "prefix (abs_path ps @ ''/'') (abs_path qs)" using assms(1) by (auto simp: abs_path_append)
qed

text \<open>The general case of a relative path below an absolute one.\<close>

lemma PathClean_abs_path_rel:
  assumes "segs \<noteq> []" "\<forall>s \<in> set segs. plain_segment s"
  shows "PathClean (abs_path segs @ CHR ''/'' # rel) =
     abs_path (rev (fold (clean_segment True) (Split CHR ''/'' rel) (rev segs)))"
proof -
  have "abs_path segs @ CHR ''/'' # rel \<noteq> []" "hd (abs_path segs @ CHR ''/'' # rel) = CHR ''/''"
    by (simp_all add: abs_path_def)
  then show ?thesis
    using assms by (simp add: PathClean_def Let_def Split_append_slash Split_abs_path fold_clean_plain)
      (simp add: abs_path_def)
qed

text \<open>\<open>path.Dir\<close>: everything up to the last slash, cleaned.\<close>

definition PathDir :: "string \<Rightarrow> string" where
  "PathDir p = PathClean (rev (dropWhile (\<lambda>c. c \<noteq> CHR ''/'') (rev p)))"

lemma PathDir_abs_path [simp]:
  assumes "segs \<noteq> []" "\<forall>s \<in> set segs. plain_segment s" "plain_segment t"
  shows "PathDir (abs_path (segs @ [t])) = abs_path segs"
proof -
  have "\<forall>c \<in> set (rev t). c \<noteq> CHR ''/''" using assms(3) by (auto simp: plain_segment_def)
  then have "dropWhile (\<lambda>c. c \<noteq> CHR ''/'') (rev (abs_path (segs @ [t]))) = CHR ''/'' # rev (abs_path segs)"
    using assms(1) by (simp add: abs_path_append) (subst dropWhile_append2, auto)
  then show ?thesis
    using PathClean_abs_path_rel [OF assms(1,2), of "[]"] by (simp add: PathDir_def)
qed

section \<open>Relative paths\<close>

text \<open>Cleaning a relative path leaves dots-dots in front and plain segments after them.\<close>

lemma fold_clean_relative:
  assumes "\<forall>s \<in> set segs. CHR ''/'' \<notin> set s"
  shows "\<exists>k ps. fold (clean_segment False) segs (rev (replicate j ''..'' @ qs)) = rev (replicate k ''..'' @ ps)
     \<and> ((\<forall>q \<in> set qs. plain_segment q) \<longrightarrow> (\<forall>p \<in> set ps. plain_segment p))"
  using assms
proof (induction segs arbitrary: j qs)
  case (Cons s segs)
  have "\<exists>j' qs'. clean_segment False s (rev (replicate j ''..'' @ qs)) = rev (replicate j' ''..'' @ qs')
     \<and> ((\<forall>q \<in> set qs. plain_segment q) \<longrightarrow> (\<forall>p \<in> set qs'. plain_segment p))"
  proof (cases "s = [] \<or> s = ''.''")
    case True
    then show ?thesis by (auto simp: clean_segment_def)
  next
    case ne: False
    show ?thesis
    proof (cases "s = ''..''")
      case True
      show ?thesis
      proof (cases qs rule: rev_cases)
        case Nil
        then have "clean_segment False s (rev (replicate j ''..'' @ qs)) = rev (replicate (Suc j) ''..'' @ [])"
          using True by (cases j) (auto simp: clean_segment_def replicate_append_same)
        then show ?thesis by fastforce
      next
        case (snoc rs r)
        show ?thesis
        proof (cases "r = ''..''")
          case True
          then have "\<not> plain_segment r" by (simp add: plain_segment_def)
          then show ?thesis using \<open>s = ''..''\<close> snoc True
            by (intro exI [of _ j] exI [of _ "qs @ [''..'']"]) (simp add: clean_segment_def)
        next
          case False
          then show ?thesis using True snoc
            by (intro exI [of _ j] exI [of _ rs]) (simp add: clean_segment_def)
        qed
      qed
    next
      case False
      then have "plain_segment s" using ne Cons.prems by (simp add: plain_segment_def)
      then show ?thesis by (intro exI [of _ j] exI [of _ "qs @ [s]"]) simp
    qed
  qed
  then obtain j' qs' where step: "clean_segment False s (rev (replicate j ''..'' @ qs)) = rev (replicate j' ''..'' @ qs')"
    and plain: "(\<forall>q \<in> set qs. plain_segment q) \<longrightarrow> (\<forall>p \<in> set qs'. plain_segment p)" by blast
  show ?case using Cons.IH [of j' qs'] Cons.prems plain by (simp only: fold_simps step) auto
next
  case Nil
  then show ?case by (intro exI [of _ j] exI [of _ qs]) simp
qed

text \<open>A cleaned relative path that does not lead upwards is a sequence of plain segments.\<close>

lemma PathClean_relative:
  assumes "\<not> PathIsAbs p" "PathClean p \<noteq> ''.''" "PathClean p \<noteq> ''..''" "\<not> prefix ''../'' (PathClean p)"
  shows "\<exists>segs. segs \<noteq> [] \<and> (\<forall>s \<in> set segs. plain_segment s) \<and> PathClean p = Join CHR ''/'' segs"
proof -
  have p: "p \<noteq> []" using assms(2) by (intro notI) (simp add: PathClean_def)
  then have "hd p \<noteq> CHR ''/''" using assms(1) by (cases p) (auto simp: PathIsAbs_def)
  obtain k ps where f: "fold (clean_segment False) (Split CHR ''/'' p) [] = rev (replicate k ''..'' @ ps)"
    and ps: "\<forall>q \<in> set ps. plain_segment q"
    using fold_clean_relative [of "Split CHR ''/'' p" 0 "[]"] Split_parts by fastforce
  have clean: "PathClean p = (if replicate k ''..'' @ ps = [] then ''.'' else Join CHR ''/'' (replicate k ''..'' @ ps))"
    using p \<open>hd p \<noteq> CHR ''/''\<close> f by (simp add: PathClean_def Let_def)
  have "k = 0"
  proof (rule ccontr)
    assume "k \<noteq> 0"
    then obtain m where "k = Suc m" by (cases k) auto
    then have "PathClean p = ''..'' \<or> prefix ''../'' (PathClean p)"
      unfolding clean by (cases "replicate m ''..'' @ ps") (auto simp: Join_Cons)
    then show False using assms(3,4) by blast
  qed
  then show ?thesis using clean ps assms(2) by (cases "ps = []") auto
qed

lemma PathJoin_rel_segments:
  assumes "segs \<noteq> []" "\<forall>s \<in> set segs \<union> set rs. plain_segment s"
  shows "PathJoin [abs_path segs, Join CHR ''/'' rs] = abs_path (segs @ rs)"
proof (cases "rs = []")
  case True
  then show ?thesis using PathJoin_relative [of segs "[]"] assms by (simp add: kept_segments_def)
next
  case False
  then have "Split CHR ''/'' (Join CHR ''/'' rs) = rs" using assms(2) by (intro Split_Join) (auto simp: plain_segment_def)
  moreover have "''..'' \<notin> set rs" using assms(2) by (auto simp: plain_segment_def)
  ultimately show ?thesis using PathJoin_relative [of segs "Join CHR ''/'' rs"] assms by simp
qed

text \<open>The directory of a relative path without dots-dots keeps the segments before the last one.\<close>

lemma PathClean_kept:
  assumes "p \<noteq> []" "\<not> PathIsAbs p" "''..'' \<notin> set (Split CHR ''/'' p)"
  shows "PathClean p = (let ks = kept_segments (Split CHR ''/'' p) in if ks = [] then ''.'' else Join CHR ''/'' ks)"
proof -
  have "hd p \<noteq> CHR ''/''" using assms(1,2) by (cases p) (auto simp: PathIsAbs_def)
  then show ?thesis using assms(1,3) by (simp add: PathClean_def Let_def fold_clean_kept)
qed

lemma PathDir_relative:
  assumes "\<not> PathIsAbs rel" "''..'' \<notin> set (Split CHR ''/'' rel)"
  shows "PathDir rel = (let ks = kept_segments (butlast (Split CHR ''/'' rel)) in if ks = [] then ''.'' else Join CHR ''/'' ks)"
proof -
  obtain init t where split: "Split CHR ''/'' rel = init @ [t]" by (metis Split_nonempty rev_exhaust)
  have parts: "CHR ''/'' \<notin> set p" if "p \<in> set (init @ [t])" for p
    using that Split_parts [of p "CHR ''/''" rel] unfolding split by blast
  have rel: "rel = Join CHR ''/'' (init @ [t])" by (simp only: split [symmetric] Join_Split)
  have t: "\<forall>c \<in> set (rev t). c \<noteq> CHR ''/''" using parts [of t] by auto
  show ?thesis
  proof (cases "init = []")
    case True
    have none: "dropWhile (\<lambda>c. c \<noteq> CHR ''/'') (rev t) = []" using t dropWhile_eq_Nil_conv by blast
    have "rel = t" using rel True by simp
    then have "PathDir rel = PathClean []" by (simp only: PathDir_def none rev.simps)
    then show ?thesis using split True by (simp add: PathClean_def kept_segments_def)
  next
    case False
    have "dropWhile (\<lambda>c. c \<noteq> CHR ''/'') (rev rel) = CHR ''/'' # rev (Join CHR ''/'' init)"
      using t False unfolding rel by (simp add: Join_append) (subst dropWhile_append2, auto)
    then have dir: "PathDir rel = PathClean (Join CHR ''/'' init @ ''/'')" by (simp add: PathDir_def)
    have sp: "Split CHR ''/'' (Join CHR ''/'' init @ ''/'') = init @ [[]]"
      using Split_append_slash [of "CHR ''/''" "Join CHR ''/'' init" "[]"] Split_Join [OF False] parts by simp
    have "\<not> PathIsAbs (Join CHR ''/'' init @ ''/'')"
    proof
      assume "PathIsAbs (Join CHR ''/'' init @ ''/'')"
      then have "Join CHR ''/'' init = [] \<or> hd (Join CHR ''/'' init) = CHR ''/''" by (cases "Join CHR ''/'' init") (auto simp: PathIsAbs_def)
      then have "PathIsAbs rel" using False by (cases "Join CHR ''/'' init") (auto simp: rel Join_append PathIsAbs_def)
      then show False using assms(1) by contradiction
    qed
    then show ?thesis
      using PathClean_kept [of "Join CHR ''/'' init @ ''/''"] assms(2) unfolding dir sp split by (simp add: kept_segments_def)
  qed
qed

end
