(* ===== verification/AppSpec.thy ===== *)
theory AppSpec
  imports Release Secret Principal GoPaths
begin

text \<open>
  The application manifest (\<open>internal/domain/appspec.go\<close>, \<open>internal/domain/slot.go\<close>): the record and its
  validation. The paths derived from a manifest are in \<open>AppPaths\<close>.

  Go maps are association lists in the order they are iterated. The regular expressions are predicates
  on byte strings. \<open>url.Parse\<close> is the parameter \<open>urls\<close>: the scheme and the host of a text, or \<open>None\<close>
  when it is no URL. \<open>Validate\<close> changes the manifest it checks (it fills in defaults), so it returns the
  changed one; no caller looks at the manifest after an error.
\<close>

type_synonym url_parser = "string \<Rightarrow> (string \<times> string) option"

section \<open>Records\<close>

datatype RuntimeKind = RuntimeKindGo | RuntimeKindJava | RuntimeKindOther string

datatype UnpackStrategy = UnpackNone | UnpackTar | UnpackTarGz | UnpackZip | UnpackOther string

datatype ReadinessType = ReadinessTCP | ReadinessHTTP | ReadinessOther string

datatype RestartPolicy = RestartAlways | RestartOnFailure | RestartNo | RestartOther string

record SpecResources =
  CPUQuotaPercent :: int
  MemoryMaxBytes :: int

record SpecUnpack =
  Strategy :: UnpackStrategy
  StrategyExplicit :: bool
  StripComponents :: int

record SpecArtifact =
  SpArtifactID :: string
  SpDigest :: string
  SpVersion :: string
  FileName :: string
  Unpack :: SpecUnpack

record SpecReadiness =
  RdType :: ReadinessType
  RdTarget :: string
  ConsecutiveSuccesses :: int

record SpecSlot =
  SlPorts :: "int list"
  SlReadiness :: SpecReadiness
  SlEnvironment :: "(string \<times> string) list"

record SpecExec =
  ExArgv :: "string list"
  ExWorkingDirectory :: string
  RunUser :: string
  ExEnvironment :: "(string \<times> string) list"
  ExSecretEnvironment :: "(string \<times> SecretRef) list"
  ExPorts :: "int list"
  ExSlots :: "(Slot \<times> SpecSlot) list"

record SpecHealth =
  HlReadiness :: SpecReadiness
  StartTimeout :: duration
  StopTimeout :: duration

record SpecSystemd =
  UnitName :: string
  RestPolicy :: RestartPolicy

record SpecNginx =
  Listen :: int
  ServerName :: string
  NgUpstreamName :: string
  ObservationSeconds :: int
  DrainSeconds :: int

record ApplicationSpec =
  SpAPIVersion :: string
  SpKind :: string
  SpApplication :: string
  SpRuntime :: RuntimeKind
  SpArtifact :: SpecArtifact
  SpExec :: SpecExec
  SpHealth :: SpecHealth
  LogsDirectory :: string
  SpSystemd :: SpecSystemd
  SpResources :: SpecResources
  KeepLast :: int
  SpNginx :: SpecNginx

definition MaxCPUQuotaPercent :: int where "MaxCPUQuotaPercent = 10000"
definition MinMemoryMaxBytes :: int where "MinMemoryMaxBytes = 16 * 2 ^ 20"
definition MaxMemoryMaxBytes :: int where "MaxMemoryMaxBytes = 2 ^ 40"
definition DefaultKeepLast :: int where "DefaultKeepLast = 5"
definition MaxKeepReleases :: int where "MaxKeepReleases = 100"
definition DefaultStartTimeout :: duration where "DefaultStartTimeout = 60 * second"
definition DefaultStopTimeout :: duration where "DefaultStopTimeout = 30 * second"
definition MaxObservationSeconds :: int where "MaxObservationSeconds = 3600"
definition MaxDrainSeconds :: int where "MaxDrainSeconds = 300"

section \<open>Slots\<close>

definition Slots :: "Slot list" where "Slots = [SlotBlue, SlotGreen]"

definition Slot_Valid :: "Slot \<Rightarrow> bool" where
  "Slot_Valid s \<longleftrightarrow> s = SlotBlue \<or> s = SlotGreen"

definition Opposite :: "Slot \<Rightarrow> Slot" where
  "Opposite s = (if s = SlotBlue then SlotGreen else SlotBlue)"

fun slot_name :: "Slot \<Rightarrow> string" where
  "slot_name NoSlot = []"
| "slot_name SlotBlue = ''blue''"
| "slot_name SlotGreen = ''green''"
| "slot_name (SlotOther s) = s"

text \<open>\<open>strings.ToLower\<close> on the letters that matter: no character outside ASCII has a lower case in
  \<open>blue\<close>, \<open>green\<close> or one of the media types.\<close>

definition lower_char :: "char \<Rightarrow> char" where
  "lower_char c = (if CHR ''A'' \<le> c \<and> c \<le> CHR ''Z'' then char_of (of_char c + 32 :: nat) else c)"

definition ParseSlot :: "string \<Rightarrow> ErrorCode + Slot" where
  "ParseSlot raw =
     (let name = map lower_char (TrimSpace raw)
      in if name = ''blue'' then Inr SlotBlue
         else if name = ''green'' then Inr SlotGreen
         else Inl CodeManifestInvalid)"

definition Configured :: "SpecNginx \<Rightarrow> bool" where
  "Configured n \<longleftrightarrow> 0 < Listen n"

definition BlueGreen :: "ApplicationSpec \<Rightarrow> bool" where
  "BlueGreen s \<longleftrightarrow> ExSlots (SpExec s) \<noteq> []"

definition SlotsFor :: "ApplicationSpec \<Rightarrow> Slot list" where
  "SlotsFor s = (if ExSlots (SpExec s) = [] then [] else Slots)"

definition SlotOf :: "ApplicationSpec \<Rightarrow> Slot \<Rightarrow> SpecSlot option" where
  "SlotOf s slot = map_of (ExSlots (SpExec s)) slot"

definition zero_readiness :: SpecReadiness where
  "zero_readiness = \<lparr>RdType = ReadinessOther [], RdTarget = [], ConsecutiveSuccesses = 0\<rparr>"

definition zero_slot :: SpecSlot where
  "zero_slot = \<lparr>SlPorts = [], SlReadiness = zero_readiness, SlEnvironment = []\<rparr>"

text \<open>Indexing the map: the zero value for a missing key.\<close>

definition slot_spec :: "SpecExec \<Rightarrow> Slot \<Rightarrow> SpecSlot" where
  "slot_spec e slot = (case map_of (ExSlots e) slot of None \<Rightarrow> zero_slot | Some s \<Rightarrow> s)"

definition SlotReadiness :: "ApplicationSpec \<Rightarrow> Slot \<Rightarrow> SpecReadiness" where
  "SlotReadiness s slot = SlReadiness (slot_spec (SpExec s) slot)"

definition ReadinessFor :: "ApplicationSpec \<Rightarrow> Slot \<Rightarrow> SpecReadiness" where
  "ReadinessFor s slot = (if slot = NoSlot then HlReadiness (SpHealth s) else SlotReadiness s slot)"

definition SlotPorts :: "ApplicationSpec \<Rightarrow> Slot \<Rightarrow> int list" where
  "SlotPorts s slot = SlPorts (slot_spec (SpExec s) slot)"

text \<open>The merged environment as a map: the slot's values override those of the application.\<close>

definition SlotEnvironment :: "ApplicationSpec \<Rightarrow> Slot \<Rightarrow> (string, string) map" where
  "SlotEnvironment s slot = map_of (ExEnvironment (SpExec s)) ++ map_of (SlEnvironment (slot_spec (SpExec s) slot))"

section \<open>Names\<close>

definition upper :: "char \<Rightarrow> bool" where "upper c \<longleftrightarrow> CHR ''A'' \<le> c \<and> c \<le> CHR ''Z''"
definition lower :: "char \<Rightarrow> bool" where "lower c \<longleftrightarrow> CHR ''a'' \<le> c \<and> c \<le> CHR ''z''"
definition digit :: "char \<Rightarrow> bool" where "digit c \<longleftrightarrow> CHR ''0'' \<le> c \<and> c \<le> CHR ''9''"

definition alnum :: "char \<Rightarrow> bool" where "alnum c \<longleftrightarrow> upper c \<or> lower c \<or> digit c"

text \<open>An anchored pattern of one class for the first character and another for at most \<open>n\<close> more.\<close>

definition pattern :: "(char \<Rightarrow> bool) \<Rightarrow> (char \<Rightarrow> bool) \<Rightarrow> nat \<Rightarrow> string \<Rightarrow> bool" where
  "pattern first rest n s \<longleftrightarrow>
     (case s of [] \<Rightarrow> False | c # cs \<Rightarrow> first c \<and> list_all rest cs \<and> length cs \<le> n)"

definition applicationNamePattern :: "string \<Rightarrow> bool" where
  "applicationNamePattern = pattern alnum (\<lambda>c. alnum c \<or> c \<in> set ''._-'') 63"

definition runUserPattern :: "string \<Rightarrow> bool" where
  "runUserPattern = pattern (\<lambda>c. lower c \<or> c = CHR ''_'') (\<lambda>c. lower c \<or> digit c \<or> c \<in> set ''_-'') 31"

definition unit_suffix :: string where "unit_suffix = ''.service''"

definition unitNamePattern :: "string \<Rightarrow> bool" where
  "unitNamePattern s \<longleftrightarrow> suffix unit_suffix s \<and> length unit_suffix < length s
     \<and> list_all (\<lambda>c. alnum c \<or> c \<in> set ''_.@-'') (take (length s - length unit_suffix) s)"

definition versionPattern :: "string \<Rightarrow> bool" where
  "versionPattern = pattern alnum (\<lambda>c. alnum c \<or> c \<in> set ''._+-'') 63"

definition upstreamNamePattern :: "string \<Rightarrow> bool" where
  "upstreamNamePattern = pattern alnum (\<lambda>c. alnum c \<or> c \<in> set ''_-'') 63"

definition serverNamePattern :: "string \<Rightarrow> bool" where
  "serverNamePattern = pattern alnum (\<lambda>c. alnum c \<or> c \<in> set ''._*:-'') 255"

definition validEnvName :: "string \<Rightarrow> bool" where
  "validEnvName name \<longleftrightarrow>
     (case name of [] \<Rightarrow> False
      | c # cs \<Rightarrow> (upper c \<or> lower c \<or> c = CHR ''_'')
                 \<and> list_all (\<lambda>c. upper c \<or> lower c \<or> digit c \<or> c = CHR ''_'') cs)"

section \<open>Validation\<close>

text \<open>Whether \<open>net.SplitHostPort\<close> succeeds: a host and a port behind the last colon, brackets only
  around the whole host.\<close>

definition SplitHostPort_ok :: "string \<Rightarrow> bool" where
  "SplitHostPort_ok hp \<longleftrightarrow>
     CHR '':'' \<in> set hp \<and>
     (let port = rev (takeWhile (\<lambda>c. c \<noteq> CHR '':'') (rev hp));
          i = length hp - length port - 1;
          nobrackets = (\<lambda>s. CHR ''['' \<notin> set s \<and> CHR '']'' \<notin> set s)
      in if hd hp = CHR ''['' then
           (let upto = takeWhile (\<lambda>c. c \<noteq> CHR '']'') hp
            in CHR '']'' \<in> set hp \<and> length upto + 1 = i
               \<and> CHR ''['' \<notin> set (tl hp) \<and> CHR '']'' \<notin> set (drop i hp))
         else CHR '':'' \<notin> set (take i hp) \<and> nobrackets hp)"

definition validateReadiness :: "url_parser \<Rightarrow> SpecReadiness \<Rightarrow> ErrorCode option" where
  "validateReadiness urls r =
     first_err [
       (case RdType r of
          ReadinessTCP \<Rightarrow> fail_if (\<not> SplitHostPort_ok (RdTarget r)) CodeManifestInvalid
        | ReadinessHTTP \<Rightarrow>
            (case urls (RdTarget r) of
               None \<Rightarrow> Some CodeManifestInvalid
             | Some (scheme, host) \<Rightarrow>
                 first_err [
                   fail_if (scheme = [] \<or> host = []) CodeManifestInvalid,
                   fail_if (scheme \<noteq> ''http'' \<and> scheme \<noteq> ''https'') CodeManifestInvalid])
        | ReadinessOther _ \<Rightarrow> Some CodeManifestInvalid),
       fail_if (ConsecutiveSuccesses r < 0) CodeManifestInvalid]"

definition port_ok :: "int \<Rightarrow> bool" where "port_ok p \<longleftrightarrow> 1 \<le> p \<and> p \<le> 65535"

text \<open>The ports of the slots, with the set of those seen so far.\<close>

fun check_slot_ports :: "int list \<Rightarrow> int list \<Rightarrow> ErrorCode + int list" where
  "check_slot_ports seen [] = Inr seen"
| "check_slot_ports seen (p # ps) =
     (if \<not> port_ok p then Inl CodeManifestInvalid
      else if p \<in> set seen then Inl CodeManifestInvalid
      else check_slot_ports (p # seen) ps)"

definition check_slot_env :: "SpecExec \<Rightarrow> string \<times> string \<Rightarrow> ErrorCode option" where
  "check_slot_env e entry =
     first_err [
       fail_if (\<not> validEnvName (fst entry)) CodeManifestInvalid,
       fail_if (fst entry \<in> fst ` set (ExSecretEnvironment e)) CodeManifestConflict]"

fun check_slots :: "url_parser \<Rightarrow> SpecExec \<Rightarrow> int list \<Rightarrow> Slot list \<Rightarrow> ErrorCode option" where
  "check_slots urls e seen [] = None"
| "check_slots urls e seen (slot # slots) =
     (let sp = slot_spec e slot
      in if SlPorts sp = [] then Some CodeManifestInvalid
         else case check_slot_ports seen (SlPorts sp) of
           Inl err \<Rightarrow> Some err
         | Inr seen' \<Rightarrow>
             (case first_err [validateReadiness urls (SlReadiness sp),
                              first_err (map (check_slot_env e) (SlEnvironment sp))] of
                Some err \<Rightarrow> Some err
              | None \<Rightarrow> check_slots urls e seen' slots))"

definition validateSlots :: "url_parser \<Rightarrow> SpecExec \<Rightarrow> ErrorCode option" where
  "validateSlots urls e =
     (if ExSlots e = [] then None
      else first_err [
        fail_if (ExPorts e \<noteq> []) CodeManifestInvalid,
        fail_if (list_ex (\<lambda>slot. map_of (ExSlots e) slot = None) Slots) CodeManifestInvalid,
        fail_if (list_ex (\<lambda>entry. \<not> Slot_Valid (fst entry)) (ExSlots e)) CodeManifestInvalid,
        check_slots urls e [] Slots])"

definition check_app_secret :: "SpecExec \<Rightarrow> string \<times> SecretRef \<Rightarrow> ErrorCode option" where
  "check_app_secret e entry =
     first_err [
       fail_if (\<not> validEnvName (fst entry)) CodeManifestInvalid,
       fail_if (fst entry \<in> fst ` set (ExEnvironment e)) CodeManifestConflict]"

definition SpecExec_validate :: "url_parser \<Rightarrow> SpecExec \<Rightarrow> ErrorCode option" where
  "SpecExec_validate urls e =
     first_err [
       fail_if (ExArgv e = []) CodeManifestInvalid,
       fail_if ([] \<in> set (ExArgv e)) CodeManifestInvalid,
       fail_if (''..'' \<in> set (Split CHR ''/'' (hd (ExArgv e)))) CodeManifestInvalid,
       fail_if (\<not> runUserPattern (RunUser e)) CodeManifestInvalid,
       fail_if (\<not> PathIsAbs (ExWorkingDirectory e)) CodeManifestInvalid,
       fail_if (list_ex (\<lambda>p. \<not> port_ok p) (ExPorts e)) CodeManifestInvalid,
       validateSlots urls e,
       first_err (map (check_app_secret e) (ExSecretEnvironment e)),
       fail_if (list_ex (\<lambda>entry. \<not> validEnvName (fst entry)) (ExEnvironment e)) CodeManifestInvalid,
       fail_if (list_ex (\<lambda>entry. SecretRef_Validate (snd entry) \<noteq> None) (ExSecretEnvironment e))
         CodeManifestInvalid]"

definition validateArtifactFileName :: "string \<Rightarrow> ErrorCode option" where
  "validateArtifactFileName name =
     (if name = [] then None
      else let cleaned = PathClean name
           in first_err [
             fail_if (PathIsAbs name \<or> prefix ''/'' name) CodeManifestInvalid,
             fail_if (cleaned = ''.'' \<or> cleaned = ''..'' \<or> prefix ''../'' cleaned) CodeManifestInvalid,
             fail_if (cleaned \<noteq> name) CodeManifestInvalid])"

definition known_strategy :: "UnpackStrategy \<Rightarrow> bool" where
  "known_strategy s \<longleftrightarrow> (case s of UnpackOther _ \<Rightarrow> False | _ \<Rightarrow> True)"

definition artifact_strategy :: "SpecArtifact \<Rightarrow> UnpackStrategy" where
  "artifact_strategy a =
     (if Strategy (Unpack a) = UnpackOther [] then UnpackNone else Strategy (Unpack a))"

definition check_artifact :: "SpecArtifact \<Rightarrow> UnpackStrategy \<Rightarrow> ErrorCode option" where
  "check_artifact a strategy =
     (let hasID = (\<not> blank (SpArtifactID a)); hasDigest = (\<not> blank (SpDigest a))
      in first_err [
           fail_if (hasID = hasDigest) CodeManifestInvalid,
           fail_if (hasDigest \<and> Digest_Validate (SpDigest a) \<noteq> None) CodeManifestInvalid,
           fail_if (SpVersion a \<noteq> [] \<and> \<not> versionPattern (SpVersion a)) CodeManifestInvalid,
           fail_if (\<not> known_strategy strategy) CodeManifestInvalid,
           fail_if (StripComponents (Unpack a) < 0) CodeManifestInvalid,
           fail_if (strategy = UnpackNone \<and> 0 < StripComponents (Unpack a)) CodeManifestInvalid,
           fail_if (FileName a \<noteq> [] \<and> strategy \<noteq> UnpackNone) CodeManifestInvalid,
           validateArtifactFileName (FileName a)])"

definition SpecArtifact_validate :: "SpecArtifact \<Rightarrow> ErrorCode + SpecArtifact" where
  "SpecArtifact_validate a =
     (case check_artifact a (artifact_strategy a) of
        Some err \<Rightarrow> Inl err
      | None \<Rightarrow> Inr (a\<lparr>Unpack := (Unpack a)\<lparr>Strategy := artifact_strategy a\<rparr>\<rparr>))"

definition SpecHealth_validate :: "url_parser \<Rightarrow> bool \<Rightarrow> SpecHealth \<Rightarrow> ErrorCode option" where
  "SpecHealth_validate urls blueGreen h =
     first_err [
       (if \<not> blueGreen then fail_if (validateReadiness urls (HlReadiness h) \<noteq> None) CodeManifestInvalid
        else None),
       fail_if (StartTimeout h < 0 \<or> StopTimeout h < 0) CodeManifestInvalid]"

definition SpecLogs_validate :: "string \<Rightarrow> ErrorCode option" where
  "SpecLogs_validate directory = fail_if (\<not> PathIsAbs directory) CodeManifestInvalid"

definition RestartPolicy_known :: "RestartPolicy \<Rightarrow> bool" where
  "RestartPolicy_known p \<longleftrightarrow> p \<in> {RestartAlways, RestartOnFailure, RestartNo, RestartOther []}"

definition SpecSystemd_validate :: "SpecSystemd \<Rightarrow> ErrorCode option" where
  "SpecSystemd_validate s =
     (if UnitName s = [] then None
      else first_err [
        fail_if (\<not> unitNamePattern (UnitName s)) CodeManifestInvalid,
        fail_if (\<not> RestartPolicy_known (RestPolicy s)) CodeManifestInvalid])"

definition SpecResources_validate :: "SpecResources \<Rightarrow> ErrorCode option" where
  "SpecResources_validate r =
     first_err [
       fail_if (CPUQuotaPercent r < 0 \<or> MaxCPUQuotaPercent < CPUQuotaPercent r) CodeManifestInvalid,
       (if MemoryMaxBytes r = 0 then None
        else fail_if (MemoryMaxBytes r < MinMemoryMaxBytes \<or> MaxMemoryMaxBytes < MemoryMaxBytes r)
               CodeManifestInvalid)]"

definition SpecRelease_validate :: "int \<Rightarrow> ErrorCode + int" where
  "SpecRelease_validate keepLast =
     (let filled = (if keepLast = 0 then DefaultKeepLast else keepLast)
      in if filled < 1 \<or> MaxKeepReleases < filled then Inl CodeManifestInvalid else Inr filled)"

definition validateBlueGreen :: "ApplicationSpec \<Rightarrow> ErrorCode option" where
  "validateBlueGreen s =
     (if \<not> BlueGreen s then fail_if (Configured (SpNginx s)) CodeManifestInvalid
      else first_err [
        fail_if (UnitName (SpSystemd s) \<noteq> []) CodeManifestInvalid,
        fail_if (RdType (HlReadiness (SpHealth s)) \<noteq> ReadinessOther []
                 \<or> RdTarget (HlReadiness (SpHealth s)) \<noteq> []) CodeManifestInvalid,
        fail_if (\<not> Configured (SpNginx s)) CodeManifestInvalid])"

definition SpecNginx_validate :: "SpecNginx \<Rightarrow> ApplicationSpec \<Rightarrow> ErrorCode option" where
  "SpecNginx_validate n s =
     (if \<not> Configured n then None
      else first_err [
        fail_if (\<not> port_ok (Listen n)) CodeManifestInvalid,
        fail_if (list_ex (\<lambda>slot. case map_of (ExSlots (SpExec s)) slot of
                                   None \<Rightarrow> False | Some sp \<Rightarrow> Listen n \<in> set (SlPorts sp)) Slots)
          CodeManifestInvalid,
        fail_if (NgUpstreamName n \<noteq> [] \<and> \<not> upstreamNamePattern (NgUpstreamName n)) CodeManifestInvalid,
        fail_if (ServerName n \<noteq> [] \<and> \<not> serverNamePattern (ServerName n)) CodeManifestInvalid,
        fail_if (ObservationSeconds n < 0 \<or> MaxObservationSeconds < ObservationSeconds n) CodeManifestInvalid,
        fail_if (DrainSeconds n < 0 \<or> MaxDrainSeconds < DrainSeconds n) CodeManifestInvalid])"

definition fill_successes :: "SpecReadiness \<Rightarrow> SpecReadiness" where
  "fill_successes r = (if ConsecutiveSuccesses r = 0 then r\<lparr>ConsecutiveSuccesses := 1\<rparr> else r)"

definition fill_slots :: "SpecExec \<Rightarrow> SpecExec" where
  "fill_slots e = e\<lparr>ExSlots := map (\<lambda>(slot, sp). (slot, sp\<lparr>SlReadiness := fill_successes (SlReadiness sp)\<rparr>)) (ExSlots e)\<rparr>"

definition default_systemd :: "ApplicationSpec \<Rightarrow> SpecSystemd" where
  "default_systemd s =
     (let sd = SpSystemd s
      in \<lparr>UnitName = (if UnitName sd = [] \<and> \<not> BlueGreen s then SpApplication s @ unit_suffix else UnitName sd),
          RestPolicy = (if RestPolicy sd = RestartOther [] then RestartOnFailure else RestPolicy sd)\<rparr>)"

definition default_health :: "SpecHealth \<Rightarrow> SpecHealth" where
  "default_health h =
     \<lparr>HlReadiness = fill_successes (HlReadiness h),
      StartTimeout = (if StartTimeout h = 0 then DefaultStartTimeout else StartTimeout h),
      StopTimeout = (if StopTimeout h = 0 then DefaultStopTimeout else StopTimeout h)\<rparr>"

definition applyDefaults :: "ApplicationSpec \<Rightarrow> ApplicationSpec" where
  "applyDefaults s = s\<lparr>SpSystemd := default_systemd s, SpHealth := default_health (SpHealth s),
     SpExec := fill_slots (SpExec s)\<rparr>"

definition ApplicationSpec_Validate :: "url_parser \<Rightarrow> ApplicationSpec \<Rightarrow> ErrorCode + ApplicationSpec" where
  "ApplicationSpec_Validate urls s =
     (case first_err [
        fail_if (\<not> applicationNamePattern (SpApplication s)) CodeManifestInvalid,
        fail_if (SpRuntime s \<noteq> RuntimeKindGo \<and> SpRuntime s \<noteq> RuntimeKindJava) CodeManifestInvalid]
      of Some err \<Rightarrow> Inl err
       | None \<Rightarrow>
      bind_res (SpecArtifact_validate (SpArtifact s)) (\<lambda>artifact.
        case first_err [
          SpecExec_validate urls (SpExec s),
          SpecHealth_validate urls (BlueGreen s) (SpHealth s),
          SpecLogs_validate (LogsDirectory s),
          SpecSystemd_validate (SpSystemd s),
          SpecResources_validate (SpResources s)]
        of Some err \<Rightarrow> Inl err
         | None \<Rightarrow>
        bind_res (SpecRelease_validate (KeepLast s)) (\<lambda>keepLast.
          let s' = s\<lparr>SpArtifact := artifact, KeepLast := keepLast\<rparr>
          in case first_err [validateBlueGreen s', SpecNginx_validate (SpNginx s') s'] of
               Some err \<Rightarrow> Inl err
             | None \<Rightarrow> Inr (applyDefaults s'))))"

section \<open>What is accepted\<close>

lemma Validate_Inr:
  "ApplicationSpec_Validate urls s = Inr s' \<longleftrightarrow>
     applicationNamePattern (SpApplication s) \<and> (SpRuntime s = RuntimeKindGo \<or> SpRuntime s = RuntimeKindJava)
     \<and> (\<exists>a k. SpecArtifact_validate (SpArtifact s) = Inr a \<and> SpecRelease_validate (KeepLast s) = Inr k
          \<and> s' = applyDefaults (s\<lparr>SpArtifact := a, KeepLast := k\<rparr>))
     \<and> SpecExec_validate urls (SpExec s) = None \<and> SpecHealth_validate urls (BlueGreen s) (SpHealth s) = None
     \<and> SpecLogs_validate (LogsDirectory s) = None \<and> SpecSystemd_validate (SpSystemd s) = None
     \<and> SpecResources_validate (SpResources s) = None
     \<and> validateBlueGreen s = None \<and> SpecNginx_validate (SpNginx s) s = None"
proof -
  have [simp]: "validateBlueGreen (s\<lparr>SpArtifact := a, KeepLast := k\<rparr>) = validateBlueGreen s"
    "SpecNginx_validate n (s\<lparr>SpArtifact := a, KeepLast := k\<rparr>) = SpecNginx_validate n s" for a k n
    by (simp_all add: validateBlueGreen_def BlueGreen_def SpecNginx_validate_def)
  show ?thesis
    by (auto simp: ApplicationSpec_Validate_def Let_def bind_res_eq_Inr first_err_Cons fail_if_def split: option.splits if_splits)
qed

lemma SpecArtifact_validate_again:
  assumes "SpecArtifact_validate a = Inr a'"
  shows "SpecArtifact_validate a' = Inr a'"
proof -
  from assms have a': "a' = a\<lparr>Unpack := (Unpack a)\<lparr>Strategy := artifact_strategy a\<rparr>\<rparr>"
    and ok: "check_artifact a (artifact_strategy a) = None"
    by (auto simp: SpecArtifact_validate_def split: option.splits)
  have "artifact_strategy a' = artifact_strategy a" by (simp add: a' artifact_strategy_def)
  moreover have "check_artifact a' st = check_artifact a st" for st by (simp add: a' check_artifact_def)
  ultimately show ?thesis using ok by (simp add: SpecArtifact_validate_def) (simp add: a')
qed

lemma SpecRelease_validate_again: "SpecRelease_validate k = Inr k' \<Longrightarrow> SpecRelease_validate k' = Inr k'"
  by (auto simp: SpecRelease_validate_def DefaultKeepLast_def MaxKeepReleases_def split: if_splits)

lemma fill_successes_simps [simp]:
  "RdType (fill_successes r) = RdType r" "RdTarget (fill_successes r) = RdTarget r"
  "fill_successes (fill_successes r) = fill_successes r"
  by (simp_all add: fill_successes_def)

lemma validateReadiness_fill [simp]:
  "validateReadiness urls (fill_successes r) = validateReadiness urls r"
proof -
  have "ConsecutiveSuccesses (fill_successes r) < 0 \<longleftrightarrow> ConsecutiveSuccesses r < 0"
    by (simp add: fill_successes_def)
  then show ?thesis by (cases "RdType r") (simp_all only: validateReadiness_def fill_successes_simps)
qed

text \<open>Filling in the number of successes does not change what the checks see of the slots.\<close>

lemma map_of_fill_slots [simp]:
  "map_of (ExSlots (fill_slots e)) slot =
     map_option (\<lambda>sp. sp\<lparr>SlReadiness := fill_successes (SlReadiness sp)\<rparr>) (map_of (ExSlots e) slot)"
  by (simp add: fill_slots_def map_of_map)

lemma fill_slots_simps [simp]:
  "ExArgv (fill_slots e) = ExArgv e" "ExWorkingDirectory (fill_slots e) = ExWorkingDirectory e"
  "RunUser (fill_slots e) = RunUser e" "ExEnvironment (fill_slots e) = ExEnvironment e"
  "ExSecretEnvironment (fill_slots e) = ExSecretEnvironment e" "ExPorts (fill_slots e) = ExPorts e"
  "ExSlots (fill_slots e) = [] \<longleftrightarrow> ExSlots e = []"
  "fst ` set (ExSlots (fill_slots e)) = fst ` set (ExSlots e)"
  "fill_slots (fill_slots e) = fill_slots e"
  by (auto simp: fill_slots_def image_image split_def)

lemma slot_spec_fill:
  "SlPorts (slot_spec (fill_slots e) slot) = SlPorts (slot_spec e slot)"
  "SlEnvironment (slot_spec (fill_slots e) slot) = SlEnvironment (slot_spec e slot)"
  "validateReadiness urls (SlReadiness (slot_spec (fill_slots e) slot))
     = validateReadiness urls (SlReadiness (slot_spec e slot))"
  by (simp_all add: slot_spec_def split: option.split)

lemma check_slots_fill: "check_slots urls (fill_slots e) seen slots = check_slots urls e seen slots"
proof -
  have env: "check_slot_env (fill_slots e) = check_slot_env e" by (rule ext) (simp add: check_slot_env_def)
  show ?thesis
    by (induction slots arbitrary: seen)
      (auto simp: slot_spec_fill env Let_def cong: if_cong split: sum.split option.split)
qed

lemma SpecExec_validate_fill: "SpecExec_validate urls (fill_slots e) = SpecExec_validate urls e"
proof -
  have keys: "list_ex (\<lambda>entry. \<not> Slot_Valid (fst entry)) xs \<longleftrightarrow> (\<exists>k \<in> fst ` set xs. \<not> Slot_Valid k)"
    for xs :: "(Slot \<times> SpecSlot) list" by (auto simp: list_ex_iff)
  have slots: "validateSlots urls (fill_slots e) = validateSlots urls e"
    unfolding validateSlots_def keys by (simp add: check_slots_fill)
  have secret: "check_app_secret (fill_slots e) = check_app_secret e" by (rule ext) (simp add: check_app_secret_def)
  show ?thesis by (simp add: SpecExec_validate_def slots secret)
qed

lemma applyDefaults_fields [simp]:
  "SpApplication (applyDefaults s) = SpApplication s" "SpRuntime (applyDefaults s) = SpRuntime s"
  "SpArtifact (applyDefaults s) = SpArtifact s" "SpExec (applyDefaults s) = fill_slots (SpExec s)"
  "LogsDirectory (applyDefaults s) = LogsDirectory s" "SpResources (applyDefaults s) = SpResources s"
  "KeepLast (applyDefaults s) = KeepLast s" "SpNginx (applyDefaults s) = SpNginx s"
  "SpHealth (applyDefaults s) = default_health (SpHealth s)" "SpSystemd (applyDefaults s) = default_systemd s"
  "BlueGreen (applyDefaults s) = BlueGreen s"
  by (simp_all add: applyDefaults_def BlueGreen_def)

lemma default_health_again [simp]: "default_health (default_health h) = default_health h"
  by (simp add: default_health_def DefaultStartTimeout_def DefaultStopTimeout_def duration_defs)

lemma default_systemd_again [simp]: "default_systemd (applyDefaults s) = default_systemd s"
  by (simp add: default_systemd_def [of "applyDefaults s"] Let_def) (simp add: default_systemd_def Let_def unit_suffix_def)

lemma applyDefaults_again [simp]: "applyDefaults (applyDefaults s) = applyDefaults s"
  unfolding applyDefaults_def [of "applyDefaults s"] applyDefaults_fields default_health_again default_systemd_again
    fill_slots_simps
  by (simp add: applyDefaults_def)

lemma unitNamePattern_default:
  assumes "applicationNamePattern a"
  shows "unitNamePattern (a @ unit_suffix)"
proof -
  have "a \<noteq> []" "list_all (\<lambda>c. alnum c \<or> c \<in> set ''._-'') a"
    using assms by (auto simp: applicationNamePattern_def pattern_def split: list.splits)
  then show ?thesis by (auto simp: unitNamePattern_def list_all_iff suffix_def)
qed

lemma check_slot_ports_Inr:
  "check_slot_ports seen ps = Inr seen' \<longleftrightarrow>
     (\<forall>p \<in> set ps. port_ok p) \<and> distinct ps \<and> set ps \<inter> set seen = {} \<and> seen' = rev ps @ seen"
  by (induction ps arbitrary: seen) auto

lemma check_slots_None:
  "check_slots urls e seen [a, b] = None \<Longrightarrow>
     SlPorts (slot_spec e a) \<noteq> [] \<and> SlPorts (slot_spec e b) \<noteq> []
     \<and> (\<forall>p \<in> set (SlPorts (slot_spec e a)) \<union> set (SlPorts (slot_spec e b)). port_ok p)
     \<and> distinct (SlPorts (slot_spec e a) @ SlPorts (slot_spec e b))"
  by (auto simp: Let_def check_slot_ports_Inr split: if_splits sum.splits option.splits)

lemma systemd_again:
  assumes "SpecSystemd_validate sd = None" "unitNamePattern unit" "bg \<Longrightarrow> UnitName sd = []"
    and "sd' = \<lparr>UnitName = (if UnitName sd = [] \<and> \<not> bg then unit else UnitName sd),
      RestPolicy = (if RestPolicy sd = RestartOther [] then RestartOnFailure else RestPolicy sd)\<rparr>"
  shows "SpecSystemd_validate sd' =
     (if RestartPolicy_known (RestPolicy sd) \<or> bg then None else Some CodeManifestInvalid)"
proof -
  have ne: "unit \<noteq> []" using assms(2) by (auto simp: unitNamePattern_def)
  have known: "RestartPolicy_known (if RestPolicy sd = RestartOther [] then RestartOnFailure else RestPolicy sd)
      \<longleftrightarrow> RestartPolicy_known (RestPolicy sd)" by (simp add: RestartPolicy_known_def)
  show ?thesis
  proof (cases "UnitName sd = []")
    case True
    then show ?thesis using ne assms(2)
      by (simp add: assms(4) SpecSystemd_validate_def known first_err_Cons fail_if_def)
  next
    case False
    then show ?thesis using assms(1,3)
      by (auto simp: assms(4) SpecSystemd_validate_def known first_err_Cons_None)
  qed
qed

text \<open>Validating again what was accepted.\<close>

lemma validate_again:
  assumes "ApplicationSpec_Validate urls s = Inr s'"
  shows "ApplicationSpec_Validate urls s' =
     (if RestartPolicy_known (RestPolicy (SpSystemd s)) \<or> BlueGreen s then Inr s' else Inl CodeManifestInvalid)"
proof -
  from assms obtain a k where s': "s' = applyDefaults (s\<lparr>SpArtifact := a, KeepLast := k\<rparr>)"
    and a: "SpecArtifact_validate (SpArtifact s) = Inr a" and k: "SpecRelease_validate (KeepLast s) = Inr k"
    and ok: "applicationNamePattern (SpApplication s)" "SpRuntime s = RuntimeKindGo \<or> SpRuntime s = RuntimeKindJava"
      "SpecExec_validate urls (SpExec s) = None" "SpecHealth_validate urls (BlueGreen s) (SpHealth s) = None"
      "SpecLogs_validate (LogsDirectory s) = None" "SpecSystemd_validate (SpSystemd s) = None"
      "SpecResources_validate (SpResources s) = None"
      "validateBlueGreen s = None" "SpecNginx_validate (SpNginx s) s = None"
    unfolding Validate_Inr by blast
  have same [simp]: "SpArtifact s' = a" "KeepLast s' = k" "SpApplication s' = SpApplication s"
    "SpRuntime s' = SpRuntime s" "SpExec s' = fill_slots (SpExec s)" "LogsDirectory s' = LogsDirectory s"
    "SpResources s' = SpResources s" "SpNginx s' = SpNginx s"
    by (simp_all add: s')
  have bg [simp]: "BlueGreen s' = BlueGreen s" by (simp add: s') (simp add: BlueGreen_def)
  have "BlueGreen s \<Longrightarrow> UnitName (SpSystemd s) = []"
    using ok(8) by (simp add: validateBlueGreen_def first_err_Cons_None split: if_splits)
  moreover have "SpSystemd s' = \<lparr>UnitName = (if UnitName (SpSystemd s) = [] \<and> \<not> BlueGreen s
        then SpApplication s @ unit_suffix else UnitName (SpSystemd s)),
      RestPolicy = (if RestPolicy (SpSystemd s) = RestartOther [] then RestartOnFailure else RestPolicy (SpSystemd s))\<rparr>"
    by (simp add: s' default_systemd_def Let_def BlueGreen_def)
  ultimately have sys: "SpecSystemd_validate (SpSystemd s') =
      (if RestartPolicy_known (RestPolicy (SpSystemd s)) \<or> BlueGreen s then None else Some CodeManifestInvalid)"
    by (rule systemd_again [OF ok(6) unitNamePattern_default [OF ok(1)]])
  have health: "SpecHealth_validate urls (BlueGreen s) (SpHealth s') = None"
    using ok(4) by (auto simp: s' default_health_def SpecHealth_validate_def first_err_Cons_None
        DefaultStartTimeout_def DefaultStopTimeout_def duration_defs split: if_splits)
  have slots: "validateBlueGreen s' = None"
    using ok(8) by (auto simp: validateBlueGreen_def first_err_Cons_None split: if_splits)
      (auto simp: s' default_systemd_def default_health_def Let_def BlueGreen_def)
  have nginx: "SpecNginx_validate (SpNginx s) s' = None"
    using ok(9) by (simp add: SpecNginx_validate_def first_err_Cons_None Slots_def split: if_splits option.splits)
  have "s'\<lparr>SpArtifact := a, KeepLast := k\<rparr> = s'" by (simp add: s')
  then have again: "applyDefaults (s'\<lparr>SpArtifact := a, KeepLast := k\<rparr>) = s'" by (simp only: s' applyDefaults_again)
  note facts = ok SpecArtifact_validate_again [OF a] SpecRelease_validate_again [OF k] sys health slots nginx
  show ?thesis
  proof (cases "RestartPolicy_known (RestPolicy (SpSystemd s)) \<or> BlueGreen s")
    case True
    then have "ApplicationSpec_Validate urls s' = Inr s'"
      unfolding Validate_Inr same bg using facts again by (auto simp: SpecExec_validate_fill)
    then show ?thesis using True by simp
  next
    case False
    then show ?thesis
      unfolding ApplicationSpec_Validate_def same bg
      using facts by (auto simp: SpecExec_validate_fill first_err_Cons fail_if_def)
  qed
qed

section \<open>Properties\<close>

text \<open>Two manifests: a single-slot one and a blue-green one.\<close>

definition sample_single :: ApplicationSpec where
  "sample_single = \<lparr>SpAPIVersion = ''ops.frz.io/v1alpha1'', SpKind = ''ApplicationSpec'', SpApplication = ''shop'',
     SpRuntime = RuntimeKindGo,
     SpArtifact = \<lparr>SpArtifactID = ''art1'', SpDigest = [], SpVersion = ''1.0'', FileName = [],
       Unpack = \<lparr>Strategy = UnpackOther [], StrategyExplicit = False, StripComponents = 0\<rparr>\<rparr>,
     SpExec = \<lparr>ExArgv = [''server'', ''-v''], ExWorkingDirectory = ''/srv'', RunUser = ''shop'', ExEnvironment = [],
       ExSecretEnvironment = [], ExPorts = [8080], ExSlots = []\<rparr>,
     SpHealth = \<lparr>HlReadiness = \<lparr>RdType = ReadinessTCP, RdTarget = ''localhost:8080'', ConsecutiveSuccesses = 0\<rparr>,
       StartTimeout = 0, StopTimeout = 0\<rparr>,
     LogsDirectory = ''/var/log/shop'', SpSystemd = \<lparr>UnitName = [], RestPolicy = RestartOther []\<rparr>,
     SpResources = \<lparr>CPUQuotaPercent = 0, MemoryMaxBytes = 0\<rparr>, KeepLast = 0,
     SpNginx = \<lparr>Listen = 0, ServerName = [], NgUpstreamName = [], ObservationSeconds = 0, DrainSeconds = 0\<rparr>\<rparr>"

definition sample_slot :: "int \<Rightarrow> string \<Rightarrow> SpecSlot" where
  "sample_slot port target = \<lparr>SlPorts = [port],
     SlReadiness = \<lparr>RdType = ReadinessTCP, RdTarget = target, ConsecutiveSuccesses = 2\<rparr>, SlEnvironment = []\<rparr>"

definition sample_blue_green :: ApplicationSpec where
  "sample_blue_green = sample_single
     \<lparr>SpExec := (SpExec sample_single)\<lparr>ExPorts := [],
        ExSlots := [(SlotGreen, sample_slot 8082 '':8082''), (SlotBlue, sample_slot 8081 '':8081'')]\<rparr>,
      SpHealth := (SpHealth sample_single)\<lparr>HlReadiness := zero_readiness\<rparr>,
      SpNginx := \<lparr>Listen = 80, ServerName = [], NgUpstreamName = [], ObservationSeconds = 5, DrainSeconds = 0\<rparr>\<rparr>"

lemma sample_single_valid:
  "ApplicationSpec_Validate (\<lambda>_. None) sample_single = Inr (applyDefaults
     (sample_single\<lparr>SpArtifact := (SpArtifact sample_single)\<lparr>Unpack :=
        (Unpack (SpArtifact sample_single))\<lparr>Strategy := UnpackNone\<rparr>\<rparr>, KeepLast := 5\<rparr>))"
  by code_simp

lemma sample_blue_green_valid:
  "ApplicationSpec_Validate (\<lambda>_. None) sample_blue_green = Inr (applyDefaults
     (sample_blue_green\<lparr>SpArtifact := (SpArtifact sample_single)\<lparr>Unpack :=
        (Unpack (SpArtifact sample_single))\<lparr>Strategy := UnpackNone\<rparr>\<rparr>, KeepLast := 5\<rparr>))"
  by code_simp

text \<open>Validation is stable: what it accepted, with the defaults it filled in, it accepts again and
  leaves as it is, as long as the restart policy is one of the known ones. Manifests are validated when
  they are stored and again before every use, so this is what keeps a stored manifest usable.\<close>

theorem validate_stable:
  assumes "ApplicationSpec_Validate urls s = Inr s'" and "RestartPolicy_known (RestPolicy (SpSystemd s))"
  shows "ApplicationSpec_Validate urls s' = Inr s'"
  using validate_again [OF assms(1)] assms(2) by simp

theorem validate_stable_witness:
  "case ApplicationSpec_Validate (\<lambda>_. None) sample_blue_green of
     Inl _ \<Rightarrow> False | Inr s' \<Rightarrow> ApplicationSpec_Validate (\<lambda>_. None) s' = Inr s'"
proof -
  have "RestartPolicy_known (RestPolicy (SpSystemd sample_blue_green))" by code_simp
  from validate_stable [OF sample_blue_green_valid this] show ?thesis
    by (simp add: sample_blue_green_valid)
qed

text \<open>The restart policy is checked only beside a unit name that is given. Without one every policy is
  accepted, and stays in the manifest whose unit file is rendered from it; for a single-slot application
  the validation before every use then refuses the stored manifest, for a blue-green one it never does.\<close>

theorem restart_policy_unchecked:
  assumes "ApplicationSpec_Validate urls s = Inr s'" and "UnitName (SpSystemd s) = []"
    and "\<not> RestartPolicy_known p"
  shows "\<exists>t. ApplicationSpec_Validate urls (s\<lparr>SpSystemd := \<lparr>UnitName = [], RestPolicy = p\<rparr>\<rparr>) = Inr t
     \<and> RestPolicy (SpSystemd t) = p
     \<and> ApplicationSpec_Validate urls t = (if BlueGreen s then Inr t else Inl CodeManifestInvalid)"
proof -
  let ?s = "s\<lparr>SpSystemd := \<lparr>UnitName = [], RestPolicy = p\<rparr>\<rparr>"
  have [simp]: "BlueGreen ?s = BlueGreen s" "validateBlueGreen ?s = validateBlueGreen s"
    "SpecNginx_validate n ?s = SpecNginx_validate n s" "SpecSystemd_validate \<lparr>UnitName = [], RestPolicy = p\<rparr> = None" for n
    using assms(2) by (simp_all add: BlueGreen_def validateBlueGreen_def SpecNginx_validate_def SpecSystemd_validate_def)
  have "\<exists>t. ApplicationSpec_Validate urls ?s = Inr t" using assms(1) unfolding Validate_Inr by auto
  then obtain t where t: "ApplicationSpec_Validate urls ?s = Inr t" ..
  then obtain a k where t': "t = applyDefaults (?s\<lparr>SpArtifact := a, KeepLast := k\<rparr>)"
    and a: "SpecArtifact_validate (SpArtifact s) = Inr a"
    unfolding Validate_Inr by auto
  have policy: "RestPolicy (SpSystemd t) = p"
    using assms(3) by (auto simp: t' default_systemd_def Let_def RestartPolicy_known_def)
  show ?thesis using t policy validate_again [OF t] assms(3) by simp
qed

theorem restart_policy_unchecked_witness:
  "\<exists>t. ApplicationSpec_Validate (\<lambda>_. None)
         (sample_blue_green\<lparr>SpSystemd := \<lparr>UnitName = [], RestPolicy = RestartOther ''no; ExecStop=/bin/x''\<rparr>\<rparr>) = Inr t
     \<and> RestPolicy (SpSystemd t) = RestartOther ''no; ExecStop=/bin/x''
     \<and> ApplicationSpec_Validate (\<lambda>_. None) t = Inr t"
proof -
  have "UnitName (SpSystemd sample_blue_green) = []" "BlueGreen sample_blue_green" by code_simp+
  moreover have "\<not> RestartPolicy_known (RestartOther ''no; ExecStop=/bin/x'')" by (simp add: RestartPolicy_known_def)
  ultimately show ?thesis using restart_policy_unchecked [OF sample_blue_green_valid] by metis
qed

lemma accepted_blue_green:
  assumes "ApplicationSpec_Validate urls s = Inr s'" and "BlueGreen s"
  shows "SlotPorts s' SlotBlue \<noteq> [] \<and> SlotPorts s' SlotGreen \<noteq> []
     \<and> distinct (Listen (SpNginx s') # SlotPorts s' SlotBlue @ SlotPorts s' SlotGreen)
     \<and> list_all port_ok (Listen (SpNginx s') # SlotPorts s' SlotBlue @ SlotPorts s' SlotGreen)
     \<and> ExPorts (SpExec s') = [] \<and> UnitName (SpSystemd s') = []"
    and "SlotOf s' SlotBlue \<noteq> None \<and> SlotOf s' SlotGreen \<noteq> None"
    and "Configured (SpNginx s') \<and> applicationNamePattern (SpApplication s')
     \<and> (NgUpstreamName (SpNginx s') \<noteq> [] \<longrightarrow> upstreamNamePattern (NgUpstreamName (SpNginx s')))"
proof -
  from assms(1) obtain a k where s': "s' = applyDefaults (s\<lparr>SpArtifact := a, KeepLast := k\<rparr>)"
    and ok: "SpecExec_validate urls (SpExec s) = None" "validateBlueGreen s = None"
      "SpecNginx_validate (SpNginx s) s = None" "applicationNamePattern (SpApplication s)"
    unfolding Validate_Inr by blast
  have ne: "ExSlots (SpExec s) \<noteq> []" using assms(2) by (simp add: BlueGreen_def)
  with ok(1) have slots: "ExPorts (SpExec s) = []" "check_slots urls (SpExec s) [] [SlotBlue, SlotGreen] = None"
    "map_of (ExSlots (SpExec s)) SlotBlue \<noteq> None" "map_of (ExSlots (SpExec s)) SlotGreen \<noteq> None"
    by (auto simp: SpecExec_validate_def validateSlots_def first_err_Cons_None Slots_def)
  have bg: "UnitName (SpSystemd s) = []" "Configured (SpNginx s)"
    using ok(2) assms(2) by (simp_all add: validateBlueGreen_def first_err_Cons_None)
  then have nginx: "port_ok (Listen (SpNginx s))"
    "Listen (SpNginx s) \<notin> set (SlPorts (slot_spec (SpExec s) SlotBlue)) \<union> set (SlPorts (slot_spec (SpExec s) SlotGreen))"
    using ok(3) slots(3,4)
    by (auto simp: SpecNginx_validate_def first_err_Cons_None Slots_def slot_spec_def)
  have "UnitName (SpSystemd s') = []" using bg(1) assms(2) by (simp add: s' default_systemd_def Let_def BlueGreen_def)
  then show "SlotPorts s' SlotBlue \<noteq> [] \<and> SlotPorts s' SlotGreen \<noteq> []
     \<and> distinct (Listen (SpNginx s') # SlotPorts s' SlotBlue @ SlotPorts s' SlotGreen)
     \<and> list_all port_ok (Listen (SpNginx s') # SlotPorts s' SlotBlue @ SlotPorts s' SlotGreen)
     \<and> ExPorts (SpExec s') = [] \<and> UnitName (SpSystemd s') = []"
    using check_slots_None [OF slots(2)] nginx slots(1)
    by (auto simp: s' SlotPorts_def slot_spec_fill list_all_iff)
  show "SlotOf s' SlotBlue \<noteq> None \<and> SlotOf s' SlotGreen \<noteq> None"
    using slots(3,4) by (simp add: s' SlotOf_def)
  show "Configured (SpNginx s') \<and> applicationNamePattern (SpApplication s')
     \<and> (NgUpstreamName (SpNginx s') \<noteq> [] \<longrightarrow> upstreamNamePattern (NgUpstreamName (SpNginx s')))"
    using bg(2) ok(3,4) by (auto simp: s' SpecNginx_validate_def first_err_Cons_None)
qed

text \<open>The slots of an accepted blue-green manifest do not compete for a port: every slot has ports, all
  of them and the public one are valid, and no port occurs twice; and the units have derived names.\<close>

theorem slot_ports_disjoint:
  assumes "ApplicationSpec_Validate urls s = Inr s'" and "BlueGreen s"
  shows "SlotPorts s' SlotBlue \<noteq> [] \<and> SlotPorts s' SlotGreen \<noteq> []
     \<and> distinct (Listen (SpNginx s') # SlotPorts s' SlotBlue @ SlotPorts s' SlotGreen)
     \<and> list_all port_ok (Listen (SpNginx s') # SlotPorts s' SlotBlue @ SlotPorts s' SlotGreen)
     \<and> ExPorts (SpExec s') = [] \<and> UnitName (SpSystemd s') = []"
  using accepted_blue_green(1) [OF assms] .

theorem slot_ports_disjoint_witness:
  "case ApplicationSpec_Validate (\<lambda>_. None) sample_blue_green of
     Inl _ \<Rightarrow> False
   | Inr s' \<Rightarrow> distinct (Listen (SpNginx s') # SlotPorts s' SlotBlue @ SlotPorts s' SlotGreen)"
proof -
  have "BlueGreen sample_blue_green" by code_simp
  from slot_ports_disjoint [OF sample_blue_green_valid this] show ?thesis
    unfolding sample_blue_green_valid sum.case by blast
qed

end
