(* ===== verification/AppPaths.thy ===== *)
theory AppPaths
  imports AppSpec
begin

text \<open>
  What is derived from a manifest (\<open>internal/domain/appspec.go\<close>, \<open>internal/domain/slot.go\<close>): the paths
  of releases, slots, environment files and credentials, the names of units, the resolved command line
  and the version. The properties say that these stay inside the directories of the application, and
  where the names of two applications collide.
\<close>

section \<open>Paths\<close>

definition apps_etc :: string where "apps_etc = ''/etc/opsd/apps''"
definition apps_opt :: string where "apps_opt = ''/opt/opsd/apps''"

definition EnvFilePath :: "string \<Rightarrow> string" where
  "EnvFilePath app = PathJoin [apps_etc, app @ ''.env'']"

definition SecretsEnvFilePath :: "string \<Rightarrow> string" where
  "SecretsEnvFilePath app = PathJoin [apps_etc, app @ ''.secrets.env'']"

definition SecretsDir :: "string \<Rightarrow> string" where
  "SecretsDir app = PathJoin [apps_etc, app @ ''.secrets'']"

definition ReleaseDir :: "string \<Rightarrow> string \<Rightarrow> string" where
  "ReleaseDir app release = PathJoin [apps_opt, app, ''releases'', release]"

definition ReleaseRootDir :: "string \<Rightarrow> string" where
  "ReleaseRootDir app = PathDir (ReleaseDir app ''unreleased'')"

definition CurrentReleaseDir :: "string \<Rightarrow> string" where
  "CurrentReleaseDir app = PathJoin [ReleaseRootDir app, ''current'']"

definition InReleaseTree :: "string \<Rightarrow> string \<Rightarrow> bool" where
  "InReleaseTree app candidate \<longleftrightarrow>
     (let root = ReleaseRootDir app; cleaned = PathClean candidate
      in cleaned \<noteq> root \<and> prefix (root @ ''/'') cleaned)"

definition SlotDir :: "string \<Rightarrow> Slot \<Rightarrow> string" where
  "SlotDir app slot = PathJoin [apps_opt, app, ''slots'', slot_name slot]"

definition SlotCurrentDir :: "string \<Rightarrow> Slot \<Rightarrow> string" where
  "SlotCurrentDir app slot = PathJoin [SlotDir app slot, ''current'']"

definition SlotCurrentLinkTarget :: "string \<Rightarrow> string" where
  "SlotCurrentLinkTarget release = PathJoin [''..'', ''..'', ''releases'', release]"

definition SlotEnvFilePath :: "string \<Rightarrow> Slot \<Rightarrow> string" where
  "SlotEnvFilePath app slot = PathJoin [apps_etc, app @ ''.'' @ slot_name slot @ ''.env'']"

definition SlotSecretsEnvFilePath :: "string \<Rightarrow> Slot \<Rightarrow> string" where
  "SlotSecretsEnvFilePath app slot = PathJoin [apps_etc, app @ ''.'' @ slot_name slot @ ''.secrets.env'']"

definition SlotSecretsDir :: "string \<Rightarrow> Slot \<Rightarrow> string" where
  "SlotSecretsDir app slot = PathJoin [SecretsDir app, slot_name slot]"

definition SlotSecretFileVarValue :: "string \<Rightarrow> Slot \<Rightarrow> string \<Rightarrow> string" where
  "SlotSecretFileVarValue app slot name = PathJoin [SecretsDir app, slot_name slot, name]"

definition SecretFileVarValue :: "string \<Rightarrow> string \<Rightarrow> string" where
  "SecretFileVarValue app name = PathJoin [SecretsDir app, name]"

definition SlotUnitName :: "string \<Rightarrow> Slot \<Rightarrow> string" where
  "SlotUnitName app slot = app @ ''-'' @ slot_name slot @ ''.service''"

definition UnitPath :: "string \<Rightarrow> string" where
  "UnitPath unit = PathJoin [''/etc/systemd/system'', unit]"

definition UpstreamName :: "string \<Rightarrow> string" where
  "UpstreamName app = ''frz_'' @ app"

definition EffectiveUpstreamName :: "SpecNginx \<Rightarrow> string \<Rightarrow> string" where
  "EffectiveUpstreamName n app = (if NgUpstreamName n \<noteq> [] then NgUpstreamName n else UpstreamName app)"

definition ManagedNginxDir :: "string \<Rightarrow> string" where
  "ManagedNginxDir confDir = PathJoin [confDir, ''frz-managed'']"

definition ManagedNginxFile :: "string \<Rightarrow> string \<Rightarrow> string" where
  "ManagedNginxFile confDir app = PathJoin [ManagedNginxDir confDir, app @ ''.conf'']"

definition InSlotTree :: "string \<Rightarrow> string \<Rightarrow> bool" where
  "InSlotTree app candidate \<longleftrightarrow>
     (let cleaned = PathClean candidate
      in list_ex (\<lambda>slot. cleaned \<noteq> SlotDir app slot \<and> prefix (SlotDir app slot @ ''/'') cleaned) Slots)"

definition EnvFilePathFor :: "string \<Rightarrow> Slot \<Rightarrow> string" where
  "EnvFilePathFor app slot = (if slot = NoSlot then EnvFilePath app else SlotEnvFilePath app slot)"

definition SecretsEnvFilePathFor :: "string \<Rightarrow> Slot \<Rightarrow> string" where
  "SecretsEnvFilePathFor app slot =
     (if slot = NoSlot then SecretsEnvFilePath app else SlotSecretsEnvFilePath app slot)"

definition SecretsDirFor :: "string \<Rightarrow> Slot \<Rightarrow> string" where
  "SecretsDirFor app slot = (if slot = NoSlot then SecretsDir app else SlotSecretsDir app slot)"

definition SecretFileVarValueFor :: "string \<Rightarrow> Slot \<Rightarrow> string \<Rightarrow> string" where
  "SecretFileVarValueFor app slot name =
     (if slot = NoSlot then SecretFileVarValue app name else SlotSecretFileVarValue app slot name)"

definition UnitNameFor :: "ApplicationSpec \<Rightarrow> Slot \<Rightarrow> string" where
  "UnitNameFor s slot = (if slot = NoSlot then UnitName (SpSystemd s) else SlotUnitName (SpApplication s) slot)"

section \<open>The command line and the artifact\<close>

definition ResolveArgv :: "string \<Rightarrow> Slot \<Rightarrow> string list \<Rightarrow> ErrorCode + string list" where
  "ResolveArgv app slot argv =
     (case argv of
        [] \<Rightarrow> Inr []
      | cmd # args \<Rightarrow>
          if PathIsAbs cmd then Inr argv
          else let base = (if slot \<noteq> NoSlot then SlotCurrentDir app slot else CurrentReleaseDir app);
                   joined = PathJoin [base, cmd]
               in if joined \<noteq> base \<and> \<not> prefix (base @ ''/'') joined then Inl CodeManifestInvalid
                  else Inr (joined # args))"

definition trim_prefix :: "string \<Rightarrow> string \<Rightarrow> string" where
  "trim_prefix p s = (if prefix p s then drop (length p) s else s)"

definition DeriveVersion :: "SpecArtifact \<Rightarrow> string" where
  "DeriveVersion a =
     (let source = trim_prefix ''sha256:'' (if SpDigest a = [] then SpArtifactID a else SpDigest a)
      in if take 12 source = [] then ''unversioned'' else ''sha256-'' @ take 12 source)"

definition VersionOrDerived :: "SpecArtifact \<Rightarrow> string" where
  "VersionOrDerived a = (if \<not> blank (SpVersion a) then SpVersion a else DeriveVersion a)"

definition MediaTypeUnpackStrategy :: "string \<Rightarrow> UnpackStrategy" where
  "MediaTypeUnpackStrategy mediaType =
     (let t = map lower_char (TrimSpace mediaType)
      in if t = ''application/x-tar'' then UnpackTar
         else if t = ''application/gzip'' \<or> t = ''application/x-gzip'' then UnpackTarGz
         else if t = ''application/zip'' then UnpackZip
         else UnpackNone)"

text \<open>The manifest with the strategy the media type implies, when none was declared.\<close>

definition CheckUnpackMediaType :: "ApplicationSpec \<Rightarrow> string \<Rightarrow> ErrorCode + ApplicationSpec" where
  "CheckUnpackMediaType s mediaType =
     (let implied = MediaTypeUnpackStrategy mediaType; u = Unpack (SpArtifact s)
      in if \<not> StrategyExplicit u
         then Inr (s\<lparr>SpArtifact := (SpArtifact s)\<lparr>Unpack := u\<lparr>Strategy := implied\<rparr>\<rparr>\<rparr>)
         else if implied \<noteq> UnpackNone \<and> Strategy u \<noteq> implied then Inl CodeManifestConflict
         else Inr s)"

definition MaterializedFileName :: "ApplicationSpec \<Rightarrow> string" where
  "MaterializedFileName s =
     (if Strategy (Unpack (SpArtifact s)) \<noteq> UnpackNone then []
      else if FileName (SpArtifact s) \<noteq> [] then FileName (SpArtifact s)
      else case ExArgv (SpExec s) of
             [] \<Rightarrow> []
           | cmd # _ \<Rightarrow> if \<not> PathIsAbs cmd then cmd else [])"

definition Materializes :: "ApplicationSpec \<Rightarrow> bool" where
  "Materializes s \<longleftrightarrow> Strategy (Unpack (SpArtifact s)) \<noteq> UnpackNone \<or> MaterializedFileName s \<noteq> []"

definition secret_names :: "SecretKind \<Rightarrow> ApplicationSpec \<Rightarrow> string list" where
  "secret_names kind s =
     sort (map fst (filter (\<lambda>entry. RefKind (snd entry) = kind) (ExSecretEnvironment (SpExec s))))"

definition SecretEnvNames :: "ApplicationSpec \<Rightarrow> string list" where
  "SecretEnvNames s = secret_names SecretKindEnv s"

definition SecretFileNames :: "ApplicationSpec \<Rightarrow> string list" where
  "SecretFileNames s = secret_names SecretKindFile s"

section \<open>Application names are path segments\<close>

lemma applicationNamePattern_segment:
  assumes "applicationNamePattern app"
  shows "app \<noteq> []" "CHR ''/'' \<notin> set app" "hd app \<noteq> CHR ''.''" "plain_segment app"
proof -
  from assms obtain c cs where app: "app = c # cs" "alnum c" "list_all (\<lambda>c. alnum c \<or> c \<in> set ''._-'') cs"
    by (auto simp: applicationNamePattern_def pattern_def split: list.splits)
  have no: "\<not> alnum CHR ''/''" "\<not> alnum CHR ''.''" by code_simp+
  show *: "app \<noteq> []" "CHR ''/'' \<notin> set app" "hd app \<noteq> CHR ''.''"
    using app no by (auto simp: list_all_iff)
  show "plain_segment app" using * by (rule plain_segmentI)
qed

lemma roots: "apps_etc = abs_path [''etc'', ''opsd'', ''apps'']" "apps_opt = abs_path [''opt'', ''opsd'', ''apps'']"
  by (simp_all add: apps_etc_def apps_opt_def abs_path_def)

lemma plain_literals [simp]:
  "plain_segment ''etc''" "plain_segment ''opt''" "plain_segment ''opsd''" "plain_segment ''apps''"
  "plain_segment ''releases''" "plain_segment ''current''" "plain_segment ''slots''" "plain_segment ''unreleased''"
  "plain_segment ''blue''" "plain_segment ''green''"
  by (simp_all add: plain_segment_def)

definition etc_path :: "string list \<Rightarrow> string" where
  "etc_path segs = abs_path ([''etc'', ''opsd'', ''apps''] @ segs)"

definition opt_path :: "string list \<Rightarrow> string" where
  "opt_path segs = abs_path ([''opt'', ''opsd'', ''apps''] @ segs)"

lemma etc_join: "segs \<noteq> [] \<Longrightarrow> \<forall>s \<in> set segs. plain_segment s \<Longrightarrow> PathJoin (apps_etc # segs) = etc_path segs"
  unfolding roots etc_path_def by (rule PathJoin_segments) auto

lemma opt_join: "segs \<noteq> [] \<Longrightarrow> \<forall>s \<in> set segs. plain_segment s \<Longrightarrow> PathJoin (apps_opt # segs) = opt_path segs"
  unfolding roots opt_path_def by (rule PathJoin_segments) auto

section \<open>Where the derived paths are\<close>

lemma ReleaseDir_eq: "plain_segment app \<Longrightarrow> plain_segment r \<Longrightarrow> ReleaseDir app r = opt_path [app, ''releases'', r]"
  by (simp add: ReleaseDir_def opt_join)

lemma ReleaseRootDir_eq: "plain_segment app \<Longrightarrow> ReleaseRootDir app = opt_path [app, ''releases'']"
  using PathDir_abs_path [of "[''opt'', ''opsd'', ''apps'', app, ''releases'']" "''unreleased''"]
  by (auto simp: ReleaseRootDir_def ReleaseDir_eq opt_path_def)

lemma opt_path_join:
  "\<forall>s \<in> set (ps @ qs). plain_segment s \<Longrightarrow> qs \<noteq> [] \<Longrightarrow> PathJoin (opt_path ps # qs) = opt_path (ps @ qs)"
  unfolding opt_path_def by (subst PathJoin_segments) auto

lemma CurrentReleaseDir_eq: "plain_segment app \<Longrightarrow> CurrentReleaseDir app = opt_path [app, ''releases'', ''current'']"
  by (simp add: CurrentReleaseDir_def ReleaseRootDir_eq opt_path_join)

lemma plain_slot_name: "Slot_Valid slot \<Longrightarrow> plain_segment (slot_name slot)"
  by (auto simp: Slot_Valid_def)

lemma SlotDir_eq: "plain_segment app \<Longrightarrow> Slot_Valid slot \<Longrightarrow> SlotDir app slot = opt_path [app, ''slots'', slot_name slot]"
  using plain_slot_name [of slot] by (simp add: SlotDir_def opt_join)

lemma SlotCurrentDir_eq:
  "plain_segment app \<Longrightarrow> Slot_Valid slot \<Longrightarrow> SlotCurrentDir app slot = opt_path [app, ''slots'', slot_name slot, ''current'']"
  using plain_slot_name [of slot] by (simp add: SlotCurrentDir_def SlotDir_eq opt_path_join)

lemma Validate_argv:
  assumes "ApplicationSpec_Validate urls s = Inr s'"
  shows "applicationNamePattern (SpApplication s')" "ExArgv (SpExec s') \<noteq> []"
    "''..'' \<notin> set (Split CHR ''/'' (hd (ExArgv (SpExec s'))))"
  using assms by (auto simp: Validate_Inr SpecExec_validate_def first_err_Cons_None)

section \<open>Properties\<close>

text \<open>C8 The command of an accepted manifest always resolves, its arguments are not touched, an absolute
  command stays, and a relative one ends up at or below the \<open>current\<close> directory it is resolved against:
  the one of the slot, or of the releases for an application without slots.\<close>

theorem resolve_argv_confined:
  assumes "ApplicationSpec_Validate urls s = Inr s'" and "slot = NoSlot \<or> Slot_Valid slot"
  defines "argv \<equiv> ExArgv (SpExec s')" and "app \<equiv> SpApplication s'"
  defines "base \<equiv> (if slot = NoSlot then CurrentReleaseDir app else SlotCurrentDir app slot)"
  shows "\<exists>cmd. ResolveArgv app slot argv = Inr (cmd # tl argv) \<and> PathIsAbs cmd
     \<and> (if PathIsAbs (hd argv) then cmd = hd argv else cmd = base \<or> prefix (base @ ''/'') cmd)"
proof (cases "PathIsAbs (hd argv)")
  case True
  then show ?thesis using Validate_argv(2) [OF assms(1)] by (cases argv) (auto simp: ResolveArgv_def argv_def)
next
  case False
  have app: "plain_segment app" using Validate_argv(1) [OF assms(1)] applicationNamePattern_segment(4) by (simp add: app_def)
  obtain segs where base: "base = abs_path segs" "segs \<noteq> []" "\<forall>t \<in> set segs. plain_segment t"
  proof (cases "slot = NoSlot")
    case True
    then show ?thesis using that [of "[''opt'', ''opsd'', ''apps'', app, ''releases'', ''current'']"] app
      by (auto simp: base_def CurrentReleaseDir_eq opt_path_def)
  next
    case False
    then have "Slot_Valid slot" using assms(2) by simp
    then show ?thesis using that [of "[''opt'', ''opsd'', ''apps'', app, ''slots'', slot_name slot, ''current'']"]
        app False plain_slot_name [of slot] by (auto simp: base_def SlotCurrentDir_eq opt_path_def)
  qed
  let ?cmd = "abs_path (segs @ kept_segments (Split CHR ''/'' (hd argv)))"
  have join: "PathJoin [base, hd argv] = ?cmd"
    unfolding base(1) using base(2,3) Validate_argv(3) [OF assms(1)] by (intro PathJoin_relative) (simp_all add: argv_def)
  have below: "?cmd = base \<or> prefix (base @ ''/'') ?cmd" unfolding base(1) by (rule abs_path_below [OF base(2)])
  have "(if slot \<noteq> NoSlot then SlotCurrentDir app slot else CurrentReleaseDir app) = base" by (simp add: base_def)
  then have "ResolveArgv app slot argv = Inr (?cmd # tl argv)"
    using Validate_argv(2) [OF assms(1)] False join below
    by (cases argv) (auto simp: ResolveArgv_def argv_def [symmetric] Let_def)
  then show ?thesis using False below by (simp add: PathIsAbs_def abs_path_def)
qed

theorem resolve_argv_confined_witness:
  "\<exists>cmd. ResolveArgv ''shop'' SlotBlue [''server'', ''-v''] = Inr [cmd, ''-v'']
     \<and> (cmd = SlotCurrentDir ''shop'' SlotBlue \<or> prefix (SlotCurrentDir ''shop'' SlotBlue @ ''/'') cmd)"
proof -
  have "Slot_Valid SlotBlue" by (simp add: Slot_Valid_def)
  then show ?thesis
    using resolve_argv_confined [OF sample_blue_green_valid, of SlotBlue]
    by (auto simp: sample_blue_green_def sample_single_def PathIsAbs_def)
qed

lemma opt_path_inject:
  "\<forall>p \<in> set ps \<union> set qs. plain_segment p \<Longrightarrow> opt_path ps = opt_path qs \<longleftrightarrow> ps = qs"
  unfolding opt_path_def by (subst abs_path_inject) auto

lemma etc_path_inject:
  "\<forall>p \<in> set ps \<union> set qs. plain_segment p \<Longrightarrow> etc_path ps = etc_path qs \<longleftrightarrow> ps = qs"
  unfolding etc_path_def by (subst abs_path_inject) auto

text \<open>C9 Releases of different applications, and different releases of one, never share a directory; a
  release directory lies in the release tree of its own application only; and the \<open>current\<close> link of a
  slot, which is written relative to the slot's directory, leads to the directory of its release.\<close>

theorem release_dirs_separate:
  assumes "applicationNamePattern a" "applicationNamePattern b" "plain_segment r" "plain_segment q"
    and "Slot_Valid slot"
  shows "(ReleaseDir a r = ReleaseDir b q \<longleftrightarrow> a = b \<and> r = q)
     \<and> (InReleaseTree a (ReleaseDir b q) \<longleftrightarrow> a = b)
     \<and> \<not> InReleaseTree a (ReleaseRootDir b)
     \<and> PathJoin [SlotDir a slot, SlotCurrentLinkTarget r] = ReleaseDir a r"
proof -
  note plain = applicationNamePattern_segment(4) [OF assms(1)] applicationNamePattern_segment(4) [OF assms(2)]
  have tree: "InReleaseTree a (opt_path (b # ''releases'' # rest)) \<longleftrightarrow> a = b \<and> rest \<noteq> []"
    if "\<forall>t \<in> set rest. plain_segment t" for rest
  proof -
    have "PathClean (opt_path (b # ''releases'' # rest)) = opt_path (b # ''releases'' # rest)"
      unfolding opt_path_def using plain that by (intro PathClean_abs_path) auto
    moreover have "prefix (opt_path [a, ''releases''] @ ''/'') (opt_path (b # ''releases'' # rest)) \<longleftrightarrow> a = b \<and> rest \<noteq> []"
      unfolding opt_path_def using plain that by (subst abs_path_strictly_below) auto
    ultimately show ?thesis
      using plain that opt_path_inject [of "b # ''releases'' # rest" "[a, ''releases'']"]
      by (auto simp: InReleaseTree_def ReleaseRootDir_eq)
  qed
  have "ReleaseDir a r = ReleaseDir b q \<longleftrightarrow> a = b \<and> r = q"
    using plain assms(3,4) by (simp add: ReleaseDir_eq opt_path_inject)
  moreover have "InReleaseTree a (ReleaseDir b q) \<longleftrightarrow> a = b" using tree [of "[q]"] plain assms(4) by (simp add: ReleaseDir_eq)
  moreover have "\<not> InReleaseTree a (ReleaseRootDir b)" using tree [of "[]"] plain by (simp add: ReleaseRootDir_eq)
  moreover have "PathJoin [SlotDir a slot, SlotCurrentLinkTarget r] = ReleaseDir a r"
  proof -
    have parts: "Split CHR ''/'' (''../../releases/'' @ r) = [''..'', ''..'', ''releases'', r]"
      using assms(3) by (simp add: plain_segment_def Split_single)
    have "SlotCurrentLinkTarget r = ''../../releases/'' @ r"
      using assms(3) parts
      by (simp add: SlotCurrentLinkTarget_def PathJoin_def PathClean_def Let_def plain_segment_def clean_segment_def)
    moreover have "SlotDir a slot = abs_path [''opt'', ''opsd'', ''apps'', a, ''slots'', slot_name slot]"
      using plain assms(5) by (simp add: SlotDir_eq opt_path_def)
    ultimately have "PathJoin [SlotDir a slot, SlotCurrentLinkTarget r]
        = PathClean (abs_path [''opt'', ''opsd'', ''apps'', a, ''slots'', slot_name slot] @ CHR ''/'' # (''../../releases/'' @ r))"
      by (simp add: PathJoin_def abs_path_def)
    also have "... = abs_path [''opt'', ''opsd'', ''apps'', a, ''releases'', r]"
      using plain plain_slot_name [OF assms(5)] assms(3) parts
      by (subst PathClean_abs_path_rel) (auto simp: clean_segment_def plain_segment_def)
    finally show ?thesis using plain assms(3) by (simp add: ReleaseDir_eq opt_path_def)
  qed
  ultimately show ?thesis by blast
qed

theorem release_dirs_separate_witness:
  "InReleaseTree ''shop'' (ReleaseDir ''shop'' ''rel1'') \<and> \<not> InReleaseTree ''shop'' (ReleaseDir ''shop2'' ''rel1'')
   \<and> PathJoin [SlotDir ''shop'' SlotBlue, SlotCurrentLinkTarget ''rel1''] = ReleaseDir ''shop'' ''rel1''"
proof -
  have "applicationNamePattern ''shop''" "applicationNamePattern ''shop2''" "plain_segment ''rel1''" "Slot_Valid SlotBlue"
    by code_simp+
  then show ?thesis
    using release_dirs_separate [of "''shop''" "''shop''" "''rel1''" "''rel1''" SlotBlue]
      release_dirs_separate [of "''shop''" "''shop2''" "''rel1''" "''rel1''" SlotBlue] by simp
qed

lemma plain_name_suffix:
  "applicationNamePattern a \<Longrightarrow> CHR ''/'' \<notin> set t \<Longrightarrow> plain_segment (a @ t)"
  using applicationNamePattern_segment [of a] by (intro plain_segment_append) auto

text \<open>The names of files and units are derived by appending to the application name, and names may
  contain dots and dashes: the environment file of \<open>shop.secrets\<close> is the credentials file of \<open>shop\<close>, that of
  \<open>shop.blue\<close> is the one of its blue slot, and \<open>shop-blue\<close> has the unit of that slot. Only the plain
  environment files of two applications are always distinct.\<close>

theorem env_files_collide:
  assumes "applicationNamePattern a" "length a \<le> 56" and "applicationNamePattern b"
  shows "applicationNamePattern (a @ ''.secrets'') \<and> EnvFilePath (a @ ''.secrets'') = SecretsEnvFilePath a
     \<and> applicationNamePattern (a @ ''.blue'') \<and> EnvFilePath (a @ ''.blue'') = SlotEnvFilePath a SlotBlue
     \<and> applicationNamePattern (a @ ''-blue'') \<and> (a @ ''-blue'') @ unit_suffix = SlotUnitName a SlotBlue
     \<and> (EnvFilePath a = EnvFilePath b \<longleftrightarrow> a = b)"
proof -
  have ext: "applicationNamePattern (a @ t)"
    if "list_all (\<lambda>c. alnum c \<or> c \<in> set ''._-'') t" "length t \<le> 8" for t
    using assms(1,2) that by (auto simp: applicationNamePattern_def pattern_def split: list.splits)
  have "EnvFilePath a = EnvFilePath b \<longleftrightarrow> a = b"
    using plain_name_suffix [OF assms(1), of "''.env''"] plain_name_suffix [OF assms(3), of "''.env''"]
    by (simp add: EnvFilePath_def etc_join etc_path_inject)
  moreover have "applicationNamePattern (a @ ''.secrets'')" "applicationNamePattern (a @ ''.blue'')"
    "applicationNamePattern (a @ ''-blue'')"
    by (rule ext; code_simp)+
  ultimately show ?thesis
    by (simp add: EnvFilePath_def SecretsEnvFilePath_def SlotEnvFilePath_def SlotUnitName_def unit_suffix_def)
qed

theorem env_files_collide_witness:
  "applicationNamePattern ''shop.secrets'' \<and> EnvFilePath ''shop.secrets'' = SecretsEnvFilePath ''shop''"
proof -
  have "applicationNamePattern ''shop''" by code_simp
  then show ?thesis using env_files_collide [of "''shop''" "''shop''"] by simp
qed

end
