(* ===== verification/Catalog.thy ===== *)
theory Catalog
  imports AppPaths "HOL-Library.AList" "HOL-Library.Product_Lexorder" "HOL-Library.Option_ord" "HOL-Library.List_Lexorder"
begin

text \<open>
  The catalogue tables of the SQLite store (\<open>internal/adapters/sqlite/catalog.go\<close>, \<open>spec.go\<close>,
  \<open>slot.go\<close>): artifacts, applications, releases, manifests, slots and their time line. As in \<open>OpStore\<close>
  a table is the list of its rows in insertion order; the constraints are those of the migrations.

  A manifest is stored as JSON and decoded when it is read: the row keeps the manifest itself. The column
  \<open>serving_slot\<close> of an application is the function \<open>serving_slot\<close> on its identifier. Columns in which the
  empty string is written as \<open>NULL\<close> keep the string.
\<close>

section \<open>State\<close>

record CatDb =
  artifacts :: "Artifact list"
  applications :: "Application list"
  serving_slot :: "string \<Rightarrow> Slot"
  releases :: "Release list"
  application_specs :: "((string \<times> string option) \<times> ApplicationSpec) list"
  application_slots :: "ApplicationSlot list"
  slot_events :: "SlotEvent list"

definition empty_cat :: CatDb where
  "empty_cat = \<lparr>artifacts = [], applications = [], serving_slot = (\<lambda>_. NoSlot), releases = [],
     application_specs = [], application_slots = [], slot_events = []\<rparr>"

definition found :: "'a option \<Rightarrow> ErrorCode \<Rightarrow> ErrorCode + 'a" where
  "found x e = (case x of None \<Rightarrow> Inl e | Some y \<Rightarrow> Inr y)"

lemma found_Inr [simp]: "found x e = Inr y \<longleftrightarrow> x = Some y"
  by (cases x) (simp_all add: found_def)

lemma found_Inl [simp]: "found x e = Inl e' \<longleftrightarrow> x = None \<and> e' = e"
  by (cases x) (auto simp: found_def)

text \<open>\<open>UPDATE ... SET f WHERE p\<close>.\<close>

definition update_where :: "('a \<Rightarrow> bool) \<Rightarrow> ('a \<Rightarrow> 'a) \<Rightarrow> 'a list \<Rightarrow> 'a list" where
  "update_where p f rows = map (\<lambda>q. if p q then f q else q) rows"

lemma map_update_where [simp]: "(\<And>q. g (f q) = g q) \<Longrightarrow> map g (update_where p f rows) = map g rows"
  by (simp add: update_where_def)

lemma set_update_where: "set (update_where p f rows) = (\<lambda>q. if p q then f q else q) ` set rows"
  by (simp add: update_where_def)

lemma image_update_where [simp]:
  assumes "\<And>q. g (f q) = g q"
  shows "g ` set (update_where p f rows) = g ` set rows"
  using map_update_where [of g f p rows, OF assms] by (metis set_map)

lemma length_update_where [simp]: "length (update_where p f rows) = length rows"
  by (simp add: update_where_def)

text \<open>\<open>ORDER BY k DESC LIMIT n\<close> and the first row of such a query.\<close>

definition newest :: "('a \<Rightarrow> 'k :: linorder) \<Rightarrow> nat \<Rightarrow> 'a list \<Rightarrow> 'a list" where
  "newest k n rows = take n (rev (sort_key k rows))"

definition first_newest :: "('a \<Rightarrow> 'k :: linorder) \<Rightarrow> 'a list \<Rightarrow> 'a option" where
  "first_newest k rows = (case newest k 1 rows of [] \<Rightarrow> None | r # _ \<Rightarrow> Some r)"

section \<open>Artifacts\<close>

definition CreateArtifact :: "CatDb \<Rightarrow> Artifact \<Rightarrow> (ErrorCode + Artifact \<times> bool) \<times> CatDb" where
  "CreateArtifact db a =
     (case Artifact_Validate a of
        Some e \<Rightarrow> (Inl e, db)
      | None \<Rightarrow>
          (case find (\<lambda>q. ArtDigest q = ArtDigest a) (artifacts db) of
             Some existing \<Rightarrow>
               (Inr (existing\<lparr>DeletedAt := None\<rparr>, False),
                db\<lparr>artifacts := update_where (\<lambda>q. ArtID q = ArtID existing) (\<lambda>q. q\<lparr>DeletedAt := None\<rparr>)
                                  (artifacts db)\<rparr>)
           | None \<Rightarrow>
               if list_ex (\<lambda>q. ArtID q = ArtID a) (artifacts db) then (Inl CodeInternal, db)
               else (Inr (a, True), db\<lparr>artifacts := artifacts db @ [a\<lparr>DeletedAt := None\<rparr>]\<rparr>)))"

definition GetArtifact :: "CatDb \<Rightarrow> string \<Rightarrow> ErrorCode + Artifact" where
  "GetArtifact db ref =
     found (find (\<lambda>q. (ArtID q = ref \<or> ArtDigest q = ref) \<and> DeletedAt q = None) (artifacts db))
       CodeArtifactNotFound"

definition art_key :: "Artifact \<Rightarrow> time \<times> string" where "art_key a = (ArtCreatedAt a, ArtID a)"

definition ListArtifacts :: "CatDb \<Rightarrow> string \<Rightarrow> nat \<Rightarrow> Artifact list" where
  "ListArtifacts db cursor limit =
     newest art_key limit (filter (\<lambda>q. DeletedAt q = None \<and>
       (cursor = [] \<or> (case find (\<lambda>c. ArtID c = cursor) (artifacts db) of
                           None \<Rightarrow> False | Some c \<Rightarrow> art_key q < art_key c))) (artifacts db))"

definition SoftDeleteArtifact :: "CatDb \<Rightarrow> string \<Rightarrow> time \<Rightarrow> ErrorCode option \<times> CatDb" where
  "SoftDeleteArtifact db i now =
     (if list_ex (\<lambda>q. ArtID q = i \<and> DeletedAt q = None) (artifacts db)
      then (None, db\<lparr>artifacts := update_where (\<lambda>q. ArtID q = i \<and> DeletedAt q = None)
                                          (\<lambda>q. q\<lparr>DeletedAt := Some now\<rparr>) (artifacts db)\<rparr>)
      else (Some CodeArtifactNotFound, db))"

definition CountArtifactReferences :: "CatDb \<Rightarrow> string \<Rightarrow> nat" where
  "CountArtifactReferences db i = length (filter (\<lambda>r. ArtifactID r = i) (releases db))"

definition SumArtifactSizes :: "CatDb \<Rightarrow> int" where
  "SumArtifactSizes db = sum_list (map ArtSize (filter (\<lambda>q. DeletedAt q = None) (artifacts db)))"

section \<open>Applications\<close>

definition CreateApplication :: "CatDb \<Rightarrow> Application \<Rightarrow> ErrorCode option \<times> CatDb" where
  "CreateApplication db a =
     (case Application_Validate a of
        Some e \<Rightarrow> (Some e, db)
      | None \<Rightarrow>
          if list_ex (\<lambda>q. AppID q = AppID a \<or> AppName q = AppName a) (applications db)
          then (Some CodeInvalidRequest, db)
          else (None, db\<lparr>applications := applications db @ [a],
                        serving_slot := (serving_slot db)(AppID a := NoSlot)\<rparr>))"

definition GetApplication :: "CatDb \<Rightarrow> string \<Rightarrow> ErrorCode + Application" where
  "GetApplication db ref =
     found (find (\<lambda>q. AppID q = ref \<or> AppName q = ref) (applications db)) CodeApplicationNotFound"

definition ListApplications :: "CatDb \<Rightarrow> Application list" where
  "ListApplications db = sort_key (\<lambda>q. (AppCreatedAt q, AppID q)) (applications db)"

section \<open>Releases\<close>

definition CreateRelease :: "CatDb \<Rightarrow> Release \<Rightarrow> (ErrorCode + Release) \<times> CatDb" where
  "CreateRelease db r =
     (case Release_Validate r of
        Some e \<Rightarrow> (Inl e, db)
      | None \<Rightarrow>
          (case GetApplication db (RelApplicationID r) of
             Inl e \<Rightarrow> (Inl e, db)
           | Inr _ \<Rightarrow>
          (case GetArtifact db (ArtifactID r) of
             Inl e \<Rightarrow> (Inl e, db)
           | Inr _ \<Rightarrow>
               let status = (if RelStatus r = ReleaseStatusOther [] then ReleaseCreated else RelStatus r);
                   r' = r\<lparr>RelStatus := status\<rparr>
               in if list_ex (\<lambda>q. RelID q = RelID r \<or>
                        (RelApplicationID q = RelApplicationID r \<and> RelVersion q = RelVersion r)) (releases db)
                  then (Inl CodeReleaseConflict, db)
                  else if \<not> list_ex (\<lambda>q. AppID q = RelApplicationID r) (applications db)
                          \<or> \<not> list_ex (\<lambda>q. ArtID q = ArtifactID r) (artifacts db)
                  then (Inl CodeInternal, db)
                  else (Inr r', db\<lparr>releases := releases db @
                          [r'\<lparr>RelSlot := NoSlot, Directory := [], ActivatedAt := None, RelFinishedAt := None,
                              RelErrorCode := None, RelErrorMessage := []\<rparr>]\<rparr>))))"

definition GetRelease :: "CatDb \<Rightarrow> string \<Rightarrow> ErrorCode + Release" where
  "GetRelease db i = found (find (\<lambda>q. RelID q = i) (releases db)) CodeReleaseNotFound"

definition ListReleases :: "CatDb \<Rightarrow> string \<Rightarrow> nat \<Rightarrow> Release list" where
  "ListReleases db app limit =
     newest (\<lambda>q. (RelCreatedAt q, RelID q)) limit (filter (\<lambda>q. RelApplicationID q = app) (releases db))"

definition update_releases :: "CatDb \<Rightarrow> (Release \<Rightarrow> bool) \<Rightarrow> (Release \<Rightarrow> Release) \<Rightarrow> CatDb" where
  "update_releases db p f = db\<lparr>releases := update_where p f (releases db)\<rparr>"

definition MarkReleaseDeploying :: "CatDb \<Rightarrow> string \<Rightarrow> string \<Rightarrow> CatDb" where
  "MarkReleaseDeploying db i directory =
     update_releases db (\<lambda>q. RelID q = i \<and> RelStatus q \<in> {ReleaseCreated, ReleaseFailed, ReleaseRemoved})
       (\<lambda>q. q\<lparr>RelStatus := ReleaseDeploying, Directory := directory, ActivatedAt := None,
              RelFinishedAt := None, RelErrorCode := None, RelErrorMessage := []\<rparr>)"

definition activated :: "time \<Rightarrow> Release \<Rightarrow> Release" where
  "activated now r = r\<lparr>RelStatus := ReleaseActive, ActivatedAt := Some now, RelFinishedAt := Some now\<rparr>"

definition active_in :: "string \<Rightarrow> Release \<Rightarrow> bool" where
  "active_in app r \<longleftrightarrow> RelStatus r = ReleaseActive \<and> RelApplicationID r = app"

text \<open>The number of releases that were superseded and the new state.\<close>

definition ActivateRelease :: "CatDb \<Rightarrow> string \<Rightarrow> time \<Rightarrow> nat \<times> CatDb" where
  "ActivateRelease db i now =
     (case find (\<lambda>q. RelID q = i) (releases db) of
        None \<Rightarrow> (0, db)
      | Some target \<Rightarrow>
          let app = RelApplicationID target;
              db1 = update_releases db (active_in app) (\<lambda>q. q\<lparr>RelStatus := ReleaseSuperseded\<rparr>)
          in (length (filter (active_in app) (releases db)),
              update_releases db1 (\<lambda>q. RelID q = i) (activated now)))"

definition FailRelease :: "CatDb \<Rightarrow> string \<Rightarrow> ErrorCode \<Rightarrow> string \<Rightarrow> time \<Rightarrow> CatDb" where
  "FailRelease db i code message now =
     update_releases db (\<lambda>q. RelID q = i \<and> RelStatus q \<in> {ReleaseCreated, ReleaseDeploying})
       (\<lambda>q. q\<lparr>RelStatus := ReleaseFailed, RelFinishedAt := Some now, RelErrorCode := Some code,
              RelErrorMessage := message, Directory := []\<rparr>)"

definition MarkReleaseRemoved :: "CatDb \<Rightarrow> string \<Rightarrow> time \<Rightarrow> CatDb" where
  "MarkReleaseRemoved db i now =
     update_releases db (\<lambda>q. RelID q = i \<and> RelStatus q \<in> {ReleaseSuperseded, ReleaseFailed})
       (\<lambda>q. q\<lparr>RelStatus := ReleaseRemoved, Directory := [], RelFinishedAt := Some now\<rparr>)"

definition rel_recency :: "Release \<Rightarrow> time option \<times> string" where
  "rel_recency r = (ActivatedAt r, RelID r)"

definition ActiveRelease :: "CatDb \<Rightarrow> string \<Rightarrow> Release option" where
  "ActiveRelease db app =
     first_newest rel_recency (filter (\<lambda>q. RelApplicationID q = app \<and> RelStatus q = ReleaseActive) (releases db))"

definition GetReleaseByVersion :: "CatDb \<Rightarrow> string \<Rightarrow> string \<Rightarrow> Release option" where
  "GetReleaseByVersion db app version =
     find (\<lambda>q. RelApplicationID q = app \<and> RelVersion q = version) (releases db)"

definition PreviousRelease :: "CatDb \<Rightarrow> string \<Rightarrow> Release option" where
  "PreviousRelease db app =
     first_newest rel_recency
       (filter (\<lambda>q. RelApplicationID q = app \<and> RelStatus q = ReleaseSuperseded) (releases db))"

section \<open>Manifests\<close>

definition putSpec :: "CatDb \<Rightarrow> string \<Rightarrow> string option \<Rightarrow> ApplicationSpec \<Rightarrow> ErrorCode option \<times> CatDb" where
  "putSpec db app release spec =
     (if list_ex (\<lambda>q. AppID q = app) (applications db)
      then (None, db\<lparr>application_specs := AList.update (app, release) spec (application_specs db)\<rparr>)
      else (Some CodeInternal, db))"

definition PutApplicationSpec :: "CatDb \<Rightarrow> string \<Rightarrow> ApplicationSpec \<Rightarrow> ErrorCode option \<times> CatDb" where
  "PutApplicationSpec db app spec =
     (case GetApplication db app of Inl e \<Rightarrow> (Some e, db) | Inr _ \<Rightarrow> putSpec db app None spec)"

definition PutApplicationSpecForRelease ::
  "CatDb \<Rightarrow> string \<Rightarrow> string \<Rightarrow> ApplicationSpec \<Rightarrow> ErrorCode option \<times> CatDb" where
  "PutApplicationSpecForRelease db app release spec =
     (case GetApplication db app of
        Inl e \<Rightarrow> (Some e, db)
      | Inr _ \<Rightarrow> if release = [] then (Some CodeInvalidRequest, db) else putSpec db app (Some release) spec)"

definition GetApplicationSpec :: "CatDb \<Rightarrow> string \<Rightarrow> ErrorCode + ApplicationSpec" where
  "GetApplicationSpec db app = found (map_of (application_specs db) (app, None)) CodeSpecNotFound"

definition GetApplicationSpecForRelease :: "CatDb \<Rightarrow> string \<Rightarrow> string \<Rightarrow> ErrorCode + ApplicationSpec" where
  "GetApplicationSpecForRelease db app release =
     found (map_of (application_specs db) (app, Some release)) CodeSpecNotFound"

section \<open>Slots\<close>

definition SetReleaseSlot :: "CatDb \<Rightarrow> string \<Rightarrow> Slot \<Rightarrow> ErrorCode option \<times> CatDb" where
  "SetReleaseSlot db i slot =
     (if slot \<noteq> NoSlot \<and> \<not> Slot_Valid slot then (Some CodeInvalidRequest, db)
      else (None, update_releases db (\<lambda>q. RelID q = i) (\<lambda>q. q\<lparr>RelSlot := slot\<rparr>)))"

definition PutApplicationSlot ::
  "CatDb \<Rightarrow> string \<Rightarrow> Slot \<Rightarrow> string \<Rightarrow> SlotState \<Rightarrow> time option \<Rightarrow> time \<Rightarrow> ErrorCode option \<times> CatDb" where
  "PutApplicationSlot db app slot release state switched now =
     (if \<not> Slot_Valid slot then (Some CodeInvalidRequest, db)
      else if \<not> SlotState_Valid state then (Some CodeInvalidRequest, db)
      else case GetApplication db app of
        Inl e \<Rightarrow> (Some e, db)
      | Inr _ \<Rightarrow>
          if \<not> list_ex (\<lambda>q. AppID q = app) (applications db) then (Some CodeInternal, db)
          else if list_ex (\<lambda>q. AsApplicationID q = app \<and> AsSlot q = slot) (application_slots db)
          then (None, db\<lparr>application_slots := update_where
                  (\<lambda>q. AsApplicationID q = app \<and> AsSlot q = slot)
                  (\<lambda>q. q\<lparr>AsReleaseID := release, AsState := state,
                         SwitchedAt := (if switched = None then SwitchedAt q else switched),
                         AsUpdatedAt := now\<rparr>) (application_slots db)\<rparr>)
          else (None, db\<lparr>application_slots := application_slots db @
                  [\<lparr>AsApplicationID = app, AsSlot = slot, AsReleaseID = release, AsState = state,
                    SwitchedAt = switched, AsUpdatedAt = now\<rparr>]\<rparr>))"

definition ApplicationSlots :: "CatDb \<Rightarrow> string \<Rightarrow> ApplicationSlot list" where
  "ApplicationSlots db app =
     sort_key (\<lambda>q. slot_name (AsSlot q)) (filter (\<lambda>q. AsApplicationID q = app) (application_slots db))"

definition SetServingSlot :: "CatDb \<Rightarrow> string \<Rightarrow> Slot \<Rightarrow> time \<Rightarrow> ErrorCode option \<times> CatDb" where
  "SetServingSlot db app slot now =
     (if slot \<noteq> NoSlot \<and> \<not> Slot_Valid slot then (Some CodeInvalidRequest, db)
      else if \<not> list_ex (\<lambda>q. AppID q = app) (applications db) then (Some CodeApplicationNotFound, db)
      else (None, db\<lparr>serving_slot := (serving_slot db)(app := slot),
              applications := update_where (\<lambda>q. AppID q = app) (\<lambda>q. q\<lparr>AppUpdatedAt := now\<rparr>) (applications db)\<rparr>))"

definition ServingSlot :: "CatDb \<Rightarrow> string \<Rightarrow> ErrorCode + Slot" where
  "ServingSlot db app =
     (if list_ex (\<lambda>q. AppID q = app) (applications db) then Inr (serving_slot db app)
      else Inl CodeApplicationNotFound)"

definition AppendSlotEvent :: "CatDb \<Rightarrow> SlotEvent \<Rightarrow> ErrorCode option \<times> CatDb" where
  "AppendSlotEvent db ev =
     (if \<not> Slot_Valid (SeSlot ev) then (Some CodeInvalidRequest, db)
      else if \<not> SlotEventKind_Valid (SeKind ev) then (Some CodeInvalidRequest, db)
      else case GetApplication db (SeApplicationID ev) of
        Inl e \<Rightarrow> (Some e, db)
      | Inr _ \<Rightarrow>
          if \<not> list_ex (\<lambda>q. AppID q = SeApplicationID ev) (applications db) then (Some CodeInternal, db)
          else (None, db\<lparr>slot_events := slot_events db @ [ev]\<rparr>))"

text \<open>The time line, latest first; within one moment the later row comes first.\<close>

definition SlotEvents :: "CatDb \<Rightarrow> string \<Rightarrow> int \<Rightarrow> SlotEvent list" where
  "SlotEvents db app limit =
     newest SeAt (if limit \<le> 0 then 50 else nat limit)
       (filter (\<lambda>ev. SeApplicationID ev = app) (slot_events db))"

definition ApplicationsWithSlots :: "CatDb \<Rightarrow> string list" where
  "ApplicationsWithSlots db =
     sort (remdups (map AppID (filter (\<lambda>q. serving_slot db (AppID q) \<noteq> NoSlot) (applications db))
       @ map AsApplicationID (application_slots db)
       @ map RelApplicationID (filter (\<lambda>q. RelSlot q \<noteq> NoSlot) (releases db))))"

end
