(* ===== verification/CatInv.thy ===== *)
theory CatInv
  imports Catalog
begin

text \<open>
  The catalogue as a state machine (\<open>internal/adapters/sqlite/catalog.go\<close>, \<open>slot.go\<close>): its steps are the
  statements of the store, and its invariant says that identifiers, names, digests and versions are
  unique, references lead to rows, and an application has at most one active release.
\<close>

section \<open>Invariant\<close>

text \<open>What depends on the identifying columns only.\<close>

definition rows_inv :: "string list \<Rightarrow> string list \<Rightarrow> string list \<Rightarrow> string list \<Rightarrow> Release list \<Rightarrow> bool" where
  "rows_inv apps names arts digests rels \<longleftrightarrow>
     distinct apps \<and> distinct names \<and> distinct arts \<and> distinct digests
     \<and> distinct (map RelID rels) \<and> distinct (map (\<lambda>r. (RelApplicationID r, RelVersion r)) rels)
     \<and> RelApplicationID ` set rels \<subseteq> set apps \<and> ArtifactID ` set rels \<subseteq> set arts"

definition one_active :: "Release list \<Rightarrow> bool" where
  "one_active rels \<longleftrightarrow> (\<forall>r \<in> set rels. \<forall>q \<in> set rels.
     RelStatus r = ReleaseActive \<and> RelStatus q = ReleaseActive \<and> RelApplicationID r = RelApplicationID q
     \<longrightarrow> RelID r = RelID q)"

definition was_active :: "Release list \<Rightarrow> bool" where
  "was_active rels \<longleftrightarrow>
     (\<forall>r \<in> set rels. RelStatus r = ReleaseActive \<or> RelStatus r = ReleaseSuperseded \<longrightarrow> ActivatedAt r \<noteq> None)"

definition slots_inv :: "ApplicationSlot list \<Rightarrow> bool" where
  "slots_inv rows \<longleftrightarrow> distinct (map (\<lambda>q. (AsApplicationID q, AsSlot q)) rows)
     \<and> (\<forall>q \<in> set rows. Slot_Valid (AsSlot q) \<and> SlotState_Valid (AsState q))"

definition cat_inv :: "CatDb \<Rightarrow> bool" where
  "cat_inv db \<longleftrightarrow>
     rows_inv (map AppID (applications db)) (map AppName (applications db))
       (map ArtID (artifacts db)) (map ArtDigest (artifacts db)) (releases db)
     \<and> one_active (releases db) \<and> was_active (releases db) \<and> slots_inv (application_slots db)"

section \<open>Steps\<close>

inductive cat_step :: "CatDb \<Rightarrow> CatDb \<Rightarrow> bool" where
  create_artifact: "cat_step db (snd (CreateArtifact db a))"
| delete_artifact: "cat_step db (snd (SoftDeleteArtifact db i t))"
| create_application: "cat_step db (snd (CreateApplication db a))"
| create_release: "RelStatus r = ReleaseCreated \<or> RelStatus r = ReleaseStatusOther [] \<Longrightarrow>
    cat_step db (snd (CreateRelease db r))"
| deploying: "cat_step db (MarkReleaseDeploying db i dir)"
| activate: "cat_step db (snd (ActivateRelease db i t))"
| fail: "cat_step db (FailRelease db i c m t)"
| remove: "cat_step db (MarkReleaseRemoved db i t)"
| put_spec: "cat_step db (snd (PutApplicationSpec db i s))"
| put_release_spec: "cat_step db (snd (PutApplicationSpecForRelease db i j s))"
| release_slot: "cat_step db (snd (SetReleaseSlot db i sl))"
| put_slot: "cat_step db (snd (PutApplicationSlot db i sl j st sw t))"
| serving: "cat_step db (snd (SetServingSlot db i sl t))"
| event: "cat_step db (snd (AppendSlotEvent db ev))"

definition cat_reachable :: "CatDb \<Rightarrow> bool" where
  "cat_reachable db \<longleftrightarrow> cat_step\<^sup>*\<^sup>* empty_cat db"

section \<open>Preservation\<close>

lemma update_releases_fields [simp]:
  "artifacts (update_releases db p f) = artifacts db" "applications (update_releases db p f) = applications db"
  "application_slots (update_releases db p f) = application_slots db"
  "serving_slot (update_releases db p f) = serving_slot db" "slot_events (update_releases db p f) = slot_events db"
  "application_specs (update_releases db p f) = application_specs db"
  "releases (update_releases db p f) = update_where p f (releases db)"
  by (simp_all add: update_releases_def)

lemma one_active_keys:
  "one_active rels \<longleftrightarrow> (\<forall>(i, app, st) \<in> (\<lambda>r. (RelID r, RelApplicationID r, RelStatus r)) ` set rels.
     \<forall>(j, app', st') \<in> (\<lambda>r. (RelID r, RelApplicationID r, RelStatus r)) ` set rels.
     st = ReleaseActive \<and> st' = ReleaseActive \<and> app = app' \<longrightarrow> i = j)"
  unfolding one_active_def by simp

lemma one_active_append: "RelStatus r \<noteq> ReleaseActive \<Longrightarrow> one_active (rels @ [r]) \<longleftrightarrow> one_active rels"
  unfolding one_active_def by auto

text \<open>An update that makes no release active keeps the invariant.\<close>

lemma one_active_update:
  assumes "one_active rels" "\<And>q. p q \<Longrightarrow> RelStatus (f q) \<noteq> ReleaseActive"
  shows "one_active (update_where p f rels)"
  using assms unfolding one_active_def set_update_where by auto

lemma was_active_update:
  assumes "was_active rels"
    and "\<And>q. p q \<Longrightarrow> RelStatus (f q) = ReleaseActive \<or> RelStatus (f q) = ReleaseSuperseded \<Longrightarrow>
           (RelStatus q = ReleaseActive \<or> RelStatus q = ReleaseSuperseded \<Longrightarrow> ActivatedAt q \<noteq> None) \<Longrightarrow>
           ActivatedAt (f q) \<noteq> None"
  shows "was_active (update_where p f rels)"
  using assms unfolding was_active_def set_update_where by auto

lemma cat_inv_update:
  assumes "cat_inv db" "\<And>q. RelID (f q) = RelID q" "\<And>q. RelApplicationID (f q) = RelApplicationID q"
    and "\<And>q. ArtifactID (f q) = ArtifactID q" "\<And>q. RelVersion (f q) = RelVersion q" "\<And>q. p q \<Longrightarrow> RelStatus (f q) \<noteq> ReleaseActive"
    and "\<And>q. p q \<Longrightarrow> RelStatus (f q) = ReleaseSuperseded \<Longrightarrow> RelStatus q = ReleaseActive \<and> ActivatedAt (f q) = ActivatedAt q"
  shows "cat_inv (update_releases db p f)"
proof -
  have "was_active (update_where p f (releases db))"
    using assms(1,6,7) by (intro was_active_update) (auto simp: cat_inv_def)
  then show ?thesis
    using assms(1) one_active_update [of "releases db" p f] assms(2-6) by (simp add: cat_inv_def rows_inv_def)
qed

lemma cat_inv_untouched:
  assumes "cat_inv db" "releases db' = releases db" "artifacts db' = artifacts db"
    and "map AppID (applications db') = map AppID (applications db)"
    and "map AppName (applications db') = map AppName (applications db)"
    and "slots_inv (application_slots db')"
  shows "cat_inv db'"
  using assms by (simp add: cat_inv_def)

lemma cat_inv_slots: "cat_inv db \<Longrightarrow> slots_inv (application_slots db)"
  by (simp add: cat_inv_def)

lemma SoftDelete_inv: "cat_inv db \<Longrightarrow> cat_inv (snd (SoftDeleteArtifact db i t))"
  by (simp add: SoftDeleteArtifact_def cat_inv_def rows_inv_def)

lemma CreateArtifact_inv:
  assumes "cat_inv db"
  shows "cat_inv (snd (CreateArtifact db a))"
proof (cases "find (\<lambda>q. ArtDigest q = ArtDigest a) (artifacts db)")
  case (Some e)
  then show ?thesis using assms by (simp add: CreateArtifact_def cat_inv_def rows_inv_def split: option.split)
next
  case None
  then have "ArtDigest a \<notin> ArtDigest ` set (artifacts db)" by (auto simp: find_None_iff)
  then show ?thesis using assms None
    by (auto simp: CreateArtifact_def cat_inv_def rows_inv_def list_ex_iff split: option.split)
qed

lemma CreateApplication_inv:
  assumes "cat_inv db"
  shows "cat_inv (snd (CreateApplication db a))"
  using assms by (auto simp: CreateApplication_def cat_inv_def rows_inv_def list_ex_iff split: option.splits)

lemma CreateRelease_cases:
  assumes "RelStatus r = ReleaseCreated \<or> RelStatus r = ReleaseStatusOther []"
  obtains "snd (CreateRelease db r) = db"
    | r' where "snd (CreateRelease db r) = db\<lparr>releases := releases db @ [r']\<rparr>" "RelStatus r' = ReleaseCreated"
      "RelID r' = RelID r" "RelApplicationID r' = RelApplicationID r" "RelVersion r' = RelVersion r" "ArtifactID r' = ArtifactID r"
      "\<not> list_ex (\<lambda>q. RelID q = RelID r \<or> (RelApplicationID q = RelApplicationID r \<and> RelVersion q = RelVersion r)) (releases db)"
      "list_ex (\<lambda>q. AppID q = RelApplicationID r) (applications db)" "list_ex (\<lambda>q. ArtID q = ArtifactID r) (artifacts db)"
proof -
  define r' where "r' = r\<lparr>RelStatus := ReleaseCreated, RelSlot := NoSlot, Directory := [], ActivatedAt := None,
    RelFinishedAt := None, RelErrorCode := None, RelErrorMessage := []\<rparr>"
  have st: "(if RelStatus r = ReleaseStatusOther [] then ReleaseCreated else RelStatus r) = ReleaseCreated"
    using assms by auto
  show thesis
  proof (cases "Release_Validate r = None \<and> (\<exists>a. GetApplication db (RelApplicationID r) = Inr a)
      \<and> (\<exists>a. GetArtifact db (ArtifactID r) = Inr a)
      \<and> \<not> list_ex (\<lambda>q. RelID q = RelID r \<or> (RelApplicationID q = RelApplicationID r \<and> RelVersion q = RelVersion r)) (releases db)
      \<and> list_ex (\<lambda>q. AppID q = RelApplicationID r) (applications db) \<and> list_ex (\<lambda>q. ArtID q = ArtifactID r) (artifacts db)")
    case True
    then have "snd (CreateRelease db r) = db\<lparr>releases := releases db @ [r']\<rparr>"
      by (elim conjE exE) (simp add: CreateRelease_def st Let_def r'_def)
    then show ?thesis using True that(2) [of r'] by (simp add: r'_def)
  next
    case False
    then have "snd (CreateRelease db r) = db"
      by (cases "Release_Validate r"; cases "GetApplication db (RelApplicationID r)"; cases "GetArtifact db (ArtifactID r)")
        (auto simp: CreateRelease_def st Let_def)
    then show ?thesis by (rule that(1))
  qed
qed

lemma CreateRelease_inv:
  assumes "cat_inv db" "RelStatus r = ReleaseCreated \<or> RelStatus r = ReleaseStatusOther []"
  shows "cat_inv (snd (CreateRelease db r))"
proof (rule CreateRelease_cases [OF assms(2), of db])
  fix r' assume r': "snd (CreateRelease db r) = db\<lparr>releases := releases db @ [r']\<rparr>" "RelStatus r' = ReleaseCreated"
    and ids: "RelID r' = RelID r" "RelApplicationID r' = RelApplicationID r" "RelVersion r' = RelVersion r" "ArtifactID r' = ArtifactID r"
      "\<not> list_ex (\<lambda>q. RelID q = RelID r \<or> (RelApplicationID q = RelApplicationID r \<and> RelVersion q = RelVersion r)) (releases db)"
      "list_ex (\<lambda>q. AppID q = RelApplicationID r) (applications db)" "list_ex (\<lambda>q. ArtID q = ArtifactID r) (artifacts db)"
  have "one_active (releases db @ [r'])" "was_active (releases db @ [r'])"
    using assms(1) r'(2) by (simp_all add: cat_inv_def one_active_append) (simp add: was_active_def)
  then show ?thesis
    using assms(1) ids unfolding r'(1)
    by (auto simp: cat_inv_def rows_inv_def list_ex_iff image_iff) metis+
qed (use assms in simp)

lemma ActivateRelease_inv:
  assumes "cat_inv db"
  shows "cat_inv (snd (ActivateRelease db i t))"
proof (cases "find (\<lambda>q. RelID q = i) (releases db)")
  case (Some r)
  define db1 where "db1 = update_releases db (active_in (RelApplicationID r)) (\<lambda>q. q\<lparr>RelStatus := ReleaseSuperseded\<rparr>)"
  have inv1: "cat_inv db1"
    unfolding db1_def by (rule cat_inv_update [OF assms]) (auto simp: active_in_def)
  have none: "\<not> active_in (RelApplicationID r) q" if "q \<in> set (releases db1)" for q
    using that by (auto simp: db1_def active_in_def set_update_where split: if_splits)
  have ids: "distinct (map RelID (releases db1))" using inv1 by (simp add: cat_inv_def rows_inv_def)
  have r_app: "RelApplicationID q = RelApplicationID r" if q: "q \<in> set (releases db1)" "RelID q = i" for q
  proof -
    from Some have r: "r \<in> set (releases db)" "RelID r = i" by (auto simp: find_Some_iff)
    have "distinct (map RelID (releases db))" using assms by (simp add: cat_inv_def rows_inv_def)
    moreover obtain p where "p \<in> set (releases db)" "RelID p = RelID q" "RelApplicationID p = RelApplicationID q"
      using q(1) by (force simp: db1_def set_update_where split: if_splits)
    ultimately show ?thesis using r q(2) by (metis distinct_map inj_on_def)
  qed
  have "one_active (update_where (\<lambda>q. RelID q = i) (activated t) (releases db1))"
  proof -
    have old: "one_active (releases db1)" using inv1 by (simp add: cat_inv_def)
    have "RelID x = RelID y"
      if "x \<in> set (releases db1)" "y \<in> set (releases db1)" "RelStatus y = ReleaseActive"
        "RelApplicationID x = RelApplicationID y" "RelID x = i" for x y
      using none [OF that(2)] that r_app [OF that(1,5)] by (simp add: active_in_def)
    note act = this
    show ?thesis unfolding one_active_def
    proof (intro ballI impI)
      fix x y assume "x \<in> set (update_where (\<lambda>q. RelID q = i) (activated t) (releases db1))"
        and "y \<in> set (update_where (\<lambda>q. RelID q = i) (activated t) (releases db1))"
        and act': "RelStatus x = ReleaseActive \<and> RelStatus y = ReleaseActive \<and> RelApplicationID x = RelApplicationID y"
      then obtain x0 y0 where x0: "x0 \<in> set (releases db1)" "x = (if RelID x0 = i then activated t x0 else x0)"
        and y0: "y0 \<in> set (releases db1)" "y = (if RelID y0 = i then activated t y0 else y0)"
        unfolding set_update_where by blast
      show "RelID x = RelID y"
      proof (cases "RelID x0 = i"; cases "RelID y0 = i")
        assume c: "RelID x0 = i" "RelID y0 \<noteq> i"
        then have "RelStatus y0 = ReleaseActive" "RelApplicationID x0 = RelApplicationID y0"
          using act' x0(2) y0(2) by (simp_all add: activated_def)
        then show ?thesis using act [OF x0(1) y0(1)] c x0(2) y0(2) by simp
      next
        assume c: "RelID x0 \<noteq> i" "RelID y0 = i"
        then have "RelStatus x0 = ReleaseActive" "RelApplicationID y0 = RelApplicationID x0"
          using act' x0(2) y0(2) by (simp_all add: activated_def)
        then show ?thesis using act [OF y0(1) x0(1)] c x0(2) y0(2) by simp
      next
        assume c: "RelID x0 \<noteq> i" "RelID y0 \<noteq> i"
        then have "x = x0" "y = y0" using x0(2) y0(2) by simp_all
        then show ?thesis using old [unfolded one_active_def] x0(1) y0(1) act' by blast
      qed (use x0 y0 in \<open>simp add: activated_def\<close>)
    qed
  qed
  moreover have "was_active (update_where (\<lambda>q. RelID q = i) (activated t) (releases db1))"
    using inv1 by (intro was_active_update) (auto simp: cat_inv_def activated_def)
  moreover have "snd (ActivateRelease db i t) = update_releases db1 (\<lambda>q. RelID q = i) (activated t)"
    using Some by (simp add: ActivateRelease_def Let_def db1_def)
  ultimately show ?thesis using inv1 by (simp add: cat_inv_def rows_inv_def activated_def)
qed (use assms in \<open>simp add: ActivateRelease_def\<close>)

lemma PutApplicationSlot_inv:
  assumes "cat_inv db"
  shows "cat_inv (snd (PutApplicationSlot db app sl rel st sw t))"
proof -
  have "slots_inv (application_slots (snd (PutApplicationSlot db app sl rel st sw t)))"
    using cat_inv_slots [OF assms]
    by (auto simp: PutApplicationSlot_def slots_inv_def set_update_where list_ex_iff split: sum.splits)
  moreover have "releases (snd (PutApplicationSlot db app sl rel st sw t)) = releases db"
    "artifacts (snd (PutApplicationSlot db app sl rel st sw t)) = artifacts db"
    "applications (snd (PutApplicationSlot db app sl rel st sw t)) = applications db"
    by (simp_all add: PutApplicationSlot_def split: sum.split)
  ultimately show ?thesis using assms by (simp add: cat_inv_def)
qed

lemma cat_step_inv: "cat_step db db' \<Longrightarrow> cat_inv db \<Longrightarrow> cat_inv db'"
proof (induction rule: cat_step.induct)
  case (create_release r db)
  then show ?case by (intro CreateRelease_inv)
next
  case (deploying db i dir)
  then show ?case unfolding MarkReleaseDeploying_def by (intro cat_inv_update) simp_all
next
  case (fail db i c m t)
  then show ?case unfolding FailRelease_def by (intro cat_inv_update) simp_all
next
  case (remove db i t)
  then show ?case unfolding MarkReleaseRemoved_def by (intro cat_inv_update) simp_all
next
  case (release_slot db i sl)
  have active: "one_active (releases db)" using release_slot by (simp add: cat_inv_def)
  have "(\<lambda>r. (RelID r, RelApplicationID r, RelStatus r)) ` set (update_where (\<lambda>q. RelID q = i) (RelSlot_update (\<lambda>_. sl)) (releases db))
      = (\<lambda>r. (RelID r, RelApplicationID r, RelStatus r)) ` set (releases db)" by simp
  with active have "one_active (update_where (\<lambda>q. RelID q = i) (RelSlot_update (\<lambda>_. sl)) (releases db))"
    by (subst one_active_keys) (subst (asm) (1) one_active_keys, simp only:)
  moreover have "was_active (update_where (\<lambda>q. RelID q = i) (RelSlot_update (\<lambda>_. sl)) (releases db))"
    using release_slot by (intro was_active_update) (auto simp: cat_inv_def)
  ultimately show ?case using release_slot by (simp add: SetReleaseSlot_def cat_inv_def rows_inv_def)
next
  case (serving db i sl t)
  then show ?case by (simp add: SetServingSlot_def cat_inv_def)
next
  case (event db ev)
  then show ?case by (simp add: AppendSlotEvent_def cat_inv_def split: sum.split)
next
  case (put_spec db i s)
  then show ?case by (simp add: PutApplicationSpec_def putSpec_def cat_inv_def split: sum.split)
next
  case (put_release_spec db i j s)
  then show ?case by (simp add: PutApplicationSpecForRelease_def putSpec_def cat_inv_def split: sum.split)
qed (simp_all only: SoftDelete_inv CreateArtifact_inv CreateApplication_inv ActivateRelease_inv PutApplicationSlot_inv)

lemma cat_reachable_inv: "cat_reachable db \<Longrightarrow> cat_inv db"
  unfolding cat_reachable_def
proof (induction rule: rtranclp_induct)
  case base
  show ?case by (simp add: cat_inv_def rows_inv_def one_active_def was_active_def slots_inv_def empty_cat_def)
qed (rule cat_step_inv)

section \<open>The newest row\<close>

lemma first_newest_last: "first_newest k rows = (if rows = [] then None else Some (last (sort_key k rows)))"
proof (cases "sort_key k rows" rule: rev_cases)
  case Nil
  then have "rows = []" by (metis length_0_conv length_sort)
  then show ?thesis by (simp add: first_newest_def newest_def)
next
  case (snoc ys y)
  then have "rows \<noteq> []" by auto
  then show ?thesis using snoc by (simp add: first_newest_def newest_def)
qed

lemma first_newest_in: "first_newest k rows = Some r \<Longrightarrow> r \<in> set rows"
  by (metis first_newest_last last_in_set length_0_conv length_sort option.distinct(1) option.inject set_sort)

lemma first_newest_max:
  assumes "first_newest k rows = Some r" "q \<in> set rows"
  shows "k q \<le> k r"
proof (cases "sort_key k rows" rule: rev_cases)
  case Nil
  then show ?thesis using assms(2) by (metis empty_iff empty_set set_sort)
next
  case (snoc ys y)
  have "sorted (map k (ys @ [y]))" using snoc sorted_sort_key [of k rows] by simp
  moreover have "r = y" using assms snoc by (simp add: first_newest_last split: if_splits)
  moreover have "q \<in> set (ys @ [y])" using assms(2) snoc by (metis set_sort)
  ultimately show ?thesis by (auto simp: sorted_append)
qed

lemma first_newest_unique:
  assumes "x \<in> set rows" "\<And>q. q \<in> set rows \<Longrightarrow> q \<noteq> x \<Longrightarrow> k q < k x"
  shows "first_newest k rows = Some x"
proof -
  have "rows \<noteq> []" using assms(1) by auto
  then obtain r where r: "first_newest k rows = Some r" by (simp add: first_newest_last)
  have "\<not> k r < k x" using first_newest_max [OF r assms(1)] by simp
  then show ?thesis using r assms(2) [OF first_newest_in [OF r]] by blast
qed

section \<open>Activation\<close>

lemma cat_inv_parts:
  assumes "cat_inv db"
  shows "distinct (map RelID (releases db))" "one_active (releases db)" "was_active (releases db)"
    "distinct (map AppID (applications db))" "distinct (map AppName (applications db))"
    "distinct (map ArtDigest (artifacts db))"
    "distinct (map (\<lambda>r. (RelApplicationID r, RelVersion r)) (releases db))"
    "RelApplicationID ` set (releases db) \<subseteq> AppID ` set (applications db)"
    "ArtifactID ` set (releases db) \<subseteq> ArtID ` set (artifacts db)"
  using assms by (simp_all add: cat_inv_def rows_inv_def)

lemma one_activeD:
  "one_active rels \<Longrightarrow> r \<in> set rels \<Longrightarrow> q \<in> set rels \<Longrightarrow> active_in app r \<Longrightarrow> active_in app q \<Longrightarrow> RelID r = RelID q"
  unfolding one_active_def active_in_def by (elim ballE [where x = r] ballE [where x = q]) simp_all

lemma same_RelID:
  "distinct (map RelID rels) \<Longrightarrow> r \<in> set rels \<Longrightarrow> q \<in> set rels \<Longrightarrow> RelID r = RelID q \<Longrightarrow> r = q"
  by (simp add: distinct_map inj_on_def)

lemma ActiveRelease_unique:
  assumes "distinct (map RelID (releases db))" "one_active (releases db)" "r \<in> set (releases db)" "active_in app r"
  shows "ActiveRelease db app = Some r"
proof -
  have eq: "q = r" if "q \<in> set (releases db)" "active_in app q" for q
    by (rule same_RelID [OF assms(1) that(1) assms(3) one_activeD [OF assms(2) that(1) assms(3) that(2) assms(4)]])
  show ?thesis unfolding ActiveRelease_def
  proof (rule first_newest_unique)
    fix q assume "q \<in> set (filter (\<lambda>q. RelApplicationID q = app \<and> RelStatus q = ReleaseActive) (releases db))" "q \<noteq> r"
    then show "rel_recency q < rel_recency r" using eq [of q] by (simp add: active_in_def)
  qed (use assms(3,4) in \<open>simp add: active_in_def\<close>)
qed

lemma find_RelID:
  assumes "distinct (map RelID rels)"
  shows "find (\<lambda>q. RelID q = i) rels = Some r \<longleftrightarrow> r \<in> set rels \<and> RelID r = i"
  using assms
proof (induction rels)
  case (Cons a rels)
  then show ?case by (cases "RelID a = i") (auto simp: image_iff)
qed simp

lemma activated_fields [simp]:
  "RelID (activated t r) = RelID r" "RelApplicationID (activated t r) = RelApplicationID r"
  "RelStatus (activated t r) = ReleaseActive" "ActivatedAt (activated t r) = Some t"
  by (simp_all add: activated_def)

text \<open>What an activation does to each row, when the row of the new release is unique.\<close>

definition after_activation :: "string \<Rightarrow> string \<Rightarrow> time \<Rightarrow> Release \<Rightarrow> Release" where
  "after_activation app i t q =
     (if RelID q = i then activated t q
      else if active_in app q then q\<lparr>RelStatus := ReleaseSuperseded\<rparr> else q)"

lemma ActivateRelease_rows:
  assumes "find (\<lambda>q. RelID q = i) (releases db) = Some r"
  shows "releases (snd (ActivateRelease db i t)) = map (after_activation (RelApplicationID r) i t) (releases db)"
  using assms
  by (simp add: ActivateRelease_def Let_def update_where_def)
     (auto simp: after_activation_def activated_def)

lemma ActivateRelease_active:
  assumes inv: "cat_inv db" and r: "GetRelease db i = Inr r"
  shows "ActiveRelease (snd (ActivateRelease db i t)) (RelApplicationID r) = Some (activated t r)"
proof -
  note inv' = ActivateRelease_inv [OF inv, of i t]
  have "r \<in> set (releases db)" "RelID r = i"
    using r find_RelID [OF cat_inv_parts(1) [OF inv]] by (simp_all add: GetRelease_def)
  moreover have "find (\<lambda>q. RelID q = i) (releases db) = Some r" using r by (simp add: GetRelease_def)
  ultimately have "activated t r \<in> set (releases (snd (ActivateRelease db i t)))"
    by (simp add: ActivateRelease_rows) (metis after_activation_def image_eqI)
  then show ?thesis
    using cat_inv_parts(1,2) [OF inv'] by (intro ActiveRelease_unique) (simp_all add: active_in_def)
qed

lemma ActivateRelease_previous:
  assumes inv: "cat_inv db" and r: "GetRelease db i = Inr r" and p: "ActiveRelease db (RelApplicationID r) = Some p"
    and "RelID p \<noteq> i"
    and old: "\<And>q. q \<in> set (releases db) \<Longrightarrow> RelApplicationID q = RelApplicationID r \<Longrightarrow>
                RelStatus q = ReleaseSuperseded \<Longrightarrow> rel_recency q < rel_recency p"
  shows "PreviousRelease (snd (ActivateRelease db i t)) (RelApplicationID r) = Some (p\<lparr>RelStatus := ReleaseSuperseded\<rparr>)"
proof -
  let ?app = "RelApplicationID r" and ?p = "p\<lparr>RelStatus := ReleaseSuperseded\<rparr>"
  have f: "find (\<lambda>q. RelID q = i) (releases db) = Some r" using r by (simp add: GetRelease_def)
  have pin: "p \<in> set (releases db)" "active_in ?app p"
    using first_newest_in p unfolding ActiveRelease_def by (force simp: active_in_def)+
  then have "after_activation ?app i t p = ?p" using assms(4) by (simp add: after_activation_def)
  then have in': "?p \<in> set (map (after_activation ?app i t) (releases db))" using pin(1) by force
  have less: "rel_recency q' < rel_recency ?p"
    if q': "q' \<in> set (map (after_activation ?app i t) (releases db))" "RelApplicationID q' = ?app"
      "RelStatus q' = ReleaseSuperseded" "q' \<noteq> ?p" for q'
  proof -
    obtain q where q: "q \<in> set (releases db)" "q' = after_activation ?app i t q" using q'(1) by auto
    have "\<not> active_in ?app q"
    proof
      assume a: "active_in ?app q"
      have "q = p"
        by (rule same_RelID [OF cat_inv_parts(1) [OF inv] q(1) pin(1)
              one_activeD [OF cat_inv_parts(2) [OF inv] q(1) pin(1) a pin(2)]])
      then show False using q(2) q'(4) \<open>after_activation ?app i t p = ?p\<close> by simp
    qed
    then have "q' = q" using q(2) q'(3) by (auto simp: after_activation_def split: if_splits)
    then have "rel_recency q' < rel_recency p" using old q'(2,3) q(1) by simp
    then show ?thesis by (simp add: rel_recency_def)
  qed
  show ?thesis unfolding PreviousRelease_def ActivateRelease_rows [OF f]
  proof (rule first_newest_unique)
    show "?p \<in> set (filter (\<lambda>q. RelApplicationID q = ?app \<and> RelStatus q = ReleaseSuperseded)
            (map (after_activation ?app i t) (releases db)))"
      using in' pin(2) by (simp add: active_in_def)
  qed (use less in auto)
qed

lemma filter_update_other:
  assumes "\<And>q. q \<in> set xs \<Longrightarrow> P q \<Longrightarrow> f q = q" "\<And>q. q \<in> set xs \<Longrightarrow> P (f q) = P q"
  shows "filter P (map f xs) = filter P xs"
  using assms by (induction xs) simp_all

lemma ActivateRelease_others:
  assumes "cat_inv db" "GetRelease db i = Inr r"
  shows "filter (\<lambda>q. RelApplicationID q \<noteq> RelApplicationID r) (releases (snd (ActivateRelease db i t)))
       = filter (\<lambda>q. RelApplicationID q \<noteq> RelApplicationID r) (releases db)"
proof -
  have f: "find (\<lambda>q. RelID q = i) (releases db) = Some r" using assms(2) by (simp add: GetRelease_def)
  have "RelApplicationID q = RelApplicationID r" if "q \<in> set (releases db)" "RelID q = i" for q
    using that find_RelID [OF cat_inv_parts(1) [OF assms(1)], of i q] f by simp
  then show ?thesis unfolding ActivateRelease_rows [OF f]
    by (intro filter_update_other) (auto simp: after_activation_def active_in_def)
qed

lemma active_count:
  assumes "cat_inv db" "ActiveRelease db app = Some p"
  shows "length (filter (active_in app) (releases db)) = 1"
proof -
  have p: "p \<in> set (filter (active_in app) (releases db))"
    using first_newest_in assms(2) unfolding ActiveRelease_def by (force simp: active_in_def)
  have d: "distinct (map RelID (filter (active_in app) (releases db)))"
    using cat_inv_parts(1) [OF assms(1)] by (simp add: distinct_map_filter)
  have "RelID q = RelID p" if "q \<in> set (filter (active_in app) (releases db))" for q
    using that p one_activeD [OF cat_inv_parts(2) [OF assms(1)], of q p app] by simp
  then have "set (map RelID (filter (active_in app) (releases db))) = {RelID p}"
    unfolding set_map using p by blast
  then show ?thesis using distinct_card [OF d] by simp
qed

section \<open>Properties\<close>

definition sample_artifact :: Artifact where
  "sample_artifact = \<lparr>ArtID = ''art1'', ArtDigest = ''sha256:'' @ replicate 64 (CHR ''a''), ArtSize = 10, MediaType = [],
     ArtName = ''server'', ArtCreatedAt = 1, ArtCreatedBy = ''root'', DeletedAt = None\<rparr>"

definition sample_application :: Application where
  "sample_application = \<lparr>AppID = ''app1'', AppName = ''shop'', AppLabels = [], AppCreatedAt = 2, AppUpdatedAt = 2\<rparr>"

definition sample_release :: "string \<Rightarrow> string \<Rightarrow> Release" where
  "sample_release i v = \<lparr>RelID = i, RelApplicationID = ''app1'', ArtifactID = ''art1'', RelVersion = v, RelLabels = [],
     RelCreatedAt = 3, RelCreatedBy = ''root'', RelStatus = ReleaseCreated, RelSlot = NoSlot, Directory = [],
     ActivatedAt = None, RelFinishedAt = None, RelErrorCode = None, RelErrorMessage = []\<rparr>"

definition sample_cat :: CatDb where
  "sample_cat =
     (let db1 = snd (CreateArtifact empty_cat sample_artifact);
          db2 = snd (CreateApplication db1 sample_application);
          db3 = snd (CreateRelease db2 (sample_release ''rel1'' ''1.0''));
          db4 = snd (CreateRelease db3 (sample_release ''rel2'' ''1.1''));
          db5 = MarkReleaseDeploying db4 ''rel1'' ''/opt/frz/shop/releases/rel1''
      in snd (ActivateRelease db5 ''rel1'' 10))"

lemma sample_cat_reachable: "cat_reachable sample_cat"
proof -
  have c: "RelStatus (sample_release i v) = ReleaseCreated \<or> RelStatus (sample_release i v) = ReleaseStatusOther []" for i v
    by (simp add: sample_release_def)
  note more = rtranclp.rtrancl_into_rtrancl [of cat_step]
  show ?thesis unfolding cat_reachable_def sample_cat_def Let_def
    by (rule more, rule more, rule more, rule more, rule more, rule more, rule rtranclp.rtrancl_refl)
      (rule cat_step.intros c)+
qed

text \<open>C10 In every state of the catalogue that the store's statements can reach, an application has at
  most one active release, its versions are unique, releases belong to applications and artifacts that
  exist, and names, digests and the slots of an application are unique.\<close>

theorem catalogue_consistent:
  assumes "cat_reachable db"
  shows "(\<forall>app. length (filter (active_in app) (releases db)) \<le> 1)
    \<and> distinct (map (\<lambda>r. (RelApplicationID r, RelVersion r)) (releases db))
    \<and> (\<forall>r \<in> set (releases db). RelApplicationID r \<in> AppID ` set (applications db)
          \<and> ArtifactID r \<in> ArtID ` set (artifacts db))
    \<and> distinct (map AppName (applications db)) \<and> distinct (map ArtDigest (artifacts db))
    \<and> distinct (map (\<lambda>q. (AsApplicationID q, AsSlot q)) (application_slots db))"
proof -
  note inv = cat_reachable_inv [OF assms]
  have "length (filter (active_in app) (releases db)) \<le> 1" for app
  proof (cases "filter (active_in app) (releases db)")
    case (Cons r rs)
    then have "r \<in> set (releases db)" "active_in app r" by (metis filter_eq_Cons_iff in_set_conv_decomp list.set_intros(1) mem_Collect_eq set_filter)+
    then have "ActiveRelease db app = Some r" by (intro ActiveRelease_unique cat_inv_parts [OF inv])
    then show ?thesis using active_count [OF inv] by simp
  qed simp
  then show ?thesis using cat_inv_parts [OF inv] cat_inv_slots [OF inv] by (auto simp: slots_inv_def)
qed

theorem catalogue_consistent_witness:
  "length (filter (active_in ''app1'') (releases sample_cat)) \<le> 1 \<and> length (releases sample_cat) = 2"
proof -
  have "length (releases sample_cat) = 2" by code_simp
  then show ?thesis using catalogue_consistent [OF sample_cat_reachable] by blast
qed

text \<open>Activating a release makes it the active release of its application and the one that was active
  before the target of the next rollback, provided no superseded release was activated later; exactly one
  row is superseded, and the releases of other applications stay as they are.\<close>

theorem activation_switches:
  assumes "cat_reachable db" and "GetRelease db i = Inr r"
    and "ActiveRelease db (RelApplicationID r) = Some p" and "RelID p \<noteq> i"
    and "\<forall>q \<in> set (releases db). RelApplicationID q = RelApplicationID r \<and>
           RelStatus q = ReleaseSuperseded \<longrightarrow> rel_recency q < rel_recency p"
  shows "fst (ActivateRelease db i t) = 1
    \<and> ActiveRelease (snd (ActivateRelease db i t)) (RelApplicationID r)
        = Some (r\<lparr>RelStatus := ReleaseActive, ActivatedAt := Some t, RelFinishedAt := Some t\<rparr>)
    \<and> PreviousRelease (snd (ActivateRelease db i t)) (RelApplicationID r) = Some (p\<lparr>RelStatus := ReleaseSuperseded\<rparr>)
    \<and> filter (\<lambda>q. RelApplicationID q \<noteq> RelApplicationID r) (releases (snd (ActivateRelease db i t)))
        = filter (\<lambda>q. RelApplicationID q \<noteq> RelApplicationID r) (releases db)"
proof -
  note inv = cat_reachable_inv [OF assms(1)]
  have "fst (ActivateRelease db i t) = 1"
    using active_count [OF inv assms(3)] assms(2) by (simp add: ActivateRelease_def GetRelease_def Let_def)
  then show ?thesis
    by (intro conjI ActivateRelease_active [OF inv assms(2), unfolded activated_def]
        ActivateRelease_previous [OF inv assms(2-4)] ActivateRelease_others [OF inv assms(2)])
      (assumption, rule assms(5) [rule_format], simp_all)
qed

theorem activation_switches_witness:
  "map_option RelID (ActiveRelease (snd (ActivateRelease sample_cat ''rel2'' 20)) ''app1'') = Some ''rel2''
   \<and> map_option RelID (PreviousRelease (snd (ActivateRelease sample_cat ''rel2'' 20)) ''app1'') = Some ''rel1''"
proof -
  let ?r2 = "sample_release ''rel2'' ''1.1''"
  let ?r1 = "(sample_release ''rel1'' ''1.0'')\<lparr>RelStatus := ReleaseActive, Directory := ''/opt/frz/shop/releases/rel1'',
     ActivatedAt := Some 10, RelFinishedAt := Some 10\<rparr>"
  have rows: "releases sample_cat = [?r1, ?r2]" by code_simp
  have r: "GetRelease sample_cat ''rel2'' = Inr ?r2"
    by (simp add: GetRelease_def rows) (simp add: sample_release_def)
  have a: "ActiveRelease sample_cat (RelApplicationID ?r2) = Some ?r1" by code_simp
  have recent: "\<forall>q \<in> set (releases sample_cat). RelApplicationID q = RelApplicationID ?r2 \<and>
      RelStatus q = ReleaseSuperseded \<longrightarrow> rel_recency q < rel_recency ?r1"
    unfolding rows by (simp add: sample_release_def)
  have "RelID ?r1 \<noteq> ''rel2''" by (simp add: sample_release_def)
  note act = activation_switches [OF sample_cat_reachable r a this recent, of 20]
  have app: "RelApplicationID ?r2 = ''app1''" by (simp add: sample_release_def)
  have new: "ActiveRelease (snd (ActivateRelease sample_cat ''rel2'' 20)) ''app1''
      = Some (?r2\<lparr>RelStatus := ReleaseActive, ActivatedAt := Some 20, RelFinishedAt := Some 20\<rparr>)"
    using act unfolding app by (elim conjE)
  have old: "PreviousRelease (snd (ActivateRelease sample_cat ''rel2'' 20)) ''app1''
      = Some (?r1\<lparr>RelStatus := ReleaseSuperseded\<rparr>)"
    using act unfolding app by (elim conjE)
  show ?thesis unfolding new old by (simp add: sample_release_def)
qed

end
