(* ===== verification/Effects.thy ===== *)
theory Effects
  imports ApiErrors
begin

text \<open>
  The monad the services with adapters are written in: a state and a fault that keeps the state reached,
  as an \<open>error\<close> of Go does (nothing is undone). \<open>attempt m h k\<close> is
  \<open>x, err := m(); if err != nil { return h(err) }; k(x)\<close>, and \<open>andthen\<close> is the case \<open>return err\<close>.

  A fault is an error with a code (\<open>domain.CodedError\<close>) or \<open>context.Canceled\<close> passed on as it is, for
  which \<open>domain.CodeOf\<close> answers \<open>INTERNAL\<close>. Texts of errors are not modelled.
\<close>

section \<open>Faults\<close>

datatype fault = Fault ErrorCode | Interrupted

fun CodeOf :: "fault \<Rightarrow> ErrorCode" where
  "CodeOf (Fault c) = c"
| "CodeOf Interrupted = CodeInternal"

section \<open>The monad\<close>

type_synonym ('s, 'a) io = "'s \<Rightarrow> (fault + 'a) \<times> 's"

definition give :: "'a \<Rightarrow> ('s, 'a) io" where "give x s = (Inr x, s)"

definition raise :: "fault \<Rightarrow> ('s, 'a) io" where "raise e s = (Inl e, s)"

definition attempt :: "('s, 'a) io \<Rightarrow> (fault \<Rightarrow> ('s, 'b) io) \<Rightarrow> ('a \<Rightarrow> ('s, 'b) io) \<Rightarrow> ('s, 'b) io" where
  "attempt m h k s = (case m s of (Inl e, s') \<Rightarrow> h e s' | (Inr x, s') \<Rightarrow> k x s')"

definition andthen :: "('s, 'a) io \<Rightarrow> ('a \<Rightarrow> ('s, 'b) io) \<Rightarrow> ('s, 'b) io" where
  "andthen m k = attempt m raise k"

text \<open>A call whose error is only written to the log of the process.\<close>

definition ignoring :: "('s, 'a) io \<Rightarrow> ('s, unit) io" where
  "ignoring m = attempt m (\<lambda>_. give ()) (\<lambda>_. give ())"

definition ask :: "('s \<Rightarrow> 'a) \<Rightarrow> ('s, 'a) io" where "ask f s = (Inr (f s), s)"

definition ask_code :: "('s \<Rightarrow> ErrorCode + 'a) \<Rightarrow> ('s, 'a) io" where
  "ask_code f s = (case f s of Inl e \<Rightarrow> (Inl (Fault e), s) | Inr x \<Rightarrow> (Inr x, s))"

definition update_io :: "('s \<Rightarrow> 's) \<Rightarrow> ('s, unit) io" where "update_io f s = (Inr (), f s)"

definition lift_code :: "('s \<Rightarrow> ErrorCode option \<times> 's) \<Rightarrow> ('s, unit) io" where
  "lift_code m s = (case m s of (None, s') \<Rightarrow> (Inr (), s') | (Some e, s') \<Rightarrow> (Inl (Fault e), s'))"

definition guard_io :: "bool \<Rightarrow> ErrorCode \<Rightarrow> ('s, unit) io" where
  "guard_io b e = (if b then give () else raise (Fault e))"

text \<open>A computation on a part of the state.\<close>

definition zoom :: "('s \<Rightarrow> 't) \<Rightarrow> ('t \<Rightarrow> 's \<Rightarrow> 's) \<Rightarrow> ('t, 'a) io \<Rightarrow> ('s, 'a) io" where
  "zoom get put m s = (case m (get s) of (r, t) \<Rightarrow> (r, put t s))"

lemmas io_defs = give_def raise_def attempt_def andthen_def ignoring_def ask_def ask_code_def update_io_def
  lift_code_def guard_io_def zoom_def

section \<open>Contracts\<close>

text \<open>From a state with \<open>P\<close> the computation ends in \<open>Q\<close>, or with a fault in \<open>E\<close>.\<close>

definition contract :: "('s \<Rightarrow> bool) \<Rightarrow> ('s, 'a) io \<Rightarrow> ('a \<Rightarrow> 's \<Rightarrow> bool) \<Rightarrow> (fault \<Rightarrow> 's \<Rightarrow> bool) \<Rightarrow> bool" where
  "contract P m Q E \<longleftrightarrow>
     (\<forall>s. P s \<longrightarrow> (case m s of (Inl e, s') \<Rightarrow> E e s' | (Inr x, s') \<Rightarrow> Q x s'))"

lemma contractI:
  "(\<And>s e s'. P s \<Longrightarrow> m s = (Inl e, s') \<Longrightarrow> E e s') \<Longrightarrow> (\<And>s x s'. P s \<Longrightarrow> m s = (Inr x, s') \<Longrightarrow> Q x s') \<Longrightarrow>
   contract P m Q E"
  unfolding contract_def by (auto split: prod.split sum.split)

lemma contract_Inr: "contract P m Q E \<Longrightarrow> P s \<Longrightarrow> m s = (Inr x, s') \<Longrightarrow> Q x s'"
  unfolding contract_def by force

lemma contract_Inl: "contract P m Q E \<Longrightarrow> P s \<Longrightarrow> m s = (Inl e, s') \<Longrightarrow> E e s'"
  unfolding contract_def by force

lemma contract_conseq:
  "contract P m Q E \<Longrightarrow> (\<And>s. P' s \<Longrightarrow> P s) \<Longrightarrow> (\<And>x s. Q x s \<Longrightarrow> Q' x s) \<Longrightarrow> (\<And>e s. E e s \<Longrightarrow> E' e s) \<Longrightarrow>
   contract P' m Q' E'"
  unfolding contract_def by (fastforce split: prod.splits sum.splits)

lemma contract_frame: "contract P m Q E \<Longrightarrow> contract (\<lambda>s. P s \<and> b) m (\<lambda>x s. Q x s \<and> b) E"
  by (auto simp: contract_def split: prod.splits sum.splits)

lemma contract_give: "(\<And>s. P s \<Longrightarrow> Q x s) \<Longrightarrow> contract P (give x) Q E"
  by (simp add: contract_def give_def)

lemma contract_raise: "(\<And>s. P s \<Longrightarrow> E e s) \<Longrightarrow> contract P (raise e) Q E"
  by (simp add: contract_def raise_def)

lemma contract_attempt:
  "contract P m R F \<Longrightarrow> (\<And>x. contract (R x) (k x) Q E) \<Longrightarrow> (\<And>e. contract (F e) (h e) Q E) \<Longrightarrow>
   contract P (attempt m h k) Q E"
  unfolding contract_def attempt_def by (fastforce split: prod.splits sum.splits)

lemma contract_andthen:
  "contract P m R E \<Longrightarrow> (\<And>x. contract (R x) (k x) Q E) \<Longrightarrow> contract P (andthen m k) Q E"
  unfolding andthen_def by (erule contract_attempt) (auto intro: contract_raise)

lemma contract_ignoring: "contract P m (\<lambda>_. Q ()) (\<lambda>_. Q ()) \<Longrightarrow> contract P (ignoring m) Q E"
  unfolding ignoring_def by (erule contract_attempt) (auto intro: contract_give)

lemma contract_ask: "contract P (ask f) (\<lambda>x s. P s \<and> x = f s) E"
  by (simp add: contract_def ask_def)

lemma contract_ask_code: "contract P (ask_code f) (\<lambda>x s. P s \<and> f s = Inr x) (\<lambda>e s. P s \<and> (\<exists>c. e = Fault c \<and> f s = Inl c))"
  by (simp add: contract_def ask_code_def split: sum.split)

lemma contract_update: "(\<And>s. P s \<Longrightarrow> Q () (f s)) \<Longrightarrow> contract P (update_io f) Q E"
  by (simp add: contract_def update_io_def)

lemma contract_guard:
  "contract P (guard_io b e) (\<lambda>_ s. P s \<and> b) (\<lambda>e' s. P s \<and> \<not> b \<and> e' = Fault e)"
  by (simp add: contract_def guard_io_def give_def raise_def)

lemma contract_guardI:
  "(\<And>s. P s \<Longrightarrow> b \<Longrightarrow> Q () s) \<Longrightarrow> (\<And>s. P s \<Longrightarrow> \<not> b \<Longrightarrow> E (Fault e) s) \<Longrightarrow> contract P (guard_io b e) Q E"
  by (simp add: contract_def guard_io_def give_def raise_def)

lemma contract_never: "contract (\<lambda>_. False) m Q E"
  by (simp add: contract_def)

lemma contract_if:
  "(b \<Longrightarrow> contract P m Q E) \<Longrightarrow> (\<not> b \<Longrightarrow> contract P n Q E) \<Longrightarrow> contract P (if b then m else n) Q E"
  by simp

section \<open>What a computation leaves true\<close>

definition stable :: "('s \<Rightarrow> bool) \<Rightarrow> ('s, 'a) io \<Rightarrow> bool" where
  "stable P m \<longleftrightarrow> (\<forall>s. P s \<longrightarrow> P (snd (m s)))"

lemma stableI: "(\<And>s r s'. P s \<Longrightarrow> m s = (r, s') \<Longrightarrow> P s') \<Longrightarrow> stable P m"
  unfolding stable_def by (metis prod.collapse)

lemma stableD: "stable P m \<Longrightarrow> P s \<Longrightarrow> m s = (r, s') \<Longrightarrow> P s'"
  unfolding stable_def by (metis snd_conv)

lemma stable_contract: "stable P m \<longleftrightarrow> contract P m (\<lambda>_. P) (\<lambda>_. P)"
  unfolding stable_def contract_def by (rule all_cong1) (auto simp: split_beta split: sum.split)

lemma stable_attempt: "stable P m \<Longrightarrow> (\<And>e. stable P (h e)) \<Longrightarrow> (\<And>x. stable P (k x)) \<Longrightarrow> stable P (attempt m h k)"
  unfolding stable_contract by (rule contract_attempt)

lemma stable_andthen: "stable P m \<Longrightarrow> (\<And>x. stable P (k x)) \<Longrightarrow> stable P (andthen m k)"
  unfolding stable_contract by (rule contract_andthen)

lemma stable_ignoring: "stable P m \<Longrightarrow> stable P (ignoring m)"
  unfolding stable_contract by (rule contract_ignoring)

lemma stable_basic:
  "stable P (give x)" "stable P (raise e)" "stable P (ask f)" "stable P (ask_code g)" "stable P (guard_io b c)"
  by (simp_all add: stable_def io_defs split: sum.split)

lemma stable_if: "(b \<Longrightarrow> stable P m) \<Longrightarrow> (\<not> b \<Longrightarrow> stable P n) \<Longrightarrow> stable P (if b then m else n)"
  by simp

lemmas stable_rules = stable_basic stable_andthen stable_attempt stable_ignoring stable_if

section \<open>Runs that succeed\<close>

lemma andthen_Inr: "andthen m k s = (Inr y, s'') \<longleftrightarrow> (\<exists>x s'. m s = (Inr x, s') \<and> k x s' = (Inr y, s''))"
  by (auto simp: andthen_def attempt_def raise_def split: prod.splits sum.splits)

lemma give_Inr [simp]: "give x s = (r, s') \<longleftrightarrow> r = Inr x \<and> s' = s"
  by (auto simp: give_def)

lemma raise_Inr [simp]: "raise e s = (r, s') \<longleftrightarrow> r = Inl e \<and> s' = s"
  by (auto simp: raise_def)

lemma guard_Inr [simp]: "guard_io b e s = (Inr x, s') \<longleftrightarrow> b \<and> s' = s"
  by (auto simp: guard_io_def)

lemma ask_Inr [simp]: "ask f s = (r, s') \<longleftrightarrow> r = Inr (f s) \<and> s' = s"
  by (auto simp: ask_def)

lemma ask_code_Inr [simp]: "ask_code f s = (Inr x, s') \<longleftrightarrow> f s = Inr x \<and> s' = s"
  by (auto simp: ask_code_def split: sum.splits)

end
