(* ===== verification/Fs.thy ===== *)
theory Fs
  imports GoPaths "HOL-Library.AList"
begin

text \<open>
  The part of Go's \<open>os\<close> package the adapters use, on an explicit file tree, and the monad the stateful
  services are written in.

  A tree maps clean absolute paths to nodes; paths are used lexically, as the code does. Every call that
  changes the tree may fail for a reason outside the model (a full disk, missing permissions): the
  \<open>n\<close>-th such call fails exactly when \<open>faulty n\<close> holds, so a statement for every \<open>faulty\<close> covers every
  pattern of failures. A failed call leaves the tree as it was.
\<close>

section \<open>The tree\<close>

datatype content = File string | Dir | Link string

record Node =
  kind :: content
  mode :: nat
  owner :: "nat \<times> nat"

record Fs =
  tree :: "(string \<times> Node) list"
  calls :: nat
  faulty :: "nat \<Rightarrow> bool"

datatype fs_error = NotExist | Exists | IoFailed

definition Lstat :: "Fs \<Rightarrow> string \<Rightarrow> Node option" where
  "Lstat fs p = map_of (tree fs) p"

definition is_dir :: "Fs \<Rightarrow> string \<Rightarrow> bool" where
  "is_dir fs p \<longleftrightarrow> (case Lstat fs p of Some n \<Rightarrow> kind n = Dir | None \<Rightarrow> False)"

text \<open>\<open>os.Stat\<close> follows a link; the links of the program lead to a path that is not a link.\<close>

definition Stat :: "Fs \<Rightarrow> string \<Rightarrow> Node option" where
  "Stat fs p =
     (case Lstat fs p of
        None \<Rightarrow> None
      | Some n \<Rightarrow>
          (case kind n of
             Link t \<Rightarrow> Lstat fs (if PathIsAbs t then PathClean t else PathJoin [PathDir p, t])
           | _ \<Rightarrow> Some n))"

definition ReadFile :: "Fs \<Rightarrow> string \<Rightarrow> fs_error + string" where
  "ReadFile fs p =
     (case Stat fs p of
        None \<Rightarrow> Inl NotExist
      | Some n \<Rightarrow> (case kind n of File c \<Rightarrow> Inr c | _ \<Rightarrow> Inl IoFailed))"

definition Readlink :: "Fs \<Rightarrow> string \<Rightarrow> fs_error + string" where
  "Readlink fs p =
     (case Lstat fs p of
        None \<Rightarrow> Inl NotExist
      | Some n \<Rightarrow> (case kind n of Link t \<Rightarrow> Inr t | _ \<Rightarrow> Inl IoFailed))"

definition below :: "string \<Rightarrow> string \<Rightarrow> bool" where
  "below p q \<longleftrightarrow> prefix (p @ ''/'') q"

section \<open>Calls that change it\<close>

text \<open>The next call: it fails when it is a faulty one, and is counted either way.\<close>

definition syscall :: "(Fs \<Rightarrow> fs_error + (string \<times> Node) list) \<Rightarrow> Fs \<Rightarrow> fs_error option \<times> Fs" where
  "syscall f fs =
     (let fs' = fs\<lparr>calls := Suc (calls fs)\<rparr>
      in if faulty fs (calls fs) then (Some IoFailed, fs')
         else case f fs of Inl e \<Rightarrow> (Some e, fs') | Inr t \<Rightarrow> (None, fs'\<lparr>tree := t\<rparr>))"

definition new_node :: "content \<Rightarrow> nat \<Rightarrow> Node" where
  "new_node k m = \<lparr>kind = k, mode = m, owner = (0, 0)\<rparr>"

definition WriteFile :: "string \<Rightarrow> string \<Rightarrow> nat \<Rightarrow> Fs \<Rightarrow> fs_error option \<times> Fs" where
  "WriteFile p c m = syscall (\<lambda>fs.
     case Lstat fs p of
       None \<Rightarrow> if is_dir fs (PathDir p) then Inr (AList.update p (new_node (File c) m) (tree fs)) else Inl NotExist
     | Some n \<Rightarrow> (case kind n of File _ \<Rightarrow> Inr (AList.update p (n\<lparr>kind := File c\<rparr>) (tree fs)) | _ \<Rightarrow> Inl IoFailed))"

definition Mkdir :: "string \<Rightarrow> nat \<Rightarrow> Fs \<Rightarrow> fs_error option \<times> Fs" where
  "Mkdir p m = syscall (\<lambda>fs.
     if Lstat fs p \<noteq> None then Inl Exists
     else if is_dir fs (PathDir p) then Inr (AList.update p (new_node Dir m) (tree fs)) else Inl NotExist)"

text \<open>The directories above a path, the outermost first, and the path itself.\<close>

definition lineage :: "string \<Rightarrow> string list" where
  "lineage p = map (\<lambda>n. abs_path (take n (tl (Split CHR ''/'' p)))) [1..<length (Split CHR ''/'' p)]"

definition MkdirAll :: "string \<Rightarrow> nat \<Rightarrow> Fs \<Rightarrow> fs_error option \<times> Fs" where
  "MkdirAll p m = syscall (\<lambda>fs.
     if list_ex (\<lambda>q. Lstat fs q \<noteq> None \<and> \<not> is_dir fs q) (lineage p) then Inl IoFailed
     else Inr (fold (\<lambda>q t. if map_of t q = None then AList.update q (new_node Dir m) t else t) (lineage p) (tree fs)))"

definition Remove :: "string \<Rightarrow> Fs \<Rightarrow> fs_error option \<times> Fs" where
  "Remove p = syscall (\<lambda>fs.
     case Lstat fs p of
       None \<Rightarrow> Inl NotExist
     | Some n \<Rightarrow>
         if kind n = Dir \<and> list_ex (\<lambda>(q, _). below p q) (tree fs) then Inl IoFailed
         else Inr (AList.delete p (tree fs)))"

definition RemoveAll :: "string \<Rightarrow> Fs \<Rightarrow> fs_error option \<times> Fs" where
  "RemoveAll p = syscall (\<lambda>fs. Inr (filter (\<lambda>(q, _). q \<noteq> p \<and> \<not> below p q) (tree fs)))"

definition Symlink :: "string \<Rightarrow> string \<Rightarrow> Fs \<Rightarrow> fs_error option \<times> Fs" where
  "Symlink target p = syscall (\<lambda>fs.
     if Lstat fs p \<noteq> None then Inl Exists
     else if is_dir fs (PathDir p) then Inr (AList.update p (new_node (Link target) 511) (tree fs)) else Inl NotExist)"

text \<open>A file or a link replaces what is at the new path unless that is a directory; a directory moves with
  everything below it, to a path where nothing is.\<close>

definition renamed :: "string \<Rightarrow> string \<Rightarrow> string \<Rightarrow> string" where
  "renamed p q r = (if r = p then q else q @ drop (length p) r)"

definition Rename :: "string \<Rightarrow> string \<Rightarrow> Fs \<Rightarrow> fs_error option \<times> Fs" where
  "Rename p q = syscall (\<lambda>fs.
     case Lstat fs p of
       None \<Rightarrow> Inl NotExist
     | Some n \<Rightarrow>
         if \<not> is_dir fs (PathDir q) then Inl NotExist
         else if kind n = Dir then
           (if Lstat fs q \<noteq> None then Inl Exists
            else Inr (map (\<lambda>(r, n). (if r = p \<or> below p r then renamed p q r else r, n)) (tree fs)))
         else if is_dir fs q then Inl IoFailed
         else Inr (AList.update q n (AList.delete p (tree fs))))"

definition Chmod :: "string \<Rightarrow> nat \<Rightarrow> Fs \<Rightarrow> fs_error option \<times> Fs" where
  "Chmod p m = syscall (\<lambda>fs.
     case Lstat fs p of None \<Rightarrow> Inl NotExist
     | Some n \<Rightarrow> Inr (AList.update p (n\<lparr>mode := m\<rparr>) (tree fs)))"

definition Chown :: "string \<Rightarrow> nat \<times> nat \<Rightarrow> Fs \<Rightarrow> fs_error option \<times> Fs" where
  "Chown p w = syscall (\<lambda>fs.
     case Lstat fs p of None \<Rightarrow> Inl NotExist
     | Some n \<Rightarrow> Inr (AList.update p (n\<lparr>owner := w\<rparr>) (tree fs)))"

text \<open>The names in a directory.\<close>

definition ReadDir :: "Fs \<Rightarrow> string \<Rightarrow> fs_error + (string \<times> Node) list" where
  "ReadDir fs p =
     (case Lstat fs p of
        None \<Rightarrow> Inl NotExist
      | Some n \<Rightarrow>
          if kind n \<noteq> Dir then Inl IoFailed
          else Inr (map (\<lambda>(q, m). (drop (Suc (length p)) q, m))
                 (filter (\<lambda>(q, _). below p q \<and> CHR ''/'' \<notin> set (drop (Suc (length p)) q)) (tree fs))))"

section \<open>Lookups after a call\<close>

lemma Lstat_simps [simp]:
  "Lstat (fs\<lparr>tree := t\<rparr>) p = map_of t p" "Lstat (fs\<lparr>calls := n\<rparr>) p = Lstat fs p"
  by (simp_all add: Lstat_def)

lemma map_of_AList_update [simp]: "map_of (AList.update k v al) = (map_of al)(k \<mapsto> v)"
  by (simp add: update_conv')

lemma map_of_AList_delete [simp]: "map_of (AList.delete k al) = (map_of al)(k := None)"
  by (simp add: delete_conv')

lemma syscall_error: "syscall f fs = (Some e, fs') \<Longrightarrow> tree fs' = tree fs"
  by (auto simp: syscall_def Let_def split: if_splits sum.splits)

lemma syscall_ok: "syscall f fs = (None, fs') \<Longrightarrow> f fs = Inr (tree fs')"
  by (auto simp: syscall_def Let_def split: if_splits sum.splits)

lemma Lstat_tree: "tree fs' = tree fs \<Longrightarrow> Lstat fs' = Lstat fs"
  by (simp add: Lstat_def fun_eq_iff)

lemma WriteFile_ok:
  "WriteFile p c m fs = (None, fs') \<Longrightarrow> \<exists>n. Lstat fs' = (Lstat fs)(p \<mapsto> n) \<and> kind n = File c"
  unfolding WriteFile_def
  by (drule syscall_ok) (auto simp: Lstat_def fun_eq_iff new_node_def dest!: sym [of _ "tree fs'"]
      split: option.splits if_splits content.splits)

lemma Rename_file_ok:
  assumes "Rename p q fs = (None, fs')" "Lstat fs p = Some n" "kind n = File c \<or> kind n = Link c"
  shows "Lstat fs' = (Lstat fs)(p := None, q \<mapsto> n)"
  using syscall_ok [OF assms(1) [unfolded Rename_def]] assms(2,3)
  by (auto simp: Lstat_def fun_eq_iff dest!: sym [of _ "tree fs'"] split: if_splits)

lemma Remove_ok: "Remove p fs = (None, fs') \<Longrightarrow> Lstat fs' = (Lstat fs)(p := None)"
  unfolding Remove_def
  by (drule syscall_ok) (auto simp: Lstat_def fun_eq_iff dest!: sym [of _ "tree fs'"] split: option.splits if_splits)

lemma Symlink_ok:
  "Symlink t p fs = (None, fs') \<Longrightarrow> Lstat fs p = None \<and> (\<exists>n. Lstat fs' = (Lstat fs)(p \<mapsto> n) \<and> kind n = Link t)"
  unfolding Symlink_def
  by (drule syscall_ok) (auto simp: Lstat_def fun_eq_iff new_node_def dest!: sym [of _ "tree fs'"] split: if_splits)

lemma map_of_fold_mkdirs:
  "map_of (fold (\<lambda>q t. if map_of t q = None then AList.update q n t else t) qs t) p =
     (case map_of t p of Some m \<Rightarrow> Some m | None \<Rightarrow> if p \<in> set qs then Some n else None)"
  by (induction qs arbitrary: t) (auto split: option.splits)

lemma MkdirAll_ok:
  "MkdirAll p m fs = (None, fs') \<Longrightarrow> Lstat fs' q = Lstat fs q
     \<or> (Lstat fs q = None \<and> q \<in> set (lineage p) \<and> Lstat fs' q = Some (new_node Dir m))"
  unfolding MkdirAll_def
  by (drule syscall_ok) (auto simp: Lstat_def map_of_fold_mkdirs dest!: sym [of _ "tree fs'"] split: option.splits if_splits)

lemma Lstat_errors:
  "WriteFile p c m fs = (Some e, fs') \<Longrightarrow> Lstat fs' = Lstat fs"
  "Rename p q fs = (Some e, fs') \<Longrightarrow> Lstat fs' = Lstat fs"
  "Remove p fs = (Some e, fs') \<Longrightarrow> Lstat fs' = Lstat fs"
  "RemoveAll p fs = (Some e, fs') \<Longrightarrow> Lstat fs' = Lstat fs"
  "MkdirAll p m fs = (Some e, fs') \<Longrightarrow> Lstat fs' = Lstat fs"
  "Mkdir p m fs = (Some e, fs') \<Longrightarrow> Lstat fs' = Lstat fs"
  "Symlink t p fs = (Some e, fs') \<Longrightarrow> Lstat fs' = Lstat fs"
  "Chmod p m fs = (Some e, fs') \<Longrightarrow> Lstat fs' = Lstat fs"
  "Chown p w fs = (Some e, fs') \<Longrightarrow> Lstat fs' = Lstat fs"
  unfolding WriteFile_def Rename_def Remove_def RemoveAll_def MkdirAll_def Mkdir_def Symlink_def Chmod_def Chown_def
  by (blast dest: syscall_error Lstat_tree)+

lemma syscall_faulty: "syscall f fs = (r, fs') \<Longrightarrow> faulty fs' = faulty fs"
  by (auto simp: syscall_def Let_def split: if_splits sum.splits)

lemma Fs_faulty:
  "MkdirAll p m fs = (r, fs') \<Longrightarrow> faulty fs' = faulty fs"
  "WriteFile p c m fs = (r, fs') \<Longrightarrow> faulty fs' = faulty fs"
  "Rename p q fs = (r, fs') \<Longrightarrow> faulty fs' = faulty fs"
  "Remove p fs = (r, fs') \<Longrightarrow> faulty fs' = faulty fs"
  "RemoveAll p fs = (r, fs') \<Longrightarrow> faulty fs' = faulty fs"
  "Mkdir p m fs = (r, fs') \<Longrightarrow> faulty fs' = faulty fs"
  "Symlink t p fs = (r, fs') \<Longrightarrow> faulty fs' = faulty fs"
  "Chmod p m fs = (r, fs') \<Longrightarrow> faulty fs' = faulty fs"
  "Chown p w fs = (r, fs') \<Longrightarrow> faulty fs' = faulty fs"
  unfolding WriteFile_def Rename_def Remove_def RemoveAll_def MkdirAll_def Mkdir_def Symlink_def Chmod_def Chown_def
  by (rule syscall_faulty, assumption)+

end
