(* ===== verification/GoNumbers.thy ===== *)
theory GoNumbers
  imports GoStrings
begin

text \<open>
  Decimal numbers as Go's \<open>strconv\<close> prints and reads them: \<open>Itoa\<close> and \<open>Atoi\<close> on 64-bit integers.
\<close>

definition digit_char :: "int \<Rightarrow> char" where
  "digit_char d = ''0123456789'' ! nat d"

function digits :: "int \<Rightarrow> string" where
  "digits n = (if n < 10 then [digit_char n] else digits (n div 10) @ [digit_char (n mod 10)])"
  by pat_completeness auto

termination digits
  by (relation "measure nat") auto

declare digits.simps [simp del]

definition Itoa :: "int \<Rightarrow> string" where
  "Itoa i = (if i < 0 then CHR ''-'' # digits (- i) else digits i)"

definition digit_val :: "char \<Rightarrow> int option" where
  "digit_val c = (if CHR ''0'' \<le> c \<and> c \<le> CHR ''9'' then Some (of_char c - 48) else None)"

fun read_digits :: "int \<Rightarrow> string \<Rightarrow> int option" where
  "read_digits n [] = Some n"
| "read_digits n (c # cs) = (case digit_val c of None \<Rightarrow> None | Some d \<Rightarrow> read_digits (10 * n + d) cs)"

text \<open>\<open>strconv.Atoi\<close>: an optional sign, at least one digit, and the value within 64 bits.\<close>

definition read_number :: "string \<Rightarrow> int option" where
  "read_number s = (if s = [] then None else read_digits 0 s)"

definition Atoi :: "string \<Rightarrow> int option" where
  "Atoi s =
     (let sign = (case s of c # _ \<Rightarrow> c = CHR ''-'' | [] \<Rightarrow> False);
          body = (case s of c # cs \<Rightarrow> if c = CHR ''-'' \<or> c = CHR ''+'' then cs else s | [] \<Rightarrow> [])
      in case read_number body of
           None \<Rightarrow> None
         | Some n \<Rightarrow> let v = (if sign then - n else n) in if in_int64 v then Some v else None)"

lemma digits_nonempty [simp]: "digits n \<noteq> []"
  by (subst digits.simps) simp

lemma digit_val_char_of:
  assumes "0 \<le> d" "d < 10"
  shows "digit_val (digit_char d) = Some d"
proof -
  have "d \<in> {0, 1, 2, 3, 4, 5, 6, 7, 8, 9}" unfolding insert_iff empty_iff using assms by presburger
  then show ?thesis by (auto simp: digit_val_def digit_char_def less_eq_char_def)
qed

lemma read_digits_append:
  "read_digits n (s @ t) = (case read_digits n s of None \<Rightarrow> None | Some m \<Rightarrow> read_digits m t)"
  by (induction n s rule: read_digits.induct) (auto split: option.splits)

lemma read_digits_digits: "0 \<le> n \<Longrightarrow> read_digits 0 (digits n) = Some n"
proof (induction n rule: digits.induct)
  case (1 n)
  show ?case
  proof (cases "n < 10")
    case True
    then show ?thesis using 1(2) by (subst digits.simps) (simp add: digit_val_char_of)
  next
    case False
    then show ?thesis using 1 by (subst digits.simps) (simp add: read_digits_append digit_val_char_of)
  qed
qed

lemma digits_are_digits: "0 \<le> n \<Longrightarrow> c \<in> set (digits n) \<Longrightarrow> digit_val c \<noteq> None"
proof (induction n rule: digits.induct)
  case (1 n)
  have last: "digit_val (digit_char (n mod 10)) \<noteq> None" by (simp add: digit_val_char_of)
  have one: "n < 10 \<Longrightarrow> digit_val (digit_char n) \<noteq> None" using 1(2) by (simp add: digit_val_char_of)
  have "c \<in> set (if n < 10 then [digit_char n] else digits (n div 10) @ [digit_char (n mod 10)])"
    using 1(3) by (simp only: digits.simps [of n])
  then show ?case using 1(1,2) last one by (cases "n < 10") auto
qed

lemma digits_no_sign: "0 \<le> n \<Longrightarrow> CHR ''-'' \<notin> set (digits n)" "0 \<le> n \<Longrightarrow> CHR ''+'' \<notin> set (digits n)"
  using digits_are_digits by (fastforce simp: digit_val_def less_eq_char_def)+

lemma Atoi_Itoa: "in_int64 i \<Longrightarrow> Atoi (Itoa i) = Some i"
proof (cases "i < 0")
  case True
  moreover assume "in_int64 i"
  ultimately show ?thesis by (simp add: Itoa_def Atoi_def read_number_def read_digits_digits)
next
  case False
  moreover assume "in_int64 i"
  moreover obtain c cs where d: "digits i = c # cs" by (cases "digits i") auto
  moreover have "c \<noteq> CHR ''-''" "c \<noteq> CHR ''+''" using False digits_no_sign [of i] d by auto
  ultimately show ?thesis
    using read_digits_digits [of i] by (simp add: Itoa_def Atoi_def read_number_def)
qed

text \<open>A printed number contains no separator the configuration files use.\<close>

lemma Itoa_plain: "digit_val c = None \<Longrightarrow> c \<noteq> CHR ''-'' \<Longrightarrow> c \<notin> set (Itoa i)"
  using digits_are_digits [of "- i" c] digits_are_digits [of i c] by (auto simp: Itoa_def)

lemma Itoa_nonempty [simp]: "Itoa i \<noteq> []"
  by (simp add: Itoa_def)

end
