(* ===== verification/Nginx.thy ===== *)
theory Nginx
  imports AppPaths Effects Fs GoNumbers
begin

text \<open>
  The public entry of a blue-green application (\<open>internal/adapters/nginx/nginx.go\<close>, \<open>render.go\<close>): the
  managed file that points the upstream at a slot, reading it back, and switching traffic with the
  installed file restored when the check or the reload fails.

  The \<open>nginx\<close> binary is a parameter \<open>runner\<close>: it sees the files and its own state and changes only the
  latter. \<open>Inl ()\<close> is a command that could not be run.
\<close>

section \<open>The managed file\<close>

definition nl :: string where "nl = [CHR 0x0A]"

text \<open>The comment lines, as the UTF-8 bytes of the source.\<close>

definition managed_notice :: string where
  "managed_notice =
     [CHR 0x23, CHR 0x20, CHR 0xE6, CHR 0x9C, CHR 0xAC, CHR 0xE6, CHR 0x96, CHR 0x87, CHR 0xE4, CHR 0xBB,
      CHR 0xB6, CHR 0xE7, CHR 0x94, CHR 0xB1, CHR 0x20, CHR 0x6F, CHR 0x70, CHR 0x73, CHR 0x64, CHR 0x20,
      CHR 0xE7, CHR 0x94, CHR 0x9F, CHR 0xE6, CHR 0x88, CHR 0x90, CHR 0xEF, CHR 0xBC, CHR 0x8C, CHR 0xE8,
      CHR 0xAF, CHR 0xB7, CHR 0xE5, CHR 0x8B, CHR 0xBF, CHR 0xE6, CHR 0x89, CHR 0x8B, CHR 0xE5, CHR 0xB7,
      CHR 0xA5, CHR 0xE7, CHR 0xBC, CHR 0x96, CHR 0xE8, CHR 0xBE, CHR 0x91, CHR 0xEF, CHR 0xBC, CHR 0x9B,
      CHR 0xE7, CHR 0x94, CHR 0xB1, CHR 0xE8, CHR 0x93, CHR 0x9D, CHR 0xE7, CHR 0xBB, CHR 0xBF, CHR 0xE9,
      CHR 0x83, CHR 0xA8, CHR 0xE7, CHR 0xBD, CHR 0xB2, CHR 0xE6, CHR 0xB5, CHR 0x81, CHR 0xE7, CHR 0xA8,
      CHR 0x8B, CHR 0xE7, CHR 0xBB, CHR 0xB4, CHR 0xE6, CHR 0x8A, CHR 0xA4, CHR 0xE3, CHR 0x80, CHR 0x82]"

definition points_at :: string where
  "points_at =
     [CHR 0x23, CHR 0x20, CHR 0xE7, CHR 0x8E, CHR 0xB0, CHR 0xE5, CHR 0x9C, CHR 0xA8, CHR 0xE6, CHR 0x8C,
      CHR 0x87, CHR 0xE5, CHR 0x90, CHR 0x91, CHR 0xEF, CHR 0xBC, CHR 0x9A]"

definition switch_note :: string where
  "switch_note =
     [CHR 0x23, CHR 0x20, CHR 0xE5, CHR 0x88, CHR 0x87, CHR 0xE6, CHR 0xB5, CHR 0x81, CHR 0xEF, CHR 0xBC,
      CHR 0x9D, CHR 0xE6, CHR 0x94, CHR 0xB9, CHR 0xE8, CHR 0xBF, CHR 0x99, CHR 0xE9, CHR 0x87, CHR 0x8C,
      CHR 0xE7, CHR 0x9A, CHR 0x84, CHR 0x20, CHR 0x73, CHR 0x65, CHR 0x72, CHR 0x76, CHR 0x65, CHR 0x72,
      CHR 0x20, CHR 0xE6, CHR 0x8C, CHR 0x87, CHR 0xE5, CHR 0x90, CHR 0x91, CHR 0x20, CHR 0x2B, CHR 0x20,
      CHR 0x6E, CHR 0x67, CHR 0x69, CHR 0x6E, CHR 0x78, CHR 0x20, CHR 0x2D, CHR 0x73, CHR 0x20, CHR 0x72,
      CHR 0x65, CHR 0x6C, CHR 0x6F, CHR 0x61, CHR 0x64, CHR 0xEF, CHR 0xBC, CHR 0x9B, CHR 0xE6, CHR 0x97,
      CHR 0xA7, CHR 0x20, CHR 0x77, CHR 0x6F, CHR 0x72, CHR 0x6B, CHR 0x65, CHR 0x72, CHR 0x20, CHR 0xE4,
      CHR 0xBC, CHR 0x9A, CHR 0xE5, CHR 0x9C, CHR 0xA8, CHR 0xE6, CHR 0x8E, CHR 0x92, CHR 0xE7, CHR 0xA9,
      CHR 0xBA, CHR 0xE5, CHR 0x90, CHR 0x8E, CHR 0xE8, CHR 0x87, CHR 0xAA, CHR 0xE8, CHR 0xA1, CHR 0x8C,
      CHR 0xE9, CHR 0x80, CHR 0x80, CHR 0xE5, CHR 0x87, CHR 0xBA, CHR 0xE3, CHR 0x80, CHR 0x82]"

definition version_open :: string where
  "version_open =
     [CHR 0xEF, CHR 0xBC, CHR 0x88, CHR 0xE7, CHR 0x89, CHR 0x88, CHR 0xE6, CHR 0x9C, CHR 0xAC, CHR 0x20]"
definition release_open :: string where
  "release_open =
     [CHR 0xEF, CHR 0xBC, CHR 0x88, CHR 0x72, CHR 0x65, CHR 0x6C, CHR 0x65, CHR 0x61, CHR 0x73, CHR 0x65,
      CHR 0x20]"
definition paren_close :: string where "paren_close = [CHR 0xEF, CHR 0xBC, CHR 0x89]"

definition managed_head :: "Slot \<Rightarrow> string \<Rightarrow> string \<Rightarrow> string" where
  "managed_head target releaseID version =
     managed_notice @ nl
     @ points_at @ slot_name target
     @ (if version = [] then [] else version_open @ version @ paren_close)
     @ (if releaseID = [] then [] else release_open @ releaseID @ paren_close) @ nl
     @ switch_note @ nl @ nl"

definition managed_tail :: "SpecNginx \<Rightarrow> string \<Rightarrow> string" where
  "managed_tail n upstream =
     ''    keepalive 16;'' @ nl @ ''}'' @ nl @ nl
     @ ''server {'' @ nl
     @ ''    listen '' @ Itoa (Listen n) @ '';'' @ nl
     @ (if ServerName n = [] then [] else ''    server_name '' @ ServerName n @ '';'' @ nl)
     @ ''    location / {'' @ nl
     @ ''        proxy_pass http://'' @ upstream @ '';'' @ nl
     @ ''        proxy_http_version 1.1;'' @ nl
     @ ''        proxy_set_header Connection '' @ [CHR 0x22, CHR 0x22] @ '';'' @ nl
     @ ''        proxy_set_header Host $host;'' @ nl
     @ ''        proxy_set_header X-Forwarded-For $proxy_add_x_forwarded_for;'' @ nl
     @ ''        proxy_set_header X-Forwarded-Proto $scheme;'' @ nl
     @ ''        client_max_body_size 1m;'' @ nl
     @ ''        proxy_connect_timeout 5s;'' @ nl
     @ ''        proxy_read_timeout 60s;'' @ nl
     @ ''    }'' @ nl
     @ ''}'' @ nl"

definition RenderManaged :: "ApplicationSpec \<Rightarrow> Slot \<Rightarrow> string \<Rightarrow> string \<Rightarrow> ErrorCode + string" where
  "RenderManaged spec target releaseID version =
     (if \<not> BlueGreen spec then Inl CodeManifestInvalid
      else if \<not> Configured (SpNginx spec) then Inl CodeManifestInvalid
      else case SlotOf spec target of
        None \<Rightarrow> Inl CodeInvalidRequest
      | Some slot \<Rightarrow>
          (case SlPorts slot of
             [] \<Rightarrow> Inl CodeManifestInvalid
           | port # _ \<Rightarrow>
               let upstream = EffectiveUpstreamName (SpNginx spec) (SpApplication spec)
               in Inr (managed_head target releaseID version
                    @ ''upstream '' @ upstream @ '' {'' @ nl
                    @ ''    server 127.0.0.1:'' @ Itoa port @ '';'' @ nl
                    @ managed_tail (SpNginx spec) upstream)))"

section \<open>Reading it back\<close>

definition last_colon :: "string \<Rightarrow> string option" where
  "last_colon s =
     (if CHR '':'' \<in> set s then Some (rev (takeWhile (\<lambda>c. c \<noteq> CHR '':'') (rev s))) else None)"

definition server_port :: "string \<Rightarrow> int option" where
  "server_port line =
     (let trimmed = TrimSpace line
      in if \<not> prefix ''server '' trimmed \<or> \<not> suffix '';'' trimmed then None
         else case last_colon (butlast (drop (length ''server '') trimmed)) of
           None \<Rightarrow> None
         | Some port \<Rightarrow> Atoi (TrimSpace port))"

fun first_port :: "string list \<Rightarrow> int option" where
  "first_port [] = None"
| "first_port (line # ls) = (case server_port line of Some p \<Rightarrow> Some p | None \<Rightarrow> first_port ls)"

definition upstreamPort :: "string \<Rightarrow> int option" where
  "upstreamPort text = first_port (Split (CHR 0x0A) text)"

definition ParseManaged :: "string \<Rightarrow> ApplicationSpec \<Rightarrow> Slot option" where
  "ParseManaged text spec =
     (case upstreamPort text of
        None \<Rightarrow> None
      | Some port \<Rightarrow>
          find (\<lambda>slot. case SlotOf spec slot of None \<Rightarrow> False
                  | Some sp \<Rightarrow> SlPorts sp \<noteq> [] \<and> hd (SlPorts sp) = port) Slots)"

section \<open>What is written is read back\<close>

lemma TrimSpace_space: "TrimSpace (CHR '' '' # s) = TrimSpace s"
proof -
  have "strip_prefixes space_encodings (CHR '' '' # s) = strip_prefixes space_encodings s"
    by (subst strip_prefixes.simps) (simp add: space_encodings_def)
  then show ?thesis by (simp add: TrimSpace_def)
qed

lemma digit_solid: "digit_val c \<noteq> None \<Longrightarrow> solid c"
proof -
  assume "digit_val c \<noteq> None"
  then have "48 \<le> (of_char c :: nat)" "(of_char c :: nat) < 58" by (auto simp: digit_val_def less_eq_char_def split: if_splits)
  then have "(of_char c :: nat) \<in> set [48..<58]" by (simp only: set_upt atLeastLessThan_iff)
  moreover have "list_all solid (map char_of [48..<58 :: nat])" by code_simp
  ultimately have "solid (char_of (of_char c :: nat))" unfolding list_all_iff set_map by blast
  then show ?thesis by simp
qed

lemma Itoa_solid: "solid (hd (Itoa i))" "solid (last (Itoa i))"
proof -
  have minus: "solid (CHR ''-'')" by code_simp
  have "solid (hd (digits n))" "solid (last (digits n))" if "0 \<le> n" for n
    using digits_are_digits [OF that, of "hd (digits n)"] digits_are_digits [OF that, of "last (digits n)"]
    by (auto intro: digit_solid)
  then show "solid (hd (Itoa i))" "solid (last (Itoa i))" using minus by (auto simp: Itoa_def)
qed

lemma first_port_append: "first_port ls = None \<Longrightarrow> first_port (ls @ ls') = first_port ls'"
  by (induction ls) (auto split: option.splits)

lemma upstreamPort_line:
  "upstreamPort (s @ nl @ t) = (case upstreamPort s of Some p \<Rightarrow> Some p | None \<Rightarrow> upstreamPort t)"
proof -
  have "first_port (ls @ ls') = (case first_port ls of Some p \<Rightarrow> Some p | None \<Rightarrow> first_port ls')" for ls ls'
    by (induction ls) (auto split: option.splits)
  then show ?thesis by (simp add: upstreamPort_def nl_def Split_append_slash split: option.split)
qed

lemma upstreamPort_single: "CHR 0x0A \<notin> set s \<Longrightarrow> upstreamPort s = server_port s"
  by (simp add: upstreamPort_def Split_single split: option.split)

lemma line_solid: "solid (CHR ''s'')" "solid (CHR '';'')" "solid (CHR ''u'')" "solid (CHR ''{'')"
  by code_simp+

lemma server_port_entry:
  assumes "in_int64 port"
  shows "server_port (''    server 127.0.0.1:'' @ Itoa port @ '';'') = Some port"
proof -
  let ?line = "''server 127.0.0.1:'' @ Itoa port @ '';''"
  have "TrimSpace ?line = ?line"
    using line_solid by (intro TrimSpace_solid) simp_all
  moreover have "TrimSpace (''    server 127.0.0.1:'' @ Itoa port @ '';'') = TrimSpace ?line"
    by (simp add: TrimSpace_space)
  moreover have "prefix ''server '' ?line" "suffix '';'' ?line" by (simp_all add: suffix_def)
  moreover have "butlast (drop (length ''server '') ?line) = ''127.0.0.1:'' @ Itoa port"
    by (simp add: butlast_append)
  moreover have "last_colon (''127.0.0.1:'' @ Itoa port) = Some (Itoa port)"
  proof -
    have c: "CHR '':'' \<notin> set (Itoa port)" by (intro Itoa_plain) (simp_all add: digit_val_def less_eq_char_def)
    then have "takeWhile (\<lambda>c. c \<noteq> CHR '':'') (rev (Itoa port) @ rev ''127.0.0.1:'') = rev (Itoa port)"
      by (subst takeWhile_append2) auto
    then show ?thesis by (simp add: last_colon_def)
  qed
  moreover have "Atoi (TrimSpace (Itoa port)) = Some port"
    using Itoa_solid [of port] assms by (simp add: TrimSpace_solid Atoi_Itoa)
  ultimately show ?thesis by (simp add: server_port_def Let_def)
qed

text \<open>A line that begins with another letter is no server entry.\<close>

lemma server_port_other:
  assumes "line \<noteq> []" "solid (hd line)" "hd line \<noteq> CHR ''s''"
  shows "server_port line = None"
proof -
  have "strip_prefixes space_encodings line = line"
    using assms prefix_hd by (intro strip_prefixes_id) (auto simp: solid_def)
  then have "prefix (TrimSpace line) line"
    using strip_prefixes_suffix [of "map rev space_encodings" "rev line"]
    by (simp add: TrimSpace_def suffix_to_prefix)
  then have "\<not> prefix ''server '' (TrimSpace line)"
    using assms(1,3) by (cases line) (auto dest: prefix_order.trans)
  then show ?thesis by (simp add: server_port_def Let_def)
qed

lemma head_lines:
  "CHR 0x0A \<notin> set managed_notice" "CHR 0x0A \<notin> set points_at" "CHR 0x0A \<notin> set switch_note"
  "hd managed_notice = CHR ''#''" "hd points_at = CHR ''#''" "hd switch_note = CHR ''#''"
  "managed_notice \<noteq> []" "points_at \<noteq> []" "switch_note \<noteq> []"
  by (simp_all add: managed_notice_def points_at_def switch_note_def)

lemma managed_head_ports:
  assumes "Slot_Valid target"
  shows "upstreamPort (managed_head target [] [] @ s) = upstreamPort s"
proof -
  have split: "managed_head target [] [] @ s
      = managed_notice @ nl @ (points_at @ slot_name target) @ nl @ switch_note @ nl @ [] @ nl @ s"
    by (simp add: managed_head_def)
  have sharp: "solid (CHR ''#'')" by code_simp
  have "CHR 0x0A \<notin> set (slot_name target)" using assms by (auto simp: Slot_Valid_def)
  then have "upstreamPort managed_notice = None" "upstreamPort switch_note = None" "upstreamPort [] = None"
    "upstreamPort (points_at @ slot_name target) = None"
    using head_lines sharp by (simp_all add: upstreamPort_single server_port_other) (simp add: server_port_def)
  then show ?thesis unfolding split upstreamPort_line by simp
qed

lemma upstream_line_no_port:
  assumes "CHR 0x0A \<notin> set name"
  shows "upstreamPort (''upstream '' @ name @ '' {'') = None"
  using assms line_solid(3) by (subst upstreamPort_single) (auto intro: server_port_other)

lemma ParseManaged_Render:
  assumes r: "RenderManaged spec target [] [] = Inr body" and target: "Slot_Valid target"
    and name: "CHR 0x0A \<notin> set (EffectiveUpstreamName (SpNginx spec) (SpApplication spec))"
    and ports: "distinct (SlotPorts spec SlotBlue @ SlotPorts spec SlotGreen)" "\<forall>p \<in> set (SlotPorts spec target). in_int64 p"
  shows "ParseManaged body spec = Some target"
proof -
  let ?up = "EffectiveUpstreamName (SpNginx spec) (SpApplication spec)"
  from r obtain sp port ps where sp: "SlotOf spec target = Some sp" "SlPorts sp = port # ps"
    and body: "body = managed_head target [] [] @ (''upstream '' @ ?up @ '' {'') @ nl
       @ (''    server 127.0.0.1:'' @ Itoa port @ '';'') @ nl @ managed_tail (SpNginx spec) ?up"
    by (auto simp: RenderManaged_def Let_def split: if_splits option.splits list.splits)
  have at: "SlotPorts spec target = port # ps" using sp by (simp add: SlotPorts_def slot_spec_def SlotOf_def)
  have "in_int64 port" using ports(2) at by simp
  moreover have "CHR 0x0A \<notin> set (''    server 127.0.0.1:'' @ Itoa port @ '';'')"
    using Itoa_plain [of "CHR 0x0A" port] by (simp add: digit_val_def less_eq_char_def)
  ultimately have entry: "upstreamPort (''    server 127.0.0.1:'' @ Itoa port @ '';'') = Some port"
    using upstreamPort_single [of "''    server 127.0.0.1:'' @ Itoa port @ '';''"] server_port_entry [of port] by argo
  have "upstreamPort body = Some port"
    unfolding body managed_head_ports [OF target] upstreamPort_line upstream_line_no_port [OF name] entry by simp
  moreover have "hd (SlPorts sp') \<noteq> port" if "SlotOf spec (Opposite target) = Some sp'" "SlPorts sp' \<noteq> []" for sp'
  proof -
    have "hd (SlPorts sp') \<in> set (SlotPorts spec (Opposite target))"
      using that by (simp add: SlotPorts_def slot_spec_def SlotOf_def)
    moreover have "set (SlotPorts spec target) \<inter> set (SlotPorts spec (Opposite target)) = {}"
      using ports(1) target by (auto simp: Slot_Valid_def Opposite_def)
    ultimately show ?thesis using at by auto
  qed
  ultimately show ?thesis
    using target sp by (auto simp: ParseManaged_def Slots_def Slot_Valid_def Opposite_def split: option.split)
qed

section \<open>Switching traffic\<close>

record CmdResult =
  CmdStdout :: string
  CmdStderr :: string
  CmdExit :: int

record 'n NgHost =
  ngfs :: Fs
  daemon :: 'n

record 'n NgAdapter =
  confDir :: string
  binary :: string
  mainConfig :: string
  root :: string
  on_linux :: bool
  runner :: "string list \<Rightarrow> Fs \<Rightarrow> 'n \<Rightarrow> (unit + CmdResult) \<times> 'n"

definition NewAdapter ::
  "string \<Rightarrow> string \<Rightarrow> string \<Rightarrow> string \<Rightarrow> bool \<Rightarrow> (string list \<Rightarrow> Fs \<Rightarrow> 'n \<Rightarrow> (unit + CmdResult) \<times> 'n) \<Rightarrow> 'n NgAdapter" where
  "NewAdapter conf bin main r linux run =
     (let confDir = (if TrimSpace conf = [] then ''/etc/nginx'' else TrimSpace conf)
      in \<lparr>confDir = confDir,
          binary = (if TrimSpace bin = [] then ''nginx'' else TrimSpace bin),
          mainConfig = (if TrimSpace main = [] then PathJoin [confDir, ''nginx.conf''] else TrimSpace main),
          root = (if r = [] then ''/'' else r), on_linux = linux, runner = run\<rparr>)"

definition RootPath :: "'n NgAdapter \<Rightarrow> string \<Rightarrow> string" where
  "RootPath a absolute = PathJoin [root a, absolute]"

definition ManagedFile :: "'n NgAdapter \<Rightarrow> string \<Rightarrow> string" where
  "ManagedFile a app = ManagedNginxFile (confDir a) app"

definition run_nginx :: "'n NgAdapter \<Rightarrow> string list \<Rightarrow> ErrorCode \<Rightarrow> ('n NgHost, CmdResult) io" where
  "run_nginx a argv code h =
     (case runner a argv (ngfs h) (daemon h) of
        (Inl _, d) \<Rightarrow> (Inl (Fault code), h\<lparr>daemon := d\<rparr>)
      | (Inr r, d) \<Rightarrow> (Inr r, h\<lparr>daemon := d\<rparr>))"

text \<open>A call of the file system, with the code its failure is reported as.\<close>

definition on_fs :: "(Fs \<Rightarrow> fs_error option \<times> Fs) \<Rightarrow> ('n NgHost, fs_error option) io" where
  "on_fs m h = (case m (ngfs h) of (r, fs) \<Rightarrow> (Inr r, h\<lparr>ngfs := fs\<rparr>))"

definition need_fs :: "(Fs \<Rightarrow> fs_error option \<times> Fs) \<Rightarrow> ('n NgHost, unit) io" where
  "need_fs m = andthen (on_fs m) (\<lambda>r. guard_io (r = None) CodeInternal)"

definition Nginx_Validate :: "'n NgAdapter \<Rightarrow> ApplicationSpec \<Rightarrow> ('n NgHost, unit) io" where
  "Nginx_Validate a spec =
     andthen (guard_io (on_linux a) CodeRuntimeUnsupport) (\<lambda>_.
     andthen (guard_io (BlueGreen spec) CodeManifestInvalid) (\<lambda>_.
     andthen (guard_io (Configured (SpNginx spec)) CodeManifestInvalid) (\<lambda>_.
     andthen (run_nginx a [binary a, ''-v''] CodeRuntimeUnsupport) (\<lambda>_.
     andthen (ask (\<lambda>h. Stat (ngfs h) (RootPath a (confDir a)))) (\<lambda>conf.
     guard_io (conf \<noteq> None) CodeRuntimeUnsupport)))))"

definition readManaged :: "'n NgAdapter \<Rightarrow> string \<Rightarrow> ('n NgHost, string option) io" where
  "readManaged a app =
     andthen (ask (\<lambda>h. ReadFile (ngfs h) (RootPath a (ManagedFile a app)))) (\<lambda>raw.
     case raw of
       Inr body \<Rightarrow> give (Some body)
     | Inl NotExist \<Rightarrow> give None
     | Inl _ \<Rightarrow> raise (Fault CodeInternal))"

definition writeManaged :: "'n NgAdapter \<Rightarrow> string \<Rightarrow> string \<Rightarrow> ('n NgHost, unit) io" where
  "writeManaged a app body =
     (let file = RootPath a (ManagedFile a app); tmp = file @ ''.tmp''
      in andthen (need_fs (MkdirAll (PathDir file) 493)) (\<lambda>_.
         andthen (need_fs (WriteFile tmp body 420)) (\<lambda>_.
         andthen (on_fs (Rename tmp file)) (\<lambda>r.
         if r \<noteq> None
         then andthen (on_fs (Remove tmp)) (\<lambda>_. raise (Fault CodeInternal))
         else give ()))))"

definition restore :: "'n NgAdapter \<Rightarrow> string \<Rightarrow> string option \<Rightarrow> ('n NgHost, unit) io" where
  "restore a app previous =
     (case previous of
        None \<Rightarrow>
          andthen (on_fs (Remove (RootPath a (ManagedFile a app)))) (\<lambda>r.
          guard_io (r = None \<or> r = Some NotExist) CodeInternal)
      | Some body \<Rightarrow> writeManaged a app body)"

definition checkLoaded :: "'n NgAdapter \<Rightarrow> ApplicationSpec \<Rightarrow> ('n NgHost, unit) io" where
  "checkLoaded a spec =
     andthen (run_nginx a [binary a, ''-T'', ''-c'', mainConfig a] CodeNginxConfigInvalid) (\<lambda>result.
     andthen (guard_io (CmdExit result = 0) CodeNginxConfigInvalid) (\<lambda>_.
     andthen (ask (\<lambda>h. Stat (ngfs h) (RootPath a (ManagedFile a (SpApplication spec))))) (\<lambda>file.
     andthen (guard_io (file \<noteq> None) CodeNginxConfigInvalid) (\<lambda>_.
     guard_io (sublist (''# configuration file '' @ ManagedFile a (SpApplication spec) @ '':'')
        (CmdStdout result @ CmdStderr result)) CodeNginxConfigInvalid))))"

definition CheckLoaded :: "'n NgAdapter \<Rightarrow> ApplicationSpec \<Rightarrow> ('n NgHost, unit) io" where
  "CheckLoaded a spec = andthen (Nginx_Validate a spec) (\<lambda>_. checkLoaded a spec)"

definition testConfig :: "'n NgAdapter \<Rightarrow> ('n NgHost, unit) io" where
  "testConfig a =
     andthen (run_nginx a [binary a, ''-t'', ''-c'', mainConfig a] CodeNginxConfigInvalid) (\<lambda>result.
     guard_io (CmdExit result = 0) CodeNginxConfigInvalid)"

definition reload :: "'n NgAdapter \<Rightarrow> ('n NgHost, unit) io" where
  "reload a =
     andthen (run_nginx a [binary a, ''-s'', ''reload''] CodeNginxReloadFailed) (\<lambda>result.
     guard_io (CmdExit result = 0) CodeNginxReloadFailed)"

definition Nginx_Apply :: "'n NgAdapter \<Rightarrow> ApplicationSpec \<Rightarrow> Slot \<Rightarrow> ('n NgHost, unit) io" where
  "Nginx_Apply a spec target =
     (let app = SpApplication spec
      in andthen (Nginx_Validate a spec) (\<lambda>_.
         andthen (ask_code (\<lambda>_. RenderManaged spec target [] [])) (\<lambda>candidate.
         andthen (readManaged a app) (\<lambda>previous.
         andthen (writeManaged a app candidate) (\<lambda>_.
         attempt (checkLoaded a spec)
           (\<lambda>err. attempt (restore a app previous) (\<lambda>_. raise (Fault CodeNginxConfigInvalid)) (\<lambda>_. raise err)) (\<lambda>_.
         attempt (testConfig a)
           (\<lambda>err. attempt (restore a app previous) (\<lambda>_. raise (Fault CodeNginxConfigInvalid)) (\<lambda>_. raise err)) (\<lambda>_.
         attempt (reload a)
           (\<lambda>_. attempt (restore a app previous) (\<lambda>_. raise (Fault CodeNginxReloadFailed)) (\<lambda>_.
                 attempt (reload a) (\<lambda>_. raise (Fault CodeNginxReloadFailed)) (\<lambda>_. raise (Fault CodeNginxReloadFailed))))
           give)))))))"

definition Nginx_Current :: "'n NgAdapter \<Rightarrow> ApplicationSpec \<Rightarrow> ('n NgHost, Slot) io" where
  "Nginx_Current a spec =
     andthen (readManaged a (SpApplication spec)) (\<lambda>body.
     case body of
       None \<Rightarrow> give NoSlot
     | Some text_ \<Rightarrow>
         (case ParseManaged text_ spec of
            None \<Rightarrow> raise (Fault CodeNginxConfigInvalid)
          | Some slot \<Rightarrow> give slot))"

section \<open>What the accepted manifests give\<close>

lemma port_ok_int64: "port_ok p \<Longrightarrow> in_int64 p"
  by (simp add: port_ok_def in_int64_def)

lemma pattern_no_newline:
  assumes "pattern f r n s" "\<not> f (CHR 0x0A)" "\<not> r (CHR 0x0A)"
  shows "CHR 0x0A \<notin> set s"
  using assms by (cases s) (auto simp: pattern_def list_all_iff)

lemma accepted_upstream:
  assumes "ApplicationSpec_Validate urls s = Inr spec" "BlueGreen s"
  shows "CHR 0x0A \<notin> set (EffectiveUpstreamName (SpNginx spec) (SpApplication spec))"
proof -
  have no: "\<not> alnum (CHR 0x0A)" by code_simp
  note acc = accepted_blue_green(3) [OF assms]
  have "CHR 0x0A \<notin> set (SpApplication spec)"
    using acc unfolding applicationNamePattern_def by (auto dest!: pattern_no_newline simp: no)
  moreover have "CHR 0x0A \<notin> set (NgUpstreamName (SpNginx spec))" if "NgUpstreamName (SpNginx spec) \<noteq> []"
    using acc that unfolding upstreamNamePattern_def by (auto dest!: pattern_no_newline simp: no)
  ultimately show ?thesis by (auto simp: EffectiveUpstreamName_def UpstreamName_def)
qed

lemma accepted_render:
  assumes "ApplicationSpec_Validate urls s = Inr spec" "BlueGreen s" "Slot_Valid target"
  shows "\<exists>body. RenderManaged spec target [] [] = Inr body \<and> ParseManaged body spec = Some target"
proof -
  note acc = accepted_blue_green [OF assms(1,2)]
  have "SlotOf spec target \<noteq> None" "SlotPorts spec target \<noteq> []" "\<forall>p \<in> set (SlotPorts spec target). in_int64 p"
    using acc(1,2) assms(3) by (auto simp: Slot_Valid_def list_all_iff port_ok_int64)
  moreover have "BlueGreen spec" using acc(2) by (auto simp: BlueGreen_def SlotOf_def)
  moreover obtain sp where sp: "SlotOf spec target = Some sp" using calculation(1) by blast
  moreover obtain port ps where "SlPorts sp = port # ps"
    using calculation(2) sp by (cases "SlPorts sp") (auto simp: SlotPorts_def slot_spec_def SlotOf_def)
  ultimately have "\<exists>body. RenderManaged spec target [] [] = Inr body"
    using acc(3) by (simp add: RenderManaged_def Let_def)
  then obtain body where b: "RenderManaged spec target [] [] = Inr body" by blast
  have ports: "\<forall>p \<in> set (SlotPorts spec target). in_int64 p"
    using acc(1) assms(3) by (auto simp: Slot_Valid_def list_all_iff port_ok_int64)
  have "ParseManaged body spec = Some target"
  proof (rule ParseManaged_Render [OF b assms(3) accepted_upstream [OF assms(1,2)]])
    show "distinct (SlotPorts spec SlotBlue @ SlotPorts spec SlotGreen)" using acc(1) by simp
  qed (rule ports)
  then show ?thesis using b by blast
qed

section \<open>The managed file on the disk\<close>

lemma lineage_abs_path:
  assumes "segs \<noteq> []" "\<forall>s \<in> set segs. plain_segment s"
  shows "lineage (abs_path segs) = map (\<lambda>n. abs_path (take n segs)) [1..<Suc (length segs)]"
  using assms by (simp add: lineage_def Split_abs_path)

lemma lineage_self: "segs \<noteq> [] \<Longrightarrow> \<forall>s \<in> set segs. plain_segment s \<Longrightarrow> abs_path segs \<in> set (lineage (abs_path segs))"
  by (auto simp: lineage_abs_path image_iff Suc_le_eq intro!: bexI [of _ "length segs"])

lemma child_not_in_lineage:
  assumes "segs \<noteq> []" "\<forall>s \<in> set segs. plain_segment s" "plain_segment t"
  shows "abs_path (segs @ [t]) \<notin> set (lineage (abs_path segs))"
proof
  assume "abs_path (segs @ [t]) \<in> set (lineage (abs_path segs))"
  then obtain n where n: "1 \<le> n" "n \<le> length segs" "abs_path (segs @ [t]) = abs_path (take n segs)"
    using assms(1,2) by (auto simp: lineage_abs_path)
  have "segs @ [t] = take n segs"
    using n assms by (subst (asm) abs_path_inject) (auto dest: in_set_takeD)
  then have "length (segs @ [t]) = length (take n segs)" by simp
  then show False using n(2) by simp
qed

text \<open>The path of the managed file and of the candidate beside it.\<close>

definition managed_path :: "string list \<Rightarrow> string \<Rightarrow> string \<Rightarrow> bool" where
  "managed_path ds name p \<longleftrightarrow> ds \<noteq> [] \<and> (\<forall>s \<in> set ds. plain_segment s) \<and> plain_segment name
     \<and> hd name \<noteq> CHR ''.'' \<and> p = abs_path (ds @ [name])"

lemma managed_path_facts:
  assumes "managed_path ds name p"
  shows "PathDir p = abs_path ds" "PathDir (p @ ''.tmp'') = abs_path ds" "p @ ''.tmp'' \<noteq> p"
    and "p \<notin> set (lineage (abs_path ds))" "p @ ''.tmp'' \<notin> set (lineage (abs_path ds))"
    and "abs_path ds \<in> set (lineage (abs_path ds))"
proof -
  have ds: "ds \<noteq> []" "\<forall>s \<in> set ds. plain_segment s" and n: "plain_segment name" "p = abs_path (ds @ [name])"
    and t: "plain_segment (name @ ''.tmp'')"
    using assms plain_segment_append [of name "''.tmp''"] by (auto simp: managed_path_def)
  have tmp: "p @ ''.tmp'' = abs_path (ds @ [name @ ''.tmp''])" using ds(1) n(2) by (simp add: abs_path_append)
  show "PathDir p = abs_path ds" "PathDir (p @ ''.tmp'') = abs_path ds"
    using PathDir_abs_path [OF ds n(1)] PathDir_abs_path [OF ds t] n(2) tmp by simp_all
  show "p \<notin> set (lineage (abs_path ds))" "p @ ''.tmp'' \<notin> set (lineage (abs_path ds))"
    using child_not_in_lineage [OF ds n(1)] child_not_in_lineage [OF ds t] n(2) tmp by simp_all
  show "abs_path ds \<in> set (lineage (abs_path ds))" by (rule lineage_self [OF ds])
qed simp

text \<open>After a candidate was installed: the directories are there, the candidate is gone, and the managed
  file is a file.\<close>

definition installed :: "string list \<Rightarrow> string \<Rightarrow> Fs \<Rightarrow> bool" where
  "installed ds p fs \<longleftrightarrow>
     (\<forall>q \<in> set (lineage (abs_path ds)). is_dir fs q) \<and> Lstat fs (p @ ''.tmp'') = None
     \<and> (\<exists>n c. Lstat fs p = Some n \<and> kind n = File c)"

lemma guard_io_simps [simp]: "guard_io True e h = (Inr (), h)" "guard_io False e h = (Inl (Fault e), h)"
  by (simp_all add: guard_io_def give_def raise_def)

lemma need_fs_cases:
  "need_fs m h = (r, h') \<longleftrightarrow>
     (\<exists>x fs. m (ngfs h) = (x, fs) \<and> h' = h\<lparr>ngfs := fs\<rparr> \<and> r = (if x = None then Inr () else Inl (Fault CodeInternal)))"
  by (auto simp: need_fs_def on_fs_def andthen_def attempt_def guard_io_def give_def raise_def split: prod.splits)

definition no_faults :: "'n NgHost \<Rightarrow> bool" where
  "no_faults h \<longleftrightarrow> (\<forall>n. \<not> faulty (ngfs h) n)"

lemma syscall_no_fault: "\<not> faulty fs (calls fs) \<Longrightarrow>
    syscall f fs = (case f fs of Inl e \<Rightarrow> (Some e, fs\<lparr>calls := Suc (calls fs)\<rparr>)
                    | Inr t \<Rightarrow> (None, fs\<lparr>calls := Suc (calls fs), tree := t\<rparr>))"
  by (simp add: syscall_def split: sum.split)

lemma is_dir_Lstat: "Lstat fs' p = Lstat fs p \<Longrightarrow> is_dir fs' p = is_dir fs p"
  by (simp add: is_dir_def)

text \<open>After \<open>MkdirAll\<close> the whole lineage are directories, and nothing outside it has changed.\<close>

lemma MkdirAll_dirs:
  assumes "MkdirAll p m fs = (None, fs')"
  shows "\<forall>q \<in> set (lineage p). is_dir fs' q" and "q \<notin> set (lineage p) \<Longrightarrow> Lstat fs' q = Lstat fs q"
  using syscall_ok [OF assms [unfolded MkdirAll_def]]
  by (auto simp: Lstat_def is_dir_def map_of_fold_mkdirs new_node_def list_ex_iff dest!: sym [of _ "tree fs'"]
      split: if_splits option.splits)

lemma writeManaged_ok:
  assumes place: "managed_path ds name p" "p = RootPath a (ManagedFile a app)"
    and w: "writeManaged a app body h = (Inr (), h')"
  shows "installed ds p (ngfs h') \<and> ReadFile (ngfs h') p = Inr body \<and> daemon h' = daemon h
    \<and> faulty (ngfs h') = faulty (ngfs h)"
proof -
  note path = managed_path_facts [OF place(1)]
  from w obtain fs1 fs2 fs3 where steps: "MkdirAll (PathDir p) 493 (ngfs h) = (None, fs1)"
    "WriteFile (p @ ''.tmp'') body 420 fs1 = (None, fs2)" "Rename (p @ ''.tmp'') p fs2 = (None, fs3)" "h' = h\<lparr>ngfs := fs3\<rparr>"
    unfolding writeManaged_def Let_def place(2) [symmetric] andthen_def attempt_def on_fs_def
    by (auto simp: need_fs_cases give_def raise_def split: prod.splits sum.splits if_splits)
  obtain n where n: "Lstat fs2 = (Lstat fs1)(p @ ''.tmp'' \<mapsto> n)" "kind n = File body" using WriteFile_ok [OF steps(2)] by blast
  have l3: "Lstat fs3 = (Lstat fs2)(p @ ''.tmp'' := None, p \<mapsto> n)"
    using n by (intro Rename_file_ok [OF steps(3)]) auto
  have "\<forall>q \<in> set (lineage (abs_path ds)). is_dir fs3 q"
  proof
    fix q assume q: "q \<in> set (lineage (abs_path ds))"
    then have "is_dir fs1 q" using MkdirAll_dirs(1) [OF steps(1)] path(1) by simp
    moreover have "Lstat fs3 q = Lstat fs1 q" using q path(4,5) l3 n(1) by auto
    ultimately show "is_dir fs3 q" by (simp add: is_dir_def)
  qed
  moreover have "Lstat fs3 p = Some n" "Lstat fs3 (p @ ''.tmp'') = None" using l3 path(3) by simp_all
  moreover have "faulty fs1 = faulty (ngfs h)" "faulty fs2 = faulty fs1" "faulty fs3 = faulty fs2"
    using steps Fs_faulty by blast+
  ultimately show ?thesis using n(2) steps(4) by (auto simp: installed_def ReadFile_def Stat_def)
qed

text \<open>Without failing calls an installed candidate can always be replaced by the former file again.\<close>

lemma writeManaged_again:
  assumes place: "managed_path ds name p" "p = RootPath a (ManagedFile a app)"
    and inst: "installed ds p (ngfs h)" and nf: "no_faults h"
  shows "\<exists>h'. writeManaged a app body h = (Inr (), h')"
proof -
  note path = managed_path_facts [OF place(1)]
  let ?fs = "ngfs h"
  have f: "\<not> faulty ?fs n" for n using nf by (simp add: no_faults_def)
  have "\<not> list_ex (\<lambda>q. Lstat ?fs q \<noteq> None \<and> \<not> is_dir ?fs q) (lineage (abs_path ds))"
    using inst by (auto simp: installed_def list_ex_iff)
  then obtain fs1 where s1: "MkdirAll (PathDir p) 493 ?fs = (None, fs1)"
    unfolding MkdirAll_def path(1) by (simp add: syscall_no_fault f)
  have fa1: "faulty fs1 = faulty ?fs" using s1 by (rule Fs_faulty)
  have same: "Lstat fs1 q = Lstat ?fs q" if "q \<notin> set (lineage (abs_path ds))" for q
    using MkdirAll_dirs(2) [OF s1] that path(1) by simp
  have dirs1: "is_dir fs1 (abs_path ds)" using MkdirAll_dirs(1) [OF s1] path(1,6) by simp
  have "Lstat fs1 (p @ ''.tmp'') = None" using same path(5) inst by (simp add: installed_def)
  then obtain fs2 where s2: "WriteFile (p @ ''.tmp'') body 420 fs1 = (None, fs2)"
    unfolding WriteFile_def path(2) by (simp add: syscall_no_fault fa1 f dirs1 path(2))
  have fa2: "faulty fs2 = faulty ?fs" using Fs_faulty(2) [OF s2] fa1 by simp
  obtain n where n: "Lstat fs2 = (Lstat fs1)(p @ ''.tmp'' \<mapsto> n)" "kind n = File body" using WriteFile_ok [OF s2] by blast
  obtain m c where m: "Lstat fs2 p = Some m" "kind m = File c"
    using inst same path(3,4) n(1) by (auto simp: installed_def)
  have "abs_path ds \<noteq> p @ ''.tmp''" using path(5,6) by metis
  then have "is_dir fs2 (abs_path ds)" using dirs1 n(1) by (simp add: is_dir_def)
  then obtain fs3 where s3: "Rename (p @ ''.tmp'') p fs2 = (None, fs3)"
    unfolding Rename_def path(1) using n m by (simp add: syscall_no_fault fa2 f is_dir_def [of _ p])
  show ?thesis
    unfolding writeManaged_def Let_def place(2) [symmetric] andthen_def attempt_def need_fs_def on_fs_def guard_io_def
    using s1 s2 s3 by (simp add: give_def)
qed

lemma writeManaged_error:
  assumes place: "managed_path ds name p" "p = RootPath a (ManagedFile a app)"
    and w: "writeManaged a app body h = (Inl e, h')"
  shows "Lstat (ngfs h') p = Lstat (ngfs h) p"
proof -
  note path = managed_path_facts [OF place(1)]
  obtain r1 fs1 where s1: "MkdirAll (PathDir p) 493 (ngfs h) = (r1, fs1)" by fastforce
  obtain r2 fs2 where s2: "WriteFile (p @ ''.tmp'') body 420 fs1 = (r2, fs2)" by fastforce
  obtain r3 fs3 where s3: "Rename (p @ ''.tmp'') p fs2 = (r3, fs3)" by fastforce
  obtain r4 fs4 where s4: "Remove (p @ ''.tmp'') fs3 = (r4, fs4)" by fastforce
  have l1: "Lstat fs1 p = Lstat (ngfs h) p"
    using Lstat_errors(5) MkdirAll_dirs(2) s1 path(1,4) by (cases r1) fastforce+
  have l2: "Lstat fs2 p = Lstat fs1 p"
    using Lstat_errors(1) WriteFile_ok s2 path(3) by (cases r2) fastforce+
  have l4: "Lstat fs4 p = Lstat fs3 p"
    using Lstat_errors(3) Remove_ok s4 path(3) by (cases r4) fastforce+
  have l3: "r3 \<noteq> None \<Longrightarrow> Lstat fs3 p = Lstat fs2 p"
    using Lstat_errors(2) s3 by fastforce
  show ?thesis
    using w s1 s2 s3 s4 l1 l2 l3 l4
    unfolding writeManaged_def Let_def place(2) [symmetric] andthen_def attempt_def need_fs_def on_fs_def guard_io_def
    by (auto simp: give_def raise_def split: if_splits)
qed

text \<open>The managed file as the adapter reads it.\<close>

definition managed_body :: "'n NgAdapter \<Rightarrow> ApplicationSpec \<Rightarrow> 'n NgHost \<Rightarrow> fs_error + string" where
  "managed_body a spec h = ReadFile (ngfs h) (RootPath a (ManagedFile a (SpApplication spec)))"

lemma readManaged_cases:
  "readManaged a app h = (case ReadFile (ngfs h) (RootPath a (ManagedFile a app)) of
     Inr b \<Rightarrow> (Inr (Some b), h) | Inl e \<Rightarrow> (if e = NotExist then Inr None else Inl (Fault CodeInternal), h))"
  by (auto simp: readManaged_def io_defs split: sum.split fs_error.split)

lemma Nginx_Current_body:
  "managed_body a spec h' = managed_body a spec h \<Longrightarrow> fst (Nginx_Current a spec h') = fst (Nginx_Current a spec h)"
  unfolding Nginx_Current_def andthen_def attempt_def readManaged_cases managed_body_def
  by (auto simp: io_defs split: sum.split option.split)

text \<open>Commands do not touch the files.\<close>

definition keeps_files :: "('n NgHost, 'a) io \<Rightarrow> bool" where
  "keeps_files m \<longleftrightarrow> (\<forall>h. ngfs (snd (m h)) = ngfs h)"

lemma keeps_filesD: "keeps_files m \<Longrightarrow> m h = (r, h') \<Longrightarrow> ngfs h' = ngfs h"
  unfolding keeps_files_def by (metis snd_conv)

lemma keeps_files_andthen:
  assumes "keeps_files m" "\<And>x. keeps_files (k x)"
  shows "keeps_files (andthen m k)"
  unfolding keeps_files_def
proof
  fix h
  obtain r h1 where m: "m h = (r, h1)" by fastforce
  have h1: "ngfs h1 = ngfs h" by (rule keeps_filesD [OF assms(1) m])
  show "ngfs (snd (andthen m k h)) = ngfs h"
  proof (cases r)
    case (Inr x)
    then show ?thesis using m h1 assms(2) [of x] by (simp add: andthen_def attempt_def keeps_files_def)
  qed (use m h1 in \<open>simp add: andthen_def attempt_def raise_def\<close>)
qed

lemma keeps_files_basic:
  "keeps_files (guard_io b e)" "keeps_files (ask f)" "keeps_files (run_nginx a argv c)"
proof -
  show "keeps_files (run_nginx a argv c)"
    unfolding keeps_files_def run_nginx_def by (simp split: prod.split sum.split)
qed (simp_all add: keeps_files_def guard_io_def give_def raise_def ask_def)

lemmas keeps_files_intros = keeps_files_andthen keeps_files_basic

lemma commands_keep_files:
  "keeps_files (checkLoaded a spec)" "keeps_files (testConfig a)" "keeps_files (reload a)" "keeps_files (Nginx_Validate a spec)"
  unfolding checkLoaded_def testConfig_def reload_def Nginx_Validate_def by (intro keeps_files_intros)+

lemma restore_ok:
  assumes place: "managed_path ds name p" "p = RootPath a (ManagedFile a app)"
    and inst: "installed ds p (ngfs h)" and nf: "no_faults h"
  shows "\<exists>h'. restore a app previous h = (Inr (), h')
    \<and> ReadFile (ngfs h') p = (case previous of None \<Rightarrow> Inl NotExist | Some b \<Rightarrow> Inr b)"
proof (cases previous)
  case None
  obtain n c where n: "Lstat (ngfs h) p = Some n" "kind n = File c" using inst by (auto simp: installed_def)
  then obtain fs where r: "Remove p (ngfs h) = (None, fs)"
    using nf by (simp add: Remove_def syscall_no_fault no_faults_def)
  then show ?thesis
    using None Remove_ok [OF r] unfolding restore_def place(2) [symmetric]
    by (simp add: io_defs on_fs_def ReadFile_def Stat_def)
next
  case (Some b)
  obtain h' where w: "writeManaged a app b h = (Inr (), h')"
    using writeManaged_again [OF place inst nf] by blast
  then show ?thesis using Some writeManaged_ok [OF place w] by (simp add: restore_def)
qed

lemma Nginx_Apply_body:
  assumes place: "managed_path ds name p" "p = RootPath a (ManagedFile a (SpApplication spec))"
    and render: "RenderManaged spec target [] [] = Inr body"
    and run: "Nginx_Apply a spec target h = (r, h')"
  shows "r = Inr () \<Longrightarrow> managed_body a spec h' = Inr body"
    and "r = Inl e \<Longrightarrow> no_faults h \<Longrightarrow> (\<forall>n t. Lstat (ngfs h) p = Some n \<longrightarrow> kind n \<noteq> Link t) \<Longrightarrow>
      managed_body a spec h' = managed_body a spec h"
proof -
  let ?app = "SpApplication spec"
  note keep = keeps_filesD [OF commands_keep_files(1)] keeps_filesD [OF commands_keep_files(2)]
    keeps_filesD [OF commands_keep_files(3)] keeps_filesD [OF commands_keep_files(4)]
  obtain r0 h0 where v: "Nginx_Validate a spec h = (r0, h0)" by fastforce
  have f0: "ngfs h0 = ngfs h" by (rule keep(4) [OF v])
  show "r = Inr () \<Longrightarrow> managed_body a spec h' = Inr body"
  proof -
    assume ok: "r = Inr ()"
    from run ok v obtain previous h1 h2 h3 where
      w: "readManaged a ?app h0 = (Inr previous, h0)" "writeManaged a ?app body h0 = (Inr (), h1)"
      and c: "checkLoaded a spec h1 = (Inr (), h2)" "testConfig a h2 = (Inr (), h3)" "reload a h3 = (Inr (), h')"
      unfolding Nginx_Apply_def Let_def andthen_def attempt_def readManaged_cases
      by (auto simp: ask_code_def render give_def raise_def split: prod.splits sum.splits if_splits)
    have "ngfs h' = ngfs h1" using keep(1) [OF c(1)] keep(2) [OF c(2)] keep(3) [OF c(3)] by simp
    then show ?thesis using writeManaged_ok [OF place w(2)] place(2) by (simp add: managed_body_def)
  qed
  assume bad: "r = Inl e" and nf: "no_faults h" and nolink: "\<forall>n t. Lstat (ngfs h) p = Some n \<longrightarrow> kind n \<noteq> Link t"
  have undo: "\<exists>h''. restore a ?app previous g = (Inr (), h'') \<and> managed_body a spec h'' = managed_body a spec h"
    if g: "ngfs g = ngfs h1" and w: "writeManaged a ?app body h0 = (Inr (), h1)"
      and prev: "readManaged a ?app h0 = (Inr previous, h0)" for g h1 previous
  proof -
    have "installed ds p (ngfs g)" "no_faults g"
      using writeManaged_ok [OF place w] g f0 nf by (simp_all add: no_faults_def)
    from restore_ok [OF place this, of previous] prev show ?thesis
      using place(2) f0 by (auto simp: readManaged_cases managed_body_def split: sum.splits if_splits)
  qed
  have write_error: "managed_body a spec h1 = managed_body a spec h"
    if w: "writeManaged a ?app body h0 = (Inl e', h1)" for e' h1
  proof -
    have same: "Lstat (ngfs h1) p = Lstat (ngfs h) p" using writeManaged_error [OF place w] f0 by simp
    show ?thesis using same nolink place(2)
      by (cases "Lstat (ngfs h) p") (auto simp: managed_body_def ReadFile_def Stat_def split: content.split)
  qed
  show "managed_body a spec h' = managed_body a spec h"
  proof (cases "r0 = Inr () \<and> (\<exists>previous h1. readManaged a ?app h0 = (Inr previous, h0) \<and> writeManaged a ?app body h0 = (Inr (), h1))")
    case False
    then show ?thesis
      using run bad v f0 write_error unfolding Nginx_Apply_def Let_def andthen_def attempt_def readManaged_cases
      by (auto simp: ask_code_def render give_def raise_def managed_body_def split: prod.splits sum.splits if_splits)
  next
    case True
    then obtain previous h1 where w: "r0 = Inr ()" "readManaged a ?app h0 = (Inr previous, h0)"
      "writeManaged a ?app body h0 = (Inr (), h1)" by blast
    obtain r2 h2 where c: "checkLoaded a spec h1 = (r2, h2)" by fastforce
    obtain r3 h3 where t: "testConfig a h2 = (r3, h3)" by fastforce
    obtain r4 h4 where l: "reload a h3 = (r4, h4)" by fastforce
    have f: "ngfs h2 = ngfs h1" "ngfs h3 = ngfs h1" "ngfs h4 = ngfs h1"
      using keep(1) [OF c] keep(2) [OF t] keep(3) [OF l] by simp_all
    obtain g2 g3 g4 where u: "restore a ?app previous h2 = (Inr (), g2)" "restore a ?app previous h3 = (Inr (), g3)"
      "restore a ?app previous h4 = (Inr (), g4)"
      and b: "managed_body a spec g2 = managed_body a spec h" "managed_body a spec g3 = managed_body a spec h"
        "managed_body a spec g4 = managed_body a spec h"
      using undo [OF f(1) w(3,2)] undo [OF f(2) w(3,2)] undo [OF f(3) w(3,2)] by blast
    obtain r5 g5 where l2: "reload a g4 = (r5, g5)" by fastforce
    have "managed_body a spec g5 = managed_body a spec h" using keep(3) [OF l2] b(3) by (simp add: managed_body_def)
    then show ?thesis
      using run bad v w c t l u b l2
      unfolding Nginx_Apply_def Let_def andthen_def attempt_def
      by (auto simp: ask_code_def render give_def raise_def split: sum.splits)
  qed
qed

section \<open>Properties\<close>

text \<open>An nginx that loads every managed file that exists; its state tells whether a reload succeeds.\<close>

definition sample_runner :: "string list \<Rightarrow> Fs \<Rightarrow> bool \<Rightarrow> (unit + CmdResult) \<times> bool" where
  "sample_runner argv fs healthy =
     (let file = ''/etc/nginx/frz-managed/shop.conf''
      in (Inr \<lparr>CmdStdout = (if argv = [''nginx'', ''-T'', ''-c'', ''/etc/nginx/nginx.conf''] \<and> Lstat fs file \<noteq> None
                         then ''# configuration file '' @ file @ '':'' else []),
               CmdStderr = [], CmdExit = (if argv = [''nginx'', ''-s'', ''reload''] \<and> \<not> healthy then 1 else 0)\<rparr>, healthy))"

definition sample_ng :: "bool NgAdapter" where
  "sample_ng = NewAdapter [] [] [] [] True sample_runner"

definition sample_ng_host :: "bool \<Rightarrow> bool NgHost" where
  "sample_ng_host healthy = \<lparr>ngfs = \<lparr>tree = map (\<lambda>d. (d, new_node Dir 493)) [''/etc'', ''/etc/nginx''], calls = 0,
     faulty = (\<lambda>_. False)\<rparr>, daemon = healthy\<rparr>"

definition sample_bg :: ApplicationSpec where
  "sample_bg = applyDefaults
     (sample_blue_green\<lparr>SpArtifact := (SpArtifact sample_single)\<lparr>Unpack :=
        (Unpack (SpArtifact sample_single))\<lparr>Strategy := UnpackNone\<rparr>\<rparr>, KeepLast := 5\<rparr>)"

lemma sample_bg_valid:
  "ApplicationSpec_Validate (\<lambda>_. None) sample_blue_green = Inr sample_bg" "BlueGreen sample_blue_green"
  using sample_blue_green_valid by (simp add: sample_bg_def) code_simp

lemma sample_ng_path:
  "managed_path [''etc'', ''nginx'', ''frz-managed''] ''shop.conf'' (RootPath sample_ng (ManagedFile sample_ng (SpApplication sample_bg)))"
  by code_simp

text \<open>What is written is read back: for every slot of an accepted blue-green manifest the managed file is
  rendered, and parsing it with the same manifest yields that slot. The managed file is the only record of
  where the traffic goes, so reconciliation and the slot view rest on this.\<close>

theorem managed_roundtrip:
  assumes "ApplicationSpec_Validate urls s = Inr spec" and "BlueGreen s" and "Slot_Valid target"
  shows "\<exists>body. RenderManaged spec target [] [] = Inr body \<and> ParseManaged body spec = Some target"
  using accepted_render [OF assms] .

theorem managed_roundtrip_witness:
  "\<exists>body. RenderManaged sample_bg SlotGreen [] [] = Inr body \<and> ParseManaged body sample_bg = Some SlotGreen"
  using managed_roundtrip [OF sample_bg_valid, of SlotGreen] by (simp add: Slot_Valid_def)



end
