(* ===== verification/UnixFs.thy ===== *)
theory UnixFs
  imports Fs
begin

text \<open>
  A file tree with hard and symbolic links, for the code whose safety depends on how paths are resolved:
  names lead to inodes, and a symbolic link in the middle of a path is followed, at most 40 times, as
  Linux does. Paths of the tree are lists of segments without links in front of the last one; the calls
  take the strings the program passes. As in \<open>Fs\<close>, the \<open>n\<close>-th call that changes something fails when
  \<open>ufaulty n\<close> holds.
\<close>

section \<open>Names, inodes, resolution\<close>

record UFs =
  names :: "(string list \<times> nat) list"
  inodes :: "(nat \<times> Node) list"
  next_inode :: nat
  ucalls :: nat
  ufaulty :: "nat \<Rightarrow> bool"

definition inode_at :: "UFs \<Rightarrow> string list \<Rightarrow> nat option" where
  "inode_at fs p = map_of (names fs) p"

definition node_at :: "UFs \<Rightarrow> string list \<Rightarrow> Node option" where
  "node_at fs p = (case inode_at fs p of None \<Rightarrow> None | Some i \<Rightarrow> map_of (inodes fs) i)"

definition dir_at :: "UFs \<Rightarrow> string list \<Rightarrow> bool" where
  "dir_at fs p \<longleftrightarrow> (case node_at fs p of Some n \<Rightarrow> kind n = Dir | None \<Rightarrow> False)"

text \<open>Walks from the directory \<open>cur\<close> along the segments; the flag says whether a link at the end is followed.\<close>

function walk :: "UFs \<Rightarrow> bool \<Rightarrow> nat \<Rightarrow> string list \<Rightarrow> string list \<Rightarrow> fs_error + string list" where
  "walk fs follow n cur [] = Inr cur"
| "walk fs follow n cur (s # ss) =
     (if s = [] \<or> s = ''.'' then walk fs follow n cur ss
      else if s = ''..'' then walk fs follow n (butlast cur) ss
      else case node_at fs (cur @ [s]) of
        None \<Rightarrow> if ss = [] then Inr (cur @ [s]) else Inl NotExist
      | Some node \<Rightarrow>
          (case kind node of
             Dir \<Rightarrow> walk fs follow n (cur @ [s]) ss
           | File _ \<Rightarrow> if ss = [] then Inr (cur @ [s]) else Inl IoFailed
           | Link t \<Rightarrow>
               if ss = [] \<and> \<not> follow then Inr (cur @ [s])
               else (case n of
                       0 \<Rightarrow> Inl IoFailed
                     | Suc m \<Rightarrow> walk fs follow m (if PathIsAbs t then [] else cur) (Split CHR ''/'' t @ ss))))"
  by pat_completeness auto

termination walk
  by (relation "inv_image (less_than <*lex*> less_than) (\<lambda>(fs, follow, n, cur, ss). (n, length ss))") auto

definition resolve :: "UFs \<Rightarrow> bool \<Rightarrow> string \<Rightarrow> fs_error + string list" where
  "resolve fs follow p = walk fs follow 40 [] (Split CHR ''/'' p)"

section \<open>Calls\<close>

definition ulstat :: "UFs \<Rightarrow> string \<Rightarrow> fs_error + Node" where
  "ulstat fs p =
     (case resolve fs False p of
        Inl e \<Rightarrow> Inl e
      | Inr q \<Rightarrow> (case node_at fs q of None \<Rightarrow> Inl NotExist | Some n \<Rightarrow> Inr n))"

definition ustat :: "UFs \<Rightarrow> string \<Rightarrow> fs_error + Node" where
  "ustat fs p =
     (case resolve fs True p of
        Inl e \<Rightarrow> Inl e
      | Inr q \<Rightarrow> (case node_at fs q of None \<Rightarrow> Inl NotExist | Some n \<Rightarrow> Inr n))"

definition ucall :: "bool \<Rightarrow> string \<Rightarrow> (UFs \<Rightarrow> string list \<Rightarrow> fs_error + UFs) \<Rightarrow> UFs \<Rightarrow> fs_error option \<times> UFs" where
  "ucall follow p f fs =
     (let fs' = fs\<lparr>ucalls := Suc (ucalls fs)\<rparr>
      in if ufaulty fs (ucalls fs) then (Some IoFailed, fs')
         else case resolve fs follow p of
           Inl e \<Rightarrow> (Some e, fs')
         | Inr q \<Rightarrow> (case f fs' q of Inl e \<Rightarrow> (Some e, fs') | Inr fs'' \<Rightarrow> (None, fs'')))"

definition add_node :: "UFs \<Rightarrow> string list \<Rightarrow> Node \<Rightarrow> UFs" where
  "add_node fs q n =
     fs\<lparr>names := AList.update q (next_inode fs) (names fs), inodes := AList.update (next_inode fs) n (inodes fs),
        next_inode := Suc (next_inode fs)\<rparr>"

definition set_node :: "UFs \<Rightarrow> nat \<Rightarrow> Node \<Rightarrow> UFs" where
  "set_node fs i n = fs\<lparr>inodes := AList.update i n (inodes fs)\<rparr>"

definition umkdir :: "string \<Rightarrow> nat \<Rightarrow> UFs \<Rightarrow> fs_error option \<times> UFs" where
  "umkdir p m = ucall False p (\<lambda>fs q.
     if node_at fs q \<noteq> None then Inl Exists else Inr (add_node fs q (new_node Dir m)))"

text \<open>\<open>OpenFile\<close> with \<open>O_CREATE\<close> and \<open>O_TRUNC\<close>; the content is written by the next call.\<close>

definition ucreate :: "string \<Rightarrow> nat \<Rightarrow> UFs \<Rightarrow> fs_error option \<times> UFs" where
  "ucreate p m = ucall True p (\<lambda>fs q.
     case inode_at fs q of
       None \<Rightarrow> Inr (add_node fs q (new_node (File []) m))
     | Some i \<Rightarrow>
         (case map_of (inodes fs) i of
            None \<Rightarrow> Inl IoFailed
          | Some n \<Rightarrow> (case kind n of File _ \<Rightarrow> Inr (set_node fs i (n\<lparr>kind := File []\<rparr>)) | _ \<Rightarrow> Inl IoFailed)))"

definition on_node :: "(Node \<Rightarrow> fs_error + Node) \<Rightarrow> UFs \<Rightarrow> string list \<Rightarrow> fs_error + UFs" where
  "on_node f fs q =
     (case inode_at fs q of
        None \<Rightarrow> Inl NotExist
      | Some i \<Rightarrow>
          (case map_of (inodes fs) i of
             None \<Rightarrow> Inl IoFailed
           | Some n \<Rightarrow> (case f n of Inl e \<Rightarrow> Inl e | Inr n' \<Rightarrow> Inr (set_node fs i n'))))"

definition ufill :: "string \<Rightarrow> string \<Rightarrow> UFs \<Rightarrow> fs_error option \<times> UFs" where
  "ufill p c = ucall True p (on_node (\<lambda>n. case kind n of File _ \<Rightarrow> Inr (n\<lparr>kind := File c\<rparr>) | _ \<Rightarrow> Inl IoFailed))"

definition uchmod :: "string \<Rightarrow> nat \<Rightarrow> UFs \<Rightarrow> fs_error option \<times> UFs" where
  "uchmod p m = ucall True p (on_node (\<lambda>n. Inr (n\<lparr>mode := m\<rparr>)))"

definition ulchown :: "string \<Rightarrow> nat \<times> nat \<Rightarrow> UFs \<Rightarrow> fs_error option \<times> UFs" where
  "ulchown p w = ucall False p (on_node (\<lambda>n. Inr (n\<lparr>owner := w\<rparr>)))"

definition usymlink :: "string \<Rightarrow> string \<Rightarrow> UFs \<Rightarrow> fs_error option \<times> UFs" where
  "usymlink target p = ucall False p (\<lambda>fs q.
     if node_at fs q \<noteq> None then Inl Exists else Inr (add_node fs q (new_node (Link target) 511)))"

text \<open>\<open>link(2)\<close>: a link at the end of the old path is not followed, those in its middle are.\<close>

definition ulink :: "string \<Rightarrow> string \<Rightarrow> UFs \<Rightarrow> fs_error option \<times> UFs" where
  "ulink old p = ucall False p (\<lambda>fs q.
     case resolve fs False old of
       Inl e \<Rightarrow> Inl e
     | Inr src \<Rightarrow>
         (case inode_at fs src of
            None \<Rightarrow> Inl NotExist
          | Some i \<Rightarrow>
              if dir_at fs src then Inl IoFailed
              else if node_at fs q \<noteq> None then Inl Exists
              else Inr (fs\<lparr>names := AList.update q i (names fs)\<rparr>)))"

definition uremove :: "string \<Rightarrow> UFs \<Rightarrow> fs_error option \<times> UFs" where
  "uremove p = ucall False p (\<lambda>fs q.
     if node_at fs q = None then Inl NotExist
     else if list_ex (\<lambda>(r, _). strict_prefix q r) (names fs) then Inl IoFailed
     else Inr (fs\<lparr>names := AList.delete q (names fs)\<rparr>))"

text \<open>\<open>O_EXCL\<close>: a file that is not there yet.\<close>

definition ucreate_new :: "string \<Rightarrow> nat \<Rightarrow> UFs \<Rightarrow> fs_error option \<times> UFs" where
  "ucreate_new p m = ucall False p (\<lambda>fs q.
     if node_at fs q \<noteq> None then Inl Exists else Inr (add_node fs q (new_node (File []) m)))"

text \<open>\<open>os.MkdirAll\<close> on the segments of an absolute path, the last one first.\<close>

primrec umkdirs :: "nat \<Rightarrow> string list \<Rightarrow> UFs \<Rightarrow> fs_error option \<times> UFs" where
  "umkdirs m [] fs = (None, fs)"
| "umkdirs m (s # up) fs =
     (let p = abs_path (rev (s # up))
      in case ustat fs p of
        Inr n \<Rightarrow> (if kind n = Dir then None else Some IoFailed, fs)
      | Inl _ \<Rightarrow>
          (case umkdirs m up fs of
             (Some e, fs1) \<Rightarrow> (Some e, fs1)
           | (None, fs1) \<Rightarrow>
               (case umkdir p m fs1 of
                  (None, fs2) \<Rightarrow> (None, fs2)
                | (Some e, fs2) \<Rightarrow>
                    (case ulstat fs2 p of
                       Inr n \<Rightarrow> (if kind n = Dir then None else Some e, fs2)
                     | Inl _ \<Rightarrow> (Some e, fs2)))))"

definition umkdirall :: "string \<Rightarrow> nat \<Rightarrow> UFs \<Rightarrow> fs_error option \<times> UFs" where
  "umkdirall p m = umkdirs m (rev (filter (\<lambda>s. s \<noteq> []) (Split CHR ''/'' p)))"

section \<open>Resolution along directories\<close>

text \<open>A path all of whose segments are plain and whose directories are directories resolves to itself.\<close>

definition dirs_along :: "UFs \<Rightarrow> string list \<Rightarrow> bool" where
  "dirs_along fs p \<longleftrightarrow> (\<forall>k. 1 \<le> k \<and> k \<le> length p \<longrightarrow> dir_at fs (take k p))"

lemma dirs_along_snoc: "dirs_along fs (p @ [s]) \<longleftrightarrow> dirs_along fs p \<and> dir_at fs (p @ [s])"
  by (auto simp: dirs_along_def le_Suc_eq)

lemma dirs_along_Nil [simp]: "dirs_along fs []"
  by (simp add: dirs_along_def)

lemma dirs_along_take: "dirs_along fs p \<Longrightarrow> dirs_along fs (take k p)"
  by (auto simp: dirs_along_def min_def)

lemma walk_dirs:
  assumes "\<forall>s \<in> set xs. plain_segment s" "\<forall>k. 1 \<le> k \<and> k \<le> length xs \<longrightarrow> dir_at fs (cur @ take k xs)"
  shows "walk fs follow n cur (xs @ ys) = walk fs follow n (cur @ xs) ys"
  using assms
proof (induction xs arbitrary: cur)
  case (Cons x xs)
  have x: "x \<noteq> []" "x \<noteq> ''.''" "x \<noteq> ''..''" using Cons.prems(1) by (auto simp: plain_segment_def)
  have "dir_at fs (cur @ take 1 (x # xs))" using Cons.prems(2) by (metis One_nat_def le_eq_less_or_eq length_Cons less_Suc_eq_le not_less_eq zero_less_Suc)
  then have d: "dir_at fs (cur @ [x])" by simp
  then obtain node where node: "node_at fs (cur @ [x]) = Some node" "kind node = Dir"
    by (auto simp: dir_at_def split: option.splits)
  have "dir_at fs ((cur @ [x]) @ take k xs)" if "1 \<le> k \<and> k \<le> length xs" for k
    using Cons.prems(2) [rule_format, of "Suc k"] that by simp
  then have "walk fs follow n (cur @ [x]) (xs @ ys) = walk fs follow n ((cur @ [x]) @ xs) ys"
    using Cons.prems(1) by (intro Cons.IH) auto
  then show ?case using x node by simp
qed simp

lemma walk_last:
  assumes "plain_segment s" "follow \<Longrightarrow> \<forall>n t. node_at fs (cur @ [s]) = Some n \<longrightarrow> kind n \<noteq> Link t"
  shows "walk fs follow n cur [s] = Inr (cur @ [s])"
  using assms by (auto simp: plain_segment_def split: option.split content.split nat.split)

lemma resolve_plain:
  assumes "\<forall>x \<in> set p. plain_segment x" "plain_segment s" "dirs_along fs p"
    and "follow \<Longrightarrow> \<forall>n t. node_at fs (p @ [s]) = Some n \<longrightarrow> kind n \<noteq> Link t"
  shows "resolve fs follow (abs_path (p @ [s])) = Inr (p @ [s])"
proof -
  have "Split CHR ''/'' (abs_path (p @ [s])) = [] # p @ [s]" using assms(1,2) by (intro Split_abs_path) auto
  then have "resolve fs follow (abs_path (p @ [s])) = walk fs follow 40 [] (p @ [s])" by (simp add: resolve_def)
  also have "\<dots> = walk fs follow 40 ([] @ p) [s]"
    using assms(1,3) by (intro walk_dirs) (auto simp: dirs_along_def)
  also have "\<dots> = Inr (p @ [s])" using assms(2,4) walk_last by simp
  finally show ?thesis .
qed

lemma ucall_cases:
  assumes "ucall follow p f fs = (r, fs')" "resolve fs follow p = Inr q"
  obtains "names fs' = names fs" "inodes fs' = inodes fs" "next_inode fs' = next_inode fs" "r \<noteq> None"
    | "r = None" "f (fs\<lparr>ucalls := Suc (ucalls fs)\<rparr>) q = Inr fs'"
  using assms by (auto simp: ucall_def Let_def split: if_splits sum.splits)

end
