(* ===== verification/Unpack.thy ===== *)
theory Unpack
  imports AppPaths Effects UnixFs
begin

unbundle bit_operations_syntax

text \<open>
  Unpacking an artifact into a release directory (\<open>internal/adapters/release/local/unpack.go\<close>) on the file
  tree with hard and symbolic links.

  The readers of the standard library are parameters that turn bytes into entries: \<open>TarEntries\<close> with the
  flag whether the stream ended cleanly, \<open>Gunzip\<close> and \<open>ZipEntries\<close>. A reader is its bytes with the flag
  whether they can be read to the end. The context is cancelled when the \<open>n\<close>-th entry is reached and
  \<open>cancelled n\<close> holds.
\<close>

section \<open>Names and modes\<close>

definition bad_entry :: ErrorCode where "bad_entry = CodeArtifactUnpackFailed"

text \<open>\<open>Inr None\<close>: nothing is left after the leading components are stripped, the entry is skipped.\<close>

definition cleanEntryName :: "string \<Rightarrow> int \<Rightarrow> ErrorCode + string option" where
  "cleanEntryName raw strip =
     (if raw = [] then Inl bad_entry
      else if CHR 0x5C \<in> set raw then Inl bad_entry
      else if PathIsAbs raw \<or> prefix ''/'' raw then Inl bad_entry
      else let segments = Split CHR ''/'' raw
           in if 0 < strip \<and> int (length segments) \<le> strip then Inr None
              else let cleaned = PathClean (Join CHR ''/'' (if 0 < strip then drop (nat strip) segments else segments))
                   in if cleaned = ''.'' \<or> cleaned = [] then Inr None
                      else if cleaned = ''..'' \<or> prefix ''../'' cleaned then Inl bad_entry
                      else if prefix ''/'' cleaned then Inl bad_entry
                      else Inr (Some cleaned))"

text \<open>Octal 0400 is 256, 0111 is 73 and 0100 is 64; the permission bits are the last nine.\<close>

definition Perm :: "int \<Rightarrow> nat" where "Perm m = nat (m mod 512)"

definition normalizeMode :: "nat \<Rightarrow> nat" where
  "normalizeMode m =
     (let perm = m mod 512;
          perm1 = (if perm AND 256 = 0 then perm OR 256 else perm)
      in if m AND 73 \<noteq> 0 then perm1 OR 64 else perm1)"

section \<open>Archives\<close>

type_synonym reader = "string \<times> bool"

datatype TarType =
  TypeReg | TypeDir | TypeSymlink | TypeLink | TypeXGlobalHeader | TypeXHeader | TypeUnsupported char

record TarHeader =
  HdName :: string
  Linkname :: string
  Typeflag :: TarType
  HdMode :: int
  HdBody :: reader

record ZipFile =
  ZfName :: string
  ZfPerm :: nat
  ZfDir :: bool
  ZfSymlink :: bool
  ZfOpens :: bool
  ZfBody :: reader

record Decoders =
  TarEntries :: "reader \<Rightarrow> TarHeader list \<times> bool"
  Gunzip :: "reader \<Rightarrow> reader option"
  ZipEntries :: "string \<Rightarrow> ZipFile list option"

record pendingLink =
  PlRel :: string
  PlTarget :: string
  PlTargetC :: string
  PlHardlink :: bool

text \<open>\<open>TempName\<close> is the random part of the name \<open>os.CreateTemp\<close> chooses.\<close>

record extractor =
  dest :: string
  owner_ids :: "nat \<times> nat"
  TempName :: string

type_synonym 'a files = "(UFs, 'a) io"

definition must :: "(UFs \<Rightarrow> fs_error option \<times> UFs) \<Rightarrow> ErrorCode \<Rightarrow> unit files" where
  "must m code fs = (case m fs of (None, fs') \<Rightarrow> (Inr (), fs') | (Some _, fs') \<Rightarrow> (Inl (Fault code), fs'))"

definition chown :: "extractor \<Rightarrow> string \<Rightarrow> unit files" where
  "chown e target = must (ulchown target (owner_ids e)) CodeInternal"

section \<open>Files, directories and links\<close>

definition is_link :: "Node \<Rightarrow> bool" where
  "is_link n \<longleftrightarrow> (case kind n of Link _ \<Rightarrow> True | _ \<Rightarrow> False)"

definition ensure_one :: "string \<Rightarrow> unit files" where
  "ensure_one current =
     andthen (ask (\<lambda>fs. ulstat fs current)) (\<lambda>info.
     case info of
       Inr n \<Rightarrow> andthen (guard_io (\<not> is_link n) bad_entry) (\<lambda>_. guard_io (kind n = Dir) bad_entry)
     | Inl NotExist \<Rightarrow>
         (\<lambda>fs. case umkdir current 493 fs of
            (None, fs') \<Rightarrow> (Inr (), fs')
          | (Some mkErr, fs') \<Rightarrow> (if mkErr = Exists then Inr () else Inl (Fault bad_entry), fs'))
     | Inl _ \<Rightarrow> raise (Fault bad_entry))"

primrec ensure_segments :: "string \<Rightarrow> string list \<Rightarrow> unit files" where
  "ensure_segments current [] = give ()"
| "ensure_segments current (segment # segs) =
     (if segment = [] \<or> segment = ''.'' then ensure_segments current segs
      else let path = PathJoin [current, segment]
           in andthen (ensure_one path) (\<lambda>_. ensure_segments path segs))"

definition ensureDir :: "extractor \<Rightarrow> string \<Rightarrow> unit files" where
  "ensureDir e rel =
     (if rel = [] \<or> rel = ''.'' then give ()
      else ensure_segments (dest e) (Split CHR ''/'' rel))"

definition makeDir :: "extractor \<Rightarrow> string \<Rightarrow> nat \<Rightarrow> unit files" where
  "makeDir e rel perms =
     andthen (ensureDir e rel) (\<lambda>_.
     let target = PathJoin [dest e, rel]
     in andthen (must (uchmod target (normalizeMode perms)) bad_entry) (\<lambda>_.
        chown e target))"

text \<open>\<open>io.Copy\<close>: what could be read is written, then the failed read is an error.\<close>

definition copy_into :: "string \<Rightarrow> reader \<Rightarrow> unit files" where
  "copy_into target source =
     andthen (must (ufill target (fst source)) bad_entry) (\<lambda>_. guard_io (snd source) bad_entry)"

definition writeFile :: "extractor \<Rightarrow> string \<Rightarrow> nat \<Rightarrow> reader \<Rightarrow> unit files" where
  "writeFile e rel perms source =
     andthen (ensureDir e (PathDir rel)) (\<lambda>_.
     let target = PathJoin [dest e, rel]
     in andthen (ask (\<lambda>fs. ulstat fs target)) (\<lambda>info.
        andthen (guard_io (case info of Inr n \<Rightarrow> \<not> is_link n | Inl _ \<Rightarrow> True) bad_entry) (\<lambda>_.
        andthen (must (umkdirall (PathDir target) 493) bad_entry) (\<lambda>_.
        andthen (must (ucreate target (normalizeMode perms)) bad_entry) (\<lambda>_.
        andthen (copy_into target source) (\<lambda>_.
        andthen (must (uchmod target (normalizeMode perms)) bad_entry) (\<lambda>_.
        chown e target)))))))"

definition writeHardlink :: "extractor \<Rightarrow> string \<Rightarrow> string \<Rightarrow> unit files" where
  "writeHardlink e target source =
     andthen (guard_io (source = dest e \<or> prefix (dest e @ ''/'') source) bad_entry) (\<lambda>_.
     andthen (must (ulink source target) bad_entry) (\<lambda>_.
     chown e target))"

definition build_link :: "extractor \<Rightarrow> pendingLink \<Rightarrow> unit files" where
  "build_link e link =
     (let target = PathJoin [dest e, PlRel link]
      in andthen (ensureDir e (PathDir (PlRel link))) (\<lambda>_.
         andthen (ask (\<lambda>fs. ulstat fs target)) (\<lambda>info.
         andthen (guard_io (case info of Inr _ \<Rightarrow> False | Inl _ \<Rightarrow> True) bad_entry) (\<lambda>_.
         if PlHardlink link then writeHardlink e target (PathJoin [dest e, PlTargetC link])
         else andthen (must (usymlink (PlTarget link) target) bad_entry) (\<lambda>_. chown e target)))))"

primrec buildLinks :: "extractor \<Rightarrow> pendingLink list \<Rightarrow> unit files" where
  "buildLinks e [] = give ()"
| "buildLinks e (link # links) = andthen (build_link e link) (\<lambda>_. buildLinks e links)"

section \<open>Streams\<close>

text \<open>One entry of a tar stream: the link it leaves for later, if any.\<close>

definition tar_entry :: "extractor \<Rightarrow> int \<Rightarrow> TarHeader \<Rightarrow> string \<Rightarrow> pendingLink list files" where
  "tar_entry e strip header rel =
     (case Typeflag header of
        TypeDir \<Rightarrow> andthen (makeDir e rel (Perm (HdMode header))) (\<lambda>_. give [])
      | TypeReg \<Rightarrow> andthen (writeFile e rel (normalizeMode (Perm (HdMode header))) (HdBody header)) (\<lambda>_. give [])
      | TypeSymlink \<Rightarrow>
          give [\<lparr>PlRel = rel, PlTarget = Linkname header, PlTargetC = [], PlHardlink = False\<rparr>]
      | TypeLink \<Rightarrow>
          andthen (ask_code (\<lambda>_. cleanEntryName (Linkname header) strip)) (\<lambda>targetRel.
          case targetRel of
            None \<Rightarrow> raise (Fault bad_entry)
          | Some target \<Rightarrow>
              give [\<lparr>PlRel = rel, PlTarget = Linkname header, PlTargetC = target, PlHardlink = True\<rparr>])
      | TypeXGlobalHeader \<Rightarrow> give []
      | TypeXHeader \<Rightarrow> give []
      | TypeUnsupported _ \<Rightarrow> raise (Fault bad_entry))"

primrec tar_loop ::
  "extractor \<Rightarrow> (nat \<Rightarrow> bool) \<Rightarrow> int \<Rightarrow> bool \<Rightarrow> nat \<Rightarrow> pendingLink list \<Rightarrow> TarHeader list \<Rightarrow> pendingLink list files" where
  "tar_loop e cancelled strip clean_end n pending [] =
     (if cancelled n then raise (Fault CodeExecCancelled)
      else if clean_end then give pending else raise (Fault bad_entry))"
| "tar_loop e cancelled strip clean_end n pending (header # headers) =
     (if cancelled n then raise (Fault CodeExecCancelled)
      else andthen (ask_code (\<lambda>_. cleanEntryName (HdName header) strip)) (\<lambda>entry.
           case entry of
             None \<Rightarrow> tar_loop e cancelled strip clean_end (Suc n) pending headers
           | Some rel \<Rightarrow>
               andthen (tar_entry e strip header rel) (\<lambda>links.
               tar_loop e cancelled strip clean_end (Suc n) (pending @ links) headers)))"

definition tarStream :: "Decoders \<Rightarrow> extractor \<Rightarrow> (nat \<Rightarrow> bool) \<Rightarrow> reader \<Rightarrow> int \<Rightarrow> unit files" where
  "tarStream dec e cancelled r strip =
     (case TarEntries dec r of (headers, clean_end) \<Rightarrow>
        andthen (tar_loop e cancelled strip clean_end 0 [] headers) (buildLinks e))"

definition zip_entry :: "extractor \<Rightarrow> ZipFile \<Rightarrow> string \<Rightarrow> pendingLink list files" where
  "zip_entry e f rel =
     (if ZfDir f then andthen (makeDir e rel (normalizeMode (ZfPerm f))) (\<lambda>_. give [])
      else andthen (guard_io (ZfOpens f) bad_entry) (\<lambda>_.
           if ZfSymlink f
           then andthen (guard_io (snd (ZfBody f) \<or> 4096 \<le> length (fst (ZfBody f))) bad_entry) (\<lambda>_.
                give [\<lparr>PlRel = rel, PlTarget = take 4096 (fst (ZfBody f)), PlTargetC = [], PlHardlink = False\<rparr>])
           else andthen (writeFile e rel (normalizeMode (ZfPerm f)) (ZfBody f)) (\<lambda>_. give [])))"

primrec zip_loop ::
  "extractor \<Rightarrow> (nat \<Rightarrow> bool) \<Rightarrow> int \<Rightarrow> nat \<Rightarrow> pendingLink list \<Rightarrow> ZipFile list \<Rightarrow> pendingLink list files" where
  "zip_loop e cancelled strip n pending [] = give pending"
| "zip_loop e cancelled strip n pending (f # fs) =
     (if cancelled n then raise (Fault CodeExecCancelled)
      else andthen (ask_code (\<lambda>_. cleanEntryName (ZfName f) strip)) (\<lambda>entry.
           case entry of
             None \<Rightarrow> zip_loop e cancelled strip (Suc n) pending fs
           | Some rel \<Rightarrow>
               andthen (zip_entry e f rel) (\<lambda>links.
               zip_loop e cancelled strip (Suc n) (pending @ links) fs)))"

definition zipStream :: "Decoders \<Rightarrow> extractor \<Rightarrow> (nat \<Rightarrow> bool) \<Rightarrow> reader \<Rightarrow> int \<Rightarrow> unit files" where
  "zipStream dec e cancelled r strip =
     (let tmp = PathJoin [dest e, ''.artifact-'' @ TempName e @ ''.zip'']
      in andthen (must (ucreate_new tmp 384) CodeInternal) (\<lambda>_.
         attempt
           (andthen (copy_into tmp r) (\<lambda>_.
            case ZipEntries dec (fst r) of
              None \<Rightarrow> raise (Fault bad_entry)
            | Some files_ \<Rightarrow> andthen (zip_loop e cancelled strip 0 [] files_) (buildLinks e)))
           (\<lambda>err. andthen (ignoring (must (uremove tmp) CodeInternal)) (\<lambda>_. raise err))
           (\<lambda>_. ignoring (must (uremove tmp) CodeInternal))))"

definition singleFile :: "extractor \<Rightarrow> ApplicationSpec \<Rightarrow> reader \<Rightarrow> unit files" where
  "singleFile e spec artifact =
     (let name = MaterializedFileName spec
      in if name = [] then give () else writeFile e name 493 artifact)"

definition unpackArtifact ::
  "Decoders \<Rightarrow> (nat \<Rightarrow> bool) \<Rightarrow> ApplicationSpec \<Rightarrow> reader \<Rightarrow> extractor \<Rightarrow> unit files" where
  "unpackArtifact dec cancelled spec artifact e =
     (let unpack = Unpack (SpArtifact spec)
      in case Strategy unpack of
        UnpackNone \<Rightarrow> singleFile e spec artifact
      | UnpackTar \<Rightarrow> tarStream dec e cancelled artifact (StripComponents unpack)
      | UnpackTarGz \<Rightarrow>
          (case Gunzip dec artifact of
             None \<Rightarrow> raise (Fault bad_entry)
           | Some r \<Rightarrow> tarStream dec e cancelled r (StripComponents unpack))
      | UnpackZip \<Rightarrow> zipStream dec e cancelled artifact (StripComponents unpack)
      | UnpackOther _ \<Rightarrow> raise (Fault CodeManifestInvalid))"

section \<open>What the calls of the file system change\<close>

text \<open>A directory below which nothing has a name yet, reached through directories only.\<close>

definition fresh_dest :: "UFs \<Rightarrow> string list \<Rightarrow> bool" where
  "fresh_dest fs ds \<longleftrightarrow> ds \<noteq> [] \<and> (\<forall>s \<in> set ds. plain_segment s) \<and> dirs_along fs ds
     \<and> (\<forall>p \<in> fst ` set (names fs). \<not> strict_prefix ds p) \<and> (\<forall>i \<in> snd ` set (names fs). i < next_inode fs)"

text \<open>Names outside the directory lead to the same inodes, inodes of before hold the same nodes, and every
  name below the directory leads to a new inode.\<close>

definition sealed :: "UFs \<Rightarrow> string list \<Rightarrow> UFs \<Rightarrow> bool" where
  "sealed fs0 ds fs \<longleftrightarrow> fresh_dest fs0 ds
     \<and> (\<forall>p. \<not> strict_prefix ds p \<longrightarrow> inode_at fs p = inode_at fs0 p)
     \<and> (\<forall>i < next_inode fs0. map_of (inodes fs) i = map_of (inodes fs0) i)
     \<and> (\<forall>p i. strict_prefix ds p \<longrightarrow> inode_at fs p = Some i \<longrightarrow> next_inode fs0 \<le> i)
     \<and> (\<forall>p i. inode_at fs p = Some i \<longrightarrow> i < next_inode fs) \<and> next_inode fs0 \<le> next_inode fs"

definition outside_unchanged :: "string list \<Rightarrow> UFs \<Rightarrow> UFs \<Rightarrow> bool" where
  "outside_unchanged ds fs fs' \<longleftrightarrow>
     (\<forall>p. \<not> strict_prefix ds p \<longrightarrow> inode_at fs' p = inode_at fs p \<and> node_at fs' p = node_at fs p)"

lemma strict_below [simp]: "strict_prefix ds (ds @ xs) \<longleftrightarrow> xs \<noteq> []"
  by (auto simp: strict_prefix_def)

lemma inode_at_bound: "fresh_dest fs ds \<Longrightarrow> inode_at fs p = Some i \<Longrightarrow> i < next_inode fs"
  by (force simp: fresh_dest_def inode_at_def dest: map_of_SomeD)

lemma sealed_start:
  assumes "fresh_dest fs ds" shows "sealed fs ds fs"
proof -
  have "inode_at fs p = None" if "strict_prefix ds p" for p
    using assms that by (auto simp: fresh_dest_def inode_at_def map_of_eq_None_iff)
  then show ?thesis using assms inode_at_bound [OF assms] by (auto simp: sealed_def)
qed

lemma sealed_outside:
  assumes "sealed fs0 ds fs" shows "outside_unchanged ds fs0 fs"
  unfolding outside_unchanged_def
proof (intro allI impI conjI)
  fix p assume p: "\<not> strict_prefix ds p"
  then show i: "inode_at fs p = inode_at fs0 p" using assms by (simp add: sealed_def)
  have "map_of (inodes fs) i = map_of (inodes fs0) i" if "inode_at fs0 p = Some i" for i
    using assms inode_at_bound [OF _ that, of ds] by (simp add: sealed_def)
  then show "node_at fs p = node_at fs0 p" using i by (simp add: node_at_def split: option.split)
qed

lemma sealed_dest:
  assumes "sealed fs0 ds fs"
  shows "dirs_along fs ds" "ds \<noteq> []" "\<forall>s \<in> set ds. plain_segment s"
proof -
  have "\<not> strict_prefix ds (take k ds)" for k
    by (metis prefix_order.less_le_not_le take_is_prefix)
  then have "dir_at fs (take k ds) = dir_at fs0 (take k ds)" for k
    using sealed_outside [OF assms] by (simp add: outside_unchanged_def dir_at_def)
  then show "dirs_along fs ds" using assms by (simp add: sealed_def fresh_dest_def dirs_along_def)
  show "ds \<noteq> []" "\<forall>s \<in> set ds. plain_segment s" using assms by (auto simp: sealed_def fresh_dest_def)
qed

lemma counted [simp]:
  "inode_at (fs\<lparr>ucalls := n\<rparr>) p = inode_at fs p" "node_at (fs\<lparr>ucalls := n\<rparr>) p = node_at fs p"
  "dir_at (fs\<lparr>ucalls := n\<rparr>) p = dir_at fs p" "sealed fs0 ds (fs\<lparr>ucalls := n\<rparr>) = sealed fs0 ds fs"
  by (simp_all add: inode_at_def node_at_def dir_at_def sealed_def cong: option.case_cong)

text \<open>What a change below the directory may do: the seal stays and directories stay directories.\<close>

definition tame :: "UFs \<Rightarrow> string list \<Rightarrow> UFs \<Rightarrow> UFs \<Rightarrow> bool" where
  "tame fs0 ds fs fs' \<longleftrightarrow> sealed fs0 ds fs' \<and> (\<forall>p. dir_at fs p \<longrightarrow> dir_at fs' p)"

lemma tame_dirs: "tame fs0 ds fs fs' \<Longrightarrow> dirs_along fs p \<Longrightarrow> dirs_along fs' p"
  by (simp add: tame_def dirs_along_def)

lemma add_node_at:
  assumes "sealed fs0 ds fs"
  shows "inode_at (add_node fs q n) = (inode_at fs)(q \<mapsto> next_inode fs)"
    and "node_at (add_node fs q n) = (node_at fs)(q \<mapsto> n)"
proof -
  show i: "inode_at (add_node fs q n) = (inode_at fs)(q \<mapsto> next_inode fs)"
    by (auto simp: inode_at_def add_node_def fun_eq_iff)
  have "\<And>p i. inode_at fs p = Some i \<Longrightarrow> i \<noteq> next_inode fs" using assms by (auto simp: sealed_def)
  then show "node_at (add_node fs q n) = (node_at fs)(q \<mapsto> n)"
    unfolding fun_eq_iff node_at_def i by (auto simp: add_node_def split: option.split)
qed

lemma add_node_tame:
  assumes "sealed fs0 ds fs" "strict_prefix ds q" "\<not> dir_at fs q"
  shows "tame fs0 ds fs (add_node fs q n)"
proof -
  have "sealed fs0 ds (add_node fs q n)"
    using assms(1,2) unfolding sealed_def add_node_at(1) [OF assms(1)]
    by (auto simp: add_node_def less_Suc_eq)
  moreover have "dir_at (add_node fs q n) p" if "dir_at fs p" for p
    using that assms(3) unfolding dir_at_def add_node_at(2) [OF assms(1)] by (cases "p = q") auto
  ultimately show ?thesis by (simp add: tame_def)
qed

lemma set_node_tame:
  assumes "sealed fs0 ds fs" "strict_prefix ds q" "inode_at fs q = Some i" "map_of (inodes fs) i = Some n"
    and "kind n = Dir \<longrightarrow> kind n' = Dir"
  shows "tame fs0 ds fs (set_node fs i n')" "node_at (set_node fs i n') q = Some n'"
proof -
  have ia: "inode_at (set_node fs i n') = inode_at fs" by (simp add: set_node_def inode_at_def fun_eq_iff)
  have "next_inode fs0 \<le> i" using assms(1-3) by (auto simp: sealed_def)
  then have "sealed fs0 ds (set_node fs i n')"
    using assms(1) unfolding sealed_def ia by (auto simp: set_node_def)
  moreover have "dir_at (set_node fs i n') p" if "dir_at fs p" for p
    using that assms(3-5) unfolding dir_at_def node_at_def ia by (auto simp: set_node_def split: option.splits)
  ultimately show "tame fs0 ds fs (set_node fs i n')" by (simp add: tame_def)
  show "node_at (set_node fs i n') q = Some n'" using assms(3) unfolding node_at_def ia by (simp add: set_node_def)
qed

lemma ucall_tame:
  assumes "sealed fs0 ds fs" "resolve fs follow p = Inr q" "ucall follow p f fs = (r, fs')"
    and "\<And>gs gs'. sealed fs0 ds gs \<Longrightarrow> node_at gs = node_at fs \<Longrightarrow> f gs q = Inr gs' \<Longrightarrow> tame fs0 ds gs gs' \<and> P gs'"
  shows "tame fs0 ds fs fs' \<and> (r = None \<longrightarrow> P fs')"
proof -
  let ?gs = "fs\<lparr>ucalls := Suc (ucalls fs)\<rparr>"
  have gs: "sealed fs0 ds ?gs" "node_at ?gs = node_at fs" using assms(1) by (simp_all add: fun_eq_iff)
  show ?thesis
    using assms(2,3) gs assms(4) [of ?gs fs']
    by (auto simp: ucall_def Let_def tame_def split: if_splits sum.splits)
qed

text \<open>The place \<open>a/s\<close> below the directory, reached through directories, that is no symbolic link.\<close>

definition place :: "UFs \<Rightarrow> string list \<Rightarrow> string list \<Rightarrow> string \<Rightarrow> UFs \<Rightarrow> bool" where
  "place fs0 ds a s fs \<longleftrightarrow> sealed fs0 ds fs \<and> dirs_along fs (ds @ a) \<and> (\<forall>x \<in> set (a @ [s]). plain_segment x)
     \<and> (\<forall>n t. node_at fs (ds @ a @ [s]) = Some n \<longrightarrow> kind n \<noteq> Link t)"

lemma place_resolve:
  assumes "place fs0 ds a s fs"
  shows "resolve fs follow (abs_path (ds @ a @ [s])) = Inr (ds @ a @ [s])"
proof -
  have "\<forall>x \<in> set (ds @ a). plain_segment x" "plain_segment s"
    using assms sealed_dest(3) by (auto simp: place_def)
  then have "resolve fs follow (abs_path ((ds @ a) @ [s])) = Inr ((ds @ a) @ [s])"
    using assms by (intro resolve_plain) (auto simp: place_def)
  then show ?thesis by simp
qed

lemma resolve_below:
  assumes "sealed fs0 ds fs" "dirs_along fs (ds @ a)" "\<forall>x \<in> set (a @ [s]). plain_segment x"
  shows "resolve fs False (abs_path (ds @ a @ [s])) = Inr (ds @ a @ [s])"
proof -
  have "resolve fs False (abs_path ((ds @ a) @ [s])) = Inr ((ds @ a) @ [s])"
    using assms sealed_dest(3) by (intro resolve_plain) auto
  then show ?thesis by simp
qed

lemma umkdir_tame:
  assumes "sealed fs0 ds fs" "dirs_along fs (ds @ a)" "\<forall>x \<in> set (a @ [s]). plain_segment x"
    and "umkdir (abs_path (ds @ a @ [s])) m fs = (r, fs')"
  shows "tame fs0 ds fs fs' \<and> (r = None \<longrightarrow> dir_at fs' (ds @ a @ [s]))"
proof (rule ucall_tame [OF assms(1) resolve_below [OF assms(1-3)] assms(4) [unfolded umkdir_def]])
  fix gs gs'
  assume gs: "sealed fs0 ds gs"
    and f: "(if node_at gs (ds @ a @ [s]) \<noteq> None then Inl Exists else Inr (add_node gs (ds @ a @ [s]) (new_node Dir m))) = Inr gs'"
  then have "gs' = add_node gs (ds @ a @ [s]) (new_node Dir m)" "\<not> dir_at gs (ds @ a @ [s])"
    by (auto simp: dir_at_def split: if_splits)
  then show "tame fs0 ds gs gs' \<and> dir_at gs' (ds @ a @ [s])"
    using add_node_tame [OF gs, of "ds @ a @ [s]" "new_node Dir m"] add_node_at(2) [OF gs]
    by (simp add: dir_at_def new_node_def)
qed

lemma usymlink_tame:
  assumes "sealed fs0 ds fs" "dirs_along fs (ds @ a)" "\<forall>x \<in> set (a @ [s]). plain_segment x"
    and "usymlink t (abs_path (ds @ a @ [s])) fs = (r, fs')"
  shows "tame fs0 ds fs fs' \<and> (r = None \<longrightarrow> True)"
proof (rule ucall_tame [OF assms(1) resolve_below [OF assms(1-3)] assms(4) [unfolded usymlink_def]])
  fix gs gs'
  assume gs: "sealed fs0 ds gs"
    and f: "(if node_at gs (ds @ a @ [s]) \<noteq> None then Inl Exists else Inr (add_node gs (ds @ a @ [s]) (new_node (Link t) 511))) = Inr gs'"
  then have "gs' = add_node gs (ds @ a @ [s]) (new_node (Link t) 511)" "\<not> dir_at gs (ds @ a @ [s])"
    by (auto simp: dir_at_def split: if_splits)
  then show "tame fs0 ds gs gs' \<and> True" using add_node_tame [OF gs, of "ds @ a @ [s]"] by simp
qed

lemma on_node_tame:
  assumes "sealed fs0 ds gs" "strict_prefix ds q" "on_node f gs q = Inr gs'"
    and "\<And>n n'. f n = Inr n' \<Longrightarrow> kind n = Dir \<longrightarrow> kind n' = Dir"
  shows "tame fs0 ds gs gs' \<and> (\<exists>n n'. node_at gs q = Some n \<and> f n = Inr n' \<and> node_at gs' q = Some n')"
proof -
  obtain i n n' where n: "inode_at gs q = Some i" "map_of (inodes gs) i = Some n" "f n = Inr n'" "gs' = set_node gs i n'"
    using assms(3) by (auto simp: on_node_def split: option.splits sum.splits)
  show ?thesis
    using set_node_tame [OF assms(1,2) n(1,2) assms(4) [OF n(3)]] n by (auto simp: node_at_def)
qed

lemma ulchown_tame:
  assumes "sealed fs0 ds fs" "dirs_along fs (ds @ a)" "\<forall>x \<in> set (a @ [s]). plain_segment x"
    and "ulchown (abs_path (ds @ a @ [s])) w fs = (r, fs')"
  shows "tame fs0 ds fs fs' \<and> (r = None \<longrightarrow> True)"
proof (rule ucall_tame [OF assms(1) resolve_below [OF assms(1-3)] assms(4) [unfolded ulchown_def]])
  fix gs gs'
  assume gs: "sealed fs0 ds gs" and f: "on_node (\<lambda>n. Inr (n\<lparr>owner := w\<rparr>)) gs (ds @ a @ [s]) = Inr gs'"
  show "tame fs0 ds gs gs' \<and> True" using on_node_tame [OF gs _ f] by auto
qed

definition no_link_at :: "string list \<Rightarrow> UFs \<Rightarrow> bool" where
  "no_link_at q fs \<longleftrightarrow> (\<forall>n t. node_at fs q = Some n \<longrightarrow> kind n \<noteq> Link t)"

lemma place_again:
  "place fs0 ds a s fs \<Longrightarrow> tame fs0 ds fs fs' \<and> (r = None \<longrightarrow> no_link_at (ds @ a @ [s]) fs') \<Longrightarrow>
   sealed fs0 ds fs' \<and> (r = None \<longrightarrow> place fs0 ds a s fs')"
  using tame_dirs [of fs0 ds fs fs' "ds @ a"] by (auto simp: place_def no_link_at_def tame_def)

lemma uchmod_place:
  assumes p: "place fs0 ds a s fs" and run: "uchmod (abs_path (ds @ a @ [s])) m fs = (r, fs')"
  shows "sealed fs0 ds fs' \<and> (r = None \<longrightarrow> place fs0 ds a s fs')"
proof (rule place_again [OF p], rule ucall_tame [OF _ place_resolve [OF p] run [unfolded uchmod_def]])
  show "sealed fs0 ds fs" using p by (simp add: place_def)
next
  fix gs gs'
  assume gs: "sealed fs0 ds gs" "node_at gs = node_at fs" and f: "on_node (\<lambda>n. Inr (n\<lparr>mode := m\<rparr>)) gs (ds @ a @ [s]) = Inr gs'"
  have "tame fs0 ds gs gs' \<and> (\<exists>n n'. node_at gs (ds @ a @ [s]) = Some n \<and> Inr (n\<lparr>mode := m\<rparr>) = (Inr n' :: fs_error + Node) \<and> node_at gs' (ds @ a @ [s]) = Some n')"
    by (rule on_node_tame [OF gs(1) _ f]) auto
  then show "tame fs0 ds gs gs' \<and> no_link_at (ds @ a @ [s]) gs'" using p gs(2) by (auto simp: no_link_at_def place_def)
qed

lemma ufill_place:
  assumes p: "place fs0 ds a s fs" and run: "ufill (abs_path (ds @ a @ [s])) c fs = (r, fs')"
  shows "sealed fs0 ds fs' \<and> (r = None \<longrightarrow> place fs0 ds a s fs')"
proof (rule place_again [OF p], rule ucall_tame [OF _ place_resolve [OF p] run [unfolded ufill_def]])
  show "sealed fs0 ds fs" using p by (simp add: place_def)
next
  fix gs gs'
  let ?f = "\<lambda>n. case kind n of File _ \<Rightarrow> Inr (n\<lparr>kind := File c\<rparr>) | _ \<Rightarrow> Inl IoFailed"
  assume gs: "sealed fs0 ds gs" and f: "on_node ?f gs (ds @ a @ [s]) = Inr gs'"
  have "tame fs0 ds gs gs' \<and> (\<exists>n n'. node_at gs (ds @ a @ [s]) = Some n \<and> ?f n = Inr n' \<and> node_at gs' (ds @ a @ [s]) = Some n')"
    by (rule on_node_tame [OF gs _ f]) (auto split: content.splits)
  then obtain n n' where t: "tame fs0 ds gs gs'" and n: "?f n = Inr n'" "node_at gs' (ds @ a @ [s]) = Some n'" by blast
  show "tame fs0 ds gs gs' \<and> no_link_at (ds @ a @ [s]) gs'" using t n by (cases "kind n") (auto simp: no_link_at_def)
qed

lemma ucreate_place:
  assumes p: "place fs0 ds a s fs" and run: "ucreate (abs_path (ds @ a @ [s])) m fs = (r, fs')"
  shows "sealed fs0 ds fs' \<and> (r = None \<longrightarrow> place fs0 ds a s fs')"
proof (rule place_again [OF p], rule ucall_tame [OF _ place_resolve [OF p] run [unfolded ucreate_def]])
  show "sealed fs0 ds fs" using p by (simp add: place_def)
next
  fix gs gs'
  let ?q = "ds @ a @ [s]"
  assume gs: "sealed fs0 ds gs"
    and f: "(case inode_at gs ?q of None \<Rightarrow> Inr (add_node gs ?q (new_node (File []) m))
      | Some i \<Rightarrow> (case map_of (inodes gs) i of None \<Rightarrow> Inl IoFailed
          | Some n \<Rightarrow> (case kind n of File _ \<Rightarrow> Inr (set_node gs i (n\<lparr>kind := File []\<rparr>)) | _ \<Rightarrow> Inl IoFailed))) = Inr gs'"
  show "tame fs0 ds gs gs' \<and> no_link_at ?q gs'"
  proof (cases "inode_at gs ?q")
    case None
    then have "\<not> dir_at gs ?q" by (simp add: dir_at_def node_at_def)
    then show ?thesis using f None add_node_tame [OF gs, of ?q] add_node_at(2) [OF gs, of ?q]
      by (auto simp: no_link_at_def new_node_def)
  next
    case (Some i)
    then obtain n c where n: "map_of (inodes gs) i = Some n" "kind n = File c" "gs' = set_node gs i (n\<lparr>kind := File []\<rparr>)"
      using f by (auto split: option.splits content.splits)
    then show ?thesis using set_node_tame [OF gs _ Some n(1), of "n\<lparr>kind := File []\<rparr>"] by (auto simp: no_link_at_def)
  qed
qed

section \<open>The operations stay below the directory\<close>

lemma must_contract:
  assumes "\<And>fs r fs'. P fs \<Longrightarrow> m fs = (r, fs') \<Longrightarrow> E fs' \<and> (r = None \<longrightarrow> Q fs')"
  shows "contract P (must m c) (\<lambda>_. Q) (\<lambda>_. E)"
  using assms by (fastforce simp: contract_def must_def split: prod.split option.split sum.split)

definition at_dirs :: "UFs \<Rightarrow> string list \<Rightarrow> string list \<Rightarrow> UFs \<Rightarrow> bool" where
  "at_dirs fs0 ds a fs \<longleftrightarrow> sealed fs0 ds fs \<and> dirs_along fs (ds @ a)"

lemma ulstat_below:
  assumes "at_dirs fs0 ds a fs" "\<forall>x \<in> set (a @ [s]). plain_segment x"
  shows "ulstat fs (abs_path (ds @ a @ [s])) =
     (case node_at fs (ds @ a @ [s]) of None \<Rightarrow> Inl NotExist | Some n \<Rightarrow> Inr n)"
  using assms resolve_below [of fs0 ds fs a s] by (simp add: at_dirs_def ulstat_def)

lemma ensure_one_contract:
  assumes "\<forall>x \<in> set (a @ [s]). plain_segment x"
  shows "contract (at_dirs fs0 ds a) (ensure_one (abs_path (ds @ a @ [s])))
     (\<lambda>_. at_dirs fs0 ds (a @ [s])) (\<lambda>_. sealed fs0 ds)"
proof (rule contractI)
  fix fs e fs'
  assume P: "at_dirs fs0 ds a fs" and run: "ensure_one (abs_path (ds @ a @ [s])) fs = (Inl e, fs')"
  have "tame fs0 ds fs gs" if "umkdir (abs_path (ds @ a @ [s])) 493 fs = (r, gs)" for r gs
    using umkdir_tame [OF _ _ assms that] P by (simp add: at_dirs_def)
  then show "sealed fs0 ds fs'"
    using run P ulstat_below [OF P assms] unfolding ensure_one_def
    by (auto simp: io_defs at_dirs_def tame_def split: option.splits prod.splits if_splits)
next
  fix fs x fs'
  assume P: "at_dirs fs0 ds a fs" and run: "ensure_one (abs_path (ds @ a @ [s])) fs = (Inr x, fs')"
  have mk: "tame fs0 ds fs gs \<and> (r = None \<longrightarrow> dir_at gs (ds @ a @ [s]))"
    if "umkdir (abs_path (ds @ a @ [s])) 493 fs = (r, gs)" for r gs
    using umkdir_tame [OF _ _ assms that] P by (auto simp: at_dirs_def)
  have noex: "r \<noteq> Some Exists"
    if "umkdir (abs_path (ds @ a @ [s])) 493 fs = (r, gs)" "node_at fs (ds @ a @ [s]) = None" for r gs
    using that resolve_below [of fs0 ds fs a s] P assms
    by (auto simp: umkdir_def ucall_def at_dirs_def Let_def split: if_splits sum.splits)
  show "at_dirs fs0 ds (a @ [s]) fs'"
  proof (cases "node_at fs (ds @ a @ [s])")
    case (Some n)
    then have "fs' = fs" "kind n = Dir"
      using run ulstat_below [OF P assms] unfolding ensure_one_def by (auto simp: io_defs split: if_splits)
    then show ?thesis using P Some dirs_along_snoc [of fs "ds @ a" s] by (simp add: at_dirs_def dir_at_def)
  next
    case None
    obtain r gs where m: "umkdir (abs_path (ds @ a @ [s])) 493 fs = (r, gs)" by fastforce
    have "r = None \<and> fs' = gs"
      using run None ulstat_below [OF P assms] noex [OF m None] m unfolding ensure_one_def
      by (auto simp: io_defs split: option.splits if_splits)
    then show ?thesis
      using mk [OF m] P tame_dirs [of fs0 ds fs gs "ds @ a"] dirs_along_snoc [of gs "ds @ a" s]
      by (simp add: at_dirs_def tame_def)
  qed
qed

text \<open>Segments as they come from the program: separators cut out, nothing leads upwards.\<close>

definition safe_segments :: "string list \<Rightarrow> bool" where
  "safe_segments segs \<longleftrightarrow> (\<forall>x \<in> set segs. CHR ''/'' \<notin> set x \<and> x \<noteq> ''..'')"

lemma safe_plain: "safe_segments segs \<Longrightarrow> x \<in> set (kept_segments segs) \<Longrightarrow> plain_segment x"
  by (auto simp: safe_segments_def kept_segments_def plain_segment_def)

lemma ensure_segments_contract:
  assumes "ds \<noteq> []" "\<forall>x \<in> set (ds @ a). plain_segment x" "safe_segments segs"
  shows "contract (at_dirs fs0 ds a) (ensure_segments (abs_path (ds @ a)) segs)
     (\<lambda>_. at_dirs fs0 ds (a @ kept_segments segs)) (\<lambda>_. sealed fs0 ds)"
  using assms
proof (induction segs arbitrary: a)
  case Nil
  then show ?case by (auto simp: kept_segments_def intro: contract_give)
next
  case (Cons s segs)
  show ?case
  proof (cases "s = [] \<or> s = ''.''")
    case True
    have "safe_segments segs" using Cons.prems(3) by (simp add: safe_segments_def)
    then show ?thesis using Cons.IH [OF Cons.prems(1,2)] True by (auto simp: kept_segments_def)
  next
    case False
    then have s: "plain_segment s" using Cons.prems(3) by (simp add: safe_segments_def plain_segment_def)
    have j: "PathJoin [abs_path (ds @ a), s] = abs_path (ds @ a @ [s])"
      using PathJoin_segments [of "ds @ a" "[s]"] Cons.prems(1,2) s by auto
    have one: "contract (at_dirs fs0 ds a) (ensure_one (abs_path (ds @ a @ [s]))) (\<lambda>_. at_dirs fs0 ds (a @ [s])) (\<lambda>_. sealed fs0 ds)"
      using Cons.prems(2) s by (intro ensure_one_contract) auto
    have "contract (at_dirs fs0 ds (a @ [s])) (ensure_segments (abs_path (ds @ a @ [s])) segs)
       (\<lambda>_. at_dirs fs0 ds ((a @ [s]) @ kept_segments segs)) (\<lambda>_. sealed fs0 ds)"
      using Cons.prems s by (intro Cons.IH) (auto simp: safe_segments_def)
    then show ?thesis using one False j
      by (auto simp: kept_segments_def Let_def intro: contract_andthen)
  qed
qed

text \<open>Paths through directories: \<open>MkdirAll\<close> has nothing to do, and a file cannot be created on one.\<close>

lemma resolve_dirs:
  assumes "dirs_along fs p" "p \<noteq> []" "\<forall>x \<in> set p. plain_segment x"
  shows "resolve fs follow (abs_path p) = Inr p" "dir_at fs p"
proof -
  obtain a s where p: "p = a @ [s]" using assms(2) by (metis rev_exhaust)
  then have d: "dirs_along fs a" "dir_at fs (a @ [s])" using assms(1) dirs_along_snoc by auto
  then show "dir_at fs p" by (simp add: p)
  have "\<forall>n t. node_at fs (a @ [s]) = Some n \<longrightarrow> kind n \<noteq> Link t" using d(2) by (auto simp: dir_at_def)
  then show "resolve fs follow (abs_path p)  = Inr p" unfolding p using d assms(3) p by (intro resolve_plain) auto
qed

lemma umkdirall_dirs:
  assumes "dirs_along fs p" "\<forall>x \<in> set p. plain_segment x"
  shows "umkdirall (abs_path p) m fs = (None, fs)"
proof (cases "p = []")
  case True
  then show ?thesis by (simp add: umkdirall_def abs_path_def)
next
  case False
  have "filter (\<lambda>s. s \<noteq> []) p = p" using assms(2) by (auto simp: plain_segment_def filter_id_conv)
  then have "umkdirall (abs_path p) m fs = umkdirs m (rev p) fs"
    using Split_abs_path [OF False assms(2)] by (simp add: umkdirall_def)
  moreover obtain s up where u: "rev p = s # up" using False by (metis list.exhaust rev_is_Nil_conv)
  moreover have "abs_path (rev (s # up)) = abs_path p" by (simp only: u [symmetric] rev_rev_ident)
  moreover obtain n where "ustat fs (abs_path p) = Inr n" "kind n = Dir"
    using resolve_dirs [OF assms(1) False assms(2)] by (auto simp: ustat_def dir_at_def split: option.splits)
  ultimately show ?thesis by (simp add: Let_def)
qed

lemma PathDir_path:
  assumes "\<forall>x \<in> set p. plain_segment x" "plain_segment s"
  shows "PathDir (abs_path (p @ [s])) = abs_path p"
proof (cases "p = []")
  case True
  have "\<forall>c \<in> set (rev s). c \<noteq> CHR ''/''" using assms(2) by (auto simp: plain_segment_def)
  then have "dropWhile (\<lambda>c. c \<noteq> CHR ''/'') (rev (abs_path [s])) = ''/''"
    by (simp add: abs_path_def) (subst dropWhile_append2, auto)
  then show ?thesis using True by (simp add: PathDir_def) (simp add: PathClean_def abs_path_def clean_segment_def)
qed (use assms in simp)

lemma ucreate_on_dir:
  assumes "sealed fs0 ds fs" "dirs_along fs p" "p \<noteq> []" "\<forall>x \<in> set p. plain_segment x"
    and "ucreate (abs_path p) m fs = (r, fs')"
  shows "sealed fs0 ds fs' \<and> r \<noteq> None"
proof -
  note at = resolve_dirs [OF assms(2-4)]
  have "tame fs0 ds fs fs' \<and> (r = None \<longrightarrow> False)"
  proof (rule ucall_tame [OF assms(1) at(1) assms(5) [unfolded ucreate_def]])
    fix gs gs'
    assume "node_at gs = node_at fs"
      and f: "(case inode_at gs p of None \<Rightarrow> Inr (add_node gs p (new_node (File []) m))
      | Some i \<Rightarrow> (case map_of (inodes gs) i of None \<Rightarrow> Inl IoFailed
          | Some n \<Rightarrow> (case kind n of File _ \<Rightarrow> Inr (set_node gs i (n\<lparr>kind := File []\<rparr>)) | _ \<Rightarrow> Inl IoFailed))) = Inr gs'"
    then have "dir_at gs p" using at(2) by (simp add: dir_at_def)
    then show "tame fs0 ds gs gs' \<and> False"
      using f by (auto simp: dir_at_def node_at_def split: option.splits content.splits)
  qed
  then show ?thesis by (simp add: tame_def)
qed

text \<open>The relative names the operations get.\<close>

definition safe_name :: "string \<Rightarrow> bool" where
  "safe_name rel \<longleftrightarrow> \<not> PathIsAbs rel \<and> ''..'' \<notin> set (Split CHR ''/'' rel)"

lemma safe_name_segments: "safe_name rel \<Longrightarrow> safe_segments (Split CHR ''/'' rel)"
  using Split_parts [of _ "CHR ''/''" rel] by (auto simp: safe_name_def safe_segments_def)

lemma plain_safe_name:
  assumes "segs \<noteq> []" "\<forall>x \<in> set segs. plain_segment x"
  shows "safe_name (Join CHR ''/'' segs)" "Split CHR ''/'' (Join CHR ''/'' segs) = segs"
proof -
  show split: "Split CHR ''/'' (Join CHR ''/'' segs) = segs" using assms by (intro Split_Join) (auto simp: plain_segment_def)
  have "\<not> PathIsAbs (Join CHR ''/'' segs)"
  proof -
    obtain s ss where s: "segs = s # ss" using assms(1) by (cases segs) auto
    then obtain c cs where "s = c # cs" "c \<noteq> CHR ''/''" using assms(2) by (cases s) (auto simp: plain_segment_def)
    then show ?thesis unfolding s by (cases ss) (auto simp: PathIsAbs_def Join_Cons)
  qed
  then show "safe_name (Join CHR ''/'' segs)" using assms(2) split by (auto simp: safe_name_def plain_segment_def)
qed

text \<open>The name of an entry that passed the check is a path of plain segments.\<close>

definition clean_name :: "string \<Rightarrow> bool" where
  "clean_name rel \<longleftrightarrow> (\<exists>segs. segs \<noteq> [] \<and> (\<forall>x \<in> set segs. plain_segment x) \<and> rel = Join CHR ''/'' segs)"

lemma clean_name_safe: "clean_name rel \<Longrightarrow> safe_name rel \<and> kept_segments (Split CHR ''/'' rel) \<noteq> []"
  using plain_safe_name by (auto simp: clean_name_def)

lemma PathClean_clean_name:
  assumes "PathClean p \<noteq> ''.''" "PathClean p \<noteq> ''..''" "\<not> prefix ''../'' (PathClean p)" "\<not> prefix ''/'' (PathClean p)"
  shows "clean_name (PathClean p)"
proof -
  have "\<not> PathIsAbs p"
  proof
    assume "PathIsAbs p"
    then have "prefix ''/'' (PathClean p)" by (cases p) (auto simp: PathIsAbs_def PathClean_def Let_def)
    then show False using assms by simp
  qed
  then show ?thesis using PathClean_relative assms by (simp add: clean_name_def)
qed

lemma cleanEntryName_clean: "cleanEntryName raw strip = Inr (Some rel) \<Longrightarrow> clean_name rel"
  using PathClean_clean_name by (auto simp: cleanEntryName_def Let_def split: if_splits)

lemma ensureDir_contract:
  assumes "dest e = abs_path ds" "ds \<noteq> []" "\<forall>x \<in> set ds. plain_segment x" "safe_name rel"
  shows "contract (sealed fs0 ds) (ensureDir e rel)
     (\<lambda>_. at_dirs fs0 ds (kept_segments (Split CHR ''/'' rel))) (\<lambda>_. sealed fs0 ds)"
proof (cases "rel = [] \<or> rel = ''.''")
  case True
  then have k: "kept_segments (Split CHR ''/'' rel) = []" by (auto simp: kept_segments_def)
  show ?thesis using True sealed_dest(1) unfolding k by (auto simp: ensureDir_def at_dirs_def intro!: contract_give)
next
  case False
  have "contract (at_dirs fs0 ds []) (ensure_segments (abs_path (ds @ [])) (Split CHR ''/'' rel))
      (\<lambda>_. at_dirs fs0 ds ([] @ kept_segments (Split CHR ''/'' rel))) (\<lambda>_. sealed fs0 ds)"
    using assms(2-3) safe_name_segments [OF assms(4)] by (intro ensure_segments_contract) auto
  then show ?thesis using False assms(1) sealed_dest(1)
    by (auto simp: ensureDir_def at_dirs_def elim!: contract_conseq)
qed

abbreviation keeps :: "UFs \<Rightarrow> string list \<Rightarrow> 'a files \<Rightarrow> bool" where
  "keeps fs0 ds m \<equiv> contract (sealed fs0 ds) m (\<lambda>_. sealed fs0 ds) (\<lambda>_. sealed fs0 ds)"

definition opened :: "extractor \<Rightarrow> string list \<Rightarrow> bool" where
  "opened e ds \<longleftrightarrow> dest e = abs_path ds \<and> ds \<noteq> [] \<and> (\<forall>x \<in> set ds. plain_segment x) \<and> CHR ''/'' \<notin> set (TempName e)"

lemma chown_contract:
  assumes "\<forall>x \<in> set (a @ [s]). plain_segment x"
  shows "contract (at_dirs fs0 ds a) (chown e (abs_path (ds @ a @ [s]))) (\<lambda>_. sealed fs0 ds) (\<lambda>_. sealed fs0 ds)"
  unfolding chown_def
proof (rule must_contract)
  fix fs r fs'
  assume "at_dirs fs0 ds a fs" "ulchown (abs_path (ds @ a @ [s])) (owner_ids e) fs = (r, fs')"
  then show "sealed fs0 ds fs' \<and> (r = None \<longrightarrow> sealed fs0 ds fs')"
    using ulchown_tame [OF _ _ assms, of fs0 ds fs "owner_ids e" r fs'] by (auto simp: at_dirs_def tame_def)
qed

lemma place_chown:
  "\<forall>x \<in> set (a @ [s]). plain_segment x \<Longrightarrow>
   contract (place fs0 ds a s) (chown e (abs_path (ds @ a @ [s]))) (\<lambda>_. sealed fs0 ds) (\<lambda>_. sealed fs0 ds)"
  by (rule contract_conseq [OF chown_contract]) (auto simp: place_def at_dirs_def)

lemma joined:
  "opened e ds \<Longrightarrow> safe_name rel \<Longrightarrow> PathJoin [dest e, rel] = abs_path (ds @ kept_segments (Split CHR ''/'' rel))"
  by (simp add: opened_def safe_name_def PathJoin_relative)

lemma safe_kept: "safe_name rel \<Longrightarrow> x \<in> set (kept_segments (Split CHR ''/'' rel)) \<Longrightarrow> plain_segment x"
  using safe_plain safe_name_segments by blast

lemma uchmod_contract:
  "contract (place fs0 ds a s) (must (uchmod (abs_path (ds @ a @ [s])) m) c) (\<lambda>_. place fs0 ds a s) (\<lambda>_. sealed fs0 ds)"
  by (rule must_contract) (rule uchmod_place)

lemma makeDir_keeps:
  assumes "opened e ds" "safe_name rel" "kept_segments (Split CHR ''/'' rel) \<noteq> []"
  shows "keeps fs0 ds (makeDir e rel perms)"
proof -
  obtain a s where k: "kept_segments (Split CHR ''/'' rel) = a @ [s]" using assms(3) by (metis rev_exhaust)
  have plain: "\<forall>x \<in> set (a @ [s]). plain_segment x" using safe_kept [OF assms(2)] k by auto
  have ensured: "contract (sealed fs0 ds) (ensureDir e rel) (\<lambda>_. place fs0 ds a s) (\<lambda>_. sealed fs0 ds)"
  proof (rule contract_conseq [OF ensureDir_contract [OF _ _ _ assms(2)]])
    fix x fs assume "at_dirs fs0 ds (kept_segments (Split CHR ''/'' rel)) fs"
    then show "place fs0 ds a s fs"
      using plain dirs_along_snoc [of fs "ds @ a" s] unfolding k by (auto simp: at_dirs_def place_def dir_at_def)
  qed (use assms(1) in \<open>auto simp: opened_def\<close>)
  show ?thesis
    unfolding makeDir_def Let_def joined [OF assms(1,2)] k
    by (rule contract_andthen [OF ensured contract_andthen [OF uchmod_contract place_chown [OF plain]]])
qed

lemma copy_contract:
  "contract (place fs0 ds a s) (copy_into (abs_path (ds @ a @ [s])) source) (\<lambda>_. place fs0 ds a s) (\<lambda>_. sealed fs0 ds)"
  unfolding copy_into_def
proof (rule contract_andthen)
  show "contract (place fs0 ds a s) (must (ufill (abs_path (ds @ a @ [s])) (fst source)) bad_entry)
     (\<lambda>_. place fs0 ds a s) (\<lambda>_. sealed fs0 ds)"
    by (rule must_contract) (rule ufill_place)
  show "contract (place fs0 ds a s) (guard_io (snd source) bad_entry) (\<lambda>_. place fs0 ds a s) (\<lambda>_. sealed fs0 ds)" for x :: unit
    by (rule contract_guardI) (auto simp: place_def)
qed

lemma ensureDir_parent:
  assumes "opened e ds" "\<forall>x \<in> set a. plain_segment x"
  shows "contract (sealed fs0 ds) (ensureDir e (if a = [] then ''.'' else Join CHR ''/'' a)) (\<lambda>_. at_dirs fs0 ds a)
     (\<lambda>_. sealed fs0 ds)"
proof (cases "a = []")
  case True
  have "safe_name ''.''" by (simp add: safe_name_def PathIsAbs_def)
  then have "contract (sealed fs0 ds) (ensureDir e ''.'')
     (\<lambda>_. at_dirs fs0 ds (kept_segments (Split CHR ''/'' ''.''))) (\<lambda>_. sealed fs0 ds)"
    using assms by (intro ensureDir_contract) (auto simp: opened_def)
  then show ?thesis using True by (simp add: kept_segments_def)
next
  case False
  then have "contract (sealed fs0 ds) (ensureDir e (Join CHR ''/'' a))
     (\<lambda>_. at_dirs fs0 ds (kept_segments (Split CHR ''/'' (Join CHR ''/'' a)))) (\<lambda>_. sealed fs0 ds)"
    using assms plain_safe_name(1) by (intro ensureDir_contract) (auto simp: opened_def)
  then show ?thesis using False assms(2) plain_safe_name(2) [of a] by simp
qed

lemma writeFile_keeps:
  assumes e: "opened e ds" and rel: "safe_name rel"
  shows "keeps fs0 ds (writeFile e rel perms source)"
proof -
  obtain init t where split: "Split CHR ''/'' rel = init @ [t]" by (metis Split_nonempty rev_exhaust)
  let ?a = "kept_segments init"
  have plain: "\<forall>x \<in> set (ds @ ?a). plain_segment x" "ds \<noteq> []" "dest e = abs_path ds"
    using e safe_kept [OF rel] split by (auto simp: opened_def kept_segments_def)
  have dir: "PathDir rel = (if ?a = [] then ''.'' else Join CHR ''/'' ?a)"
    using PathDir_relative [of rel] rel split by (simp add: safe_name_def)
  have ensured: "contract (sealed fs0 ds) (ensureDir e (PathDir rel)) (\<lambda>_. at_dirs fs0 ds ?a) (\<lambda>_. sealed fs0 ds)"
    using ensureDir_parent [OF e] plain(1) unfolding dir by auto
  have target: "PathJoin [dest e, rel] = abs_path (ds @ kept_segments (init @ [t]))" using joined [OF e rel] split by simp
  show ?thesis
  proof (cases "plain_segment t")
    case True
    then have k: "kept_segments (init @ [t]) = ?a @ [t]" by (auto simp: kept_segments_def plain_segment_def)
    have pl: "\<forall>x \<in> set (?a @ [t]). plain_segment x" "\<forall>x \<in> set (ds @ ?a). plain_segment x" using plain True by auto
    have pd: "PathDir (abs_path (ds @ ?a @ [t])) = abs_path (ds @ ?a)" using PathDir_path [OF pl(2) True] by simp
    let ?T = "abs_path (ds @ ?a @ [t])"
    have checked: "contract (\<lambda>fs. at_dirs fs0 ds ?a fs \<and> info = ulstat fs ?T)
        (guard_io (case info of Inr n \<Rightarrow> \<not> is_link n | Inl _ \<Rightarrow> True) bad_entry) (\<lambda>_. place fs0 ds ?a t) (\<lambda>_. sealed fs0 ds)" for info
    proof (rule contract_guardI)
      fix fs
      assume "at_dirs fs0 ds ?a fs \<and> info = ulstat fs ?T" "case info of Inr n \<Rightarrow> \<not> is_link n | Inl _ \<Rightarrow> True"
      then show "place fs0 ds ?a t fs"
        using ulstat_below [of fs0 ds ?a fs t] pl(1)
        by (auto simp: place_def at_dirs_def is_link_def split: option.splits)
    qed (auto simp: at_dirs_def)
    have mk: "contract (place fs0 ds ?a t) (must (umkdirall (abs_path (ds @ ?a)) 493) bad_entry)
        (\<lambda>_. place fs0 ds ?a t) (\<lambda>_. sealed fs0 ds)"
      by (rule must_contract) (use pl(2) umkdirall_dirs in \<open>auto simp: place_def\<close>)
    have cr: "contract (place fs0 ds ?a t) (must (ucreate ?T m) bad_entry) (\<lambda>_. place fs0 ds ?a t) (\<lambda>_. sealed fs0 ds)" for m
      by (rule must_contract) (rule ucreate_place)
    have asked: "contract (at_dirs fs0 ds ?a) (ask (\<lambda>fs. ulstat fs ?T))
        (\<lambda>info fs. at_dirs fs0 ds ?a fs \<and> info = ulstat fs ?T) (\<lambda>_. sealed fs0 ds)"
      by (rule contract_ask)
    show ?thesis
      unfolding writeFile_def Let_def target k pd
      by (rule contract_andthen [OF ensured contract_andthen [OF asked contract_andthen [OF checked
            contract_andthen [OF mk contract_andthen [OF cr contract_andthen [OF copy_contract
            contract_andthen [OF uchmod_contract place_chown [OF pl(1)]]]]]]]])
  next
    case False
    then have k: "kept_segments (init @ [t]) = ?a"
      using safe_name_segments [OF rel] split by (auto simp: kept_segments_def safe_segments_def plain_segment_def)
    let ?T = "abs_path (ds @ ?a)"
    obtain p s where ps: "ds @ ?a = p @ [s]" using plain(2) by (metis append_is_Nil_conv rev_exhaust)
    then have pp: "\<forall>x \<in> set (p @ [s]). plain_segment x" using plain(1) by simp
    have pd: "PathDir ?T = abs_path p" unfolding ps using pp by (intro PathDir_path) auto
    have dirs: "dirs_along fs p" if "at_dirs fs0 ds ?a fs" for fs
      using that ps dirs_along_snoc [of fs p s] by (simp add: at_dirs_def)
    have checked: "contract (at_dirs fs0 ds ?a) (guard_io b bad_entry) (\<lambda>_. at_dirs fs0 ds ?a) (\<lambda>_. sealed fs0 ds)" for b
      by (rule contract_guardI) (auto simp: at_dirs_def)
    have mk: "contract (at_dirs fs0 ds ?a) (must (umkdirall (abs_path p) 493) bad_entry)
        (\<lambda>_. at_dirs fs0 ds ?a) (\<lambda>_. sealed fs0 ds)"
      by (rule must_contract) (use pp dirs umkdirall_dirs in \<open>auto simp: at_dirs_def\<close>)
    have cr: "contract (at_dirs fs0 ds ?a) (must (ucreate ?T m) bad_entry) (\<lambda>_ _. False) (\<lambda>_. sealed fs0 ds)" for m
    proof (rule must_contract)
      fix fs r fs'
      assume P: "at_dirs fs0 ds ?a fs" and run: "ucreate ?T m fs = (r, fs')"
      have "sealed fs0 ds fs' \<and> r \<noteq> None"
        by (rule ucreate_on_dir [OF _ _ _ plain(1) run]) (use P plain(2) in \<open>auto simp: at_dirs_def\<close>)
      then show "sealed fs0 ds fs' \<and> (r = None \<longrightarrow> False)" by simp
    qed
    have asked: "contract (at_dirs fs0 ds ?a) (ask (\<lambda>fs. ulstat fs ?T)) (\<lambda>info. at_dirs fs0 ds ?a) (\<lambda>_. sealed fs0 ds)"
      by (rule contract_conseq [OF contract_ask]) auto
    show ?thesis
      unfolding writeFile_def Let_def target k pd
      by (rule contract_andthen [OF ensured contract_andthen [OF asked contract_andthen [OF checked
            contract_andthen [OF mk contract_andthen [OF cr contract_never]]]]])
  qed
qed

lemma build_link_keeps:
  assumes e: "opened e ds" and rel: "safe_name (PlRel link)" and "\<not> PlHardlink link"
    and k: "kept_segments (Split CHR ''/'' (PlRel link)) = a @ [s]"
    and last: "last (Split CHR ''/'' (PlRel link)) = s"
  shows "keeps fs0 ds (build_link e link)"
proof -
  have plain: "\<forall>x \<in> set (a @ [s]). plain_segment x" using safe_kept [OF rel] k by auto
  obtain init where init: "Split CHR ''/'' (PlRel link) = init @ [s]" using last by (metis Split_nonempty append_butlast_last_id)
  have "plain_segment s" using plain by simp
  then have "kept_segments (init @ [s]) = kept_segments init @ [s]" by (auto simp: kept_segments_def plain_segment_def)
  then have ki: "kept_segments init = a" using k init by simp
  have dir: "PathDir (PlRel link) = (if a = [] then ''.'' else Join CHR ''/'' a)"
    using PathDir_relative [of "PlRel link"] rel init ki by (simp add: safe_name_def)
  have ensured: "contract (sealed fs0 ds) (ensureDir e (PathDir (PlRel link))) (\<lambda>_. at_dirs fs0 ds a) (\<lambda>_. sealed fs0 ds)"
    using ensureDir_parent [OF e] plain unfolding dir by auto
  let ?T = "abs_path (ds @ a @ [s])"
  have asked: "contract (at_dirs fs0 ds a) (ask (\<lambda>fs. ulstat fs ?T)) (\<lambda>info. at_dirs fs0 ds a) (\<lambda>_. sealed fs0 ds)"
    by (rule contract_conseq [OF contract_ask]) auto
  have checked: "contract (at_dirs fs0 ds a) (guard_io b bad_entry) (\<lambda>_. at_dirs fs0 ds a) (\<lambda>_. sealed fs0 ds)" for b
    by (rule contract_guardI) (auto simp: at_dirs_def)
  have linked: "contract (at_dirs fs0 ds a) (must (usymlink t ?T) bad_entry) (\<lambda>_. at_dirs fs0 ds a) (\<lambda>_. sealed fs0 ds)" for t
  proof (rule must_contract)
    fix fs r fs'
    assume P: "at_dirs fs0 ds a fs" and run: "usymlink t ?T fs = (r, fs')"
    have "tame fs0 ds fs fs'" using usymlink_tame [OF _ _ plain run] P by (auto simp: at_dirs_def)
    then show "sealed fs0 ds fs' \<and> (r = None \<longrightarrow> at_dirs fs0 ds a fs')"
      using P tame_dirs [of fs0 ds fs fs'] by (auto simp: at_dirs_def tame_def)
  qed
  have target: "PathJoin [dest e, PlRel link] = ?T" using joined [OF e rel] k by simp
  show ?thesis
    unfolding build_link_def Let_def target using assms(3)
    by (simp only: if_False)
      (rule contract_andthen [OF ensured contract_andthen [OF asked contract_andthen [OF checked
          contract_andthen [OF linked chown_contract [OF plain]]]]])
qed

definition symlink_ok :: "pendingLink \<Rightarrow> bool" where
  "symlink_ok link \<longleftrightarrow> \<not> PlHardlink link \<and> clean_name (PlRel link)"

lemma buildLinks_keeps:
  assumes "opened e ds" "\<forall>link \<in> set links. symlink_ok link"
  shows "keeps fs0 ds (buildLinks e links)"
  using assms(2)
proof (induction links)
  case (Cons link links)
  obtain segs where segs: "segs \<noteq> []" "\<forall>x \<in> set segs. plain_segment x" "PlRel link = Join CHR ''/'' segs"
    using Cons.prems by (auto simp: symlink_ok_def clean_name_def)
  have "keeps fs0 ds (build_link e link)"
  proof (rule build_link_keeps [OF assms(1)])
    show "safe_name (PlRel link)" "\<not> PlHardlink link"
      using plain_safe_name(1) [OF segs(1,2)] segs(3) Cons.prems by (auto simp: symlink_ok_def)
    show "kept_segments (Split CHR ''/'' (PlRel link)) = butlast segs @ [last segs]"
      "last (Split CHR ''/'' (PlRel link)) = last segs"
      using plain_safe_name(2) [OF segs(1,2)] segs by simp_all
  qed
  then show ?case using Cons by (auto intro: contract_andthen)
qed (auto intro: contract_give)

lemma asked_name:
  "(\<And>rel. clean_name rel \<Longrightarrow> contract (sealed fs0 ds) (k (Some rel)) Q (\<lambda>_. sealed fs0 ds)) \<Longrightarrow>
   contract (sealed fs0 ds) (k None) Q (\<lambda>_. sealed fs0 ds) \<Longrightarrow>
   contract (sealed fs0 ds) (andthen (ask_code (\<lambda>_. cleanEntryName raw strip)) k) Q (\<lambda>_. sealed fs0 ds)"
proof -
  assume some: "\<And>rel. clean_name rel \<Longrightarrow> contract (sealed fs0 ds) (k (Some rel)) Q (\<lambda>_. sealed fs0 ds)"
    and none: "contract (sealed fs0 ds) (k None) Q (\<lambda>_. sealed fs0 ds)"
  show ?thesis
  proof (cases "cleanEntryName raw strip")
    case (Inl c)
    then show ?thesis by (auto simp: contract_def io_defs)
  next
    case (Inr entry)
    then have "contract (sealed fs0 ds) (k entry) Q (\<lambda>_. sealed fs0 ds)"
      using some none cleanEntryName_clean [of raw strip] by (cases entry) auto
    then show ?thesis using Inr by (simp add: contract_def io_defs)
  qed
qed

abbreviation collects :: "UFs \<Rightarrow> string list \<Rightarrow> pendingLink list files \<Rightarrow> bool" where
  "collects fs0 ds m \<equiv> contract (sealed fs0 ds) m (\<lambda>links fs. sealed fs0 ds fs \<and> (\<forall>link \<in> set links. symlink_ok link)) (\<lambda>_. sealed fs0 ds)"

lemma collects_nothing: "keeps fs0 ds m \<Longrightarrow> collects fs0 ds (andthen m (\<lambda>_. give []))"
  by (erule contract_andthen) (auto intro: contract_give)

lemma entry_collects:
  assumes e: "opened e ds" and "clean_name rel"
  shows "collects fs0 ds (andthen (makeDir e rel perms) (\<lambda>_. give []))"
    and "collects fs0 ds (andthen (writeFile e rel perms source) (\<lambda>_. give []))"
    and "collects fs0 ds (give [\<lparr>PlRel = rel, PlTarget = t, PlTargetC = c, PlHardlink = False\<rparr>])"
    and "collects fs0 ds (give [])"
proof -
  note safe = clean_name_safe [OF assms(2)]
  have "keeps fs0 ds (makeDir e rel perms)" "keeps fs0 ds (writeFile e rel perms source)"
    by (rule makeDir_keeps [OF e], use safe in \<open>simp, simp\<close>) (rule writeFile_keeps [OF e], use safe in simp)
  note kept = this
  show "collects fs0 ds (andthen (makeDir e rel perms) (\<lambda>_. give []))" by (rule collects_nothing [OF kept(1)])
  show "collects fs0 ds (andthen (writeFile e rel perms source) (\<lambda>_. give []))" by (rule collects_nothing [OF kept(2)])
  show "collects fs0 ds (give [\<lparr>PlRel = rel, PlTarget = t, PlTargetC = c, PlHardlink = False\<rparr>])"
    and "collects fs0 ds (give [])"
    by (rule contract_give, simp add: symlink_ok_def assms(2))+
qed

lemma tar_entry_collects:
  assumes e: "opened e ds" and "clean_name rel" and "Typeflag header \<noteq> TypeLink"
  shows "collects fs0 ds (tar_entry e strip header rel)"
  unfolding tar_entry_def
  by (cases "Typeflag header") (simp_all add: assms(3) entry_collects [OF assms(1,2)] contract_raise)

lemma collects_then:
  assumes "collects fs0 ds m" "\<forall>link \<in> set pending. symlink_ok link"
    and "\<And>links. (\<forall>link \<in> set (pending @ links). symlink_ok link) \<Longrightarrow> collects fs0 ds (k links)"
  shows "collects fs0 ds (andthen m k)"
proof (rule contract_andthen [OF assms(1)])
  fix links
  show "contract (\<lambda>fs. sealed fs0 ds fs \<and> (\<forall>link \<in> set links. symlink_ok link)) (k links)
     (\<lambda>links fs. sealed fs0 ds fs \<and> (\<forall>link \<in> set links. symlink_ok link)) (\<lambda>_. sealed fs0 ds)"
  proof (cases "\<forall>link \<in> set links. symlink_ok link")
    case True
    have "collects fs0 ds (k links)" by (rule assms(3)) (use True assms(2) in auto)
    then show ?thesis using True by simp
  next
    case False
    then show ?thesis by (auto simp: contract_def)
  qed
qed

lemma tar_loop_collects:
  assumes "opened e ds" "\<forall>h \<in> set headers. Typeflag h \<noteq> TypeLink" "\<forall>link \<in> set pending. symlink_ok link"
  shows "collects fs0 ds (tar_loop e cancelled strip clean_end n pending headers)"
  using assms(2,3)
proof (induction headers arbitrary: n pending)
  case Nil
  then show ?case by (auto intro: contract_give contract_raise)
next
  case (Cons header headers)
  have step: "collects fs0 ds (andthen (tar_entry e strip header rel) (\<lambda>links.
      tar_loop e cancelled strip clean_end (Suc n) (pending @ links) headers))" if "clean_name rel" for rel
    using tar_entry_collects [OF assms(1) that] Cons by (intro collects_then) auto
  have "collects fs0 ds (tar_loop e cancelled strip clean_end (Suc n) pending headers)" using Cons by simp
  then show ?case using step by (auto intro!: asked_name contract_raise)
qed

lemma links_then:
  "opened e ds \<Longrightarrow> collects fs0 ds m \<Longrightarrow> keeps fs0 ds (andthen m (buildLinks e))"
  using buildLinks_keeps [of e ds] by (erule_tac contract_andthen) (fastforce simp: contract_def)

lemma tarStream_keeps:
  assumes "opened e ds" "\<forall>h \<in> set (fst (TarEntries dec r)). Typeflag h \<noteq> TypeLink"
  shows "keeps fs0 ds (tarStream dec e cancelled r strip)"
  unfolding tarStream_def
  using links_then [OF assms(1) tar_loop_collects [OF assms(1)]] assms(2) by (auto split: prod.split)

lemma zip_entry_collects:
  assumes e: "opened e ds" and "clean_name rel"
  shows "collects fs0 ds (zip_entry e f rel)"
proof -
  have "keeps fs0 ds (guard_io b bad_entry)" for b by (rule contract_guardI) auto
  note guarded = contract_andthen [OF this]
  show ?thesis
    by (simp add: zip_entry_def entry_collects [OF assms] guarded)
qed

lemma zip_loop_collects:
  assumes "opened e ds" "\<forall>link \<in> set pending. symlink_ok link"
  shows "collects fs0 ds (zip_loop e cancelled strip n pending fs)"
  using assms(2)
proof (induction fs arbitrary: n pending)
  case Nil
  then show ?case by (auto intro: contract_give)
next
  case (Cons f fs)
  have step: "collects fs0 ds (andthen (zip_entry e f rel) (\<lambda>links.
      zip_loop e cancelled strip (Suc n) (pending @ links) fs))" if "clean_name rel" for rel
    using zip_entry_collects [OF assms(1) that] Cons by (intro collects_then) auto
  have "collects fs0 ds (zip_loop e cancelled strip (Suc n) pending fs)" using Cons by simp
  then show ?case using step by (auto intro!: asked_name contract_raise)
qed

lemma temp_place:
  assumes e: "opened e ds" and t: "plain_segment t"
  shows "contract (sealed fs0 ds) (must (ucreate_new (abs_path (ds @ [] @ [t])) m) c) (\<lambda>_. place fs0 ds [] t) (\<lambda>_. sealed fs0 ds)"
proof (rule must_contract)
  fix fs r fs'
  assume P: "sealed fs0 ds fs" and run: "ucreate_new (abs_path (ds @ [] @ [t])) m fs = (r, fs')"
  have plain: "\<forall>x \<in> set ([] @ [t]). plain_segment x" using t by simp
  have "tame fs0 ds fs fs' \<and> (r = None \<longrightarrow> no_link_at (ds @ [] @ [t]) fs')"
  proof (rule ucall_tame [OF P resolve_below [OF P _ plain] run [unfolded ucreate_new_def]])
    show "dirs_along fs (ds @ [])" using sealed_dest(1) [OF P] by simp
  next
    fix gs gs'
    assume gs: "sealed fs0 ds gs"
      and "(if node_at gs (ds @ [] @ [t]) \<noteq> None then Inl Exists else Inr (add_node gs (ds @ [] @ [t]) (new_node (File []) m))) = Inr gs'"
    then have "gs' = add_node gs (ds @ [t]) (new_node (File []) m)" "\<not> dir_at gs (ds @ [t])"
      by (auto simp: dir_at_def split: if_splits)
    then show "tame fs0 ds gs gs' \<and> no_link_at (ds @ [] @ [t]) gs'"
      using add_node_tame [OF gs, of "ds @ [t]" "new_node (File []) m"] add_node_at(2) [OF gs]
      by (simp add: no_link_at_def new_node_def)
  qed
  then show "sealed fs0 ds fs' \<and> (r = None \<longrightarrow> place fs0 ds [] t fs')"
    using sealed_dest(1) t by (auto simp: place_def tame_def no_link_at_def)
qed

lemma uremove_keeps:
  assumes e: "opened e ds" and t: "plain_segment t"
  shows "keeps fs0 ds (ignoring (must (uremove (abs_path (ds @ [t]))) c))"
proof (rule contract_ignoring, rule must_contract)
  fix fs r fs'
  assume P: "sealed fs0 ds fs" and run: "uremove (abs_path (ds @ [t])) fs = (r, fs')"
  have at: "resolve fs False (abs_path (ds @ [t])) = Inr (ds @ [t])"
    using resolve_below [OF P, of "[]" t] sealed_dest(1) [OF P] t by simp
  have inode: "inode_at (gs\<lparr>names := AList.delete q (names gs)\<rparr>) = (inode_at gs)(q := None)" for gs q
    by (simp add: inode_at_def fun_eq_iff)
  have "sealed fs0 ds (gs\<lparr>names := AList.delete (ds @ [t]) (names gs)\<rparr>)" if "sealed fs0 ds gs" for gs
    using that unfolding sealed_def inode by auto
  from this [of "fs\<lparr>ucalls := Suc (ucalls fs)\<rparr>"] show "sealed fs0 ds fs' \<and> (r = None \<longrightarrow> sealed fs0 ds fs')"
    using run P at unfolding uremove_def ucall_def
    by (auto simp: Let_def split: if_splits)
qed

lemma zipStream_keeps:
  assumes e: "opened e ds"
  shows "keeps fs0 ds (zipStream dec e cancelled r strip)"
proof -
  let ?t = "''.artifact-'' @ TempName e @ ''.zip''"
  have t: "plain_segment ?t" using e by (auto simp: opened_def plain_segment_def)
  have tmp: "PathJoin [dest e, ?t] = abs_path (ds @ [?t])"
    using e t by (simp only: opened_def, subst PathJoin_segments) auto
  have zipped: "keeps fs0 ds (andthen (zip_loop e cancelled strip 0 [] fs) (buildLinks e))" for fs
    by (rule links_then [OF e zip_loop_collects [OF e]]) simp
  have unzip: "keeps fs0 ds (case ZipEntries dec (fst r) of None \<Rightarrow> raise (Fault bad_entry)
      | Some files_ \<Rightarrow> andthen (zip_loop e cancelled strip 0 [] files_) (buildLinks e))"
    by (cases "ZipEntries dec (fst r)") (auto intro: contract_raise zipped)
  have copied: "contract (place fs0 ds [] ?t) (copy_into (abs_path (ds @ [?t])) r) (\<lambda>_. sealed fs0 ds) (\<lambda>_. sealed fs0 ds)"
    using copy_contract [of fs0 ds "[]" ?t r] by (auto simp: place_def elim: contract_conseq)
  have body: "contract (place fs0 ds [] ?t) (andthen (copy_into (abs_path (ds @ [?t])) r) (\<lambda>_.
      case ZipEntries dec (fst r) of None \<Rightarrow> raise (Fault bad_entry)
      | Some files_ \<Rightarrow> andthen (zip_loop e cancelled strip 0 [] files_) (buildLinks e)))
      (\<lambda>_. sealed fs0 ds) (\<lambda>_. sealed fs0 ds)"
    by (rule contract_andthen [OF copied unzip])
  have created: "contract (sealed fs0 ds) (must (ucreate_new (abs_path (ds @ [?t])) 384) CodeInternal)
      (\<lambda>_. place fs0 ds [] ?t) (\<lambda>_. sealed fs0 ds)"
    using temp_place [OF e t, of fs0 384 CodeInternal] by simp
  note removed = uremove_keeps [OF e t, of fs0 CodeInternal]
  have failed: "keeps fs0 ds (andthen (ignoring (must (uremove (abs_path (ds @ [?t]))) CodeInternal)) (\<lambda>_. raise err))"
    for err :: fault by (rule contract_andthen [OF removed]) (auto intro: contract_raise)
  show ?thesis
    unfolding zipStream_def Let_def tmp
    by (rule contract_andthen [OF created contract_attempt [OF body removed failed]])
qed

lemma MaterializedFileName_safe:
  assumes "ApplicationSpec_Validate urls s = Inr spec" "MaterializedFileName spec \<noteq> []"
  shows "safe_name (MaterializedFileName spec)"
proof (cases "FileName (SpArtifact spec) = []")
  case True
  then show ?thesis
    using assms Validate_argv(2,3) [OF assms(1)]
    by (auto simp: MaterializedFileName_def safe_name_def split: list.splits if_splits)
next
  case False
  have "validateArtifactFileName (FileName (SpArtifact spec)) = None"
    using assms(1) by (auto simp: Validate_Inr SpecArtifact_validate_def check_artifact_def first_err_Cons_None Let_def
        split: option.splits if_splits)
  then have "clean_name (FileName (SpArtifact spec))"
    using False PathClean_clean_name [of "FileName (SpArtifact spec)"]
    by (auto simp: validateArtifactFileName_def Let_def first_err_Cons_None)
  then show ?thesis using False assms(2) clean_name_safe by (simp add: MaterializedFileName_def split: if_splits)
qed

definition no_hardlinks :: "Decoders \<Rightarrow> bool" where
  "no_hardlinks dec \<longleftrightarrow> (\<forall>r. \<forall>h \<in> set (fst (TarEntries dec r)). Typeflag h \<noteq> TypeLink)"

lemma unpackArtifact_keeps:
  assumes spec: "ApplicationSpec_Validate urls s = Inr spec" and e: "opened e ds" and dec: "no_hardlinks dec"
  shows "keeps fs0 ds (unpackArtifact dec cancelled spec artifact e)"
proof -
  have single: "keeps fs0 ds (singleFile e spec artifact)"
    using MaterializedFileName_safe [OF spec] writeFile_keeps [OF e]
    by (auto simp: singleFile_def Let_def intro: contract_give)
  have tar: "keeps fs0 ds (tarStream dec e cancelled r strip)" for r strip
    by (rule tarStream_keeps [OF e]) (use dec in \<open>unfold no_hardlinks_def, blast\<close>)
  show ?thesis
    using single tar zipStream_keeps [OF e]
    by (auto simp: unpackArtifact_def Let_def intro: contract_raise split: UnpackStrategy.split option.split)
qed

section \<open>Properties\<close>

text \<open>C12 Unpacking an archive without hard links touches nothing outside the release directory: whatever
  the entries are called, whatever symbolic links they contain, whichever calls fail and wherever it is
  cancelled, every name outside the directory leads to the same file with the same content, mode and owner
  as before, and to the same inode.\<close>

theorem unpack_confined:
  assumes "ApplicationSpec_Validate urls s = Inr spec" and "fresh_dest fs ds" and "opened e ds"
    and "no_hardlinks dec" and "unpackArtifact dec cancelled spec artifact e fs = (result, fs')"
  shows "outside_unchanged ds fs fs'"
proof -
  have "sealed fs ds fs'"
    using unpackArtifact_keeps [OF assms(1,3,4), of fs cancelled artifact] sealed_start [OF assms(2)] assms(5)
    by (cases result) (auto dest: contract_Inl contract_Inr)
  then show ?thesis by (rule sealed_outside)
qed

definition etc_tree :: "Node \<Rightarrow> UFs" where
  "etc_tree shadow =
     \<lparr>names = [([''etc''], 0), ([''etc'', ''shadow''], 1), ([''app''], 2)],
      inodes = [(0, new_node Dir 493), (1, shadow), (2, new_node Dir 488)],
      next_inode = 3, ucalls = 0, ufaulty = (\<lambda>_. False)\<rparr>"

definition tar_header :: "TarType \<Rightarrow> string \<Rightarrow> string \<Rightarrow> TarHeader" where
  "tar_header t name link = \<lparr>HdName = name, Linkname = link, Typeflag = t, HdMode = 420, HdBody = (''x'', True)\<rparr>"

definition tar_of :: "TarHeader list \<Rightarrow> Decoders" where
  "tar_of headers = \<lparr>TarEntries = (\<lambda>_. (headers, True)), Gunzip = Some, ZipEntries = (\<lambda>_. None)\<rparr>"

definition app_extractor :: "nat \<times> nat \<Rightarrow> extractor" where
  "app_extractor ids = \<lparr>dest = ''/app'', owner_ids = ids, TempName = ''1''\<rparr>"

definition sample_tar :: ApplicationSpec where
  "sample_tar = sample_single\<lparr>SpArtifact := (SpArtifact sample_single)
     \<lparr>Unpack := \<lparr>Strategy = UnpackTar, StrategyExplicit = True, StripComponents = 0\<rparr>\<rparr>\<rparr>"

definition unpack_sample :: "nat \<times> nat \<Rightarrow> TarHeader list \<Rightarrow> UFs \<Rightarrow> (fault + unit) \<times> UFs" where
  "unpack_sample ids headers =
     unpackArtifact (tar_of headers) (\<lambda>_. False) (applyDefaults (sample_tar\<lparr>KeepLast := 5\<rparr>)) ([], True) (app_extractor ids)"

theorem unpack_confined_witness:
  "case unpack_sample (7, 7) [tar_header TypeXHeader ''pax'' [], tar_header TypeSymlink ''conf'' ''/etc'']
       (etc_tree (new_node (File ''secret'') 384)) of
     (result, fs) \<Rightarrow> outside_unchanged [''app''] (etc_tree (new_node (File ''secret'') 384)) fs
       \<and> result = Inr () \<and> node_at fs [''app'', ''conf''] = Some \<lparr>kind = Link ''/etc'', mode = 511, owner = (7, 7)\<rparr>"
proof -
  let ?hs = "[tar_header TypeXHeader ''pax'' [], tar_header TypeSymlink ''conf'' ''/etc'']"
  let ?fs = "etc_tree (new_node (File ''secret'') 384)"
  have "ApplicationSpec_Validate (\<lambda>_. None) sample_tar = Inr (applyDefaults (sample_tar\<lparr>KeepLast := 5\<rparr>))" by code_simp
  moreover have "fresh_dest ?fs [''app'']"
    by (auto simp: fresh_dest_def etc_tree_def plain_segment_def dirs_along_def dir_at_def node_at_def inode_at_def new_node_def
        le_Suc_eq)
  moreover have "opened (app_extractor (7, 7)) [''app'']"
    by (simp add: opened_def app_extractor_def abs_path_def plain_segment_def)
  moreover have "no_hardlinks (tar_of ?hs)" by (simp add: no_hardlinks_def tar_of_def tar_header_def)
  moreover obtain result fs where run: "unpack_sample (7, 7) ?hs ?fs = (result, fs)" by fastforce
  ultimately have "outside_unchanged [''app''] ?fs fs"
    using unpack_confined run unfolding unpack_sample_def by blast
  moreover have "case unpack_sample (7, 7) ?hs ?fs of (result, fs) \<Rightarrow>
      result = Inr () \<and> node_at fs [''app'', ''conf''] = Some \<lparr>kind = Link ''/etc'', mode = 511, owner = (7, 7)\<rparr>"
    by code_simp
  ultimately show ?thesis using run by simp
qed

text \<open>Hard links break the confinement: an archive with a symbolic link \<open>a\<close> to \<open>/etc\<close> and a hard link
  \<open>b\<close> to \<open>a/shadow\<close> unpacks without an error, \<open>b\<close> is a second name of \<open>/etc/shadow\<close> and the user the
  application runs as owns that file afterwards. The check that the source of the link is below the
  directory compares strings, while \<open>link(2)\<close> follows the symbolic link in the middle of the path.\<close>

theorem hardlink_escape:
  "case unpack_sample ids [tar_header TypeSymlink ''a'' ''/etc'', tar_header TypeLink ''b'' ''a/shadow'']
       (etc_tree \<lparr>kind = File content, mode = perms, owner = owned\<rparr>) of
     (result, fs) \<Rightarrow> result = Inr ()
       \<and> inode_at fs [''app'', ''b''] = inode_at fs [''etc'', ''shadow'']
       \<and> node_at fs [''etc'', ''shadow''] = Some \<lparr>kind = File content, mode = perms, owner = ids\<rparr>"
  by code_simp

end
