(* ===== verification/Codec.thy ===== *)
theory Codec
  imports Retention
begin

text \<open>
  The transport encoding of backups (\<open>internal/backupcodec/codec.go\<close>): a header, then the compressed
  stream, plain or cut into chunks that are encrypted one by one with their number as additional data and
  closed by an empty chunk.

  AES-GCM, gzip, SHA-256 and the random source are parameters. A writer is the list of the pieces written to
  it; that the destination takes every write is assumed here. A reader is a \<open>source\<close>: the bytes it hands out
  and the error that follows them, or the end of the stream.
\<close>

section \<open>Parameters\<close>

datatype Compression = CompressionNone | CompressionGzip | CompressionOther string

datatype codec_error = ErrTruncated | ErrBadMagic | ErrEncryptedMismatch | CodecError ErrorCode

type_synonym source = "string \<times> codec_error option"

text \<open>\<open>SealChunk key nonce plaintext aad\<close>; \<open>GzipPieces\<close> are the writes the gzip writer makes for the writes it
  gets, up to its \<open>Close\<close>, and \<open>GzipOpen\<close> those before it; \<open>GunzipHeader\<close> says whether the bytes that can be
  read start with a gzip header; \<open>Nonce i\<close> is what is drawn for the chunk with the number \<open>i\<close>.\<close>

record CodecLib =
  SealChunk :: "string \<Rightarrow> string \<Rightarrow> string \<Rightarrow> string \<Rightarrow> string"
  OpenChunk :: "string \<Rightarrow> string \<Rightarrow> string \<Rightarrow> string \<Rightarrow> string option"
  GzipPieces :: "string list \<Rightarrow> string list"
  GzipOpen :: "string list \<Rightarrow> string list"
  GunzipHeader :: "string \<Rightarrow> bool"
  Gunzip :: "source \<Rightarrow> source"
  Sha256 :: "string \<Rightarrow> string"
  Nonce :: "nat \<Rightarrow> string"

definition ChunkSize :: nat where "ChunkSize = 64 * 1024"
definition magic :: string where "magic = ''FRZBC001''"
definition nonceSize :: nat where "nonceSize = 12"
definition tagSize :: nat where "tagSize = 16"
definition keyIDBytes :: nat where "keyIDBytes = 8"

section \<open>Bytes\<close>

primrec be_bytes :: "nat \<Rightarrow> nat \<Rightarrow> string" where
  "be_bytes 0 x = []"
| "be_bytes (Suc n) x = be_bytes n (x div 256) @ [char_of (x mod 256)]"

definition be_nat :: "string \<Rightarrow> nat" where
  "be_nat s = foldl (\<lambda>a c. a * 256 + of_char c) 0 s"

lemma length_be_bytes [simp]: "length (be_bytes n x) = n"
  by (induction n arbitrary: x) simp_all

lemma be_nat_bytes: "be_nat (be_bytes n x) = x mod 256 ^ n"
proof (induction n arbitrary: x)
  case (Suc n)
  have "be_nat (be_bytes (Suc n) x) = be_nat (be_bytes n (x div 256)) * 256 + x mod 256"
    by (simp add: be_nat_def of_char_of)
  also have "\<dots> = x mod 256 ^ Suc n"
    by (simp add: Suc mod_mult2_eq mult.commute)
  finally show ?case .
qed (simp add: be_nat_def)

definition chunkAAD :: "nat \<Rightarrow> string" where "chunkAAD index = be_bytes 8 (index mod 2 ^ 64)"

definition hex_digit :: "nat \<Rightarrow> char" where
  "hex_digit d = ''0123456789abcdef'' ! d"

definition hex_string :: "string \<Rightarrow> string" where
  "hex_string s = concat (map (\<lambda>c. [hex_digit (of_char c div 16), hex_digit (of_char c mod 16)]) s)"

definition deriveKey :: "CodecLib \<Rightarrow> string \<Rightarrow> string" where "deriveKey c material = Sha256 c material"

definition KeyID :: "CodecLib \<Rightarrow> string \<Rightarrow> string" where
  "KeyID c material = hex_string (take keyIDBytes (Sha256 c material))"

section \<open>Writing\<close>

record FrameWriter =
  fwBuf :: string
  fwIndex :: nat
  fwOut :: string

definition writeChunk :: "CodecLib \<Rightarrow> string \<Rightarrow> string \<Rightarrow> FrameWriter \<Rightarrow> FrameWriter" where
  "writeChunk c key plaintext f =
     (let i = fwIndex f; nonce = Nonce c i; sealed = SealChunk c (deriveKey c key) nonce plaintext (chunkAAD i)
      in f\<lparr>fwIndex := Suc i, fwOut := fwOut f @ nonce @ be_bytes 4 (length sealed mod 2 ^ 32) @ sealed\<rparr>)"

definition flush :: "CodecLib \<Rightarrow> string \<Rightarrow> bool \<Rightarrow> FrameWriter \<Rightarrow> FrameWriter" where
  "flush c key final f =
     (let f = (if fwBuf f \<noteq> [] then (writeChunk c key (fwBuf f) f)\<lparr>fwBuf := []\<rparr> else f)
      in if final then writeChunk c key [] f else f)"

text \<open>The buffer never holds more than a chunk; the first condition only covers the case for the recursion.\<close>

function fw_write :: "CodecLib \<Rightarrow> string \<Rightarrow> FrameWriter \<Rightarrow> string \<Rightarrow> FrameWriter" where
  "fw_write c key f p =
     (if p = [] \<or> ChunkSize < length (fwBuf f) then f
      else let f = (if length (fwBuf f) = ChunkSize then flush c key False f else f);
               n = min (ChunkSize - length (fwBuf f)) (length p)
           in fw_write c key (f\<lparr>fwBuf := fwBuf f @ take n p\<rparr>) (drop n p))"
  by pat_completeness auto

lemma ChunkSize_positive [simp]: "0 < ChunkSize"
  by (simp add: ChunkSize_def)

lemma flush_empties [simp]: "fwBuf (flush c key final f) = []"
  by (simp add: flush_def writeChunk_def Let_def)

termination fw_write
  by (relation "measure (\<lambda>(c, key, f, p). length p)") (auto split: if_splits)

declare fw_write.simps [simp del]

definition fw_close :: "CodecLib \<Rightarrow> string \<Rightarrow> FrameWriter \<Rightarrow> FrameWriter" where
  "fw_close c key f = flush c key True f"

definition frame_writes :: "CodecLib \<Rightarrow> string \<Rightarrow> string list \<Rightarrow> string" where
  "frame_writes c key pieces =
     fwOut (fw_close c key (foldl (fw_write c key) \<lparr>fwBuf = [], fwIndex = 0, fwOut = []\<rparr> pieces))"

text \<open>What arrives at the destination when the pieces are written and the encoder is closed.\<close>

definition Encode :: "CodecLib \<Rightarrow> Compression \<Rightarrow> string option \<Rightarrow> string list \<Rightarrow> ErrorCode + string" where
  "Encode c compression key pieces =
     (case compression of
        CompressionOther _ \<Rightarrow> Inl CodeManifestInvalid
      | _ \<Rightarrow>
          let payload = (if compression = CompressionGzip then GzipPieces c pieces else pieces);
              flags = (if key = None then CHR 0x00 else CHR 0x01)
          in Inr (magic @ [flags] @
               (case key of None \<Rightarrow> concat payload | Some k \<Rightarrow> frame_writes c k payload)))"

text \<open>What has arrived when the encoder is given up without \<open>Close\<close>.\<close>

definition Encode_abandoned :: "CodecLib \<Rightarrow> Compression \<Rightarrow> string option \<Rightarrow> string list \<Rightarrow> string" where
  "Encode_abandoned c compression key pieces =
     (let payload = (if compression = CompressionGzip then GzipOpen c pieces else pieces);
          flags = (if key = None then CHR 0x00 else CHR 0x01)
      in magic @ [flags] @
           (case key of
              None \<Rightarrow> concat payload
            | Some k \<Rightarrow> fwOut (foldl (fw_write c k) \<lparr>fwBuf = [], fwIndex = 0, fwOut = []\<rparr> payload)))"

section \<open>Reading\<close>

text \<open>\<open>io.ReadFull\<close> that gets too few bytes.\<close>

definition cut_short :: "source \<Rightarrow> codec_error" where
  "cut_short src = (case snd src of None \<Rightarrow> ErrTruncated | Some e \<Rightarrow> e)"

text \<open>The chunks from the one with the number \<open>i\<close> on.\<close>

function unframe :: "CodecLib \<Rightarrow> string \<Rightarrow> nat \<Rightarrow> source \<Rightarrow> source" where
  "unframe c key i src =
     (if length (fst src) < nonceSize + 4 then ([], Some (cut_short src))
      else let nonce = take nonceSize (fst src);
               size = be_nat (take 4 (drop nonceSize (fst src)));
               rest = drop (nonceSize + 4) (fst src)
           in if size < tagSize then ([], Some ErrTruncated)
              else if length rest < size then ([], Some (cut_short src))
              else case OpenChunk c (deriveKey c key) nonce (take size rest) (chunkAAD i) of
                None \<Rightarrow> ([], Some (CodecError CodeBackupVerifyFailed))
              | Some [] \<Rightarrow>
                  ([], if drop size rest \<noteq> [] then Some (CodecError CodeBackupVerifyFailed) else snd src)
              | Some (b # bs) \<Rightarrow>
                  (case unframe c key (Suc i) (drop size rest, snd src) of
                     (later, e) \<Rightarrow> ((b # bs) @ later, e)))"
  by pat_completeness auto

termination unframe
  by (relation "measure (\<lambda>(c, key, i, src). length (fst src))") (auto simp: nonceSize_def tagSize_def)

declare unframe.simps [simp del]

text \<open>The flag of the header: whether the stream is encrypted, and the rest.\<close>

definition NewReader :: "source \<Rightarrow> codec_error + bool \<times> source" where
  "NewReader src =
     (if length (fst src) < length magic + 1 then Inl (cut_short src)
      else if take (length magic) (fst src) \<noteq> magic then Inl ErrBadMagic
      else Inr (of_char (fst src ! length magic) mod (2 :: nat) = 1, (drop (length magic + 1) (fst src), snd src)))"

definition decryptIfNeeded :: "CodecLib \<Rightarrow> bool \<times> source \<Rightarrow> string option \<Rightarrow> codec_error + source" where
  "decryptIfNeeded c source key =
     (case source of
        (False, rest) \<Rightarrow> Inr rest
      | (True, rest) \<Rightarrow> (case key of None \<Rightarrow> Inl ErrEncryptedMismatch | Some k \<Rightarrow> Inr (unframe c k 0 rest)))"

text \<open>The reader of the plain content; \<open>gzip.NewReader\<close> reads the header of the compressed stream at once.\<close>

definition Decode :: "CodecLib \<Rightarrow> source \<Rightarrow> Compression \<Rightarrow> string option \<Rightarrow> codec_error + source" where
  "Decode c src compression key =
     (case NewReader src of
        Inl e \<Rightarrow> Inl e
      | Inr source \<Rightarrow>
          (case decryptIfNeeded c source key of
             Inl e \<Rightarrow> Inl e
           | Inr plain \<Rightarrow>
               if compression = CompressionGzip
               then if GunzipHeader c (fst plain) then Inr (Gunzip c plain) else Inl (CodecError CodeInternal)
               else Inr plain))"

section \<open>The chunks of a stream\<close>

definition chunk :: "CodecLib \<Rightarrow> string \<Rightarrow> nat \<Rightarrow> string \<Rightarrow> string" where
  "chunk c key i p =
     (let sealed = SealChunk c (deriveKey c key) (Nonce c i) p (chunkAAD i)
      in Nonce c i @ be_bytes 4 (length sealed mod 2 ^ 32) @ sealed)"

function chunks :: "CodecLib \<Rightarrow> string \<Rightarrow> nat \<Rightarrow> string \<Rightarrow> string" where
  "chunks c key i p =
     (if p = [] then chunk c key i [] else chunk c key i (take ChunkSize p) @ chunks c key (Suc i) (drop ChunkSize p))"
  by pat_completeness auto

termination chunks
  by (relation "measure (\<lambda>(c, key, i, p). length p)") auto

declare chunks.simps [simp del]

lemma writeChunk_chunk:
  "fwOut (writeChunk c key p f) = fwOut f @ chunk c key (fwIndex f) p"
  "fwIndex (writeChunk c key p f) = Suc (fwIndex f)" "fwBuf (writeChunk c key p f) = fwBuf f"
  by (simp_all add: writeChunk_def chunk_def Let_def)

lemma chunks_Nil: "chunks c key i [] = chunk c key i []"
  by (simp add: chunks.simps)

lemma chunks_one: "p \<noteq> [] \<Longrightarrow> length p \<le> ChunkSize \<Longrightarrow> chunks c key i p = chunk c key i p @ chunk c key (Suc i) []"
  by (subst chunks.simps) (simp add: chunks_Nil)

lemma chunks_full: "length p = ChunkSize \<Longrightarrow> chunks c key i (p @ q) = chunk c key i p @ chunks c key (Suc i) q"
proof -
  assume p: "length p = ChunkSize"
  then have "p \<noteq> []" by (auto simp: ChunkSize_def)
  then show ?thesis using p by (subst chunks.simps) (simp only: append_is_Nil_conv simp_thms if_False, simp)
qed

lemma flush_full:
  assumes "fwBuf f \<noteq> []"
  shows "fwOut (flush c key False f) = fwOut f @ chunk c key (fwIndex f) (fwBuf f)" "fwIndex (flush c key False f) = Suc (fwIndex f)"
  using assms by (simp_all add: flush_def writeChunk_chunk Let_def)

lemma fw_close_chunks:
  assumes "length (fwBuf f) \<le> ChunkSize"
  shows "fwOut (fw_close c key f) = fwOut f @ chunks c key (fwIndex f) (fwBuf f)"
proof (cases "fwBuf f = []")
  case True
  then show ?thesis by (simp add: fw_close_def flush_def writeChunk_chunk Let_def chunks_Nil)
next
  case False
  then show ?thesis using assms by (simp add: fw_close_def flush_def writeChunk_chunk Let_def chunks_one)
qed

text \<open>One turn of the loop of \<open>Write\<close>: the buffer has room, and what was written so far is unchanged.\<close>

lemma fw_write_turn:
  assumes "length (fwBuf f) \<le> ChunkSize" "p \<noteq> []"
  obtains f' n where "fw_write c key f p = fw_write c key (f'\<lparr>fwBuf := fwBuf f' @ take n p\<rparr>) (drop n p)"
    "f' = (if length (fwBuf f) = ChunkSize then flush c key False f else f)"
    "n = min (ChunkSize - length (fwBuf f')) (length p)"
    "0 < n" "length (fwBuf f') + n \<le> ChunkSize"
    "\<And>q. fwOut f' @ chunks c key (fwIndex f') (fwBuf f' @ q) = fwOut f @ chunks c key (fwIndex f) (fwBuf f @ q)"
proof -
  obtain f' where f': "f' = (if length (fwBuf f) = ChunkSize then flush c key False f else f)" by simp
  obtain n where n: "n = min (ChunkSize - length (fwBuf f')) (length p)" by simp
  have w: "fw_write c key f p = fw_write c key (f'\<lparr>fwBuf := fwBuf f' @ take n p\<rparr>) (drop n p)"
    using assms unfolding f' n by (subst fw_write.simps) (simp add: Let_def)
  have small: "length (fwBuf f') < ChunkSize" using assms(1) by (auto simp: f')
  have "fwOut f' @ chunks c key (fwIndex f') (fwBuf f' @ q) = fwOut f @ chunks c key (fwIndex f) (fwBuf f @ q)" for q
  proof (cases "length (fwBuf f) = ChunkSize")
    case True
    then have "fwBuf f \<noteq> []" using ChunkSize_positive by (metis less_irrefl list.size(3))
    then show ?thesis using True by (simp add: f' flush_full chunks_full)
  qed (simp add: f')
  then show ?thesis using that [OF w f' n] small n assms(2) by auto
qed

lemma fw_write_chunks:
  "length (fwBuf f) \<le> ChunkSize \<Longrightarrow>
   fwOut (fw_close c key (fw_write c key f p)) = fwOut f @ chunks c key (fwIndex f) (fwBuf f @ p)
   \<and> length (fwBuf (fw_write c key f p)) \<le> ChunkSize
   \<and> fwOut (fw_write c key f p) @ chunks c key (fwIndex (fw_write c key f p)) (fwBuf (fw_write c key f p) @ q)
       = fwOut f @ chunks c key (fwIndex f) (fwBuf f @ p @ q)"
proof (induction "length p" arbitrary: f p rule: less_induct)
  case less
  show ?case
  proof (cases "p = []")
    case True
    then show ?thesis using less.prems by (simp add: fw_write.simps fw_close_chunks)
  next
    case False
    obtain f' n where t: "fw_write c key f p = fw_write c key (f'\<lparr>fwBuf := fwBuf f' @ take n p\<rparr>) (drop n p)"
      "0 < n" "length (fwBuf f') + n \<le> ChunkSize"
      "\<And>r. fwOut f' @ chunks c key (fwIndex f') (fwBuf f' @ r) = fwOut f @ chunks c key (fwIndex f) (fwBuf f @ r)"
      using fw_write_turn [OF less.prems False] by metis
    let ?g = "f'\<lparr>fwBuf := fwBuf f' @ take n p\<rparr>"
    have "length (fwBuf ?g) \<le> ChunkSize" using t(3) by simp
    moreover have "length (drop n p) < length p" using t(2) False by simp
    ultimately have ih: "fwOut (fw_close c key (fw_write c key ?g (drop n p))) = fwOut ?g @ chunks c key (fwIndex ?g) (fwBuf ?g @ drop n p)"
      "length (fwBuf (fw_write c key ?g (drop n p))) \<le> ChunkSize"
      "fwOut (fw_write c key ?g (drop n p)) @ chunks c key (fwIndex (fw_write c key ?g (drop n p))) (fwBuf (fw_write c key ?g (drop n p)) @ q)
         = fwOut ?g @ chunks c key (fwIndex ?g) (fwBuf ?g @ drop n p @ q)"
      using less.hyps by blast+
    have join: "take n p @ drop n p @ r = p @ r" for r by (metis append.assoc append_take_drop_id)
    show ?thesis using ih t(4) [of p] t(4) [of "p @ q"] join [of q] unfolding t(1) by simp
  qed
qed

lemma frame_writes_chunks: "frame_writes c key pieces = chunks c key 0 (concat pieces)"
proof -
  let ?f0 = "\<lparr>fwBuf = [], fwIndex = 0, fwOut = []\<rparr>"
  have "length (fwBuf (foldl (fw_write c key) f pieces)) \<le> ChunkSize
      \<and> fwOut (foldl (fw_write c key) f pieces) @ chunks c key (fwIndex (foldl (fw_write c key) f pieces))
            (fwBuf (foldl (fw_write c key) f pieces) @ q)
         = fwOut f @ chunks c key (fwIndex f) (fwBuf f @ concat pieces @ q)"
    if "length (fwBuf f) \<le> ChunkSize" for f q
    using that
  proof (induction pieces arbitrary: f)
    case (Cons p ps)
    then show ?case using fw_write_chunks [OF Cons.prems, of c key p "concat ps @ q"] by simp
  qed simp
  from this [of ?f0 "[]"] show ?thesis unfolding frame_writes_def
    by (simp add: fw_close_chunks)
qed

section \<open>What the cipher and the compressor promise\<close>

text \<open>Documented behaviour of \<open>cipher.AEAD\<close> for AES-GCM and of \<open>compress/gzip\<close>: what was sealed opens under the
  same key, nonce and additional data; the tag has 16 bytes; what was compressed is what is decompressed, and an
  error of the reader below is passed on.\<close>

definition good_lib :: "CodecLib \<Rightarrow> bool" where
  "good_lib c \<longleftrightarrow> (\<forall>k n p a. OpenChunk c k n (SealChunk c k n p a) a = Some p
       \<and> length (SealChunk c k n p a) = length p + tagSize)
     \<and> (\<forall>i. length (Nonce c i) = nonceSize)
     \<and> (\<forall>ws. GunzipHeader c (concat (GzipPieces c ws))
          \<and> Gunzip c (concat (GzipPieces c ws), None) = (concat ws, None)
          \<and> (\<forall>m e. snd (Gunzip c (take m (concat (GzipPieces c ws)), Some e)) = Some e))"

lemma good_libD:
  assumes "good_lib c"
  shows "OpenChunk c k n (SealChunk c k n p a) a = Some p" "length (SealChunk c k n p a) = length p + tagSize"
    "length (Nonce c i) = nonceSize" "Gunzip c (concat (GzipPieces c ws), None) = (concat ws, None)"
    "GunzipHeader c (concat (GzipPieces c ws))" "snd (Gunzip c (take m (concat (GzipPieces c ws)), Some e)) = Some e"
  using assms by (simp_all add: good_lib_def)

lemma chunk_length: "good_lib c \<Longrightarrow> length (chunk c key i p) = nonceSize + 4 + (length p + tagSize)"
  by (simp add: chunk_def Let_def good_libD)

lemma sealed_size: "length p \<le> ChunkSize \<Longrightarrow> (length p + tagSize) mod 2 ^ 32 = length p + tagSize"
  by (simp add: ChunkSize_def tagSize_def)

lemma be_nat_4: "x < 2 ^ 32 \<Longrightarrow> be_nat (be_bytes 4 x) = x"
  by (simp add: be_nat_bytes)

text \<open>The fields of a chunk and what follows it, or of what is left of it.\<close>

lemma chunk_parts:
  assumes "good_lib c" "length p \<le> ChunkSize"
  shows "be_nat (take 4 (drop nonceSize (Nonce c i @ be_bytes 4 (length p + tagSize) @ rest))) = length p + tagSize"
    "take nonceSize (Nonce c i @ be_bytes 4 (length p + tagSize) @ rest) = Nonce c i"
    "drop (nonceSize + 4) (Nonce c i @ be_bytes 4 (length p + tagSize) @ rest) = rest"
    "chunk c key i p = Nonce c i @ be_bytes 4 (length p + tagSize) @ SealChunk c (deriveKey c key) (Nonce c i) p (chunkAAD i)"
  using assms
  by (simp_all add: good_libD be_nat_4 chunk_def Let_def sealed_size ChunkSize_def tagSize_def)

text \<open>Reading a chunk that is complete.\<close>

lemma unframe_chunk:
  assumes lib: "good_lib c" and short: "length p \<le> ChunkSize"
  shows "unframe c key i (chunk c key i p @ rest, e) =
    (if p = [] then ([], if rest = [] then e else Some (CodecError CodeBackupVerifyFailed))
     else case unframe c key (Suc i) (rest, e) of (later, e') \<Rightarrow> (p @ later, e'))"
proof -
  let ?sealed = "SealChunk c (deriveKey c key) (Nonce c i) p (chunkAAD i)"
  let ?src = "Nonce c i @ be_bytes 4 (length p + tagSize) @ ?sealed @ rest"
  have src: "chunk c key i p @ rest = ?src" by (simp add: chunk_parts(4) [OF assms])
  have body: "take (length p + tagSize) (?sealed @ rest) = ?sealed" "drop (length p + tagSize) (?sealed @ rest) = rest"
    by (simp_all add: good_libD [OF lib])
  have long: "\<not> length ?src < nonceSize + 4" "\<not> length (?sealed @ rest) < length p + tagSize" "\<not> length p + tagSize < tagSize"
    by (simp_all add: good_libD [OF lib])
  show ?thesis unfolding src
    by (subst unframe.simps)
      (simp only: Let_def fst_conv snd_conv chunk_parts(1-3) [OF assms] body long if_False good_libD(1) [OF lib] option.case, cases p, auto)
qed

lemma unframe_chunks: "good_lib c \<Longrightarrow> unframe c key i (chunks c key i p, e) = (p, e)"
proof (induction "length p" arbitrary: i p rule: less_induct)
  case less
  show ?case
  proof (cases "p = []")
    case True
    then show ?thesis using unframe_chunk [OF less.prems, of "[]" key i "[]"] by (simp add: chunks_Nil)
  next
    case False
    then have "unframe c key (Suc i) (chunks c key (Suc i) (drop ChunkSize p), e) = (drop ChunkSize p, e)"
      using less.prems by (intro less.hyps) simp_all
    then show ?thesis using False unframe_chunk [OF less.prems, of "take ChunkSize p" key i]
      by (subst chunks.simps) simp
  qed
qed

text \<open>A stream that was cut off anywhere hands out a part of the content and then an error.\<close>

lemma unframe_short:
  assumes lib: "good_lib c" and short: "length p \<le> ChunkSize" and cut: "m < length (chunk c key i p)"
  shows "unframe c key i (take m (chunk c key i p), None) = ([], Some ErrTruncated)"
proof (cases "m < nonceSize + 4")
  case True
  then have "length (take m (chunk c key i p)) < nonceSize + 4" by simp
  then show ?thesis by (subst unframe.simps) (simp only: fst_conv snd_conv cut_short_def option.case if_True)
next
  case False
  let ?part = "take (m - (nonceSize + 4)) (SealChunk c (deriveKey c key) (Nonce c i) p (chunkAAD i))"
  have src: "take m (chunk c key i p) = Nonce c i @ be_bytes 4 (length p + tagSize) @ ?part"
    using False by (simp add: chunk_parts(4) [OF lib short] good_libD [OF lib])
  have "length ?part < length p + tagSize" using cut False by (simp add: chunk_length [OF lib] good_libD [OF lib])
  then show ?thesis unfolding src
    by (subst unframe.simps) (simp only: Let_def fst_conv snd_conv chunk_parts(1-3) [OF lib short], simp add: cut_short_def)
qed

lemma unframe_truncated:
  "good_lib c \<Longrightarrow> m < length (chunks c key i p) \<Longrightarrow>
   \<exists>n. unframe c key i (take m (chunks c key i p), None) = (take n p, Some ErrTruncated)"
proof (induction "length p" arbitrary: i p m rule: less_induct)
  case less
  show ?case
  proof (cases "p = []")
    case True
    then show ?thesis using less.prems by (simp add: chunks_Nil unframe_short)
  next
    case False
    let ?first = "chunk c key i (take ChunkSize p)" and ?rest = "chunks c key (Suc i) (drop ChunkSize p)"
    have split: "chunks c key i p = ?first @ ?rest" using False by (subst chunks.simps) simp
    show ?thesis
    proof (cases "m < length ?first")
      case True
      then show ?thesis unfolding split using unframe_short [OF less.prems(1)] by (intro exI [of _ 0]) simp
    next
      case no: False
      have "\<exists>n. unframe c key (Suc i) (take (m - length ?first) ?rest, None) = (take n (drop ChunkSize p), Some ErrTruncated)"
        using less.prems no False unfolding split by (intro less.hyps) auto
      then obtain n where "unframe c key (Suc i) (take (m - length ?first) ?rest, None) = (take n (drop ChunkSize p), Some ErrTruncated)" ..
      then have "unframe c key i (take m (chunks c key i p), None) = (take (ChunkSize + n) p, Some ErrTruncated)"
        using no False unframe_chunk [OF less.prems(1), of "take ChunkSize p" key i]
        unfolding split by (simp add: take_add)
      then show ?thesis by blast
    qed
  qed
qed

text \<open>The header.\<close>

lemma NewReader_header: "NewReader (magic @ [flag] @ bytes, e) = Inr (of_char flag mod (2 :: nat) = 1, (bytes, e))"
  by (simp add: NewReader_def)

definition body_of :: "CodecLib \<Rightarrow> string option \<Rightarrow> string list \<Rightarrow> string" where
  "body_of c key payload = (case key of None \<Rightarrow> concat payload | Some k \<Rightarrow> chunks c k 0 (concat payload))"

lemma Encode_parts:
  assumes "Encode c compression key ws = Inr bytes"
  shows "compression = CompressionNone \<or> compression = CompressionGzip"
    "bytes = magic @ [if key = None then CHR 0x00 else CHR 0x01] @
       body_of c key (if compression = CompressionGzip then GzipPieces c ws else ws)"
proof -
  show "compression = CompressionNone \<or> compression = CompressionGzip"
    using assms by (cases compression) (simp_all add: Encode_def)
  then show "bytes = magic @ [if key = None then CHR 0x00 else CHR 0x01] @
       body_of c key (if compression = CompressionGzip then GzipPieces c ws else ws)"
    using assms by (cases key) (auto simp: Encode_def Let_def frame_writes_chunks body_of_def)
qed

lemma NewReader_encoded:
  "NewReader (magic @ [if key = None then CHR 0x00 else CHR 0x01] @ rest, e) = Inr (key \<noteq> None, (rest, e))"
  unfolding NewReader_header by simp

lemma decode_encode:
  assumes lib: "good_lib c" and "Encode c compression key ws = Inr bytes"
  shows "Decode c (bytes, None) compression key = Inr (concat ws, None)"
proof -
  let ?payload = "if compression = CompressionGzip then GzipPieces c ws else ws"
  have "decryptIfNeeded c (key \<noteq> None, (body_of c key ?payload, None)) key = Inr (concat ?payload, None)"
    by (cases key) (simp_all add: decryptIfNeeded_def body_of_def unframe_chunks [OF lib])
  then have "Decode c (bytes, None) compression key
      = (if compression = CompressionGzip
         then if GunzipHeader c (concat ?payload) then Inr (Gunzip c (concat ?payload, None)) else Inl (CodecError CodeInternal)
         else Inr (concat ?payload, None))"
    unfolding Encode_parts(2) [OF assms(2)] Decode_def NewReader_encoded by simp
  then show ?thesis using Encode_parts(1) [OF assms(2)] good_libD(4,5) [OF lib] by auto
qed

lemma short_header: "m < length magic + 1 \<Longrightarrow> Decode c (take m bytes, None) compression key = Inl ErrTruncated"
proof -
  assume "m < length magic + 1"
  then have "length (take m bytes) < length magic + 1" by simp
  then have "NewReader (take m bytes, None) = Inl ErrTruncated"
    by (simp only: NewReader_def fst_conv snd_conv if_True cut_short_def option.case)
  then show ?thesis by (simp add: Decode_def)
qed

text \<open>Reading a reader to its end, as a restore does.\<close>

definition read_all :: "codec_error + source \<Rightarrow> codec_error + string" where
  "read_all r = (case r of Inl e \<Rightarrow> Inl e | Inr (bytes, None) \<Rightarrow> Inr bytes | Inr (_, Some e) \<Rightarrow> Inl e)"

lemma encrypted_prefix:
  assumes lib: "good_lib c" and "Encode c compression (Some k) ws = Inr bytes" "m < length bytes"
  shows "read_all (Decode c (take m bytes, None) compression (Some k)) \<in>
    {Inl ErrTruncated} \<union> (if compression = CompressionGzip then {Inl (CodecError CodeInternal)} else {})"
proof -
  let ?payload = "if compression = CompressionGzip then GzipPieces c ws else ws"
  have b: "bytes = magic @ [CHR 0x01] @ chunks c k 0 (concat ?payload)"
    using Encode_parts(2) [OF assms(2)] by (simp add: body_of_def)
  show ?thesis
  proof (cases "m < length magic + 1")
    case True
    then show ?thesis by (simp add: short_header read_all_def)
  next
    case False
    let ?cut = "take (m - (length magic + 1)) (chunks c k 0 (concat ?payload))"
    have t: "take m bytes = magic @ [CHR 0x01] @ ?cut"
      using False unfolding b by (auto simp: take_Cons')
    have "m - (length magic + 1) < length (chunks c k 0 (concat ?payload))" using assms(3) False unfolding b by simp
    from unframe_truncated [OF lib this]
    obtain n where u: "unframe c k 0 (?cut, None) = (take n (concat ?payload), Some ErrTruncated)" ..
    have "decryptIfNeeded c (True, (?cut, None)) (Some k) = Inr (take n (concat ?payload), Some ErrTruncated)"
      unfolding decryptIfNeeded_def prod.case bool.case option.case u ..
    then have d: "Decode c (take m bytes, None) compression (Some k) =
        (if compression = CompressionGzip
         then if GunzipHeader c (take n (concat ?payload)) then Inr (Gunzip c (take n (concat ?payload), Some ErrTruncated))
              else Inl (CodecError CodeInternal)
         else Inr (take n (concat ?payload), Some ErrTruncated))"
      unfolding t Decode_def NewReader_header by simp
    show ?thesis
    proof (cases "compression = CompressionGzip")
      case True
      have "snd (Gunzip c (take n (concat (GzipPieces c ws)), Some ErrTruncated)) = Some ErrTruncated" by (rule good_libD(6) [OF lib])
      then have g: "Gunzip c (take n (concat ?payload), Some ErrTruncated)
          = (fst (Gunzip c (take n (concat ?payload), Some ErrTruncated)), Some ErrTruncated)"
        using True by (simp add: prod_eq_iff)
      show ?thesis unfolding d using True by (subst g) (simp add: read_all_def)
    qed (simp only: d, simp add: read_all_def)
  qed
qed

section \<open>Properties\<close>

text \<open>C18 A backup that was encoded decodes to exactly the bytes that were written, whatever the pieces they were
  written in, with and without compression and encryption.\<close>

theorem codec_roundtrip:
  assumes "good_lib c" and "Encode c compression key pieces = Inr bytes"
  shows "Decode c (bytes, None) compression key = Inr (concat pieces, None)"
  by (rule decode_encode [OF assms])

text \<open>A cipher to try the codec with: the tag is made of the additional data.\<close>

definition plain_lib :: CodecLib where
  "plain_lib = \<lparr>SealChunk = (\<lambda>k n p a. p @ take tagSize (a @ replicate tagSize (CHR ''-''))),
     OpenChunk = (\<lambda>k n s a. let p = take (length s - tagSize) s
        in if drop (length s - tagSize) s = take tagSize (a @ replicate tagSize (CHR ''-'')) then Some p else None),
     GzipPieces = (\<lambda>ws. [''z'', concat ws, ''.'']), GzipOpen = (\<lambda>ws. ''z'' # ws),
     GunzipHeader = (\<lambda>s. s \<noteq> []),
     Gunzip = (\<lambda>(s, e). case e of Some e \<Rightarrow> (tl s, Some e) | None \<Rightarrow> (butlast (tl s), None)),
     Sha256 = (\<lambda>s. s), Nonce = (\<lambda>i. replicate nonceSize (CHR ''n''))\<rparr>"

lemma plain_lib_good: "good_lib plain_lib"
  by (auto simp: good_lib_def plain_lib_def tagSize_def Let_def butlast_append min_def)

lemma plain_lib_encodes: "\<exists>bytes. Encode plain_lib CompressionGzip (Some ''k'') [''ab'', ''c''] = Inr bytes \<and> 30 < length bytes"
  unfolding Encode_def Let_def
  by (simp add: frame_writes_chunks magic_def chunks.simps chunk_length [OF plain_lib_good] nonceSize_def tagSize_def)

theorem codec_roundtrip_witness:
  "\<exists>bytes. Encode plain_lib CompressionGzip (Some ''k'') [''ab'', ''c''] = Inr bytes
     \<and> Decode plain_lib (bytes, None) CompressionGzip (Some ''k'') = Inr (''abc'', None)"
  using plain_lib_encodes codec_roundtrip [OF plain_lib_good, of CompressionGzip "Some ''k''" "[''ab'', ''c'']"] by force

text \<open>C19 An encrypted backup that was cut off anywhere, also between two chunks, is refused when it is read to
  its end: a restore that does so never takes a part of it for the whole. The error is that the stream is
  truncated, or, if not even the header of the compressed stream is left, an internal one.\<close>

theorem truncation_detected:
  assumes "good_lib c" and "Encode c compression (Some k) pieces = Inr bytes" and "m < length bytes"
  shows "read_all (Decode c (take m bytes, None) compression (Some k)) \<in>
    {Inl ErrTruncated} \<union> (if compression = CompressionGzip then {Inl (CodecError CodeInternal)} else {})"
  by (rule encrypted_prefix [OF assms])

theorem truncation_detected_witness:
  "\<exists>bytes. Encode plain_lib CompressionGzip (Some ''k'') [''ab'', ''c''] = Inr bytes
     \<and> (\<exists>e. read_all (Decode plain_lib (take 30 bytes, None) CompressionGzip (Some ''k'')) = Inl e)"
proof -
  obtain bytes where b: "Encode plain_lib CompressionGzip (Some ''k'') [''ab'', ''c''] = Inr bytes" "30 < length bytes"
    using plain_lib_encodes by blast
  from truncation_detected [OF plain_lib_good b] b(1) show ?thesis by auto
qed

end
