(* ===== verification/BackupPolicy.thy ===== *)
theory BackupPolicy
  imports Retention Codec CommandSpec AppSpec
begin

text \<open>
  The backup policy (\<open>internal/domain/backuppolicy.go\<close>) and the requests for one run
  (\<open>internal/domain/backup.go\<close>): validation with the defaults it fills in.
\<close>

section \<open>The policy\<close>

datatype BackupResourceKind = BackupResourceFiles | BackupResourcePostgres | BackupResourceMySQL | BackupResourceOther string

datatype SymlinkPolicy = SymlinkSkip | SymlinkFollow | SymlinkError | SymlinkOther string

record BackupResource =
  BrKind :: BackupResourceKind
  BrPaths :: "string list"
  BrExclude :: "string list"
  BrSymlinks :: SymlinkPolicy
  DSNSecret :: SecretRef
  Database :: string

record BackupEncryption =
  EncEnabled :: bool
  KeySecret :: SecretRef

record BackupEncoding =
  BeCompression :: Compression
  Encryption :: BackupEncryption

record BackupTimeout =
  ToBackup :: duration
  ToRestore :: duration

record BackupPolicy =
  BpID :: string
  BpAPIVersion :: string
  BpKind :: string
  BpName :: string
  BpResource :: BackupResource
  BpEncoding :: BackupEncoding
  BpRetention :: BackupRetention
  BpTimeout :: BackupTimeout

definition BackupPolicyKind :: string where "BackupPolicyKind = ''BackupPolicy''"

definition DefaultBackupTimeout :: duration where "DefaultBackupTimeout = hour"
definition DefaultRestoreTimeout :: duration where "DefaultRestoreTimeout = 2 * hour"
definition DefaultCompression :: Compression where "DefaultCompression = CompressionGzip"

text \<open>The empty string as a value of an enumeration.\<close>

definition unset_symlinks :: SymlinkPolicy where "unset_symlinks = SymlinkOther []"
definition unset_compression :: Compression where "unset_compression = CompressionOther []"

section \<open>Validation\<close>

definition validateBackupPath :: "string \<Rightarrow> ErrorCode option" where
  "validateBackupPath p =
     first_err [
       fail_if (\<not> prefix ''/'' p) CodeManifestInvalid,
       fail_if (\<not> PathIsAbs (PathClean p)) CodeManifestInvalid,
       fail_if (''..'' \<in> set (Split CHR ''/'' p)) CodeManifestInvalid,
       fail_if (PathClean p = ''/'') CodeManifestInvalid]"

definition databaseNamePattern :: "string \<Rightarrow> bool" where
  "databaseNamePattern s \<longleftrightarrow>
     (case s of [] \<Rightarrow> False
      | c # cs \<Rightarrow> (upper c \<or> lower c \<or> c = CHR ''_'') \<and> list_all (\<lambda>c. alnum c \<or> c = CHR ''_'' \<or> c = CHR ''$'') cs)"

text \<open>Errors of parts become \<open>MANIFEST_INVALID\<close>.\<close>

definition as_manifest :: "ErrorCode option \<Rightarrow> ErrorCode option" where
  "as_manifest e = map_option (\<lambda>_. CodeManifestInvalid) e"

definition BackupResource_validate :: "BackupResource \<Rightarrow> ErrorCode option" where
  "BackupResource_validate r =
     (case BrKind r of
        BackupResourceFiles \<Rightarrow>
          first_err [
            fail_if (BrPaths r = []) CodeManifestInvalid,
            first_err (map (\<lambda>p. as_manifest (validateBackupPath p)) (BrPaths r)),
            first_err (map (\<lambda>p. fail_if (PathIsAbs p) CodeManifestInvalid) (BrExclude r)),
            fail_if (BrSymlinks r \<notin> {SymlinkSkip, SymlinkFollow, SymlinkError, unset_symlinks}) CodeManifestInvalid,
            fail_if (RefName (DSNSecret r) \<noteq> [] \<or> \<not> blank (Database r)) CodeManifestInvalid]
      | BackupResourceOther _ \<Rightarrow> Some CodeManifestInvalid
      | _ \<Rightarrow>
          first_err [
            as_manifest (SecretRef_Validate (DSNSecret r)),
            fail_if (blank (Database r)) CodeManifestInvalid,
            fail_if (\<not> databaseNamePattern (Database r)) CodeManifestInvalid,
            fail_if (BrPaths r \<noteq> [] \<or> BrExclude r \<noteq> [] \<or> BrSymlinks r \<noteq> unset_symlinks) CodeManifestInvalid])"

definition BackupEncoding_validate :: "BackupEncoding \<Rightarrow> ErrorCode option" where
  "BackupEncoding_validate e =
     first_err [
       fail_if (BeCompression e \<notin> {CompressionNone, CompressionGzip, unset_compression}) CodeManifestInvalid,
       (if EncEnabled (Encryption e) then as_manifest (SecretRef_Validate (KeySecret (Encryption e)))
        else fail_if (RefName (KeySecret (Encryption e)) \<noteq> []) CodeManifestInvalid)]"

definition BackupRetention_validate :: "BackupRetention \<Rightarrow> ErrorCode option" where
  "BackupRetention_validate r =
     first_err [
       fail_if (BackupRetention_Empty r) CodeManifestInvalid,
       first_err (map (\<lambda>v. fail_if (v < 0) CodeManifestInvalid)
         [BrKeepLast r, KeepDays r, Daily (GFS r), Weekly (GFS r), Monthly (GFS r)])]"

definition BackupTimeout_validate :: "BackupTimeout \<Rightarrow> ErrorCode option" where
  "BackupTimeout_validate t = fail_if (ToBackup t < 0 \<or> ToRestore t < 0) CodeManifestInvalid"

definition BackupPolicy_applyDefaults :: "BackupPolicy \<Rightarrow> BackupPolicy" where
  "BackupPolicy_applyDefaults p =
     p\<lparr>BpEncoding := (BpEncoding p)\<lparr>BeCompression :=
         (if BeCompression (BpEncoding p) = unset_compression then DefaultCompression else BeCompression (BpEncoding p))\<rparr>,
       BpResource := (BpResource p)\<lparr>BrSymlinks :=
         (if BrKind (BpResource p) = BackupResourceFiles \<and> BrSymlinks (BpResource p) = unset_symlinks then SymlinkSkip
          else BrSymlinks (BpResource p))\<rparr>,
       BpTimeout := \<lparr>ToBackup = (if ToBackup (BpTimeout p) = 0 then DefaultBackupTimeout else ToBackup (BpTimeout p)),
         ToRestore = (if ToRestore (BpTimeout p) = 0 then DefaultRestoreTimeout else ToRestore (BpTimeout p))\<rparr>\<rparr>"

definition BackupPolicy_Validate :: "BackupPolicy \<Rightarrow> ErrorCode + BackupPolicy" where
  "BackupPolicy_Validate p =
     (case first_err [
        fail_if (\<not> applicationNamePattern (BpName p)) CodeManifestInvalid,
        fail_if (BpKind p \<noteq> BackupPolicyKind) CodeManifestInvalid,
        BackupResource_validate (BpResource p),
        BackupEncoding_validate (BpEncoding p),
        BackupRetention_validate (BpRetention p),
        BackupTimeout_validate (BpTimeout p)] of
        Some e \<Rightarrow> Inl e
      | None \<Rightarrow> Inr (BackupPolicy_applyDefaults p))"

section \<open>One run\<close>

record BackupRunRequest =
  RunPolicy :: "BackupPolicy option"
  RunRestoreMode :: RestoreMode
  RunBackupID :: string

definition BackupRunRequest_Validate :: "BackupRunRequest \<Rightarrow> ErrorCode option" where
  "BackupRunRequest_Validate r =
     (case RunPolicy r of
        None \<Rightarrow> Some CodeInvalidRequest
      | Some p \<Rightarrow>
          first_err [
            fail_if (BpName p = []) CodeInvalidRequest,
            fail_if (RunRestoreMode r \<noteq> RestoreOther [] \<and> \<not> RestoreMode_Valid (RunRestoreMode r)) CodeInvalidRequest,
            fail_if (RunRestoreMode r \<noteq> RestoreOther [] \<and> blank (RunBackupID r)) CodeInvalidRequest])"

record PreflightCheck =
  CheckName :: string
  CheckOK :: bool

record PreflightReport =
  Checks :: "PreflightCheck list"
  ToolVersion :: string
  PfServerVersion :: string

definition Failure :: "PreflightReport \<Rightarrow> PreflightCheck option" where
  "Failure r = find (\<lambda>c. \<not> CheckOK c) (Checks r)"

definition Passed :: "PreflightReport \<Rightarrow> bool" where "Passed r \<longleftrightarrow> Failure r = None"

record BackupMetadata =
  MdServerVersion :: string
  MdClientVersion :: string
  MdTool :: string
  MdLabels :: "(string \<times> string) list"

section \<open>What was accepted\<close>

lemma as_manifest_None [simp]: "as_manifest e = None \<longleftrightarrow> e = None"
  by (simp add: as_manifest_def)

lemma BackupPolicy_Validate_ok:
  "BackupPolicy_Validate p = Inr q \<longleftrightarrow> q = BackupPolicy_applyDefaults p
     \<and> applicationNamePattern (BpName p) \<and> BpKind p = BackupPolicyKind \<and> BackupResource_validate (BpResource p) = None
     \<and> BackupEncoding_validate (BpEncoding p) = None \<and> BackupRetention_validate (BpRetention p) = None
     \<and> BackupTimeout_validate (BpTimeout p) = None"
proof -
  let ?e = "first_err [fail_if (\<not> applicationNamePattern (BpName p)) CodeManifestInvalid,
    fail_if (BpKind p \<noteq> BackupPolicyKind) CodeManifestInvalid, BackupResource_validate (BpResource p),
    BackupEncoding_validate (BpEncoding p), BackupRetention_validate (BpRetention p), BackupTimeout_validate (BpTimeout p)]"
  have v: "BackupPolicy_Validate p = (case ?e of Some e \<Rightarrow> Inl e | None \<Rightarrow> Inr (BackupPolicy_applyDefaults p))"
    by (simp only: BackupPolicy_Validate_def)
  have n: "?e = None \<longleftrightarrow> applicationNamePattern (BpName p) \<and> BpKind p = BackupPolicyKind
      \<and> BackupResource_validate (BpResource p) = None \<and> BackupEncoding_validate (BpEncoding p) = None
      \<and> BackupRetention_validate (BpRetention p) = None \<and> BackupTimeout_validate (BpTimeout p) = None"
    by (simp add: first_err_Cons_None fail_if_def)
  show ?thesis unfolding v by (cases ?e) (use n in auto)
qed

text \<open>Validating a stored policy again changes nothing.\<close>

lemma BackupPolicy_Validate_stable:
  assumes "BackupPolicy_Validate p = Inr q"
  shows "BackupPolicy_Validate q = Inr q"
proof -
  note v = assms [unfolded BackupPolicy_Validate_ok]
  have q: "q = BackupPolicy_applyDefaults p" using v by simp
  have "BackupResource_validate (BpResource q) = None"
    using v by (auto simp: q BackupPolicy_applyDefaults_def BackupResource_validate_def first_err_Cons_None
        unset_symlinks_def split: BackupResourceKind.splits)
  moreover have "BackupEncoding_validate (BpEncoding q) = None"
    using v by (auto simp: q BackupPolicy_applyDefaults_def BackupEncoding_validate_def first_err_Cons_None DefaultCompression_def)
  moreover have "BackupTimeout_validate (BpTimeout q) = None"
    using v by (auto simp: q BackupPolicy_applyDefaults_def BackupTimeout_validate_def DefaultBackupTimeout_def
        DefaultRestoreTimeout_def duration_defs)
  moreover have "BackupPolicy_applyDefaults q = q"
    by (simp add: q BackupPolicy_applyDefaults_def DefaultCompression_def unset_compression_def unset_symlinks_def
        DefaultBackupTimeout_def DefaultRestoreTimeout_def duration_defs)
  ultimately show ?thesis
    using v unfolding BackupPolicy_Validate_ok by (simp add: q BackupPolicy_applyDefaults_def)
qed

end
