(* ===== verification/BackupStore.thy ===== *)
theory BackupStore
  imports OpStore Catalog BackupPolicy
begin

text \<open>
  The backup tables of the store (\<open>internal/adapters/sqlite/backup.go\<close>, migration \<open>0006_backups.sql\<close>):
  policies, unique by identifier and by name, and backups, which belong to a policy. Audit events go to the
  tables of the operations, so those functions take both. A policy is kept decoded; the columns for who
  changed it and when are not modelled.
\<close>

section \<open>The tables\<close>

record BkDb =
  backup_policies :: "BackupPolicy list"
  backups :: "Backup list"

definition empty_backups :: BkDb where
  "empty_backups = \<lparr>backup_policies = [], backups = []\<rparr>"

section \<open>Policies\<close>

definition GetBackupPolicy :: "BkDb \<Rightarrow> string \<Rightarrow> ErrorCode + BackupPolicy" where
  "GetBackupPolicy db ref = found (find (\<lambda>p. BpID p = ref \<or> BpName p = ref) (backup_policies db)) CodeBackupNotFound"

definition policy_saved :: "string \<Rightarrow> string \<Rightarrow> time \<Rightarrow> AuditEvent" where
  "policy_saved name updatedBy now =
     \<lparr>EvType = EventBackupPolicySaved, EvActor = updatedBy, EvOperationID = [], EvResource = name,
      EvResult = ''saved'', EvTime = now, EvDetails = []\<rparr>"

text \<open>The name decides: a policy that exists keeps its identifier.\<close>

definition SaveBackupPolicy ::
  "OpDb \<times> BkDb \<Rightarrow> BackupPolicy \<Rightarrow> string \<Rightarrow> time \<Rightarrow> string \<Rightarrow> (ErrorCode + BackupPolicy) \<times> (OpDb \<times> BkDb)" where
  "SaveBackupPolicy dbs policy policyID now updatedBy =
     (let (od, bd) = dbs;
          known = find (\<lambda>p. BpName p = BpName policy) (backup_policies bd)
      in if known = None \<and> list_ex (\<lambda>p. BpID p = policyID) (backup_policies bd) then (Inl CodeInternal, dbs)
         else let bd' = (case known of
                   Some old \<Rightarrow> bd\<lparr>backup_policies := update_where (\<lambda>p. BpName p = BpName policy)
                     (\<lambda>_. policy\<lparr>BpID := BpID old\<rparr>) (backup_policies bd)\<rparr>
                 | None \<Rightarrow> bd\<lparr>backup_policies := backup_policies bd @ [policy\<lparr>BpID := policyID\<rparr>]\<rparr>)
              in case insertAudit od (policy_saved (BpName policy) updatedBy now) of
                   Inl e \<Rightarrow> (Inl e, dbs)
                 | Inr od' \<Rightarrow> (GetBackupPolicy bd' (BpName policy), (od', bd')))"

definition ListBackupPolicies :: "BkDb \<Rightarrow> BackupPolicy list" where
  "ListBackupPolicies db = sort_key BpName (backup_policies db)"

section \<open>Backups\<close>

definition GetBackup :: "BkDb \<Rightarrow> string \<Rightarrow> ErrorCode + Backup" where
  "GetBackup db i = found (find (\<lambda>b. BackupID b = i) (backups db)) CodeBackupNotFound"

text \<open>The check constraint on the column of the status.\<close>

fun unknown_status :: "BackupStatus \<Rightarrow> bool" where
  "unknown_status (BackupStatusOther _) = True"
| "unknown_status _ = False"

lemma unknown_status_iff: "unknown_status st \<longleftrightarrow> (\<exists>t. st = BackupStatusOther t)"
  by (cases st) simp_all

definition CreateBackup :: "OpDb \<Rightarrow> BkDb \<Rightarrow> Backup \<Rightarrow> ErrorCode + BkDb" where
  "CreateBackup od db b =
     (if list_ex (\<lambda>q. BackupID q = BackupID b) (backups db)
         \<or> \<not> list_ex (\<lambda>p. BpID p = BkPolicyID b) (backup_policies db)
         \<or> (BkOperationID b \<noteq> [] \<and> find_operation od (BkOperationID b) = None)
         \<or> unknown_status (BkStatus b)
      then Inl CodeInternal
      else Inr (db\<lparr>backups := backups db @ [b]\<rparr>))"

record FinishBackupInput =
  FbBackupID :: string
  FbStatus :: BackupStatus
  FbStorageDigest :: string
  FbLogicalBytes :: int
  FbStoredBytes :: int
  FbCompression :: string
  FbEncryptionKeyID :: string
  FbServerVersion :: string
  FbClientVersion :: string
  FbTool :: string
  FbLabels :: "(string \<times> string) list"
  FbErrorCode :: "ErrorCode option"
  FbErrorMessage :: string

definition unfinished :: "Backup \<Rightarrow> bool" where
  "unfinished b \<longleftrightarrow> BkStatus b = BackupPending \<or> BkStatus b = BackupRunning"

fun backupEventType :: "BackupStatus \<Rightarrow> EventType" where
  "backupEventType BackupSucceeded = EventBackupSucceeded"
| "backupEventType BackupFailed = EventBackupFailed"
| "backupEventType BackupPruned = EventBackupPruned"
| "backupEventType _ = EventBackupFinished"

definition status_text :: "BackupStatus \<Rightarrow> string" where
  "status_text s =
     (case s of BackupPending \<Rightarrow> ''pending'' | BackupRunning \<Rightarrow> ''running'' | BackupSucceeded \<Rightarrow> ''succeeded''
      | BackupFailed \<Rightarrow> ''failed'' | BackupPruned \<Rightarrow> ''pruned'' | BackupStatusOther t \<Rightarrow> t)"

definition error_text :: "ErrorCode option \<Rightarrow> string" where
  "error_text e = (case e of None \<Rightarrow> [] | Some c \<Rightarrow> code_text c)"

definition finished_backup :: "FinishBackupInput \<Rightarrow> time \<Rightarrow> Backup \<Rightarrow> Backup" where
  "finished_backup inp now b =
     b\<lparr>BkStatus := FbStatus inp, StorageDigest := FbStorageDigest inp, LogicalBytes := FbLogicalBytes inp,
       StoredBytes := FbStoredBytes inp, BkCompression := FbCompression inp, EncryptionKeyID := FbEncryptionKeyID inp,
       ServerVersion := FbServerVersion inp, ClientVersion := FbClientVersion inp, BkTool := FbTool inp,
       Labels := FbLabels inp, BkFinishedAt := Some now, BkErrorCode := error_text (FbErrorCode inp),
       BkErrorMessage := FbErrorMessage inp\<rparr>"

text \<open>A backup that is not pending or running any more stays as it is, without an audit event.\<close>

definition FinishBackup ::
  "OpDb \<times> BkDb \<Rightarrow> FinishBackupInput \<Rightarrow> time \<Rightarrow> (ErrorCode + Backup) \<times> (OpDb \<times> BkDb)" where
  "FinishBackup dbs inp now =
     (let (od, bd) = dbs
      in case find (\<lambda>b. BackupID b = FbBackupID inp) (backups bd) of
           None \<Rightarrow> (Inl CodeBackupNotFound, dbs)
         | Some b \<Rightarrow>
             if \<not> unfinished b then (Inr b, dbs)
             else if unknown_status (FbStatus inp) then (Inl CodeInternal, dbs)
             else let bd' = bd\<lparr>backups := update_where (\<lambda>q. BackupID q = FbBackupID inp \<and> unfinished q)
                        (finished_backup inp now) (backups bd)\<rparr>
                  in case insertAudit od
                       \<lparr>EvType = backupEventType (FbStatus inp), EvActor = [], EvOperationID = BkOperationID b,
                        EvResource = [], EvResult = status_text (FbStatus inp), EvTime = now,
                        EvDetails = errorDetail (FbErrorCode inp) @ [(''backupId'', VStr (FbBackupID inp))]\<rparr> of
                       Inl e \<Rightarrow> (Inl e, dbs)
                     | Inr od' \<Rightarrow> (GetBackup bd' (FbBackupID inp), (od', bd')))"

text \<open>Everything of the policy an identifier or a name leads to, the latest first.\<close>

definition policy_ids :: "BkDb \<Rightarrow> string \<Rightarrow> string option" where
  "policy_ids db ref = map_option BpID (find (\<lambda>p. BpID p = ref \<or> BpName p = ref) (backup_policies db))"

definition ListBackups :: "BkDb \<Rightarrow> string \<Rightarrow> int \<Rightarrow> Backup list" where
  "ListBackups db policyRef limit =
     newest (\<lambda>b. (BkStartedAt b, BackupID b)) (if limit \<le> 0 then 100 else nat limit)
       (filter (\<lambda>b. policyRef = [] \<or> policy_ids db policyRef = Some (BkPolicyID b)) (backups db))"

definition ListBackupsForRetention :: "BkDb \<Rightarrow> string \<Rightarrow> int \<Rightarrow> Backup list" where
  "ListBackupsForRetention db policyRef limit =
     newest (\<lambda>b. (BkFinishedAt b, BackupID b)) (if limit \<le> 0 then 100 else nat limit)
       (filter (\<lambda>b. policy_ids db policyRef = Some (BkPolicyID b)) (backups db))"

definition FailStaleBackups :: "BkDb \<Rightarrow> time \<Rightarrow> nat \<times> BkDb" where
  "FailStaleBackups db now =
     (length (filter unfinished (backups db)),
      db\<lparr>backups := update_where unfinished
           (\<lambda>b. b\<lparr>BkStatus := BackupFailed, BkErrorCode := code_text CodeDaemonRestarted,
              BkErrorMessage := ''daemon restarted while the backup was running'', BkFinishedAt := Some now\<rparr>)
           (backups db)\<rparr>)"

definition MarkBackupVerified :: "BkDb \<Rightarrow> string \<Rightarrow> bool \<Rightarrow> time \<Rightarrow> BkDb" where
  "MarkBackupVerified db i ok now =
     db\<lparr>backups := update_where (\<lambda>b. BackupID b = i) (\<lambda>b. b\<lparr>VerifiedAt := Some now, VerifiedOK := Some ok\<rparr>) (backups db)\<rparr>"

definition CountBackupReferencesByDigest :: "BkDb \<Rightarrow> string \<Rightarrow> nat" where
  "CountBackupReferencesByDigest db digest =
     (if digest = [] then 0
      else length (filter (\<lambda>b. StorageDigest b = digest \<and> BkStatus b \<noteq> BackupPruned) (backups db)))"

text \<open>Marking a backup that is not succeeded, or not any more, does nothing.\<close>

definition prunable :: "string \<Rightarrow> Backup \<Rightarrow> bool" where
  "prunable i b \<longleftrightarrow> BackupID b = i \<and> BkStatus b = BackupSucceeded"

definition MarkBackupPruned :: "OpDb \<times> BkDb \<Rightarrow> string \<Rightarrow> time \<Rightarrow> ErrorCode option \<times> (OpDb \<times> BkDb)" where
  "MarkBackupPruned dbs i now =
     (let (od, bd) = dbs
      in if \<not> list_ex (prunable i) (backups bd) then (None, dbs)
         else case insertAudit od
                \<lparr>EvType = EventBackupPruned, EvActor = [], EvOperationID = [], EvResource = i, EvResult = ''pruned'',
                 EvTime = now, EvDetails = [(''backupId'', VStr i)]\<rparr> of
                Inl e \<Rightarrow> (Some e, dbs)
              | Inr od' \<Rightarrow> (None, (od', bd\<lparr>backups := update_where (prunable i) (\<lambda>b. b\<lparr>BkStatus := BackupPruned\<rparr>) (backups bd)\<rparr>)))"

end
