(* ===== verification/World.thy ===== *)
theory World
  imports OpStore Catalog BackupStore Effects
begin

text \<open>
  The state the services of \<open>internal/application\<close> run on, and the ports they use
  (\<open>internal/application/ports.go\<close>): the tables of the store, the host behind the adapters, the clock
  and the context of the operation.

  A call of the repository fails with \<open>context.Canceled\<close> once the context is done, as \<open>database/sql\<close>
  does, unless it is made with the context that outlives the operation (\<open>context.WithoutCancel\<close>). An
  adapter is a record of functions on the state of the host, which get to know whether the context is
  done. Reading the clock advances it by an amount that is a parameter of the state.
\<close>

section \<open>State\<close>

record 'h World =
  ops :: OpDb
  cat :: CatDb
  bks :: BkDb
  host :: 'h
  clock :: time
  lag :: "nat \<Rightarrow> nat"
  reads :: nat
  cancel_at :: "time option"

type_synonym ('h, 'a) act = "('h World, 'a) io"

definition ctx_done :: "'h World \<Rightarrow> bool" where
  "ctx_done w \<longleftrightarrow> (case cancel_at w of None \<Rightarrow> False | Some t \<Rightarrow> t \<le> clock w)"

section \<open>The clock\<close>

definition now_io :: "('h, time) act" where
  "now_io w = (let t = clock w + int (lag w (reads w)) in (Inr t, w\<lparr>clock := t, reads := Suc (reads w)\<rparr>))"

text \<open>\<open>select\<close> between \<open>ctx.Done()\<close> and a timer: \<open>False\<close> when the context ended first.\<close>

definition sleep :: "duration \<Rightarrow> ('h, bool) act" where
  "sleep d w =
     (let over = clock w + max 0 d
      in case cancel_at w of
           None \<Rightarrow> (Inr True, w\<lparr>clock := over\<rparr>)
         | Some t \<Rightarrow> if t \<le> over then (Inr False, w\<lparr>clock := max (clock w) t\<rparr>) else (Inr True, w\<lparr>clock := over\<rparr>))"

section \<open>The repository\<close>

definition with_ctx :: "('h, 'a) act \<Rightarrow> ('h, 'a) act" where
  "with_ctx m w = (if ctx_done w then (Inl Interrupted, w) else m w)"

text \<open>Reads, and transactions by the shape of their result.\<close>

definition cat_get :: "(CatDb \<Rightarrow> ErrorCode + 'a) \<Rightarrow> ('h, 'a) act" where
  "cat_get f = with_ctx (ask_code (\<lambda>w. f (cat w)))"

definition cat_ask :: "(CatDb \<Rightarrow> 'a) \<Rightarrow> ('h, 'a) act" where
  "cat_ask f = with_ctx (ask (\<lambda>w. f (cat w)))"

definition cat_do :: "(CatDb \<Rightarrow> CatDb) \<Rightarrow> ('h, unit) act" where
  "cat_do f = with_ctx (update_io (\<lambda>w. w\<lparr>cat := f (cat w)\<rparr>))"

definition cat_try :: "(CatDb \<Rightarrow> ErrorCode option \<times> CatDb) \<Rightarrow> ('h, unit) act" where
  "cat_try f = with_ctx (\<lambda>w. case f (cat w) of
      (None, c) \<Rightarrow> (Inr (), w\<lparr>cat := c\<rparr>)
    | (Some e, c) \<Rightarrow> (Inl (Fault e), w\<lparr>cat := c\<rparr>))"

definition cat_run :: "(CatDb \<Rightarrow> (ErrorCode + 'a) \<times> CatDb) \<Rightarrow> ('h, 'a) act" where
  "cat_run f = with_ctx (\<lambda>w. case f (cat w) of
      (Inr x, c) \<Rightarrow> (Inr x, w\<lparr>cat := c\<rparr>)
    | (Inl e, c) \<Rightarrow> (Inl (Fault e), w\<lparr>cat := c\<rparr>))"

definition bks_get :: "(BkDb \<Rightarrow> ErrorCode + 'a) \<Rightarrow> ('h, 'a) act" where
  "bks_get f = with_ctx (ask_code (\<lambda>w. f (bks w)))"

definition bks_ask :: "(BkDb \<Rightarrow> 'a) \<Rightarrow> ('h, 'a) act" where
  "bks_ask f = with_ctx (ask (\<lambda>w. f (bks w)))"

text \<open>The backup tables change together with the audit log of the operations.\<close>

definition bks_run :: "(OpDb \<times> BkDb \<Rightarrow> (ErrorCode + 'a) \<times> (OpDb \<times> BkDb)) \<Rightarrow> ('h, 'a) act" where
  "bks_run f = with_ctx (\<lambda>w. case f (ops w, bks w) of
      (Inr x, od, bd) \<Rightarrow> (Inr x, w\<lparr>ops := od, bks := bd\<rparr>)
    | (Inl e, od, bd) \<Rightarrow> (Inl (Fault e), w\<lparr>ops := od, bks := bd\<rparr>))"

definition bks_try :: "(OpDb \<times> BkDb \<Rightarrow> ErrorCode option \<times> (OpDb \<times> BkDb)) \<Rightarrow> ('h, unit) act" where
  "bks_try f = with_ctx (\<lambda>w. case f (ops w, bks w) of
      (None, od, bd) \<Rightarrow> (Inr (), w\<lparr>ops := od, bks := bd\<rparr>)
    | (Some e, od, bd) \<Rightarrow> (Inl (Fault e), w\<lparr>ops := od, bks := bd\<rparr>))"

definition ops_get :: "(OpDb \<Rightarrow> ErrorCode + 'a) \<Rightarrow> ('h, 'a) act" where
  "ops_get f = with_ctx (ask_code (\<lambda>w. f (ops w)))"

definition ops_run :: "(OpDb \<Rightarrow> (ErrorCode + 'a) \<times> OpDb) \<Rightarrow> ('h, 'a) act" where
  "ops_run f w = (case f (ops w) of
      (Inr x, d) \<Rightarrow> (Inr x, w\<lparr>ops := d\<rparr>)
    | (Inl e, d) \<Rightarrow> (Inl (Fault e), w\<lparr>ops := d\<rparr>))"

definition ops_try :: "(OpDb \<Rightarrow> ErrorCode + OpDb) \<Rightarrow> ('h, unit) act" where
  "ops_try f w = (case f (ops w) of
      Inr d \<Rightarrow> (Inr (), w\<lparr>ops := d\<rparr>)
    | Inl e \<Rightarrow> (Inl (Fault e), w))"

text \<open>A line of the log of an operation (\<open>Pool.appendLog\<close>), written with the context that outlives it; a
  failure only goes to the log of the process. The message and the fields are not modelled.\<close>

definition appendLog :: "string \<Rightarrow> string \<Rightarrow> Phase \<Rightarrow> ('h, unit) act" where
  "appendLog op level phase =
     andthen now_io (\<lambda>now.
     ignoring (ops_try (\<lambda>db. AppendLog db
       \<lparr>LogOperationID = op, LogLevel = level, LogPhase = phase, LogMessage = [], LogFields = [], LogTime = now\<rparr>)))"

section \<open>The ports\<close>

text \<open>A call of an adapter, which is told whether the context is done.\<close>

definition call :: "(bool \<Rightarrow> ('h, 'a) io) \<Rightarrow> ('h, 'a) act" where
  "call m w = (case m (ctx_done w) (host w) of (r, h) \<Rightarrow> (r, w\<lparr>host := h\<rparr>))"

datatype RuntimeStatus =
    RuntimeActive | RuntimeInactive | RuntimeFailed | RuntimeActivating | RuntimeDeactivating
  | RuntimeUnknown | RuntimeStatusOther string

definition Running :: "RuntimeStatus \<Rightarrow> bool" where
  "Running s \<longleftrightarrow> s = RuntimeActive \<or> s = RuntimeActivating"

record RuntimeHealth =
  Ready :: bool
  CheckedAt :: time
  HealthDetail :: string

record 'h RuntimeAdapter =
  RtValidate :: "ApplicationSpec \<Rightarrow> bool \<Rightarrow> ('h, unit) io"
  RtPrepare :: "ApplicationSpec \<Rightarrow> Slot \<Rightarrow> bool \<Rightarrow> ('h, unit) io"
  RtStart :: "ApplicationSpec \<Rightarrow> Slot \<Rightarrow> bool \<Rightarrow> ('h, unit) io"
  RtStop :: "ApplicationSpec \<Rightarrow> Slot \<Rightarrow> bool \<Rightarrow> ('h, unit) io"
  RtHealth :: "ApplicationSpec \<Rightarrow> Slot \<Rightarrow> bool \<Rightarrow> ('h, RuntimeHealth) io"
  RtStatus :: "ApplicationSpec \<Rightarrow> Slot \<Rightarrow> bool \<Rightarrow> ('h, RuntimeStatus) io"

record 'h NginxAdapter =
  NxValidate :: "ApplicationSpec \<Rightarrow> bool \<Rightarrow> ('h, unit) io"
  NxCheckLoaded :: "ApplicationSpec \<Rightarrow> bool \<Rightarrow> ('h, unit) io"
  NxApply :: "ApplicationSpec \<Rightarrow> Slot \<Rightarrow> bool \<Rightarrow> ('h, unit) io"
  NxCurrent :: "ApplicationSpec \<Rightarrow> bool \<Rightarrow> ('h, Slot) io"

text \<open>A reader is its bytes and whether they can be read to the end.\<close>

record 'h ReleaseAdapter =
  RlMaterialize :: "ApplicationSpec \<Rightarrow> string \<Rightarrow> string \<times> bool \<Rightarrow> bool \<Rightarrow> ('h, unit) io"
  RlActivate :: "ApplicationSpec \<Rightarrow> Slot \<Rightarrow> string \<Rightarrow> bool \<Rightarrow> ('h, unit) io"
  RlRemove :: "ApplicationSpec \<Rightarrow> string \<Rightarrow> bool \<Rightarrow> ('h, unit) io"
  RlList :: "ApplicationSpec \<Rightarrow> bool \<Rightarrow> ('h, string list) io"
  RlDeactivate :: "ApplicationSpec \<Rightarrow> Slot \<Rightarrow> bool \<Rightarrow> ('h, unit) io"

text \<open>What is uploaded: the bytes that arrive and the fault the stream ends with, if it does not just end.\<close>

type_synonym upload = "string \<times> fault option"

record Stored =
  StDigest :: string
  StSize :: int

record 'h StorageBackend =
  StPut :: "upload \<Rightarrow> string \<Rightarrow> bool \<Rightarrow> ('h, Stored) io"
  StOpen :: "string \<Rightarrow> bool \<Rightarrow> ('h, string \<times> bool) io"
  StStat :: "string \<Rightarrow> bool \<Rightarrow> ('h, Stored) io"
  StDelete :: "string \<Rightarrow> bool \<Rightarrow> ('h, unit) io"
  StList :: "bool \<Rightarrow> ('h, Stored list) io"

record 'h SecretResolver =
  SrResolve :: "SecretRef \<Rightarrow> bool \<Rightarrow> ('h, string) io"

text \<open>A backup is the pieces it writes, in order, and how it ends.\<close>

record 'h BackupAdapter =
  BaKind :: BackupResourceKind
  BaValidate :: "BackupPolicy \<Rightarrow> bool \<Rightarrow> ('h, unit) io"
  BaPreflight :: "BackupPolicy \<Rightarrow> bool \<Rightarrow> ('h, PreflightReport) io"
  BaBackup :: "BackupPolicy \<Rightarrow> bool \<Rightarrow> ('h, string list \<times> (fault + BackupMetadata)) io"
  BaVerify :: "BackupPolicy \<Rightarrow> source \<Rightarrow> bool \<Rightarrow> ('h, unit) io"
  BaRestore :: "BackupPolicy \<Rightarrow> source \<Rightarrow> RestoreMode \<Rightarrow> bool \<Rightarrow> ('h, unit) io"
  BaCleanup :: "BackupPolicy \<Rightarrow> string \<Rightarrow> bool \<Rightarrow> ('h, unit) io"

section \<open>What the primitives leave alone\<close>

lemmas world_defs = now_io_def sleep_def with_ctx_def cat_get_def cat_ask_def cat_do_def cat_try_def cat_run_def
  bks_get_def bks_ask_def bks_run_def bks_try_def ops_get_def ops_run_def ops_try_def call_def

lemma call_fields:
  "call m w = (r, w') \<Longrightarrow> cat w' = cat w"
  "call m w = (r, w') \<Longrightarrow> ops w' = ops w"
  "call m w = (r, w') \<Longrightarrow> clock w' = clock w"
  "call m w = (r, w') \<Longrightarrow> cancel_at w' = cancel_at w"
  "call m w = (r, w') \<Longrightarrow> bks w' = bks w"
  by (auto simp: call_def split: prod.splits)

lemma sleep_fields:
  "sleep d w = (r, w') \<Longrightarrow> cat w' = cat w"
  "sleep d w = (r, w') \<Longrightarrow> host w' = host w"
  "sleep d w = (r, w') \<Longrightarrow> cancel_at w' = cancel_at w"
  "sleep d w = (r, w') \<Longrightarrow> clock w \<le> clock w'"
  "sleep d w = (Inr True, w') \<Longrightarrow> clock w' = clock w + max 0 d"
  "sleep d w = (Inr False, w') \<Longrightarrow> ctx_done w'"
  by (auto simp: sleep_def Let_def ctx_done_def split: option.splits if_splits)

lemma now_fields:
  "now_io w = (r, w') \<Longrightarrow> cat w' = cat w"
  "now_io w = (r, w') \<Longrightarrow> host w' = host w"
  "now_io w = (r, w') \<Longrightarrow> cancel_at w' = cancel_at w"
  "now_io w = (r, w') \<Longrightarrow> clock w \<le> clock w'"
  "now_io w = (r, w') \<Longrightarrow> r = Inr (clock w')"
  by (auto simp: now_io_def Let_def)

lemma stable_with_ctx: "stable P m \<Longrightarrow> stable P (with_ctx m)"
  by (simp add: stable_def with_ctx_def)

lemma stable_reads:
  "stable P (cat_get f)" "stable P (cat_ask g)" "stable P (bks_get h)" "stable P (bks_ask k)" "stable P (ops_get l)"
  by (simp_all add: cat_get_def cat_ask_def bks_get_def bks_ask_def ops_get_def stable_with_ctx stable_basic)

lemma stable_call: "(\<And>w r h. P w \<Longrightarrow> m (ctx_done w) (host w) = (r, h) \<Longrightarrow> P (w\<lparr>host := h\<rparr>)) \<Longrightarrow> stable P (call m)"
  by (auto simp: stable_def call_def split: prod.split)

lemma stable_now: "(\<And>w t n. P w \<Longrightarrow> P (w\<lparr>clock := t, reads := n\<rparr>)) \<Longrightarrow> stable P now_io"
  by (auto simp: stable_def now_io_def Let_def)

lemmas stable_world = stable_rules stable_with_ctx stable_reads

lemma with_ctx_Inr: "with_ctx m w = (Inr x, w') \<longleftrightarrow> \<not> ctx_done w \<and> m w = (Inr x, w')"
  by (simp add: with_ctx_def)

end
