(* ===== verification/Artifacts.thy ===== *)
theory Artifacts
  imports World
begin

text \<open>
  The artifact service (\<open>internal/application/artifact.go\<close>) on the tables and a storage back end.
\<close>

section \<open>The service\<close>

record ArtifactPolicy =
  MaxUploadBytes :: int
  QuotaBytes :: int

text \<open>\<open>DigestOf\<close> is \<open>sha256:\<close> and the hexadecimal digits of the hash, of which nothing but its form is used.\<close>

record 'h ArtifactService =
  asStore :: "'h StorageBackend option"
  asPolicy :: ArtifactPolicy
  DigestOf :: "string \<Rightarrow> string"

definition requireStore :: "'h ArtifactService \<Rightarrow> ('h, 'h StorageBackend) act" where
  "requireStore s = (case asStore s of None \<Rightarrow> raise (Fault CodeConfigInvalid) | Some st \<Rightarrow> give st)"

section \<open>Upload\<close>

text \<open>The limiting reader: exactly the limit passes, one byte more is an error.\<close>

definition limited :: "int \<Rightarrow> ErrorCode \<Rightarrow> upload \<Rightarrow> upload" where
  "limited limit code body =
     (if limit < int (length (fst body)) then (take (nat limit) (fst body), Some (Fault code)) else body)"

definition limitStream :: "'h ArtifactService \<Rightarrow> upload \<Rightarrow> ('h, upload) act" where
  "limitStream s body =
     (let mx = MaxUploadBytes (asPolicy s); quota = QuotaBytes (asPolicy s)
      in if 0 < quota
         then andthen (cat_ask SumArtifactSizes) (\<lambda>used.
              let remaining = quota - used
              in andthen (guard_io (0 < remaining) CodeStorageQuotaExceeded) (\<lambda>_.
                 if mx \<le> 0 \<or> remaining < mx then give (limited remaining CodeStorageQuotaExceeded body)
                 else give (limited mx CodeUploadTooLarge body)))
         else if mx \<le> 0 then give body else give (limited mx CodeUploadTooLarge body))"

record PutArtifactInput =
  InName :: string
  InMediaType :: string
  InDigest :: string
  InBody :: upload
  InCreatedBy :: string

definition audit_now :: "EventType \<Rightarrow> string \<Rightarrow> string \<Rightarrow> string \<Rightarrow> (string \<times> Detail) list \<Rightarrow> ('h, unit) act" where
  "audit_now event actor resource result details =
     andthen now_io (\<lambda>now.
     with_ctx (ops_try (\<lambda>db. AppendAudit db
       \<lparr>EvType = event, EvActor = actor, EvOperationID = [], EvResource = resource, EvResult = result,
        EvTime = now, EvDetails = details\<rparr>)))"

text \<open>\<open>i\<close> is the identifier a new artifact gets.\<close>

definition Artifacts_Put :: "'h ArtifactService \<Rightarrow> string \<Rightarrow> PutArtifactInput \<Rightarrow> ('h, Artifact \<times> bool) act" where
  "Artifacts_Put s i inp =
     andthen (requireStore s) (\<lambda>store.
     andthen (if InDigest inp \<noteq> [] then ask_code (\<lambda>_. case Digest_Validate (InDigest inp) of None \<Rightarrow> Inr () | Some e \<Rightarrow> Inl e)
              else give ()) (\<lambda>_.
     andthen (limitStream s (InBody inp)) (\<lambda>body.
     andthen (call (StPut store body (InDigest inp))) (\<lambda>stored.
     andthen now_io (\<lambda>now.
     attempt
       (cat_run (\<lambda>db. CreateArtifact db
          \<lparr>ArtID = i, ArtDigest = StDigest stored, ArtSize = StSize stored, MediaType = InMediaType inp,
           ArtName = InName inp, ArtCreatedAt = now, ArtCreatedBy = InCreatedBy inp, DeletedAt = None\<rparr>))
       (\<lambda>err. andthen (ignoring (call (StDelete store (StDigest stored)))) (\<lambda>_. raise err))
       (\<lambda>(result, created).
          andthen (if created
            then audit_now EventArtifactCreated (InCreatedBy inp) (ArtDigest result) ''created''
                   [(''artifactId'', VStr (ArtID result)), (''size'', VInt (ArtSize result))]
            else give ()) (\<lambda>_.
          give (result, created))))))))"

section \<open>Reading\<close>

definition Artifacts_Get :: "'h ArtifactService \<Rightarrow> string \<Rightarrow> ('h, Artifact) act" where
  "Artifacts_Get s ref =
     andthen (requireStore s) (\<lambda>_.
     andthen (guard_io (\<not> blank ref) CodeInvalidRequest) (\<lambda>_.
     cat_get (\<lambda>db. GetArtifact db ref)))"

definition maxArtifactLimit :: nat where "maxArtifactLimit = 1000"
definition defaultArtifactLimit :: nat where "defaultArtifactLimit = 100"

definition Artifacts_List :: "'h ArtifactService \<Rightarrow> string \<Rightarrow> int \<Rightarrow> ('h, Artifact list) act" where
  "Artifacts_List s cursor limit =
     andthen (requireStore s) (\<lambda>_.
     cat_ask (\<lambda>db. ListArtifacts db cursor
       (if limit \<le> 0 \<or> int maxArtifactLimit < limit then defaultArtifactLimit else nat limit)))"

definition Verify :: "'h ArtifactService \<Rightarrow> string \<Rightarrow> ('h, Artifact) act" where
  "Verify s ref =
     andthen (cat_get (\<lambda>db. GetArtifact db ref)) (\<lambda>artifact.
     andthen (requireStore s) (\<lambda>store.
     andthen (call (StOpen store (ArtDigest artifact))) (\<lambda>(content, whole).
     andthen (guard_io whole CodeInternal) (\<lambda>_.
     andthen (guard_io (DigestOf s content = ArtDigest artifact \<and> int (length content) = ArtSize artifact)
               CodeArtifactChecksum) (\<lambda>_.
     give artifact)))))"

definition Download :: "'h ArtifactService \<Rightarrow> string \<Rightarrow> ('h, Artifact \<times> (string \<times> bool)) act" where
  "Download s ref =
     andthen (requireStore s) (\<lambda>store.
     andthen (Verify s ref) (\<lambda>artifact.
     andthen (call (StOpen store (ArtDigest artifact))) (\<lambda>reader.
     give (artifact, reader))))"

section \<open>Removal\<close>

definition Artifacts_Delete :: "'h ArtifactService \<Rightarrow> string \<Rightarrow> ('h, unit) act" where
  "Artifacts_Delete s ref =
     andthen (requireStore s) (\<lambda>store.
     andthen (cat_get (\<lambda>db. GetArtifact db ref)) (\<lambda>artifact.
     andthen (cat_ask (\<lambda>db. CountArtifactReferences db (ArtID artifact))) (\<lambda>references.
     andthen (guard_io (references = 0) CodeArtifactInUse) (\<lambda>_.
     andthen now_io (\<lambda>now.
     andthen (cat_try (\<lambda>db. SoftDeleteArtifact db (ArtID artifact) now)) (\<lambda>_.
     andthen (ignoring (call (StDelete store (ArtDigest artifact)))) (\<lambda>_.
     audit_now EventArtifactDeleted [] (ArtDigest artifact) ''deleted'' [(''artifactId'', VStr (ArtID artifact))])))))))"

record GCResult =
  GcDryRun :: bool
  Removed :: "string list"
  Orphans :: "string list"
  Kept :: nat
  FreedBytes :: int

text \<open>The loop over the artifacts, newest first. The store is only used when something is removed.\<close>

primrec collect_loop ::
  "'h StorageBackend \<Rightarrow> nat \<Rightarrow> duration \<Rightarrow> time \<Rightarrow> bool \<Rightarrow> nat \<Rightarrow> GCResult \<Rightarrow> Artifact list \<Rightarrow> ('h, GCResult) act" where
  "collect_loop store keepLast olderThan cutoff dryRun i res [] = give res"
| "collect_loop store keepLast olderThan cutoff dryRun i res (artifact # rest) =
     andthen (cat_ask (\<lambda>db. CountArtifactReferences db (ArtID artifact))) (\<lambda>references.
     if i < keepLast \<or> 0 < references \<or> (0 < olderThan \<and> cutoff < ArtCreatedAt artifact)
     then collect_loop store keepLast olderThan cutoff dryRun (Suc i) (res\<lparr>Kept := Suc (Kept res)\<rparr>) rest
     else andthen
            (if dryRun then give ()
             else andthen now_io (\<lambda>now.
                  andthen (cat_try (\<lambda>db. SoftDeleteArtifact db (ArtID artifact) now)) (\<lambda>_.
                  call (StDelete store (ArtDigest artifact))))) (\<lambda>_.
          collect_loop store keepLast olderThan cutoff dryRun (Suc i)
            (res\<lparr>Removed := Removed res @ [ArtID artifact], FreedBytes := FreedBytes res + ArtSize artifact\<rparr>) rest))"

primrec orphan_loop ::
  "'h StorageBackend \<Rightarrow> string list \<Rightarrow> bool \<Rightarrow> GCResult \<Rightarrow> Stored list \<Rightarrow> ('h, GCResult) act" where
  "orphan_loop store live dryRun res [] = give res"
| "orphan_loop store live dryRun res (entry # rest) =
     (if StDigest entry \<in> set live then orphan_loop store live dryRun res rest
      else andthen (if dryRun then give () else call (StDelete store (StDigest entry))) (\<lambda>_.
           orphan_loop store live dryRun
             (res\<lparr>Orphans := Orphans res @ [StDigest entry], FreedBytes := FreedBytes res + StSize entry\<rparr>) rest))"

definition Collect_Artifacts ::
  "'h ArtifactService \<Rightarrow> 'h StorageBackend \<Rightarrow> int \<Rightarrow> duration \<Rightarrow> bool \<Rightarrow> ('h, GCResult) act" where
  "Collect_Artifacts s store keepLast olderThan dryRun =
     andthen (cat_ask (\<lambda>db. ListArtifacts db [] maxArtifactLimit)) (\<lambda>rows.
     andthen now_io (\<lambda>now.
     andthen (collect_loop store (nat keepLast) olderThan (now - olderThan) dryRun 0
       \<lparr>GcDryRun = dryRun, Removed = [], Orphans = [], Kept = 0, FreedBytes = 0\<rparr> rows) (\<lambda>res.
     andthen (call (StList store)) (\<lambda>entries.
     andthen (orphan_loop store (map ArtDigest rows) dryRun res entries) (\<lambda>res.
     andthen
       (if \<not> dryRun \<and> (Removed res \<noteq> [] \<or> Orphans res \<noteq> [])
        then audit_now EventArtifactCollected [] [] ''collected''
               [(''removed'', VInt (int (length (Removed res)))), (''orphans'', VInt (int (length (Orphans res))))]
        else give ()) (\<lambda>_.
     give res))))))"

end
