(* ===== verification/Deploy.thy ===== *)
theory Deploy
  imports World Artifacts
begin

text \<open>
  Deployments and rollbacks (\<open>internal/application/deploy.go\<close>, \<open>deploy_slot.go\<close>): what is settled when the
  operation is created, and the two ways it is carried out, in place for an application with a single slot
  and blue-green for one with two.

  The adapters are parameters. The log is written for the operation \<open>op\<close>; the wording of errors and of the
  time line are the fields \<open>MessageOf\<close>, \<open>FailureDetail\<close> and
  \<open>Wording\<close> of the service.
\<close>

section \<open>The service\<close>

record 'h DeployService =
  dsArtifacts :: "'h ArtifactService option"
  dsReleases :: "'h ReleaseAdapter option"
  dsRuntime :: "'h RuntimeAdapter option"
  dsNginx :: "'h NginxAdapter option"
  dsUrls :: url_parser
  MessageOf :: "fault \<Rightarrow> string"
  FailureDetail :: "fault \<Rightarrow> nat \<Rightarrow> string"
  Wording :: "SlotEventKind \<Rightarrow> string"

text \<open>The parts a configured service has; the adapters of the methods below.\<close>

record 'h Adapters =
  artifacts_of :: "'h ArtifactService"
  releases_of :: "'h ReleaseAdapter"
  runtime_of :: "'h RuntimeAdapter"

definition configured :: "'h DeployService \<Rightarrow> 'h Adapters option" where
  "configured s =
     (case (dsArtifacts s, dsReleases s, dsRuntime s) of
        (Some a, Some r, Some t) \<Rightarrow> Some \<lparr>artifacts_of = a, releases_of = r, runtime_of = t\<rparr>
      | _ \<Rightarrow> None)"

definition Configured_Deploy :: "'h DeployService \<Rightarrow> bool" where
  "Configured_Deploy s \<longleftrightarrow> configured s \<noteq> None"

definition validated :: "'h DeployService \<Rightarrow> ApplicationSpec \<Rightarrow> ('h, ApplicationSpec) act" where
  "validated s spec = ask_code (\<lambda>_. ApplicationSpec_Validate (dsUrls s) spec)"

definition artifactRef :: "SpecArtifact \<Rightarrow> string" where
  "artifactRef a = (if SpArtifactID a \<noteq> [] then SpArtifactID a else SpDigest a)"

definition maxReleaseScan :: nat where "maxReleaseScan = 1000"

definition readyPollInterval :: duration where "readyPollInterval = 200 * millisecond"

section \<open>Which slot is next\<close>

definition nextSlot :: "Slot \<Rightarrow> Slot" where
  "nextSlot serving = (if Slot_Valid serving then Opposite serving else SlotBlue)"

definition targetSlotFor :: "string \<Rightarrow> ApplicationSpec \<Rightarrow> ('h, Slot \<times> bool) act" where
  "targetSlotFor app spec =
     (if \<not> BlueGreen spec then give (NoSlot, False)
      else andthen (cat_get (\<lambda>db. ServingSlot db app)) (\<lambda>serving.
           give (nextSlot serving, Slot_Valid serving)))"

section \<open>What is settled when the operation is created\<close>

record DeployTarget =
  DtRelease :: Release
  AlreadyActive :: bool
  DtSlot :: Slot
  DtSwitching :: bool

definition new_release :: "string \<Rightarrow> Application \<Rightarrow> Artifact \<Rightarrow> string \<Rightarrow> time \<Rightarrow> string \<Rightarrow> Release" where
  "new_release i app artifact version now creator =
     \<lparr>RelID = i, RelApplicationID = AppID app, ArtifactID = ArtID artifact, RelVersion = version, RelLabels = [],
      RelCreatedAt = now, RelCreatedBy = creator, RelStatus = ReleaseCreated, RelSlot = NoSlot, Directory = [],
      ActivatedAt = None, RelFinishedAt = None, RelErrorCode = None, RelErrorMessage = []\<rparr>"

text \<open>\<open>i\<close> is the identifier a new release gets.\<close>

definition PrepareDeploy ::
  "'h DeployService \<Rightarrow> string \<Rightarrow> string \<Rightarrow> ApplicationSpec option \<Rightarrow> string \<Rightarrow> ('h, DeployTarget) act" where
  "PrepareDeploy s i appRef given updatedBy =
     andthen (guard_io (Configured_Deploy s) CodeRuntimeUnsupport) (\<lambda>_.
     case given of
       None \<Rightarrow> raise (Fault CodeManifestInvalid)
     | Some manifest \<Rightarrow>
         andthen (validated s manifest) (\<lambda>spec.
         andthen (cat_get (\<lambda>db. GetApplication db appRef)) (\<lambda>app.
         andthen (guard_io (SpApplication spec = AppName app) CodeManifestInvalid) (\<lambda>_.
         andthen (cat_get (\<lambda>db. GetArtifact db (artifactRef (SpArtifact spec)))) (\<lambda>artifact.
         andthen (guard_io (SpDigest (SpArtifact spec) = [] \<or> ArtDigest artifact = SpDigest (SpArtifact spec))
                   CodeArtifactChecksum) (\<lambda>_.
         let version = VersionOrDerived (SpArtifact spec)
         in andthen (cat_ask (\<lambda>db. GetReleaseByVersion db (AppID app) version)) (\<lambda>existing.
            andthen
              (case existing of
                 None \<Rightarrow>
                   andthen now_io (\<lambda>now.
                   cat_run (\<lambda>db. CreateRelease db (new_release i app artifact version now updatedBy)))
               | Some release \<Rightarrow>
                   if ArtifactID release \<noteq> ArtID artifact then raise (Fault CodeReleaseConflict)
                   else give release) (\<lambda>release.
            andthen now_io (\<lambda>now.
            andthen (cat_try (\<lambda>db. PutApplicationSpecForRelease db (AppID app) (RelID release) spec)) (\<lambda>_.
            andthen (targetSlotFor (AppID app) spec) (\<lambda>(slot, switching).
            give \<lparr>DtRelease = release, AlreadyActive = (RelStatus release = ReleaseActive),
                  DtSlot = slot, DtSwitching = switching\<rparr>)))))))))))"

record RollbackTarget =
  RtRelease :: Release
  RtFrom :: "Release option"
  RtSlot :: Slot
  RtSwitching :: bool

definition PrepareRollback :: "'h DeployService \<Rightarrow> string \<Rightarrow> string \<Rightarrow> ('h, RollbackTarget) act" where
  "PrepareRollback s appRef toVersion =
     andthen (guard_io (Configured_Deploy s) CodeRuntimeUnsupport) (\<lambda>_.
     andthen (cat_get (\<lambda>db. GetApplication db appRef)) (\<lambda>app.
     andthen (cat_ask (\<lambda>db. ActiveRelease db (AppID app))) (\<lambda>current.
     andthen (cat_ask (\<lambda>db. if toVersion \<noteq> [] then GetReleaseByVersion db (AppID app) toVersion
                             else PreviousRelease db (AppID app))) (\<lambda>chosen.
     case chosen of
       None \<Rightarrow> raise (Fault CodeReleaseNotFound)
     | Some target \<Rightarrow>
         andthen (guard_io (Rollbackable (RelStatus target)) CodeReleaseConflict) (\<lambda>_.
         andthen (guard_io (map_option RelID current \<noteq> Some (RelID target)) CodeReleaseConflict) (\<lambda>_.
         andthen (cat_get (\<lambda>db. GetApplicationSpecForRelease db (AppID app) (RelID target))) (\<lambda>spec.
         andthen (targetSlotFor (AppID app) spec) (\<lambda>(slot, switching).
         give \<lparr>RtRelease = target, RtFrom = current, RtSlot = slot, RtSwitching = switching\<rparr>))))))))"

text \<open>The options of the operation: \<open>None\<close> when there are none, else what decoding them gives.\<close>

definition ResolveDeployOperation ::
  "'h DeployService \<Rightarrow> string \<Rightarrow> (unit + string) option \<Rightarrow> ('h, string) act" where
  "ResolveDeployOperation s appRef options =
     andthen (guard_io (Configured_Deploy s) CodeRuntimeUnsupport) (\<lambda>_.
     case options of
       None \<Rightarrow> raise (Fault CodeInvalidRequest)
     | Some (Inl _) \<Rightarrow> raise (Fault CodeInvalidRequest)
     | Some (Inr releaseID) \<Rightarrow>
         andthen (cat_get (\<lambda>db. GetApplication db appRef)) (\<lambda>app.
         andthen (cat_get (\<lambda>db. GetRelease db releaseID)) (\<lambda>release.
         andthen (guard_io (RelApplicationID release = AppID app) CodeReleaseNotFound) (\<lambda>_.
         give (AppID app)))))"

section \<open>Steps both ways share\<close>

definition materializeIfMissing ::
  "'h Adapters \<Rightarrow> ApplicationSpec \<Rightarrow> string \<Rightarrow> string \<Rightarrow> string \<Rightarrow> ('h, unit) act" where
  "materializeIfMissing ad spec releaseID artifactID op =
     andthen (call (RlList (releases_of ad) spec)) (\<lambda>existing.
     if releaseID \<in> set existing then appendLog op ''info'' PhaseExecute
     else andthen (Download (artifacts_of ad) artifactID) (\<lambda>(artifact, reader).
          andthen (appendLog op ''info'' PhaseExecute) (\<lambda>_.
          call (RlMaterialize (releases_of ad) spec releaseID reader))))"

text \<open>The loop of \<open>waitForReady\<close>: every turn that goes on moves the clock by the polling interval.\<close>

function ready_loop ::
  "'h RuntimeAdapter \<Rightarrow> ApplicationSpec \<Rightarrow> Slot \<Rightarrow> time \<Rightarrow> 'h World \<Rightarrow> (fault + unit) \<times> 'h World" where
  "ready_loop rt spec slot deadline w =
     (case call (RtHealth rt spec slot) w of
        (Inl err, w1) \<Rightarrow> (Inl err, w1)
      | (Inr health, w1) \<Rightarrow>
          if Ready health then (Inr (), w1)
          else case now_io w1 of
            (_, w2) \<Rightarrow>
              if deadline < clock w2 then (Inl (Fault CodeRuntimeNotReady), w2)
              else case sleep readyPollInterval w2 of
                (Inr True, w3) \<Rightarrow> ready_loop rt spec slot deadline w3
              | (_, w3) \<Rightarrow> (Inl (Fault CodeExecCancelled), w3))"
  by pat_completeness auto

lemma poll_positive: "0 < readyPollInterval"
  by (simp add: readyPollInterval_def duration_defs)

lemma poll_progress:
  assumes "(r, w1) = call m w" "(t, w2) = now_io w1" "\<not> deadline < clock w2" "(Inr True, w3) = sleep readyPollInterval w2"
  shows "clock w < deadline + readyPollInterval" "clock w < clock w3"
  using call_fields(3) [OF assms(1) [symmetric]] now_fields(4) [OF assms(2) [symmetric]]
    sleep_fields(5) [OF assms(4) [symmetric]] assms(3) poll_positive by simp_all

termination ready_loop
  by (relation "measure (\<lambda>(rt, spec, slot, deadline, w). nat (deadline + readyPollInterval - clock w))")
    (auto intro: poll_progress)

declare ready_loop.simps [simp del]

definition waitForReady ::
  "'h Adapters \<Rightarrow> ApplicationSpec \<Rightarrow> Slot \<Rightarrow> string \<Rightarrow> ('h, unit) act" where
  "waitForReady ad spec slot op =
     (let declared = StartTimeout (SpHealth spec);
          timeout = (if declared \<le> 0 then DefaultStartTimeout else declared)
      in andthen now_io (\<lambda>now.
         andthen (appendLog op ''info'' PhaseExecute) (\<lambda>_.
         andthen (ready_loop (runtime_of ad) spec slot (now + timeout)) (\<lambda>_.
         appendLog op ''info'' PhaseExecute))))"

definition remove_failed :: "'h Adapters \<Rightarrow> ApplicationSpec \<Rightarrow> string \<Rightarrow> ('h, unit) act" where
  "remove_failed ad spec releaseID =
     (if Materializes spec then ignoring (call (RlRemove (releases_of ad) spec releaseID)) else give ())"

definition mark_failed :: "'h DeployService \<Rightarrow> string \<Rightarrow> fault \<Rightarrow> ('h, unit) act" where
  "mark_failed s releaseID cause =
     ignoring (andthen now_io (\<lambda>now.
       cat_do (\<lambda>db. FailRelease db releaseID (CodeOf cause) (MessageOf s cause) now)))"

primrec prune_loop :: "'h Adapters \<Rightarrow> ApplicationSpec \<Rightarrow> string list \<Rightarrow> ('h, unit) act" where
  "prune_loop ad spec [] = give ()"
| "prune_loop ad spec (i # ids) =
     andthen
       (attempt (call (RlRemove (releases_of ad) spec i)) (\<lambda>_. give ()) (\<lambda>_.
        ignoring (andthen now_io (\<lambda>now. cat_do (\<lambda>db. MarkReleaseRemoved db i now)))))
       (\<lambda>_. prune_loop ad spec ids)"

definition pruneReleases :: "'h Adapters \<Rightarrow> ApplicationSpec \<Rightarrow> string \<Rightarrow> ('h, unit) act" where
  "pruneReleases ad spec op =
     attempt (cat_get (\<lambda>db. GetApplication db (SpApplication spec))) (\<lambda>_. give ()) (\<lambda>app.
     attempt (cat_ask (\<lambda>db. ListReleases db (AppID app) maxReleaseScan)) (\<lambda>_. give ()) (\<lambda>rows.
     let removal = PlanReleaseRemoval rows (KeepLast spec)
     in andthen (prune_loop ad spec removal) (\<lambda>_.
        if removal \<noteq> [] then appendLog op ''info'' PhaseFinalize else give ())))"

section \<open>In place: stop, switch, start\<close>

definition restorePrevious ::
  "'h Adapters \<Rightarrow> ApplicationSpec \<Rightarrow> Release \<Rightarrow> ApplicationSpec \<Rightarrow> string \<Rightarrow> ('h, unit) act" where
  "restorePrevious ad current previous previousSpec op =
     andthen (appendLog op ''warn'' PhaseRollback) (\<lambda>_.
     andthen (call (RtStop (runtime_of ad) current NoSlot)) (\<lambda>_.
     andthen
       (if Materializes previousSpec then call (RlActivate (releases_of ad) previousSpec NoSlot (RelID previous))
        else give ()) (\<lambda>_.
     andthen (call (RtPrepare (runtime_of ad) previousSpec NoSlot)) (\<lambda>_.
     call (RtStart (runtime_of ad) previousSpec NoSlot)))))"

text \<open>Both calls are made; the error of the first one wins.\<close>

definition teardown :: "'h Adapters \<Rightarrow> ApplicationSpec \<Rightarrow> Slot \<Rightarrow> string \<Rightarrow> ('h, unit) act" where
  "teardown ad spec slot op =
     andthen (appendLog op ''warn'' PhaseRollback) (\<lambda>_.
     attempt (call (RtStop (runtime_of ad) spec slot))
       (\<lambda>stopErr. andthen (ignoring (call (RlDeactivate (releases_of ad) spec slot))) (\<lambda>_. raise stopErr))
       (\<lambda>_. call (RlDeactivate (releases_of ad) spec slot)))"

definition teardownFirstDeploy :: "'h Adapters \<Rightarrow> ApplicationSpec \<Rightarrow> string \<Rightarrow> ('h, unit) act" where
  "teardownFirstDeploy ad spec op = teardown ad spec NoSlot op"

text \<open>How far a deployment in place has got when it fails.\<close>

record Progress =
  switched :: bool
  stoppedPrevious :: bool

definition fail_single ::
  "'h DeployService \<Rightarrow> 'h Adapters \<Rightarrow> string \<Rightarrow> ApplicationSpec \<Rightarrow> (Release \<times> ApplicationSpec) option \<Rightarrow>
   string \<Rightarrow> Progress \<Rightarrow> fault \<Rightarrow> ('h, unit) act" where
  "fail_single s ad releaseID spec previous op pr cause =
     (let undone = ((switched pr \<or> stoppedPrevious pr) \<and> previous \<noteq> None \<or> switched pr);
          undo = (case previous of
              Some (prev, prevSpec) \<Rightarrow>
                if switched pr \<or> stoppedPrevious pr then restorePrevious ad spec prev prevSpec op else give ()
            | None \<Rightarrow> if switched pr then teardownFirstDeploy ad spec op else give ());
          conclude = (\<lambda>rollbackErr.
            andthen (remove_failed ad spec releaseID) (\<lambda>_.
            andthen (mark_failed s releaseID cause) (\<lambda>_.
            if rollbackErr then andthen (appendLog op ''error'' PhaseFinalize) (\<lambda>_. raise (Fault (CodeOf cause)))
            else if \<not> undone then andthen (appendLog op ''error'' PhaseFinalize) (\<lambda>_. raise (Fault (CodeOf cause)))
            else andthen (appendLog op ''warn'' PhaseFinalize) (\<lambda>_. raise (Fault CodeDeployRolledBack)))))
      in attempt undo (\<lambda>_. conclude True) (\<lambda>_. conclude False))"

definition apply_single ::
  "'h DeployService \<Rightarrow> 'h Adapters \<Rightarrow> Release \<Rightarrow> ApplicationSpec \<Rightarrow> (Release \<times> ApplicationSpec) option \<Rightarrow>
   string \<Rightarrow> ('h, unit) act" where
  "apply_single s ad release spec previous op =
     (let fail = fail_single s ad (RelID release) spec previous op;
          before = \<lparr>switched = False, stoppedPrevious = False\<rparr>;
          stopped = \<lparr>switched = False, stoppedPrevious = (previous \<noteq> None)\<rparr>;
          after = \<lparr>switched = Materializes spec, stoppedPrevious = (previous \<noteq> None)\<rparr>
      in andthen (appendLog op ''info'' PhaseValidate) (\<lambda>_.
         attempt (call (RtPrepare (runtime_of ad) spec NoSlot)) (fail before) (\<lambda>_.
         attempt
           (case previous of
              Some (_, prevSpec) \<Rightarrow> call (RtStop (runtime_of ad) prevSpec NoSlot)
            | None \<Rightarrow> give ()) (fail before) (\<lambda>_.
         attempt
           (if Materializes spec
            then andthen (materializeIfMissing ad spec (RelID release) (ArtifactID release) op) (\<lambda>_.
                 call (RlActivate (releases_of ad) spec NoSlot (RelID release)))
            else give ()) (fail stopped) (\<lambda>_.
         attempt (call (RtStart (runtime_of ad) spec NoSlot)) (fail after) (\<lambda>_.
         attempt (waitForReady ad spec NoSlot op) (fail after) (\<lambda>_.
         attempt (andthen now_io (\<lambda>now. cat_run (\<lambda>db.
             case ActivateRelease db (RelID release) now of (superseded, db') \<Rightarrow> (Inr superseded, db'))))
           (fail after) (\<lambda>superseded.
         andthen (appendLog op ''info'' PhaseFinalize) (\<lambda>_.
         pruneReleases ad spec op)))))))))"

end
