(* ===== verification/DeploySlot.thy ===== *)
theory DeploySlot
  imports Deploy
begin

text \<open>
  Blue-green deployments (\<open>internal/application/deploy_slot.go\<close>): the new slot is started beside the one
  that serves, traffic is switched, observed, and the old slot is drained and stopped; and the entry to
  both kinds of deployment (\<open>DeployService.apply\<close> of \<open>deploy.go\<close>).
\<close>

section \<open>The time line\<close>

definition slot_event ::
  "string \<Rightarrow> Slot \<Rightarrow> SlotEventKind \<Rightarrow> string \<Rightarrow> Release option \<Rightarrow> string \<Rightarrow> time \<Rightarrow> SlotEvent" where
  "slot_event app slot event detail release op now =
     \<lparr>SeApplicationID = app, SeSlot = slot,
      SeReleaseID = (case release of None \<Rightarrow> [] | Some r \<Rightarrow> RelID r),
      SeVersion = (case release of None \<Rightarrow> [] | Some r \<Rightarrow> RelVersion r),
      SeKind = event, SeDetail = detail, SeOperationID = op, SeAt = now\<rparr>"

text \<open>A failure is only logged.\<close>

definition appendSlotEvent ::
  "string \<Rightarrow> Slot \<Rightarrow> SlotEventKind \<Rightarrow> string \<Rightarrow> Release option \<Rightarrow> string \<Rightarrow> ('h, unit) act" where
  "appendSlotEvent app slot event detail release op =
     andthen now_io (\<lambda>now.
     ignoring (cat_try (\<lambda>db. AppendSlotEvent db (slot_event app slot event detail release op now))))"

section \<open>Observing and draining\<close>

text \<open>The loop of \<open>observeSlot\<close> returns the number of samples with the failure, if there was one.\<close>

function observe_loop ::
  "'h RuntimeAdapter \<Rightarrow> ApplicationSpec \<Rightarrow> Slot \<Rightarrow> time \<Rightarrow> nat \<Rightarrow> 'h World \<Rightarrow> (fault option \<times> nat) \<times> 'h World" where
  "observe_loop rt spec slot deadline samples w =
     (case call (RtHealth rt spec slot) w of
        (Inl err, w1) \<Rightarrow> ((Some err, samples), w1)
      | (Inr health, w1) \<Rightarrow>
          if \<not> Ready health then ((Some (Fault CodeRuntimeNotReady), Suc samples), w1)
          else case now_io w1 of
            (_, w2) \<Rightarrow>
              if \<not> clock w2 < deadline then ((None, Suc samples), w2)
              else case sleep readyPollInterval w2 of
                (Inr True, w3) \<Rightarrow> observe_loop rt spec slot deadline (Suc samples) w3
              | (_, w3) \<Rightarrow> ((Some (Fault CodeExecCancelled), Suc samples), w3))"
  by pat_completeness auto

lemma observe_progress:
  assumes "(r, w1) = call m w" "(t, w2) = now_io w1" "clock w2 < deadline" "(Inr True, w3) = sleep readyPollInterval w2"
  shows "clock w < deadline" "clock w < clock w3"
  using call_fields(3) [OF assms(1) [symmetric]] now_fields(4) [OF assms(2) [symmetric]]
    sleep_fields(5) [OF assms(4) [symmetric]] assms(3) poll_positive by simp_all

termination observe_loop
  by (relation "measure (\<lambda>(rt, spec, slot, deadline, n, w). nat (deadline - clock w))")
    (auto intro: observe_progress)

declare observe_loop.simps [simp del]

definition observeSlot :: "'h Adapters \<Rightarrow> ApplicationSpec \<Rightarrow> Slot \<Rightarrow> string \<Rightarrow> ('h, fault option \<times> nat) act" where
  "observeSlot ad spec slot op =
     (let seconds = ObservationSeconds (SpNginx spec)
      in if seconds \<le> 0 then give (None, 0)
         else andthen now_io (\<lambda>now.
              andthen (appendLog op ''info'' PhaseExecute) (\<lambda>_.
              andthen (\<lambda>w. case observe_loop (runtime_of ad) spec slot (now + seconds * second) 0 w of (r, w') \<Rightarrow> (Inr r, w'))
                (\<lambda>(failure, samples).
              andthen (if failure = None then appendLog op ''info'' PhaseExecute else give ()) (\<lambda>_.
              give (failure, samples))))))"

definition releaseIDOf :: "Release option \<Rightarrow> string" where
  "releaseIDOf r = (case r of None \<Rightarrow> [] | Some q \<Rightarrow> RelID q)"

definition drainAndStop ::
  "'h DeployService \<Rightarrow> 'h Adapters \<Rightarrow> ApplicationSpec \<Rightarrow> Slot \<Rightarrow> Release \<Rightarrow> string \<Rightarrow> string \<Rightarrow> ('h, unit) act" where
  "drainAndStop s ad previousSpec serving previous app op =
     (let drain = DrainSeconds (SpNginx previousSpec)
      in andthen
           (if 0 < drain
            then andthen (appendLog op ''info'' PhaseExecute) (\<lambda>_.
                 andthen (sleep (drain * second)) (\<lambda>slept.
                 if slept then give () else appendLog op ''warn'' PhaseExecute))
            else give ()) (\<lambda>_.
         attempt (call (RtStop (runtime_of ad) previousSpec serving))
           (\<lambda>_. appendLog op ''warn'' PhaseFinalize) (\<lambda>_.
         andthen
           (ignoring (andthen now_io (\<lambda>now.
              cat_try (\<lambda>db. PutApplicationSlot db app serving (RelID previous) SlotStopped None now)))) (\<lambda>_.
         appendSlotEvent app serving SlotEventStopped (Wording s SlotEventStopped) (Some previous) op))))"

section \<open>Switching back\<close>

definition switchTraffic ::
  "'h DeployService \<Rightarrow> 'h Adapters \<Rightarrow> 'h NginxAdapter \<Rightarrow> string \<Rightarrow> ApplicationSpec \<Rightarrow> Slot \<Rightarrow> Release \<Rightarrow> string \<Rightarrow> ('h, unit) act" where
  "switchTraffic s ad nx app previousSpec serving previous op =
     andthen (guard_io (Slot_Valid serving) CodeInternal) (\<lambda>_.
     andthen (appendLog op ''warn'' PhaseRollback) (\<lambda>_.
     andthen (call (NxApply nx previousSpec serving)) (\<lambda>_.
     andthen (call (RtStart (runtime_of ad) previousSpec serving)) (\<lambda>_.
     andthen (waitForReady ad previousSpec serving op) (\<lambda>_.
     appendSlotEvent app serving SlotEventSwitched (Wording s SlotEventSwitched) (Some previous) op)))))"

definition teardownSlot :: "'h Adapters \<Rightarrow> ApplicationSpec \<Rightarrow> Slot \<Rightarrow> string \<Rightarrow> ('h, unit) act" where
  "teardownSlot ad spec slot op = teardown ad spec slot op"

text \<open>How far a blue-green deployment has got, and what it knows.\<close>

record SlotProgress =
  started :: bool
  traffic :: bool
  observedSamples :: nat

record SlotRun =
  srApp :: string
  srRelease :: Release
  srSpec :: ApplicationSpec
  srServing :: Slot
  srTarget :: Slot
  srPrevious :: "(Release \<times> ApplicationSpec) option"
  srOp :: string

definition undo_slot :: "'h DeployService \<Rightarrow> 'h Adapters \<Rightarrow> 'h NginxAdapter \<Rightarrow> SlotRun \<Rightarrow> SlotProgress \<Rightarrow> ('h, unit) act" where
  "undo_slot s ad nx run pr =
     (if traffic pr then
        (case srPrevious run of
           Some (prev, prevSpec) \<Rightarrow> switchTraffic s ad nx (srApp run) prevSpec (srServing run) prev (srOp run)
         | None \<Rightarrow> teardownSlot ad (srSpec run) (srTarget run) (srOp run))
      else if started pr then
        attempt (teardownSlot ad (srSpec run) (srTarget run) (srOp run))
          (\<lambda>_. appendLog (srOp run) ''warn'' PhaseRollback) (\<lambda>_. give ())
      else give ())"

text \<open>The slot is marked as failed, the time line and the release too, and the directory goes.\<close>

definition record_failure :: "'h DeployService \<Rightarrow> 'h Adapters \<Rightarrow> SlotRun \<Rightarrow> nat \<Rightarrow> fault \<Rightarrow> ('h, unit) act" where
  "record_failure s ad run samples cause =
     andthen
       (ignoring (andthen now_io (\<lambda>now. cat_try (\<lambda>db.
          PutApplicationSlot db (srApp run) (srTarget run) (RelID (srRelease run)) SlotFailed None now)))) (\<lambda>_.
     andthen (appendSlotEvent (srApp run) (srTarget run) SlotEventFailed (FailureDetail s cause samples) (Some (srRelease run)) (srOp run)) (\<lambda>_.
     andthen (remove_failed ad (srSpec run) (RelID (srRelease run))) (\<lambda>_.
     mark_failed s (RelID (srRelease run)) cause)))"

definition fail_slot ::
  "'h DeployService \<Rightarrow> 'h Adapters \<Rightarrow> 'h NginxAdapter \<Rightarrow> SlotRun \<Rightarrow> SlotProgress \<Rightarrow> fault \<Rightarrow> ('h, unit) act" where
  "fail_slot s ad nx run pr cause =
     attempt (undo_slot s ad nx run pr)
       (\<lambda>_. andthen (record_failure s ad run (observedSamples pr) cause) (\<lambda>_.
            andthen (appendLog (srOp run) ''error'' PhaseFinalize) (\<lambda>_. raise (Fault (CodeOf cause)))))
       (\<lambda>_. andthen (record_failure s ad run (observedSamples pr) cause) (\<lambda>_.
            if traffic pr
            then andthen (appendLog (srOp run) ''warn'' PhaseFinalize) (\<lambda>_. raise (Fault CodeDeployRolledBack))
            else andthen (appendLog (srOp run) ''error'' PhaseFinalize) (\<lambda>_. raise (Fault (CodeOf cause)))))"

section \<open>Blue-green\<close>

definition promote_slot :: "SlotRun \<Rightarrow> ('h, unit) act" where
  "promote_slot run =
     andthen now_io (\<lambda>activated_at.
     andthen (cat_run (\<lambda>db. case ActivateRelease db (RelID (srRelease run)) activated_at of
        (superseded, db') \<Rightarrow> (Inr superseded, db'))) (\<lambda>_.
     andthen now_io (\<lambda>now.
     andthen (cat_try (\<lambda>db. SetServingSlot db (srApp run) (srTarget run) now)) (\<lambda>_.
     andthen (cat_try (\<lambda>db. PutApplicationSlot db (srApp run) (srTarget run) (RelID (srRelease run)) SlotServing (Some now) now)) (\<lambda>_.
     if Slot_Valid (srServing run)
     then cat_try (\<lambda>db. PutApplicationSlot db (srApp run) (srServing run)
            (releaseIDOf (map_option fst (srPrevious run))) SlotDraining None now)
     else give ())))))"

definition run_slot :: "'h DeployService \<Rightarrow> 'h Adapters \<Rightarrow> 'h NginxAdapter \<Rightarrow> SlotRun \<Rightarrow> ('h, unit) act" where
  "run_slot s ad nx run =
     (let spec = srSpec run; release = srRelease run; target = srTarget run; op = srOp run;
          fail = (\<lambda>up live n. fail_slot s ad nx run \<lparr>started = up, traffic = live, observedSamples = n\<rparr>)
      in andthen (appendLog op ''info'' PhaseValidate) (\<lambda>_.
         attempt (call (RtPrepare (runtime_of ad) spec target)) (fail False False 0) (\<lambda>_.
         attempt
           (if Materializes spec
            then andthen (materializeIfMissing ad spec (RelID release) (ArtifactID release) op) (\<lambda>_.
                 call (RlActivate (releases_of ad) spec target (RelID release)))
            else give ()) (fail False False 0) (\<lambda>_.
         attempt (call (RtStart (runtime_of ad) spec target)) (fail False False 0) (\<lambda>_.
         attempt (waitForReady ad spec target op) (fail True False 0) (\<lambda>_.
         attempt (call (NxApply nx spec target)) (fail True False 0) (\<lambda>_.
         andthen (appendLog op ''info'' PhaseExecute) (\<lambda>_.
         andthen (appendSlotEvent (srApp run) target SlotEventSwitched (Wording s SlotEventSwitched) (Some release) op) (\<lambda>_.
         andthen (observeSlot ad spec target op) (\<lambda>(failure, samples).
         case failure of
           Some cause \<Rightarrow> fail True True samples cause
         | None \<Rightarrow>
             andthen
               (if 0 < ObservationSeconds (SpNginx spec)
                then appendSlotEvent (srApp run) target SlotEventObserved (Wording s SlotEventObserved) (Some release) op
                else give ()) (\<lambda>_.
             attempt (promote_slot run) (fail True True samples) (\<lambda>_.
             andthen (appendLog op ''info'' PhaseFinalize) (\<lambda>_.
             andthen
               (case srPrevious run of
                  Some (prev, prevSpec) \<Rightarrow>
                    if Slot_Valid (srServing run)
                    then drainAndStop s ad prevSpec (srServing run) prev (srApp run) op else give ()
                | None \<Rightarrow> give ()) (\<lambda>_.
             pruneReleases ad spec op))))))))))))))"

text \<open>The previous release with the manifest it runs with.\<close>

definition previous_of :: "string \<Rightarrow> ('h, (Release \<times> ApplicationSpec) option) act" where
  "previous_of app =
     andthen (cat_ask (\<lambda>db. ActiveRelease db app)) (\<lambda>previous.
     case previous of
       None \<Rightarrow> give None
     | Some p \<Rightarrow>
         andthen (cat_get (\<lambda>db. GetApplicationSpecForRelease db (RelApplicationID p) (RelID p))) (\<lambda>spec.
         give (Some (p, spec))))"

definition applySlot ::
  "'h DeployService \<Rightarrow> 'h Adapters \<Rightarrow> Release \<Rightarrow> ApplicationSpec \<Rightarrow> string \<Rightarrow> ('h, unit) act" where
  "applySlot s ad release spec op =
     (case dsNginx s of
        None \<Rightarrow> raise (Fault CodeRuntimeUnsupport)
      | Some nx \<Rightarrow>
          andthen (call (NxValidate nx spec)) (\<lambda>_.
          andthen (cat_get (\<lambda>db. GetApplication db (RelApplicationID release))) (\<lambda>app.
          andthen (cat_get (\<lambda>db. ServingSlot db (AppID app))) (\<lambda>serving.
          let target = nextSlot serving
          in andthen (cat_try (\<lambda>db. SetReleaseSlot db (RelID release) target)) (\<lambda>_.
             andthen (previous_of (AppID app)) (\<lambda>previous.
             run_slot s ad nx
               \<lparr>srApp = AppID app, srRelease = release, srSpec = spec, srServing = serving, srTarget = target,
                srPrevious = previous, srOp = op\<rparr>))))))"

section \<open>Deployment and rollback\<close>

definition Deploy_apply :: "'h DeployService \<Rightarrow> 'h Adapters \<Rightarrow> string \<Rightarrow> string \<Rightarrow> ('h, unit) act" where
  "Deploy_apply s ad releaseID op =
     andthen (cat_get (\<lambda>db. GetRelease db releaseID)) (\<lambda>release.
     andthen (cat_get (\<lambda>db. GetApplicationSpecForRelease db (RelApplicationID release) releaseID)) (\<lambda>manifest.
     andthen (validated s manifest) (\<lambda>spec.
     andthen (previous_of (RelApplicationID release)) (\<lambda>previous.
     andthen now_io (\<lambda>now.
     andthen (cat_do (\<lambda>db. MarkReleaseDeploying db releaseID (ReleaseDir (SpApplication spec) releaseID))) (\<lambda>_.
     if BlueGreen spec then applySlot s ad release spec op
     else apply_single s ad release spec previous op))))))"

definition ExecuteDeploy :: "'h DeployService \<Rightarrow> 'h Adapters \<Rightarrow> string \<Rightarrow> string \<Rightarrow> ('h, unit) act" where
  "ExecuteDeploy s ad releaseID op = Deploy_apply s ad releaseID op"

definition ExecuteRollback :: "'h DeployService \<Rightarrow> 'h Adapters \<Rightarrow> string \<Rightarrow> string \<Rightarrow> ('h, unit) act" where
  "ExecuteRollback s ad releaseID op = Deploy_apply s ad releaseID op"

end
