(* ===== verification/Slots.thy ===== *)
theory Slots
  imports DeploySlot AppPaths
begin

text \<open>
  The slot service (\<open>internal/application/slots.go\<close>): the view of both slots of an application, its time
  line, and the reconciliation at start-up, which corrects the recorded state to what Nginx and the process
  manager say. Texts are not modelled; an application that was skipped and an error are recorded by the name
  of the application, and the slot where there is one.
\<close>

section \<open>The service\<close>

record 'h SlotService =
  ssRuntime :: "'h RuntimeAdapter option"
  ssNginx :: "'h NginxAdapter option"

text \<open>The manifest questions about slots are answered with: that of the active release, else the current one.\<close>

definition specFor :: "Application \<Rightarrow> ('h, ApplicationSpec) act" where
  "specFor app =
     andthen (cat_ask (\<lambda>db. ActiveRelease db (AppID app))) (\<lambda>current.
     case current of
       None \<Rightarrow> cat_get (\<lambda>db. GetApplicationSpec db (AppID app))
     | Some release \<Rightarrow>
         attempt (cat_get (\<lambda>db. GetApplicationSpecForRelease db (AppID app) (RelID release)))
           (\<lambda>err. if CodeOf err \<noteq> CodeSpecNotFound then raise err
                  else cat_get (\<lambda>db. GetApplicationSpec db (AppID app)))
           give)"

definition resolve_slots :: "string \<Rightarrow> ('h, Application \<times> ApplicationSpec) act" where
  "resolve_slots appRef =
     andthen (cat_get (\<lambda>db. GetApplication db appRef)) (\<lambda>app.
     andthen (specFor app) (\<lambda>spec.
     andthen (guard_io (BlueGreen spec) CodeInvalidRequest) (\<lambda>_.
     give (app, spec))))"

section \<open>The view\<close>

record SlotStatus =
  VsSlot :: Slot
  VsState :: "SlotState option"
  VsReleaseID :: string
  VsVersion :: string
  VsPorts :: "int list"
  VsUnitName :: string
  VsServing :: bool
  VsProcess :: RuntimeStatus
  VsProcessKnown :: bool
  VsReady :: bool
  VsReadyProbed :: bool
  VsSwitchedAt :: "time option"

record SlotView =
  SvApplication :: Application
  SvServingSlot :: Slot
  SvRecordedSlot :: Slot
  OnlineKnown :: bool
  Inconsistent :: bool
  SvSlots :: "SlotStatus list"

definition fillRuntime :: "'h SlotService \<Rightarrow> ApplicationSpec \<Rightarrow> SlotStatus \<Rightarrow> ('h, SlotStatus) act" where
  "fillRuntime s spec status =
     (case ssRuntime s of
        None \<Rightarrow> give status
      | Some rt \<Rightarrow>
          attempt (call (RtStatus rt spec (VsSlot status))) (\<lambda>_. give status) (\<lambda>process.
          let status = status\<lparr>VsProcess := process\<rparr>
          in if \<not> Running process then give status
             else attempt (call (RtHealth rt spec (VsSlot status))) (\<lambda>_. give status) (\<lambda>health.
                  give (status\<lparr>VsReady := Ready health, VsReadyProbed := True\<rparr>))))"

definition slot_line ::
  "'h SlotService \<Rightarrow> ApplicationSpec \<Rightarrow> ApplicationSlot list \<Rightarrow> Slot option \<Rightarrow> Slot \<Rightarrow> ('h, SlotStatus) act" where
  "slot_line s spec rows online slot =
     (let blank_line = \<lparr>VsSlot = slot, VsState = None, VsReleaseID = [], VsVersion = [],
            VsPorts = SlotPorts spec slot, VsUnitName = UnitNameFor spec slot, VsServing = (online = Some slot),
            VsProcess = RuntimeUnknown, VsProcessKnown = (ssRuntime s \<noteq> None), VsReady = False,
            VsReadyProbed = False, VsSwitchedAt = None\<rparr>
      in andthen
           (case find (\<lambda>q. AsSlot q = slot) (rev rows) of
              None \<Rightarrow> give blank_line
            | Some row \<Rightarrow>
                let line = blank_line\<lparr>VsState := Some (AsState row), VsReleaseID := AsReleaseID row, VsSwitchedAt := SwitchedAt row\<rparr>
                in if AsReleaseID row = [] then give line
                   else attempt (cat_get (\<lambda>db. GetRelease db (AsReleaseID row)))
                          (\<lambda>err. if CodeOf err \<noteq> CodeReleaseNotFound then raise err else give line)
                          (\<lambda>release. give (line\<lparr>VsVersion := RelVersion release\<rparr>)))
           (fillRuntime s spec))"

definition List_Slots :: "'h SlotService \<Rightarrow> string \<Rightarrow> ('h, SlotView) act" where
  "List_Slots s appRef =
     andthen (resolve_slots appRef) (\<lambda>(app, spec).
     andthen (cat_get (\<lambda>db. ServingSlot db (AppID app))) (\<lambda>recorded.
     andthen (cat_ask (\<lambda>db. ApplicationSlots db (AppID app))) (\<lambda>rows.
     andthen (case ssNginx s of
                None \<Rightarrow> give None
              | Some nx \<Rightarrow> andthen (call (NxCurrent nx spec)) (\<lambda>online. give (Some online))) (\<lambda>online.
     andthen (slot_line s spec rows online SlotBlue) (\<lambda>blue.
     andthen (slot_line s spec rows online SlotGreen) (\<lambda>green.
     give \<lparr>SvApplication = app, SvServingSlot = (case online of None \<Rightarrow> NoSlot | Some sl \<Rightarrow> sl),
           SvRecordedSlot = recorded, OnlineKnown = (online \<noteq> None),
           Inconsistent = (case online of None \<Rightarrow> False | Some sl \<Rightarrow> sl \<noteq> recorded),
           SvSlots = [blue, green]\<rparr>))))))"

definition History_Slots :: "string \<Rightarrow> int \<Rightarrow> ('h, Application \<times> SlotEvent list) act" where
  "History_Slots appRef limit =
     andthen (resolve_slots appRef) (\<lambda>(app, _).
     andthen (cat_ask (\<lambda>db. SlotEvents db (AppID app) limit)) (\<lambda>events.
     give (app, events)))"

section \<open>Reconciliation\<close>

datatype ReconcileField = ServingSlotField | SlotStateField

record SlotReconcileChange =
  ChApplication :: string
  ChField :: ReconcileField
  ChSlot :: Slot

record SlotReconcileResult =
  Checked :: nat
  Changes :: "SlotReconcileChange list"
  Skipped :: "string list"
  Errors :: "(string \<times> Slot option) list"

definition skipped :: "string \<Rightarrow> SlotReconcileResult \<Rightarrow> SlotReconcileResult" where
  "skipped app res = res\<lparr>Skipped := Skipped res @ [app]\<rparr>"

definition failed_on :: "string \<Rightarrow> Slot option \<Rightarrow> SlotReconcileResult \<Rightarrow> SlotReconcileResult" where
  "failed_on app slot res = res\<lparr>Errors := Errors res @ [(app, slot)]\<rparr>"

definition changed :: "string \<Rightarrow> ReconcileField \<Rightarrow> Slot \<Rightarrow> SlotReconcileResult \<Rightarrow> SlotReconcileResult" where
  "changed app field slot res = res\<lparr>Changes := Changes res @ [\<lparr>ChApplication = app, ChField = field, ChSlot = slot\<rparr>]\<rparr>"

text \<open>The state two facts imply, \<open>None\<close> when they do not say: the process, and the slot Nginx leads to.\<close>

definition expected_of :: "bool \<Rightarrow> RuntimeStatus \<Rightarrow> Slot \<Rightarrow> Slot \<Rightarrow> SlotState option" where
  "expected_of with_nginx process slot online =
     (if process = RuntimeUnknown then None
      else if process = RuntimeFailed \<or> process = RuntimeActivating \<or> process = RuntimeDeactivating then None
      else if \<not> Running process then Some SlotStopped
      else if \<not> with_nginx then None
      else if online = slot then Some SlotServing
      else Some SlotStandby)"

definition expectedState ::
  "'h SlotService \<Rightarrow> 'h RuntimeAdapter \<Rightarrow> ApplicationSpec \<Rightarrow> ApplicationSlot \<Rightarrow> Slot \<Rightarrow> ('h, SlotState option) act" where
  "expectedState s rt spec row online =
     andthen (call (RtStatus rt spec (AsSlot row))) (\<lambda>process.
     give (expected_of (ssNginx s \<noteq> None) process (AsSlot row) online))"

definition releaseOrNil :: "string \<Rightarrow> ('h, Release option) act" where
  "releaseOrNil i = attempt (cat_get (\<lambda>db. GetRelease db i)) (\<lambda>_. give None) (\<lambda>r. give (Some r))"

definition release_of_slot :: "ApplicationSlot list \<Rightarrow> Slot \<Rightarrow> ('h, Release option) act" where
  "release_of_slot rows slot =
     (case find (\<lambda>q. AsSlot q = slot \<and> AsReleaseID q \<noteq> []) rows of
        None \<Rightarrow> give None
      | Some row \<Rightarrow> releaseOrNil (AsReleaseID row))"

definition reconciled :: "string \<Rightarrow> ApplicationSlot list \<Rightarrow> Slot \<Rightarrow> ('h, unit) act" where
  "reconciled app rows slot =
     andthen (release_of_slot rows slot) (\<lambda>release.
     appendSlotEvent app slot SlotEventReconciled [] release [])"

text \<open>What Nginx says comes first; \<open>None\<close> stops the reconciliation of the application.\<close>

definition reconcile_serving ::
  "'h SlotService \<Rightarrow> Application \<Rightarrow> ApplicationSlot list \<Rightarrow> ApplicationSpec \<Rightarrow> time \<Rightarrow> SlotReconcileResult \<Rightarrow>
   ('h, Slot option \<times> SlotReconcileResult) act" where
  "reconcile_serving s app rows spec now res =
     (case ssNginx s of
        None \<Rightarrow> give (Some NoSlot, res)
      | Some nx \<Rightarrow>
          attempt (call (NxCurrent nx spec)) (\<lambda>_. give (None, failed_on (AppName app) None res)) (\<lambda>online.
          let res = res\<lparr>Checked := Suc (Checked res)\<rparr>
          in attempt (cat_get (\<lambda>db. ServingSlot db (AppID app)))
               (\<lambda>_. give (None, failed_on (AppName app) None res)) (\<lambda>recorded.
             if online = recorded then give (Some online, res)
             else attempt (cat_try (\<lambda>db. SetServingSlot db (AppID app) online now))
                    (\<lambda>_. give (None, failed_on (AppName app) None res)) (\<lambda>_.
                  andthen (reconciled (AppID app) rows online) (\<lambda>_.
                  give (Some online, changed (AppName app) ServingSlotField online res))))))"

primrec reconcile_rows ::
  "'h SlotService \<Rightarrow> 'h RuntimeAdapter \<Rightarrow> Application \<Rightarrow> ApplicationSlot list \<Rightarrow> ApplicationSpec \<Rightarrow> time \<Rightarrow> Slot \<Rightarrow>
   SlotReconcileResult \<Rightarrow> ApplicationSlot list \<Rightarrow> ('h, SlotReconcileResult) act" where
  "reconcile_rows s rt app all spec now online res [] = give res"
| "reconcile_rows s rt app all spec now online res (row # rest) =
     attempt (expectedState s rt spec row online)
       (\<lambda>_. reconcile_rows s rt app all spec now online (failed_on (AppName app) (Some (AsSlot row)) res) rest)
       (\<lambda>want. if want = None \<or> want = Some (AsState row) then reconcile_rows s rt app all spec now online res rest
         else attempt (cat_try (\<lambda>db. PutApplicationSlot db (AppID app) (AsSlot row) (AsReleaseID row) (the want) None now))
                (\<lambda>_. reconcile_rows s rt app all spec now online (failed_on (AppName app) (Some (AsSlot row)) res) rest)
                (\<lambda>_. andthen (reconciled (AppID app) all (AsSlot row)) (\<lambda>_.
                  reconcile_rows s rt app all spec now online (changed (AppName app) SlotStateField (AsSlot row) res) rest)))"

definition reconcileApplication ::
  "'h SlotService \<Rightarrow> string \<Rightarrow> SlotReconcileResult \<Rightarrow> ('h, SlotReconcileResult) act" where
  "reconcileApplication s i res =
     attempt (cat_get (\<lambda>db. GetApplication db i)) (\<lambda>_. give (skipped i res)) (\<lambda>app.
     attempt (cat_ask (\<lambda>db. ApplicationSlots db (AppID app))) (\<lambda>_. give (failed_on (AppName app) None res)) (\<lambda>rows.
     attempt (specFor app) (\<lambda>_. give (skipped (AppName app) res)) (\<lambda>spec.
     if \<not> BlueGreen spec then give (skipped (AppName app) res)
     else andthen now_io (\<lambda>now.
          andthen (reconcile_serving s app rows spec now res) (\<lambda>(online, res).
          case (online, ssRuntime s) of
            (Some sl, Some rt) \<Rightarrow> reconcile_rows s rt app rows spec now sl res rows
          | _ \<Rightarrow> give res)))))"

text \<open>The result so far is returned with the error.\<close>

primrec reconcile_all :: "'h SlotService \<Rightarrow> SlotReconcileResult \<Rightarrow> string list \<Rightarrow> ('h, SlotReconcileResult \<times> fault option) act" where
  "reconcile_all s res [] = give (res, None)"
| "reconcile_all s res (i # ids) =
     andthen (ask ctx_done) (\<lambda>over.
     if over then give (res, Some Interrupted)
     else andthen (reconcileApplication s i res) (\<lambda>res. reconcile_all s res ids))"

definition no_changes :: SlotReconcileResult where
  "no_changes = \<lparr>Checked = 0, Changes = [], Skipped = [], Errors = []\<rparr>"

definition Reconcile :: "'h SlotService \<Rightarrow> ('h, SlotReconcileResult \<times> fault option) act" where
  "Reconcile s =
     (if ssNginx s = None \<and> ssRuntime s = None then give (no_changes, None)
      else attempt (cat_ask ApplicationsWithSlots) (\<lambda>err. give (no_changes, Some err))
             (reconcile_all s no_changes))"

end
