(* ===== verification/DeployInv.thy ===== *)
theory DeployInv
  imports DeploySlot CatInv
begin

text \<open>
  What deployments do to the catalogue, whatever the adapters do, whichever calls fail and whenever the
  operation is cancelled. A computation goes along a relation when it relates the catalogue before and
  after; the relations of interest are reflexive and transitive, so that it is enough to look at the
  statements the services run.
\<close>

section \<open>Computations along a relation\<close>

definition along :: "(CatDb \<Rightarrow> CatDb \<Rightarrow> bool) \<Rightarrow> ('h, 'a) act \<Rightarrow> bool" where
  "along R m \<longleftrightarrow> (\<forall>w. R (cat w) (cat (snd (m w))))"

lemma alongD: "along R m \<Longrightarrow> m w = (r, w') \<Longrightarrow> R (cat w) (cat w')"
  unfolding along_def by (metis snd_conv)

lemma cat_ready_loop [simp]: "cat (snd (ready_loop rt spec slot deadline w)) = cat w"
proof (induction rt spec slot deadline w rule: ready_loop.induct)
  case (1 rt spec slot deadline w)
  then show ?case
    by (subst ready_loop.simps)
      (auto simp: call_fields(1) now_fields(1) sleep_fields(1) split: prod.splits sum.splits bool.splits)
qed

lemma cat_observe_loop [simp]: "cat (snd (observe_loop rt spec slot deadline n w)) = cat w"
proof (induction rt spec slot deadline n w rule: observe_loop.induct)
  case (1 rt spec slot deadline n w)
  then show ?case
    by (subst observe_loop.simps)
      (auto simp: call_fields(1) now_fields(1) sleep_fields(1) split: prod.splits sum.splits bool.splits)
qed

locale catalogue_relation =
  fixes R :: "CatDb \<Rightarrow> CatDb \<Rightarrow> bool"
  assumes refl: "R c c" and trans: "R a b \<Longrightarrow> R b c \<Longrightarrow> R a c"
begin

lemma along_same: "(\<And>w. cat (snd (m w)) = cat w) \<Longrightarrow> along R m"
  by (simp add: along_def refl)

lemma along_attempt: "along R m \<Longrightarrow> (\<And>e. along R (h e)) \<Longrightarrow> (\<And>x. along R (k x)) \<Longrightarrow> along R (attempt m h k)"
  unfolding along_def attempt_def
proof (intro allI)
  fix w
  assume m: "\<forall>w. R (cat w) (cat (snd (m w)))" and h: "\<And>e. \<forall>w. R (cat w) (cat (snd (h e w)))"
    and k: "\<And>x. \<forall>w. R (cat w) (cat (snd (k x w)))"
  obtain r w1 where "m w = (r, w1)" by fastforce
  then have "R (cat w) (cat w1)" using m [rule_format, of w] by simp
  then show "R (cat w) (cat (snd (case m w of (Inl e, s') \<Rightarrow> h e s' | (Inr x, s') \<Rightarrow> k x s')))"
    using h k trans \<open>m w = (r, w1)\<close> by (cases r) auto
qed

lemma along_raise: "along R (raise e)" and along_give: "along R (give x)"
  by (simp_all add: along_same io_defs)

lemma along_andthen: "along R m \<Longrightarrow> (\<And>x. along R (k x)) \<Longrightarrow> along R (andthen m k)"
  unfolding andthen_def by (rule along_attempt) (auto intro: along_raise)

lemma along_ignoring: "along R m \<Longrightarrow> along R (ignoring m)"
  unfolding ignoring_def by (rule along_attempt) (auto intro: along_give)

lemma along_reads:
  "along R now_io" "along R (sleep d)" "along R (call m)" "along R (guard_io b e)"
  "along R (ask_code (\<lambda>_. x))" "along R (cat_get f)" "along R (cat_ask g)"
proof -
  show "along R now_io" by (rule along_same) (simp add: now_io_def Let_def)
  show "along R (sleep d)" by (rule along_same) (simp add: sleep_def Let_def split: option.split)
  show "along R (call m)" by (rule along_same) (simp add: call_def split: prod.split)
  show "along R (guard_io b e)" by (rule along_same) (simp add: io_defs)
  show "along R (ask_code (\<lambda>_. x))" by (rule along_same) (simp add: ask_code_def split: sum.split)
  show "along R (cat_get f)" by (rule along_same) (simp add: cat_get_def with_ctx_def ask_code_def split: sum.split)
  show "along R (cat_ask g)" by (rule along_same) (simp add: cat_ask_def with_ctx_def ask_def)
qed

lemma along_ops: "along R (ops_try f)"
  by (rule along_same) (simp add: ops_try_def split: sum.split)

lemma along_with_ctx: "along R m \<Longrightarrow> along R (with_ctx m)"
  by (auto simp: along_def with_ctx_def refl)

lemma along_writes:
  "(\<And>c. R c (f c)) \<Longrightarrow> along R (cat_do f)"
  "(\<And>c. R c (snd (g c))) \<Longrightarrow> along R (cat_try g)"
  "(\<And>c. R c (snd (k c))) \<Longrightarrow> along R (cat_run k)"
proof -
  show "along R (cat_do f)" if "\<And>c. R c (f c)"
    unfolding cat_do_def by (rule along_with_ctx) (simp add: along_def io_defs that)
  have "R c c'" if "\<And>c. R c (snd (g c))" "g c = (x, c')" for c x c'
    using that(1) [of c] that(2) by simp
  then show "along R (cat_try g)" if "\<And>c. R c (snd (g c))"
    unfolding cat_try_def using that
    by (intro along_with_ctx) (auto simp: along_def split: prod.split option.split)
  have "R c c'" if "\<And>c. R c (snd (k c))" "k c = (x, c')" for c x c'
    using that(1) [of c] that(2) by simp
  then show "along R (cat_run k)" if "\<And>c. R c (snd (k c))"
    unfolding cat_run_def using that
    by (intro along_with_ctx) (auto simp: along_def split: prod.split sum.split)
qed

lemma along_appendLog: "along R (appendLog op level phase)"
  unfolding appendLog_def by (intro along_andthen along_ignoring along_reads along_ops)

lemma along_loops:
  "along R (ready_loop rt spec slot deadline)"
  "along R (\<lambda>w. case observe_loop rt spec slot deadline n w of (r, w') \<Rightarrow> (Inr r, w'))"
proof -
  show "along R (ready_loop rt spec slot deadline)" by (rule along_same) simp
  have "cat w' = cat w" if "observe_loop rt spec slot deadline n w = (r, w')" for r w w'
    using cat_observe_loop [of rt spec slot deadline n w] that by simp
  then show "along R (\<lambda>w. case observe_loop rt spec slot deadline n w of (r, w') \<Rightarrow> (Inr r, w'))"
    by (intro along_same) (simp split: prod.split)
qed

lemma along_if: "(b \<Longrightarrow> along R m) \<Longrightarrow> (\<not> b \<Longrightarrow> along R n) \<Longrightarrow> along R (if b then m else n)"
  by simp

lemma along_option:
  "along R m \<Longrightarrow> (\<And>x. along R (k x)) \<Longrightarrow> along R (case y of None \<Rightarrow> m | Some x \<Rightarrow> k x)"
  by (cases y) simp_all

lemma along_pair: "(\<And>a b. along R (k a b)) \<Longrightarrow> along R (case p of (a, b) \<Rightarrow> k a b)"
  by (cases p) simp

lemma along_some_pair:
  "along R m \<Longrightarrow> (\<And>a b. along R (k a b)) \<Longrightarrow> along R (case y of None \<Rightarrow> m | Some (a, b) \<Rightarrow> k a b)"
  by (cases y) auto

lemmas along_rules = along_give along_raise along_andthen along_attempt along_ignoring along_reads along_appendLog
  along_loops along_if along_option along_pair along_some_pair along_writes

end

section \<open>Deployments along a relation\<close>

text \<open>A relation that every statement of a deployment but the two that make a release the current one respects.\<close>

locale recording_relation = catalogue_relation +
  assumes deploying: "R c (MarkReleaseDeploying c i dir)"
    and failing: "R c (FailRelease c i code msg t)"
    and removing: "R c (MarkReleaseRemoved c i t)"
    and release_slot: "R c (snd (SetReleaseSlot c i sl))"
    and put_slot: "R c (snd (PutApplicationSlot c app sl i st sw t))"
    and event: "R c (snd (AppendSlotEvent c ev))"
    and creating: "RelStatus r = ReleaseCreated \<Longrightarrow> R c (snd (CreateRelease c r))"
    and put_spec: "R c (snd (PutApplicationSpecForRelease c app i spec))"
begin

lemma along_Download: "along R (Download a ref)"
  unfolding Download_def Verify_def requireStore_def by (intro along_rules)

lemma along_materialize: "along R (materializeIfMissing ad spec i art op)"
  unfolding materializeIfMissing_def by (intro along_rules along_Download)

lemma along_waitForReady: "along R (waitForReady ad spec slot op)"
  unfolding waitForReady_def Let_def by (intro along_rules)

lemma along_remove_failed: "along R (remove_failed ad spec i)"
  unfolding remove_failed_def by (intro along_rules)

lemma along_mark_failed: "along R (mark_failed s i cause)"
  unfolding mark_failed_def by (intro along_rules failing)

lemma along_prune_loop: "along R (prune_loop ad spec ids)"
  by (induction ids) (auto intro!: along_rules removing)

lemma along_prune: "along R (pruneReleases ad spec op)"
  unfolding pruneReleases_def Let_def by (intro along_rules along_prune_loop)

lemma along_teardown: "along R (teardown ad spec slot op)"
  unfolding teardown_def by (intro along_rules)

lemma along_restore: "along R (restorePrevious ad spec prev prevSpec op)"
  unfolding restorePrevious_def by (intro along_rules)

lemma along_fail_single: "along R (fail_single s ad i spec previous op pr cause)"
  unfolding fail_single_def Let_def teardownFirstDeploy_def
  by (intro along_rules along_restore along_teardown along_remove_failed along_mark_failed)

lemma along_slot_event: "along R (appendSlotEvent app slot kd detail release op)"
  unfolding appendSlotEvent_def by (intro along_rules event)

lemma along_switchTraffic: "along R (switchTraffic s ad nx app prevSpec sl prev op)"
  unfolding switchTraffic_def by (intro along_rules along_waitForReady along_slot_event)

lemma along_undo_slot: "along R (undo_slot s ad nx run pr)"
  unfolding undo_slot_def teardownSlot_def by (intro along_rules along_switchTraffic along_teardown)

lemma along_record_failure: "along R (record_failure s ad run n cause)"
  unfolding record_failure_def by (intro along_rules put_slot along_slot_event along_remove_failed along_mark_failed)

lemma along_fail_slot: "along R (fail_slot s ad nx run pr cause)"
  unfolding fail_slot_def by (intro along_rules along_undo_slot along_record_failure)

lemma along_observeSlot: "along R (observeSlot ad spec slot op)"
  unfolding observeSlot_def Let_def by (intro along_rules)

lemma along_drain: "along R (drainAndStop s ad prevSpec sl prev app op)"
  unfolding drainAndStop_def Let_def by (intro along_rules put_slot along_slot_event)

lemma along_previous: "along R (previous_of app)"
  unfolding previous_of_def by (intro along_rules)

lemma along_validated: "along R (validated s spec)"
  unfolding validated_def by (rule along_reads)

lemma along_targetSlot: "along R (targetSlotFor app spec)"
  unfolding targetSlotFor_def by (intro along_rules)

lemma along_PrepareDeploy: "along R (PrepareDeploy s i ref given by)"
  unfolding PrepareDeploy_def Let_def
  by (intro along_rules along_validated along_targetSlot put_spec creating) (simp add: new_release_def)

lemma along_PrepareRollback: "along R (PrepareRollback s ref version)"
  unfolding PrepareRollback_def by (intro along_rules along_targetSlot)

end

text \<open>One that the activation and the switch of the serving slot respect as well.\<close>

locale deployment_relation = recording_relation +
  assumes activating: "R c (snd (ActivateRelease c i t))"
    and serving: "R c (snd (SetServingSlot c app sl t))"
begin

lemma activating_run: "R c (snd (case ActivateRelease c i now of (n, db') \<Rightarrow> (Inr n, db')))"
  using activating [of c i now] by (cases "ActivateRelease c i now") simp

lemma along_activation:
  "along R (andthen now_io (\<lambda>now. cat_run (\<lambda>db. case ActivateRelease db i now of (n, db') \<Rightarrow> (Inr n, db'))))"
  by (intro along_rules activating_run)

lemma along_apply_single: "along R (apply_single s ad release spec previous op)"
  unfolding apply_single_def Let_def
  by (intro along_rules along_fail_single along_materialize along_waitForReady along_activation along_prune)

lemma along_promote: "along R (promote_slot run)"
  unfolding promote_slot_def by (intro along_rules activating_run serving put_slot)

lemma along_run_slot: "along R (run_slot s ad nx run)"
  unfolding run_slot_def Let_def
  by (intro along_rules along_fail_slot along_materialize along_waitForReady along_slot_event along_observeSlot
      along_promote along_drain along_prune)

lemma along_applySlot: "along R (applySlot s ad release spec op)"
  unfolding applySlot_def Let_def by (intro along_rules release_slot along_previous along_run_slot)

lemma along_Deploy_apply: "along R (Deploy_apply s ad i op)"
  unfolding Deploy_apply_def
  by (intro along_rules along_validated along_previous deploying along_applySlot along_apply_single)

end

section \<open>Every deployment is a sequence of statements of the store\<close>

lemma cat_steps: "cat_step c c' \<Longrightarrow> cat_step\<^sup>*\<^sup>* c c'"
  by (rule r_into_rtranclp)

interpretation catalogue_steps: deployment_relation "cat_step\<^sup>*\<^sup>*"
proof unfold_locales
  fix a b c assume "cat_step\<^sup>*\<^sup>* a b" "cat_step\<^sup>*\<^sup>* b c"
  then show "cat_step\<^sup>*\<^sup>* a c" by (rule rtranclp_trans)
qed (auto intro!: cat_steps cat_step.intros)

section \<open>Which release is active\<close>

definition active_id :: "CatDb \<Rightarrow> string \<Rightarrow> string option" where
  "active_id c app = map_option RelID (ActiveRelease c app)"

lemma active_id_iff:
  assumes "cat_inv c"
  shows "active_id c app = Some i \<longleftrightarrow> (\<exists>r \<in> set (releases c). active_in app r \<and> RelID r = i)"
proof
  assume "active_id c app = Some i"
  then obtain r where r: "ActiveRelease c app = Some r" "RelID r = i" by (auto simp: active_id_def)
  then have "r \<in> set (filter (\<lambda>q. RelApplicationID q = app \<and> RelStatus q = ReleaseActive) (releases c))"
    unfolding ActiveRelease_def by (elim first_newest_in)
  then show "\<exists>r \<in> set (releases c). active_in app r \<and> RelID r = i" using r(2) by (auto simp: active_in_def)
next
  assume "\<exists>r \<in> set (releases c). active_in app r \<and> RelID r = i"
  then obtain r where "r \<in> set (releases c)" "active_in app r" "RelID r = i" by blast
  then have "ActiveRelease c app = Some r" using cat_inv_parts(1,2) [OF assms] by (intro ActiveRelease_unique)
  then show "active_id c app = Some i" by (simp add: active_id_def \<open>RelID r = i\<close>)
qed

lemma active_id_eq:
  assumes "cat_inv c" "cat_inv c'"
    and "\<And>i. (\<exists>r \<in> set (releases c'). active_in app r \<and> RelID r = i) \<longleftrightarrow> (\<exists>r \<in> set (releases c). active_in app r \<and> RelID r = i)"
  shows "active_id c' app = active_id c app"
  using assms active_id_iff by (metis option.exhaust)

text \<open>A change that keeps the invariant, the rows with their application, which ones are active, and the
  slots that serve.\<close>

definition owner_of :: "CatDb \<Rightarrow> string \<Rightarrow> string option" where
  "owner_of c i = map_option RelApplicationID (find (\<lambda>q. RelID q = i) (releases c))"

definition quiet :: "CatDb \<Rightarrow> CatDb \<Rightarrow> bool" where
  "quiet c c' \<longleftrightarrow> serving_slot c' = serving_slot c \<and> (cat_inv c \<longrightarrow> cat_inv c' \<and> active_id c' = active_id c
     \<and> (\<forall>i app. owner_of c i = Some app \<longrightarrow> owner_of c' i = Some app))"

lemma quietI:
  assumes "cat_step c c'" and "serving_slot c' = serving_slot c"
    and "\<And>app i. cat_inv c \<Longrightarrow> (\<exists>r \<in> set (releases c'). active_in app r \<and> RelID r = i) \<longleftrightarrow> (\<exists>r \<in> set (releases c). active_in app r \<and> RelID r = i)"
    and "\<And>i app. owner_of c i = Some app \<Longrightarrow> owner_of c' i = Some app"
  shows "quiet c c'"
  unfolding quiet_def
proof (intro impI conjI allI)
  assume inv: "cat_inv c"
  show inv': "cat_inv c'" using cat_step_inv [OF assms(1) inv] .
  show "active_id c' = active_id c" by (rule ext, rule active_id_eq [OF inv inv']) (rule assms(3) [OF inv])
qed (rule assms(2,4))+

lemma quiet_same:
  "cat_step c c' \<Longrightarrow> releases c' = releases c \<Longrightarrow> serving_slot c' = serving_slot c \<Longrightarrow> quiet c c'"
  by (rule quietI) (auto simp: owner_of_def)

lemma find_map_key:
  "(\<And>q. RelID (f q) = RelID q) \<Longrightarrow> find (\<lambda>q. RelID q = i) (map f rows) = map_option f (find (\<lambda>q. RelID q = i) rows)"
  by (induction rows) auto

lemma quiet_update:
  assumes "cat_step c (update_releases c p f)"
    and "\<And>q. RelID (f q) = RelID q" "\<And>q. RelApplicationID (f q) = RelApplicationID q"
    and "\<And>q. p q \<Longrightarrow> RelStatus (f q) = ReleaseActive \<longleftrightarrow> RelStatus q = ReleaseActive"
  shows "quiet c (update_releases c p f)"
proof (rule quietI [OF assms(1)])
  show "serving_slot (update_releases c p f) = serving_slot c" by (simp add: update_releases_def)
  let ?g = "\<lambda>q. if p q then f q else q"
  have g: "RelID (?g q) = RelID q" "active_in app (?g q) = active_in app q" for q app
    using assms(2-4) by (auto simp: active_in_def)
  fix app i
  have "set (releases (update_releases c p f)) = ?g ` set (releases c)"
    by (simp add: update_releases_def update_where_def)
  then show "(\<exists>r \<in> set (releases (update_releases c p f)). active_in app r \<and> RelID r = i) \<longleftrightarrow> (\<exists>r \<in> set (releases c). active_in app r \<and> RelID r = i)"
    by (simp only: g bex_simps image_iff)
next
  fix i app assume own: "owner_of c i = Some app"
  let ?g = "\<lambda>q. if p q then f q else q"
  have g: "RelID (?g q) = RelID q" "RelApplicationID (?g q) = RelApplicationID q" for q using assms(2,3) by auto
  have "find (\<lambda>q. RelID q = i) (map ?g (releases c)) = map_option ?g (find (\<lambda>q. RelID q = i) (releases c))"
    by (rule find_map_key, rule g)
  then show "owner_of (update_releases c p f) i = Some app"
    using own g(2) unfolding owner_of_def update_releases_def update_where_def
    by (simp add: option.map_comp comp_def)
qed

lemma quiet_deploying: "quiet c (MarkReleaseDeploying c i dir)"
  using cat_step.deploying [of c i dir] unfolding MarkReleaseDeploying_def by (intro quiet_update) auto

lemma quiet_fail: "quiet c (FailRelease c i code msg t)"
  using cat_step.fail [of c i code msg t] unfolding FailRelease_def by (intro quiet_update) auto

lemma quiet_remove: "quiet c (MarkReleaseRemoved c i t)"
  using cat_step.remove [of c i t] unfolding MarkReleaseRemoved_def by (intro quiet_update) auto

interpretation quietly: recording_relation quiet
proof unfold_locales
  show "quiet c c" for c by (simp add: quiet_def)
  show "quiet a b \<Longrightarrow> quiet b c \<Longrightarrow> quiet a c" for a b c by (auto simp: quiet_def)
  show "quiet c (MarkReleaseDeploying c i dir)" "quiet c (FailRelease c i code msg t)" "quiet c (MarkReleaseRemoved c i t)"
    for c i dir code msg t by (rule quiet_deploying quiet_fail quiet_remove)+
  show "quiet c (snd (SetReleaseSlot c i sl))" for c i sl
  proof (cases "sl \<noteq> NoSlot \<and> \<not> Slot_Valid sl")
    case True
    then show ?thesis by (simp add: SetReleaseSlot_def quiet_def)
  next
    case False
    then have "snd (SetReleaseSlot c i sl) = update_releases c (\<lambda>q. RelID q = i) (\<lambda>q. q\<lparr>RelSlot := sl\<rparr>)"
      by (auto simp: SetReleaseSlot_def)
    then show ?thesis using quiet_update [of c "\<lambda>q. RelID q = i" "\<lambda>q. q\<lparr>RelSlot := sl\<rparr>"] cat_step.release_slot [of c i sl] by simp
  qed
  show "quiet c (snd (PutApplicationSlot c app sl i st sw t))" for c app sl i st sw t
    by (rule quiet_same [OF cat_step.put_slot]) (simp_all add: PutApplicationSlot_def split: sum.split)
  show "quiet c (snd (AppendSlotEvent c ev))" for c ev
    by (rule quiet_same [OF cat_step.event]) (simp_all add: AppendSlotEvent_def split: sum.split)
  show "quiet c (snd (PutApplicationSpecForRelease c app i spec))" for c app i spec
    by (rule quiet_same [OF cat_step.put_release_spec]) (simp_all add: PutApplicationSpecForRelease_def putSpec_def split: sum.split)
  show "quiet c (snd (CreateRelease c r))" if "RelStatus r = ReleaseCreated" for c r
  proof (rule quietI)
    show "cat_step c (snd (CreateRelease c r))" using that by (intro cat_step.create_release) simp
    show "serving_slot (snd (CreateRelease c r)) = serving_slot c"
      by (simp add: CreateRelease_def Let_def split: option.split sum.split)
    have rows: "releases (snd (CreateRelease c r)) = releases c
        \<or> (\<exists>q. RelStatus q \<noteq> ReleaseActive \<and> releases (snd (CreateRelease c r)) = releases c @ [q])"
      using that by (auto simp: CreateRelease_def Let_def split: option.split sum.split)
    show "(\<exists>q \<in> set (releases (snd (CreateRelease c r))). active_in app q \<and> RelID q = i) \<longleftrightarrow> (\<exists>q \<in> set (releases c). active_in app q \<and> RelID q = i)" for app i
      using rows by (auto simp: active_in_def)
    have app: "find P xs = Some x \<Longrightarrow> find P (xs @ ys) = Some x" for P and xs ys :: "Release list" and x
      by (induction xs) (auto split: if_splits)
    show "owner_of (snd (CreateRelease c r)) i = Some app" if "owner_of c i = Some app" for i app
      using rows that app by (auto simp: owner_of_def)
  qed
qed


section \<open>Computations that never fail and computations that always do\<close>

definition settles :: "('h, 'a) act \<Rightarrow> bool" where
  "settles m \<longleftrightarrow> (\<forall>w. \<exists>x. fst (m w) = Inr x)"

definition always_fails :: "('h, 'a) act \<Rightarrow> bool" where
  "always_fails m \<longleftrightarrow> (\<forall>w. \<exists>e. fst (m w) = Inl e)"

lemma settles_give: "settles (give x)"
  by (simp add: settles_def give_def)

lemma settles_attempt: "(\<And>e. settles (h e)) \<Longrightarrow> (\<And>x. settles (k x)) \<Longrightarrow> settles (attempt m h k)"
  unfolding settles_def attempt_def by (auto split: prod.split sum.split)

lemma settles_andthen: "settles m \<Longrightarrow> (\<And>x. settles (k x)) \<Longrightarrow> settles (andthen m k)"
  unfolding settles_def andthen_def attempt_def
  by (metis (no_types, lifting) fst_conv old.prod.case old.sum.simps(6) surj_pair)

lemma settles_ignoring: "settles (ignoring m)"
  unfolding ignoring_def by (intro settles_attempt settles_give)

lemma settles_now: "settles now_io"
  by (simp add: settles_def now_io_def Let_def)

lemma settles_log: "settles (appendLog op level phase)"
  unfolding appendLog_def by (intro settles_andthen settles_now settles_ignoring)

lemma settles_prune_loop: "settles (prune_loop ad spec ids)"
  by (induction ids) (auto intro!: settles_give settles_andthen settles_attempt settles_ignoring)

lemma settles_prune: "settles (pruneReleases ad spec op)"
  unfolding pruneReleases_def Let_def
  by (auto intro!: settles_attempt settles_give settles_andthen settles_prune_loop settles_log)

lemma always_raise: "always_fails (raise e)"
  by (simp add: always_fails_def raise_def)

lemma always_attempt: "(\<And>e. always_fails (h e)) \<Longrightarrow> (\<And>x. always_fails (k x)) \<Longrightarrow> always_fails (attempt m h k)"
  unfolding always_fails_def attempt_def by (auto split: prod.split sum.split)

lemma always_andthen: "(\<And>x. always_fails (k x)) \<Longrightarrow> always_fails (andthen m k)"
  unfolding andthen_def by (intro always_attempt always_raise)

lemma always_if: "always_fails m \<Longrightarrow> always_fails n \<Longrightarrow> always_fails (if b then m else n)"
  by simp

lemmas always_rules = always_raise always_attempt always_andthen always_if

lemma fail_single_fails: "always_fails (fail_single s ad i spec previous op pr cause)"
  unfolding fail_single_def Let_def by (intro always_rules)

lemma fail_slot_fails: "always_fails (fail_slot s ad nx run pr cause)"
  unfolding fail_slot_def by (intro always_rules)

end
