(* ===== verification/DeployProps.thy ===== *)
theory DeployProps
  imports DeployInv
begin

text \<open>
  How deployments end (\<open>internal/application/deploy.go\<close>, \<open>deploy_slot.go\<close>): which release is active and
  which slot serves, on success and on every failure.
\<close>

section \<open>What a release has to do with the state\<close>

definition stage :: "(string \<Rightarrow> string option) \<Rightarrow> (string \<Rightarrow> Slot) \<Rightarrow> string \<Rightarrow> string \<Rightarrow> 'h World \<Rightarrow> bool" where
  "stage act srv app i w \<longleftrightarrow> cat_inv (cat w) \<and> active_id (cat w) = act \<and> serving_slot (cat w) = srv
     \<and> owner_of (cat w) i = Some app"

lemma stage_quiet:
  assumes "along quiet m"
  shows "contract (stage act srv app i) m (\<lambda>_. stage act srv app i) (\<lambda>_. stage act srv app i)"
proof -
  have "stage act srv app i w'" if "stage act srv app i w" "m w = (r, w')" for w r w'
    using alongD [OF assms that(2)] that(1) by (auto simp: quiet_def stage_def)
  then show ?thesis by (intro contractI)
qed

lemma contract_settles: "settles m \<Longrightarrow> contract P m Q E \<Longrightarrow> contract P m Q E'"
  unfolding settles_def contract_def by (metis (mono_tags, lifting) case_prod_beta fst_conv prod.collapse old.sum.simps(6))

lemma contract_fails: "always_fails m \<Longrightarrow> contract P m Q E \<Longrightarrow> contract P m Q' E"
  unfolding always_fails_def contract_def by (metis (mono_tags, lifting) case_prod_beta fst_conv prod.collapse old.sum.simps(5))

lemma stage_settles:
  "along quiet m \<Longrightarrow> settles m \<Longrightarrow> contract (stage act srv app i) m (\<lambda>_. stage act srv app i) E"
  by (rule contract_settles) (auto intro: stage_quiet)

lemma stage_fails:
  "along quiet m \<Longrightarrow> always_fails m \<Longrightarrow> contract (stage act srv app i) m Q (\<lambda>_. stage act srv app i)"
  by (rule contract_fails) (auto intro: stage_quiet)

lemma owner_of_release:
  "owner_of c i = Some app \<longleftrightarrow> (\<exists>r. find (\<lambda>q. RelID q = i) (releases c) = Some r \<and> RelApplicationID r = app)"
  by (auto simp: owner_of_def)

lemma activation_active_id:
  assumes "cat_inv c" "owner_of c i = Some app"
  shows "active_id (snd (ActivateRelease c i t)) = (active_id c)(app \<mapsto> i)"
proof (rule ext)
  obtain r where f: "find (\<lambda>q. RelID q = i) (releases c) = Some r" and app: "RelApplicationID r = app"
    using assms(2) by (auto simp: owner_of_release)
  then have r: "GetRelease c i = Inr r" by (simp add: GetRelease_def)
  have i: "RelID r = i" using f find_RelID [OF cat_inv_parts(1) [OF assms(1)]] by simp
  fix a
  show "active_id (snd (ActivateRelease c i t)) a = ((active_id c)(app \<mapsto> i)) a"
  proof (cases "a = app")
    case True
    then show ?thesis using ActivateRelease_active [OF assms(1) r, of t] app i by (simp add: active_id_def activated_def)
  next
    case False
    have "active_id (snd (ActivateRelease c i t)) a = active_id c a"
    proof (rule active_id_eq [OF assms(1) ActivateRelease_inv [OF assms(1)]])
      fix j
      have "active_in a q \<and> q \<in> set (releases d) \<longleftrightarrow> active_in a q \<and> q \<in> set (filter (\<lambda>q. RelApplicationID q \<noteq> RelApplicationID r) (releases d))"
        for q d using False app by (auto simp: active_in_def)
      then show "(\<exists>q \<in> set (releases (snd (ActivateRelease c i t))). active_in a q \<and> RelID q = j)
          \<longleftrightarrow> (\<exists>q \<in> set (releases c). active_in a q \<and> RelID q = j)"
        using ActivateRelease_others [OF assms(1) r, of t] by metis
    qed
    then show ?thesis using False by simp
  qed
qed

lemma activation_stage:
  assumes "stage act srv app i w"
  shows "stage (act(app \<mapsto> i)) srv app i (w\<lparr>cat := snd (ActivateRelease (cat w) i t)\<rparr>)"
proof -
  have inv: "cat_inv (cat w)" and own: "owner_of (cat w) i = Some app" using assms by (simp_all add: stage_def)
  then obtain r where f: "find (\<lambda>q. RelID q = i) (releases (cat w)) = Some r" and app: "RelApplicationID r = app"
    by (auto simp: owner_of_release)
  have "RelID (after_activation app i t q) = RelID q" "RelApplicationID (after_activation app i t q) = RelApplicationID q" for q
    by (auto simp: after_activation_def activated_def)
  then have "owner_of (snd (ActivateRelease (cat w) i t)) i = Some app"
    using f app unfolding owner_of_def ActivateRelease_rows [OF f] by (simp add: find_map_key)
  moreover have "serving_slot (snd (ActivateRelease (cat w) i t)) = serving_slot (cat w)"
    by (simp add: ActivateRelease_def Let_def update_releases_def split: option.split)
  ultimately show ?thesis
    using assms activation_active_id [OF inv own, of t] ActivateRelease_inv [OF inv, of i t] by (simp add: stage_def)
qed

lemma stage_activation:
  "contract (stage act srv app i)
     (cat_run (\<lambda>db. case ActivateRelease db i now of (n, db') \<Rightarrow> (Inr n, db')))
     (\<lambda>_. stage (act(app \<mapsto> i)) srv app i) (\<lambda>_. stage act srv app i)"
proof (rule contractI)
  fix w x w'
  assume w: "stage act srv app i w"
    and m: "cat_run (\<lambda>db. case ActivateRelease db i now of (n, db') \<Rightarrow> (Inr n, db')) w = (Inr x, w')"
  then have "w' = w\<lparr>cat := snd (ActivateRelease (cat w) i now)\<rparr>"
    by (auto simp: cat_run_def with_ctx_def split: if_splits prod.splits)
  then show "stage (act(app \<mapsto> i)) srv app i w'" using activation_stage [OF w] by simp
next
  fix w e w'
  assume "stage act srv app i w" "cat_run (\<lambda>db. case ActivateRelease db i now of (n, db') \<Rightarrow> (Inr n, db')) w = (Inl e, w')"
  then show "stage act srv app i w'" by (auto simp: cat_run_def with_ctx_def split: if_splits prod.splits)
qed

section \<open>In place\<close>

lemmas quiet_rules = quietly.along_reads quietly.along_appendLog quietly.along_prune quietly.along_materialize
  quietly.along_waitForReady quietly.along_fail_single quietly.along_fail_slot quietly.along_slot_event
  quietly.along_observeSlot quietly.along_drain quietly.along_give quietly.along_raise

lemma single_step:
  assumes "along quiet m" "\<And>x. contract (stage act srv app i) (k x) Q (\<lambda>_. stage act srv app i)"
  shows "contract (stage act srv app i) (attempt m (fail_single s ad i spec previous op pr) k) Q (\<lambda>_. stage act srv app i)"
  by (rule contract_attempt [OF stage_quiet [OF assms(1)] assms(2)])
    (rule stage_fails [OF quietly.along_fail_single fail_single_fails])

lemma apply_single_stage:
  "contract (stage act srv app (RelID release)) (apply_single s ad release spec previous op)
     (\<lambda>_. stage (act(app \<mapsto> RelID release)) srv app (RelID release)) (\<lambda>_. stage act srv app (RelID release))"
proof -
  let ?P = "stage act srv app (RelID release)" and ?Q = "stage (act(app \<mapsto> RelID release)) srv app (RelID release)"
  have last: "contract ?Q (andthen (appendLog op l ph) (\<lambda>_. pruneReleases ad spec op)) (\<lambda>_. ?Q) (\<lambda>_. ?P)" for l ph
    by (rule contract_andthen [OF stage_settles stage_settles])
      (rule quiet_rules settles_log settles_prune)+
  have act: "contract ?P (andthen now_io (\<lambda>now. cat_run (\<lambda>db. case ActivateRelease db (RelID release) now of (n, db') \<Rightarrow> (Inr n, db'))))
      (\<lambda>_. ?Q) (\<lambda>_. ?P)"
    by (rule contract_andthen [OF stage_settles stage_activation]) (rule quiet_rules settles_now)+
  show ?thesis
    unfolding apply_single_def Let_def
    apply (rule contract_andthen [OF stage_settles [OF quietly.along_appendLog settles_log]])
    apply (rule single_step, rule quietly.along_reads)
    apply (rule single_step, rule quietly.along_some_pair [OF quietly.along_give quietly.along_reads(3)])
    apply (rule single_step, intro quietly.along_if quietly.along_andthen quietly.along_give quietly.along_reads(3) quietly.along_materialize)
    apply (rule single_step, rule quietly.along_reads)
    apply (rule single_step, rule quietly.along_waitForReady)
    apply (rule contract_attempt [OF act last])
    apply (rule stage_fails [OF quietly.along_fail_single fail_single_fails])
    done
qed

section \<open>Blue-green\<close>

text \<open>How a blue-green deployment may be left: as before, with the release active but the old slot still
  recorded as the serving one, or switched.\<close>

definition left_over ::
  "(string \<Rightarrow> string option) \<Rightarrow> (string \<Rightarrow> Slot) \<Rightarrow> string \<Rightarrow> string \<Rightarrow> string \<Rightarrow> Slot \<Rightarrow> 'h World \<Rightarrow> bool" where
  "left_over act srv app i a target w \<longleftrightarrow> stage act srv app i w \<or> stage (act(app \<mapsto> i)) srv app i w
     \<or> stage (act(app \<mapsto> i)) (srv(a := target)) app i w"

lemma stage_left_over: "stage act srv app i w \<Longrightarrow> left_over act srv app i a target w"
  by (simp add: left_over_def)

lemma stage_conseq:
  "contract (stage act srv app i) m Q (\<lambda>_. stage act srv app i) \<Longrightarrow>
   (\<And>w. stage act srv app i w \<Longrightarrow> F w) \<Longrightarrow> contract (stage act srv app i) m Q (\<lambda>_. F)"
  by (rule contract_conseq)

lemma contract_disj: "contract P m Q E \<Longrightarrow> contract P' m Q E \<Longrightarrow> contract (\<lambda>s. P s \<or> P' s) m Q E"
  unfolding contract_def by auto

lemma fail_slot_left_over:
  fixes ad :: "'h Adapters"
  shows "contract (left_over act srv app i a target) (fail_slot s ad nx run pr cause) Q (\<lambda>_. left_over act srv app i a target)"
proof -
  have "contract (stage act' srv' app i) (fail_slot s ad nx run pr cause) Q (\<lambda>_. left_over act srv app i a target)"
    if "\<And>w :: 'h World. stage act' srv' app i w \<Longrightarrow> left_over act srv app i a target w" for act' srv'
    by (rule stage_conseq [OF stage_fails [OF quietly.along_fail_slot fail_slot_fails]]) (rule that)
  then show ?thesis unfolding left_over_def by (intro contract_disj) (auto simp: left_over_def)
qed

lemma quiet_put_slot: "along quiet (cat_try (\<lambda>db. PutApplicationSlot db app slot i st sw now))"
  by (intro quietly.along_writes quietly.put_slot)

lemma SetServingSlot_quiet:
  assumes "cat_inv c" "SetServingSlot c a target now = (None, c')"
  shows "cat_inv c'" "active_id c' = active_id c" "serving_slot c' = (serving_slot c)(a := target)" "owner_of c' = owner_of c"
proof -
  have "cat_step c c'" using cat_step.serving [of c a target now] assms(2) by simp
  then show "cat_inv c'" using cat_step_inv assms(1) by blast
  have "releases c' = releases c" using assms(2) by (auto simp: SetServingSlot_def split: if_splits)
  then show "active_id c' = active_id c" "owner_of c' = owner_of c"
    by (auto simp: active_id_def ActiveRelease_def owner_of_def)
  show "serving_slot c' = (serving_slot c)(a := target)" using assms(2) by (auto simp: SetServingSlot_def split: if_splits)
qed

lemma SetServingSlot_error: "SetServingSlot c a target now = (Some e, c') \<Longrightarrow> c' = c"
  by (auto simp: SetServingSlot_def split: if_splits)

lemma stage_serving:
  "contract (stage act srv app i) (cat_try (\<lambda>db. SetServingSlot db a target now))
     (\<lambda>_. stage act (srv(a := target)) app i) (\<lambda>_. stage act srv app i)"
  by (rule contractI)
    (auto simp: cat_try_def with_ctx_def stage_def SetServingSlot_quiet dest: SetServingSlot_error
      split: if_splits prod.splits option.splits)

lemma promote_stage:
  assumes "RelID (srRelease run) = i"
  shows "contract (stage act srv app i) (promote_slot run)
    (\<lambda>_. stage (act(app \<mapsto> i)) (srv(srApp run := srTarget run)) app i)
    (\<lambda>_. left_over act srv app i (srApp run) (srTarget run))"
proof -
  let ?L = "left_over act srv app i (srApp run) (srTarget run)"
  have last: "contract (stage (act(app \<mapsto> i)) (srv(srApp run := srTarget run)) app i) m
      (\<lambda>_. stage (act(app \<mapsto> i)) (srv(srApp run := srTarget run)) app i) (\<lambda>_. ?L)"
    if "along quiet m" for m :: "('h, unit) act"
    by (rule stage_conseq [OF stage_quiet [OF that]]) (simp add: left_over_def)
  show ?thesis
    unfolding promote_slot_def assms
    apply (rule contract_andthen [OF stage_settles [OF quietly.along_reads(1) settles_now]])
    apply (rule contract_andthen [OF stage_conseq [OF stage_activation]], simp add: left_over_def)
    apply (rule contract_andthen [OF stage_settles [OF quietly.along_reads(1) settles_now]])
    apply (rule contract_andthen [OF stage_conseq [OF stage_serving]], simp add: left_over_def)
    apply (rule contract_andthen [OF last [OF quiet_put_slot]])
    apply (rule last, intro quietly.along_if quiet_put_slot quietly.along_give)
    done
qed

lemma slot_step:
  assumes "along quiet m"
    and "\<And>x. contract (stage act srv app i) (k x) Q (\<lambda>_. left_over act srv app i a target)"
  shows "contract (stage act srv app i) (attempt m (fail_slot s ad nx run pr) k) Q (\<lambda>_. left_over act srv app i a target)"
  by (rule contract_attempt [OF stage_quiet [OF assms(1)] assms(2)])
    (rule stage_conseq [OF stage_fails [OF quietly.along_fail_slot fail_slot_fails] stage_left_over])

lemma settles_sleep: "settles (sleep d)"
  by (auto simp: settles_def sleep_def Let_def split: option.split)

lemma settles_if: "settles m \<Longrightarrow> settles n \<Longrightarrow> settles (if b then m else n)"
  by simp

lemma settles_event: "settles (appendSlotEvent app slot kd detail release op)"
  unfolding appendSlotEvent_def by (intro settles_andthen settles_now settles_ignoring)

lemma settles_drain: "settles (drainAndStop s ad spec serving previous app op)"
  unfolding drainAndStop_def Let_def
  by (intro settles_if settles_andthen settles_attempt settles_log settles_sleep settles_give settles_event settles_ignoring)

lemma settles_observe: "settles (observeSlot ad spec slot op)"
  unfolding observeSlot_def Let_def
proof (intro settles_if settles_andthen settles_log settles_give settles_now)
  show "settles (\<lambda>w. case observe_loop rt spec slot d n w of (r, w') \<Rightarrow> (Inr r, w'))"
    for rt :: "'h RuntimeAdapter" and d n
    by (simp add: settles_def split: prod.split)
  show "settles (case p of (failure, samples) \<Rightarrow> andthen (if failure = None then appendLog op ''info'' PhaseExecute else give ())
      (\<lambda>_. give (failure, samples)))" for p :: "fault option \<times> nat"
    by (cases p) (auto intro!: settles_andthen settles_log settles_give)
qed

lemma quiet_link:
  "along quiet (if b then andthen (materializeIfMissing ad spec i art op) (\<lambda>_. call m) else give ())"
  by (intro quietly.along_if quietly.along_andthen quietly.along_materialize quietly.along_reads(3) quietly.along_give)

lemma run_slot_stage:
  assumes "RelID (srRelease run) = i"
  shows "contract (stage act srv app i) (run_slot s ad nx run)
    (\<lambda>_. stage (act(app \<mapsto> i)) (srv(srApp run := srTarget run)) app i)
    (\<lambda>_. left_over act srv app i (srApp run) (srTarget run))"
proof -
  let ?Q = "stage (act(app \<mapsto> i)) (srv(srApp run := srTarget run)) app i"
    and ?L = "left_over act srv app i (srApp run) (srTarget run)"
  have end_drain: "contract ?Q
      (case srPrevious run of None \<Rightarrow> give ()
       | Some (prev, prevSpec) \<Rightarrow> if Slot_Valid (srServing run)
           then drainAndStop s ad prevSpec (srServing run) prev (srApp run) (srOp run) else give ())
      (\<lambda>_. ?Q) (\<lambda>_. ?L)"
    by (auto intro!: stage_settles quietly.along_drain settles_drain quietly.along_give settles_give split: option.split)
  have observed: "contract (stage act srv app i)
      (if b then appendSlotEvent ap sl kd d r op else give ()) (\<lambda>_. stage act srv app i) (\<lambda>_. ?L)" for b ap sl kd d r op
    by (auto intro!: stage_settles quietly.along_slot_event settles_event quietly.along_give settles_give)
  show ?thesis
    unfolding run_slot_def Let_def
    apply (rule contract_andthen [OF stage_settles [OF quietly.along_appendLog settles_log]])
    apply (rule slot_step, rule quietly.along_reads)
    apply (rule slot_step, rule quiet_link)
    apply (rule slot_step, rule quietly.along_reads)
    apply (rule slot_step, rule quietly.along_waitForReady)
    apply (rule slot_step, rule quietly.along_reads)
    apply (rule contract_andthen [OF stage_settles [OF quietly.along_appendLog settles_log]])
    apply (rule contract_andthen [OF stage_settles [OF quietly.along_slot_event settles_event]])
    apply (rule contract_andthen [OF stage_settles [OF quietly.along_observeSlot settles_observe]])
    subgoal for _ _ _ _ _ _ _ _ res
    proof (cases res)
      case (Pair failure samples)
      show ?thesis
      proof (cases failure)
        case (Some cause)
        then show ?thesis unfolding Pair
          by (simp add: stage_conseq [OF stage_fails [OF quietly.along_fail_slot fail_slot_fails] stage_left_over])
      next
        case None
        show ?thesis unfolding Pair None prod.case option.case
          apply (rule contract_andthen [OF observed])
          apply (rule contract_attempt [OF promote_stage [OF assms]])
           apply (rule contract_andthen [OF stage_settles [OF quietly.along_appendLog settles_log]])
           apply (rule contract_andthen [OF end_drain])
           apply (rule stage_settles [OF quietly.along_prune settles_prune])
          apply (rule fail_slot_left_over)
          done
      qed
    qed
    done
qed

section \<open>Deployments\<close>

text \<open>Until the release is marked the catalogue is only read.\<close>

interpretation reading: catalogue_relation "(=)"
  by unfold_locales auto

definition frozen :: "CatDb \<Rightarrow> 'h World \<Rightarrow> bool" where "frozen c w \<longleftrightarrow> cat w = c"

lemma frozen_along: "along (=) m \<Longrightarrow> contract (frozen c) m (\<lambda>_. frozen c) (\<lambda>_. frozen c)"
  by (auto intro!: contractI simp: frozen_def dest: alongD)

lemma frozen_get: "contract (frozen c) (cat_get f) (\<lambda>x w. frozen c w \<and> f c = Inr x) (\<lambda>_. frozen c)"
  by (rule contractI) (auto simp: cat_get_def with_ctx_def ask_code_def frozen_def split: if_splits sum.splits)

lemma frozen_conj: "(b \<Longrightarrow> contract (frozen c) m Q E) \<Longrightarrow> contract (\<lambda>w. frozen c w \<and> b) m Q E"
  unfolding contract_def by auto

lemma reading_previous: "along (=) (previous_of app)"
  unfolding previous_of_def by (intro reading.along_rules)

lemma reading_validated: "along (=) (validated s spec)"
  unfolding validated_def by (rule reading.along_reads)

lemma frozen_step:
  assumes "along (=) m" "\<And>x. contract (frozen c) (k x) Q E" "\<And>e w. frozen c w \<Longrightarrow> E e w"
  shows "contract (frozen c) (andthen m k) Q E"
proof (rule contract_andthen [OF _ assms(2)])
  show "contract (frozen c) m (\<lambda>_. frozen c) E"
    by (rule contract_conseq [OF frozen_along [OF assms(1)]]) (auto intro: assms(3))
qed

lemma frozen_read:
  assumes "\<And>x. f c = Inr x \<Longrightarrow> contract (frozen c) (k x) Q E" "\<And>e w. frozen c w \<Longrightarrow> E e w"
  shows "contract (frozen c) (andthen (cat_get f) k) Q E"
proof (rule contract_andthen)
  show "contract (frozen c) (cat_get f) (\<lambda>x w. frozen c w \<and> f c = Inr x) E"
    by (rule contract_conseq [OF frozen_get]) (auto intro: assms(2))
  show "contract (\<lambda>w. frozen c w \<and> f c = Inr x) (k x) Q E" for x by (intro frozen_conj assms(1))
qed

lemma stage_left_step:
  assumes "along quiet m" "\<And>x. contract (stage act srv app i) (k x) Q (\<lambda>_. left_over act srv app i a target)"
  shows "contract (stage act srv app i) (andthen m k) Q (\<lambda>_. left_over act srv app i a target)"
  by (rule contract_andthen [OF stage_conseq [OF stage_quiet [OF assms(1)] stage_left_over] assms(2)])

lemma applySlot_stage:
  assumes "stage act srv app (RelID release) w0" and "GetApplication (cat w0) (RelApplicationID release) = Inr a"
  shows "contract (frozen (cat w0)) (applySlot s ad release spec op)
    (\<lambda>_. stage (act(app \<mapsto> RelID release)) (srv(AppID a := nextSlot (srv (AppID a)))) app (RelID release))
    (\<lambda>_. left_over act srv app (RelID release) (AppID a) (nextSlot (srv (AppID a))))"
proof -
  let ?c = "cat w0" and ?i = "RelID release"
  let ?L = "left_over act srv app ?i (AppID a) (nextSlot (srv (AppID a)))"
  have stage: "stage act srv app ?i w" if "frozen ?c w" for w :: "'h World"
    using assms(1) that by (simp add: stage_def frozen_def)
  have srv: "ServingSlot ?c (AppID a) = Inr x \<Longrightarrow> x = srv (AppID a)" for x
    using assms(1) by (simp add: ServingSlot_def stage_def split: if_splits)
  show ?thesis
  proof (cases "dsNginx s")
    case None
    then show ?thesis by (simp add: applySlot_def contract_raise stage_left_over stage)
  next
    case (Some nx)
    show ?thesis unfolding applySlot_def Some option.case Let_def
    proof (rule frozen_step [OF reading.along_reads(3)], rule frozen_read)
      fix b assume "GetApplication ?c (RelApplicationID release) = Inr b"
      then have b: "b = a" using assms(2) by simp
      show "contract (frozen ?c) (andthen (cat_get (\<lambda>db. ServingSlot db (AppID b))) (\<lambda>serving.
           andthen (cat_try (\<lambda>db. SetReleaseSlot db ?i (nextSlot serving))) (\<lambda>_.
           andthen (previous_of (AppID b)) (\<lambda>previous.
           run_slot s ad nx \<lparr>srApp = AppID b, srRelease = release, srSpec = spec, srServing = serving,
             srTarget = nextSlot serving, srPrevious = previous, srOp = op\<rparr>))))
         (\<lambda>_. stage (act(app \<mapsto> ?i)) (srv(AppID a := nextSlot (srv (AppID a)))) app ?i) (\<lambda>_. ?L)"
        unfolding b
      proof (rule frozen_read)
        fix serving assume "ServingSlot ?c (AppID a) = Inr serving"
        then have sv: "serving = srv (AppID a)" by (rule srv)
        show "contract (frozen ?c)
           (andthen (cat_try (\<lambda>db. SetReleaseSlot db ?i (nextSlot serving))) (\<lambda>_.
            andthen (previous_of (AppID a)) (\<lambda>previous.
            run_slot s ad nx \<lparr>srApp = AppID a, srRelease = release, srSpec = spec, srServing = serving,
              srTarget = nextSlot serving, srPrevious = previous, srOp = op\<rparr>)))
           (\<lambda>_. stage (act(app \<mapsto> ?i)) (srv(AppID a := nextSlot (srv (AppID a)))) app ?i) (\<lambda>_. ?L)"
          unfolding sv
        proof (rule contract_conseq [where P = "stage act srv app ?i"])
          show "contract (stage act srv app ?i)
             (andthen (cat_try (\<lambda>db. SetReleaseSlot db ?i (nextSlot (srv (AppID a))))) (\<lambda>_.
              andthen (previous_of (AppID a)) (\<lambda>previous.
              run_slot s ad nx \<lparr>srApp = AppID a, srRelease = release, srSpec = spec, srServing = srv (AppID a),
                srTarget = nextSlot (srv (AppID a)), srPrevious = previous, srOp = op\<rparr>)))
             (\<lambda>_. stage (act(app \<mapsto> ?i)) (srv(AppID a := nextSlot (srv (AppID a)))) app ?i) (\<lambda>_. ?L)"
          proof (rule stage_left_step [OF quietly.along_writes(2) [OF quietly.release_slot]],
              rule stage_left_step [OF quietly.along_previous])
            fix previous
            let ?run = "\<lparr>srApp = AppID a, srRelease = release, srSpec = spec, srServing = srv (AppID a),
                srTarget = nextSlot (srv (AppID a)), srPrevious = previous, srOp = op\<rparr>"
            show "contract (stage act srv app ?i) (run_slot s ad nx ?run)
               (\<lambda>_. stage (act(app \<mapsto> ?i)) (srv(AppID a := nextSlot (srv (AppID a)))) app ?i) (\<lambda>_. ?L)"
              using run_slot_stage [of ?run ?i act srv app s ad nx] by (simp del: fun_upd_apply)
          qed
        qed (auto intro: stage)
      qed (auto intro: stage stage_left_over)
    qed (auto intro: stage stage_left_over)
  qed
qed

text \<open>The manifest a deployment of the release runs with.\<close>

definition manifest_of :: "'h DeployService \<Rightarrow> CatDb \<Rightarrow> Release \<Rightarrow> ErrorCode + ApplicationSpec" where
  "manifest_of s c release =
     (case GetApplicationSpecForRelease c (RelApplicationID release) (RelID release) of
        Inl e \<Rightarrow> Inl e
      | Inr manifest \<Rightarrow> ApplicationSpec_Validate (dsUrls s) manifest)"

lemma Deploy_apply_stage:
  fixes s :: "'h DeployService" and ad :: "'h Adapters"
  assumes inv: "cat_inv c" and r: "GetRelease c i = Inr rel" and m: "manifest_of s c rel = Inr spec"
    and a: "GetApplication c (RelApplicationID rel) = Inr a"
  shows "contract (frozen c) (Deploy_apply s ad i op)
    (\<lambda>_. stage ((active_id c)(RelApplicationID rel \<mapsto> i))
          (if BlueGreen spec then (serving_slot c)(AppID a := nextSlot (serving_slot c (AppID a))) else serving_slot c)
          (RelApplicationID rel) i)
    (\<lambda>_. if BlueGreen spec
         then left_over (active_id c) (serving_slot c) (RelApplicationID rel) i (AppID a) (nextSlot (serving_slot c (AppID a)))
         else stage (active_id c) (serving_slot c) (RelApplicationID rel) i)"
    (is "contract _ _ ?Q ?E")
proof -
  let ?app = "RelApplicationID rel"
  let ?stage = "stage (active_id c) (serving_slot c) ?app i :: 'h World \<Rightarrow> bool"
  have i: "RelID rel = i" using r find_RelID [OF cat_inv_parts(1) [OF inv]] by (simp add: GetRelease_def)
  have stage: "?stage w" if "frozen c w" for w :: "'h World"
    using that inv r i by (auto simp: stage_def frozen_def GetRelease_def owner_of_def)
  then have E: "?E e w" if "frozen c w" for e and w :: "'h World"
    using that stage_left_over [of "active_id c" "serving_slot c" ?app i w] by auto
  let ?mark = "\<lambda>db. MarkReleaseDeploying db i (ReleaseDir (SpApplication spec) i)"
  have marked: "contract (frozen c) (cat_do ?mark) (\<lambda>_ w. frozen (?mark c) w \<and> ?stage w) ?E"
  proof (rule contractI)
    fix w w' :: "'h World" and x assume w: "frozen c w" and d: "cat_do ?mark w = (Inr x, w')"
    then have "cat w' = ?mark c" by (auto simp: cat_do_def with_ctx_def update_io_def frozen_def split: if_splits)
    moreover have "?stage w'"
      using contract_Inr [OF stage_quiet [OF quietly.along_writes(1) [OF quietly.deploying]] stage [OF w] d] .
    ultimately show "frozen (?mark c) w' \<and> ?stage w'" by (simp add: frozen_def)
  next
    fix w w' :: "'h World" and e assume "frozen c w" "cat_do ?mark w = (Inl e, w')"
    then show "?E e w'" using E by (auto simp: cat_do_def with_ctx_def update_io_def split: if_splits)
  qed
  have a': "GetApplication (?mark c) ?app = Inr a"
    using a by (simp add: GetApplication_def MarkReleaseDeploying_def update_releases_def)
  have run: "contract (\<lambda>w. frozen (?mark c) w \<and> ?stage w)
      (if BlueGreen spec then applySlot s ad rel spec op else apply_single s ad rel spec previous op) ?Q ?E" for previous
  proof (cases "BlueGreen spec")
    case True
    have "contract (\<lambda>w'. frozen (?mark c) w' \<and> w' = w) (applySlot s ad rel spec op) ?Q ?E"
      if "frozen (?mark c) w" "?stage w" for w :: "'h World"
      using applySlot_stage [of "active_id c" "serving_slot c" ?app rel w a s ad spec op] that a' i True
      by (auto simp: frozen_def contract_def)
    then show ?thesis using True unfolding contract_def by auto
  next
    case False
    then show ?thesis using apply_single_stage [of "active_id c" "serving_slot c" ?app rel s ad spec previous op] i
      by (auto elim!: contract_conseq)
  qed
  have "contract (frozen c) (andthen (validated s manifest) k) ?Q ?E"
    if "ApplicationSpec_Validate (dsUrls s) manifest = Inr spec" "contract (frozen c) (k spec) ?Q ?E" for manifest k
    using that by (simp add: contract_def andthen_def attempt_def validated_def ask_code_def)
  note validated = this
  show ?thesis unfolding Deploy_apply_def
  proof (rule frozen_read)
    fix rel' assume "GetRelease c i = Inr rel'"
    then have rel': "rel' = rel" using r by simp
    show "contract (frozen c) (andthen (cat_get (\<lambda>db. GetApplicationSpecForRelease db (RelApplicationID rel') i)) (\<lambda>manifest.
        andthen (validated s manifest) (\<lambda>spec. andthen (previous_of (RelApplicationID rel')) (\<lambda>previous.
        andthen now_io (\<lambda>now. andthen (cat_do (\<lambda>db. MarkReleaseDeploying db i (ReleaseDir (SpApplication spec) i))) (\<lambda>_.
        if BlueGreen spec then applySlot s ad rel' spec op else apply_single s ad rel' spec previous op)))))) ?Q ?E"
      unfolding rel'
    proof (rule frozen_read)
      fix manifest assume "GetApplicationSpecForRelease c ?app i = Inr manifest"
      then have "ApplicationSpec_Validate (dsUrls s) manifest = Inr spec" using m i by (simp add: manifest_of_def)
      then show "contract (frozen c) (andthen (validated s manifest) (\<lambda>spec. andthen (previous_of ?app) (\<lambda>previous.
          andthen now_io (\<lambda>now. andthen (cat_do (\<lambda>db. MarkReleaseDeploying db i (ReleaseDir (SpApplication spec) i))) (\<lambda>_.
          if BlueGreen spec then applySlot s ad rel spec op else apply_single s ad rel spec previous op))))) ?Q ?E"
        by (rule validated)
          (rule frozen_step [OF reading_previous], rule frozen_step [OF reading.along_reads(1)],
           rule contract_andthen [OF marked run], (erule E)+)
    qed (rule E)
  qed (rule E)
qed

section \<open>Waiting\<close>

lemma sleep_uncancelled: "cancel_at w = None \<Longrightarrow> sleep d w = (Inr True, w\<lparr>clock := clock w + max 0 d\<rparr>)"
  by (simp add: sleep_def Let_def)

lemma ready_loop_never_ready:
  assumes "\<forall>done h. \<exists>health h'. RtHealth rt spec slot done h = (Inr health, h') \<and> \<not> Ready health" and "cancel_at w = None"
  shows "\<exists>w'. ready_loop rt spec slot deadline w = (Inl (Fault CodeRuntimeNotReady), w') \<and> deadline < clock w' \<and> cancel_at w' = None"
  using assms
proof (induction rt spec slot deadline w rule: ready_loop.induct)
  case (1 rt spec slot deadline w)
  obtain health h' where h: "RtHealth rt spec slot (ctx_done w) (host w) = (Inr health, h')" "\<not> Ready health"
    using 1(2) by blast
  let ?w1 = "w\<lparr>host := h'\<rparr>"
  have c: "call (RtHealth rt spec slot) w = (Inr health, ?w1)" using h(1) by (simp add: call_def)
  obtain t w2 where n: "now_io ?w1 = (t, w2)" by fastforce
  have w2: "cancel_at w2 = None" using now_fields(3) [OF n] 1(3) by simp
  show ?case
  proof (cases "deadline < clock w2")
    case True
    then show ?thesis using c n h(2) w2 by (subst ready_loop.simps) simp
  next
    case False
    let ?w3 = "w2\<lparr>clock := clock w2 + max 0 readyPollInterval\<rparr>"
    have s: "sleep readyPollInterval w2 = (Inr True, ?w3)" by (rule sleep_uncancelled [OF w2])
    have "\<exists>w'. ready_loop rt spec slot deadline ?w3 = (Inl (Fault CodeRuntimeNotReady), w') \<and> deadline < clock w' \<and> cancel_at w' = None"
      using 1(1) [OF c [symmetric] refl h(2) n [symmetric] False s [symmetric] refl refl 1(2)] w2 by simp
    then show ?thesis using c n h(2) False s by (subst ready_loop.simps) simp
  qed
qed

lemma ready_loop_stop: "ready_loop (rt\<lparr>RtStop := stop\<rparr>) spec slot deadline w = ready_loop rt spec slot deadline w"
proof (induction rt spec slot deadline w rule: ready_loop.induct)
  case (1 rt spec slot deadline w)
  then show ?case
    by (subst (1 2) ready_loop.simps) (auto split: prod.splits sum.splits bool.splits)
qed

section \<open>A host that records the calls\<close>

definition did :: "string \<Rightarrow> bool \<Rightarrow> (string list, unit) io" where
  "did what stopped = (\<lambda>h. if stopped then (Inl Interrupted, h) else (Inr (), h @ [what]))"

definition demo_runtime :: "string list RuntimeAdapter" where
  "demo_runtime = \<lparr>RtValidate = (\<lambda>_. did ''validate''), RtPrepare = (\<lambda>_ sl. did (''prepare '' @ slot_name sl)),
     RtStart = (\<lambda>_ sl. did (''start '' @ slot_name sl)), RtStop = (\<lambda>_ sl. did (''stop '' @ slot_name sl)),
     RtHealth = (\<lambda>_ sl _. give \<lparr>Ready = True, CheckedAt = 0, HealthDetail = []\<rparr>),
     RtStatus = (\<lambda>_ sl _. give RuntimeActive)\<rparr>"

definition demo_nginx :: "string list NginxAdapter" where
  "demo_nginx = \<lparr>NxValidate = (\<lambda>_. did ''validate''), NxCheckLoaded = (\<lambda>_. did ''loaded''),
     NxApply = (\<lambda>_ sl. did (''traffic '' @ slot_name sl)), NxCurrent = (\<lambda>_ _. give NoSlot)\<rparr>"

definition demo_releases :: "string list ReleaseAdapter" where
  "demo_releases = \<lparr>RlMaterialize = (\<lambda>_ i _. did (''unpack '' @ i)), RlActivate = (\<lambda>_ sl i. did (''link '' @ i)),
     RlRemove = (\<lambda>_ i. did (''remove '' @ i)), RlList = (\<lambda>_ _. give [''rel1'', ''rel2'']),
     RlDeactivate = (\<lambda>_ sl. did ''unlink'')\<rparr>"

definition demo_artifacts :: "string list ArtifactService" where
  "demo_artifacts = \<lparr>asStore = None, asPolicy = \<lparr>MaxUploadBytes = 0, QuotaBytes = 0\<rparr>, DigestOf = (\<lambda>_. [])\<rparr>"

definition demo :: "string list DeployService" where
  "demo = \<lparr>dsArtifacts = Some demo_artifacts, dsReleases = Some demo_releases, dsRuntime = Some demo_runtime,
     dsNginx = Some demo_nginx, dsUrls = (\<lambda>_. None), MessageOf = (\<lambda>_. []), FailureDetail = (\<lambda>_ _. []), Wording = (\<lambda>_. [])\<rparr>"

definition demo_adapters :: "string list Adapters" where
  "demo_adapters = \<lparr>artifacts_of = demo_artifacts, releases_of = demo_releases, runtime_of = demo_runtime\<rparr>"

definition demo_cat :: "ApplicationSpec \<Rightarrow> CatDb" where
  "demo_cat spec = snd (PutApplicationSpecForRelease
      (snd (PutApplicationSpecForRelease sample_cat ''app1'' ''rel1'' spec)) ''app1'' ''rel2'' spec)"

definition demo_world :: "ApplicationSpec \<Rightarrow> time option \<Rightarrow> string list World" where
  "demo_world spec cancel = \<lparr>ops = empty_db, cat = demo_cat spec, bks = empty_backups, host = [], clock = 100, lag = (\<lambda>_. 1), reads = 0, cancel_at = cancel\<rparr>"

lemma demo_cat_reachable: "cat_reachable (demo_cat spec)"
proof -
  have "cat_reachable (snd (PutApplicationSpecForRelease c a j m))" if "cat_reachable c" for c a j m
    using that cat_step.put_release_spec [of c a j m] unfolding cat_reachable_def by (rule rtranclp.rtrancl_into_rtrancl)
  then show ?thesis using sample_cat_reachable unfolding demo_cat_def by blast
qed

text \<open>A line of the log changes neither the catalogue nor the host, and a context that is done stays so.\<close>

lemma appendLog_frame:
  obtains w' where "appendLog op l ph w = (Inr (), w')" "cat w' = cat w" "host w' = host w" "cancel_at w' = cancel_at w"
    "clock w \<le> clock w'"
  unfolding appendLog_def andthen_def attempt_def ignoring_def
  by (cases "AppendLog (ops w) \<lparr>LogOperationID = op, LogLevel = l, LogPhase = ph, LogMessage = [], LogFields = [],
      LogTime = clock w + int (lag w (reads w))\<rparr>")
    (auto simp: now_io_def Let_def ops_try_def give_def)

lemma ctx_done_later: "ctx_done w \<Longrightarrow> cancel_at w' = cancel_at w \<Longrightarrow> clock w \<le> clock w' \<Longrightarrow> ctx_done w'"
  by (auto simp: ctx_done_def split: option.splits)

section \<open>Properties\<close>


text \<open>C14 A deployment in place ends in one of two ways: it succeeds and its release is the active one of the
  application, or it fails and every application has the active release it had. Nothing else about which
  release is active or which slot serves changes, whatever fails and whenever the operation is cancelled.\<close>

theorem in_place_outcome:
  assumes "cat_reachable (cat w)" and "GetRelease (cat w) i = Inr rel"
    and "GetApplication (cat w) (RelApplicationID rel) = Inr a"
    and "manifest_of s (cat w) rel = Inr spec" and "\<not> BlueGreen spec"
  shows "case ExecuteDeploy s ad i op w of
      (Inr _, w') \<Rightarrow> active_id (cat w') = (active_id (cat w))(RelApplicationID rel \<mapsto> i) \<and> serving_slot (cat w') = serving_slot (cat w)
    | (Inl _, w') \<Rightarrow> active_id (cat w') = active_id (cat w) \<and> serving_slot (cat w') = serving_slot (cat w)"
proof -
  obtain r w' where e: "Deploy_apply s ad i op w = (r, w')" by fastforce
  note con = Deploy_apply_stage [OF cat_reachable_inv [OF assms(1)] assms(2,4,3), of ad op]
  have "frozen (cat w) w" by (simp add: frozen_def)
  then show ?thesis using contract_Inr [OF con] contract_Inl [OF con] e assms(5)
    by (cases r) (simp_all add: ExecuteDeploy_def stage_def)
qed

theorem in_place_outcome_witness:
  "let w = demo_world sample_single None
   in active_id (cat w) ''app1'' = Some ''rel1''
      \<and> (let (r, w') = ExecuteDeploy demo demo_adapters ''rel2'' ''op'' w
         in r = Inr () \<and> active_id (cat w') ''app1'' = Some ''rel2'' \<and> host w' = [''prepare '', ''stop '', ''link rel2'', ''start ''])"
proof -
  let ?w = "demo_world sample_single None"
  let ?rel = "sample_release ''rel2'' ''1.1''"
  have c: "cat ?w = demo_cat sample_single" by (simp add: demo_world_def)
  have r: "GetRelease (cat ?w) ''rel2'' = Inr ?rel" unfolding c by code_simp
  have a: "GetApplication (cat ?w) (RelApplicationID ?rel) = Inr sample_application" unfolding c by code_simp
  have m: "manifest_of demo (cat ?w) ?rel = ApplicationSpec_Validate (\<lambda>_. None) sample_single" unfolding c by code_simp
  have b: "\<not> BlueGreen (applyDefaults
     (sample_single\<lparr>SpArtifact := (SpArtifact sample_single)\<lparr>Unpack :=
        (Unpack (SpArtifact sample_single))\<lparr>Strategy := UnpackNone\<rparr>\<rparr>, KeepLast := 5\<rparr>))" by code_simp
  have e: "case ExecuteDeploy demo demo_adapters ''rel2'' ''op'' ?w of (r, w') \<Rightarrow>
      r = Inr () \<and> host w' = [''prepare '', ''stop '', ''link rel2'', ''start '']" by code_simp
  have old: "active_id (cat ?w) ''app1'' = Some ''rel1''" unfolding c by code_simp
  have app: "RelApplicationID ?rel = ''app1''" by (simp add: sample_release_def)
  have reach: "cat_reachable (cat ?w)" unfolding c by (rule demo_cat_reachable)
  note out = in_place_outcome [OF reach r a m [unfolded sample_single_valid] b, of demo_adapters "''op''"]
  show ?thesis using out e old app by (auto simp: Let_def split: prod.splits)
qed

text \<open>C15 A blue-green deployment that succeeds makes its release the active one and the slot beside the one
  that served the serving one. A failure leaves both as they were, or the release active with the slot that
  served before or with the new one; other applications are never touched.\<close>

theorem blue_green_outcome:
  assumes "cat_reachable (cat w)" and "GetRelease (cat w) i = Inr rel"
    and "GetApplication (cat w) (RelApplicationID rel) = Inr a"
    and "manifest_of s (cat w) rel = Inr spec" and "BlueGreen spec"
  shows "case ExecuteDeploy s ad i op w of (r, w') \<Rightarrow>
    (let old = (active_id (cat w), serving_slot (cat w));
         promoted = (active_id (cat w))(RelApplicationID rel \<mapsto> i);
         switched = (serving_slot (cat w))(AppID a := nextSlot (serving_slot (cat w) (AppID a)));
         new = (active_id (cat w'), serving_slot (cat w'))
     in case r of Inr _ \<Rightarrow> new = (promoted, switched)
          | Inl _ \<Rightarrow> new \<in> {old, (promoted, snd old), (promoted, switched)})"
proof -
  obtain r w' where e: "Deploy_apply s ad i op w = (r, w')" by fastforce
  note con = Deploy_apply_stage [OF cat_reachable_inv [OF assms(1)] assms(2,4,3), of ad op]
  have "frozen (cat w) w" by (simp add: frozen_def)
  note fz = this
  show ?thesis
  proof (cases r)
    case (Inl x)
    show ?thesis using contract_Inl [OF con fz e [unfolded Inl]] assms(5)
      by (auto simp: ExecuteDeploy_def e Inl stage_def left_over_def Let_def)
  next
    case (Inr x)
    show ?thesis using contract_Inr [OF con fz e [unfolded Inr]] assms(5)
      by (auto simp: ExecuteDeploy_def e Inr stage_def Let_def)
  qed
qed

theorem blue_green_outcome_witness:
  "case ExecuteDeploy demo demo_adapters ''rel2'' ''op'' (demo_world sample_blue_green None) of (r, w') \<Rightarrow>
     r = Inr () \<and> active_id (cat w') ''app1'' = Some ''rel2'' \<and> serving_slot (cat w') ''app1'' = SlotBlue"
proof -
  let ?w = "demo_world sample_blue_green None"
  let ?rel = "sample_release ''rel2'' ''1.1''"
  have c: "cat ?w = demo_cat sample_blue_green" by (simp add: demo_world_def)
  have r: "GetRelease (cat ?w) ''rel2'' = Inr ?rel" unfolding c by code_simp
  have a: "GetApplication (cat ?w) (RelApplicationID ?rel) = Inr sample_application" unfolding c by code_simp
  have m: "manifest_of demo (cat ?w) ?rel = ApplicationSpec_Validate (\<lambda>_. None) sample_blue_green" unfolding c by code_simp
  have b: "BlueGreen (applyDefaults
     (sample_blue_green\<lparr>SpArtifact := (SpArtifact sample_single)\<lparr>Unpack :=
        (Unpack (SpArtifact sample_single))\<lparr>Strategy := UnpackNone\<rparr>\<rparr>, KeepLast := 5\<rparr>))" by code_simp
  have e: "fst (ExecuteDeploy demo demo_adapters ''rel2'' ''op'' ?w) = Inr ()" by code_simp
  have app: "RelApplicationID ?rel = ''app1''" "AppID sample_application = ''app1''"
    by (simp_all add: sample_release_def sample_application_def)
  have srv: "serving_slot (cat ?w) ''app1'' = NoSlot" unfolding c by code_simp
  have reach: "cat_reachable (cat ?w)" unfolding c by (rule demo_cat_reachable)
  note out = blue_green_outcome [OF reach r a m [unfolded sample_blue_green_valid] b, of demo_adapters "''op''"]
  show ?thesis using out e app srv by (auto simp: Let_def nextSlot_def Slot_Valid_def split: prod.splits if_splits)
qed

text \<open>C16 A deployment never waits for ever: when the runtime keeps answering that the application is not ready
  and nobody cancels, the wait for readiness ends with RUNTIME_NOT_READY, and not before the start timeout of
  the manifest, or the default one, has passed.\<close>

theorem wait_for_ready_ends:
  assumes "\<forall>done h. \<exists>health h'. RtHealth (runtime_of ad) spec slot done h = (Inr health, h') \<and> \<not> Ready health"
    and "cancel_at w = None"
  shows "\<exists>w'. waitForReady ad spec slot op w = (Inl (Fault CodeRuntimeNotReady), w')
    \<and> clock w + (if StartTimeout (SpHealth spec) \<le> 0 then DefaultStartTimeout else StartTimeout (SpHealth spec)) < clock w'"
proof -
  let ?timeout = "if StartTimeout (SpHealth spec) \<le> 0 then DefaultStartTimeout else StartTimeout (SpHealth spec)"
  obtain w1 where now: "now_io w = (Inr (clock w1), w1)" "clock w \<le> clock w1" "cancel_at w1 = None"
    using now_fields(3-5) [of w] assms(2) by (metis surj_pair)
  obtain w2 where log: "appendLog op ''info'' PhaseExecute w1 = (Inr (), w2)" "cancel_at w2 = None"
    using appendLog_frame [of op "''info''" PhaseExecute w1] now(3) by metis
  obtain w' where "ready_loop (runtime_of ad) spec slot (clock w1 + ?timeout) w2 = (Inl (Fault CodeRuntimeNotReady), w')"
    "clock w1 + ?timeout < clock w'"
    using ready_loop_never_ready [OF assms(1) log(2)] by blast
  then show ?thesis using now(1,2) log(1)
    by (auto simp: waitForReady_def Let_def andthen_def attempt_def raise_def)
qed

theorem wait_for_ready_ends_witness:
  "\<exists>w'. waitForReady (demo_adapters\<lparr>runtime_of := demo_runtime\<lparr>RtHealth :=
        (\<lambda>_ _ _. give \<lparr>Ready = False, CheckedAt = 0, HealthDetail = []\<rparr>)\<rparr>\<rparr>) sample_single NoSlot ''op'' (demo_world sample_single None)
      = (Inl (Fault CodeRuntimeNotReady), w') \<and> 100 + DefaultStartTimeout < clock w'"
  using wait_for_ready_ends [of "demo_adapters\<lparr>runtime_of := demo_runtime\<lparr>RtHealth :=
        (\<lambda>_ _ _. give \<lparr>Ready = False, CheckedAt = 0, HealthDetail = []\<rparr>)\<rparr>\<rparr>" sample_single NoSlot
      "demo_world sample_single None" "''op''"]
  by (simp add: give_def demo_world_def sample_single_def)

text \<open>Undoing a deployment and recording its failure use the context of the operation. A deployment in place
  that is cancelled after it stopped the running version changes nothing any more but the directory of the
  new release: the version it stopped is not started again, and the row of the release stays at deploying.\<close>

theorem cancelled_deployment_stranded:
  assumes "ctx_done w" and "\<forall>sp sl h. RtStop (runtime_of ad) sp sl True h = (Inl Interrupted, h)"
  shows "case fail_single s ad i spec (Some (prev, prevSpec)) op (pr\<lparr>stoppedPrevious := True\<rparr>) cause w of
    (r, w') \<Rightarrow> r = Inl (Fault (CodeOf cause)) \<and> cat w' = cat w
      \<and> host w' = (if Materializes spec then snd (RlRemove (releases_of ad) spec i True (host w)) else host w)"
proof -
  obtain w1 where log: "appendLog op ''warn'' PhaseRollback w = (Inr (), w1)" "cat w1 = cat w" "host w1 = host w"
      "cancel_at w1 = cancel_at w" "clock w \<le> clock w1"
    by (rule appendLog_frame)
  have done1: "ctx_done w1" using ctx_done_later [OF assms(1) log(4,5)] .
  have undo: "restorePrevious ad spec prev prevSpec op w = (Inl Interrupted, w1)"
    using log(1) done1 assms(2) by (simp add: restorePrevious_def andthen_def attempt_def raise_def call_def)
  obtain h2 where rm: "remove_failed ad spec i w1 = (Inr (), w1\<lparr>host := h2\<rparr>)"
      "h2 = (if Materializes spec then snd (RlRemove (releases_of ad) spec i True (host w)) else host w)"
    using done1 log(3)
    by (cases "RlRemove (releases_of ad) spec i True (host w)")
      (auto simp: remove_failed_def ignoring_def attempt_def call_def give_def split: sum.split)
  have later: "ctx_done (w1\<lparr>host := h2, clock := c, reads := n\<rparr>)" if "clock w1 \<le> c" for c n
    by (rule ctx_done_later [OF done1]) (simp_all add: that)
  obtain w3 where mk: "mark_failed s i cause (w1\<lparr>host := h2\<rparr>) = (Inr (), w3)" "cat w3 = cat w" "host w3 = h2"
    using later log(2) by (simp add: mark_failed_def ignoring_def andthen_def attempt_def now_io_def cat_do_def
        with_ctx_def raise_def give_def Let_def)
  obtain w4 where "appendLog op ''error'' PhaseFinalize w3 = (Inr (), w4)" "cat w4 = cat w3" "host w4 = host w3"
    by (rule appendLog_frame)
  then show ?thesis using undo rm mk
    by (simp add: fail_single_def Let_def attempt_def andthen_def raise_def)
qed

theorem cancelled_deployment_stranded_witness:
  "(case ExecuteDeploy demo demo_adapters ''rel2'' ''op'' (demo_world sample_single (Some 103)) of
      (r, w') \<Rightarrow> host w' = [''prepare '', ''stop ''] \<and> map RelStatus (releases (cat w')) = [ReleaseActive, ReleaseDeploying])
   \<and> (case fail_single demo demo_adapters ''rel2'' sample_single (Some (sample_release ''rel1'' ''1.0'', sample_single)) ''op''
         (\<lparr>switched = False, stoppedPrevious = True\<rparr>) Interrupted (demo_world sample_single (Some 50)) of
       (r, w') \<Rightarrow> r = Inl (Fault CodeInternal) \<and> cat w' = demo_cat sample_single)"
proof -
  have "case ExecuteDeploy demo demo_adapters ''rel2'' ''op'' (demo_world sample_single (Some 103)) of
      (r, w') \<Rightarrow> host w' = [''prepare '', ''stop ''] \<and> map RelStatus (releases (cat w')) = [ReleaseActive, ReleaseDeploying]"
    by code_simp
  moreover have "ctx_done (demo_world sample_single (Some 50))" by (simp add: demo_world_def ctx_done_def)
  moreover have "\<forall>sp sl h. RtStop (runtime_of demo_adapters) sp sl True h = (Inl Interrupted, h)"
    by (simp add: demo_adapters_def demo_runtime_def did_def)
  ultimately show ?thesis
    using cancelled_deployment_stranded [where w = "demo_world sample_single (Some 50)" and ad = demo_adapters and s = demo
      and i = "''rel2''" and spec = sample_single and prev = "sample_release ''rel1'' ''1.0''" and prevSpec = sample_single
      and op = "''op''" and pr = "\<lparr>switched = False, stoppedPrevious = True\<rparr>" and cause = Interrupted]
    by (auto simp: demo_world_def split: prod.splits)
qed

text \<open>Once traffic is on the new slot, a blue-green deployment that fails switches it back but never stops
  the process of the slot it gives up: what it does is the same whatever stopping a process does.\<close>

theorem failed_slot_keeps_running:
  "fail_slot s (ad\<lparr>runtime_of := (runtime_of ad)\<lparr>RtStop := stop\<rparr>\<rparr>) nx (run\<lparr>srPrevious := Some (prev, prevSpec)\<rparr>)
     (pr\<lparr>traffic := True\<rparr>) cause
   = fail_slot s ad nx (run\<lparr>srPrevious := Some (prev, prevSpec)\<rparr>) (pr\<lparr>traffic := True\<rparr>) cause"
  by (rule ext) (simp add: fail_slot_def ext [OF ready_loop_stop] undo_slot_def switchTraffic_def waitForReady_def ready_loop_stop
      record_failure_def remove_failed_def)

end
