(* ===== verification/SlotProps.thy ===== *)
theory SlotProps
  imports Slots DeployProps
begin

text \<open>
  Reconciliation (\<open>internal/application/slots.go\<close>): what it leaves behind when the facts can be read, and
  that a second one finds nothing to do.
\<close>

section \<open>Computations of an operation nobody cancels\<close>

lemma not_done [simp]: "cancel_at w = None \<Longrightarrow> \<not> ctx_done w"
  by (simp add: ctx_done_def)

lemma uncancelled:
  assumes "cancel_at w = None"
  shows "cat_get f w = (case f (cat w) of Inl e \<Rightarrow> (Inl (Fault e), w) | Inr x \<Rightarrow> (Inr x, w))"
    and "cat_ask g w = (Inr (g (cat w)), w)"
    and "cat_try k w = (case k (cat w) of (None, c) \<Rightarrow> (Inr (), w\<lparr>cat := c\<rparr>) | (Some e, c) \<Rightarrow> (Inl (Fault e), w\<lparr>cat := c\<rparr>))"
    and "call m w = (case m False (host w) of (r, h) \<Rightarrow> (r, w\<lparr>host := h\<rparr>))"
  using assms
  by (simp_all add: cat_get_def cat_ask_def cat_try_def with_ctx_def ask_code_def ask_def call_def)

text \<open>Two states between which only the time line and the clock moved.\<close>

definition same_facts :: "'h World \<Rightarrow> 'h World \<Rightarrow> bool" where
  "same_facts w w' \<longleftrightarrow> (cat w')\<lparr>slot_events := []\<rparr> = (cat w)\<lparr>slot_events := []\<rparr> \<and> host w' = host w \<and> cancel_at w' = cancel_at w"

lemma same_facts_refl: "same_facts w w"
  by (simp add: same_facts_def)

lemma same_facts_trans: "same_facts w w' \<Longrightarrow> same_facts w' w'' \<Longrightarrow> same_facts w w''"
  by (auto simp: same_facts_def)

lemma appendSlotEvent_facts:
  "cancel_at w = None \<Longrightarrow> \<exists>w'. appendSlotEvent app slot kd detail release op w = (Inr (), w') \<and> same_facts w w'"
  unfolding appendSlotEvent_def andthen_def attempt_def ignoring_def now_io_def Let_def AppendSlotEvent_def
  by (auto simp: uncancelled give_def same_facts_def split: sum.split)

lemma reconciled_facts:
  assumes "cancel_at w = None"
  shows "\<exists>w'. reconciled app rows slot w = (Inr (), w') \<and> same_facts w w'"
proof -
  have "\<exists>r. release_of_slot rows slot w = (Inr r, w)"
    by (cases "find (\<lambda>q. AsSlot q = slot \<and> AsReleaseID q \<noteq> []) rows")
      (auto simp: release_of_slot_def releaseOrNil_def attempt_def uncancelled(1) [OF assms] give_def split: sum.split)
  then obtain r where "release_of_slot rows slot w = (Inr r, w)" by blast
  then show ?thesis using appendSlotEvent_facts [OF assms, of app slot SlotEventReconciled "[]" r "[]"]
    by (simp add: reconciled_def andthen_def attempt_def)
qed

section \<open>What the facts are\<close>

text \<open>Both adapters answer, and asking them changes nothing.\<close>

definition facts :: "'h SlotService \<Rightarrow> ApplicationSpec \<Rightarrow> Slot \<Rightarrow> (Slot \<Rightarrow> RuntimeStatus) \<Rightarrow> bool" where
  "facts s spec online st \<longleftrightarrow>
     (case (ssNginx s, ssRuntime s) of
        (Some nx, Some rt) \<Rightarrow> (\<forall>h. NxCurrent nx spec False h = (Inr online, h))
          \<and> (\<forall>sl h. RtStatus rt spec sl False h = (Inr (st sl), h))
      | _ \<Rightarrow> False)"

text \<open>A running slot serves when Nginx leads to it and stands by otherwise; one that does not run is stopped; the
  states in between say nothing.\<close>

definition settled :: "(Slot \<Rightarrow> RuntimeStatus) \<Rightarrow> Slot \<Rightarrow> ApplicationSlot \<Rightarrow> bool" where
  "settled st online row \<longleftrightarrow>
     (case st (AsSlot row) of
        RuntimeActive \<Rightarrow> AsState row = (if online = AsSlot row then SlotServing else SlotStandby)
      | RuntimeInactive \<Rightarrow> AsState row = SlotStopped
      | RuntimeStatusOther _ \<Rightarrow> AsState row = SlotStopped
      | _ \<Rightarrow> True)"

lemma settled_iff:
  "settled st online row \<longleftrightarrow>
     (case expected_of True (st (AsSlot row)) (AsSlot row) online of None \<Rightarrow> True | Some want \<Rightarrow> AsState row = want)"
  by (cases "st (AsSlot row)") (simp_all add: settled_def expected_of_def Running_def)

definition spec_for :: "CatDb \<Rightarrow> Application \<Rightarrow> ErrorCode + ApplicationSpec" where
  "spec_for c app =
     (case ActiveRelease c (AppID app) of
        None \<Rightarrow> GetApplicationSpec c (AppID app)
      | Some r \<Rightarrow> (case GetApplicationSpecForRelease c (AppID app) (RelID r) of
            Inr spec \<Rightarrow> Inr spec
          | Inl _ \<Rightarrow> GetApplicationSpec c (AppID app)))"

lemma GetApplicationSpecForRelease_error: "GetApplicationSpecForRelease c app i = Inl e \<Longrightarrow> e = CodeSpecNotFound"
  by (simp add: GetApplicationSpecForRelease_def found_def split: option.splits)

lemma specFor_uncancelled:
  assumes "cancel_at w = None" "spec_for (cat w) app = Inr spec"
  shows "specFor app w = (Inr spec, w)"
  using assms(2) GetApplicationSpecForRelease_error
  by (auto simp: specFor_def spec_for_def andthen_def attempt_def uncancelled [OF assms(1)] give_def
      split: option.splits sum.splits)

section \<open>The rows\<close>

lemma expected_states: "expected_of b p sl online = Some want \<Longrightarrow> SlotState_Valid want"
  by (auto simp: expected_of_def split: if_splits)

definition slot_keys :: "CatDb \<Rightarrow> (string \<times> Slot) list" where
  "slot_keys c = map (\<lambda>q. (AsApplicationID q, AsSlot q)) (application_slots c)"

definition slot_rows :: "Application \<Rightarrow> CatDb \<Rightarrow> bool" where
  "slot_rows a c \<longleftrightarrow> distinct (slot_keys c)
     \<and> (\<forall>q \<in> set (application_slots c). AsApplicationID q = AppID a \<longrightarrow> Slot_Valid (AsSlot q))"

text \<open>The rows still to come are in the table, and the others of the application agree with the facts.\<close>

definition rows_left ::
  "Application \<Rightarrow> (Slot \<Rightarrow> RuntimeStatus) \<Rightarrow> Slot \<Rightarrow> ApplicationSlot list \<Rightarrow> CatDb \<Rightarrow> bool" where
  "rows_left a st online rest c \<longleftrightarrow> slot_rows a c \<and> list_ex (\<lambda>q. AppID q = AppID a) (applications c)
     \<and> (\<forall>row \<in> set rest. row \<in> set (application_slots c) \<and> AsApplicationID row = AppID a)
     \<and> distinct (map AsSlot rest)
     \<and> (\<forall>q \<in> set (application_slots c). AsApplicationID q = AppID a \<and> AsSlot q \<notin> AsSlot ` set rest \<longrightarrow> settled st online q)"

lemma same_row:
  assumes "distinct (slot_keys c)" "q \<in> set (application_slots c)" "row \<in> set (application_slots c)"
    and "AsApplicationID q = AsApplicationID row" "AsSlot q = AsSlot row"
  shows "q = row"
  using assms by (auto simp: slot_keys_def distinct_map inj_on_def)

lemma rows_left_skip:
  assumes "rows_left a st online (row # rest) c" "settled st online row"
  shows "rows_left a st online rest c"
  unfolding rows_left_def
proof (intro conjI ballI impI)
  fix q assume q: "q \<in> set (application_slots c)" "AsApplicationID q = AppID a \<and> AsSlot q \<notin> AsSlot ` set rest"
  show "settled st online q"
  proof (cases "AsSlot q = AsSlot row")
    case True
    then have "q = row" using assms(1) q by (intro same_row [of c]) (auto simp: rows_left_def slot_rows_def)
    then show ?thesis using assms(2) by simp
  next
    case False
    then show ?thesis using assms(1) q by (simp add: rows_left_def)
  qed
qed (use assms(1) in \<open>auto simp: rows_left_def\<close>)

lemma GetApplication_exists:
  "list_ex (\<lambda>q. AppID q = i) (applications c) \<Longrightarrow> \<exists>a. GetApplication c i = Inr a"
  by (auto simp: GetApplication_def found_def list_ex_iff find_None_iff split: option.split)

lemma rows_left_put:
  assumes "rows_left a st online (row # rest) c" "expected_of True (st (AsSlot row)) (AsSlot row) online = Some want"
  shows "\<exists>c'. PutApplicationSlot c (AppID a) (AsSlot row) (AsReleaseID row) want None now = (None, c')
    \<and> rows_left a st online rest c' \<and> (\<exists>rows. c' = c\<lparr>application_slots := rows\<rparr>)"
proof -
  let ?p = "\<lambda>q. AsApplicationID q = AppID a \<and> AsSlot q = AsSlot row"
  let ?f = "\<lambda>q. q\<lparr>AsReleaseID := AsReleaseID row, AsState := want, AsUpdatedAt := now\<rparr>"
  let ?rows = "update_where ?p ?f (application_slots c)"
  have row: "row \<in> set (application_slots c)" "AsApplicationID row = AppID a" "Slot_Valid (AsSlot row)"
    and app: "list_ex (\<lambda>q. AppID q = AppID a) (applications c)"
    using assms(1) by (simp_all add: rows_left_def slot_rows_def)
  obtain b where b: "GetApplication c (AppID a) = Inr b" using GetApplication_exists [OF app] by blast
  have ex: "list_ex ?p (application_slots c)" using row by (auto simp: list_ex_iff)
  have put: "PutApplicationSlot c (AppID a) (AsSlot row) (AsReleaseID row) want None now
      = (None, c\<lparr>application_slots := ?rows\<rparr>)"
    using b ex app row(3) expected_states [OF assms(2)] by (simp add: PutApplicationSlot_def)
  have keys: "slot_keys (c\<lparr>application_slots := ?rows\<rparr>) = slot_keys c"
    by (simp add: slot_keys_def update_where_def)
  have "rows_left a st online rest (c\<lparr>application_slots := ?rows\<rparr>)"
    unfolding rows_left_def
  proof (intro conjI ballI impI)
    show "slot_rows a (c\<lparr>application_slots := ?rows\<rparr>)"
      using assms(1) unfolding slot_rows_def keys by (auto simp: rows_left_def slot_rows_def update_where_def)
  next
    fix r assume r: "r \<in> set rest"
    then have "r \<in> set (application_slots c)" "AsApplicationID r = AppID a"
      using assms(1) by (auto simp: rows_left_def)
    moreover have "AsSlot row \<notin> AsSlot ` set rest" using assms(1) by (simp add: rows_left_def)
    then have "AsSlot r \<noteq> AsSlot row" using r by (metis imageI)
    ultimately show "r \<in> set (application_slots (c\<lparr>application_slots := ?rows\<rparr>))" "AsApplicationID r = AppID a"
      by (auto simp: update_where_def intro!: image_eqI [of _ _ r])
  next
    fix q assume q: "q \<in> set (application_slots (c\<lparr>application_slots := ?rows\<rparr>))"
      "AsApplicationID q = AppID a \<and> AsSlot q \<notin> AsSlot ` set rest"
    then obtain q0 where q0: "q0 \<in> set (application_slots c)" "q = (if ?p q0 then ?f q0 else q0)"
      by (auto simp: update_where_def)
    show "settled st online q"
    proof (cases "?p q0")
      case True
      then show ?thesis using q0(2) assms(2) by (simp add: settled_iff)
    next
      case False
      then have "q = q0" using q0(2) by (simp only: if_False)
      then show ?thesis using assms(1) q q0(1) False by (simp add: rows_left_def)
    qed
  qed (use assms(1) in \<open>auto simp: rows_left_def\<close>)
  then show ?thesis using put by blast
qed

lemma rows_left_same:
  "application_slots c' = application_slots c \<Longrightarrow> applications c' = applications c \<Longrightarrow>
   rows_left a st online rest c' = rows_left a st online rest c"
  by (simp add: rows_left_def slot_rows_def slot_keys_def)

text \<open>What reconciling changes at most: the rows of the slots and the time line.\<close>

definition slots_only :: "CatDb \<Rightarrow> CatDb \<Rightarrow> bool" where
  "slots_only c c' \<longleftrightarrow> c'\<lparr>slot_events := [], application_slots := []\<rparr> = c\<lparr>slot_events := [], application_slots := []\<rparr>"

lemma same_facts_fields:
  assumes "same_facts w w'"
  shows "application_slots (cat w') = application_slots (cat w)" "applications (cat w') = applications (cat w)"
    "serving_slot (cat w') = serving_slot (cat w)" "slots_only (cat w) (cat w')" "releases (cat w') = releases (cat w)"
proof -
  have e: "(cat w')\<lparr>slot_events := []\<rparr> = (cat w)\<lparr>slot_events := []\<rparr>" using assms by (simp add: same_facts_def)
  show "application_slots (cat w') = application_slots (cat w)" using arg_cong [OF e, of application_slots] by simp
  show "applications (cat w') = applications (cat w)" using arg_cong [OF e, of applications] by simp
  show "releases (cat w') = releases (cat w)" using arg_cong [OF e, of releases] by simp
  show "serving_slot (cat w') = serving_slot (cat w)" using arg_cong [OF e, of serving_slot] by simp
  have "(cat w')\<lparr>slot_events := []\<rparr>\<lparr>application_slots := []\<rparr> = (cat w)\<lparr>slot_events := []\<rparr>\<lparr>application_slots := []\<rparr>"
    by (simp only: e)
  then show "slots_only (cat w) (cat w')" by (simp add: slots_only_def)
qed

lemma slots_only_trans: "slots_only a b \<Longrightarrow> slots_only b c \<Longrightarrow> slots_only a c"
  by (auto simp: slots_only_def)

lemma expectedState_facts:
  assumes "facts s spec online st" "ssRuntime s = Some rt" "cancel_at w = None"
  shows "expectedState s rt spec row online w = (Inr (expected_of True (st (AsSlot row)) (AsSlot row) online), w)"
proof -
  have "ssNginx s \<noteq> None" "RtStatus rt spec (AsSlot row) False (host w) = (Inr (st (AsSlot row)), host w)"
    using assms(1,2) by (auto simp: facts_def split: option.splits)
  then show ?thesis by (simp add: expectedState_def andthen_def attempt_def uncancelled [OF assms(3)] give_def)
qed

lemma reconcile_rows_settles:
  assumes "facts s spec online st" "ssRuntime s = Some rt" "cancel_at w = None" "rows_left a st online rest (cat w)"
  shows "\<exists>res' w'. reconcile_rows s rt a all spec now online res rest w = (Inr res', w')
    \<and> rows_left a st online [] (cat w') \<and> slots_only (cat w) (cat w') \<and> cancel_at w' = None
    \<and> Errors res' = Errors res \<and> Skipped res' = Skipped res \<and> Checked res' = Checked res
    \<and> ((\<forall>row \<in> set rest. settled st online row) \<longrightarrow> res' = res)"
  using assms(3,4)
proof (induction rest arbitrary: w res)
  case Nil
  then show ?case by (simp add: give_def slots_only_def)
next
  case (Cons row rest)
  let ?want = "expected_of True (st (AsSlot row)) (AsSlot row) online"
  note e = expectedState_facts [OF assms(1,2) Cons.prems(1), of row]
  show ?case
  proof (cases "?want = None \<or> ?want = Some (AsState row)")
    case True
    then have set: "settled st online row" by (auto simp: settled_iff)
    show ?thesis using Cons.IH [OF Cons.prems(1) rows_left_skip [OF Cons.prems(2) set], of res] True e set
      by (auto simp: attempt_def)
  next
    case False
    then obtain want where want: "?want = Some want" "want \<noteq> AsState row" by auto
    obtain c' where put: "PutApplicationSlot (cat w) (AppID a) (AsSlot row) (AsReleaseID row) want None now = (None, c')"
      "rows_left a st online rest c'" "\<exists>rows. c' = (cat w)\<lparr>application_slots := rows\<rparr>"
      using rows_left_put [OF Cons.prems(2) want(1), of now] by blast
    obtain w2 where w2: "reconciled (AppID a) all (AsSlot row) (w\<lparr>cat := c'\<rparr>) = (Inr (), w2)" "same_facts (w\<lparr>cat := c'\<rparr>) w2"
      using reconciled_facts [of "w\<lparr>cat := c'\<rparr>" "AppID a" all "AsSlot row"] Cons.prems(1) by auto
    have "rows_left a st online rest (cat w2)" "cancel_at w2 = None"
      using w2(2) put(2) Cons.prems(1) rows_left_same [OF same_facts_fields(1,2) [OF w2(2)]] by (simp_all add: same_facts_def)
    from Cons.IH [OF this(2,1), of "changed (AppName a) SlotStateField (AsSlot row) res"]
    obtain res' w' where ih: "reconcile_rows s rt a all spec now online (changed (AppName a) SlotStateField (AsSlot row) res) rest w2 = (Inr res', w')"
      "rows_left a st online [] (cat w')" "slots_only (cat w2) (cat w')" "cancel_at w' = None"
      "Errors res' = Errors res" "Skipped res' = Skipped res" "Checked res' = Checked res"
      by (auto simp: changed_def)
    have "slots_only (cat w) c'" using put(3) by (auto simp: slots_only_def)
    then have "slots_only (cat w) (cat w2)" using same_facts_fields(4) [OF w2(2)] slots_only_trans by auto
    moreover have "\<not> settled st online row" using want by (simp add: settled_iff)
    ultimately show ?thesis using ih e want put(1) w2(1) slots_only_trans
      by (auto simp: attempt_def andthen_def uncancelled [OF Cons.prems(1)])
  qed
qed

section \<open>One application\<close>

text \<open>What the reconciliation of an application needs to find in the catalogue.\<close>

definition subject :: "string \<Rightarrow> Application \<Rightarrow> ApplicationSpec \<Rightarrow> CatDb \<Rightarrow> bool" where
  "subject i a spec c \<longleftrightarrow> (\<exists>b. GetApplication c i = Inr b \<and> AppID b = AppID a \<and> AppName b = AppName a)
     \<and> spec_for c a = Inr spec \<and> list_ex (\<lambda>q. AppID q = AppID a) (applications c)
     \<and> slot_rows a c"

lemma spec_for_cong:
  assumes "releases c' = releases c" "application_specs c' = application_specs c" "AppID b = AppID a"
  shows "spec_for c' b = spec_for c a"
proof -
  have act: "ActiveRelease c' = ActiveRelease c" by (simp add: fun_eq_iff ActiveRelease_def assms(1))
  have cur: "GetApplicationSpec c' = GetApplicationSpec c" by (simp add: fun_eq_iff GetApplicationSpec_def assms(2))
  have rel: "GetApplicationSpecForRelease c' = GetApplicationSpecForRelease c"
    by (simp add: fun_eq_iff GetApplicationSpecForRelease_def assms(2))
  show ?thesis unfolding spec_for_def assms(3) act cur rel by (rule refl)
qed

lemma list_ex_map_same: "(\<And>q. p (f q) = p q) \<Longrightarrow> list_ex p (map f xs) = list_ex p xs"
  by (induction xs) auto

lemma find_map_same: "(\<And>q. p (f q) = p q) \<Longrightarrow> find p (map f xs) = map_option f (find p xs)"
  by (induction xs) auto

lemma SetServingSlot_subject:
  assumes "subject i a spec c" "online = NoSlot \<or> Slot_Valid online"
  shows "\<exists>c'. SetServingSlot c (AppID a) online now = (None, c') \<and> subject i a spec c'
    \<and> serving_slot c' = (serving_slot c)(AppID a := online) \<and> application_slots c' = application_slots c
    \<and> releases c' = releases c"
proof -
  let ?f = "\<lambda>q. if AppID q = AppID a then q\<lparr>AppUpdatedAt := now\<rparr> else q"
  let ?c' = "c\<lparr>serving_slot := (serving_slot c)(AppID a := online), applications := map ?f (applications c)\<rparr>"
  have app: "list_ex (\<lambda>q. AppID q = AppID a) (applications c)" using assms(1) by (simp add: subject_def)
  have set: "SetServingSlot c (AppID a) online now = (None, ?c')"
    using assms(2) app by (auto simp: SetServingSlot_def update_where_def)
  have f: "AppID (?f q) = AppID q" "AppName (?f q) = AppName q" for q by simp_all
  obtain b where b: "find (\<lambda>q. AppID q = i \<or> AppName q = i) (applications c) = Some b" "AppID b = AppID a" "AppName b = AppName a"
    using assms(1) by (auto simp: subject_def GetApplication_def found_def split: option.splits)
  have "find (\<lambda>q. AppID q = i \<or> AppName q = i) (map ?f (applications c)) = Some (?f b)"
    using find_map_same [of "\<lambda>q. AppID q = i \<or> AppName q = i" ?f "applications c"] b(1) by (simp add: f)
  then have "GetApplication ?c' i = Inr (?f b)" by (simp add: GetApplication_def found_def)
  moreover have "list_ex (\<lambda>q. AppID q = AppID a) (map ?f (applications c))"
    using app list_ex_map_same [of "\<lambda>q. AppID q = AppID a" ?f "applications c"] by (simp add: f)
  moreover have "spec_for ?c' a = spec_for c a" by (rule spec_for_cong) simp_all
  ultimately have "subject i a spec ?c'" using assms(1) b(2,3) by (simp add: subject_def slot_rows_def slot_keys_def)
  then show ?thesis using set by (intro exI [of _ ?c']) simp
qed

lemma subject_slots_only:
  assumes "subject i a spec c" "slots_only c c'" "slot_rows a c'"
  shows "subject i a spec c'"
proof -
  have e: "c'\<lparr>slot_events := [], application_slots := []\<rparr> = c\<lparr>slot_events := [], application_slots := []\<rparr>"
    using assms(2) by (simp add: slots_only_def)
  have apps: "applications c' = applications c" using arg_cong [OF e, of applications] by simp
  moreover have "spec_for c' a = spec_for c a"
    using arg_cong [OF e, of releases] arg_cong [OF e, of application_specs] by (intro spec_for_cong) simp_all
  ultimately show ?thesis using assms(1,3) by (simp add: subject_def GetApplication_def)
qed

lemma reconcile_serving_corrects:
  assumes "facts s spec online st" "cancel_at w = None" "subject i a spec (cat w)" "online = NoSlot \<or> Slot_Valid online"
  shows "\<exists>res' w'. reconcile_serving s a rows spec now res w = (Inr (Some online, res'), w')
    \<and> subject i a spec (cat w') \<and> serving_slot (cat w') = (serving_slot (cat w))(AppID a := online)
    \<and> application_slots (cat w') = application_slots (cat w) \<and> releases (cat w') = releases (cat w) \<and> cancel_at w' = None
    \<and> Errors res' = Errors res \<and> Skipped res' = Skipped res
    \<and> (serving_slot (cat w) (AppID a) = online \<longrightarrow> res' = res\<lparr>Checked := Suc (Checked res)\<rparr>)"
proof -
  obtain nx where nx: "ssNginx s = Some nx" "NxCurrent nx spec False (host w) = (Inr online, host w)"
    using assms(1) by (auto simp: facts_def split: option.splits)
  let ?res = "res\<lparr>Checked := Suc (Checked res)\<rparr>"
  have srv: "ServingSlot (cat w) (AppID a) = Inr (serving_slot (cat w) (AppID a))"
    using assms(3) by (simp add: ServingSlot_def subject_def)
  note run = reconcile_serving_def nx attempt_def uncancelled [OF assms(2)] srv Let_def
  show ?thesis
  proof (cases "online = serving_slot (cat w) (AppID a)")
    case True
    then show ?thesis using assms(2,3) by (simp add: run give_def fun_upd_idem)
  next
    case False
    obtain c' where c': "SetServingSlot (cat w) (AppID a) online now = (None, c')" "subject i a spec c'"
      "serving_slot c' = (serving_slot (cat w))(AppID a := online)" "application_slots c' = application_slots (cat w)"
      "releases c' = releases (cat w)"
      using SetServingSlot_subject [OF assms(3,4)] by blast
    obtain w2 where w2: "reconciled (AppID a) rows online (w\<lparr>cat := c'\<rparr>) = (Inr (), w2)" "same_facts (w\<lparr>cat := c'\<rparr>) w2"
      using reconciled_facts [of "w\<lparr>cat := c'\<rparr>" "AppID a" rows online] assms(2) by auto
    have "subject i a spec (cat w2)"
      using subject_slots_only [OF c'(2)] same_facts_fields [OF w2(2)] c'(2) by (simp add: subject_def slot_rows_def slot_keys_def)
    moreover have "cancel_at w2 = None" using w2(2) assms(2) by (simp add: same_facts_def)
    moreover have "reconcile_serving s a rows spec now res w = (Inr (Some online, changed (AppName a) ServingSlotField online ?res), w2)"
      using False c'(1) w2(1) by (simp add: run andthen_def give_def)
    ultimately show ?thesis using False c'(3-5) same_facts_fields [OF w2(2)]
      by (intro exI [of _ "changed (AppName a) ServingSlotField online ?res"] exI [of _ w2]) (simp add: changed_def)
  qed
qed

lemma ApplicationSlots_rows:
  "set (ApplicationSlots c i) = {q \<in> set (application_slots c). AsApplicationID q = i}"
  by (simp add: ApplicationSlots_def)

lemma ApplicationSlots_distinct:
  assumes "distinct (slot_keys c)"
  shows "distinct (map AsSlot (ApplicationSlots c i))"
proof -
  have "distinct (application_slots c)" "inj_on (\<lambda>q. (AsApplicationID q, AsSlot q)) (set (application_slots c))"
    using assms by (simp_all add: slot_keys_def distinct_map)
  moreover from this(2) have "inj_on AsSlot {q \<in> set (application_slots c). AsApplicationID q = i}"
    by (auto simp: inj_on_def)
  ultimately show ?thesis unfolding ApplicationSlots_def by (simp add: distinct_map)
qed

lemma rows_left_start: "subject i a spec c \<Longrightarrow> rows_left a st online (ApplicationSlots c (AppID a)) c"
  using ApplicationSlots_distinct [of c "AppID a"]
  by (auto simp: subject_def rows_left_def slot_rows_def ApplicationSlots_rows)

text \<open>One reconciliation: the recorded state follows the facts.\<close>

definition corrected ::
  "Application \<Rightarrow> Slot \<Rightarrow> (Slot \<Rightarrow> RuntimeStatus) \<Rightarrow> CatDb \<Rightarrow> CatDb \<Rightarrow> bool" where
  "corrected a online st c c' \<longleftrightarrow> serving_slot c' = (serving_slot c)(AppID a := online) \<and> releases c' = releases c
     \<and> (\<forall>q \<in> set (ApplicationSlots c' (AppID a)). settled st online q)"

lemma reconcileApplication_corrects:
  assumes "facts s spec online st" "cancel_at w = None" "subject i a spec (cat w)" "BlueGreen spec" "online = NoSlot \<or> Slot_Valid online"
  shows "\<exists>res' w'. reconcileApplication s i res w = (Inr res', w') \<and> subject i a spec (cat w') \<and> cancel_at w' = None
    \<and> corrected a online st (cat w) (cat w') \<and> Errors res' = Errors res \<and> Skipped res' = Skipped res
    \<and> (serving_slot (cat w) (AppID a) = online \<and> (\<forall>q \<in> set (ApplicationSlots (cat w) (AppID a)). settled st online q)
        \<longrightarrow> res' = res\<lparr>Checked := Suc (Checked res)\<rparr>)"
proof -
  obtain b where b: "GetApplication (cat w) i = Inr b" "AppID b = AppID a" "AppName b = AppName a"
    using assms(3) by (auto simp: subject_def)
  let ?rows = "ApplicationSlots (cat w) (AppID a)"
  obtain rt where rt: "ssRuntime s = Some rt" using assms(1) by (auto simp: facts_def split: option.splits)
  have spec: "spec_for (cat w) b = Inr spec" using assms(3) spec_for_cong [OF refl refl b(2), of "cat w"] by (simp add: subject_def)
  obtain w1 where w1: "now_io w = (Inr (clock w1), w1)" "cat w1 = cat w" "cancel_at w1 = None"
    using now_fields(1,3,5) [of w] assms(2) by (metis surj_pair)
  have "subject i b spec (cat w1)" using assms(3) b spec w1(2) by (simp add: subject_def slot_rows_def)
  note sub = this
  obtain res2 w2 where w2: "reconcile_serving s b ?rows spec (clock w1) res w1 = (Inr (Some online, res2), w2)"
    "subject i b spec (cat w2)" "serving_slot (cat w2) = (serving_slot (cat w1))(AppID b := online)"
    "application_slots (cat w2) = application_slots (cat w1)" "releases (cat w2) = releases (cat w1)" "cancel_at w2 = None"
    "Errors res2 = Errors res" "Skipped res2 = Skipped res"
    "serving_slot (cat w1) (AppID b) = online \<longrightarrow> res2 = res\<lparr>Checked := Suc (Checked res)\<rparr>"
    using reconcile_serving_corrects [OF assms(1) w1(3) sub assms(5), of ?rows "clock w1" res] by blast
  have "ApplicationSlots (cat w2) (AppID b) = ?rows" using w2(4) w1(2) b(2) by (simp add: ApplicationSlots_def)
  then have left: "rows_left b st online ?rows (cat w2)" using rows_left_start [OF w2(2)] by metis
  obtain res3 w3 where w3: "reconcile_rows s rt b ?rows spec (clock w1) online res2 ?rows w2 = (Inr res3, w3)"
    "rows_left b st online [] (cat w3)" "slots_only (cat w2) (cat w3)" "cancel_at w3 = None"
    "Errors res3 = Errors res2" "Skipped res3 = Skipped res2" "(\<forall>row \<in> set ?rows. settled st online row) \<longrightarrow> res3 = res2"
    using reconcile_rows_settles [OF assms(1) rt w2(6) left, of ?rows "clock w1" res2] by blast
  have e: "(cat w3)\<lparr>slot_events := [], application_slots := []\<rparr> = (cat w2)\<lparr>slot_events := [], application_slots := []\<rparr>"
    using w3(3) by (simp add: slots_only_def)
  have same: "serving_slot (cat w3) = serving_slot (cat w2)" "releases (cat w3) = releases (cat w2)"
    using arg_cong [OF e, of serving_slot] arg_cong [OF e, of releases] by simp_all
  have "subject i b spec (cat w3)" using subject_slots_only [OF w2(2) w3(3)] w3(2) by (simp add: rows_left_def)
  then have "subject i a spec (cat w3)"
    using b spec_for_cong [OF refl refl b(2), of "cat w3"] by (auto simp: subject_def slot_rows_def)
  moreover have "corrected a online st (cat w) (cat w3)"
    using same w2(3,5) w1(2) w3(2) b(2) by (auto simp: corrected_def rows_left_def ApplicationSlots_rows)
  moreover have "reconcileApplication s i res w = (Inr res3, w3)"
    using b w1(1) w2(1) w3(1) rt assms(4) specFor_uncancelled [OF assms(2) spec]
    by (simp add: reconcileApplication_def attempt_def andthen_def uncancelled [OF assms(2)])
  ultimately show ?thesis using w3(4-7) w2(7-9) w1(2) b(2) by auto
qed

section \<open>Properties\<close>

text \<open>C17 When Nginx and the process manager answer, reconciling a blue-green application makes the recorded
  serving slot the one Nginx leads to and the state of every slot the one that follows from both facts; it
  touches no release and reports no error, and a second reconciliation finds nothing left to change.\<close>

theorem reconcile_corrects:
  assumes "cat_reachable (cat w)" and "cancel_at w = None" and "GetApplication (cat w) i = Inr a"
    and "spec_for (cat w) a = Inr spec" and "BlueGreen spec"
    and "facts s spec online st" and "online = NoSlot \<or> Slot_Valid online"
  shows "\<exists>res' w'. reconcileApplication s i res w = (Inr res', w') \<and> corrected a online st (cat w) (cat w')
    \<and> Errors res' = Errors res \<and> Skipped res' = Skipped res
    \<and> (\<exists>w''. reconcileApplication s i no_changes w' = (Inr (no_changes\<lparr>Checked := 1\<rparr>), w''))"
proof -
  have app: "list_ex (\<lambda>q. AppID q = AppID a) (applications (cat w))"
    using assms(3) by (auto simp: GetApplication_def found_def list_ex_iff find_Some_iff dest: nth_mem split: option.splits)
  have "slot_rows a (cat w)"
    using cat_inv_slots [OF cat_reachable_inv [OF assms(1)]] by (auto simp: slot_rows_def slot_keys_def slots_inv_def)
  then have sub: "subject i a spec (cat w)" using assms(3,4) app by (simp add: subject_def)
  obtain res' w' where one: "reconcileApplication s i res w = (Inr res', w')" "subject i a spec (cat w')" "cancel_at w' = None"
    "corrected a online st (cat w) (cat w')" "Errors res' = Errors res" "Skipped res' = Skipped res"
    using reconcileApplication_corrects [OF assms(6,2) sub assms(5,7)] by blast
  have "serving_slot (cat w') (AppID a) = online" "\<forall>q \<in> set (ApplicationSlots (cat w') (AppID a)). settled st online q"
    using one(4) by (simp_all add: corrected_def)
  then have "\<exists>w''. reconcileApplication s i no_changes w' = (Inr (no_changes\<lparr>Checked := 1\<rparr>), w'')"
    using reconcileApplication_corrects [OF assms(6) one(3,2) assms(5,7), of no_changes] by (auto simp: no_changes_def)
  then show ?thesis using one by blast
qed

definition demo_slots :: "string list SlotService" where
  "demo_slots = \<lparr>ssRuntime = Some demo_runtime, ssNginx = Some (demo_nginx\<lparr>NxCurrent := (\<lambda>_ _. give SlotBlue)\<rparr>)\<rparr>"

definition stopped_blue :: CatDb where
  "stopped_blue = snd (PutApplicationSlot (demo_cat sample_blue_green) ''app1'' SlotBlue ''rel1'' SlotStopped None 5)"

theorem reconcile_corrects_witness:
  "let w = (demo_world sample_blue_green None)\<lparr>cat := stopped_blue\<rparr>
   in serving_slot (cat w) ''app1'' = NoSlot \<and> map AsState (ApplicationSlots (cat w) ''app1'') = [SlotStopped]
     \<and> (case reconcileApplication demo_slots ''shop'' no_changes w of
          (r, w') \<Rightarrow> r = Inr (no_changes\<lparr>Checked := 1, Changes := [\<lparr>ChApplication = ''shop'', ChField = ServingSlotField, ChSlot = SlotBlue\<rparr>,
              \<lparr>ChApplication = ''shop'', ChField = SlotStateField, ChSlot = SlotBlue\<rparr>]\<rparr>)
            \<and> corrected sample_application SlotBlue (\<lambda>_. RuntimeActive) (cat w) (cat w'))"
proof -
  let ?w = "(demo_world sample_blue_green None)\<lparr>cat := stopped_blue\<rparr>"
  have "cat_reachable stopped_blue"
    using demo_cat_reachable [of sample_blue_green] cat_step.put_slot unfolding stopped_blue_def cat_reachable_def
    by (rule rtranclp.rtrancl_into_rtrancl)
  then have reach: "cat_reachable (cat ?w)" by simp
  have never: "cancel_at ?w = None" by (simp add: demo_world_def)
  have a: "GetApplication (cat ?w) ''shop'' = Inr sample_application" by code_simp
  have m: "spec_for (cat ?w) sample_application = Inr sample_blue_green" by code_simp
  have b: "BlueGreen sample_blue_green" by code_simp
  have f: "facts demo_slots sample_blue_green SlotBlue (\<lambda>_. RuntimeActive)"
    by (simp add: facts_def demo_slots_def demo_nginx_def demo_runtime_def give_def)
  have v: "SlotBlue = NoSlot \<or> Slot_Valid SlotBlue" by (simp add: Slot_Valid_def)
  have e: "case reconcileApplication demo_slots ''shop'' no_changes ?w of
      (r, w') \<Rightarrow> r = Inr (no_changes\<lparr>Checked := 1, Changes := [\<lparr>ChApplication = ''shop'', ChField = ServingSlotField, ChSlot = SlotBlue\<rparr>,
              \<lparr>ChApplication = ''shop'', ChField = SlotStateField, ChSlot = SlotBlue\<rparr>]\<rparr>)" by code_simp
  have before: "serving_slot (cat ?w) ''app1'' = NoSlot \<and> map AsState (ApplicationSlots (cat ?w) ''app1'') = [SlotStopped]"
    by code_simp
  show ?thesis using reconcile_corrects [OF reach never a m b f v, of no_changes] e before by (auto simp: Let_def)
qed

end
