(* ===== verification/Backups.thy ===== *)
theory Backups
  imports World
begin

text \<open>
  The backup service (\<open>internal/application/backup.go\<close>): policies, requests, a run (the stream of an adapter,
  encoded, put into the store, and recorded), verification, restoring, and pruning.

  In a run the adapter writes into a pipe the store reads from; here the adapter writes everything first and
  the store gets the bytes that arrived with the fault the pipe was closed with. The clean-up uses a context
  that outlives the operation. Log lines keep their phase only, errors their code.
\<close>

section \<open>The service\<close>

text \<open>\<open>HashOf\<close> is what \<open>domain.Hasher\<close> computes.\<close>

record 'h BackupService =
  bsStore :: "'h StorageBackend option"
  bsSecrets :: "'h SecretResolver option"
  bsAdapters :: "(BackupResourceKind \<times> 'h BackupAdapter) list"
  bsCodec :: CodecLib
  HashOf :: "string \<Rightarrow> string"

definition newBackupService ::
  "'h StorageBackend option \<Rightarrow> 'h SecretResolver option \<Rightarrow> 'h BackupAdapter list \<Rightarrow> CodecLib \<Rightarrow> (string \<Rightarrow> string)
     \<Rightarrow> 'h BackupService" where
  "newBackupService store secrets adapters codec hash =
     \<lparr>bsStore = store, bsSecrets = secrets, bsAdapters = fold (\<lambda>a. AList.update (BaKind a) a) adapters [],
      bsCodec = codec, HashOf = hash\<rparr>"

definition Backups_Configured :: "'h BackupService \<Rightarrow> bool" where "Backups_Configured s \<longleftrightarrow> bsStore s \<noteq> None"

definition adapterFor :: "'h BackupService \<Rightarrow> BackupResourceKind \<Rightarrow> ErrorCode + 'h BackupAdapter" where
  "adapterFor s k = found (map_of (bsAdapters s) k) CodeManifestInvalid"

definition needs :: "ErrorCode + 'a \<Rightarrow> ('h, 'a) act" where
  "needs x = ask_code (\<lambda>_. x)"

definition need_store :: "'h BackupService \<Rightarrow> ('h, 'h StorageBackend) act" where
  "need_store s = needs (found (bsStore s) CodeConfigInvalid)"

text \<open>\<open>i\<close> is the identifier a new policy gets.\<close>

definition SavePolicy :: "'h BackupService \<Rightarrow> string \<Rightarrow> BackupPolicy option \<Rightarrow> string \<Rightarrow> ('h, BackupPolicy) act" where
  "SavePolicy s i policy updatedBy =
     (case policy of
        None \<Rightarrow> raise (Fault CodeManifestInvalid)
      | Some p \<Rightarrow>
          andthen (needs (BackupPolicy_Validate p)) (\<lambda>p.
          andthen (guard_io (\<not> GFS_Declared (GFS (BpRetention p))) CodeManifestInvalid) (\<lambda>_.
          andthen (needs (adapterFor s (BrKind (BpResource p)))) (\<lambda>adapter.
          andthen (call (BaValidate adapter p)) (\<lambda>_.
          andthen now_io (\<lambda>now.
          bks_run (\<lambda>dbs. SaveBackupPolicy dbs p i now updatedBy)))))))"

definition Backups_GetPolicy :: "string \<Rightarrow> ('h, BackupPolicy) act" where
  "Backups_GetPolicy ref = bks_get (\<lambda>db. GetBackupPolicy db ref)"

definition Backups_ListPolicies :: "('h, BackupPolicy list) act" where
  "Backups_ListPolicies = bks_ask ListBackupPolicies"

definition Backups_List :: "string \<Rightarrow> int \<Rightarrow> ('h, Backup list) act" where
  "Backups_List policyRef limit = bks_ask (\<lambda>db. ListBackups db policyRef limit)"

definition Backups_Get :: "string \<Rightarrow> ('h, Backup) act" where
  "Backups_Get i = bks_get (\<lambda>db. GetBackup db i)"

section \<open>Requests\<close>

text \<open>The resource of an operation: the name of the policy for a run, the identifier of the backup else.\<close>

definition ResolveBackupOperation :: "'h BackupService \<Rightarrow> Kind \<Rightarrow> string \<Rightarrow> ('h, string) act" where
  "ResolveBackupOperation s k ref =
     andthen (need_store s) (\<lambda>_.
     andthen (guard_io (k = KindBackupRun \<or> k = KindBackupVerify \<or> k = KindBackupRestore) CodeInvalidRequest) (\<lambda>_.
     if k = KindBackupRun
     then andthen (bks_get (\<lambda>db. GetBackupPolicy db ref)) (\<lambda>policy.
          andthen (needs (adapterFor s (BrKind (BpResource policy)))) (\<lambda>_.
          give (BpName policy)))
     else andthen (bks_get (\<lambda>db. GetBackup db ref)) (\<lambda>backup. give (BackupID backup))))"

definition PrepareRestore :: "string \<Rightarrow> RestoreMode \<Rightarrow> bool \<Rightarrow> ('h, Backup \<times> BackupPolicy \<times> RestoreMode) act" where
  "PrepareRestore backupID rmode confirmed =
     andthen (guard_io (RestoreMode_Valid rmode) CodeInvalidRequest) (\<lambda>_.
     andthen (bks_get (\<lambda>db. GetBackup db backupID)) (\<lambda>backup.
     andthen (bks_get (\<lambda>db. GetBackupPolicy db (BkPolicyID backup))) (\<lambda>policy.
     andthen (guard_io (\<not> (rmode = RestoreInPlace \<and> \<not> confirmed)) CodeBackupRestoreUnconfirmed) (\<lambda>_.
     andthen (guard_io (BkStatus backup = BackupSucceeded) CodeBackupNotFound) (\<lambda>_.
     give (backup, policy, rmode))))))"

section \<open>Parts of a run\<close>

text \<open>A call with a context that is never done.\<close>

definition call_detached :: "(bool \<Rightarrow> ('h, 'a) io) \<Rightarrow> ('h, 'a) act" where
  "call_detached m w = (case m False (host w) of (r, h) \<Rightarrow> (r, w\<lparr>host := h\<rparr>))"

definition cleanupAdapter :: "'h BackupAdapter \<Rightarrow> BackupPolicy \<Rightarrow> string \<Rightarrow> ('h, unit) act" where
  "cleanupAdapter adapter policy operationID = ignoring (call_detached (BaCleanup adapter policy operationID))"

text \<open>\<open>defer\<close>: it runs at the end in any case and has no error of its own.\<close>

definition deferring :: "('h, unit) act \<Rightarrow> ('h, 'a) act \<Rightarrow> ('h, 'a) act" where
  "deferring c m = attempt m (\<lambda>e. andthen c (\<lambda>_. raise e)) (\<lambda>x. andthen c (\<lambda>_. give x))"

definition resolveKey :: "'h BackupService \<Rightarrow> BackupPolicy \<Rightarrow> ('h, string option \<times> string) act" where
  "resolveKey s policy =
     (let encryption = Encryption (BpEncoding policy)
      in if \<not> EncEnabled encryption then give (None, [])
         else case bsSecrets s of
           None \<Rightarrow> raise (Fault CodeBackupKeyUnresolved)
         | Some secrets \<Rightarrow>
             attempt (call (SrResolve secrets (KeySecret encryption)))
               (\<lambda>_. raise (Fault CodeBackupKeyUnresolved))
               (\<lambda>value. give (Some value, KeyID (bsCodec s) value)))"

text \<open>What the store reads from the pipe, and what the adapter reports.\<close>

definition produce ::
  "'h BackupService \<Rightarrow> 'h BackupAdapter \<Rightarrow> BackupPolicy \<Rightarrow> string option \<Rightarrow> ('h, upload \<times> (fault + BackupMetadata \<times> int)) act" where
  "produce s adapter policy key =
     (let compression = BeCompression (BpEncoding policy)
      in case Encode (bsCodec s) compression key [] of
           Inl e \<Rightarrow> give (([], Some (Fault e)), Inl (Fault e))
         | Inr _ \<Rightarrow>
             andthen (call (BaBackup adapter policy)) (\<lambda>(pieces, outcome).
             case outcome of
               Inl e \<Rightarrow> give ((Encode_abandoned (bsCodec s) compression key pieces, Some e), Inl e)
             | Inr metadata \<Rightarrow>
                 (case Encode (bsCodec s) compression key pieces of
                    Inl e \<Rightarrow> give (([], Some (Fault e)), Inl (Fault e))
                  | Inr bytes \<Rightarrow> give ((bytes, None), Inr (metadata, int (length (concat pieces)))))))"

definition streamBackup ::
  "'h BackupService \<Rightarrow> 'h StorageBackend \<Rightarrow> 'h BackupAdapter \<Rightarrow> BackupPolicy \<Rightarrow> string option
     \<Rightarrow> ('h, BackupMetadata \<times> int \<times> Stored) act" where
  "streamBackup s store adapter policy key =
     andthen (produce s adapter policy key) (\<lambda>(body, outcome).
     andthen (call (StPut store body [])) (\<lambda>stored.
     case outcome of
       Inl e \<Rightarrow> raise e
     | Inr (metadata, logicalBytes) \<Rightarrow> give (metadata, logicalBytes, stored)))"

definition finishBackup :: "FinishBackupInput \<Rightarrow> ('h, Backup) act" where
  "finishBackup inp = andthen now_io (\<lambda>now. bks_run (\<lambda>dbs. FinishBackup dbs inp now))"

fun compression_text :: "Compression \<Rightarrow> string" where
  "compression_text CompressionNone = ''none''"
| "compression_text CompressionGzip = ''gzip''"
| "compression_text (CompressionOther t) = t"

definition compression_of :: "string \<Rightarrow> Compression" where
  "compression_of t = (if t = ''none'' then CompressionNone else if t = ''gzip'' then CompressionGzip else CompressionOther t)"

fun resource_kind_text :: "BackupResourceKind \<Rightarrow> string" where
  "resource_kind_text BackupResourceFiles = ''files''"
| "resource_kind_text BackupResourcePostgres = ''postgres''"
| "resource_kind_text BackupResourceMySQL = ''mysql''"
| "resource_kind_text (BackupResourceOther t) = t"

definition blank_backup :: Backup where
  "blank_backup =
     \<lparr>BackupID = [], BkPolicyID = [], BkOperationID = [], BkStatus = BackupStatusOther [], StorageDigest = [],
      LogicalBytes = 0, StoredBytes = 0, BkCompression = [], EncryptionKeyID = [], BkResourceKind = [],
      ServerVersion = [], ClientVersion = [], BkTool = [], Labels = [], BkStartedAt = 0, BkFinishedAt = None,
      VerifiedAt = None, VerifiedOK = None, BkErrorCode = [], BkErrorMessage = []\<rparr>"

definition running_backup :: "string \<Rightarrow> BackupPolicy \<Rightarrow> string \<Rightarrow> time \<Rightarrow> Backup" where
  "running_backup i policy operationID now =
     blank_backup\<lparr>BackupID := i, BkPolicyID := BpID policy, BkOperationID := operationID, BkStatus := BackupRunning,
       BkResourceKind := resource_kind_text (BrKind (BpResource policy)), BkStartedAt := now\<rparr>"

definition blank_finish :: "string \<Rightarrow> BackupStatus \<Rightarrow> FinishBackupInput" where
  "blank_finish i status =
     \<lparr>FbBackupID = i, FbStatus = status, FbStorageDigest = [], FbLogicalBytes = 0, FbStoredBytes = 0, FbCompression = [],
      FbEncryptionKeyID = [], FbServerVersion = [], FbClientVersion = [], FbTool = [], FbLabels = [], FbErrorCode = None,
      FbErrorMessage = []\<rparr>"

definition failed_run :: "string \<Rightarrow> fault \<Rightarrow> FinishBackupInput" where
  "failed_run i e = (blank_finish i BackupFailed)\<lparr>FbErrorCode := Some (CodeOf e)\<rparr>"

definition succeeded_run ::
  "string \<Rightarrow> BackupPolicy \<Rightarrow> string \<Rightarrow> BackupMetadata \<times> int \<times> Stored \<Rightarrow> FinishBackupInput" where
  "succeeded_run i policy keyID outcome =
     (case outcome of (metadata, logicalBytes, put) \<Rightarrow>
        (blank_finish i BackupSucceeded)\<lparr>FbStorageDigest := StDigest put, FbLogicalBytes := logicalBytes,
          FbStoredBytes := StSize put, FbCompression := compression_text (BeCompression (BpEncoding policy)),
          FbEncryptionKeyID := keyID, FbServerVersion := MdServerVersion metadata,
          FbClientVersion := MdClientVersion metadata, FbTool := MdTool metadata, FbLabels := MdLabels metadata\<rparr>)"

section \<open>A run\<close>

text \<open>The three stretches of a run: until the row is there, the stream, and recording the result. \<open>i\<close> is the
  identifier of the new backup.\<close>

definition run_opening ::
  "'h BackupService \<Rightarrow> 'h BackupAdapter \<Rightarrow> string \<Rightarrow> BackupPolicy \<Rightarrow> string \<Rightarrow> ('h, string option \<times> string) act" where
  "run_opening s adapter i policy operationID =
     andthen (appendLog operationID ''info'' PhaseValidate) (\<lambda>_.
     andthen (call (BaPreflight adapter policy)) (\<lambda>report.
     andthen (appendLog operationID ''info'' PhaseValidate) (\<lambda>_.
     andthen (resolveKey s policy) (\<lambda>(key, keyID).
     andthen now_io (\<lambda>now.
     andthen (bks_run (\<lambda>(od, bd). case CreateBackup od bd (running_backup i policy operationID now) of
         Inl e \<Rightarrow> (Inl e, od, bd) | Inr bd' \<Rightarrow> (Inr (), od, bd'))) (\<lambda>_.
     give (key, keyID)))))))"

definition run_closing ::
  "string \<Rightarrow> BackupPolicy \<Rightarrow> string \<Rightarrow> string \<Rightarrow> BackupMetadata \<times> int \<times> Stored \<Rightarrow> ('h, unit) act" where
  "run_closing i policy operationID keyID outcome =
     andthen (appendLog operationID ''info'' PhaseExecute) (\<lambda>_.
     andthen (finishBackup (succeeded_run i policy keyID outcome)) (\<lambda>_. give ()))"

definition ExecuteRun :: "'h BackupService \<Rightarrow> string \<Rightarrow> BackupPolicy \<Rightarrow> string \<Rightarrow> ('h, unit) act" where
  "ExecuteRun s i policy operationID =
     andthen (need_store s) (\<lambda>store.
     andthen (needs (adapterFor s (BrKind (BpResource policy)))) (\<lambda>adapter.
     deferring (cleanupAdapter adapter policy operationID)
       (andthen (run_opening s adapter i policy operationID) (\<lambda>(key, keyID).
        attempt (streamBackup s store adapter policy key)
          (\<lambda>err. andthen (ignoring (finishBackup (failed_run i err))) (\<lambda>_. raise err))
          (run_closing i policy operationID keyID)))))"

section \<open>Verifying and restoring\<close>

text \<open>A codec error as the fault the caller sees.\<close>

fun codec_fault :: "codec_error \<Rightarrow> fault" where
  "codec_fault (CodecError c) = Fault c"
| "codec_fault _ = Fault CodeInternal"

text \<open>The reader of the store: its bytes, and the read error that follows them if it breaks off.\<close>

definition raw_source :: "string \<times> bool \<Rightarrow> source" where
  "raw_source r = (fst r, if snd r then None else Some (CodecError CodeInternal))"

record openedBackup =
  opBackup :: Backup
  opPolicy :: BackupPolicy
  opReader :: source
  opRaw :: "string \<times> bool"

definition openBackup :: "'h BackupService \<Rightarrow> string \<Rightarrow> ('h, openedBackup) act" where
  "openBackup s backupID =
     andthen (need_store s) (\<lambda>store.
     andthen (bks_get (\<lambda>db. GetBackup db backupID)) (\<lambda>backup.
     andthen (guard_io (StorageDigest backup \<noteq> []) CodeBackupNotFound) (\<lambda>_.
     andthen (bks_get (\<lambda>db. GetBackupPolicy db (BkPolicyID backup))) (\<lambda>policy.
     andthen (call (StOpen store (StorageDigest backup))) (\<lambda>raw.
     andthen (resolveKey s policy) (\<lambda>(key, _).
     case Decode (bsCodec s) (raw_source raw) (compression_of (BkCompression backup)) key of
       Inl e \<Rightarrow> raise (codec_fault e)
     | Inr reader \<Rightarrow>
         give \<lparr>opBackup = backup, opPolicy = policy, opReader = reader, opRaw = raw\<rparr>))))))"

text \<open>The decoded stream is read to its end, so the hash is that of everything the store has.\<close>

definition verifyStream :: "'h BackupService \<Rightarrow> 'h BackupAdapter \<Rightarrow> openedBackup \<Rightarrow> ('h, unit) act" where
  "verifyStream s adapter opened =
     andthen (call (BaVerify adapter (opPolicy opened) (opReader opened))) (\<lambda>_.
     andthen (guard_io (snd (opReader opened) = None) CodeBackupVerifyFailed) (\<lambda>_.
     guard_io (StorageDigest (opBackup opened) = [] \<or> HashOf s (fst (opRaw opened)) = StorageDigest (opBackup opened))
       CodeBackupVerifyFailed))"

definition mark_verified :: "string \<Rightarrow> bool \<Rightarrow> ('h, unit) act" where
  "mark_verified backupID ok =
     andthen now_io (\<lambda>now. ignoring (bks_run (\<lambda>(od, bd). (Inr (), od, MarkBackupVerified bd backupID ok now))))"

definition ExecuteVerify :: "'h BackupService \<Rightarrow> string \<Rightarrow> string \<Rightarrow> ('h, unit) act" where
  "ExecuteVerify s operationID backupID =
     andthen (openBackup s backupID) (\<lambda>opened.
     andthen (needs (adapterFor s (BrKind (BpResource (opPolicy opened))))) (\<lambda>adapter.
     deferring (cleanupAdapter adapter (opPolicy opened) backupID)
       (andthen (appendLog operationID ''info'' PhaseExecute) (\<lambda>_.
        attempt (verifyStream s adapter opened)
          (\<lambda>err. andthen (mark_verified backupID False) (\<lambda>_. raise err))
          (\<lambda>_. andthen (mark_verified backupID True) (\<lambda>_. appendLog operationID ''info'' PhaseFinalize))))))"

definition ExecuteRestore :: "'h BackupService \<Rightarrow> string \<Rightarrow> string \<Rightarrow> RestoreMode \<Rightarrow> ('h, unit) act" where
  "ExecuteRestore s operationID backupID rmode =
     andthen (openBackup s backupID) (\<lambda>opened.
     andthen (needs (adapterFor s (BrKind (BpResource (opPolicy opened))))) (\<lambda>adapter.
     deferring (cleanupAdapter adapter (opPolicy opened) backupID)
       (andthen (appendLog operationID ''info'' PhaseExecute) (\<lambda>_.
        andthen (call (BaRestore adapter (opPolicy opened) (opReader opened) rmode)) (\<lambda>_.
        appendLog operationID ''info'' PhaseFinalize)))))"

section \<open>Pruning\<close>

datatype PruneReason = InUse | StillReferenced

record PruneResult =
  PrDryRun :: bool
  PrPolicy :: string
  PrRemoved :: "string list"
  PrSkipped :: "(string \<times> PruneReason) list"
  PrKept :: nat
  PrFreedBytes :: int
  IgnoredRetention :: "string list"
  PrTruncated :: bool

definition maxBackupScan :: int where "maxBackupScan = 5000"

definition countBackupReferences :: "Backup \<Rightarrow> ('h, nat) act" where
  "countBackupReferences backup =
     (if StorageDigest backup = [] then give 0
      else bks_ask (\<lambda>db. CountBackupReferencesByDigest db (StorageDigest backup)))"

definition by_id :: "Backup list \<Rightarrow> string \<Rightarrow> Backup" where
  "by_id rows i = (case find (\<lambda>b. BackupID b = i) (rev rows) of None \<Rightarrow> blank_backup | Some b \<Rightarrow> b)"

text \<open>The body of the loop for one backup that is not in use.\<close>

definition prune_dry :: "Backup \<Rightarrow> string \<Rightarrow> PruneResult \<Rightarrow> ('h, PruneResult) act" where
  "prune_dry backup i res =
     andthen (countBackupReferences backup) (\<lambda>references.
     let res = res\<lparr>PrRemoved := PrRemoved res @ [i]\<rparr>
     in give (if references \<le> 1 then res\<lparr>PrFreedBytes := PrFreedBytes res + StoredBytes backup\<rparr>
              else res\<lparr>PrSkipped := PrSkipped res @ [(i, StillReferenced)]\<rparr>))"

definition prune_backup :: "'h StorageBackend \<Rightarrow> time \<Rightarrow> Backup \<Rightarrow> string \<Rightarrow> PruneResult \<Rightarrow> ('h, PruneResult) act" where
  "prune_backup store now backup i res =
     andthen (bks_try (\<lambda>dbs. MarkBackupPruned dbs i now)) (\<lambda>_.
     andthen (countBackupReferences backup) (\<lambda>references.
     let res = res\<lparr>PrRemoved := PrRemoved res @ [i]\<rparr>
     in if 0 < references then give (res\<lparr>PrSkipped := PrSkipped res @ [(i, StillReferenced)]\<rparr>)
        else if StorageDigest backup = [] then give res
        else andthen (call (StDelete store (StorageDigest backup))) (\<lambda>_.
             give (res\<lparr>PrFreedBytes := PrFreedBytes res + StoredBytes backup\<rparr>))))"

primrec prune_rows ::
  "'h StorageBackend \<Rightarrow> bool \<Rightarrow> time \<Rightarrow> Backup list \<Rightarrow> string list \<Rightarrow> PruneResult \<Rightarrow> ('h, PruneResult) act" where
  "prune_rows store dryRun now rows [] res = give res"
| "prune_rows store dryRun now rows (i # rest) res =
     andthen (ask ctx_done) (\<lambda>stopped.
     andthen (guard_io (\<not> stopped) CodeExecCancelled) (\<lambda>_.
     andthen (with_ctx (ask (\<lambda>w. hasIncompleteOperation (ops w) i))) (\<lambda>inUse.
     if inUse then prune_rows store dryRun now rows rest (res\<lparr>PrSkipped := PrSkipped res @ [(i, InUse)]\<rparr>)
     else andthen (if dryRun then prune_dry (by_id rows i) i res else prune_backup store now (by_id rows i) i res)
            (prune_rows store dryRun now rows rest))))"

definition Prune :: "'h BackupService \<Rightarrow> string \<Rightarrow> bool \<Rightarrow> ('h, PruneResult) act" where
  "Prune s policyRef dryRun =
     andthen (need_store s) (\<lambda>store.
     andthen (bks_get (\<lambda>db. GetBackupPolicy db policyRef)) (\<lambda>policy.
     andthen now_io (\<lambda>now.
     andthen (bks_ask (\<lambda>db. ListBackupsForRetention db (BpID policy) maxBackupScan)) (\<lambda>rows.
     let plan = PlanRetention (Some (BpRetention policy)) rows now
     in prune_rows store dryRun now rows (Delete plan)
          \<lparr>PrDryRun = dryRun, PrPolicy = BpName policy, PrRemoved = [], PrSkipped = [], PrKept = length (Keep plan),
           PrFreedBytes = 0, IgnoredRetention = Ignored plan, PrTruncated = maxBackupScan \<le> int (length rows)\<rparr>))))"

end
