(* ===== verification/Blob.thy ===== *)
theory Blob
  imports World Fs
begin

text \<open>
  The content addressed store on the local disk (\<open>internal/adapters/blob/local.go\<close>) on the file tree of
  \<open>Fs\<close>, in which every call that changes something may fail, and the laws a storage back end keeps, which
  the services that use one rest on.

  The hash is a parameter that gives the digest of the whole content; so is the random part of the name of
  a temporary file, a function of the number of calls made so far. Sizes are the lengths of the contents;
  modification times are not modelled.
\<close>

section \<open>The store\<close>

record LocalStore =
  lsRoot :: string
  lsFileMode :: nat
  lsDirMode :: nat
  lsDigest :: "string \<Rightarrow> string"
  lsRandom :: "nat \<Rightarrow> string"

definition algorithmDir :: string where "algorithmDir = ''sha256''"
definition blobsDir :: string where "blobsDir = ''blobs''"
definition tmpDir :: string where "tmpDir = ''tmp''"

definition tmpPath :: "LocalStore \<Rightarrow> string" where
  "tmpPath l = PathJoin [lsRoot l, tmpDir]"

definition blobRoot :: "LocalStore \<Rightarrow> string" where
  "blobRoot l = PathJoin [lsRoot l, blobsDir, algorithmDir]"

definition blob_path :: "LocalStore \<Rightarrow> string \<Rightarrow> ErrorCode + string" where
  "blob_path l digest =
     (case Digest_Validate digest of
        Some e \<Rightarrow> Inl e
      | None \<Rightarrow>
          let hexPart = drop (length algorithmDir + 1) digest
          in Inr (PathJoin [blobRoot l, take 2 hexPart, take 2 (drop 2 hexPart), hexPart]))"

text \<open>A call of \<open>os\<close> as a step of the monad, with the code its failure gets.\<close>

definition os :: "ErrorCode \<Rightarrow> (Fs \<Rightarrow> fs_error option \<times> Fs) \<Rightarrow> (Fs, unit) io" where
  "os code f fs = (case f fs of (None, fs') \<Rightarrow> (Inr (), fs') | (Some _, fs') \<Rightarrow> (Inl (Fault code), fs'))"

text \<open>\<open>os.CreateTemp\<close>: a file that was not there, for its owner only. \<open>Sync\<close> and \<open>Close\<close> can only fail.\<close>

definition CreateTemp :: "string \<Rightarrow> Fs \<Rightarrow> fs_error option \<times> Fs" where
  "CreateTemp p = syscall (\<lambda>fs.
     if Lstat fs p \<noteq> None then Inl Exists
     else if is_dir fs (PathDir p) then Inr (AList.update p (new_node (File []) 384) (tree fs)) else Inl NotExist)"

definition Sync :: "Fs \<Rightarrow> fs_error option \<times> Fs" where
  "Sync = syscall (\<lambda>fs. Inr (tree fs))"

definition tmp_name :: "LocalStore \<Rightarrow> Fs \<Rightarrow> string" where
  "tmp_name l fs = PathJoin [tmpPath l, ''upload-'' @ lsRandom l (calls fs)]"

definition size_at :: "Fs \<Rightarrow> string \<Rightarrow> int" where
  "size_at fs p = (case ReadFile fs p of Inr c \<Rightarrow> int (length c) | Inl _ \<Rightarrow> 0)"

definition NewLocal :: "string \<Rightarrow> nat \<Rightarrow> nat \<Rightarrow> (string \<Rightarrow> string) \<Rightarrow> (nat \<Rightarrow> string) \<Rightarrow> (Fs, LocalStore) io" where
  "NewLocal dir fileMode dirMode digest random =
     (let l = \<lparr>lsRoot = dir, lsFileMode = fileMode, lsDirMode = dirMode, lsDigest = digest, lsRandom = random\<rparr>
      in andthen (guard_io (PathIsAbs dir) CodeConfigInvalid) (\<lambda>_.
         andthen (ask (\<lambda>fs. case Lstat fs dir of Some n \<Rightarrow> (\<exists>t. kind n = Link t) | None \<Rightarrow> False)) (\<lambda>link.
         andthen (guard_io (\<not> link) CodeConfigInvalid) (\<lambda>_.
         andthen (os CodeConfigInvalid (MkdirAll (lsRoot l) dirMode)) (\<lambda>_.
         andthen (os CodeConfigInvalid (MkdirAll (tmpPath l) dirMode)) (\<lambda>_.
         andthen (os CodeConfigInvalid (MkdirAll (blobRoot l) dirMode)) (\<lambda>_.
         give l)))))))"

section \<open>Putting\<close>

text \<open>The bytes that arrive are written to the temporary file; a done context ends the copy before the first
  of them, a fault of the stream after the last.\<close>

definition copyWithContext :: "string \<Rightarrow> upload \<Rightarrow> bool \<Rightarrow> (Fs, string) io" where
  "copyWithContext tmp body done =
     andthen (if done then raise Interrupted else give ()) (\<lambda>_.
     andthen (os CodeInternal (WriteFile tmp (fst body) 384)) (\<lambda>_.
     case snd body of Some e \<Rightarrow> raise e | None \<Rightarrow> give (fst body)))"

definition stored_at :: "string \<Rightarrow> string \<Rightarrow> (Fs, Stored) io" where
  "stored_at digest p fs =
     (case Stat fs p of
        None \<Rightarrow> (Inl (Fault CodeInternal), fs)
      | Some _ \<Rightarrow> (Inr \<lparr>StDigest = digest, StSize = size_at fs p\<rparr>, fs))"

text \<open>From the complete temporary file to its place; the flag says whether the temporary file was moved.\<close>

definition commit_blob :: "LocalStore \<Rightarrow> string \<Rightarrow> string \<Rightarrow> string \<Rightarrow> (Fs, Stored) io" where
  "commit_blob l tmp digest final =
     andthen (ask (\<lambda>fs. Stat fs final \<noteq> None)) (\<lambda>present.
     if present then andthen (stored_at digest final) (\<lambda>stored. andthen (ignoring (os CodeInternal (Remove tmp))) (\<lambda>_. give stored))
     else attempt
       (andthen (os CodeInternal (MkdirAll (PathDir final) (lsDirMode l))) (\<lambda>_.
        os CodeInternal (Rename tmp final)))
       (\<lambda>e. andthen (ignoring (os CodeInternal (Remove tmp))) (\<lambda>_. raise e))
       (\<lambda>_. stored_at digest final))"

definition fill_temp :: "LocalStore \<Rightarrow> string \<Rightarrow> upload \<Rightarrow> string \<Rightarrow> bool \<Rightarrow> (Fs, string \<times> string) io" where
  "fill_temp l tmp body expected done =
     andthen (os CodeInternal (Chmod tmp (lsFileMode l))) (\<lambda>_.
     andthen (copyWithContext tmp body done) (\<lambda>content.
     andthen (os CodeInternal Sync) (\<lambda>_.
     andthen (os CodeInternal Sync) (\<lambda>_.
     andthen (guard_io (expected = [] \<or> expected = lsDigest l content) CodeArtifactChecksum) (\<lambda>_.
     andthen (ask_code (\<lambda>_. blob_path l (lsDigest l content))) (\<lambda>final.
     give (lsDigest l content, final)))))))"

definition Local_Put :: "LocalStore \<Rightarrow> upload \<Rightarrow> string \<Rightarrow> bool \<Rightarrow> (Fs, Stored) io" where
  "Local_Put l body expected done =
     andthen (if expected \<noteq> [] then ask_code (\<lambda>_. case Digest_Validate expected of None \<Rightarrow> Inr () | Some e \<Rightarrow> Inl e)
              else give ()) (\<lambda>_.
     andthen (ask (tmp_name l)) (\<lambda>tmp.
     andthen (os CodeInternal (CreateTemp tmp)) (\<lambda>_.
     attempt (fill_temp l tmp body expected done)
       (\<lambda>e. andthen (ignoring (os CodeInternal (Remove tmp))) (\<lambda>_. raise e))
       (\<lambda>(digest, final). commit_blob l tmp digest final))))"

section \<open>Reading and removing\<close>

definition Local_Open :: "LocalStore \<Rightarrow> string \<Rightarrow> bool \<Rightarrow> (Fs, string \<times> bool) io" where
  "Local_Open l digest done fs =
     (case blob_path l digest of
        Inl e \<Rightarrow> (Inl (Fault e), fs)
      | Inr p \<Rightarrow>
          (case ReadFile fs p of
             Inl NotExist \<Rightarrow> (Inl (Fault CodeArtifactNotFound), fs)
           | Inl _ \<Rightarrow> (Inr ([], False), fs)
           | Inr c \<Rightarrow> (Inr (c, True), fs)))"

definition Local_Stat :: "LocalStore \<Rightarrow> string \<Rightarrow> bool \<Rightarrow> (Fs, Stored) io" where
  "Local_Stat l digest done fs =
     (case blob_path l digest of
        Inl e \<Rightarrow> (Inl (Fault e), fs)
      | Inr p \<Rightarrow>
          (case Stat fs p of
             None \<Rightarrow> (Inl (Fault CodeArtifactNotFound), fs)
           | Some n \<Rightarrow>
               if kind n = Dir then (Inl (Fault CodeInternal), fs)
               else (Inr \<lparr>StDigest = digest, StSize = size_at fs p\<rparr>, fs)))"

definition Local_Delete :: "LocalStore \<Rightarrow> string \<Rightarrow> bool \<Rightarrow> (Fs, unit) io" where
  "Local_Delete l digest done fs =
     (case blob_path l digest of
        Inl e \<Rightarrow> (Inl (Fault e), fs)
      | Inr p \<Rightarrow>
          (case Remove p fs of
             (Some NotExist, fs') \<Rightarrow> (Inr (), fs')
           | (Some _, fs') \<Rightarrow> (Inl (Fault CodeInternal), fs')
           | (None, fs') \<Rightarrow> (Inr (), fs')))"

text \<open>\<open>filepath.WalkDir\<close> in lexical order: what is not named like a digest is passed over.\<close>

definition base_name :: "string \<Rightarrow> string" where
  "base_name p = rev (takeWhile (\<lambda>c. c \<noteq> CHR ''/'') (rev p))"

definition listed_blob :: "string \<times> Node \<Rightarrow> Stored option" where
  "listed_blob entry =
     (case entry of (p, n) \<Rightarrow>
        if kind n = Dir then None
        else case ParseDigest (algorithmDir @ '':'' @ base_name p) of
          Inl _ \<Rightarrow> None
        | Inr d \<Rightarrow> Some \<lparr>StDigest = d, StSize = (case kind n of File c \<Rightarrow> int (length c) | Link t \<Rightarrow> int (length t) | Dir \<Rightarrow> 0)\<rparr>)"

definition Local_List :: "LocalStore \<Rightarrow> bool \<Rightarrow> (Fs, Stored list) io" where
  "Local_List l done fs =
     (let entries = sort_key (\<lambda>(p, _). Split CHR ''/'' p) (filter (\<lambda>(p, _). below (blobRoot l) p) (tree fs))
      in if Lstat fs (blobRoot l) = None then (Inr [], fs)
         else if done then (Inl (Fault CodeInternal), fs)
         else (Inr (List.map_filter listed_blob entries), fs))"

primrec cleanup_loop :: "string \<Rightarrow> bool \<Rightarrow> nat \<Rightarrow> (string \<times> Node) list \<Rightarrow> (Fs, nat) io" where
  "cleanup_loop dir done removed [] = give removed"
| "cleanup_loop dir done removed (entry # rest) =
     (if done then raise Interrupted
      else if kind (snd entry) = Dir then cleanup_loop dir done removed rest
      else andthen (os CodeInternal (Remove (PathJoin [dir, fst entry]))) (\<lambda>_.
           cleanup_loop dir done (Suc removed) rest))"

definition CleanupTemp :: "LocalStore \<Rightarrow> bool \<Rightarrow> (Fs, nat) io" where
  "CleanupTemp l done fs =
     (case ReadDir fs (tmpPath l) of
        Inl NotExist \<Rightarrow> (Inr 0, fs)
      | Inl _ \<Rightarrow> (Inl (Fault CodeInternal), fs)
      | Inr entries \<Rightarrow> cleanup_loop (tmpPath l) done 0 (sort_key fst entries) fs)"

definition local_backend :: "LocalStore \<Rightarrow> Fs StorageBackend" where
  "local_backend l =
     \<lparr>StPut = Local_Put l, StOpen = Local_Open l, StStat = Local_Stat l, StDelete = Local_Delete l, StList = Local_List l\<rparr>"

section \<open>Paths\<close>

text \<open>A store at a clean absolute path, with a hash that gives digests and random parts without a slash.\<close>

definition good_local :: "LocalStore \<Rightarrow> bool" where
  "good_local l \<longleftrightarrow>
     (\<exists>rs. rs \<noteq> [] \<and> (\<forall>s \<in> set rs. plain_segment s) \<and> lsRoot l = abs_path rs)
     \<and> (\<forall>c. Digest_Validate (lsDigest l c) = None) \<and> (\<forall>n. CHR ''/'' \<notin> set (lsRandom l n))"

lemma hex_plain: "s \<noteq> [] \<Longrightarrow> list_all lower_hex s \<Longrightarrow> plain_segment s"
  by (rule plain_segmentI) (auto simp: list_all_iff lower_hex_def less_eq_char_def neq_Nil_conv)

lemma Cut_found: "Cut s c = (a, b, True) \<Longrightarrow> s = a @ c # b"
proof -
  assume "Cut s c = (a, b, True)"
  then have c: "c \<in> set s" "a = takeWhile (\<lambda>x. x \<noteq> c) s" "b = tl (dropWhile (\<lambda>x. x \<noteq> c) s)"
    by (auto simp: Cut_def split: if_splits)
  moreover have "dropWhile (\<lambda>x. x \<noteq> c) s \<noteq> []" "hd (dropWhile (\<lambda>x. x \<noteq> c) s) = c"
    using c(1) hd_dropWhile [of "\<lambda>x. x \<noteq> c" s] by (auto simp: dropWhile_eq_Nil_conv)
  ultimately show ?thesis by (metis list.collapse takeWhile_dropWhile_id)
qed

lemma valid_digest:
  assumes "Digest_Validate d = None"
  obtains h where "d = ''sha256:'' @ h" "length h = 64" "list_all lower_hex h"
proof -
  obtain algorithm h f where c: "Cut d (CHR '':'') = (algorithm, h, f)" by (cases "Cut d (CHR '':'')") auto
  have v: "f" "algorithm = ''sha256''" "length h = 64" "list_all lower_hex h"
    using assms by (auto simp: Digest_Validate_def c first_err_Cons_None digestAlgorithm_def list_all_iff list_ex_iff)
  have "d = ''sha256:'' @ h" using c v(1,2) Cut_found [of d "CHR '':''" algorithm h] by simp
  then show ?thesis using that v by blast
qed

lemma plain_constants: "plain_segment ''blobs''" "plain_segment ''sha256''" "plain_segment ''tmp''"
  by (simp_all add: plain_segment_def)

lemma blob_path_segments:
  assumes "rs \<noteq> []" "\<forall>s \<in> set rs. plain_segment s" "lsRoot l = abs_path rs" "blob_path l d = Inr p"
  obtains h where "d = ''sha256:'' @ h" "length h = 64" "plain_segment h" "plain_segment (take 2 h)" "plain_segment (take 2 (drop 2 h))"
    "p = abs_path (rs @ [''blobs'', ''sha256'', take 2 h, take 2 (drop 2 h), h])"
proof -
  have "Digest_Validate d = None" using assms(4) by (simp add: blob_path_def split: option.splits)
  then obtain h where h: "d = ''sha256:'' @ h" "length h = 64" "list_all lower_hex h" by (rule valid_digest)
  have "h \<noteq> []" "take 2 h \<noteq> []" "take 2 (drop 2 h) \<noteq> []" using h(2) by auto
  moreover have "list_all lower_hex (take 2 h)" "list_all lower_hex (take 2 (drop 2 h))"
    using h(3) by (auto simp: list_all_iff dest: in_set_takeD in_set_dropD)
  ultimately have parts: "plain_segment h" "plain_segment (take 2 h)" "plain_segment (take 2 (drop 2 h))"
    using h(3) hex_plain by blast+
  have b: "blobRoot l = abs_path (rs @ [''blobs'', ''sha256''])"
    using assms(1-3) PathJoin_segments [of rs "[''blobs'', ''sha256'']"]
    by (simp add: blobRoot_def blobsDir_def algorithmDir_def plain_constants ball_Un)
  have "p = PathJoin [blobRoot l, take 2 h, take 2 (drop 2 h), h]"
    using assms(4) \<open>Digest_Validate d = None\<close> by (simp add: blob_path_def Let_def h(1) algorithmDir_def)
  also have "\<dots> = abs_path ((rs @ [''blobs'', ''sha256'']) @ [take 2 h, take 2 (drop 2 h), h])"
    unfolding b using assms(1,2) parts by (intro PathJoin_segments) (auto simp: plain_constants)
  finally show ?thesis using that h parts by simp
qed

text \<open>Where a blob lies nothing else of the store does.\<close>

lemma blob_path_inject:
  assumes "good_local l" "blob_path l d = Inr p" "blob_path l d' = Inr p"
  shows "d' = d"
proof -
  obtain rs where rs: "rs \<noteq> []" "\<forall>s \<in> set rs. plain_segment s" "lsRoot l = abs_path rs"
    using assms(1) by (auto simp: good_local_def)
  obtain h where h: "d = ''sha256:'' @ h" "plain_segment h" "plain_segment (take 2 h)" "plain_segment (take 2 (drop 2 h))"
    "p = abs_path (rs @ [''blobs'', ''sha256'', take 2 h, take 2 (drop 2 h), h])"
    using blob_path_segments [OF rs assms(2)] by metis
  obtain g where g: "d' = ''sha256:'' @ g" "plain_segment g" "plain_segment (take 2 g)" "plain_segment (take 2 (drop 2 g))"
    "p = abs_path (rs @ [''blobs'', ''sha256'', take 2 g, take 2 (drop 2 g), g])"
    using blob_path_segments [OF rs assms(3)] by metis
  have "rs @ [''blobs'', ''sha256'', take 2 h, take 2 (drop 2 h), h] = rs @ [''blobs'', ''sha256'', take 2 g, take 2 (drop 2 g), g]"
    using h(5) g(5) rs h(2-4) g(2-4)
    by (subst abs_path_inject [symmetric]) (auto simp: plain_constants)
  then show ?thesis using h(1) g(1) by simp
qed

lemma tmp_name_segments:
  assumes "rs \<noteq> []" "\<forall>s \<in> set rs. plain_segment s" "lsRoot l = abs_path rs" "\<forall>n. CHR ''/'' \<notin> set (lsRandom l n)"
  obtains t where "plain_segment t" "tmp_name l fs = abs_path (rs @ [''tmp'', t])"
proof -
  have t: "plain_segment (''upload-'' @ lsRandom l (calls fs))"
    using assms(4) by (intro plain_segment_append) (auto simp: plain_segment_def)
  have "tmpPath l = abs_path (rs @ [''tmp''])"
    using assms(1-3) PathJoin_segments [of rs "[''tmp'']"] by (simp add: tmpPath_def tmpDir_def plain_constants)
  then have "tmp_name l fs = abs_path ((rs @ [''tmp'']) @ [''upload-'' @ lsRandom l (calls fs)])"
    unfolding tmp_name_def using assms(1,2) t
    by (simp only:) (rule PathJoin_segments, auto simp: plain_constants)
  then show ?thesis using that [OF t] by simp
qed

lemma blob_not_tmp:
  assumes "good_local l" "blob_path l d = Inr p"
  shows "p \<noteq> tmp_name l fs"
proof -
  obtain rs where rs: "rs \<noteq> []" "\<forall>s \<in> set rs. plain_segment s" "lsRoot l = abs_path rs" "\<forall>n. CHR ''/'' \<notin> set (lsRandom l n)"
    using assms(1) by (auto simp: good_local_def)
  obtain t where t: "plain_segment t" "tmp_name l fs = abs_path (rs @ [''tmp'', t])" by (rule tmp_name_segments [OF rs])
  obtain h where h: "plain_segment h" "plain_segment (take 2 h)" "plain_segment (take 2 (drop 2 h))"
    "p = abs_path (rs @ [''blobs'', ''sha256'', take 2 h, take 2 (drop 2 h), h])"
    using blob_path_segments [OF rs(1-3) assms(2)] by metis
  show ?thesis unfolding t(2) h(4)
    by (subst abs_path_inject) (use rs(2) t(1) h(1-3) in \<open>auto simp: plain_constants\<close>)
qed

lemma in_lineage:
  assumes "segs \<noteq> []" "\<forall>s \<in> set segs. plain_segment s"
  shows "q \<in> set (lineage (abs_path segs)) \<longleftrightarrow> (\<exists>n. 1 \<le> n \<and> n \<le> length segs \<and> q = abs_path (take n segs))"
  by (auto simp: lineage_def Split_abs_path [OF assms] simp del: upt_Suc)

lemma longer_not_in_lineage:
  assumes "segs \<noteq> []" "\<forall>s \<in> set segs. plain_segment s" "\<forall>s \<in> set qs. plain_segment s" "length segs < length qs"
  shows "abs_path qs \<notin> set (lineage (abs_path segs))"
proof
  assume "abs_path qs \<in> set (lineage (abs_path segs))"
  then obtain n where n: "1 \<le> n" "n \<le> length segs" "abs_path qs = abs_path (take n segs)" using in_lineage [OF assms(1,2)] by blast
  have "qs = take n segs"
    using n assms by (subst (asm) abs_path_inject) (auto dest: in_set_takeD)
  then show False using assms(4) n(2) by simp
qed

lemma blob_not_in_lineage:
  assumes "good_local l" "blob_path l d = Inr p" "blob_path l d' = Inr p'"
  shows "p' \<notin> set (lineage (PathDir p))"
proof
  assume "p' \<in> set (lineage (PathDir p))"
  obtain rs where rs: "rs \<noteq> []" "\<forall>s \<in> set rs. plain_segment s" "lsRoot l = abs_path rs"
    using assms(1) by (auto simp: good_local_def)
  obtain h where h: "plain_segment h" "plain_segment (take 2 h)" "plain_segment (take 2 (drop 2 h))"
    "p = abs_path (rs @ [''blobs'', ''sha256'', take 2 h, take 2 (drop 2 h), h])"
    using blob_path_segments [OF rs assms(2)] by metis
  obtain g where g: "plain_segment g" "plain_segment (take 2 g)" "plain_segment (take 2 (drop 2 g))"
    "p' = abs_path (rs @ [''blobs'', ''sha256'', take 2 g, take 2 (drop 2 g), g])"
    using blob_path_segments [OF rs assms(3)] by metis
  let ?ds = "rs @ [''blobs'', ''sha256'', take 2 h, take 2 (drop 2 h)]"
  have ds: "?ds \<noteq> []" "\<forall>s \<in> set ?ds. plain_segment s" using rs h by (auto simp: plain_constants)
  have "PathDir p = abs_path ?ds" using PathDir_abs_path [OF ds h(1)] h(4) by simp
  moreover have "p' \<notin> set (lineage (abs_path ?ds))"
    unfolding g(4) by (rule longer_not_in_lineage [OF ds]) (use rs(2) g in \<open>auto simp: plain_constants\<close>)
  ultimately show False using \<open>p' \<in> set (lineage (PathDir p))\<close> by simp
qed

section \<open>The store as a map\<close>

text \<open>A store is intact when the file of every digest has this digest. Then it is a map.\<close>

definition intact :: "LocalStore \<Rightarrow> Fs \<Rightarrow> bool" where
  "intact l fs \<longleftrightarrow>
     (\<forall>d p n. blob_path l d = Inr p \<longrightarrow> Lstat fs p = Some n \<longrightarrow> (\<exists>c. kind n = File c \<and> lsDigest l c = d))"

definition blob :: "LocalStore \<Rightarrow> Fs \<Rightarrow> string \<Rightarrow> string option" where
  "blob l fs d =
     (case blob_path l d of
        Inl _ \<Rightarrow> None
      | Inr p \<Rightarrow> (case Lstat fs p of None \<Rightarrow> None | Some n \<Rightarrow> (case kind n of File c \<Rightarrow> Some c | _ \<Rightarrow> None)))"

definition same_blobs :: "LocalStore \<Rightarrow> Fs \<Rightarrow> Fs \<Rightarrow> bool" where
  "same_blobs l fs fs' \<longleftrightarrow> (\<forall>d p. blob_path l d = Inr p \<longrightarrow> Lstat fs' p = Lstat fs p)"

lemma same_blobs_refl [simp]: "same_blobs l fs fs"
  by (simp add: same_blobs_def)

lemma same_blobs_intact: "same_blobs l fs fs' \<Longrightarrow> intact l fs' \<longleftrightarrow> intact l fs"
  by (simp add: same_blobs_def intact_def)

lemma same_blobs_blob: "same_blobs l fs fs' \<Longrightarrow> blob l fs' = blob l fs"
  by (auto simp: same_blobs_def blob_def fun_eq_iff split: sum.split)

lemma intactE:
  assumes "intact l fs" "blob_path l d = Inr p"
  obtains "Lstat fs p = None" | n c where "Lstat fs p = Some n" "kind n = File c" "lsDigest l c = d"
  using assms unfolding intact_def by (cases "Lstat fs p") blast+

lemma intact_digest:
  assumes "intact l fs" "blob l fs d = Some c"
  shows "lsDigest l c = d"
proof -
  obtain p where p: "blob_path l d = Inr p" using assms(2) by (auto simp: blob_def split: sum.splits)
  show ?thesis using assms(2) by (cases rule: intactE [OF assms(1) p]) (auto simp: blob_def p)
qed

lemma intact_ReadFile:
  assumes "intact l fs" "blob_path l d = Inr p"
  shows "ReadFile fs p = (case blob l fs d of None \<Rightarrow> Inl NotExist | Some c \<Rightarrow> Inr c)"
    "Stat fs p = Lstat fs p" "blob l fs d = None \<longleftrightarrow> Lstat fs p = None"
  by (cases rule: intactE [OF assms]; simp add: blob_def assms(2) ReadFile_def Stat_def)+

text \<open>The temporary file holds \<open>c\<close>, and the blobs are those there were.\<close>

definition holding :: "LocalStore \<Rightarrow> Fs \<Rightarrow> string \<Rightarrow> string \<Rightarrow> Fs \<Rightarrow> bool" where
  "holding l fs0 tmp c fs \<longleftrightarrow> same_blobs l fs0 fs \<and> (\<exists>n. Lstat fs tmp = Some n \<and> kind n = File c)"

lemma contract_os:
  assumes "\<And>fs fs'. P fs \<Longrightarrow> f fs = (None, fs') \<Longrightarrow> Q () fs'" "\<And>fs fs' e. P fs \<Longrightarrow> f fs = (Some e, fs') \<Longrightarrow> E (Fault code) fs'"
  shows "contract P (os code f) Q E"
  using assms by (auto simp: contract_def os_def split: prod.split option.split)

definition uploads_to :: "LocalStore \<Rightarrow> string \<Rightarrow> bool" where
  "uploads_to l tmp \<longleftrightarrow> good_local l \<and> (\<exists>fs. tmp = tmp_name l fs)"

lemma same_blobs_tmp:
  assumes "uploads_to l tmp" "same_blobs l fs0 fs" "\<And>q. q \<noteq> tmp \<Longrightarrow> Lstat fs' q = Lstat fs q"
  shows "same_blobs l fs0 fs'"
  using assms blob_not_tmp unfolding same_blobs_def uploads_to_def by metis

lemma same_blobs_step: "same_blobs l fs0 fs \<Longrightarrow> Lstat fs' = Lstat fs \<Longrightarrow> same_blobs l fs0 fs'"
  by (simp add: same_blobs_def)

lemma CreateTemp_ok:
  "CreateTemp p fs = (None, fs') \<Longrightarrow> \<exists>n. Lstat fs' = (Lstat fs)(p \<mapsto> n) \<and> kind n = File []"
  unfolding CreateTemp_def
  by (drule syscall_ok) (auto simp: Lstat_def fun_eq_iff new_node_def dest!: sym [of _ "tree fs'"] split: if_splits)

lemma Chmod_ok:
  "Chmod p m fs = (None, fs') \<Longrightarrow> \<exists>n. Lstat fs p = Some n \<and> Lstat fs' = (Lstat fs)(p \<mapsto> n\<lparr>mode := m\<rparr>)"
  unfolding Chmod_def
  by (drule syscall_ok) (auto simp: Lstat_def fun_eq_iff dest!: sym [of _ "tree fs'"] split: option.splits)

lemma Sync_Lstat: "Sync fs = (r, fs') \<Longrightarrow> Lstat fs' = Lstat fs"
  by (cases r) (auto simp: Sync_def dest!: syscall_ok syscall_error Lstat_tree intro: Lstat_tree)

lemma CreateTemp_error: "CreateTemp p fs = (Some e, fs') \<Longrightarrow> Lstat fs' = Lstat fs"
  unfolding CreateTemp_def by (blast dest: syscall_error Lstat_tree)

section \<open>What putting does\<close>

lemma create_holds: "uploads_to l tmp \<Longrightarrow> contract (same_blobs l fs0) (os code (CreateTemp tmp)) (\<lambda>_. holding l fs0 tmp []) (\<lambda>_. same_blobs l fs0)"
  by (rule contract_os)
    (auto simp: holding_def dest!: CreateTemp_ok CreateTemp_error intro: same_blobs_step same_blobs_tmp)

lemma chmod_holds: "uploads_to l tmp \<Longrightarrow> contract (holding l fs0 tmp c) (os code (Chmod tmp m)) (\<lambda>_. holding l fs0 tmp c) (\<lambda>_. same_blobs l fs0)"
  by (rule contract_os)
    (auto simp: holding_def dest!: Chmod_ok Lstat_errors(8) intro: same_blobs_step same_blobs_tmp)

lemma write_holds: "uploads_to l tmp \<Longrightarrow> contract (holding l fs0 tmp c) (os code (WriteFile tmp c' m)) (\<lambda>_. holding l fs0 tmp c') (\<lambda>_. same_blobs l fs0)"
  by (rule contract_os)
    (auto simp: holding_def dest!: WriteFile_ok Lstat_errors(1) intro: same_blobs_step same_blobs_tmp)

lemma sync_holds: "uploads_to l tmp \<Longrightarrow> contract (holding l fs0 tmp c) (os code Sync) (\<lambda>_. holding l fs0 tmp c) (\<lambda>_. same_blobs l fs0)"
  by (rule contract_os) (auto simp: holding_def dest!: Sync_Lstat intro: same_blobs_step)

lemma remove_keeps: "uploads_to l tmp \<Longrightarrow> contract (same_blobs l fs0) (ignoring (os code (Remove tmp))) (\<lambda>_. same_blobs l fs0) E"
  by (rule contract_ignoring, rule contract_os)
    (auto dest!: Remove_ok Lstat_errors(3) intro: same_blobs_step same_blobs_tmp)

text \<open>The content has its place; only a digest that was not there has changed.\<close>

definition placed :: "LocalStore \<Rightarrow> Fs \<Rightarrow> string \<Rightarrow> Fs \<Rightarrow> bool" where
  "placed l fs0 c fs \<longleftrightarrow>
     (\<forall>d p. blob_path l d = Inr p \<longrightarrow>
        (if d = lsDigest l c \<and> Lstat fs0 p = None then \<exists>n. Lstat fs p = Some n \<and> kind n = File c
         else Lstat fs p = Lstat fs0 p))"

lemma placed_step: "placed l fs0 c fs \<Longrightarrow> same_blobs l fs fs' \<Longrightarrow> placed l fs0 c fs'"
  by (simp add: placed_def same_blobs_def)

lemma placed_same:
  assumes "good_local l" "same_blobs l fs0 fs" "blob_path l (lsDigest l c) = Inr final" "Lstat fs final \<noteq> None"
  shows "placed l fs0 c fs"
  unfolding placed_def
proof (intro allI impI)
  fix d p assume p: "blob_path l d = Inr p"
  have "Lstat fs p = Lstat fs0 p" using assms(2) p by (simp add: same_blobs_def)
  moreover have "Lstat fs0 p \<noteq> None" if "d = lsDigest l c" using assms p that \<open>Lstat fs p = Lstat fs0 p\<close> by auto
  ultimately show "if d = lsDigest l c \<and> Lstat fs0 p = None then \<exists>n. Lstat fs p = Some n \<and> kind n = File c else Lstat fs p = Lstat fs0 p"
    by auto
qed

lemma placed_renamed:
  assumes "good_local l" "uploads_to l tmp" "holding l fs0 tmp c fs" "blob_path l (lsDigest l c) = Inr final"
    "Lstat fs final = None" "Rename tmp final fs = (None, fs')"
  shows "placed l fs0 c fs' \<and> (\<exists>n. Lstat fs' final = Some n \<and> kind n = File c)"
proof -
  obtain n where n: "Lstat fs tmp = Some n" "kind n = File c" using assms(3) by (auto simp: holding_def)
  have e: "Lstat fs' = (Lstat fs)(tmp := None, final \<mapsto> n)" using Rename_file_ok [OF assms(6) n(1)] n(2) by blast
  have "placed l fs0 c fs'" unfolding placed_def
  proof (intro allI impI)
    fix d p assume p: "blob_path l d = Inr p"
    have "p \<noteq> tmp" using assms(1,2) p blob_not_tmp by (auto simp: uploads_to_def)
    have same: "Lstat fs p = Lstat fs0 p" using assms(3) p by (simp add: holding_def same_blobs_def)
    show "if d = lsDigest l c \<and> Lstat fs0 p = None then \<exists>n. Lstat fs' p = Some n \<and> kind n = File c else Lstat fs' p = Lstat fs0 p"
    proof (cases "d = lsDigest l c")
      case True
      then have "p = final" using p assms(4) by simp
      then show ?thesis using True n same assms(5) by (simp add: e)
    next
      case False
      then have "p \<noteq> final" using blob_path_inject [OF assms(1) p] assms(4) by metis
      then show ?thesis using False \<open>p \<noteq> tmp\<close> same by (simp add: e)
    qed
  qed
  then show ?thesis using n(2) by (simp add: e)
qed

lemma stored_at_contract:
  "contract (\<lambda>fs. P fs \<and> Stat fs p \<noteq> None) (stored_at d p) (\<lambda>r fs. P fs \<and> StDigest r = d) E"
  by (auto simp: contract_def stored_at_def split: option.split)

lemma mkdir_holds:
  assumes "good_local l" "uploads_to l tmp" "blob_path l d = Inr final"
  shows "contract (\<lambda>fs. holding l fs0 tmp c fs \<and> Lstat fs final = None) (os code (MkdirAll (PathDir final) m))
     (\<lambda>_ fs. holding l fs0 tmp c fs \<and> Lstat fs final = None) (\<lambda>_. same_blobs l fs0)"
proof (rule contract_os)
  fix fs fs' assume h: "holding l fs0 tmp c fs \<and> Lstat fs final = None" and m: "MkdirAll (PathDir final) m fs = (None, fs')"
  have b: "Lstat fs' p = Lstat fs p" if "blob_path l d' = Inr p" for d' p
    using MkdirAll_ok [OF m, of p] blob_not_in_lineage [OF assms(1,3) that] by blast
  moreover have "Lstat fs' tmp = Lstat fs tmp" using MkdirAll_ok [OF m, of tmp] h by (auto simp: holding_def)
  moreover have "Lstat fs' final = None" using b [OF assms(3)] h by simp
  ultimately show "holding l fs0 tmp c fs' \<and> Lstat fs' final = None"
    using h by (simp add: holding_def same_blobs_def)
next
  fix fs fs' e assume "holding l fs0 tmp c fs \<and> Lstat fs final = None" "MkdirAll (PathDir final) m fs = (Some e, fs')"
  then show "same_blobs l fs0 fs'" by (auto simp: holding_def dest!: Lstat_errors(5) intro: same_blobs_step)
qed

lemma commit_blob_contract:
  assumes "good_local l" "uploads_to l tmp" "intact l fs0" "blob_path l (lsDigest l c) = Inr final"
  shows "contract (holding l fs0 tmp c) (commit_blob l tmp (lsDigest l c) final)
     (\<lambda>r fs. placed l fs0 c fs \<and> StDigest r = lsDigest l c) (\<lambda>_. same_blobs l fs0)"
proof -
  let ?d = "lsDigest l c"
  have stat: "Stat fs final = Lstat fs final" if "same_blobs l fs0 fs" for fs
    using intact_ReadFile(2) [OF _ assms(4)] same_blobs_intact [OF that] assms(3) by blast
  have remove: "contract (\<lambda>fs. placed l fs0 c fs \<and> b) (ignoring (os CodeInternal (Remove tmp)))
      (\<lambda>_ fs. placed l fs0 c fs \<and> b) E" for b and E :: "fault \<Rightarrow> Fs \<Rightarrow> bool"
  proof (rule contractI)
    fix s r s' assume p: "placed l fs0 c s \<and> b" and m: "ignoring (os CodeInternal (Remove tmp)) s = (Inr r, s')"
    have "same_blobs l s s'" using contract_Inr [OF remove_keeps [OF assms(2)] _ m, of s] by simp
    then show "placed l fs0 c s' \<and> b" using p placed_step by blast
  qed (auto simp: io_defs os_def split: prod.splits option.splits)
  have here: "contract (\<lambda>fs. placed l fs0 c fs \<and> Stat fs final \<noteq> None)
      (andthen (stored_at ?d final) (\<lambda>stored. andthen (ignoring (os CodeInternal (Remove tmp))) (\<lambda>_. give stored)))
      (\<lambda>r fs. placed l fs0 c fs \<and> StDigest r = ?d) (\<lambda>_. same_blobs l fs0)"
    by (rule contract_andthen, rule stored_at_contract, rule contract_andthen, rule remove, rule contract_give)
  have ren: "contract (\<lambda>fs. holding l fs0 tmp c fs \<and> Lstat fs final = None) (os CodeInternal (Rename tmp final))
      (\<lambda>_ fs. placed l fs0 c fs \<and> Stat fs final \<noteq> None) (\<lambda>_. same_blobs l fs0)"
  proof (rule contract_os)
    fix fs fs' assume "holding l fs0 tmp c fs \<and> Lstat fs final = None" "Rename tmp final fs = (None, fs')"
    from placed_renamed [OF assms(1,2) conjunct1 [OF this(1)] assms(4) conjunct2 [OF this(1)] this(2)]
    show "placed l fs0 c fs' \<and> Stat fs' final \<noteq> None" by (auto simp: Stat_def)
  next
    fix fs fs' e assume "holding l fs0 tmp c fs \<and> Lstat fs final = None" "Rename tmp final fs = (Some e, fs')"
    then show "same_blobs l fs0 fs'" by (auto simp: holding_def dest!: Lstat_errors(2) intro: same_blobs_step)
  qed
  have there: "contract (\<lambda>fs. holding l fs0 tmp c fs \<and> Lstat fs final = None)
      (attempt (andthen (os CodeInternal (MkdirAll (PathDir final) (lsDirMode l))) (\<lambda>_. os CodeInternal (Rename tmp final)))
        (\<lambda>e. andthen (ignoring (os CodeInternal (Remove tmp))) (\<lambda>_. raise e)) (\<lambda>_. stored_at ?d final))
      (\<lambda>r fs. placed l fs0 c fs \<and> StDigest r = ?d) (\<lambda>_. same_blobs l fs0)"
    by (rule contract_attempt [OF contract_andthen [OF mkdir_holds [OF assms(1,2,4)] ren] stored_at_contract])
      (rule contract_andthen [OF remove_keeps [OF assms(2)]], rule contract_raise)
  show ?thesis unfolding commit_blob_def
  proof (rule contract_andthen, rule contract_ask)
    fix present
    show "contract (\<lambda>fs. holding l fs0 tmp c fs \<and> present = (Stat fs final \<noteq> None))
        (if present then andthen (stored_at ?d final) (\<lambda>stored. andthen (ignoring (os CodeInternal (Remove tmp))) (\<lambda>_. give stored))
         else attempt (andthen (os CodeInternal (MkdirAll (PathDir final) (lsDirMode l))) (\<lambda>_. os CodeInternal (Rename tmp final)))
           (\<lambda>e. andthen (ignoring (os CodeInternal (Remove tmp))) (\<lambda>_. raise e)) (\<lambda>_. stored_at ?d final))
        (\<lambda>r fs. placed l fs0 c fs \<and> StDigest r = ?d) (\<lambda>_. same_blobs l fs0)"
    proof (rule contract_if)
      assume present
      show "contract (\<lambda>fs. holding l fs0 tmp c fs \<and> present = (Stat fs final \<noteq> None))
          (andthen (stored_at ?d final) (\<lambda>stored. andthen (ignoring (os CodeInternal (Remove tmp))) (\<lambda>_. give stored)))
          (\<lambda>r fs. placed l fs0 c fs \<and> StDigest r = ?d) (\<lambda>_. same_blobs l fs0)"
        using \<open>present\<close> stat by (intro contract_conseq [OF here]) (auto simp: holding_def intro: placed_same [OF assms(1) _ assms(4)])
    next
      assume "\<not> present"
      then show "contract (\<lambda>fs. holding l fs0 tmp c fs \<and> present = (Stat fs final \<noteq> None))
          (attempt (andthen (os CodeInternal (MkdirAll (PathDir final) (lsDirMode l))) (\<lambda>_. os CodeInternal (Rename tmp final)))
            (\<lambda>e. andthen (ignoring (os CodeInternal (Remove tmp))) (\<lambda>_. raise e)) (\<lambda>_. stored_at ?d final))
          (\<lambda>r fs. placed l fs0 c fs \<and> StDigest r = ?d) (\<lambda>_. same_blobs l fs0)"
        using stat by (intro contract_conseq [OF there]) (auto simp: holding_def)
    qed
  qed
qed

lemma holding_same: "holding l fs0 tmp c fs \<Longrightarrow> same_blobs l fs0 fs"
  by (simp add: holding_def)

text \<open>The content that arrived completely, or an error and the blobs as they were.\<close>

lemma upload_contract:
  assumes "uploads_to l tmp"
  shows "contract (holding l fs0 tmp []) (copyWithContext tmp body dn)
     (\<lambda>c fs. holding l fs0 tmp c fs \<and> c = fst body \<and> snd body = None \<and> \<not> dn) (\<lambda>_. same_blobs l fs0)"
  unfolding copyWithContext_def
proof (rule contract_andthen)
  show "contract (holding l fs0 tmp []) (if dn then raise Interrupted else give ())
      (\<lambda>_ fs. holding l fs0 tmp [] fs \<and> \<not> dn) (\<lambda>_. same_blobs l fs0)"
    by (rule contract_if) (auto intro!: contract_raise contract_give holding_same)
  fix x :: unit
  show "contract (\<lambda>fs. holding l fs0 tmp [] fs \<and> \<not> dn)
      (andthen (os CodeInternal (WriteFile tmp (fst body) 384)) (\<lambda>_. case snd body of None \<Rightarrow> give (fst body) | Some e \<Rightarrow> raise e))
      (\<lambda>c fs. holding l fs0 tmp c fs \<and> c = fst body \<and> snd body = None \<and> \<not> dn) (\<lambda>_. same_blobs l fs0)"
    by (cases dn; cases "snd body")
      (auto intro!: contract_never contract_andthen [OF write_holds [OF assms]] contract_give contract_raise holding_same)
qed

lemma fill_temp_contract:
  assumes "uploads_to l tmp"
  shows "contract (holding l fs0 tmp []) (fill_temp l tmp body expected dn)
     (\<lambda>(d, final) fs. holding l fs0 tmp (fst body) fs \<and> d = lsDigest l (fst body) \<and> blob_path l d = Inr final \<and> snd body = None \<and> \<not> dn)
     (\<lambda>_. same_blobs l fs0)"
  unfolding fill_temp_def
proof (rule contract_andthen [OF chmod_holds [OF assms]], rule contract_andthen [OF upload_contract [OF assms]])
  fix c
  let ?b = "c = fst body \<and> snd body = None \<and> \<not> dn"
  note sync = contract_frame [OF sync_holds [OF assms], where b = ?b]
  show "contract (\<lambda>fs. holding l fs0 tmp c fs \<and> ?b)
      (andthen (os CodeInternal Sync) (\<lambda>_. andthen (os CodeInternal Sync) (\<lambda>_.
       andthen (guard_io (expected = [] \<or> expected = lsDigest l c) CodeArtifactChecksum) (\<lambda>_.
       andthen (ask_code (\<lambda>_. blob_path l (lsDigest l c))) (\<lambda>final. give (lsDigest l c, final))))))
      (\<lambda>(d, final) fs. holding l fs0 tmp (fst body) fs \<and> d = lsDigest l (fst body) \<and> blob_path l d = Inr final \<and> snd body = None \<and> \<not> dn)
      (\<lambda>_. same_blobs l fs0)"
    by (rule contract_andthen [OF sync], rule contract_andthen [OF sync], rule contract_andthen, rule contract_guardI, assumption,
        (simp add: holding_def), rule contract_andthen, rule contract_conseq, rule contract_ask_code, assumption,
        assumption, (auto simp: holding_def)[1], rule contract_give, auto)
qed

lemma Local_Put_contract:
  assumes "good_local l" "intact l fs0"
  shows "contract (\<lambda>fs. fs = fs0) (Local_Put l body expected dn)
     (\<lambda>r fs. placed l fs0 (fst body) fs \<and> StDigest r = lsDigest l (fst body) \<and> snd body = None \<and> \<not> dn)
     (\<lambda>_. same_blobs l fs0)"
  unfolding Local_Put_def
proof (rule contract_andthen [where R = "\<lambda>_. same_blobs l fs0"])
  show "contract (\<lambda>fs. fs = fs0)
      (if expected \<noteq> [] then ask_code (\<lambda>_. case Digest_Validate expected of None \<Rightarrow> Inr () | Some e \<Rightarrow> Inl e) else give ())
      (\<lambda>_. same_blobs l fs0) (\<lambda>_. same_blobs l fs0)"
    by (rule contract_if, rule contract_conseq, rule contract_ask_code [where P = "\<lambda>fs. fs = fs0"]) (auto intro: contract_give)
next
  fix x :: unit
  have body: "contract (\<lambda>fs. same_blobs l fs0 fs \<and> tmp = tmp_name l fs)
      (andthen (os CodeInternal (CreateTemp tmp)) (\<lambda>_.
       attempt (fill_temp l tmp body expected dn) (\<lambda>e. andthen (ignoring (os CodeInternal (Remove tmp))) (\<lambda>_. raise e))
         (\<lambda>(digest, final). commit_blob l tmp digest final)))
      (\<lambda>r fs. placed l fs0 (fst body) fs \<and> StDigest r = lsDigest l (fst body) \<and> snd body = None \<and> \<not> dn)
      (\<lambda>_. same_blobs l fs0)" (is "contract _ ?m ?Q ?E") for tmp
  proof (cases "uploads_to l tmp")
    case False
    then show ?thesis using assms(1) by (auto simp: contract_def uploads_to_def)
  next
    case u: True
    have commit: "contract (\<lambda>fs. holding l fs0 tmp (fst body) fs \<and> d = lsDigest l (fst body) \<and> blob_path l d = Inr final \<and> snd body = None \<and> \<not> dn)
        (commit_blob l tmp d final) ?Q ?E" for d final
    proof (cases "d = lsDigest l (fst body) \<and> blob_path l d = Inr final \<and> snd body = None \<and> \<not> dn")
      case True
      then have d: "d = lsDigest l (fst body)" and p: "blob_path l (lsDigest l (fst body)) = Inr final" by auto
      show ?thesis unfolding d
        by (rule contract_conseq [OF commit_blob_contract [OF assms(1) u assms(2) p]]) (use True in auto)
    next
      case False
      then show ?thesis by (auto simp: contract_def)
    qed
    have "contract (\<lambda>fs. same_blobs l fs0 fs) ?m ?Q ?E"
      by (rule contract_andthen [OF create_holds [OF u]], rule contract_attempt [OF fill_temp_contract [OF u]])
        (auto simp: split_beta intro!: commit contract_andthen [OF remove_keeps [OF u]] contract_raise)
    then show ?thesis by (rule contract_conseq) auto
  qed
  show "contract (same_blobs l fs0)
      (andthen (ask (tmp_name l)) (\<lambda>tmp. andthen (os CodeInternal (CreateTemp tmp)) (\<lambda>_.
         attempt (fill_temp l tmp body expected dn) (\<lambda>e. andthen (ignoring (os CodeInternal (Remove tmp))) (\<lambda>_. raise e))
           (\<lambda>(digest, final). commit_blob l tmp digest final))))
      (\<lambda>r fs. placed l fs0 (fst body) fs \<and> StDigest r = lsDigest l (fst body) \<and> snd body = None \<and> \<not> dn)
      (\<lambda>_. same_blobs l fs0)"
    by (rule contract_andthen [OF contract_ask body])
qed

section \<open>The laws of a store\<close>

text \<open>Putting adds the content under its digest, or changes nothing; every other call of the store keeps the map,
  except that removing takes its digest out. No pattern of failing calls makes a difference.\<close>

lemma placed_blob:
  assumes "good_local l" "intact l fs0" "placed l fs0 c fs"
  shows "intact l fs"
    "blob l fs = (if blob l fs0 (lsDigest l c) = None then (blob l fs0)(lsDigest l c \<mapsto> c) else blob l fs0)"
proof -
  show "intact l fs" unfolding intact_def
  proof (intro allI impI)
    fix d p n assume p: "blob_path l d = Inr p" and n: "Lstat fs p = Some n"
    show "\<exists>c. kind n = File c \<and> lsDigest l c = d"
      using assms(3) p n unfolding placed_def
      by (cases rule: intactE [OF assms(2) p]) (fastforce split: if_splits)+
  qed
  have valid: "Digest_Validate (lsDigest l c) = None" using assms(1) by (simp add: good_local_def)
  then obtain q where q: "blob_path l (lsDigest l c) = Inr q" by (simp add: blob_path_def Let_def)
  show "blob l fs = (if blob l fs0 (lsDigest l c) = None then (blob l fs0)(lsDigest l c \<mapsto> c) else blob l fs0)"
  proof
    fix d
    show "blob l fs d = (if blob l fs0 (lsDigest l c) = None then (blob l fs0)(lsDigest l c \<mapsto> c) else blob l fs0) d"
    proof (cases "blob_path l d")
      case (Inl e)
      then show ?thesis using q by (auto simp: blob_def)
    next
      case (Inr p)
      have "if d = lsDigest l c \<and> Lstat fs0 p = None then \<exists>n. Lstat fs p = Some n \<and> kind n = File c else Lstat fs p = Lstat fs0 p"
        using assms(3) Inr by (simp add: placed_def)
      moreover have "blob l fs0 (lsDigest l c) = None \<longleftrightarrow> Lstat fs0 q = None" by (rule intact_ReadFile(3) [OF assms(2) q])
      ultimately show ?thesis using Inr q by (auto simp: blob_def split: if_splits)
    qed
  qed
qed

lemma Local_Put_spec:
  assumes "good_local l" "intact l fs" "Local_Put l body expected dn fs = (r, fs')"
  shows "intact l fs' \<and>
    (case r of
       Inl _ \<Rightarrow> blob l fs' = blob l fs
     | Inr s \<Rightarrow> StDigest s = lsDigest l (fst body) \<and> snd body = None \<and> \<not> dn \<and>
         blob l fs' = (if blob l fs (lsDigest l (fst body)) = None then (blob l fs)(lsDigest l (fst body) \<mapsto> fst body) else blob l fs))"
proof (cases r)
  case (Inl e)
  then have "same_blobs l fs fs'" using contract_Inl [OF Local_Put_contract [OF assms(1,2)] _ assms(3) [unfolded Inl]] by simp
  then show ?thesis using Inl assms(2) same_blobs_intact same_blobs_blob by force
next
  case (Inr s)
  then have *: "placed l fs (fst body) fs' \<and> StDigest s = lsDigest l (fst body) \<and> snd body = None \<and> \<not> dn"
    using contract_Inr [OF Local_Put_contract [OF assms(1,2)] _ assms(3) [unfolded Inr]] by simp
  then have "placed l fs (fst body) fs'" by simp
  from placed_blob [OF assms(1,2) this] show ?thesis using Inr * by simp
qed

lemma Local_Open_spec:
  assumes "intact l fs" "Local_Open l d dn fs = (r, fs')"
  shows "fs' = fs"
    "r = (case blob_path l d of Inl e \<Rightarrow> Inl (Fault e)
          | Inr _ \<Rightarrow> (case blob l fs d of None \<Rightarrow> Inl (Fault CodeArtifactNotFound) | Some c \<Rightarrow> Inr (c, True)))"
proof -
  show "fs' = fs" using assms(2) by (auto simp: Local_Open_def split: sum.splits fs_error.splits)
  show "r = (case blob_path l d of Inl e \<Rightarrow> Inl (Fault e)
      | Inr _ \<Rightarrow> (case blob l fs d of None \<Rightarrow> Inl (Fault CodeArtifactNotFound) | Some c \<Rightarrow> Inr (c, True)))"
  proof (cases "blob_path l d")
    case (Inr p)
    then show ?thesis using assms(2) by (cases "blob l fs d") (simp_all add: Local_Open_def intact_ReadFile(1) [OF assms(1) Inr])
  qed (use assms(2) in \<open>simp add: Local_Open_def\<close>)
qed

lemma Remove_missing: "Remove p fs = (Some NotExist, fs') \<Longrightarrow> Lstat fs p = None"
  by (auto simp: Remove_def syscall_def Let_def split: if_splits option.splits sum.splits)

lemma Local_Delete_spec:
  assumes "good_local l" "intact l fs" "Local_Delete l d dn fs = (r, fs')"
  shows "intact l fs' \<and> blob l fs' = (case r of Inl _ \<Rightarrow> blob l fs | Inr _ \<Rightarrow> (blob l fs)(d := None))"
proof (cases "blob_path l d")
  case (Inl e)
  then show ?thesis using assms(2,3) by (auto simp: Local_Delete_def)
next
  case (Inr p)
  obtain x where x: "Remove p fs = (x, fs')" using assms(3) Inr by (auto simp: Local_Delete_def split: prod.splits option.splits fs_error.splits)
  show ?thesis
  proof (cases x)
    case None
    have e: "Lstat fs' = (Lstat fs)(p := None)" using Remove_ok x None by blast
    have r: "r = Inr ()" using assms(3) Inr x None by (simp add: Local_Delete_def)
    have "intact l fs'" using assms(2) by (auto simp: intact_def e split: if_splits)
    moreover have "blob l fs' = (blob l fs)(d := None)"
      using blob_path_inject [OF assms(1) Inr] by (auto simp: blob_def e Inr fun_eq_iff split: sum.split)
    ultimately show ?thesis using r by simp
  next
    case (Some e)
    have same: "same_blobs l fs fs'" using Lstat_errors(3) x Some by (auto simp: same_blobs_def)
    have "intact l fs'" "blob l fs' = blob l fs" using assms(2) same_blobs_intact [OF same] same_blobs_blob [OF same] by auto
    moreover have "(blob l fs)(d := None) = blob l fs" if "e = NotExist"
      using intact_ReadFile(3) [OF assms(2) Inr] Remove_missing x Some that by auto
    ultimately show ?thesis using assms(3) Inr x Some by (cases e) (auto simp: Local_Delete_def)
  qed
qed

lemma Local_reads: "Local_Stat l d dn fs = (r, fs') \<Longrightarrow> fs' = fs" "Local_List l dn fs = (q, fs') \<Longrightarrow> fs' = fs"
  by (auto simp: Local_Stat_def Local_List_def Let_def split: sum.splits option.splits if_splits)

text \<open>What the services rest on, whatever the state of the back end is.\<close>

locale blob_store =
  fixes store :: "'h StorageBackend" and sound :: "'h \<Rightarrow> bool" and content :: "'h \<Rightarrow> string \<Rightarrow> string option"
    and digest :: "string \<Rightarrow> string"
  assumes put_sound: "sound h \<Longrightarrow> StPut store body expected dn h = (r, h') \<Longrightarrow> sound h'"
    and put_failed: "sound h \<Longrightarrow> StPut store body expected dn h = (Inl e, h') \<Longrightarrow> content h' = content h"
    and put_stored: "sound h \<Longrightarrow> StPut store body expected dn h = (Inr s, h') \<Longrightarrow>
      snd body = None \<and> StDigest s = digest (fst body) \<and> digest (fst body) \<noteq> [] \<and>
      content h' = (if content h (digest (fst body)) = None then (content h)(digest (fst body) \<mapsto> fst body) else content h)"
    and delete_other: "sound h \<Longrightarrow> StDelete store d dn h = (r', h') \<Longrightarrow> d' \<noteq> d \<Longrightarrow> content h' d' = content h d'"
    and delete_sound: "sound h \<Longrightarrow> StDelete store d dn h = (r', h') \<Longrightarrow> sound h'"
    and open_content: "sound h \<Longrightarrow> StOpen store d dn h = (o', h') \<Longrightarrow>
      h' = h \<and> (\<forall>c. o' = Inr (c, True) \<longrightarrow> content h d = Some c) \<and> (\<forall>c. content h d = Some c \<longrightarrow> o' = Inr (c, True))"
    and stat_reads: "sound h \<Longrightarrow> StStat store d dn h = (r, h') \<Longrightarrow> h' = h"
    and list_reads: "sound h \<Longrightarrow> StList store dn h = (q, h') \<Longrightarrow> h' = h"
begin

lemma put_keeps:
  assumes "sound h" "StPut store body expected dn h = (r, h')" "content h d = Some c"
  shows "content h' d = Some c"
  using put_failed [OF assms(1)] put_stored [OF assms(1)] assms(2,3) by (cases r) (auto split: if_splits)

lemma delete_keeps:
  "sound h \<Longrightarrow> StDelete store d dn h = (r, h') \<Longrightarrow> d' \<noteq> d \<Longrightarrow> content h d' = Some c \<Longrightarrow> content h' d' = Some c"
  using delete_other by metis

end

interpretation disk: blob_store "local_backend l" "\<lambda>fs. good_local l \<and> intact l fs" "blob l" "lsDigest l"
proof
  fix h body expected dn r h'
  assume "good_local l \<and> intact l h" "StPut (local_backend l) body expected dn h = (r, h')"
  then show "good_local l \<and> intact l h'" using Local_Put_spec [of l h body expected dn r h'] by (simp add: local_backend_def)
next
  fix h body expected dn e h'
  assume "good_local l \<and> intact l h" "StPut (local_backend l) body expected dn h = (Inl e, h')"
  then show "blob l h' = blob l h" using Local_Put_spec [of l h body expected dn "Inl e" h'] by (simp add: local_backend_def)
next
  fix h body expected dn s h'
  assume a: "good_local l \<and> intact l h" "StPut (local_backend l) body expected dn h = (Inr s, h')"
  have "Digest_Validate (lsDigest l (fst body)) = None" using a(1) by (simp add: good_local_def)
  then have "lsDigest l (fst body) \<noteq> []" by (rule valid_digest) simp
  then show "snd body = None \<and> StDigest s = lsDigest l (fst body) \<and> lsDigest l (fst body) \<noteq> [] \<and>
      blob l h' = (if blob l h (lsDigest l (fst body)) = None then (blob l h)(lsDigest l (fst body) \<mapsto> fst body) else blob l h)"
    using Local_Put_spec [of l h body expected dn "Inr s" h'] a by (simp add: local_backend_def)
next
  fix h d dn r h' d'
  assume s: "good_local l \<and> intact l h" and p: "StDelete (local_backend l) d dn h = (r, h')"
  then have "Local_Delete l d dn h = (r, h')" by (simp add: local_backend_def)
  note spec = Local_Delete_spec [OF conjunct1 [OF s] conjunct2 [OF s] this]
  show "good_local l \<and> intact l h'" using s spec by simp
  show "blob l h' d' = blob l h d'" if "d' \<noteq> d" using spec that by (auto split: sum.splits)
next
  fix h d dn r h'
  assume "good_local l \<and> intact l h" "StOpen (local_backend l) d dn h = (r, h')"
  then have *: "h' = h" "r = (case blob_path l d of Inl e \<Rightarrow> Inl (Fault e)
      | Inr _ \<Rightarrow> (case blob l h d of None \<Rightarrow> Inl (Fault CodeArtifactNotFound) | Some c \<Rightarrow> Inr (c, True)))"
    using Local_Open_spec [of l h d dn r h'] by (auto simp: local_backend_def)
  have "blob l h d = None" if "blob_path l d = Inl e" for e using that by (simp add: blob_def)
  then show "h' = h \<and> (\<forall>c. r = Inr (c, True) \<longrightarrow> blob l h d = Some c) \<and> (\<forall>c. blob l h d = Some c \<longrightarrow> r = Inr (c, True))"
    using * by (auto split: sum.splits option.splits)
qed (auto simp: local_backend_def dest: Local_reads)

section \<open>An example, and the store as a map\<close>

definition toy_digest :: "string \<Rightarrow> string" where
  "toy_digest c = ''sha256:'' @ replicate 63 CHR ''0'' @ (if even (length c) then ''0'' else ''1'')"

definition demo_store :: LocalStore where
  "demo_store = \<lparr>lsRoot = ''/srv/blobs'', lsFileMode = 416, lsDirMode = 488, lsDigest = toy_digest, lsRandom = (\<lambda>n. ''7'')\<rparr>"

definition demo_disk :: Fs where
  "demo_disk = \<lparr>tree = map (\<lambda>p. (p, new_node Dir 488)) [''/srv'', ''/srv/blobs'', ''/srv/blobs/tmp'', ''/srv/blobs/blobs'', ''/srv/blobs/blobs/sha256''],
     calls = 0, faulty = (\<lambda>n. False)\<rparr>"

lemma demo_store_good: "good_local demo_store"
proof -
  have "Digest_Validate (toy_digest c) = None" for c by (cases "even (length c)") (simp_all add: toy_digest_def, code_simp+)
  moreover have "''/srv/blobs'' = abs_path [''srv'', ''blobs'']" by code_simp
  ultimately show ?thesis unfolding good_local_def demo_store_def
    by (auto simp: plain_segment_def intro!: exI [of _ "[''srv'', ''blobs'']"])
qed

lemma demo_no_blobs: "blob_path demo_store d = Inr p \<Longrightarrow> Lstat demo_disk p = None"
proof -
  assume p: "blob_path demo_store d = Inr p"
  have root: "[''srv'', ''blobs''] \<noteq> []" "\<forall>s \<in> set [''srv'', ''blobs'']. plain_segment s" "lsRoot demo_store = abs_path [''srv'', ''blobs'']"
    by (auto simp: plain_segment_def demo_store_def abs_path_def)
  have "length p > 64"
    by (rule blob_path_segments [OF root p]) (simp add: abs_path_def)
  then show ?thesis by (auto simp: Lstat_def demo_disk_def map_of_eq_None_iff)
qed

lemma demo_disk_intact: "intact demo_store demo_disk"
  by (simp add: intact_def demo_no_blobs)

text \<open>C20 Whatever calls of the file system fail, however an upload ends and whenever the context ends, the
  store behaves as a map from digests to contents: a successful Put of a stream that arrived completely adds its
  content under its digest, or keeps what is there; a Put that fails changes nothing; Delete takes out exactly
  its digest, or nothing when it fails; Open gives what the map has; and the content under a digest always has
  this digest.\<close>

theorem store_is_a_map:
  assumes "good_local l" "intact l fs"
  shows "(case Local_Put l body expected dn fs of (r, fs') \<Rightarrow> intact l fs' \<and>
            blob l fs' = (if (\<exists>s. r = Inr s) \<and> blob l fs (lsDigest l (fst body)) = None
                          then (blob l fs)(lsDigest l (fst body) \<mapsto> fst body) else blob l fs) \<and>
            (\<forall>s. r \<noteq> Inr s \<or> snd body = None \<and> \<not> dn \<and> StDigest s = lsDigest l (fst body)))
       \<and> (case Local_Delete l d dn fs of (r, fs') \<Rightarrow> intact l fs' \<and>
            blob l fs' = (if r = Inr () then (blob l fs)(d := None) else blob l fs))
       \<and> Local_Open l d dn fs =
           ((case blob_path l d of Inl e \<Rightarrow> Inl (Fault e)
             | Inr _ \<Rightarrow> (case blob l fs d of None \<Rightarrow> Inl (Fault CodeArtifactNotFound) | Some c \<Rightarrow> Inr (c, True))), fs)
       \<and> (blob l fs d = None \<or> lsDigest l (the (blob l fs d)) = d)"
proof (intro conjI)
  obtain r fs' where p: "Local_Put l body expected dn fs = (r, fs')" by (cases "Local_Put l body expected dn fs")
  show "case Local_Put l body expected dn fs of (r, fs') \<Rightarrow> intact l fs' \<and>
      blob l fs' = (if (\<exists>s. r = Inr s) \<and> blob l fs (lsDigest l (fst body)) = None
                    then (blob l fs)(lsDigest l (fst body) \<mapsto> fst body) else blob l fs) \<and>
      (\<forall>s. r \<noteq> Inr s \<or> snd body = None \<and> \<not> dn \<and> StDigest s = lsDigest l (fst body))"
    unfolding p prod.case using Local_Put_spec [OF assms p] by (cases r) simp_all
  obtain q fs'' where q: "Local_Delete l d dn fs = (q, fs'')" by (cases "Local_Delete l d dn fs")
  show "case Local_Delete l d dn fs of (r, fs') \<Rightarrow> intact l fs' \<and>
      blob l fs' = (if r = Inr () then (blob l fs)(d := None) else blob l fs)"
    using Local_Delete_spec [OF assms q] by (cases q) (simp_all add: q)
  obtain x fs3 where x: "Local_Open l d dn fs = (x, fs3)" by (cases "Local_Open l d dn fs")
  show "Local_Open l d dn fs =
      ((case blob_path l d of Inl e \<Rightarrow> Inl (Fault e)
        | Inr _ \<Rightarrow> (case blob l fs d of None \<Rightarrow> Inl (Fault CodeArtifactNotFound) | Some c \<Rightarrow> Inr (c, True))), fs)"
    using Local_Open_spec [OF assms(2) x] x by simp
  show "blob l fs d = None \<or> lsDigest l (the (blob l fs d)) = d"
    using intact_digest [OF assms(2)] by (cases "blob l fs d") simp_all
qed

text \<open>An upload into an empty store is there afterwards.\<close>

theorem store_is_a_map_witness:
  "case Local_Put demo_store (''ab'', None) [] False demo_disk of (r, fs') \<Rightarrow>
     r = Inr \<lparr>StDigest = toy_digest ''ab'', StSize = 2\<rparr> \<and> intact demo_store fs' \<and> blob demo_store fs' (toy_digest ''ab'') = Some ''ab''"
proof -
  let ?m = "Local_Put demo_store (''ab'', None) [] False demo_disk"
  have r: "fst ?m = Inr \<lparr>StDigest = toy_digest ''ab'', StSize = 2\<rparr>" by code_simp
  have empty: "blob demo_store demo_disk (toy_digest ''ab'') = None" by code_simp
  have l: "lsDigest demo_store = toy_digest" by (simp add: demo_store_def)
  from store_is_a_map [OF demo_store_good demo_disk_intact, where body = "(''ab'', None)" and expected = "[]" and dn = False] r empty
  show ?thesis by (cases ?m) (auto simp: l)
qed

end
