(* ===== verification/BackupProps.thy ===== *)
theory BackupProps
  imports Backups Blob OpInv
begin

text \<open>
  What the backup service keeps, on any store that obeys the laws of \<open>blob_store\<close>: pruning takes away only
  what the plan says and never the content a remaining backup needs; a run ends with its content in the store
  or leaves it unrecorded; what was written is what a restore reads. And where it goes wrong: pruning while a
  run is in progress, and verifications that fail when the backup is opened.
\<close>

section \<open>Pruning\<close>

definition marked :: "string set \<Rightarrow> Backup \<Rightarrow> Backup" where
  "marked S b = (if BackupID b \<in> S \<and> BkStatus b = BackupSucceeded then b\<lparr>BkStatus := BackupPruned\<rparr> else b)"

lemma marked_again: "marked {i} (marked S b) = marked (insert i S) b"
  by (auto simp: marked_def)

lemma marked_empty [simp]: "marked {} = id"
  by (auto simp: marked_def fun_eq_iff)

lemma marked_fields [simp]: "BackupID (marked S b) = BackupID b" "StorageDigest (marked S b) = StorageDigest b"
  by (simp_all add: marked_def)

lemma mark_rows: "update_where (prunable i) (\<lambda>b. b\<lparr>BkStatus := BackupPruned\<rparr>) rows = map (marked {i}) rows"
  by (auto simp: update_where_def prunable_def marked_def)

text \<open>From \<open>w0\<close> to \<open>w\<close> some of the backups \<open>I\<close> were marked, none of them in use, and no backup that is left has lost
  its content.\<close>

definition pruned_to ::
  "('h \<Rightarrow> bool) \<Rightarrow> ('h \<Rightarrow> string \<Rightarrow> string option) \<Rightarrow> string set \<Rightarrow> 'h World \<Rightarrow> 'h World \<Rightarrow> bool" where
  "pruned_to sound content I w0 w \<longleftrightarrow>
     sound (host w) \<and> operations (ops w) = operations (ops w0)
     \<and> backup_policies (bks w) = backup_policies (bks w0)
     \<and> (\<exists>S \<subseteq> I. (\<forall>i \<in> S. \<not> hasIncompleteOperation (ops w0) i) \<and> backups (bks w) = map (marked S) (backups (bks w0)))
     \<and> (\<forall>b \<in> set (backups (bks w)). BkStatus b \<noteq> BackupPruned \<longrightarrow> StorageDigest b \<noteq> [] \<longrightarrow>
          content (host w) (StorageDigest b) = content (host w0) (StorageDigest b))"

lemma hasIncomplete_cong: "operations d = operations d' \<Longrightarrow> hasIncompleteOperation d i = hasIncompleteOperation d' i"
  by (simp add: hasIncompleteOperation_def)

lemma contract_with_ctx:
  "contract P m Q E \<Longrightarrow> (\<And>w. P w \<Longrightarrow> E Interrupted w) \<Longrightarrow> contract P (with_ctx m) Q E"
  by (auto simp: contract_def with_ctx_def)

lemma contract_bks_ask: "contract P (bks_ask f) (\<lambda>x w. P w \<and> x = f (bks w)) (\<lambda>_. P)"
  unfolding bks_ask_def by (rule contract_with_ctx, rule contract_conseq, rule contract_ask [where P = P]) auto

lemma contract_bks_get: "contract P (bks_get f) (\<lambda>x w. P w \<and> f (bks w) = Inr x) (\<lambda>_. P)"
  unfolding bks_get_def by (rule contract_with_ctx, rule contract_conseq, rule contract_ask_code [where P = P]) auto

lemma contract_count:
  "contract P (countBackupReferences b)
     (\<lambda>n w. P w \<and> (StorageDigest b \<noteq> [] \<longrightarrow> n = CountBackupReferencesByDigest (bks w) (StorageDigest b))) (\<lambda>_. P)"
  unfolding countBackupReferences_def
  by (rule contract_if, rule contract_give, simp, rule contract_conseq, rule contract_bks_ask) auto

lemma count_zero:
  assumes "CountBackupReferencesByDigest db d = 0" "d \<noteq> []" "b \<in> set (backups db)" "BkStatus b \<noteq> BackupPruned"
  shows "StorageDigest b \<noteq> d"
  using assms by (auto simp: CountBackupReferencesByDigest_def filter_empty_conv)

lemma MarkBackupPruned_rows:
  assumes "MarkBackupPruned (od, bd) i now = (r, od', bd')"
  shows "operations od' = operations od" "backup_policies bd' = backup_policies bd"
    "backups bd' = backups bd \<or> backups bd' = map (marked {i}) (backups bd)"
  using assms by (auto simp: MarkBackupPruned_def mark_rows dest: insertAudit_Inr split: if_splits sum.splits)

lemma mark_contract:
  assumes "i \<in> I"
  shows "contract (\<lambda>w. pruned_to sound content I w0 w \<and> \<not> hasIncompleteOperation (ops w0) i)
     (bks_try (\<lambda>dbs. MarkBackupPruned dbs i now)) (\<lambda>_. pruned_to sound content I w0) (\<lambda>_. pruned_to sound content I w0)"
proof -
  have step: "pruned_to sound content I w0 (w\<lparr>ops := od, bks := bd\<rparr>)"
    if p: "pruned_to sound content I w0 w" and free: "\<not> hasIncompleteOperation (ops w0) i"
      and m: "MarkBackupPruned (ops w, bks w) i now = (r, od, bd)" for w od bd r
  proof -
    obtain S where S: "S \<subseteq> I" "\<forall>i \<in> S. \<not> hasIncompleteOperation (ops w0) i"
      "backups (bks w) = map (marked S) (backups (bks w0))" using p by (auto simp: pruned_to_def)
    have rows: "\<exists>S \<subseteq> I. (\<forall>i \<in> S. \<not> hasIncompleteOperation (ops w0) i) \<and> backups bd = map (marked S) (backups (bks w0))"
      using MarkBackupPruned_rows(3) [OF m]
    proof
      assume "backups bd = backups (bks w)"
      then show ?thesis using S by (intro exI [of _ S]) simp
    next
      assume "backups bd = map (marked {i}) (backups (bks w))"
      then have "backups bd = map (marked (insert i S)) (backups (bks w0))" by (simp add: S(3) marked_again)
      moreover have "insert i S \<subseteq> I" "\<forall>j \<in> insert i S. \<not> hasIncompleteOperation (ops w0) j" using S(1,2) assms free by blast+
      ultimately show ?thesis by blast
    qed
    have left: "\<exists>b' \<in> set (backups (bks w)). StorageDigest b' = StorageDigest b \<and> BkStatus b' \<noteq> BackupPruned"
      if "b \<in> set (backups bd)" "BkStatus b \<noteq> BackupPruned" for b
      using MarkBackupPruned_rows(3) [OF m] that by (auto simp: marked_def split: if_splits)
    have "content (host w) (StorageDigest b) = content (host w0) (StorageDigest b)"
      if "b \<in> set (backups bd)" "BkStatus b \<noteq> BackupPruned" "StorageDigest b \<noteq> []" for b
      using left [OF that(1,2)] p that(3) unfolding pruned_to_def by (metis (no_types))
    then show ?thesis using p rows MarkBackupPruned_rows(1,2) [OF m] by (simp add: pruned_to_def)
  qed
  then show ?thesis
    by (auto simp: contract_def bks_try_def with_ctx_def split: prod.split option.split)
qed

context blob_store
begin

lemma delete_contract:
  assumes "d \<noteq> []"
  shows "contract (\<lambda>w. pruned_to sound content I w0 w \<and> CountBackupReferencesByDigest (bks w) d = 0)
     (call (StDelete store d)) (\<lambda>_. pruned_to sound content I w0) (\<lambda>_. pruned_to sound content I w0)"
proof -
  let ?P = "\<lambda>w. pruned_to sound content I w0 w \<and> CountBackupReferencesByDigest (bks w) d = 0"
  have "stable ?P (call (StDelete store d))"
  proof (rule stableI)
  fix w r w' assume p: "pruned_to sound content I w0 w \<and> CountBackupReferencesByDigest (bks w) d = 0"
    and m: "call (StDelete store d) w = (r, w')"
  obtain h' where h: "StDelete store d (ctx_done w) (host w) = (r, h')" "w' = w\<lparr>host := h'\<rparr>"
    using m by (auto simp: call_def split: prod.splits)
  have sound: "sound (host w)" using p by (simp add: pruned_to_def)
  have "content h' (StorageDigest b) = content (host w) (StorageDigest b)"
    if "b \<in> set (backups (bks w))" "BkStatus b \<noteq> BackupPruned" for b
    by (rule delete_other [OF sound h(1)], rule count_zero [OF _ assms that]) (use p in simp)
  then have left: "\<forall>b \<in> set (backups (bks w)). BkStatus b \<noteq> BackupPruned \<longrightarrow> StorageDigest b \<noteq> [] \<longrightarrow>
      content h' (StorageDigest b) = content (host w0) (StorageDigest b)"
    using p by (simp add: pruned_to_def)
  have "sound h'" by (rule delete_sound [OF sound h(1)])
  then show "pruned_to sound content I w0 w' \<and> CountBackupReferencesByDigest (bks w') d = 0"
    using p left unfolding pruned_to_def h(2) by simp
  qed
  then show ?thesis unfolding stable_contract by (rule contract_conseq) auto
qed

lemma prune_backup_contract:
  assumes "i \<in> I"
  shows "contract (\<lambda>w. pruned_to sound content I w0 w \<and> \<not> hasIncompleteOperation (ops w0) i)
     (prune_backup store now b i res) (\<lambda>_. pruned_to sound content I w0) (\<lambda>_. pruned_to sound content I w0)"
  unfolding prune_backup_def
proof (rule contract_andthen [OF mark_contract [OF assms]], rule contract_andthen [OF contract_count])
  fix x :: unit and n
  show "contract (\<lambda>w. pruned_to sound content I w0 w \<and>
        (StorageDigest b \<noteq> [] \<longrightarrow> n = CountBackupReferencesByDigest (bks w) (StorageDigest b)))
      (let res = res\<lparr>PrRemoved := PrRemoved res @ [i]\<rparr>
       in if 0 < n then give (res\<lparr>PrSkipped := PrSkipped res @ [(i, StillReferenced)]\<rparr>)
          else if StorageDigest b = [] then give res
          else andthen (call (StDelete store (StorageDigest b))) (\<lambda>_.
               give (res\<lparr>PrFreedBytes := PrFreedBytes res + StoredBytes b\<rparr>)))
      (\<lambda>_. pruned_to sound content I w0) (\<lambda>_. pruned_to sound content I w0)"
    unfolding Let_def
    by (intro contract_if contract_give contract_andthen [OF contract_conseq [OF delete_contract]]) auto
qed

lemma prune_rows_contract:
  "set ids \<subseteq> I \<Longrightarrow> contract (pruned_to sound content I w0) (prune_rows store False now rows ids res)
     (\<lambda>_. pruned_to sound content I w0) (\<lambda>_. pruned_to sound content I w0)"
proof (induction ids arbitrary: res)
  case (Cons i rest)
  let ?P = "pruned_to sound content I w0"
  have use: "contract ?P (with_ctx (ask (\<lambda>w. hasIncompleteOperation (ops w) i)))
      (\<lambda>u w. ?P w \<and> u = hasIncompleteOperation (ops w0) i) (\<lambda>_. ?P)"
    by (rule contract_with_ctx, rule contract_conseq, rule contract_ask [where P = ?P])
      (auto simp: pruned_to_def intro!: hasIncomplete_cong)
  have one: "contract (\<lambda>w. ?P w \<and> u = hasIncompleteOperation (ops w0) i)
      (if u then prune_rows store False now rows rest (res\<lparr>PrSkipped := PrSkipped res @ [(i, InUse)]\<rparr>)
       else andthen (if False then prune_dry (by_id rows i) i res else prune_backup store now (by_id rows i) i res)
              (prune_rows store False now rows rest)) (\<lambda>_. ?P) (\<lambda>_. ?P)" for u
  proof (cases u)
    case True
    then show ?thesis using Cons by (auto intro: contract_conseq [OF Cons.IH])
  next
    case False
    have "contract (\<lambda>w. ?P w \<and> u = hasIncompleteOperation (ops w0) i) (prune_backup store now (by_id rows i) i res) (\<lambda>_. ?P) (\<lambda>_. ?P)"
      by (rule contract_conseq [OF prune_backup_contract]) (use Cons.prems False in auto)
    then show ?thesis using False Cons by (simp add: contract_andthen)
  qed
  have guard: "contract (\<lambda>w. ?P w \<and> stopped = ctx_done w) (guard_io (\<not> stopped) CodeExecCancelled) (\<lambda>_. ?P) (\<lambda>_. ?P)" for stopped
    by (rule contract_guardI) auto
  show ?case unfolding prune_rows.simps
    by (rule contract_andthen, rule contract_ask [where P = ?P], rule contract_andthen [OF guard],
        rule contract_andthen [OF use one])
qed (simp add: contract_give)

text \<open>A dry run changes nothing but the clock.\<close>

end

definition only_clock :: "'h World \<Rightarrow> 'h World \<Rightarrow> bool" where
  "only_clock w0 w \<longleftrightarrow> bks w = bks w0 \<and> ops w = ops w0 \<and> cat w = cat w0 \<and> host w = host w0 \<and> cancel_at w = cancel_at w0"

lemma stable_count: "stable P (countBackupReferences b)"
  unfolding countBackupReferences_def by (intro stable_world)

lemma prune_dry_rows: "stable (only_clock w0) (prune_rows store True now rows ids res)"
proof (induction ids arbitrary: res)
  case (Cons i rest)
  show ?case unfolding prune_rows.simps if_True prune_dry_def Let_def by (intro stable_world stable_count Cons.IH)
qed (simp add: stable_basic)

lemma prune_dry_run: "stable (only_clock w0) (Prune s ref True)"
  unfolding Prune_def need_store_def needs_def Let_def
  by (intro stable_world prune_dry_rows stable_now) (simp add: only_clock_def)

definition prune_plan :: "'h World \<Rightarrow> BackupPolicy \<Rightarrow> time \<Rightarrow> string set" where
  "prune_plan w p now =
     set (Delete (PlanRetention (Some (BpRetention p)) (ListBackupsForRetention (bks w) (BpID p) maxBackupScan) now))"

lemma pruned_to_start: "only_clock w0 w \<Longrightarrow> sound (host w0) \<Longrightarrow> pruned_to sound content I w0 w"
  by (auto simp: pruned_to_def only_clock_def intro!: exI [of _ "{}"])

context blob_store
begin

lemma prune_outcome:
  assumes "bsStore s = Some store" "sound (host w)" "Prune s ref False w = (r, w')"
  obtains "pruned_to sound content {} w w'"
    | p now where "GetBackupPolicy (bks w) ref = Inr p" "pruned_to sound content (prune_plan w p now) w w'"
proof -
  let ?Q = "\<lambda>w'. pruned_to sound content {} w w' \<or>
    (\<exists>p now. GetBackupPolicy (bks w) ref = Inr p \<and> pruned_to sound content (prune_plan w p now) w w')"
  have start: "only_clock w w1 \<Longrightarrow> ?Q w1" for w1 using pruned_to_start assms(2) by blast
  have rows: "contract (\<lambda>w1. only_clock w w1 \<and> GetBackupPolicy (bks w) ref = Inr p \<and> rows = ListBackupsForRetention (bks w1) (BpID p) maxBackupScan)
      (prune_rows store False now rows (Delete (PlanRetention (Some (BpRetention p)) rows now)) res) (\<lambda>_. ?Q) (\<lambda>_. ?Q)" for p rows now res
  proof (cases "rows = ListBackupsForRetention (bks w) (BpID p) maxBackupScan \<and> GetBackupPolicy (bks w) ref = Inr p")
    case True
    then have i: "set (Delete (PlanRetention (Some (BpRetention p)) rows now)) \<subseteq> prune_plan w p now" by (simp add: prune_plan_def)
    have "pruned_to sound content (prune_plan w p now) w w1" if "only_clock w w1" for w1
      using that assms(2) by (rule pruned_to_start)
    then show ?thesis using True by (intro contract_conseq [OF prune_rows_contract [OF i]]) blast+
  next
    case False
    then show ?thesis by (auto simp: contract_def only_clock_def)
  qed
  have "contract (only_clock w) (Prune s ref False) (\<lambda>_. ?Q) (\<lambda>_. ?Q)"
    unfolding Prune_def need_store_def needs_def assms(1) Let_def found_def option.case
  proof (rule contract_andthen [where R = "\<lambda>x w1. only_clock w w1 \<and> x = store"])
    show "contract (only_clock w) (ask_code (\<lambda>_. Inr store)) (\<lambda>x w1. only_clock w w1 \<and> x = store) (\<lambda>_. ?Q)"
      by (rule contract_conseq, rule contract_ask_code [where P = "only_clock w"]) auto
    fix x
    have get: "contract (only_clock w) (bks_get (\<lambda>db. GetBackupPolicy db ref))
        (\<lambda>p w1. only_clock w w1 \<and> GetBackupPolicy (bks w) ref = Inr p) (\<lambda>_. ?Q)"
      by (rule contract_conseq, rule contract_bks_get [where P = "only_clock w"]) (use start in \<open>auto simp: only_clock_def\<close>)
    have now: "contract (\<lambda>w1. only_clock w w1 \<and> b) now_io (\<lambda>_ w1. only_clock w w1 \<and> b) (\<lambda>_. ?Q)" for b
      by (auto simp: contract_def now_io_def Let_def only_clock_def)
    have list: "contract (\<lambda>w1. only_clock w w1 \<and> b) (bks_ask f) (\<lambda>rows w1. only_clock w w1 \<and> b \<and> rows = f (bks w1)) (\<lambda>_. ?Q)" for f b
      by (rule contract_conseq, rule contract_bks_ask [where P = "\<lambda>w1. only_clock w w1 \<and> b"]) (use start in auto)
    show "contract (\<lambda>w1. only_clock w w1 \<and> x = store)
      (andthen (bks_get (\<lambda>db. GetBackupPolicy db ref)) (\<lambda>policy.
       andthen now_io (\<lambda>now.
       andthen (bks_ask (\<lambda>db. ListBackupsForRetention db (BpID policy) maxBackupScan)) (\<lambda>rows.
       prune_rows x False now rows (Delete (PlanRetention (Some (BpRetention policy)) rows now))
          \<lparr>PrDryRun = False, PrPolicy = BpName policy, PrRemoved = [], PrSkipped = [],
           PrKept = length (Keep (PlanRetention (Some (BpRetention policy)) rows now)),
           PrFreedBytes = 0, IgnoredRetention = Ignored (PlanRetention (Some (BpRetention policy)) rows now),
           PrTruncated = maxBackupScan \<le> int (length rows)\<rparr>)))) (\<lambda>_. ?Q) (\<lambda>_. ?Q)"
    proof (cases "x = store")
      case True
      show ?thesis unfolding True simp_thms
        by (rule contract_andthen [OF get], rule contract_andthen [OF now], rule contract_andthen [OF list], rule rows)
    qed (simp add: contract_never)
  qed
  then have "?Q w'" using assms(3) by (cases r) (auto dest: contract_Inr contract_Inl simp: only_clock_def)
  then show ?thesis using that by blast
qed

end

section \<open>A run\<close>

text \<open>Calls of adapters that stay away from the store, and what may then happen around the rows.\<close>

definition leaves :: "('h \<Rightarrow> bool) \<Rightarrow> ('h \<Rightarrow> string \<Rightarrow> string option) \<Rightarrow> (bool \<Rightarrow> ('h, 'a) io) \<Rightarrow> bool" where
  "leaves sound content m \<longleftrightarrow>
     (\<forall>dn h r h'. sound h \<longrightarrow> m dn h = (r, h') \<longrightarrow> sound h' \<and> content h' = content h)"

definition harmless :: "('h \<Rightarrow> bool) \<Rightarrow> ('h \<Rightarrow> string \<Rightarrow> string option) \<Rightarrow> 'h BackupService \<Rightarrow> bool" where
  "harmless sound content s \<longleftrightarrow>
     (\<forall>k a p. map_of (bsAdapters s) k = Some a \<longrightarrow> leaves sound content (BaPreflight a p)
        \<and> leaves sound content (BaBackup a p) \<and> (\<forall>op. leaves sound content (BaCleanup a p op)))
     \<and> (\<forall>sec r. bsSecrets s = Some sec \<longrightarrow> leaves sound content (SrResolve sec r))"

text \<open>The rows are those of \<open>bd\<close>, the contents of the store those of \<open>C\<close>.\<close>

definition rows_are ::
  "('h \<Rightarrow> bool) \<Rightarrow> ('h \<Rightarrow> string \<Rightarrow> string option) \<Rightarrow> 'h World \<Rightarrow> BkDb \<Rightarrow> (string \<Rightarrow> string option) \<Rightarrow> 'h World \<Rightarrow> bool" where
  "rows_are sound content w0 bd C w \<longleftrightarrow>
     bks w = bd \<and> operations (ops w) = operations (ops w0) \<and> sound (host w) \<and> content (host w) = C"

definition with_row :: "BkDb \<Rightarrow> Backup \<Rightarrow> BkDb" where
  "with_row bd b = bd\<lparr>backups := backups bd @ [b]\<rparr>"

lemma contract_now: "stable P now_io \<Longrightarrow> contract P now_io (\<lambda>_. P) E"
  by (auto simp: contract_def stable_def now_io_def Let_def)

lemma rows_are_now: "stable (rows_are sound content w0 bd C) now_io"
  by (rule stable_now) (simp add: rows_are_def)

lemma rows_are_log: "stable (rows_are sound content w0 bd C) (appendLog op level phase)"
  unfolding appendLog_def
proof (intro stable_rules rows_are_now)
  fix now
  show "stable (rows_are sound content w0 bd C) (ops_try (\<lambda>db. AppendLog db
      \<lparr>LogOperationID = op, LogLevel = level, LogPhase = phase, LogMessage = [], LogFields = [], LogTime = now\<rparr>))"
    by (rule stableI)
      (auto simp: rows_are_def ops_try_def AppendLog_def dest: insertLog_Inr split: sum.splits)
qed

lemma rows_are_call: "leaves sound content m \<Longrightarrow> stable (rows_are sound content w0 bd C) (call m)"
  by (rule stable_call) (auto simp: rows_are_def leaves_def)

lemma rows_are_detached: "leaves sound content m \<Longrightarrow> stable (rows_are sound content w0 bd C) (call_detached m)"
  by (auto simp: stable_def rows_are_def leaves_def call_detached_def split: prod.split)

lemma rows_are_key:
  assumes "harmless sound content s"
  shows "stable (rows_are sound content w0 bd C) (resolveKey s p)"
proof (cases "bsSecrets s")
  case (Some sec)
  then have "stable (rows_are sound content w0 bd C) (call (SrResolve sec (KeySecret (Encryption (BpEncoding p)))))"
    using assms by (intro rows_are_call) (simp add: harmless_def)
  then show ?thesis using Some by (simp add: resolveKey_def Let_def stable_rules)
qed (simp add: resolveKey_def Let_def stable_rules)

lemma find_last: "\<forall>b \<in> set bs. \<not> P b \<Longrightarrow> P b \<Longrightarrow> find P (bs @ [b]) = Some b"
  by (induction bs) auto

lemma FinishBackup_row:
  assumes "\<forall>q \<in> set (backups bd). BackupID q \<noteq> BackupID b" "unfinished b" "FbBackupID inp = BackupID b"
    "\<forall>t. FbStatus inp \<noteq> BackupStatusOther t" "BkOperationID b = [] \<or> find_operation od (BkOperationID b) \<noteq> None"
  shows "\<exists>od'. operations od' = operations od \<and>
    FinishBackup (od, with_row bd b) inp now = (Inr (finished_backup inp now b), (od', with_row bd (finished_backup inp now b)))"
proof -
  have find: "find (\<lambda>q. BackupID q = BackupID b) (backups bd @ [b]) = Some b" using assms(1) by (intro find_last) auto
  obtain od' where audit: "insertAudit od \<lparr>EvType = backupEventType (FbStatus inp), EvActor = [], EvOperationID = BkOperationID b,
      EvResource = [], EvResult = status_text (FbStatus inp), EvTime = now,
      EvDetails = errorDetail (FbErrorCode inp) @ [(''backupId'', VStr (FbBackupID inp))]\<rparr> = Inr od'"
    using assms(5) by (auto simp: insertAudit_def)
  have rows: "update_where (\<lambda>q. BackupID q = BackupID b \<and> unfinished q) (finished_backup inp now) (backups bd @ [b])
      = backups bd @ [finished_backup inp now b]"
    using assms(1,2) by (auto simp: update_where_def intro!: map_idI)
  have i: "BackupID (finished_backup inp now b) = BackupID b" by (simp add: finished_backup_def)
  have again: "find (\<lambda>q. BackupID q = BackupID b) (backups bd @ [finished_backup inp now b]) = Some (finished_backup inp now b)"
    using assms(1) i by (intro find_last) auto
  have "\<not> unknown_status (FbStatus inp)" using assms(4) by (simp add: unknown_status_iff)
  then have "FinishBackup (od, with_row bd b) inp now = (Inr (finished_backup inp now b), (od', with_row bd (finished_backup inp now b)))"
    using assms(2,3) find rows again audit by (simp add: FinishBackup_def with_row_def Let_def GetBackup_def found_def)
  then show ?thesis using insertAudit_Inr [OF audit] by blast
qed

text \<open>Recording the result works unless the context is done.\<close>

lemma finish_contract:
  assumes "\<forall>q \<in> set (backups bd). BackupID q \<noteq> BackupID b" "unfinished b" "FbBackupID inp = BackupID b"
    "\<forall>t. FbStatus inp \<noteq> BackupStatusOther t" "BkOperationID b = [] \<or> find_operation (ops w0) (BkOperationID b) \<noteq> None"
  shows "contract (rows_are sound content w0 (with_row bd b) C) (finishBackup inp)
     (\<lambda>_ w. \<exists>t. rows_are sound content w0 (with_row bd (finished_backup inp t b)) C w)
     (\<lambda>_ w. rows_are sound content w0 (with_row bd b) C w \<and> ctx_done w)"
  unfolding finishBackup_def
proof (rule contract_andthen [OF contract_now [OF rows_are_now]])
  fix now
  show "contract (rows_are sound content w0 (with_row bd b) C) (bks_run (\<lambda>dbs. FinishBackup dbs inp now))
     (\<lambda>_ w. \<exists>t. rows_are sound content w0 (with_row bd (finished_backup inp t b)) C w)
     (\<lambda>_ w. rows_are sound content w0 (with_row bd b) C w \<and> ctx_done w)"
    unfolding contract_def
  proof (intro allI impI)
    fix w assume w: "rows_are sound content w0 (with_row bd b) C w"
    then have "BkOperationID b = [] \<or> find_operation (ops w) (BkOperationID b) \<noteq> None"
      using assms(5) by (simp add: rows_are_def find_operation_def)
    from FinishBackup_row [OF assms(1-4) this, of now] obtain od' where
      "operations od' = operations (ops w)"
      "FinishBackup (ops w, with_row bd b) inp now = (Inr (finished_backup inp now b), (od', with_row bd (finished_backup inp now b)))"
      by blast
    then show "case bks_run (\<lambda>dbs. FinishBackup dbs inp now) w of
        (Inl e, w) \<Rightarrow> rows_are sound content w0 (with_row bd b) C w \<and> ctx_done w
      | (Inr _, w) \<Rightarrow> \<exists>t. rows_are sound content w0 (with_row bd (finished_backup inp t b)) C w"
      using w by (auto simp: bks_run_def with_ctx_def rows_are_def)
  qed
qed

text \<open>What the secret gave at some moment, and what the adapter wrote at some moment.\<close>

definition may_be_key :: "'h BackupService \<Rightarrow> BackupPolicy \<Rightarrow> string option \<Rightarrow> bool" where
  "may_be_key s p key \<longleftrightarrow>
     (if \<not> EncEnabled (Encryption (BpEncoding p)) then key = None
      else \<exists>sec k dn h h'. bsSecrets s = Some sec \<and> key = Some k \<and> SrResolve sec (KeySecret (Encryption (BpEncoding p))) dn h = (Inr k, h'))"

definition wrote :: "'h BackupAdapter \<Rightarrow> BackupPolicy \<Rightarrow> string list \<Rightarrow> BackupMetadata \<Rightarrow> bool" where
  "wrote a p pieces metadata \<longleftrightarrow> (\<exists>dn h h'. BaBackup a p dn h = (Inr (pieces, Inr metadata), h'))"

lemma call_Inr: "call m w = (Inr x, w') \<Longrightarrow> \<exists>dn h h'. m dn h = (Inr x, h')"
  by (auto simp: call_def split: prod.splits)

lemma resolveKey_contract:
  assumes "stable P (resolveKey s p)"
  shows "contract P (resolveKey s p) (\<lambda>x w. P w \<and> may_be_key s p (fst x)) (\<lambda>_. P)"
proof (rule contractI)
  fix w x w' assume P: "P w" and m: "resolveKey s p w = (Inr x, w')"
  have "may_be_key s p (fst x)"
  proof (cases "EncEnabled (Encryption (BpEncoding p))")
    case True
    then show ?thesis using m call_Inr
      by (fastforce simp: resolveKey_def Let_def may_be_key_def attempt_def split: option.splits prod.splits sum.splits)
  qed (use m in \<open>simp add: resolveKey_def may_be_key_def Let_def\<close>)
  then show "P w' \<and> may_be_key s p (fst x)" using stableD [OF assms P m] by simp
qed (use stableD [OF assms] in blast)

text \<open>A new row can only be added when its operation exists, and under an identifier that is not taken.\<close>

definition row_ok :: "'h World \<Rightarrow> string \<Rightarrow> string \<Rightarrow> bool" where
  "row_ok w0 i op \<longleftrightarrow> (\<forall>q \<in> set (backups (bks w0)). BackupID q \<noteq> i) \<and> (op = [] \<or> find_operation (ops w0) op \<noteq> None)"

lemma create_contract:
  assumes "BkOperationID b = op" "BackupID b = i"
  shows "contract (rows_are sound content w0 (bks w0) C)
     (bks_run (\<lambda>(od, bd). case CreateBackup od bd b of Inl e \<Rightarrow> (Inl e, od, bd) | Inr bd' \<Rightarrow> (Inr (), od, bd')))
     (\<lambda>_ w. rows_are sound content w0 (with_row (bks w0) b) C w \<and> row_ok w0 i op) (\<lambda>_. rows_are sound content w0 (bks w0) C)"
  using assms
  by (auto simp: contract_def bks_run_def with_ctx_def rows_are_def CreateBackup_def with_row_def row_ok_def list_ex_iff
      find_operation_def split: sum.splits)

lemma opening_contract:
  assumes "harmless sound content s" "map_of (bsAdapters s) k = Some a"
  shows "contract (rows_are sound content w0 (bks w0) C) (run_opening s a i p op)
     (\<lambda>x w. \<exists>t. rows_are sound content w0 (with_row (bks w0) (running_backup i p op t)) C w
        \<and> row_ok w0 i op \<and> may_be_key s p (fst x))
     (\<lambda>_. rows_are sound content w0 (bks w0) C)"
proof -
  let ?P = "rows_are sound content w0 (bks w0) C"
  have pre: "stable ?P (call (BaPreflight a p))" using assms by (intro rows_are_call) (auto simp: harmless_def)
  note log = rows_are_log [unfolded stable_contract]
  have create: "contract (\<lambda>w. ?P w \<and> may_be_key s p key)
      (andthen now_io (\<lambda>now. andthen (bks_run (\<lambda>(od, bd). case CreateBackup od bd (running_backup i p op now) of
           Inl e \<Rightarrow> (Inl e, od, bd) | Inr bd' \<Rightarrow> (Inr (), od, bd'))) (\<lambda>_. give (key, keyID))))
      (\<lambda>x w. \<exists>t. rows_are sound content w0 (with_row (bks w0) (running_backup i p op t)) C w
        \<and> row_ok w0 i op \<and> may_be_key s p (fst x)) (\<lambda>_. ?P)" for key keyID
  proof (cases "may_be_key s p key")
    case True
    have fields: "BkOperationID (running_backup i p op t) = op" "BackupID (running_backup i p op t) = i" for t
      by (simp_all add: running_backup_def)
    show ?thesis using True
      by (simp only: simp_thms, intro contract_andthen [OF contract_now [OF rows_are_now]] contract_andthen [OF create_contract [OF fields]] contract_give)
        auto
  qed (simp add: contract_never)
  show ?thesis unfolding run_opening_def
    apply (rule contract_andthen [OF log], rule contract_andthen [OF pre [unfolded stable_contract]], rule contract_andthen [OF log])
    apply (rule contract_andthen [OF resolveKey_contract [OF rows_are_key [OF assms(1)]]])
    subgoal for _ _ _ x by (cases x) (simp only: prod.case fst_conv, rule create)
    done
qed

text \<open>The content in the store is what the adapter wrote, encoded.\<close>

definition encoded :: "'h BackupService \<Rightarrow> 'h BackupAdapter \<Rightarrow> BackupPolicy \<Rightarrow> string option \<Rightarrow> string \<Rightarrow> bool" where
  "encoded s a p key bytes \<longleftrightarrow>
     (\<exists>pieces metadata. wrote a p pieces metadata \<and> Encode (bsCodec s) (BeCompression (BpEncoding p)) key pieces = Inr bytes)"

lemma produce_contract:
  assumes "harmless sound content s" "map_of (bsAdapters s) k = Some a"
  shows "contract (rows_are sound content w0 bd C) (produce s a p key)
     (\<lambda>x w. rows_are sound content w0 bd C w
        \<and> (\<forall>y. snd x = Inr y \<longrightarrow> snd (fst x) = None \<and> encoded s a p key (fst (fst x)))) (\<lambda>_. rows_are sound content w0 bd C)"
proof -
  let ?P = "rows_are sound content w0 bd C"
  let ?Q = "\<lambda>x w. ?P w \<and> (\<forall>y. snd x = Inr y \<longrightarrow> snd (fst x) = None \<and> encoded s a p key (fst (fst x)))"
  have b: "stable ?P (call (BaBackup a p))" using assms by (intro rows_are_call) (auto simp: harmless_def)
  have call: "contract ?P (call (BaBackup a p)) (\<lambda>x w. ?P w \<and> (\<forall>md. snd x = Inr md \<longrightarrow> wrote a p (fst x) md)) (\<lambda>_. ?P)"
  proof (rule contractI)
    fix w x w' assume w: "?P w" and m: "call (BaBackup a p) w = (Inr x, w')"
    have "wrote a p (fst x) md" if "snd x = Inr md" for md
      using call_Inr [OF m] that unfolding wrote_def by (metis prod.collapse)
    then show "?P w' \<and> (\<forall>md. snd x = Inr md \<longrightarrow> wrote a p (fst x) md)" using stableD [OF b w m] by simp
  qed (use stableD [OF b] in blast)
  have failed: "contract ?P (give (u, Inl e)) ?Q (\<lambda>_. ?P)" for u e by (rule contract_give) simp
  have after: "contract (\<lambda>w. ?P w \<and> (\<forall>md. snd x = Inr md \<longrightarrow> wrote a p (fst x) md))
      (case snd x of
         Inl e \<Rightarrow> give ((Encode_abandoned (bsCodec s) (BeCompression (BpEncoding p)) key (fst x), Some e), Inl e)
       | Inr md \<Rightarrow> (case Encode (bsCodec s) (BeCompression (BpEncoding p)) key (fst x) of
           Inl e \<Rightarrow> give (([], Some (Fault e)), Inl (Fault e))
         | Inr bytes \<Rightarrow> give ((bytes, None), Inr (md, int (length (concat (fst x))))))) ?Q (\<lambda>_. ?P)" for x
  proof (cases "snd x")
    case (Inr md)
    then show ?thesis
      by (cases "Encode (bsCodec s) (BeCompression (BpEncoding p)) key (fst x)") (auto intro!: contract_give simp: encoded_def)
  qed (auto intro!: contract_give)
  show ?thesis unfolding produce_def Let_def
    by (cases "Encode (bsCodec s) (BeCompression (BpEncoding p)) key []")
      (simp_all only: sum.case case_prod_beta', rule failed, rule contract_andthen [OF call after])
qed

definition put_map :: "(string \<Rightarrow> string) \<Rightarrow> string \<Rightarrow> (string \<Rightarrow> string option) \<Rightarrow> string \<Rightarrow> string option" where
  "put_map digest bytes C = (if C (digest bytes) = None then C(digest bytes \<mapsto> bytes) else C)"

definition extends :: "(string \<Rightarrow> string option) \<Rightarrow> (string \<Rightarrow> string option) \<Rightarrow> bool" where
  "extends C C' \<longleftrightarrow> (\<forall>d c. C d = Some c \<longrightarrow> C' d = Some c)"

lemma extends_refl [simp]: "extends C C" and extends_put_map: "extends C (put_map digest bytes C)"
  by (auto simp: extends_def put_map_def)

text \<open>How a run ends: recorded as a success with its content in the store; or recorded as a failure, or not
  recorded because the context was done, or never begun.\<close>

definition recorded where
  "recorded sound content digest w0 s a i p op w \<longleftrightarrow>
     (\<exists>t t' key keyID x bytes.
        rows_are sound content w0
          (with_row (bks w0) (finished_backup (succeeded_run i p keyID x) t' (running_backup i p op t)))
          (put_map digest bytes (content (host w0))) w
        \<and> row_ok w0 i op \<and> may_be_key s p key \<and> encoded s a p key bytes \<and> StDigest (snd (snd x)) = digest bytes \<and> digest bytes \<noteq> [])"

definition unrecorded where
  "unrecorded sound content w0 i p op e w \<longleftrightarrow>
     (\<exists>C. extends (content (host w0)) C \<and>
       (rows_are sound content w0 (bks w0) C w
        \<or> (\<exists>t. rows_are sound content w0 (with_row (bks w0) (running_backup i p op t)) C w \<and> ctx_done w)
        \<or> (\<exists>t t'. rows_are sound content w0 (with_row (bks w0) (finished_backup (failed_run i e) t' (running_backup i p op t))) C w)))"

lemma finish_run_contract:
  assumes "row_ok w0 i op" "FbBackupID inp = i" "\<forall>t. FbStatus inp \<noteq> BackupStatusOther t"
  shows "contract (rows_are sound content w0 (with_row (bks w0) (running_backup i p op t)) C) (finishBackup inp)
     (\<lambda>_ w. \<exists>t'. rows_are sound content w0 (with_row (bks w0) (finished_backup inp t' (running_backup i p op t))) C w)
     (\<lambda>_ w. rows_are sound content w0 (with_row (bks w0) (running_backup i p op t)) C w \<and> ctx_done w)"
  by (rule finish_contract) (use assms in \<open>auto simp: row_ok_def running_backup_def unfinished_def\<close>)

lemma contract_ex_pre: "(\<And>x. contract (P x) m Q E) \<Longrightarrow> contract (\<lambda>s. \<exists>x. P x s) m Q E"
  by (rule contractI; elim exE; rule contract_Inl contract_Inr; assumption?)

lemma contract_conj_pre: "(b \<Longrightarrow> contract P m Q E) \<Longrightarrow> contract (\<lambda>s. P s \<and> b) m Q E"
  by (auto simp: contract_def)

context blob_store
begin

lemma stream_contract:
  assumes "harmless sound content s" "map_of (bsAdapters s) k = Some a"
  shows "contract (rows_are sound content w0 bd C) (streamBackup s store a p key)
     (\<lambda>x w. \<exists>bytes. rows_are sound content w0 bd (put_map digest bytes C) w
        \<and> encoded s a p key bytes \<and> StDigest (snd (snd x)) = digest bytes \<and> digest bytes \<noteq> [])
     (\<lambda>_ w. \<exists>C'. rows_are sound content w0 bd C' w \<and> extends C C')"
proof -
  let ?R = "rows_are sound content w0 bd"
  have put: "contract (?R C) (call (StPut store body []))
      (\<lambda>put w. snd body = None \<and> ?R (put_map digest (fst body) C) w \<and> StDigest put = digest (fst body) \<and> digest (fst body) \<noteq> [])
      (\<lambda>_ w. \<exists>C'. ?R C' w \<and> extends C C')" for body
  proof (rule contractI)
    fix w e w' assume w: "?R C w" and m: "call (StPut store body []) w = (Inl e, w')"
    obtain h' where h: "StPut store body [] (ctx_done w) (host w) = (Inl e, h')" "w' = w\<lparr>host := h'\<rparr>"
      using m by (auto simp: call_def split: prod.splits)
    have "?R C w'" using w put_failed [OF _ h(1)] put_sound [OF _ h(1)] by (auto simp: rows_are_def h(2))
    then show "\<exists>C'. ?R C' w' \<and> extends C C'" using extends_refl by blast
  next
    fix w st w' assume w: "?R C w" and m: "call (StPut store body []) w = (Inr st, w')"
    obtain h' where h: "StPut store body [] (ctx_done w) (host w) = (Inr st, h')" "w' = w\<lparr>host := h'\<rparr>"
      using m by (auto simp: call_def split: prod.splits)
    have "sound (host w)" "content (host w) = C" using w by (simp_all add: rows_are_def)
    from put_stored [OF this(1) h(1)] put_sound [OF this(1) h(1)] this(2)
    show "snd body = None \<and> ?R (put_map digest (fst body) C) w' \<and> StDigest st = digest (fst body) \<and> digest (fst body) \<noteq> []"
      using w by (auto simp: rows_are_def h(2) put_map_def)
  qed
  have produced: "contract (\<lambda>w. ?R C w \<and> (\<forall>y. snd x = Inr y \<longrightarrow> snd (fst x) = None \<and> encoded s a p key (fst (fst x))))
      (andthen (call (StPut store (fst x) [])) (\<lambda>stored. case snd x of
         Inl e \<Rightarrow> raise e | Inr (metadata, logicalBytes) \<Rightarrow> give (metadata, logicalBytes, stored)))
      (\<lambda>x w. \<exists>bytes. ?R (put_map digest bytes C) w \<and> encoded s a p key bytes \<and> StDigest (snd (snd x)) = digest bytes \<and> digest bytes \<noteq> [])
      (\<lambda>_ w. \<exists>C'. ?R C' w \<and> extends C C')" for x
  proof (rule contract_conj_pre, rule contract_andthen [OF put])
    fix stored
    assume x: "\<forall>y. snd x = Inr y \<longrightarrow> snd (fst x) = None \<and> encoded s a p key (fst (fst x))"
    show "contract (\<lambda>w. snd (fst x) = None \<and> ?R (put_map digest (fst (fst x)) C) w \<and> StDigest stored = digest (fst (fst x)) \<and> digest (fst (fst x)) \<noteq> [])
        (case snd x of Inl e \<Rightarrow> raise e | Inr (metadata, logicalBytes) \<Rightarrow> give (metadata, logicalBytes, stored))
        (\<lambda>x w. \<exists>bytes. ?R (put_map digest bytes C) w \<and> encoded s a p key bytes \<and> StDigest (snd (snd x)) = digest bytes \<and> digest bytes \<noteq> [])
        (\<lambda>_ w. \<exists>C'. ?R C' w \<and> extends C C')"
    proof (cases "snd x")
      case (Inl e)
      then show ?thesis using extends_put_map by (auto intro!: contract_raise)
    next
      case (Inr y)
      then show ?thesis using x by (cases y) (auto intro!: contract_give)
    qed
  qed
  show ?thesis unfolding streamBackup_def
    apply (rule contract_andthen, rule contract_conseq [OF produce_contract [OF assms]], assumption, assumption)
     apply (blast intro: extends_refl)
    subgoal for x using produced [of x] by (cases x) simp
    done
qed

text \<open>From the row to the end of the run.\<close>

lemma run_contract:
  assumes "harmless sound content s" "map_of (bsAdapters s) k = Some a" "row_ok w0 i op" "may_be_key s p key"
  shows "contract (rows_are sound content w0 (with_row (bks w0) (running_backup i p op t)) (content (host w0)))
     (attempt (streamBackup s store a p key)
        (\<lambda>err. andthen (ignoring (finishBackup (failed_run i err))) (\<lambda>_. raise err)) (run_closing i p op keyID))
     (\<lambda>_. recorded sound content digest w0 s a i p op) (unrecorded sound content w0 i p op)"
proof (rule contract_attempt [OF stream_contract [OF assms(1,2)]])
  fix x
  have ok: "FbBackupID (succeeded_run i p keyID x) = i" "\<forall>t. FbStatus (succeeded_run i p keyID x) \<noteq> BackupStatusOther t"
    by (simp_all add: succeeded_run_def blank_finish_def split: prod.split)
  show "contract (\<lambda>w. \<exists>bytes. rows_are sound content w0 (with_row (bks w0) (running_backup i p op t)) (put_map digest bytes (content (host w0))) w
        \<and> encoded s a p key bytes \<and> StDigest (snd (snd x)) = digest bytes \<and> digest bytes \<noteq> [])
      (run_closing i p op keyID x) (\<lambda>_. recorded sound content digest w0 s a i p op) (unrecorded sound content w0 i p op)"
  proof (rule contract_ex_pre, rule contract_conj_pre)
    fix bytes assume b: "encoded s a p key bytes \<and> StDigest (snd (snd x)) = digest bytes \<and> digest bytes \<noteq> []"
    let ?C = "put_map digest bytes (content (host w0))"
    let ?R = "\<lambda>b. rows_are sound content w0 (with_row (bks w0) b) ?C"
    have log: "contract (?R (running_backup i p op t)) (appendLog op ''info'' PhaseExecute) (\<lambda>_. ?R (running_backup i p op t)) (unrecorded sound content w0 i p op)"
    proof (rule contractI)
      fix w :: "'h World" and e w' assume "appendLog op ''info'' PhaseExecute w = (Inl e, w')"
      then have False by (auto simp: appendLog_def now_io_def Let_def io_defs split: prod.splits sum.splits)
      then show "unrecorded sound content w0 i p op e w'" ..
    qed (rule stableD [OF rows_are_log])
    have fin: "contract (?R (running_backup i p op t)) (finishBackup (succeeded_run i p keyID x))
        (\<lambda>_ w. \<exists>t'. ?R (finished_backup (succeeded_run i p keyID x) t' (running_backup i p op t)) w) (unrecorded sound content w0 i p op)"
      by (rule contract_conseq [OF finish_run_contract [OF assms(3) ok]])
        (auto simp: unrecorded_def intro: extends_put_map)
    show "contract (?R (running_backup i p op t)) (run_closing i p op keyID x)
        (\<lambda>_. recorded sound content digest w0 s a i p op) (unrecorded sound content w0 i p op)"
      unfolding run_closing_def
    proof (rule contract_andthen [OF log], rule contract_andthen [OF fin], rule contract_give)
      fix w assume "\<exists>t'. ?R (finished_backup (succeeded_run i p keyID x) t' (running_backup i p op t)) w"
      then show "recorded sound content digest w0 s a i p op w" unfolding recorded_def using b assms(3,4) by blast
    qed
  qed
next
  fix err
  have ok: "FbBackupID (failed_run i err) = i" "\<forall>t. FbStatus (failed_run i err) \<noteq> BackupStatusOther t"
    by (simp_all add: failed_run_def blank_finish_def)
  let ?U = "unrecorded sound content w0 i p op err"
  show "contract (\<lambda>w. \<exists>C'. rows_are sound content w0 (with_row (bks w0) (running_backup i p op t)) C' w \<and> extends (content (host w0)) C')
      (andthen (ignoring (finishBackup (failed_run i err))) (\<lambda>_. raise err))
      (\<lambda>_. recorded sound content digest w0 s a i p op) (unrecorded sound content w0 i p op)"
  proof (rule contract_ex_pre, rule contract_conj_pre)
    fix C' assume e: "extends (content (host w0)) C'"
    have "contract (rows_are sound content w0 (with_row (bks w0) (running_backup i p op t)) C') (ignoring (finishBackup (failed_run i err))) (\<lambda>_. ?U) E" for E
      by (rule contract_ignoring, rule contract_conseq [OF finish_run_contract [OF assms(3) ok]])
        (use e in \<open>auto simp: unrecorded_def\<close>)
    then show "contract (rows_are sound content w0 (with_row (bks w0) (running_backup i p op t)) C')
      (andthen (ignoring (finishBackup (failed_run i err))) (\<lambda>_. raise err))
      (\<lambda>_. recorded sound content digest w0 s a i p op) (unrecorded sound content w0 i p op)"
      by (rule contract_andthen) (rule contract_raise)
  qed
qed

lemma ExecuteRun_contract:
  assumes "harmless sound content s" "bsStore s = Some store" "map_of (bsAdapters s) (BrKind (BpResource p)) = Some a" "sound (host w0)"
  shows "contract (\<lambda>w. w = w0) (ExecuteRun s i p op)
     (\<lambda>_. recorded sound content digest w0 s a i p op) (unrecorded sound content w0 i p op)"
proof -
  let ?start = "rows_are sound content w0 (bks w0) (content (host w0))"
  have clean: "leaves sound content (BaCleanup a p op)" using assms(1,3) by (auto simp: harmless_def)
  have detached: "ctx_done w'" if "ctx_done w" "call_detached m w = (r, w')" for m :: "bool \<Rightarrow> ('h, unit) io" and r w w'
    using that by (auto simp: call_detached_def ctx_done_def split: prod.splits option.splits)
  have "stable (recorded sound content digest w0 s a i p op) (call_detached (BaCleanup a p op))"
    unfolding recorded_def by (rule stableI) (blast dest: stableD [OF rows_are_detached [OF clean]])
  moreover have "stable (unrecorded sound content w0 i p op e) (call_detached (BaCleanup a p op))" for e
    unfolding unrecorded_def by (rule stableI) (blast dest: stableD [OF rows_are_detached [OF clean]] detached)
  ultimately have cleanup:
    "contract (recorded sound content digest w0 s a i p op) (cleanupAdapter a p op) (\<lambda>_. recorded sound content digest w0 s a i p op) E"
    "contract (unrecorded sound content w0 i p op e) (cleanupAdapter a p op) (\<lambda>_. unrecorded sound content w0 i p op e) E" for e E
    unfolding cleanupAdapter_def stable_contract by (blast intro: contract_ignoring)+
  have "contract ?start (andthen (run_opening s a i p op) (\<lambda>(key, keyID). attempt (streamBackup s store a p key)
        (\<lambda>err. andthen (ignoring (finishBackup (failed_run i err))) (\<lambda>_. raise err)) (run_closing i p op keyID)))
      (\<lambda>_. recorded sound content digest w0 s a i p op) (unrecorded sound content w0 i p op)"
    apply (rule contract_andthen, rule contract_conseq [OF opening_contract [OF assms(1,3)]], assumption, assumption)
    subgoal unfolding unrecorded_def using extends_refl by blast
    subgoal for x by (cases x) (auto intro!: contract_ex_pre contract_conj_pre run_contract [OF assms(1,3)])
    done
  then have "contract ?start (deferring (cleanupAdapter a p op) (andthen (run_opening s a i p op) (\<lambda>(key, keyID).
        attempt (streamBackup s store a p key)
        (\<lambda>err. andthen (ignoring (finishBackup (failed_run i err))) (\<lambda>_. raise err)) (run_closing i p op keyID))))
      (\<lambda>_. recorded sound content digest w0 s a i p op) (unrecorded sound content w0 i p op)"
    unfolding deferring_def
    by (rule contract_attempt) (auto intro!: contract_andthen [OF cleanup(1)] contract_andthen [OF cleanup(2)] contract_give contract_raise)
  moreover have "?start w0" using assms(4) by (simp add: rows_are_def)
  ultimately show ?thesis
    unfolding ExecuteRun_def need_store_def needs_def adapterFor_def assms(2,3) found_def option.case
    by (auto simp: contract_def andthen_def attempt_def ask_code_def)
qed

end

end
