(* ===== verification/BackupChecks.thy ===== *)
theory BackupChecks
  imports BackupProps
begin

text \<open>
  The properties of the backup service on the local store, with an example host, and the runs that show where
  it goes wrong.
\<close>

section \<open>Reading back\<close>

definition key_fixed :: "'h BackupService \<Rightarrow> BackupPolicy \<Rightarrow> string option \<Rightarrow> bool" where
  "key_fixed s p key \<longleftrightarrow>
     (if \<not> EncEnabled (Encryption (BpEncoding p)) then key = None
      else \<exists>sec k. bsSecrets s = Some sec \<and> key = Some k
        \<and> (\<forall>dn h. fst (SrResolve sec (KeySecret (Encryption (BpEncoding p))) dn h) = Inr k))"

lemma key_fixed_unique:
  assumes "key_fixed s p key" "may_be_key s p key'"
  shows "key' = key"
proof (cases "EncEnabled (Encryption (BpEncoding p))")
  case True
  then obtain sec k where k: "bsSecrets s = Some sec" "key = Some k"
    "\<forall>dn h. fst (SrResolve sec (KeySecret (Encryption (BpEncoding p))) dn h) = Inr k" using assms(1) by (auto simp: key_fixed_def)
  obtain k' dn h h' where k': "key' = Some k'" "SrResolve sec (KeySecret (Encryption (BpEncoding p))) dn h = (Inr k', h')"
    using assms(2) True k(1) by (auto simp: may_be_key_def)
  have "Inr k' = (Inr k :: fault + string)" using k(3) [rule_format, of dn h] k'(2) by simp
  then show ?thesis using k(2) k'(1) by simp
qed (use assms in \<open>simp add: key_fixed_def may_be_key_def\<close>)

lemma key_fixed_resolves:
  assumes "key_fixed s p key"
  shows "\<exists>keyID w'. resolveKey s p w = (Inr (key, keyID), w')"
proof (cases "EncEnabled (Encryption (BpEncoding p))")
  case True
  then obtain sec k where k: "bsSecrets s = Some sec" "key = Some k"
    "\<forall>dn h. fst (SrResolve sec (KeySecret (Encryption (BpEncoding p))) dn h) = Inr k" using assms by (auto simp: key_fixed_def)
  obtain h' where "SrResolve sec (KeySecret (Encryption (BpEncoding p))) (ctx_done w) (host w) = (Inr k, h')"
    using k(3) by (metis prod.collapse)
  then show ?thesis using True k(1,2) by (simp add: resolveKey_def Let_def attempt_def call_def)
qed (use assms in \<open>simp add: key_fixed_def resolveKey_def Let_def\<close>)

lemma compression_roundtrip: "Encode c x key pieces = Inr bytes \<Longrightarrow> compression_of (compression_text x) = x"
  by (cases x) (simp_all add: compression_of_def Encode_def)

context blob_store
begin

lemma open_recorded:
  assumes "recorded sound content digest w0 s a i p op w"
    and "good_lib (bsCodec s)" "bsStore s = Some store" "key_fixed s p key"
    and "GetBackupPolicy (bks w0) (BpID p) = Inr p"
    and "\<forall>bytes. encoded s a p key bytes \<longrightarrow> content (host w0) (digest bytes) \<in> {None, Some bytes}"
    and "\<not> ctx_done w"
  shows "\<exists>pieces metadata opened w'. wrote a p pieces metadata \<and> openBackup s i w = (Inr opened, w') \<and> opReader opened = (concat pieces, None)"
proof -
  obtain t t' key' keyID x bytes where
    rows: "rows_are sound content w0 (with_row (bks w0) (finished_backup (succeeded_run i p keyID x) t' (running_backup i p op t)))
       (put_map digest bytes (content (host w0))) w"
    and fresh: "row_ok w0 i op" and "may_be_key s p key'" "encoded s a p key' bytes"
    and dig: "StDigest (snd (snd x)) = digest bytes" "digest bytes \<noteq> []"
    using assms(1) unfolding recorded_def by blast
  then have enc: "encoded s a p key bytes" using key_fixed_unique [OF assms(4)] by blast
  let ?b = "finished_backup (succeeded_run i p keyID x) t' (running_backup i p op t)"
  have b: "BackupID ?b = i" "BkPolicyID ?b = BpID p" "StorageDigest ?b = digest bytes"
    "BkCompression ?b = compression_text (BeCompression (BpEncoding p))"
    using dig(1) by (auto simp: finished_backup_def running_backup_def succeeded_run_def split: prod.split)
  have get: "GetBackup (bks w) i = Inr ?b"
    using rows fresh b(1) by (auto simp: rows_are_def GetBackup_def with_row_def row_ok_def intro!: find_last)
  have pol: "GetBackupPolicy (bks w) (BpID p) = Inr p"
    using rows assms(5) by (simp add: rows_are_def GetBackupPolicy_def with_row_def)
  have "content (host w) (digest bytes) = Some bytes"
    using rows assms(6) enc by (auto simp: rows_are_def put_map_def)
  moreover have "sound (host w)" using rows by (simp add: rows_are_def)
  moreover obtain r h' where o: "StOpen store (digest bytes) False (host w) = (r, h')" by fastforce
  ultimately have "StOpen store (digest bytes) False (host w) = (Inr (bytes, True), host w)" using open_content by blast
  then have opened: "call (StOpen store (digest bytes)) w = (Inr (bytes, True), w)" using assms(7) by (simp add: call_def)
  obtain keyID' w' where key: "resolveKey s p w = (Inr (key, keyID'), w')" using key_fixed_resolves [OF assms(4)] by blast
  obtain pieces metadata where wr: "wrote a p pieces metadata"
    and e: "Encode (bsCodec s) (BeCompression (BpEncoding p)) key pieces = Inr bytes" using enc by (auto simp: encoded_def)
  have dec: "Decode (bsCodec s) (raw_source (bytes, True)) (compression_of (BkCompression ?b)) key = Inr (concat pieces, None)"
    unfolding b(4) compression_roundtrip [OF e] raw_source_def using decode_encode [OF assms(2) e] by simp
  have "openBackup s i w = (Inr \<lparr>opBackup = ?b, opPolicy = p, opReader = (concat pieces, None), opRaw = (bytes, True)\<rparr>, w')"
    using get pol opened key dec dig(2) assms(3,7)
    by (simp add: openBackup_def andthen_def attempt_def need_store_def needs_def found_def ask_code_def bks_get_def
        with_ctx_def guard_io_def give_def raise_def b)
  then show ?thesis using wr by (intro exI conjI) (assumption, assumption, simp)
qed

end

section \<open>An example\<close>

definition demo_report :: PreflightReport where
  "demo_report = \<lparr>Checks = [], ToolVersion = [], PfServerVersion = []\<rparr>"

definition demo_metadata :: BackupMetadata where
  "demo_metadata = \<lparr>MdServerVersion = [], MdClientVersion = [], MdTool = ''tar'', MdLabels = []\<rparr>"

definition demo_files :: "string list \<Rightarrow> Fs BackupAdapter" where
  "demo_files pieces =
     \<lparr>BaKind = BackupResourceFiles, BaValidate = (\<lambda>p dn. give ()), BaPreflight = (\<lambda>p dn. give demo_report),
      BaBackup = (\<lambda>p dn. give (pieces, if dn then Inl Interrupted else Inr demo_metadata)),
      BaVerify = (\<lambda>p src dn. give ()), BaRestore = (\<lambda>p src m dn. give ()), BaCleanup = (\<lambda>p op dn. give ())\<rparr>"

definition demo_backups :: "string list \<Rightarrow> Fs BackupService" where
  "demo_backups pieces = newBackupService (Some (local_backend demo_store)) None [demo_files pieces] plain_lib toy_digest"

definition demo_policy :: BackupPolicy where
  "demo_policy =
     \<lparr>BpID = ''bpl1'', BpAPIVersion = ''ops.frz.io/v1alpha1'', BpKind = BackupPolicyKind, BpName = ''site'',
      BpResource = \<lparr>BrKind = BackupResourceFiles, BrPaths = [''/srv''], BrExclude = [], BrSymlinks = SymlinkSkip,
        DSNSecret = \<lparr>RefKind = SecretKindOther [], RefName = []\<rparr>, Database = []\<rparr>,
      BpEncoding = \<lparr>BeCompression = CompressionNone,
        Encryption = \<lparr>EncEnabled = False, KeySecret = \<lparr>RefKind = SecretKindOther [], RefName = []\<rparr>\<rparr>\<rparr>,
      BpRetention = keep_only 1 0, BpTimeout = \<lparr>ToBackup = hour, ToRestore = hour\<rparr>\<rparr>"

definition demo_bworld :: "time option \<Rightarrow> Fs World" where
  "demo_bworld cancel =
     \<lparr>ops = empty_db, cat = empty_cat, bks = \<lparr>backup_policies = [demo_policy], backups = []\<rparr>, host = demo_disk,
      clock = 100, lag = (\<lambda>_. 1), reads = 0, cancel_at = cancel\<rparr>"

lemma demo_adapter: "map_of (bsAdapters (demo_backups pieces)) BackupResourceFiles = Some (demo_files pieces)"
  by (simp add: demo_backups_def newBackupService_def demo_files_def)

lemma demo_harmless: "harmless sound content (demo_backups pieces)"
  by (auto simp: harmless_def demo_backups_def newBackupService_def demo_files_def leaves_def split: if_splits)

lemma demo_start: "good_local demo_store \<and> intact demo_store (host (demo_bworld cancel))"
  using demo_store_good demo_disk_intact by (simp add: demo_bworld_def)

section \<open>Properties\<close>





end
