(* ===== verification/PruneChecks.thy ===== *)
theory PruneChecks
  imports BackupChecks
begin

text \<open>
  Pruning on the local store: what it keeps, the figure a dry run reports, and the run in progress that loses
  its content; and verifications that fail before there is anything to record.
\<close>

section \<open>Pruning keeps what is needed\<close>

text \<open>C23 Pruning marks backups of its plan only, none with an operation under way, changes no other row, and keeps the
  content of every backup that is left, whatever fails on the way and whenever it is cancelled; as a dry run it
  changes nothing.\<close>

theorem prune_keeps_live:
  assumes "good_local l \<and> intact l (host w)" and "bsStore s = Some (local_backend l)" and "Prune s ref dryRun w = (r, w')"
  shows "\<exists>S. (\<forall>i \<in> S. \<not> hasIncompleteOperation (ops w) i
              \<and> (\<exists>p now. GetBackupPolicy (bks w) ref = Inr p \<and> i \<in> prune_plan w p now))
     \<and> backups (bks w') = map (marked S) (backups (bks w)) \<and> operations (ops w') = operations (ops w)
     \<and> (\<forall>b \<in> set (backups (bks w')). BkStatus b \<noteq> BackupPruned \<longrightarrow> StorageDigest b \<noteq> [] \<longrightarrow>
          blob l (host w') (StorageDigest b) = blob l (host w) (StorageDigest b))
     \<and> (dryRun \<longrightarrow> S = {} \<and> host w' = host w)"
proof (cases dryRun)
  case True
  have "Prune s ref True w = (r, w')" using assms(3) True by simp
  moreover have "only_clock w w" by (simp add: only_clock_def)
  ultimately have "only_clock w w'" by (rule stableD [OF prune_dry_run, rotated])
  then show ?thesis by (intro exI [of _ "{}"]) (simp add: only_clock_def)
next
  case False
  then have run: "Prune s ref False w = (r, w')" using assms(3) by simp
  from disk.prune_outcome [OF assms(2,1) run]
  consider "pruned_to (\<lambda>fs. good_local l \<and> intact l fs) (blob l) {} w w'"
    | p now where "GetBackupPolicy (bks w) ref = Inr p"
        "pruned_to (\<lambda>fs. good_local l \<and> intact l fs) (blob l) (prune_plan w p now) w w'" by metis
  then show ?thesis
  proof cases
    case 1
    then show ?thesis using False by (auto simp: pruned_to_def intro!: exI [of _ "{}"])
  next
    case 2
    obtain S where "S \<subseteq> prune_plan w p now" "\<forall>i \<in> S. \<not> hasIncompleteOperation (ops w) i"
      "backups (bks w') = map (marked S) (backups (bks w))" using 2(2) by (auto simp: pruned_to_def)
    then show ?thesis using 2 False by (intro exI [of _ S]) (auto simp: pruned_to_def)
  qed
qed

text \<open>Two runs of a policy that keeps one backup, then the third one the examples vary.\<close>

definition run_of :: "string \<Rightarrow> string \<Rightarrow> Fs World \<Rightarrow> Fs World" where
  "run_of i content w = snd (ExecuteRun (demo_backups [content]) i demo_policy [] w)"

definition two_runs :: "Fs World" where
  "two_runs = run_of ''bkp2'' ''yy'' (run_of ''bkp1'' ''x'' (demo_bworld None))"

definition demo_prune :: "bool \<Rightarrow> Fs World \<Rightarrow> (fault + PruneResult) \<times> Fs World" where
  "demo_prune dryRun w = Prune (demo_backups []) ''site'' dryRun w"

lemma run_of_intact:
  assumes "good_local demo_store \<and> intact demo_store (host w)"
  shows "good_local demo_store \<and> intact demo_store (host (run_of i content w))"
proof -
  have st: "bsStore (demo_backups [content]) = Some (local_backend demo_store)"
    by (simp add: demo_backups_def newBackupService_def)
  have ad: "map_of (bsAdapters (demo_backups [content])) (BrKind (BpResource demo_policy)) = Some (demo_files [content])"
    using demo_adapter by (simp add: demo_policy_def)
  have c: "contract (\<lambda>w1. w1 = w) (ExecuteRun (demo_backups [content]) i demo_policy [])
      (\<lambda>_. recorded (\<lambda>fs. good_local demo_store \<and> intact demo_store fs) (blob demo_store) (lsDigest demo_store) w
          (demo_backups [content]) (demo_files [content]) i demo_policy [])
      (unrecorded (\<lambda>fs. good_local demo_store \<and> intact demo_store fs) (blob demo_store) w i demo_policy [])"
    by (rule disk.ExecuteRun_contract [OF demo_harmless st ad assms])
  obtain r w' where run: "ExecuteRun (demo_backups [content]) i demo_policy [] w = (r, w')" by fastforce
  have "good_local demo_store \<and> intact demo_store (host w')"
  proof (cases r)
    case (Inl e)
    then show ?thesis using contract_Inl [OF c refl run [unfolded Inl]] by (auto simp: unrecorded_def rows_are_def)
  next
    case (Inr u)
    then show ?thesis using contract_Inr [OF c refl run [unfolded Inr]] by (auto simp: recorded_def rows_are_def)
  qed
  then show ?thesis by (simp add: run_of_def run)
qed

theorem prune_keeps_live_witness:
  "case demo_prune False two_runs of (r, w') \<Rightarrow>
     map BkStatus (backups (bks w')) = [BackupPruned, BackupSucceeded]
     \<and> (\<forall>b \<in> set (backups (bks w')). BkStatus b \<noteq> BackupPruned \<longrightarrow> StorageDigest b \<noteq> [] \<longrightarrow>
          blob demo_store (host w') (StorageDigest b) = blob demo_store (host two_runs) (StorageDigest b))"
proof -
  let ?w' = "snd (demo_prune False two_runs)"
  have sound: "good_local demo_store \<and> intact demo_store (host two_runs)"
    unfolding two_runs_def by (intro run_of_intact demo_start)
  have st: "bsStore (demo_backups []) = Some (local_backend demo_store)" by (simp add: demo_backups_def newBackupService_def)
  have "Prune (demo_backups []) ''site'' False two_runs = (fst (demo_prune False two_runs), ?w')" by (simp add: demo_prune_def)
  from prune_keeps_live [OF sound st this]
  have live: "\<forall>b \<in> set (backups (bks ?w')). BkStatus b \<noteq> BackupPruned \<longrightarrow> StorageDigest b \<noteq> [] \<longrightarrow>
      blob demo_store (host ?w') (StorageDigest b) = blob demo_store (host two_runs) (StorageDigest b)" by blast
  have "map BkStatus (backups (bks ?w')) = [BackupPruned, BackupSucceeded]" by code_simp
  then show ?thesis using live by (simp add: split_beta)
qed

section \<open>Where it goes wrong\<close>

text \<open>A run in progress is not seen: its row has no digest yet. Here a run writes a content that the store has
  already, of the backup pruning removes between the upload and the closing of the run. The run is recorded as a
  success, and its content is gone.\<close>

definition racing_run :: "Fs World \<Rightarrow> (fault + unit) \<times> Fs World" where
  "racing_run w =
     (case run_opening (demo_backups [''x'']) (demo_files [''x'']) ''bkp3'' demo_policy [] w of (_, w) \<Rightarrow>
      case streamBackup (demo_backups [''x'']) (local_backend demo_store) (demo_files [''x'']) demo_policy None w of (out, w) \<Rightarrow>
      case demo_prune False w of (_, w) \<Rightarrow>
      case out of Inl e \<Rightarrow> (Inl e, w) | Inr x \<Rightarrow> run_closing ''bkp3'' demo_policy [] [] x w)"

text \<open>A backup run and a prune that overlap can leave a backup that is recorded as a usable success and has no
  content.\<close>

theorem prune_races_with_run:
  "case racing_run two_runs of (r, w) \<Rightarrow>
     r = Inr () \<and> map (\<lambda>b. (BkStatus b, Usable b, blob demo_store (host w) (StorageDigest b) = None)) (backups (bks w))
       = [(BackupPruned, False, True), (BackupSucceeded, True, False), (BackupSucceeded, True, True)]"
  by code_simp

text \<open>Two backups with the same content, both to be removed: a dry run counts each as held by the other and reports
  that nothing would be freed; the pruning itself frees the content.\<close>

definition same_contents :: "Fs World" where
  "same_contents = run_of ''bkp3'' ''zz'' (run_of ''bkp2'' ''x'' (run_of ''bkp1'' ''x'' (demo_bworld None)))"

lemma dry_run_underreports:
  "map_sum id PrFreedBytes (fst (demo_prune True same_contents)) = Inr 0
   \<and> map_sum id PrFreedBytes (fst (demo_prune False same_contents)) = Inr 10"
proof
  show "map_sum id PrFreedBytes (fst (demo_prune True same_contents)) = Inr 0" by code_simp
  show "map_sum id PrFreedBytes (fst (demo_prune False same_contents)) = Inr 10" by code_simp
qed

text \<open>A verification whose backup cannot be opened, here because its content is gone, fails without a record: the
  backup stays usable.\<close>

definition lost_content :: "Fs World" where
  "lost_content = snd (call (StDelete (local_backend demo_store) (toy_digest ''FRZBC001-yy'')) two_runs)"

lemma verify_open_failure_unrecorded:
  "case ExecuteVerify (demo_backups []) [] ''bkp2'' lost_content of (r, w) \<Rightarrow>
     r = Inl (Fault CodeArtifactNotFound) \<and> map (\<lambda>b. (Usable b, VerifiedAt b)) (backups (bks w)) = [(True, None), (True, None)]"
  by code_simp

end
