(* ===== verification/Decimals.thy ===== *)
theory Decimals
  imports GoNumbers
begin

text \<open>
  The decimal numbers the backup service writes into its log lines (\<open>itoa64\<close> at the end of
  \<open>internal/application/backup.go\<close>), beside those of the standard library.
\<close>

function itoa_loop :: "int \<Rightarrow> string \<Rightarrow> string" where
  "itoa_loop v acc = (if 0 < v then itoa_loop (v div 10) (digit_char (v mod 10) # acc) else acc)"
  by pat_completeness auto

termination itoa_loop
  by (relation "measure (nat \<circ> fst)") auto

declare itoa_loop.simps [simp del]

definition itoa64 :: "int \<Rightarrow> string" where
  "itoa64 v =
     (if v = 0 then ''0''
      else let negative = v < 0;
               digits = itoa_loop (if negative then wrap64 (- v) else v) []
           in if negative then CHR ''-'' # digits else digits)"

lemma itoa_loop_digits: "0 < v \<Longrightarrow> itoa_loop v acc = digits v @ acc"
proof (induction v acc rule: itoa_loop.induct)
  case (1 v acc)
  show ?case
  proof (cases "v < 10")
    case True
    then have "v div 10 = 0" "v mod 10 = v" using 1(2) by simp_all
    then show ?thesis using 1(2) True by (simp add: itoa_loop.simps [of v] itoa_loop.simps [of 0] digits.simps [of v])
  next
    case False
    then have "itoa_loop (v div 10) (digit_char (v mod 10) # acc) = digits (v div 10) @ digit_char (v mod 10) # acc"
      using 1 by simp
    then show ?thesis using 1(2) False by (simp add: itoa_loop.simps [of v] digits.simps [of v])
  qed
qed

text \<open>C24 The hand-written conversion prints what \<open>strconv.Itoa\<close> prints, except for the least 64-bit integer, whose
  negation wraps round to itself: of that only the sign is printed.\<close>

theorem itoa64_is_Itoa:
  assumes "in_int64 v"
  shows "itoa64 v = (if v = - (2 ^ 63) then ''-'' else Itoa v)"
proof -
  have "itoa64 v = Itoa v" if "v \<noteq> - (2 ^ 63)"
  proof (cases "v = 0")
    case False
    have "wrap64 (- v) = - v" using assms that by (simp add: in_int64_def)
    then show ?thesis using False by (auto simp: itoa64_def Itoa_def itoa_loop_digits Let_def)
  qed (simp add: itoa64_def Itoa_def digits.simps [of 0] digit_char_def)
  moreover have "itoa64 (- (2 ^ 63)) = ''-''"
    by (simp add: itoa64_def wrap64_def itoa_loop.simps [of "- 9223372036854775808"])
  ultimately show ?thesis by simp
qed

theorem itoa64_is_Itoa_witness: "itoa64 (- 4096) = Itoa (- 4096) \<and> itoa64 (- 4096) = ''-4096''"
proof
  show "itoa64 (- 4096) = Itoa (- 4096)" using itoa64_is_Itoa [of "- 4096"] by (simp add: in_int64_def)
  show "itoa64 (- 4096) = ''-4096''" by code_simp
qed

end
