(* ===== verification/RuntimeOps.thy ===== *)
theory RuntimeOps
  imports World AppPaths
begin

text \<open>
  The runtime service (\<open>internal/application/runtimeops.go\<close>): from a reference to an application and a slot
  as text to the manifest, the slot and the adapter, for the synchronous endpoints, for the creation of an
  operation and for its execution.
\<close>

record RuntimeDecision =
  DecUnitName :: string
  DecUnitPath :: string
  DecTier :: string
  DecSystemdVersion :: int
  Degradations :: "string list"
  DecidedAt :: time

text \<open>The reporter answers from what the adapter remembers; it may know nothing.\<close>

record 'h RuntimeService =
  rsAdapter :: "'h RuntimeAdapter option"
  rsReporter :: "(ApplicationSpec \<Rightarrow> Slot \<Rightarrow> 'h \<Rightarrow> RuntimeDecision option) option"

definition requireAdapter :: "'h RuntimeService \<Rightarrow> ('h, 'h RuntimeAdapter) act" where
  "requireAdapter s = ask_code (\<lambda>_. found (rsAdapter s) CodeRuntimeUnsupport)"

definition Runtime_Resolve :: "string \<Rightarrow> ('h, Application \<times> ApplicationSpec) act" where
  "Runtime_Resolve appRef =
     andthen (cat_get (\<lambda>db. GetApplication db appRef)) (\<lambda>app.
     andthen (cat_get (\<lambda>db. GetApplicationSpec db (AppID app))) (\<lambda>spec.
     give (app, spec)))"

definition CheckSlot :: "ApplicationSpec \<Rightarrow> string \<Rightarrow> ErrorCode + Slot" where
  "CheckSlot spec raw =
     (if raw = [] then (if BlueGreen spec then Inl CodeInvalidRequest else Inr NoSlot)
      else case ParseSlot raw of
        Inl e \<Rightarrow> Inl e
      | Inr slot \<Rightarrow> if \<not> BlueGreen spec then Inl CodeInvalidRequest else Inr slot)"

definition check_slot :: "ApplicationSpec \<Rightarrow> string \<Rightarrow> ('h, Slot) act" where
  "check_slot spec raw = ask_code (\<lambda>_. CheckSlot spec raw)"

definition ResolveSlot :: "string \<Rightarrow> string \<Rightarrow> ('h, Application \<times> ApplicationSpec \<times> Slot) act" where
  "ResolveSlot appRef rawSlot =
     andthen (Runtime_Resolve appRef) (\<lambda>(app, spec).
     andthen (check_slot spec rawSlot) (\<lambda>slot.
     give (app, spec, slot)))"

definition Runtime_Validate :: "'h RuntimeService \<Rightarrow> string \<Rightarrow> ('h, Application \<times> ApplicationSpec) act" where
  "Runtime_Validate s appRef =
     andthen (Runtime_Resolve appRef) (\<lambda>(app, spec).
     andthen (requireAdapter s) (\<lambda>adapter.
     andthen (call (RtValidate adapter spec)) (\<lambda>_.
     give (app, spec))))"

definition runtime_decision :: "'h RuntimeService \<Rightarrow> ApplicationSpec \<Rightarrow> Slot \<Rightarrow> ('h, RuntimeDecision option) act" where
  "runtime_decision s spec slot =
     (case rsReporter s of None \<Rightarrow> give None | Some report \<Rightarrow> ask (\<lambda>w. report spec slot (host w)))"

definition Runtime_Prepare ::
  "'h RuntimeService \<Rightarrow> string \<Rightarrow> string \<Rightarrow> ('h, Application \<times> ApplicationSpec \<times> RuntimeDecision option) act" where
  "Runtime_Prepare s appRef rawSlot =
     andthen (ResolveSlot appRef rawSlot) (\<lambda>(app, spec, slot).
     andthen (requireAdapter s) (\<lambda>adapter.
     andthen (call (RtPrepare adapter spec slot)) (\<lambda>_.
     andthen (runtime_decision s spec slot) (\<lambda>decision.
     give (app, spec, decision)))))"

definition Runtime_Health ::
  "'h RuntimeService \<Rightarrow> string \<Rightarrow> string \<Rightarrow> ('h, Application \<times> ApplicationSpec \<times> RuntimeHealth) act" where
  "Runtime_Health s appRef rawSlot =
     andthen (ResolveSlot appRef rawSlot) (\<lambda>(app, spec, slot).
     andthen (requireAdapter s) (\<lambda>adapter.
     andthen (call (RtHealth adapter spec slot)) (\<lambda>health.
     give (app, spec, health))))"

text \<open>Before an operation is created: its resource is the identifier of the application, its slot is checked.\<close>

definition ResolveRuntimeOperation :: "'h RuntimeService \<Rightarrow> Kind \<Rightarrow> string \<Rightarrow> string \<Rightarrow> ('h, string \<times> Slot) act" where
  "ResolveRuntimeOperation s k appRef rawSlot =
     andthen (guard_io (k = KindRuntimeStart \<or> k = KindRuntimeStop) CodeInvalidRequest) (\<lambda>_.
     andthen (Runtime_Validate s appRef) (\<lambda>(app, spec).
     andthen (check_slot spec rawSlot) (\<lambda>slot.
     give (AppID app, slot))))"

section \<open>Slots\<close>

fun slot_text :: "Slot \<Rightarrow> string" where
  "slot_text SlotBlue = ''blue''"
| "slot_text SlotGreen = ''green''"
| "slot_text NoSlot = []"
| "slot_text (SlotOther t) = t"

text \<open>An accepted slot fits the shape of the application, and is accepted again from its text: the one that is
  stored with an operation is the one it is carried out on.\<close>

lemma CheckSlot_Inr:
  assumes "CheckSlot spec raw = Inr slot"
  shows "if BlueGreen spec then slot \<in> {SlotBlue, SlotGreen} else slot = NoSlot"
  using assms by (auto simp: CheckSlot_def ParseSlot_def Let_def split: if_splits sum.splits)

lemma CheckSlot_again:
  assumes "CheckSlot spec raw = Inr slot"
  shows "CheckSlot spec (slot_text slot) = Inr slot"
proof -
  have "ParseSlot ''blue'' = Inr SlotBlue" "ParseSlot ''green'' = Inr SlotGreen" by code_simp+
  then show ?thesis using CheckSlot_Inr [OF assms] by (auto simp: CheckSlot_def split: if_splits)
qed

end
