(* ===== verification/Service.thy ===== *)
theory Service
  imports RuntimeOps Backups DeploySlot Scheduler Principal
begin

text \<open>
  The operation service (\<open>internal/application/service.go\<close>): creating an operation for a caller, cancelling,
  retrying and reading its log. Waking the workers is not modelled; a call is told the fresh identifier it uses.
\<close>

section \<open>Texts of specifications\<close>

text \<open>Besides commands and restores, the JSON of an operation carries a slot or a release: reading the two
  documents and writing the first.\<close>

record OpCodec =
  command_codec :: codec
  decode_runtime :: "string \<Rightarrow> string option"
  encode_runtime :: "string \<Rightarrow> string"
  decode_release :: "string \<Rightarrow> string option"

record CreateOperationRequest =
  RqKind :: Kind
  RqResource :: string
  RqDryRun :: bool
  RqSpec :: string
  RqIdempotencyKey :: string
  RqCreatedBy :: string
  RqRetry :: "RetrySpec option"

record 'h Service =
  svCodec :: OpCodec
  svAllow :: "(string \<Rightarrow> bool) option"
  svRuntime :: "'h RuntimeService option"
  svBackups :: "'h BackupService option"
  svDeploys :: "'h DeployService option"

section \<open>Who may create what\<close>

definition remote :: "Principal option \<Rightarrow> bool" where
  "remote caller \<longleftrightarrow> (case caller of None \<Rightarrow> False | Some p \<Rightarrow> IsRemote p)"

definition authorizeResource :: "Principal option \<Rightarrow> string \<Rightarrow> ('h, unit) act" where
  "authorizeResource caller resource =
     (case caller of
        None \<Rightarrow> give ()
      | Some p \<Rightarrow>
          if Applications p = [] then give ()
          else attempt (cat_get (\<lambda>db. GetApplication db resource))
            (\<lambda>e. if CodeOf e = CodeApplicationNotFound then give () else raise e)
            (\<lambda>app. guard_io (AllowsApplication p (AppName app)) CodeRemoteForbidden))"

section \<open>Creating\<close>

definition blank_kind :: "Kind \<Rightarrow> bool" where
  "blank_kind k \<longleftrightarrow> (case k of KindOther t \<Rightarrow> blank t | _ \<Rightarrow> False)"

definition retry_of_request :: "CreateOperationRequest \<Rightarrow> ErrorCode + RetryPolicy \<times> RetryJSON" where
  "retry_of_request req =
     (case RqRetry req of
        None \<Rightarrow> Inr (zero_policy, NoJSON)
      | Some spec \<Rightarrow>
          (case RetryPolicy_Validate (RetryPolicyFromSpec spec) of
             Some e \<Rightarrow> Inl e
           | None \<Rightarrow> Inr (RetryPolicyFromSpec spec, JSONOf spec)))"

text \<open>By kind: the resource the operation locks and the specification it keeps.\<close>

definition runtime_request :: "'h Service \<Rightarrow> CreateOperationRequest \<Rightarrow> ('h, string \<times> string) act" where
  "runtime_request s req =
     andthen (guard_io (\<not> RqDryRun req) CodeInvalidRequest) (\<lambda>_.
     andthen (needs (found (svRuntime s) CodeRuntimeUnsupport)) (\<lambda>runtime.
     andthen (needs (if RqSpec req = [] then Inr [] else found (decode_runtime (svCodec s) (RqSpec req)) CodeInvalidRequest)) (\<lambda>rawSlot.
     andthen (ResolveRuntimeOperation runtime (RqKind req) (RqResource req) rawSlot) (\<lambda>(resource, slot).
     give (resource, if slot = NoSlot then [] else encode_runtime (svCodec s) (slot_text slot))))))"

definition backup_request :: "'h Service \<Rightarrow> CreateOperationRequest \<Rightarrow> ('h, string \<times> string) act" where
  "backup_request s req =
     andthen (guard_io (\<not> RqDryRun req) CodeInvalidRequest) (\<lambda>_.
     andthen (needs (found (svBackups s) CodeConfigInvalid)) (\<lambda>backups.
     andthen (ResolveBackupOperation backups (RqKind req) (RqResource req)) (\<lambda>resource.
     if RqKind req = KindBackupRestore
     then andthen (needs (DecodeRestoreOptions (command_codec (svCodec s)) (RqSpec req))) (\<lambda>options.
          andthen (PrepareRestore resource (RestMode options) (Confirmed options)) (\<lambda>_.
          give (resource, RqSpec req)))
     else give (resource, []))))"

definition deploy_request :: "'h Service \<Rightarrow> CreateOperationRequest \<Rightarrow> ('h, string \<times> string) act" where
  "deploy_request s req =
     andthen (guard_io (\<not> RqDryRun req) CodeInvalidRequest) (\<lambda>_.
     andthen (needs (found (svDeploys s) CodeRuntimeUnsupport)) (\<lambda>deploys.
     andthen (ResolveDeployOperation deploys (RqResource req)
       (if RqSpec req = [] then None
        else Some (case decode_release (svCodec s) (RqSpec req) of None \<Rightarrow> Inl () | Some i \<Rightarrow> Inr i))) (\<lambda>resource.
     give (resource, RqSpec req))))"

definition command_request :: "'h Service \<Rightarrow> CreateOperationRequest \<Rightarrow> ('h, string \<times> string) act" where
  "command_request s req =
     andthen (needs (BuildCommandSpec (command_codec (svCodec s)) (RqKind req) (RqSpec req))) (\<lambda>spec.
     andthen (guard_io (case svAllow s of None \<Rightarrow> True | Some allow \<Rightarrow> allow (hd (Argv spec))) CodePermissionDenied) (\<lambda>_.
     give (RqResource req, RqSpec req)))"

definition resolve_request :: "'h Service \<Rightarrow> CreateOperationRequest \<Rightarrow> ('h, string \<times> string) act" where
  "resolve_request s req =
     (if isRuntimeKind (RqKind req) then runtime_request s req
      else if isBackupKind (RqKind req) then backup_request s req
      else if isDeployKind (RqKind req) then deploy_request s req
      else command_request s req)"

definition ops_ctx :: "(OpDb \<Rightarrow> (ErrorCode + 'a) \<times> OpDb) \<Rightarrow> ('h, 'a) act" where
  "ops_ctx f = with_ctx (ops_run f)"

definition requested ::
  "string \<Rightarrow> Principal option \<Rightarrow> CreateOperationRequest \<Rightarrow> string \<times> string \<Rightarrow> string \<Rightarrow> time \<Rightarrow> RetryPolicy \<times> RetryJSON \<Rightarrow> Operation" where
  "requested i caller req target hash now retry =
     \<lparr>ID = i, OpKind = RqKind req, Resource = fst target, OpStatus = StatusPending, OpPhase = PhaseNone,
      DryRun = RqDryRun req, IdempotencyKey = RqIdempotencyKey req, RequestHash = hash, RetryOf = [],
      OpExitCode = None, OpErrorCode = None, OpErrorMessage = [], Spec = snd target, CreatedAt = now,
      StartedAt = None, FinishedAt = None, CreatedBy = fst (ClaimedActor caller (RqCreatedBy req)),
      ClaimedBy = snd (ClaimedActor caller (RqCreatedBy req)), Attempt = 1, NotBefore = None,
      OpRetryPolicy = fst retry, RetryPolicyJSON = snd retry\<rparr>"

definition Service_Create ::
  "'h Service \<Rightarrow> Principal option \<Rightarrow> string \<Rightarrow> CreateOperationRequest \<Rightarrow> ('h, Operation \<times> bool) act" where
  "Service_Create s caller i req =
     andthen (guard_io (\<not> blank_kind (RqKind req)) CodeInvalidRequest) (\<lambda>_.
     andthen (guard_io (\<not> blank (RqResource req)) CodeInvalidRequest) (\<lambda>_.
     andthen (guard_io (\<not> (remote caller \<and> RqKind req = KindExecutorCommand)) CodeRemoteForbidden) (\<lambda>_.
     andthen (authorizeResource caller (RqResource req)) (\<lambda>_.
     andthen (guard_io (\<not> (RqRetry req \<noteq> None \<and> RqDryRun req)) CodeInvalidRequest) (\<lambda>_.
     andthen (needs (retry_of_request req)) (\<lambda>retry.
     andthen (resolve_request s req) (\<lambda>target.
     andthen (needs (requestHash (command_codec (svCodec s)) (RqKind req) (fst target) (RqDryRun req) (snd retry) (snd target))) (\<lambda>hash.
     andthen now_io (\<lambda>now.
     ops_ctx (\<lambda>db. CreateOperation db (requested i caller req target hash now retry)))))))))))"

section \<open>Cancelling\<close>

text \<open>The contexts of the operations that are being carried out, and those that were cancelled.\<close>

record cancelRegistry =
  registered :: "string list"
  cancelled_ops :: "string list"

definition register_cancel :: "string \<Rightarrow> cancelRegistry \<Rightarrow> cancelRegistry" where
  "register_cancel i r = r\<lparr>registered := i # registered r\<rparr>"

definition unregister_cancel :: "string \<Rightarrow> cancelRegistry \<Rightarrow> cancelRegistry" where
  "unregister_cancel i r = r\<lparr>registered := removeAll i (registered r)\<rparr>"

definition cancel_registered :: "string \<Rightarrow> cancelRegistry \<Rightarrow> bool \<times> cancelRegistry" where
  "cancel_registered i r =
     (if i \<notin> set (registered r) then (False, r) else (True, r\<lparr>cancelled_ops := i # cancelled_ops r\<rparr>))"

definition Service_Cancel :: "string \<Rightarrow> cancelRegistry \<Rightarrow> ('h, Operation \<times> cancelRegistry) act" where
  "Service_Cancel i reg =
     andthen now_io (\<lambda>now.
     andthen (ops_ctx (\<lambda>db. CancelPending db i now)) (\<lambda>(op, cancelledInline).
     give (op, if \<not> cancelledInline \<and> OpStatus op = StatusRunning then snd (cancel_registered (ID op) reg) else reg)))"

section \<open>Retrying\<close>

definition retried :: "string \<Rightarrow> Operation \<Rightarrow> string \<Rightarrow> time \<Rightarrow> Operation" where
  "retried i original hash now =
     \<lparr>ID = i, OpKind = OpKind original, Resource = Resource original, OpStatus = StatusPending, OpPhase = PhaseNone,
      DryRun = DryRun original, IdempotencyKey = [], RequestHash = hash, RetryOf = ID original, OpExitCode = None,
      OpErrorCode = None, OpErrorMessage = [], Spec = Spec original, CreatedAt = now, StartedAt = None,
      FinishedAt = None, CreatedBy = CreatedBy original, ClaimedBy = [], Attempt = wrap64 (Attempt original + 1),
      NotBefore = None, OpRetryPolicy = OpRetryPolicy original, RetryPolicyJSON = RetryPolicyJSON original\<rparr>"

definition retried_event :: "Operation \<Rightarrow> Operation \<Rightarrow> time \<Rightarrow> AuditEvent" where
  "retried_event original retry now =
     \<lparr>EvType = EventOperationRetried, EvActor = CreatedBy original, EvOperationID = ID retry, EvResource = Resource retry,
      EvResult = status_name (OpStatus retry), EvTime = now, EvDetails = [(''retryOf'', VStr (ID original))]\<rparr>"

definition Service_Retry :: "'h Service \<Rightarrow> string \<Rightarrow> string \<Rightarrow> ('h, Operation) act" where
  "Service_Retry s i ref =
     andthen (ops_get (\<lambda>db. GetOperation db ref)) (\<lambda>original.
     andthen (guard_io (CanRetry (OpStatus original)) CodeInvalidRequest) (\<lambda>_.
     andthen (needs (requestHash (command_codec (svCodec s)) (OpKind original) (Resource original) (DryRun original)
       (RetryPolicyJSON original) (Spec original))) (\<lambda>hash.
     andthen now_io (\<lambda>now.
     andthen (ops_ctx (\<lambda>db. CreateOperation db (retried i original hash now))) (\<lambda>(op, created).
     if \<not> created then give op
     else andthen now_io (\<lambda>t.
          andthen (with_ctx (ops_try (\<lambda>db. AppendAudit db (retried_event original op t)))) (\<lambda>_.
          give op)))))))"

section \<open>Reading\<close>

definition Service_Get :: "string \<Rightarrow> ('h, Operation) act" where
  "Service_Get i = ops_get (\<lambda>db. GetOperation db i)"

definition Service_List :: "nat \<Rightarrow> Status option \<Rightarrow> ('h, Operation list) act" where
  "Service_List limit status = with_ctx (ask (\<lambda>w. ListOperations (ops w) limit status))"

text \<open>The identifier of a log entry is its position in the table, from 1.\<close>

definition ListLogs :: "OpDb \<Rightarrow> string \<Rightarrow> int \<Rightarrow> nat \<Rightarrow> (int \<times> LogEntry) list" where
  "ListLogs db i afterID limit =
     take limit (filter (\<lambda>(n, e). LogOperationID e = i \<and> afterID < n)
       (zip (map int [1..<Suc (length (operation_logs db))]) (operation_logs db)))"

definition defaultLogLimit :: int where "defaultLogLimit = 200"
definition maxLogLimit :: int where "maxLogLimit = 1000"

definition Service_Logs :: "string \<Rightarrow> int \<Rightarrow> int \<Rightarrow> ('h, (int \<times> LogEntry) list) act" where
  "Service_Logs i cursor limit =
     andthen (ops_get (\<lambda>db. GetOperation db i)) (\<lambda>_.
     with_ctx (ask (\<lambda>w. ListLogs (ops w) i (max 0 cursor)
       (nat (if limit \<le> 0 \<or> maxLogLimit < limit then defaultLogLimit else limit)))))"

end
