(* ===== verification/Worker.thy ===== *)
theory Worker
  imports Service GoNumbers
begin

text \<open>
  The worker pool (\<open>internal/application/worker.go\<close>): one operation from the moment it is claimed to the
  moment its result is in the store, for commands, runtimes, backups and deployments; and what the daemon
  does at its start with operations the last one left behind (\<open>recovery.go\<close>).

  Results and log lines are written with a context that outlives the operation. The goroutines, the ticker and
  the wake-up channel are not modelled. Identifiers and jitter are drawn by the number of clock readings
  so far. The messages of log lines and errors are left out, the fields of a command's log lines are not.
\<close>

section \<open>The pool\<close>

record RunResult =
  RsExitCode :: int
  RsStdout :: string
  RsStderr :: string
  RsTruncated :: bool
  RsDurationMS :: int
  RsExecuted :: bool

text \<open>A command gives a result and perhaps an error.\<close>

record 'h Executor =
  ExRun :: "CommandSpec \<Rightarrow> bool \<Rightarrow> 'h \<Rightarrow> (RunResult \<times> fault option) \<times> 'h"

record 'h Pool =
  plCodec :: OpCodec
  plSort :: sorter
  plExec :: "'h Executor"
  plResolver :: "'h SecretResolver option"
  plSensitive :: "string list"
  plRuntimes :: "'h RuntimeService option"
  plBackups :: "'h BackupService option"
  plDeploys :: "'h DeployService option"
  plNewID :: "nat \<Rightarrow> string"
  plJitter :: "nat \<Rightarrow> rat"

definition draw :: "(nat \<Rightarrow> 'a) \<Rightarrow> ('h, 'a) act" where
  "draw f = ask (\<lambda>w. f (reads w))"

section \<open>Log lines\<close>

definition pool_log :: "Redactor option \<Rightarrow> string \<Rightarrow> string \<Rightarrow> Phase \<Rightarrow> (string \<times> string) list \<Rightarrow> ('h, unit) act" where
  "pool_log redactor op level phase kvs =
     andthen now_io (\<lambda>now.
     ignoring (ops_try (\<lambda>db. AppendLog db
       \<lparr>LogOperationID = op, LogLevel = level, LogPhase = phase, LogMessage = [],
        LogFields = map (\<lambda>(k, v). (k, VStr v)) (RedactFields redactor kvs), LogTime = now\<rparr>)))"

text \<open>\<open>strings.Join\<close> with a separator of any length.\<close>

fun StringsJoin :: "string \<Rightarrow> string list \<Rightarrow> string" where
  "StringsJoin sep [] = []"
| "StringsJoin sep [x] = x"
| "StringsJoin sep (x # y # xs) = x @ sep @ StringsJoin sep (y # xs)"

definition formatEnv :: "(string \<times> string) list \<Rightarrow> string" where
  "formatEnv env =
     (if env = [] then []
      else StringsJoin '' '' (map (\<lambda>k. k @ ''='' @ the (map_of env k)) (sort (remdups (map fst env)))))"

definition FormatBool :: "bool \<Rightarrow> string" where
  "FormatBool b = (if b then ''true'' else ''false'')"

section \<open>Retries\<close>

definition planRetryFor :: "Operation \<Rightarrow> ErrorCode \<Rightarrow> time \<Rightarrow> string \<Rightarrow> rat \<Rightarrow> RetryPlan option" where
  "planRetryFor op failureCode now i jitter =
     (if \<not> Enabled (OpRetryPolicy op) then None
      else if \<not> Retryable (OpRetryPolicy op) failureCode then None
      else let attempt = (if Attempt op < 1 then 1 else Attempt op)
           in if MaxAttempts (OpRetryPolicy op) < wrap64 (attempt + 1) then None
              else Some \<lparr>PlanOperationID = i, PlanNotBefore = now + NextDelay (OpRetryPolicy op) attempt jitter,
                         PlanRetryPolicyJSON = RetryPolicyJSON op\<rparr>)"

text \<open>Only a failure has a code, and only a failure is retried.\<close>

definition planRetry :: "'h Pool \<Rightarrow> Operation \<Rightarrow> Status \<Rightarrow> ErrorCode option \<Rightarrow> ('h, RetryPlan option) act" where
  "planRetry p op status errorCode =
     (if status \<noteq> StatusFailed then give None
      else andthen (draw (plNewID p)) (\<lambda>i.
           andthen (draw (plJitter p)) (\<lambda>jitter.
           andthen now_io (\<lambda>now.
           give (case errorCode of None \<Rightarrow> None | Some c \<Rightarrow> planRetryFor op c now i jitter)))))"

definition pool_finish :: "'h Pool \<Rightarrow> Operation \<Rightarrow> Status \<Rightarrow> int option \<Rightarrow> ErrorCode option \<Rightarrow> ('h, unit) act" where
  "pool_finish p op status exitCode errorCode =
     andthen (planRetry p op status errorCode) (\<lambda>plan.
     andthen now_io (\<lambda>now.
     ignoring (ops_run (\<lambda>db. Finish db
       \<lparr>FinOperationID = ID op, FinStatus = status, FinExitCode = exitCode, FinErrorCode = errorCode,
        FinErrorMessage = [], FinRetry = plan\<rparr> now))))"

text \<open>The status an error ends with: in two of the four ways a fault that is \<open>context.Canceled\<close> itself counts
  as a cancellation, in the others only the code does.\<close>

definition by_code :: "fault \<Rightarrow> Status \<times> ErrorCode" where
  "by_code e = (if CodeOf e = CodeExecCancelled then (StatusCancelled, CodeOf e) else (StatusFailed, CodeOf e))"

definition by_cause :: "fault \<Rightarrow> Status \<times> ErrorCode" where
  "by_cause e =
     (if e = Interrupted \<or> CodeOf e = CodeExecCancelled then (StatusCancelled, CodeExecCancelled) else (StatusFailed, CodeOf e))"

section \<open>Commands\<close>

text \<open>Secrets are resolved in the order the map is iterated; what was resolved before a failure is kept for the
  redactor.\<close>

fun resolve_loop ::
  "'h SecretResolver \<Rightarrow> (string \<times> SecretRef) list \<Rightarrow> (string \<times> string) list \<Rightarrow> string list
     \<Rightarrow> ('h, (string \<times> string) list \<times> string list \<times> fault option) act" where
  "resolve_loop resolver [] env values = give (env, values, None)"
| "resolve_loop resolver ((name, ref) # refs) env values =
     attempt (call (SrResolve resolver ref))
       (\<lambda>e. give (env, values, Some e))
       (\<lambda>v. resolve_loop resolver refs (AList.update name v env) (values @ [v]))"

definition redactorFor :: "'h Pool \<Rightarrow> CommandSpec \<Rightarrow> string list \<Rightarrow> Redactor" where
  "redactorFor p spec secretValues =
     NewRedactor (plSort p) (secretValues
       @ concat (map (\<lambda>k. case map_of (Environment spec) k of None \<Rightarrow> [] | Some v \<Rightarrow> [v]) (plSensitive p @ SensitiveEnvKeys spec)))"

definition resolveSecrets :: "'h Pool \<Rightarrow> CommandSpec \<Rightarrow> ('h, CommandSpec \<times> Redactor option \<times> fault option) act" where
  "resolveSecrets p spec =
     (if SecretEnv spec = [] then give (spec, Some (redactorFor p spec []), None)
      else case plResolver p of
        None \<Rightarrow> give (spec, None, Some (Fault CodeSecretUnresolved))
      | Some resolver \<Rightarrow>
          andthen (resolve_loop resolver (SecretEnv spec) (Environment spec) []) (\<lambda>(env, values, failure).
          give (case failure of
            Some e \<Rightarrow> (spec, Some (NewRedactor (plSort p) values), Some e)
          | None \<Rightarrow> let spec' = spec\<lparr>Environment := env, SecretEnv := []\<rparr>
                    in (spec', Some (redactorFor p spec' values), None))))"

definition run_command :: "'h Executor \<Rightarrow> CommandSpec \<Rightarrow> ('h, RunResult \<times> fault option) act" where
  "run_command exec spec = call (\<lambda>dn h. case ExRun exec spec dn h of (x, h') \<Rightarrow> (Inr x, h'))"

definition log_start :: "'h Pool \<Rightarrow> Redactor option \<Rightarrow> Operation \<Rightarrow> CommandSpec \<Rightarrow> ('h, unit) act" where
  "log_start p redactor op spec =
     pool_log redactor (ID op) ''info'' PhaseExecute
       [(''argv'', StringsJoin '' '' (RedactArgv (Argv spec) (SensitiveArgIndexes spec))),
        (''workingDirectory'', WorkingDirectory spec), (''dryRun'', FormatBool (DryRun op)),
        (''environment'', formatEnv (RedactEnv (Environment spec) (plSensitive p @ SensitiveEnvKeys spec)))]"

definition log_output :: "Redactor option \<Rightarrow> Operation \<Rightarrow> Status \<Rightarrow> RunResult \<Rightarrow> ('h, unit) act" where
  "log_output redactor op status result =
     andthen (if RsStdout result = [] then give ()
       else pool_log redactor (ID op) ''info'' PhaseExecute [(''stdout'', RsStdout result)]) (\<lambda>_.
     if RsStderr result = [] then give ()
     else pool_log redactor (ID op) (if status \<noteq> StatusSucceeded then ''error'' else ''warn'') PhaseExecute
            [(''stderr'', RsStderr result)])"

definition run_status :: "fault option \<Rightarrow> Status \<times> ErrorCode option" where
  "run_status runErr = (case runErr of None \<Rightarrow> (StatusSucceeded, None) | Some e \<Rightarrow> (fst (by_code e), Some (snd (by_code e))))"

definition exit_code :: "RunResult \<times> fault option \<Rightarrow> int option" where
  "exit_code outcome =
     (case outcome of
        (result, Some e) \<Rightarrow> if CodeOf e = CodeExecExitNonZero then Some (RsExitCode result) else None
      | (result, None) \<Rightarrow> if RsExecuted result then Some (RsExitCode result) else None)"

definition log_summary :: "Operation \<Rightarrow> RunResult \<Rightarrow> Status \<Rightarrow> int option \<Rightarrow> ErrorCode option \<Rightarrow> ('h, unit) act" where
  "log_summary op result status exitCode errorCode =
     pool_log None (ID op) (if status \<noteq> StatusSucceeded then ''error'' else ''info'') PhaseFinalize
       ([(''status'', status_name status), (''durationMs'', Itoa (RsDurationMS result)), (''truncated'', FormatBool (RsTruncated result))]
        @ (case exitCode of None \<Rightarrow> [] | Some c \<Rightarrow> [(''exitCode'', Itoa c)])
        @ (case errorCode of None \<Rightarrow> [] | Some c \<Rightarrow> [(''errorCode'', code_text c)]))"

definition reject_command :: "'h Pool \<Rightarrow> Redactor option \<Rightarrow> Operation \<Rightarrow> ErrorCode \<Rightarrow> ('h, unit) act" where
  "reject_command p redactor op code =
     andthen (pool_log redactor (ID op) ''error'' PhaseValidate [(''errorCode'', code_text code)]) (\<lambda>_.
     pool_finish p op StatusFailed None (Some code))"

definition carry_out :: "'h Pool \<Rightarrow> Operation \<Rightarrow> CommandSpec \<times> Redactor option \<times> fault option \<Rightarrow> ('h, unit) act" where
  "carry_out p op resolved =
     (case resolved of
        (_, redactor, Some e) \<Rightarrow> reject_command p redactor op (CodeOf e)
      | (spec, redactor, None) \<Rightarrow>
          andthen (log_start p redactor op spec) (\<lambda>_.
          andthen (run_command (plExec p) spec) (\<lambda>outcome.
          let status = fst (run_status (snd outcome));
              errorCode = snd (run_status (snd outcome));
              exitCode = exit_code outcome
          in andthen (log_output redactor op status (fst outcome)) (\<lambda>_.
             andthen (log_summary op (fst outcome) status exitCode errorCode) (\<lambda>_.
             pool_finish p op status exitCode errorCode)))))"

definition executeCommand :: "'h Pool \<Rightarrow> Operation \<Rightarrow> ('h, unit) act" where
  "executeCommand p op =
     (case BuildCommandSpec (command_codec (plCodec p)) (OpKind op) (Spec op) of
        Inl code \<Rightarrow> reject_command p None op code
      | Inr built \<Rightarrow> andthen (resolveSecrets p (built\<lparr>CmdDryRun := DryRun op\<rparr>)) (carry_out p op))"

section \<open>Runtimes\<close>

definition decision_fields :: "Application \<Rightarrow> RuntimeDecision \<Rightarrow> (string \<times> string) list" where
  "decision_fields app d =
     [(''application'', AppName app), (''unitName'', DecUnitName d), (''unitPath'', DecUnitPath d), (''tier'', DecTier d)]
     @ (if 0 < DecSystemdVersion d then [(''systemdVersion'', Itoa (DecSystemdVersion d))] else [])
     @ (if Degradations d = [] then [] else [(''degradations'', StringsJoin ''; '' (Degradations d))])"

definition recordRuntimeDecision :: "'h RuntimeService \<Rightarrow> Operation \<Rightarrow> Application \<Rightarrow> ApplicationSpec \<Rightarrow> Slot \<Rightarrow> ('h, unit) act" where
  "recordRuntimeDecision runtimes op app spec slot =
     andthen (runtime_decision runtimes spec slot) (\<lambda>decision.
     case decision of
       None \<Rightarrow> give ()
     | Some d \<Rightarrow>
         andthen (pool_log None (ID op) ''info'' PhasePrepare (decision_fields app d)) (\<lambda>_.
         ignoring (ops_try (\<lambda>db. AppendAudit db
           \<lparr>EvType = EventRuntimePrepared, EvActor = [], EvOperationID = ID op, EvResource = AppID app,
            EvResult = ''prepared'', EvTime = DecidedAt d,
            EvDetails = map (\<lambda>(k, v). (k, VStr v)) (decision_fields app d)\<rparr>))))"

definition runtime_work :: "'h Pool \<Rightarrow> Operation \<Rightarrow> ('h, unit) act" where
  "runtime_work p op =
     andthen (needs (found (plRuntimes p) CodeRuntimeUnsupport)) (\<lambda>runtimes.
     andthen (Runtime_Resolve (Resource op)) (\<lambda>(app, spec).
     andthen (needs (if Spec op = [] then Inr [] else found (decode_runtime (plCodec p) (Spec op)) CodeInternal)) (\<lambda>rawSlot.
     andthen (check_slot spec rawSlot) (\<lambda>slot.
     andthen (requireAdapter runtimes) (\<lambda>adapter.
     if OpKind op = KindRuntimeStart
     then andthen (appendLog (ID op) ''info'' PhasePrepare) (\<lambda>_.
          andthen (call (RtPrepare adapter spec slot)) (\<lambda>_.
          andthen (recordRuntimeDecision runtimes op app spec slot) (\<lambda>_.
          andthen (call (RtStart adapter spec slot)) (\<lambda>_.
          appendLog (ID op) ''info'' PhaseExecute))))
     else if OpKind op = KindRuntimeStop
     then andthen (call (RtStop adapter spec slot)) (\<lambda>_. appendLog (ID op) ''info'' PhaseExecute)
     else raise (Fault CodeInvalidRequest))))))"

definition finishRuntimeFailure :: "'h Pool \<Rightarrow> Operation \<Rightarrow> fault \<Rightarrow> ('h, unit) act" where
  "finishRuntimeFailure p op err =
     andthen (appendLog (ID op) ''error'' PhaseExecute) (\<lambda>_.
     pool_finish p op (fst (by_cause err)) None (Some (snd (by_cause err))))"

definition executeRuntime :: "'h Pool \<Rightarrow> Operation \<Rightarrow> ('h, unit) act" where
  "executeRuntime p op =
     attempt (runtime_work p op) (finishRuntimeFailure p op) (\<lambda>_.
     andthen (appendLog (ID op) ''info'' PhaseFinalize) (\<lambda>_.
     pool_finish p op StatusSucceeded None None))"

section \<open>Backups\<close>

definition backup_work :: "'h Pool \<Rightarrow> 'h BackupService \<Rightarrow> Operation \<Rightarrow> ('h, unit) act" where
  "backup_work p service op =
     (if OpKind op = KindBackupRun
      then andthen (Backups_GetPolicy (Resource op)) (\<lambda>policy.
           andthen (draw (plNewID p)) (\<lambda>i.
           ExecuteRun service i policy (ID op)))
      else if OpKind op = KindBackupVerify then ExecuteVerify service (ID op) (Resource op)
      else if OpKind op = KindBackupRestore
      then andthen (needs (DecodeRestoreOptions (command_codec (plCodec p)) (Spec op))) (\<lambda>options.
           ExecuteRestore service (ID op) (Resource op) (RestMode options))
      else raise (Fault CodeInvalidRequest))"

definition executeBackup :: "'h Pool \<Rightarrow> Operation \<Rightarrow> ('h, unit) act" where
  "executeBackup p op =
     (case plBackups p of
        None \<Rightarrow> pool_finish p op StatusFailed None (Some CodeConfigInvalid)
      | Some service \<Rightarrow>
          if \<not> Backups_Configured service then pool_finish p op StatusFailed None (Some CodeConfigInvalid)
          else attempt (backup_work p service op)
            (\<lambda>err. andthen (appendLog (ID op) ''error'' PhaseExecute) (\<lambda>_.
                   pool_finish p op (fst (by_cause err)) None (Some (snd (by_cause err)))))
            (\<lambda>_. andthen (appendLog (ID op) ''info'' PhaseFinalize) (\<lambda>_.
                 pool_finish p op StatusSucceeded None None)))"

section \<open>Deployments\<close>

definition decodeReleaseID :: "OpCodec \<Rightarrow> string \<Rightarrow> ErrorCode + string" where
  "decodeReleaseID cd raw =
     (if raw = [] then Inl CodeInvalidRequest
      else case decode_release cd raw of
        None \<Rightarrow> Inl CodeInvalidRequest
      | Some i \<Rightarrow> if i = [] then Inl CodeInvalidRequest else Inr i)"

definition executeDeploy :: "'h Pool \<Rightarrow> Operation \<Rightarrow> ('h, unit) act" where
  "executeDeploy p op =
     (case plDeploys p of
        None \<Rightarrow> pool_finish p op StatusFailed None (Some CodeRuntimeUnsupport)
      | Some deploys \<Rightarrow>
     (case configured deploys of
        None \<Rightarrow> pool_finish p op StatusFailed None (Some CodeRuntimeUnsupport)
      | Some adapters \<Rightarrow>
     (case decodeReleaseID (plCodec p) (Spec op) of
        Inl code \<Rightarrow> pool_finish p op StatusFailed None (Some code)
      | Inr releaseID \<Rightarrow>
          attempt
            (if OpKind op = KindAppRollback then ExecuteRollback deploys adapters releaseID (ID op)
             else ExecuteDeploy deploys adapters releaseID (ID op))
            (\<lambda>err. andthen (appendLog (ID op) ''error'' PhaseFinalize) (\<lambda>_.
                   pool_finish p op (fst (by_code err)) None (Some (snd (by_code err)))))
            (\<lambda>_. pool_finish p op StatusSucceeded None None))))"

section \<open>One operation\<close>

definition execute :: "'h Pool \<Rightarrow> Operation \<Rightarrow> ('h, unit) act" where
  "execute p op =
     (if isRuntimeKind (OpKind op) then executeRuntime p op
      else if isBackupKind (OpKind op) then executeBackup p op
      else if isDeployKind (OpKind op) then executeDeploy p op
      else executeCommand p op)"

definition ProcessNext :: "'h Pool \<Rightarrow> ('h, bool) act" where
  "ProcessNext p =
     andthen now_io (\<lambda>now.
     andthen (ops_ctx (\<lambda>db. ClaimNextPending db now)) (\<lambda>claimed.
     case claimed of
       None \<Rightarrow> give False
     | Some op \<Rightarrow> andthen (execute p op) (\<lambda>_. give True)))"

section \<open>Recovery\<close>

text \<open>Each operation that is retried gets an identifier and a jitter of its own.\<close>

definition Recover :: "(Operation \<Rightarrow> string) \<Rightarrow> (Operation \<Rightarrow> rat) \<Rightarrow> time \<Rightarrow> ('h, nat) act" where
  "Recover newID jitter now =
     andthen (ops_ctx (\<lambda>db. RecoverRunning db now (\<lambda>op. planRetryFor op CodeDaemonRestarted now (newID op) (jitter op)))) (\<lambda>recovered.
     andthen (bks_run (\<lambda>(od, bd). (Inr (), od, snd (FailStaleBackups bd now)))) (\<lambda>_.
     give (length recovered)))"

end
