(* ===== verification/WorkerFrame.thy ===== *)
theory WorkerFrame
  imports Worker OpSteps DeployInv
begin

text \<open>
  While an operation is carried out, the rows of the operations and the locks stay as they are: whatever the
  adapters do and whichever calls fail, only log lines and audit events are added until the result is written.
\<close>

definition untouched :: "OpDb \<Rightarrow> 'h World \<Rightarrow> bool" where
  "untouched od w \<longleftrightarrow> operations (ops w) = operations od \<and> resource_locks (ops w) = resource_locks od
     \<and> LogOperationID ` set (operation_logs (ops w)) \<subseteq> ID ` set (operations od)"

section \<open>Primitives\<close>

lemma stable_option: "stable P m \<Longrightarrow> (\<And>x. stable P (k x)) \<Longrightarrow> stable P (case y of None \<Rightarrow> m | Some x \<Rightarrow> k x)"
  by (cases y) simp_all

lemma stable_pair: "(\<And>a b. stable P (k a b)) \<Longrightarrow> stable P (case p of (a, b) \<Rightarrow> k a b)"
  by (cases p) simp

lemma stable_some_pair:
  "stable P m \<Longrightarrow> (\<And>a b. stable P (k a b)) \<Longrightarrow> stable P (case y of None \<Rightarrow> m | Some (a, b) \<Rightarrow> k a b)"
  by (cases y) auto

lemma stable_sum: "(\<And>e. stable P (h e)) \<Longrightarrow> (\<And>x. stable P (k x)) \<Longrightarrow> stable P (case y of Inl e \<Rightarrow> h e | Inr x \<Rightarrow> k x)"
  by (cases y) simp_all

lemma untouched_sleep: "stable (untouched od) (sleep d)"
  by (auto simp: stable_def sleep_def Let_def untouched_def split: option.split)

lemma untouched_adapters: "stable (untouched od) (call m)" "stable (untouched od) (call_detached m)" "stable (untouched od) now_io"
  by (auto simp: stable_def call_def call_detached_def now_io_def Let_def untouched_def split: prod.split)

lemma untouched_catalogue:
  "stable (untouched od) (cat_do f)" "stable (untouched od) (cat_try g)" "stable (untouched od) (cat_run k)"
  by (auto simp: stable_def cat_do_def cat_try_def cat_run_def with_ctx_def update_io_def untouched_def
      split: prod.split option.split sum.split)

lemma untouched_needs: "stable (untouched od) (needs x)" "stable (untouched od) (need_store s)" "stable (untouched od) (draw f)"
  by (simp_all add: needs_def need_store_def draw_def stable_basic)

lemma untouched_log: "stable (untouched od) (ops_try (\<lambda>db. AppendLog db e))" "stable (untouched od) (ops_try (\<lambda>db. AppendAudit db a))"
  by (auto simp: stable_def ops_try_def untouched_def AppendLog_def AppendAudit_def insertLog_Inr insertAudit_Inr
      split: sum.split dest: insertLog_Inr(5))

lemma untouched_bks_run:
  assumes "\<And>od bd r od' bd'. f (od, bd) = (r, od', bd') \<Longrightarrow>
      operations od' = operations od \<and> resource_locks od' = resource_locks od \<and> operation_logs od' = operation_logs od"
  shows "stable (untouched d) (bks_run f)"
  using assms by (fastforce simp: stable_def bks_run_def with_ctx_def untouched_def split: prod.split sum.split)

lemmas untouched_rules = stable_world untouched_sleep untouched_adapters untouched_catalogue untouched_needs untouched_log
  stable_option stable_pair stable_some_pair stable_sum

lemma untouched_logs: "stable (untouched od) (appendLog op level phase)" "stable (untouched od) (pool_log red op level phase kvs)"
  unfolding appendLog_def pool_log_def by (intro untouched_rules)+

lemma untouched_CreateBackup:
  "stable (untouched od) (bks_run (\<lambda>(od, bd). case CreateBackup od bd b of Inl e \<Rightarrow> (Inl e, od, bd) | Inr bd' \<Rightarrow> (Inr (), od, bd')))"
  by (rule untouched_bks_run) (auto split: sum.splits)

lemma untouched_FinishBackup: "stable (untouched od) (bks_run (\<lambda>dbs. FinishBackup dbs inp now))"
  by (rule untouched_bks_run) (auto simp: FinishBackup_def Let_def insertAudit_Inr split: if_splits sum.splits option.splits)

lemma untouched_verified: "stable (untouched od) (bks_run (\<lambda>(od, bd). (Inr (), od, f bd)))"
  by (rule untouched_bks_run) auto

section \<open>Backups\<close>

lemma untouched_deferring: "stable P c \<Longrightarrow> stable P m \<Longrightarrow> stable P (deferring c m)"
  unfolding deferring_def by (intro stable_rules)

lemma untouched_cleanup: "stable (untouched od) (cleanupAdapter a p op)"
  unfolding cleanupAdapter_def by (intro untouched_rules)

lemma untouched_resolveKey: "stable (untouched od) (resolveKey s p)"
  unfolding resolveKey_def Let_def by (intro untouched_rules)

lemma untouched_produce: "stable (untouched od) (produce s a p key)"
  unfolding produce_def Let_def by (intro untouched_rules)

lemma untouched_streamBackup: "stable (untouched od) (streamBackup s store a p key)"
  unfolding streamBackup_def by (intro untouched_rules untouched_produce)

lemma untouched_finishBackup: "stable (untouched od) (finishBackup inp)"
  unfolding finishBackup_def by (intro untouched_rules untouched_FinishBackup)

lemma untouched_ExecuteRun: "stable (untouched od) (ExecuteRun s i p op)"
  unfolding ExecuteRun_def run_opening_def run_closing_def
  by (intro untouched_rules untouched_deferring untouched_cleanup untouched_logs untouched_resolveKey untouched_streamBackup
      untouched_CreateBackup untouched_finishBackup)

lemma untouched_openBackup: "stable (untouched od) (openBackup s i)"
  unfolding openBackup_def by (intro untouched_rules untouched_resolveKey)

lemma untouched_ExecuteVerify: "stable (untouched od) (ExecuteVerify s op i)"
  unfolding ExecuteVerify_def verifyStream_def mark_verified_def
  by (intro untouched_rules untouched_deferring untouched_cleanup untouched_logs untouched_openBackup untouched_verified)

lemma untouched_ExecuteRestore: "stable (untouched od) (ExecuteRestore s op i m)"
  unfolding ExecuteRestore_def
  by (intro untouched_rules untouched_deferring untouched_cleanup untouched_logs untouched_openBackup)

section \<open>Deployments\<close>

lemma ops_waiting: "now_io w = (r, w') \<Longrightarrow> ops w' = ops w" "sleep d w = (q, w') \<Longrightarrow> ops w' = ops w"
  by (auto simp: now_io_def sleep_def Let_def split: option.splits if_splits)

lemma ops_ready_loop [simp]: "ops (snd (ready_loop rt spec slot deadline w)) = ops w"
proof (induction rt spec slot deadline w rule: ready_loop.induct)
  case (1 rt spec slot deadline w)
  then show ?case
    by (subst ready_loop.simps)
      (auto simp: call_fields(2) ops_waiting split: prod.splits sum.splits bool.splits)
qed

lemma ops_observe_loop [simp]: "ops (snd (observe_loop rt spec slot deadline n w)) = ops w"
proof (induction rt spec slot deadline n w rule: observe_loop.induct)
  case (1 rt spec slot deadline n w)
  then show ?case
    by (subst observe_loop.simps)
      (auto simp: call_fields(2) ops_waiting split: prod.splits sum.splits bool.splits)
qed

lemma untouched_loops:
  "stable (untouched od) (ready_loop rt spec slot deadline)"
  "stable (untouched od) (\<lambda>w. case observe_loop rt spec slot deadline n w of (r, w') \<Rightarrow> (Inr r, w'))"
  by (simp_all add: stable_def untouched_def split_beta)

lemma untouched_waitForReady: "stable (untouched od) (waitForReady ad spec slot op)"
  unfolding waitForReady_def Let_def by (intro untouched_rules untouched_logs untouched_loops)

lemma untouched_materialize: "stable (untouched od) (materializeIfMissing ad spec i art op)"
  unfolding materializeIfMissing_def Download_def Verify_def requireStore_def
  by (intro untouched_rules untouched_logs)

lemma untouched_failed:
  "stable (untouched od) (remove_failed ad spec i)" "stable (untouched od) (mark_failed s i cause)"
  unfolding remove_failed_def mark_failed_def by (intro untouched_rules)+

lemma untouched_prune: "stable (untouched od) (pruneReleases ad spec op)"
proof -
  have "stable (untouched od) (prune_loop ad spec ids)" for ids
    by (induction ids) (auto intro!: untouched_rules)
  then show ?thesis unfolding pruneReleases_def Let_def by (intro untouched_rules untouched_logs)
qed

lemma untouched_undoing:
  "stable (untouched od) (teardown ad spec slot op)" "stable (untouched od) (restorePrevious ad spec prev prevSpec op)"
  unfolding teardown_def restorePrevious_def by (intro untouched_rules untouched_logs)+

lemma untouched_fail_single: "stable (untouched od) (fail_single s ad i spec previous op pr cause)"
  unfolding fail_single_def Let_def teardownFirstDeploy_def
  by (intro untouched_rules untouched_logs untouched_undoing untouched_failed)

lemma untouched_slot_event: "stable (untouched od) (appendSlotEvent app slot kd detail release op)"
  unfolding appendSlotEvent_def by (intro untouched_rules)

lemma untouched_switchTraffic: "stable (untouched od) (switchTraffic s ad nx app prevSpec sl prev op)"
  unfolding switchTraffic_def by (intro untouched_rules untouched_logs untouched_waitForReady untouched_slot_event)

lemma untouched_fail_slot: "stable (untouched od) (fail_slot s ad nx run pr cause)"
  unfolding fail_slot_def undo_slot_def teardownSlot_def record_failure_def
  by (intro untouched_rules untouched_logs untouched_switchTraffic untouched_undoing untouched_slot_event untouched_failed)

lemma untouched_observeSlot: "stable (untouched od) (observeSlot ad spec slot op)"
  unfolding observeSlot_def Let_def by (intro untouched_rules untouched_logs untouched_loops)

lemma untouched_drain: "stable (untouched od) (drainAndStop s ad prevSpec sl prev app op)"
  unfolding drainAndStop_def Let_def by (intro untouched_rules untouched_logs untouched_slot_event)

lemma untouched_previous: "stable (untouched od) (previous_of app)"
  unfolding previous_of_def by (intro untouched_rules)

lemma untouched_apply_single: "stable (untouched od) (apply_single s ad release spec previous op)"
  unfolding apply_single_def Let_def
  by (intro untouched_rules untouched_logs untouched_fail_single untouched_materialize untouched_waitForReady untouched_prune)

lemma untouched_run_slot: "stable (untouched od) (run_slot s ad nx run)"
  unfolding run_slot_def promote_slot_def Let_def
  by (intro untouched_rules untouched_logs untouched_fail_slot untouched_materialize untouched_waitForReady untouched_slot_event
      untouched_observeSlot untouched_drain untouched_prune)

lemma untouched_applySlot: "stable (untouched od) (applySlot s ad release spec op)"
  unfolding applySlot_def Let_def targetSlotFor_def
  by (intro untouched_rules untouched_logs untouched_previous untouched_run_slot)

lemma untouched_Deploy_apply: "stable (untouched od) (Deploy_apply s ad i op)"
  unfolding Deploy_apply_def validated_def
  by (intro untouched_rules untouched_logs untouched_previous untouched_applySlot untouched_apply_single)

section \<open>Work\<close>

lemma untouched_runtime_work: "stable (untouched od) (runtime_work p op)"
  unfolding runtime_work_def Runtime_Resolve_def check_slot_def requireAdapter_def recordRuntimeDecision_def runtime_decision_def
  by (intro untouched_rules untouched_logs)

lemma untouched_backup_work: "stable (untouched od) (backup_work p s op)"
  unfolding backup_work_def Backups_GetPolicy_def
  by (intro untouched_rules untouched_ExecuteRun untouched_ExecuteVerify untouched_ExecuteRestore)

lemma untouched_resolveSecrets: "stable (untouched od) (resolveSecrets p spec)"
proof -
  have "stable (untouched od) (resolve_loop r refs env vs)" for r refs env vs
    by (induction r refs env vs rule: resolve_loop.induct) (auto intro!: untouched_rules)
  then show ?thesis unfolding resolveSecrets_def by (intro untouched_rules)
qed

lemma untouched_command:
  "stable (untouched od) (log_start p red op spec)" "stable (untouched od) (run_command exec spec)"
  "stable (untouched od) (log_output red op status result)" "stable (untouched od) (log_summary op result status ec code)"
  unfolding log_start_def run_command_def log_output_def log_summary_def by (intro untouched_rules untouched_logs)+

end
