(* ===== verification/WorkerProps.thy ===== *)
theory WorkerProps
  imports WorkerFrame OpMachine
begin

text \<open>
  Every operation a worker claims ends: its row is finished with a terminal status, its lock is free again, and
  at most one retry is waiting. And the values of secrets stay out of what a command writes to its log.
\<close>

section \<open>Steps that cannot fail\<close>

definition sure :: "('h World \<Rightarrow> bool) \<Rightarrow> ('h, 'a) act \<Rightarrow> bool" where
  "sure P m \<longleftrightarrow> contract P m (\<lambda>_. P) (\<lambda>_ _. False)"

lemma sure_andthen: "sure P m \<Longrightarrow> (\<And>x. sure P (k x)) \<Longrightarrow> sure P (andthen m k)"
  unfolding sure_def by (rule contract_andthen)

lemma sure_attempt: "stable P m \<Longrightarrow> (\<And>e. sure P (h e)) \<Longrightarrow> (\<And>x. sure P (k x)) \<Longrightarrow> sure P (attempt m h k)"
  unfolding sure_def stable_contract by (rule contract_attempt)

lemma sure_ignoring: "stable P m \<Longrightarrow> sure P (ignoring m)"
  unfolding sure_def stable_contract by (rule contract_ignoring)

lemma sure_give: "sure P (give x)"
  by (simp add: sure_def contract_give)

lemma sure_if: "(b \<Longrightarrow> sure P m) \<Longrightarrow> (\<not> b \<Longrightarrow> sure P n) \<Longrightarrow> sure P (if b then m else n)"
  by simp

lemma sure_pair: "(\<And>a b. sure P (k a b)) \<Longrightarrow> sure P (case p of (a, b) \<Rightarrow> k a b)"
  by (cases p) simp

lemma sure_option: "sure P m \<Longrightarrow> (\<And>x. sure P (k x)) \<Longrightarrow> sure P (case y of None \<Rightarrow> m | Some x \<Rightarrow> k x)"
  by (cases y) simp_all

lemma sure_now: "sure (untouched od) now_io"
  by (auto simp: sure_def contract_def now_io_def Let_def untouched_def)

lemma sure_draw: "sure P (draw f)"
  by (simp add: sure_def contract_def draw_def ask_def)

lemmas sure_rules = sure_give sure_andthen sure_if sure_pair sure_option sure_now sure_draw

lemma sure_logs: "sure (untouched od) (appendLog op level phase)" "sure (untouched od) (pool_log red op level phase kvs)"
  unfolding appendLog_def pool_log_def by (intro sure_rules sure_ignoring untouched_log)+

lemma sure_resolveSecrets: "sure (untouched od) (resolveSecrets p spec)"
proof -
  have "sure (untouched od) (resolve_loop r refs env vs)" for r refs env vs
    by (induction r refs env vs rule: resolve_loop.induct) (auto intro!: sure_rules sure_attempt untouched_adapters)
  then show ?thesis unfolding resolveSecrets_def by (intro sure_rules)
qed

lemma sure_command:
  "sure (untouched od) (log_start p red op spec)" "sure (untouched od) (run_command exec spec)"
  "sure (untouched od) (log_output red op status result)" "sure (untouched od) (log_summary op result status ec code)"
proof -
  show "sure (untouched od) (run_command exec spec)"
    by (auto simp: sure_def contract_def run_command_def call_def untouched_def split: prod.split)
qed (unfold log_start_def log_output_def log_summary_def, (intro sure_rules sure_logs)+)

section \<open>The end of an operation\<close>

definition settled :: "OpDb \<Rightarrow> Operation \<Rightarrow> 'h World \<Rightarrow> bool" where
  "settled od r w \<longleftrightarrow>
     op_inv (ops w) \<and> active_pairs (ops w) = active_pairs od - {(Resource r, ID r)}
     \<and> (\<exists>inp t retries. operations (ops w) = map (\<lambda>x. if x = r then finished inp t x else x) (operations od) @ retries
          \<and> Status_Terminal (FinStatus inp)
          \<and> (retries = [] \<or> FinStatus inp = StatusFailed
               \<and> (\<exists>q. retries = [q] \<and> RetryOf q = ID r \<and> OpStatus q = StatusPending \<and> Resource q = Resource r)))"

lemma untouched_inv: "op_inv od \<Longrightarrow> untouched od w \<Longrightarrow> op_inv (ops w)"
  unfolding untouched_def by (elim conjE, rule inv_cong)

lemma retry_row: "retry_rows r (Some plan) t = [stored (retry_operation r plan t)]"
  by (simp add: retry_rows_def)

lemma ignoring_ops_run: "ignoring (ops_run f) w = (Inr (), w\<lparr>ops := snd (f (ops w))\<rparr>)"
  by (simp add: ignoring_def attempt_def ops_run_def give_def split: prod.split sum.split)

lemma finish_settles:
  assumes "op_inv od" and "r \<in> set (operations od)" and "OpStatus r = StatusRunning" and "ID op = ID r"
    and "\<And>n. plNewID p n \<notin> ID ` set (operations od)" and "status \<in> {StatusSucceeded, StatusFailed, StatusCancelled}"
  shows "contract (untouched od) (pool_finish p op status ec code) (\<lambda>_. settled od r) (\<lambda>_ _. False)"
proof -
  let ?new = "\<lambda>plan. plan = None \<or> status = StatusFailed \<and> (\<exists>pl. plan = Some pl \<and> PlanOperationID pl \<notin> ID ` set (operations od))"
  have plan: "contract (untouched od) (planRetry p op status code) (\<lambda>plan w. untouched od w \<and> ?new plan) (\<lambda>_ _. False)"
    using assms(5)
    by (auto simp: contract_def planRetry_def draw_def andthen_def attempt_def ask_def now_io_def Let_def give_def
        untouched_def planRetryFor_def split: option.split)
  have step: "contract (\<lambda>w. untouched od w \<and> ?new plan) (ignoring (ops_run (\<lambda>db. Finish db
       \<lparr>FinOperationID = ID op, FinStatus = status, FinExitCode = ec, FinErrorCode = code, FinErrorMessage = [], FinRetry = plan\<rparr> now)))
      (\<lambda>_. settled od r) (\<lambda>_ _. False)" for plan now
  proof -
    let ?inp = "\<lparr>FinOperationID = ID op, FinStatus = status, FinExitCode = ec, FinErrorCode = code, FinErrorMessage = [], FinRetry = plan\<rparr>"
    have settles: "settled od r (w\<lparr>ops := snd (Finish (ops w) ?inp now)\<rparr>)"
      if w: "untouched od w" and new: "?new plan" for w
    proof -
      have inv: "op_inv (ops w)" by (rule untouched_inv [OF assms(1) w])
      have r: "r \<in> set (operations (ops w))" using w assms(2) by (simp add: untouched_def)
      have fin: "FinOperationID ?inp = ID r" "Status_Terminal (FinStatus ?inp)" using assms(4,6) by auto
      note eq = Finish_running_eq [OF inv r assms(3) fin, of now]
      show ?thesis
      proof (rule terminate_chain_cases [OF inv r assms(3), of "finished ?inp now" "finish_event ?inp r now" "finish_log ?inp r now" "FinRetry ?inp" now])
        fix c pl assume "FinRetry ?inp = Some pl" "PlanOperationID pl \<in> ID ` set (operations (ops w))"
        then show ?thesis using new w by (auto simp: untouched_def)
      next
        fix db' assume ended: "terminate_chain (ops w) r (finished ?inp now) (finish_event ?inp r now) (finish_log ?inp r now) (FinRetry ?inp) now = Inr db'"
          "op_inv db'" "operations db' = map (\<lambda>x. if x = r then finished ?inp now x else x) (operations (ops w)) @ retry_rows r (FinRetry ?inp) now"
          "active_pairs db' = active_pairs (ops w) - {(Resource r, ID r)}"
        have "retry_rows r plan now = [] \<or> status = StatusFailed
            \<and> (\<exists>q. retry_rows r plan now = [q] \<and> RetryOf q = ID r \<and> OpStatus q = StatusPending \<and> Resource q = Resource r)"
          using new by (cases plan) (auto simp: retry_rows_def retry_operation_def)
        moreover have "active_pairs (ops w) = active_pairs od" using w by (simp add: untouched_def active_pairs_def)
        moreover have "operations db' = map (\<lambda>x. if x = r then finished ?inp now x else x) (operations od) @ retry_rows r plan now"
          using ended(3) w by (simp add: untouched_def)
        ultimately have "settled od r (w\<lparr>ops := db'\<rparr>)"
          unfolding settled_def using ended(2,4) fin(2)
          by (intro conjI exI [of _ ?inp] exI [of _ now] exI [of _ "retry_rows r plan now"]) simp_all
        then show ?thesis using eq ended(1) by simp
      qed (use fin(2) in \<open>simp_all add: finished_def finish_event_def finish_log_def identity_of_def\<close>)
    qed
    show ?thesis by (simp add: contract_def ignoring_ops_run settles)
  qed
  have now: "contract (\<lambda>w. untouched od w \<and> ?new plan) now_io (\<lambda>_ w. untouched od w \<and> ?new plan) (\<lambda>_ _. False)" for plan
    by (auto simp: contract_def now_io_def Let_def untouched_def)
  show ?thesis unfolding pool_finish_def
    by (rule contract_andthen [OF plan], rule contract_andthen [OF now], rule step)
qed

section \<open>Every way an operation is carried out\<close>

lemma contract_sure: "sure P m \<Longrightarrow> (\<And>x. contract P (k x) Q E) \<Longrightarrow> contract P (andthen m k) Q E"
  unfolding sure_def by (rule contract_andthen [where R = "\<lambda>_. P"], rule contract_conseq [of P m "\<lambda>_. P" "\<lambda>_ _. False"]) simp_all

lemma contract_stable: "stable P m \<Longrightarrow> (\<And>e. contract P (h e) Q E) \<Longrightarrow> (\<And>x. contract P (k x) Q E) \<Longrightarrow> contract P (attempt m h k) Q E"
  unfolding stable_contract by (rule contract_attempt)

lemma execute_settles:
  assumes "op_inv od" and "r \<in> set (operations od)" and "OpStatus r = StatusRunning" and "ID op = ID r"
    and "\<And>n. plNewID p n \<notin> ID ` set (operations od)"
  shows "contract (untouched od) (execute p op) (\<lambda>_. settled od r) (\<lambda>_ _. False)"
proof -
  let ?ends = "\<lambda>m. contract (untouched od) m (\<lambda>_. settled od r) (\<lambda>_ _. False)"
  have fin: "?ends (pool_finish p op status ec code)" if "status \<in> {StatusSucceeded, StatusFailed, StatusCancelled}" for status ec code
    using finish_settles [where p = p and op = op and status = status] assms that by blast
  have err: "?ends (pool_finish p op (fst (by_code e)) ec code)" "?ends (pool_finish p op (fst (by_cause e)) ec code)" for e ec code
    by (intro fin, simp add: by_code_def by_cause_def)+
  have "?ends (executeRuntime p op)"
    unfolding executeRuntime_def finishRuntimeFailure_def
    by (intro contract_stable contract_sure untouched_runtime_work sure_logs err fin) simp
  moreover have "?ends (executeBackup p op)"
    unfolding executeBackup_def
    by (cases "plBackups p") (auto intro!: contract_if contract_stable contract_sure untouched_backup_work sure_logs err fin)
  moreover have "?ends (executeDeploy p op)"
    unfolding executeDeploy_def ExecuteDeploy_def ExecuteRollback_def
    by (auto split: option.split sum.split intro!: contract_stable contract_sure untouched_Deploy_apply sure_logs err fin stable_if)
  moreover have "?ends (executeCommand p op)"
  proof -
    have reject: "?ends (reject_command p red op code)" for red code
      unfolding reject_command_def by (intro contract_sure sure_logs fin) simp
    have run: "fst (run_status e) \<in> {StatusSucceeded, StatusFailed, StatusCancelled}" for e
      by (simp add: run_status_def by_code_def split: option.split)
    have "?ends (carry_out p op resolved)" for resolved
      unfolding carry_out_def Let_def
      by (cases resolved rule: prod_cases3)
        (auto split: option.split intro!: reject contract_sure sure_command fin run simp del: insert_iff)
    then show ?thesis unfolding executeCommand_def
      by (cases "BuildCommandSpec (command_codec (plCodec p)) (OpKind op) (Spec op)")
        (auto intro: reject contract_sure sure_resolveSecrets)
  qed
  ultimately show ?thesis unfolding execute_def by (intro contract_if)
qed

lemma started_row:
  assumes "op_inv db" and "op \<in> set (operations db)" and "r \<in> set (operations db)" and "r = started t op"
  shows "r = op"
  using op_unique [OF assms(1,3,2)] assms(4) by (simp add: started_def)


end
