(* ===== verification/ServiceProps.thy ===== *)
theory ServiceProps
  imports Service OpSteps CatInv
begin

text \<open>
  What the operation service promises about its callers, and the two ways round it: retrying, which asks nobody,
  and cancelling an operation a worker has only just claimed.
\<close>

section \<open>What a request leaves alone\<close>

lemma stable_cat:
  "stable (\<lambda>w. cat w = c) (call m)" "stable (\<lambda>w. cat w = c) now_io"
  by (simp_all add: stable_call stable_now)

lemma stable_needs: "stable P (needs x)"
  by (simp add: needs_def stable_basic)

lemma needs_Inr: "needs x w = (Inr y, w') \<longleftrightarrow> x = Inr y \<and> w' = w"
  by (auto simp: needs_def)

lemma authorize_cat: "authorizeResource caller resource w = (Inr u, w') \<Longrightarrow> w' = w"
  by (auto simp: authorizeResource_def attempt_def cat_get_def with_ctx_def ask_code_def guard_io_def give_def raise_def
      split: option.splits if_splits sum.splits)

lemma then_Inr:
  "andthen (guard_io b e) k w = (Inr y, w') \<longleftrightarrow> b \<and> k () w = (Inr y, w')"
  "andthen (needs x) l w = (Inr y, w') \<longleftrightarrow> (\<exists>z. x = Inr z \<and> l z w = (Inr y, w'))"
  by (auto simp: andthen_Inr needs_Inr)

lemma authorize_then:
  "andthen (authorizeResource caller resource) k w = (Inr y, w') \<longleftrightarrow>
     authorizeResource caller resource w = (Inr (), w) \<and> k () w = (Inr y, w')"
  using authorize_cat by (auto simp: andthen_Inr)

lemma cat_get_Inr: "cat_get f w = (Inr x, w') \<longleftrightarrow> \<not> ctx_done w \<and> f (cat w) = Inr x \<and> w' = w"
  by (auto simp: cat_get_def with_ctx_Inr)

lemma bks_get_Inr: "bks_get f w = (Inr x, w') \<longleftrightarrow> \<not> ctx_done w \<and> f (bks w) = Inr x \<and> w' = w"
  by (auto simp: bks_get_def with_ctx_Inr)

lemma authorize_Inr:
  assumes "authorizeResource (Some p) resource w = (Inr u, w')" "Applications p \<noteq> []"
  shows "w' = w" "GetApplication (cat w) resource = Inr app \<Longrightarrow> AllowsApplication p (AppName app)"
proof -
  have "w' = w \<and> (\<forall>app. GetApplication (cat w) resource = Inr app \<longrightarrow> AllowsApplication p (AppName app))"
    using assms by (auto simp: authorizeResource_def attempt_def cat_get_def with_ctx_def ask_code_def guard_io_def give_def raise_def
        split: if_splits sum.splits)
  then show "w' = w" "GetApplication (cat w) resource = Inr app \<Longrightarrow> AllowsApplication p (AppName app)" by blast+
qed

section \<open>Operations on applications\<close>

definition on_application :: "Kind \<Rightarrow> bool" where
  "on_application k \<longleftrightarrow> isRuntimeKind k \<or> isDeployKind k"

lemma resolve_application:
  assumes "on_application (RqKind req)" "resolve_request s req w = (Inr target, w')"
  obtains app where "GetApplication (cat w) (RqResource req) = Inr app" "fst target = AppID app"
proof -
  have "\<exists>app. GetApplication (cat w) (RqResource req) = Inr app \<and> fst target = AppID app"
  proof (cases "isRuntimeKind (RqKind req)")
    case True
    then show ?thesis using assms(2)
      by (auto simp: resolve_request_def runtime_request_def andthen_Inr needs_Inr ResolveRuntimeOperation_def
          Runtime_Validate_def Runtime_Resolve_def cat_get_Inr)
  next
    case False
    then have "isDeployKind (RqKind req)" "\<not> isBackupKind (RqKind req)"
      using assms(1) by (auto simp: on_application_def isDeployKind_def isBackupKind_def)
    then show ?thesis using False assms(2)
      by (auto simp: resolve_request_def deploy_request_def andthen_Inr needs_Inr ResolveDeployOperation_def cat_get_Inr
          split: if_splits option.splits sum.splits)
  qed
  then show ?thesis using that by blast
qed

text \<open>The parts of a creation that succeeded.\<close>

lemma Service_Create_Inr:
  assumes "Service_Create s caller i req w = (Inr (op, created), w')"
  obtains w1 db target hash now retry where
    "\<not> (remote caller \<and> RqKind req = KindExecutorCommand)"
    "authorizeResource caller (RqResource req) w = (Inr (), w)" "resolve_request s req w = (Inr target, w1)"
    "CreateOperation db (requested i caller req target hash now retry) = (Inr (op, created), ops w')"
proof -
  from assms obtain w1 w2 target hash now retry where
    *: "\<not> (remote caller \<and> RqKind req = KindExecutorCommand)"
    "authorizeResource caller (RqResource req) w = (Inr (), w)" "resolve_request s req w = (Inr target, w1)"
    "ops_ctx (\<lambda>db. CreateOperation db (requested i caller req target hash now retry)) w2 = (Inr (op, created), w')"
    unfolding Service_Create_def then_Inr authorize_then
    unfolding andthen_Inr by blast
  have "CreateOperation (ops w2) (requested i caller req target hash now retry) = (Inr (op, created), ops w')"
    using *(4) by (auto simp: ops_ctx_def with_ctx_Inr ops_run_def split: prod.splits sum.splits)
  then show ?thesis by (rule that [OF *(1-3)])
qed

lemma CreateOperation_created: "CreateOperation db op = (Inr (op', True), db') \<Longrightarrow> op' = op"
  by (auto simp: CreateOperation_def split: option.splits if_splits sum.splits)


text \<open>A caller limited to one application stops it.\<close>

definition svc_codec :: OpCodec where
  "svc_codec = \<lparr>command_codec = env_codec sample_env, decode_runtime = Some, encode_runtime = (\<lambda>t. t), decode_release = Some\<rparr>"

definition idle_runtime :: "unit RuntimeAdapter" where
  "idle_runtime =
     \<lparr>RtValidate = (\<lambda>sp dn. give ()), RtPrepare = (\<lambda>sp sl dn. give ()), RtStart = (\<lambda>sp sl dn. give ()),
      RtStop = (\<lambda>sp sl dn. give ()), RtHealth = (\<lambda>sp sl dn. give \<lparr>Ready = True, CheckedAt = 0, HealthDetail = []\<rparr>),
      RtStatus = (\<lambda>sp sl dn. give RuntimeActive)\<rparr>"

definition svc_demo :: "unit Service" where
  "svc_demo = \<lparr>svCodec = svc_codec, svAllow = None,
     svRuntime = Some \<lparr>rsAdapter = Some idle_runtime, rsReporter = None\<rparr>, svBackups = None, svDeploys = None\<rparr>"

definition svc_cat :: CatDb where
  "svc_cat = empty_cat\<lparr>applications := [sample_application], application_specs := [((AppID sample_application, None), sample_single)]\<rparr>"

definition svc_world :: "OpDb \<Rightarrow> unit World" where
  "svc_world od = \<lparr>ops = od, cat = svc_cat, bks = empty_backups, host = (), clock = 100, lag = (\<lambda>_. 1), reads = 0, cancel_at = None\<rparr>"

definition guest :: Principal where
  "guest = \<lparr>PrKind = PrincipalKindRemote, PrName = ''ci'', PrScope = ScopeWrite, Applications = [AppName sample_application]\<rparr>"

definition stop_request :: CreateOperationRequest where
  "stop_request = \<lparr>RqKind = KindRuntimeStop, RqResource = AppName sample_application, RqDryRun = False, RqSpec = [],
     RqIdempotencyKey = [], RqCreatedBy = ''root'', RqRetry = None\<rparr>"


section \<open>Ways round it\<close>

text \<open>A retry is a new operation, but it is not created for the caller who asks: whatever was run before, a command
  included, is run again on the say of anybody who may use the route, and recorded under the name of the one who
  asked first.\<close>

theorem retry_asks_nobody:
  assumes "GetOperation (ops w) ref = Inr original" and "CanRetry (OpStatus original)"
    and "requestHash (command_codec (svCodec s)) (OpKind original) (Resource original) (DryRun original)
           (RetryPolicyJSON original) (Spec original) = Inr hash"
    and "\<not> hasIncompleteOperation (ops w) (Resource original)" and "find_operation (ops w) i = None" and "cancel_at w = None"
  shows "\<exists>op w'. Service_Retry s i ref w = (Inr op, w') \<and> ID op = i \<and> OpKind op = OpKind original \<and> Spec op = Spec original
     \<and> OpStatus op = StatusPending \<and> CreatedBy op = CreatedBy original \<and> stored op \<in> set (operations (ops w'))"
proof -
  have live: "\<not> ctx_done (w\<lparr>clock := t, reads := n, ops := od\<rparr>)" "\<not> ctx_done w" for t n od using assms(6) by (simp_all add: ctx_done_def)
  have ref: "find_operation (ops w) ref = Some original" "ID original = ref" "original \<in> set (operations (ops w))"
    using assms(1) find_operation_Some by (auto simp: GetOperation_def loadOperation_def split: option.splits)
  obtain now w1 where now: "now_io w = (Inr now, w1)" "ops w1 = ops w" "cancel_at w1 = None"
    using assms(6) by (auto simp: now_io_def Let_def)
  let ?op = "retried i original hash now"
  let ?created = "\<lparr>EvType = EventOperationCreated, EvActor = CreatedBy ?op, EvOperationID = i, EvResource = Resource ?op,
      EvResult = status_name (OpStatus ?op), EvTime = CreatedAt ?op, EvDetails = []\<rparr>"
  let ?db = "(ops w)\<lparr>operations := operations (ops w) @ [stored ?op], audit_events := audit_events (ops w) @ [?created]\<rparr>"
  have here: "find_operation ?db i \<noteq> None" by (simp add: find_operation_None retried_def)
  have create: "CreateOperation (ops w) ?op = (Inr (?op, True), ?db)"
    using assms(4,5) ref(1,2) here
    by (simp add: CreateOperation_def retried_def insertOperation_def bind_res_def insertAudit_def find_operation_None)
  obtain t w2 where then_now: "now_io (w1\<lparr>ops := ?db\<rparr>) = (Inr t, w2)" "ops w2 = ?db" "cancel_at w2 = None"
    using now(3) by (auto simp: now_io_def Let_def)
  have audit: "\<exists>db'. AppendAudit ?db (retried_event original ?op t) = Inr db' \<and> operations db' = operations ?db"
    using here by (auto simp: AppendAudit_def insertAudit_def retried_event_def retried_def)
  then obtain db' where "AppendAudit ?db (retried_event original ?op t) = Inr db'" "operations db' = operations ?db" by blast
  then have "Service_Retry s i ref w = (Inr ?op, w2\<lparr>ops := db'\<rparr>)"
    using assms(1-3) live(2) now create then_now
    by (simp add: Service_Retry_def andthen_def attempt_def ops_get_def with_ctx_def ask_code_def guard_io_def needs_def
        ops_ctx_def ops_run_def ops_try_def ctx_done_def give_def)
  then show ?thesis using \<open>operations db' = operations ?db\<close>
    by (intro exI [of _ ?op] exI [of _ "w2\<lparr>ops := db'\<rparr>"]) (simp add: retried_def)
qed

definition failed_command :: Operation where
  "failed_command =
     (requested ''op0'' None stop_request (''web'', ''s'') ''h'' 1 (zero_policy, NoJSON))
       \<lparr>OpKind := KindExecutorCommand, OpStatus := StatusFailed, CreatedBy := ''root''\<rparr>"

theorem retry_asks_nobody_witness:
  "case Service_Retry svc_demo ''op1'' ''op0'' (svc_world (empty_db\<lparr>operations := [failed_command]\<rparr>)) of
     (Inr op, w) \<Rightarrow> OpKind op = KindExecutorCommand \<and> OpStatus op = StatusPending \<and> CreatedBy op = ''root'' | _ \<Rightarrow> False"
proof -
  let ?db = "empty_db\<lparr>operations := [failed_command]\<rparr>"
  have "GetOperation (ops (svc_world ?db)) ''op0'' = Inr failed_command" by code_simp
  moreover have "CanRetry (OpStatus failed_command)" by code_simp
  moreover have "requestHash (command_codec (svCodec svc_demo)) (OpKind failed_command) (Resource failed_command) (DryRun failed_command)
      (RetryPolicyJSON failed_command) (Spec failed_command) = Inr ''sha256:00''" by code_simp
  moreover have "\<not> hasIncompleteOperation (ops (svc_world ?db)) (Resource failed_command)" by code_simp
  moreover have "find_operation (ops (svc_world ?db)) ''op1'' = None" "cancel_at (svc_world ?db) = None" by code_simp+
  ultimately obtain op w' where "Service_Retry svc_demo ''op1'' ''op0'' (svc_world ?db) = (Inr op, w')"
    "OpKind op = OpKind failed_command" "OpStatus op = StatusPending" "CreatedBy op = CreatedBy failed_command"
    using retry_asks_nobody [of "svc_world ?db" "''op0''" failed_command svc_demo "''sha256:00''" "''op1''"] by blast
  moreover have "OpKind failed_command = KindExecutorCommand" "CreatedBy failed_command = ''root''" by (simp_all add: failed_command_def)
  ultimately show ?thesis by simp
qed

text \<open>Between the moment a worker has claimed an operation and the moment it has registered its context, cancelling
  reports the running operation and does nothing.\<close>

lemma cancel_before_registration:
  assumes "find_operation (ops w) i = Some op" and "OpStatus op = StatusRunning" and "i \<notin> set (registered reg)" and "cancel_at w = None"
  shows "\<exists>w'. Service_Cancel i reg w = (Inr (op, reg), w') \<and> ops w' = ops w"
proof -
  have "ID op = i" using find_operation_Some [OF assms(1)] by simp
  then show ?thesis using assms
    by (simp add: Service_Cancel_def andthen_def attempt_def now_io_def Let_def ops_ctx_def with_ctx_def ctx_done_def ops_run_def
        CancelPending_def loadOperation_def cancel_registered_def give_def)
qed

end
