(* ===== verification/WorkerChecks.thy ===== *)
theory WorkerChecks
  imports WorkerProps ServiceProps
begin

text \<open>
  What a command writes to its log: the values of its secrets, and of the variables marked as sensitive, are gone
  from the command line, the environment and the output. And an example of a command that fails.
\<close>

section \<open>Which values are redacted\<close>

definition covered :: "string set \<Rightarrow> (string \<times> string) list \<Rightarrow> string list \<Rightarrow> bool" where
  "covered names env vs \<longleftrightarrow> (\<forall>n \<in> names. \<forall>v. map_of env n = Some v \<longrightarrow> v \<in> set vs)"

lemma resolve_loop_covered:
  assumes "resolve_loop r refs env vs w = (Inr (env', vs', None), w')" and "covered names env vs"
  shows "covered (names \<union> fst ` set refs) env' vs'"
  using assms
proof (induction r refs env vs arbitrary: names w rule: resolve_loop.induct)
  case (2 r name ref refs env vs)
  from 2(2) obtain v w1 where "call (SrResolve r ref) w = (Inr v, w1)"
    and rest: "resolve_loop r refs (AList.update name v env) (vs @ [v]) w1 = (Inr (env', vs', None), w')"
    by (auto simp: attempt_def split: prod.splits sum.splits)
  have "covered (insert name names) (AList.update name v env) (vs @ [v])"
    using 2(3) by (auto simp: covered_def update_conv')
  from 2(1) [OF rest this] show ?case by (simp add: Un_commute insert_commute)
qed simp

lemma covered_more: "covered names env vs \<Longrightarrow> set vs \<subseteq> set vs' \<Longrightarrow> covered names env vs'"
  by (auto simp: covered_def)

lemma redactor_values:
  assumes "slice_sorter (plSort p)"
  shows "set (Values (redactorFor p spec vs)) = (set vs \<union>
     {v. \<exists>k \<in> set (plSensitive p @ SensitiveEnvKeys spec). map_of (Environment spec) k = Some v}) - {[]}"
  unfolding redactorFor_def slice_sorter.set_values [OF assms]
  by (auto split: option.splits)

text \<open>The variables whose values are secret: those with a reference, and those whose names are marked.\<close>

definition sensitive_names :: "'h Pool \<Rightarrow> CommandSpec \<Rightarrow> string set" where
  "sensitive_names p spec = fst ` set (SecretEnv spec) \<union> set (plSensitive p @ SensitiveEnvKeys spec)"

lemma resolved_values:
  assumes "slice_sorter (plSort p)" and "resolveSecrets p spec w = (Inr (spec', red, None), w')"
    and "n \<in> sensitive_names p spec" and "map_of (Environment spec') n = Some v" and "v \<noteq> []"
  obtains r where "red = Some r" "v \<in> set (Values r)"
proof (cases "SecretEnv spec = []")
  case True
  then have "red = Some (redactorFor p spec [])" "spec' = spec" using assms(2) by (auto simp: resolveSecrets_def)
  then show ?thesis using that assms(3-5) True by (auto simp: redactor_values [OF assms(1)] sensitive_names_def)
next
  case False
  then obtain res env vs where
    loop: "resolve_loop res (SecretEnv spec) (Environment spec) [] w = (Inr (env, vs, None), w')"
    and s: "spec' = spec\<lparr>Environment := env, SecretEnv := []\<rparr>" "red = Some (redactorFor p spec' vs)"
    using assms(2) by (auto simp: resolveSecrets_def andthen_Inr Let_def split: option.splits if_splits)
  have "covered ({} \<union> fst ` set (SecretEnv spec)) env vs"
    by (rule resolve_loop_covered [OF loop]) (simp add: covered_def)
  then have "v \<in> set (Values (redactorFor p spec' vs))"
    using assms(3-5) s(1) by (auto simp: redactor_values [OF assms(1)] sensitive_names_def covered_def)
  then show ?thesis using that s(2) by blast
qed

section \<open>Clean logs\<close>

definition log_keys :: "string set" where
  "log_keys = {''argv'', ''workingDirectory'', ''environment'', ''stdout'', ''stderr''}"

definition clean_entry :: "string \<Rightarrow> LogEntry \<Rightarrow> bool" where
  "clean_entry v e \<longleftrightarrow> (\<forall>k t. (k, VStr t) \<in> set (LogFields e) \<longrightarrow> k \<in> log_keys \<longrightarrow> \<not> sublist v t)"

definition clean_since :: "LogEntry list \<Rightarrow> string \<Rightarrow> 'h World \<Rightarrow> bool" where
  "clean_since old v w \<longleftrightarrow> (\<exists>new. operation_logs (ops w) = old @ new \<and> (\<forall>e \<in> set new. clean_entry v e))"

lemma clean_add: "clean_since old v w \<Longrightarrow> clean_entry v e \<Longrightarrow>
    clean_since old v (w\<lparr>ops := od\<lparr>operation_logs := operation_logs (ops w) @ [e]\<rparr>\<rparr>)"
  unfolding clean_since_def by (elim exE) (auto intro!: exI [of _ "new @ [e]" for new])

lemma clean_same: "clean_since old v w \<Longrightarrow> operation_logs (ops w') = operation_logs (ops w) \<Longrightarrow> clean_since old v w'"
  by (simp add: clean_since_def)

lemma clean_now: "stable (clean_since old v) now_io"
  by (auto simp: stable_def now_io_def Let_def clean_since_def)

lemma clean_call: "stable (clean_since old v) (call m)"
  by (auto simp: stable_def call_def clean_since_def split: prod.split)

lemma clean_draw: "stable P (draw f)"
  by (simp add: draw_def stable_basic)

lemma clean_log:
  assumes "\<And>now k t. (k, t) \<in> set (RedactFields red kvs) \<Longrightarrow> k \<in> log_keys \<Longrightarrow> \<not> sublist v t"
  shows "stable (clean_since old v) (pool_log red op level phase kvs)"
proof -
  have "stable (clean_since old v) (ops_try (\<lambda>db. AppendLog db
      \<lparr>LogOperationID = op, LogLevel = level, LogPhase = phase, LogMessage = [],
       LogFields = map (\<lambda>(k, v). (k, VStr v)) (RedactFields red kvs), LogTime = now\<rparr>))" for now
    using assms by (auto simp: stable_def ops_try_def AppendLog_def insertLog_def clean_since_def clean_entry_def
        split: sum.split)
  then show ?thesis unfolding pool_log_def by (intro stable_rules clean_now)
qed

lemma redacted_fields:
  assumes "redactable v" "v \<in> set (Values r)" "(k, t) \<in> set (RedactFields (Some r) kvs)"
  shows "\<not> sublist v t"
  using assms Redact_removes [OF assms(1,2)] by (auto simp: RedactFields_def split: if_splits)

lemma clean_redacted:
  assumes "redactable v" "v \<in> set (Values r)"
  shows "stable (clean_since old v) (pool_log (Some r) op level phase kvs)"
  by (rule clean_log) (rule redacted_fields [OF assms])

lemma insertRetry_logs: "insertRetryOperation db op plan now = Inr db' \<Longrightarrow>
    \<exists>e. operation_logs db' = operation_logs db @ [e] \<and> fst ` set (LogFields e) \<inter> log_keys = {}"
  by (auto simp: insertRetryOperation_def Let_def bind_res_eq_Inr log_keys_def dest!: insertOperation_Inr(1) insertAudit_Inr(3) insertLog_Inr(3))

lemma Finish_logs:
  "\<exists>new. operation_logs (snd (Finish db inp now)) = operation_logs db @ new \<and> (\<forall>e \<in> set new. fst ` set (LogFields e) \<inter> log_keys = {})"
proof -
  have chain: "\<exists>new. operation_logs db5 = operation_logs db @ new \<and> (\<forall>e \<in> set new. fst ` set (LogFields e) \<inter> log_keys = {})"
    if a: "insertAudit (releaseLock (update_operation db i StatusRunning f) res i now) e = Inr db3" and l: "insertLog db3 l = Inr db4"
      and k: "LogFields l = errorDetail c"
      and r: "(case FinRetry inp of None \<Rightarrow> Inr db4 | Some plan \<Rightarrow> insertRetryOperation db4 op plan now) = Inr db5"
    for i f res e db3 l db4 db5 op c
  proof -
    have four: "operation_logs db4 = operation_logs db @ [l]"
      using insertLog_Inr(3) [OF l] insertAudit_Inr(3) [OF a] by (simp add: releaseLock_def update_operation_def)
    have "fst ` set (LogFields l) \<inter> log_keys = {}" using k by (auto simp: errorDetail_def log_keys_def split: option.split)
    moreover have "operation_logs db5 = operation_logs db4 \<or>
        (\<exists>q. operation_logs db5 = operation_logs db4 @ [q] \<and> fst ` set (LogFields q) \<inter> log_keys = {})"
      using r insertRetry_logs by (cases "FinRetry inp") auto
    ultimately show ?thesis using four by auto
  qed
  show ?thesis
  proof (cases "operation_logs (snd (Finish db inp now)) = operation_logs db")
    case False
    then show ?thesis
      by (auto simp: Finish_def Let_def bind_res_eq_Inr split: sum.splits if_splits
          intro!: chain)
  qed simp
qed

lemma clean_finish: "stable (clean_since old v) (pool_finish p op status ec code)"
proof -
  have fin: "stable (clean_since old v) (ignoring (ops_run (\<lambda>db. Finish db inp now)))" for inp now
  proof (rule stableI)
    fix w r and w' :: "'b World"
    assume c: "clean_since old v w" and run: "ignoring (ops_run (\<lambda>db. Finish db inp now)) w = (r, w')"
    obtain new where new: "operation_logs (snd (Finish (ops w) inp now)) = operation_logs (ops w) @ new"
      "\<forall>e \<in> set new. fst ` set (LogFields e) \<inter> log_keys = {}" using Finish_logs by blast
    have "clean_entry v e" if "e \<in> set new" for e using new(2) that by (force simp: clean_entry_def)
    then show "clean_since old v w'" using c run new(1) by (auto simp: ignoring_ops_run clean_since_def)
  qed
  show ?thesis unfolding pool_finish_def planRetry_def
    by (intro stable_andthen stable_if stable_basic clean_now clean_draw fin)
qed

lemma clean_reject: "stable (clean_since old v) (reject_command p red op code)"
  unfolding reject_command_def
  by (intro stable_rules clean_finish clean_log) (auto simp: log_keys_def RedactFields_def split: option.splits if_splits)

lemma clean_carry_out:
  assumes "redactable v" and "v \<in> set (Values r)"
  shows "stable (clean_since old v) (carry_out p op (spec, Some r, None))"
proof -
  have "stable (clean_since old v) (log_summary op result status ec code)" for result status ec code
    unfolding log_summary_def by (rule clean_log) (auto simp: log_keys_def RedactFields_def split: option.splits)
  then show ?thesis
    unfolding carry_out_def log_start_def log_output_def run_command_def Let_def prod.case option.case
    by (intro stable_rules clean_redacted [OF assms] clean_call clean_finish)
qed


section \<open>An example\<close>

text \<open>A command whose token comes from the environment and which prints it.\<close>

definition token_spec :: ExecutorCommandSpec where
  "token_spec = \<lparr>XArgv = [''/bin/deploy'', ''--token=hunter2''], XWorkingDirectory = [], XEnvironment = [(''HOME'', ''/root'')],
     XSecretEnvironment = [(''TOKEN'', \<lparr>RefKind = SecretKindEnv, RefName = ''T''\<rparr>)], XTimeoutSeconds = 0, XMaxOutputBytes = 0,
     XSensitiveEnvKeys = [], XSensitiveArgIndexes = []\<rparr>"

definition demo_pool :: "unit Pool" where
  "demo_pool =
     \<lparr>plCodec = svc_codec\<lparr>command_codec := (command_codec svc_codec)\<lparr>decode_command := (\<lambda>_. Some token_spec)\<rparr>\<rparr>,
      plSort = slice_stable,
      plExec = \<lparr>ExRun = (\<lambda>sp dn h. ((\<lparr>RsExitCode = 3, RsStdout = ''token hunter2!'', RsStderr = [], RsTruncated = False,
        RsDurationMS = 7, RsExecuted = True\<rparr>, Some (Fault CodeExecExitNonZero)), h))\<rparr>,
      plResolver = Some \<lparr>SrResolve = (\<lambda>ref dn. give ''hunter2'')\<rparr>, plSensitive = [], plRuntimes = None, plBackups = None,
      plDeploys = None, plNewID = (\<lambda>n. ''retry''), plJitter = (\<lambda>n. 0)\<rparr>"

definition pending_db :: OpDb where
  "pending_db = snd (CreateOperation empty_db (sample_op ''op1'' ''web'' 5))"


definition token_command :: CommandSpec where
  "token_command = \<lparr>Argv = XArgv token_spec, WorkingDirectory = [], Environment = XEnvironment token_spec,
     SecretEnv = XSecretEnvironment token_spec, Timeout = 0, MaxOutputBytes = 0, SensitiveEnvKeys = [],
     SensitiveArgIndexes = [], CmdDryRun = False\<rparr>"

lemma resolved_cases:
  assumes "case x of (Inr (spec, red, None), w) \<Rightarrow> P spec w | _ \<Rightarrow> False"
  obtains spec red w where "x = (Inr (spec, red, None), w)" "P spec w"
proof -
  obtain q w where x: "x = (q, w)" by fastforce
  then obtain y where y: "q = Inr y" using assms by (cases q) simp_all
  obtain spec red f where f: "y = (spec, red, f)" by (cases y rule: prod_cases3)
  show thesis using assms that by (cases f) (simp_all add: x y f)
qed


end
