(* ===== verification/Authz.thy ===== *)
theory Authz
  imports Catalog Scheduler
begin

text \<open>
  Who may call what (\<open>internal/adapters/httpapi/authz.go\<close>, the routes of \<open>server.go\<close>, and the list of
  identities of \<open>internal/adapters/config/remote.go\<close>): from a request to the caller and the handler that
  will see it.

  \<open>net/http\<close>'s \<open>ServeMux\<close> is modelled as far as the table of routes uses it: a request is its method and the
  segments of its cleaned path, each decoded on its own, so a segment may contain a slash that was written
  \<open>%2F\<close>; \<open>URL.Path\<close> is the decoded whole. Paths that are not clean are redirected before they reach anything
  here. Messages are left out.
\<close>

section \<open>Requests\<close>

text \<open>\<open>RTLS\<close> is \<open>None\<close> on the Unix socket, otherwise the common names of the certificates of the client.\<close>

record request =
  RMethod :: string
  RSegments :: "string list"
  RTLS :: "string list option"

definition URLPath :: "request \<Rightarrow> string" where
  "URLPath r = concat (map (\<lambda>s. CHR ''/'' # s) (RSegments r))"

definition clientCN :: "request \<Rightarrow> string" where
  "clientCN r = (case RTLS r of Some (cn # _) \<Rightarrow> cn | _ \<Rightarrow> [])"

section \<open>Routes\<close>

type_synonym route = "string \<times> AccessScope \<times> string"

definition routes :: "route list" where
  "routes = [
     (''GET /api/v1/identity'', ScopeRead, ''handleIdentity''),
     (''GET /api/v1/health'', ScopeRead, ''handleHealth''),
     (''POST /api/v1/operations'', ScopeWrite, ''handleCreateOperation''),
     (''GET /api/v1/operations'', ScopeRead, ''handleListOperations''),
     (''GET /api/v1/operations/{id}'', ScopeRead, ''handleGetOperation''),
     (''POST /api/v1/operations/{id}/cancel'', ScopeWrite, ''handleCancelOperation''),
     (''POST /api/v1/operations/{id}/retry'', ScopeWrite, ''handleRetryOperation''),
     (''GET /api/v1/operations/{id}/logs'', ScopeRead, ''handleOperationLogs''),
     (''POST /api/v1/artifacts'', ScopeWrite, ''handleUploadArtifact''),
     (''GET /api/v1/artifacts'', ScopeRead, ''handleListArtifacts''),
     (''POST /api/v1/artifacts/gc'', ScopeWrite, ''handleCollectArtifacts''),
     (''GET /api/v1/artifacts/{id}'', ScopeRead, ''handleGetArtifact''),
     (''GET /api/v1/artifacts/{id}/content'', ScopeRead, ''handleDownloadArtifact''),
     (''POST /api/v1/artifacts/{id}/verify'', ScopeRead, ''handleVerifyArtifact''),
     (''DELETE /api/v1/artifacts/{id}'', ScopeWrite, ''handleDeleteArtifact''),
     (''POST /api/v1/applications'', ScopeWrite, ''handleCreateApplication''),
     (''GET /api/v1/applications'', ScopeRead, ''handleListApplications''),
     (''GET /api/v1/applications/{id}'', ScopeRead, ''handleGetApplication''),
     (''GET /api/v1/applications/{id}/releases'', ScopeRead, ''handleListApplicationReleases''),
     (''PUT /api/v1/applications/{id}/spec'', ScopeWrite, ''handlePutApplicationSpec''),
     (''GET /api/v1/applications/{id}/spec'', ScopeRead, ''handleGetApplicationSpec''),
     (''POST /api/v1/applications/{id}/runtime/validate'', ScopeRead, ''handleValidateRuntime''),
     (''POST /api/v1/applications/{id}/runtime/prepare'', ScopeWrite, ''handlePrepareRuntime''),
     (''POST /api/v1/applications/{id}/runtime/start'', ScopeWrite, ''handleStartRuntime''),
     (''POST /api/v1/applications/{id}/runtime/stop'', ScopeWrite, ''handleStopRuntime''),
     (''GET /api/v1/applications/{id}/runtime/health'', ScopeRead, ''handleRuntimeHealth''),
     (''GET /api/v1/applications/{id}/slots'', ScopeRead, ''handleListSlots''),
     (''GET /api/v1/applications/{id}/slots/history'', ScopeRead, ''handleSlotHistory''),
     (''POST /api/v1/applications/{id}/deploy'', ScopeWrite, ''handleDeployApplication''),
     (''POST /api/v1/applications/{id}/rollback'', ScopeWrite, ''handleRollbackApplication''),
     (''POST /api/v1/releases'', ScopeWrite, ''handleCreateRelease''),
     (''GET /api/v1/releases/{id}'', ScopeRead, ''handleGetRelease''),
     (''GET /api/v1/targets'', ScopeRead, ''handleListTargets''),
     (''PUT /api/v1/targets/{application}'', ScopeWrite, ''handleSetTargets''),
     (''GET /api/v1/targets/{application}'', ScopeRead, ''handleGetTargets''),
     (''GET /api/v1/hosts'', ScopeRead, ''handleListHosts''),
     (''POST /api/v1/hosts'', ScopeWrite, ''handleCreateHost''),
     (''GET /api/v1/hosts/{id}'', ScopeRead, ''handleGetHost''),
     (''GET /api/v1/environments'', ScopeRead, ''handleListEnvironments''),
     (''POST /api/v1/environments'', ScopeWrite, ''handleCreateEnvironment''),
     (''GET /api/v1/environments/{id}'', ScopeRead, ''handleGetEnvironment''),
     (''PUT /api/v1/backup-policies/{name}'', ScopeWrite, ''handlePutBackupPolicy''),
     (''GET /api/v1/backup-policies/{name}'', ScopeRead, ''handleGetBackupPolicy''),
     (''GET /api/v1/backup-policies'', ScopeRead, ''handleListBackupPolicies''),
     (''POST /api/v1/backups'', ScopeWrite, ''handleRunBackup''),
     (''GET /api/v1/backups'', ScopeRead, ''handleListBackups''),
     (''GET /api/v1/backups/{id}'', ScopeRead, ''handleGetBackup''),
     (''POST /api/v1/backups/{id}/verify'', ScopeWrite, ''handleVerifyBackup''),
     (''POST /api/v1/backups/{id}/restore'', ScopeWrite, ''handleRestoreBackup''),
     (''POST /api/v1/backups/prune'', ScopeWrite, ''handlePruneBackups''),
     (''POST /api/v1/schedules'', ScopeWrite, ''handleCreateSchedule''),
     (''GET /api/v1/schedules'', ScopeRead, ''handleListSchedules''),
     (''GET /api/v1/schedules/{id}'', ScopeRead, ''handleGetSchedule''),
     (''DELETE /api/v1/schedules/{id}'', ScopeWrite, ''handleDeleteSchedule''),
     (''POST /api/v1/schedules/{id}/enable'', ScopeWrite, ''handleEnableSchedule''),
     (''POST /api/v1/schedules/{id}/disable'', ScopeWrite, ''handleDisableSchedule''),
     (''GET /api/v1/schedules/{id}/runs'', ScopeRead, ''handleScheduleRuns''),
     (''/'', ScopeRead, ''handleNotFound'')]"

definition patternPath :: "string \<Rightarrow> string" where
  "patternPath pat = (case Cut pat CHR '' '' of (before, after, hit) \<Rightarrow> if hit then after else pat)"

definition pattern_method :: "string \<Rightarrow> string" where
  "pattern_method pat = (case Cut pat CHR '' '' of (before, after, hit) \<Rightarrow> if hit then before else [])"

text \<open>A pattern that ends with a slash matches every path below it; a name in braces one segment that is not empty.\<close>

definition segment_matches :: "string \<Rightarrow> string \<Rightarrow> bool" where
  "segment_matches p s \<longleftrightarrow> (if prefix ''{'' p then s \<noteq> [] else s = p)"

definition path_matches :: "string \<Rightarrow> string list \<Rightarrow> bool" where
  "path_matches path segs \<longleftrightarrow> path = ''/'' \<or> list_all2 segment_matches (tl (Split CHR ''/'' path)) segs"

definition method_matches :: "string \<Rightarrow> string \<Rightarrow> bool" where
  "method_matches m actual \<longleftrightarrow> m = [] \<or> m = actual \<or> m = ''GET'' \<and> actual = ''HEAD''"

definition route_matches :: "string \<Rightarrow> request \<Rightarrow> bool" where
  "route_matches pat r \<longleftrightarrow> method_matches (pattern_method pat) (RMethod r) \<and> path_matches (patternPath pat) (RSegments r)"

text \<open>No two routes but the last, which takes what is left, match the same request, so the first is the one.\<close>

definition mux :: "route list \<Rightarrow> request \<Rightarrow> route option" where
  "mux table r = find (\<lambda>rt. route_matches (fst rt) r) table"

section \<open>Who is calling\<close>

record Gate =
  RemoteIdentities :: "RemoteIdentity list option"
  Catalogs :: "CatDb option"

definition FindRemoteIdentity :: "RemoteIdentity list \<Rightarrow> string \<Rightarrow> RemoteIdentity option" where
  "FindRemoteIdentity clients cn = find (\<lambda>c. CN c = cn) clients"

definition principalFor :: "Gate \<Rightarrow> request \<Rightarrow> ErrorCode + Principal" where
  "principalFor g r =
     (if RTLS r = None then Inr LocalPrincipal
      else if clientCN r = [] then Inl CodeHostTLSFailed
      else case RemoteIdentities g of
        None \<Rightarrow> Inl CodeInternal
      | Some clients \<Rightarrow>
          (case FindRemoteIdentity clients (clientCN r) of
             None \<Rightarrow> Inl CodeRemoteForbidden
           | Some identity \<Rightarrow> Inr (RemoteIdentity_Principal identity)))"

section \<open>The application a request is about\<close>

definition applicationRoutePrefix :: string where "applicationRoutePrefix = ''/api/v1/applications/{id}''"
definition applicationRouteRoot :: string where "applicationRouteRoot = ''/api/v1/applications/''"
definition targetsRoutePrefix :: string where "targetsRoutePrefix = ''/api/v1/targets/{application}''"
definition targetsRouteRoot :: string where "targetsRouteRoot = ''/api/v1/targets/''"

definition pathSegment :: "string \<Rightarrow> string \<Rightarrow> string" where
  "pathSegment path base =
     (if prefix base path
      then takeWhile (\<lambda>c. c \<noteq> CHR ''/'') (drop (length base) path)
      else [])"

definition applicationRef :: "request \<Rightarrow> string \<Rightarrow> string \<times> bool" where
  "applicationRef r pat =
     (if prefix targetsRoutePrefix (patternPath pat) then (pathSegment (URLPath r) targetsRouteRoot, True)
      else if \<not> prefix applicationRoutePrefix (patternPath pat) then ([], False)
      else (pathSegment (URLPath r) applicationRouteRoot, False))"

text \<open>\<open>CatalogService.GetApplication\<close>\<close>

definition Catalog_GetApplication :: "CatDb \<Rightarrow> string \<Rightarrow> ErrorCode + Application" where
  "Catalog_GetApplication db ref = (if blank ref then Inl CodeInvalidRequest else GetApplication db ref)"

definition checkApplicationScope :: "Gate \<Rightarrow> request \<Rightarrow> string \<Rightarrow> Principal \<Rightarrow> ErrorCode option" where
  "checkApplicationScope g r pat p =
     (if Applications p = [] then None
      else case applicationRef r pat of (ref, isName) \<Rightarrow>
        if ref = [] then None
        else if isName then fail_if (\<not> AllowsApplication p ref) CodeRemoteForbidden
        else case Catalogs g of
          None \<Rightarrow> Some CodeInternal
        | Some db \<Rightarrow>
            (case Catalog_GetApplication db ref of
               Inl e \<Rightarrow> if e = CodeApplicationNotFound then None else Some e
             | Inr app \<Rightarrow> fail_if (\<not> AllowsApplication p (AppName app)) CodeRemoteForbidden))"

section \<open>The gate\<close>

text \<open>A request no route matches has no pattern and needs to read only; the handler is then the one of \<open>ServeMux\<close>
  itself.\<close>

definition authenticate :: "route list \<Rightarrow> Gate \<Rightarrow> request \<Rightarrow> ErrorCode + Principal \<times> string" where
  "authenticate table g r =
     bind_res (principalFor g r) (\<lambda>p.
     (let pat = (case mux table r of None \<Rightarrow> [] | Some rt \<Rightarrow> fst rt)
      in case (case map_of table pat of
                 Some (scope, handler) \<Rightarrow> Inr (scope, handler)
               | None \<Rightarrow> if pat = [] then Inr (ScopeRead, []) else Inl CodeInternal) of
           Inl e \<Rightarrow> Inl e
         | Inr (required, handler) \<Rightarrow>
             if \<not> Allows (PrScope p) required then Inl CodeRemoteForbidden
             else (case checkApplicationScope g r pat p of
                     Some e \<Rightarrow> Inl e
                   | None \<Rightarrow> Inr (p, handler))))"

text \<open>\<open>Handler\<close> panics at the start of the daemon when a route has no access level.\<close>

definition Handler_starts :: "route list \<Rightarrow> bool" where
  "Handler_starts table \<longleftrightarrow> list_all (\<lambda>(pat, access, handler). AccessScope_Valid access) table"

section \<open>The table\<close>

lemma routes_start: "Handler_starts routes"
  by code_simp

lemma routes_distinct: "distinct (map fst routes)"
  by code_simp

text \<open>Two patterns, taken apart, that could match one request.\<close>

definition parsed :: "string \<Rightarrow> string \<times> string list" where
  "parsed pat = (pattern_method pat, tl (Split CHR ''/'' (patternPath pat)))"

definition overlap :: "string \<times> string list \<Rightarrow> string \<times> string list \<Rightarrow> bool" where
  "overlap p q \<longleftrightarrow> fst p = fst q \<and> list_all2 (\<lambda>a b. a = b \<or> prefix ''{'' a \<or> prefix ''{'' b) (snd p) (snd q)"

lemma routes_apart: "sorted_wrt (\<lambda>p q. \<not> overlap p q) (map (\<lambda>rt. parsed (fst rt)) (butlast routes))"
  by code_simp

text \<open>What the routes below an application look like, told from their first three segments.\<close>

definition below_applications :: "string \<Rightarrow> bool" where
  "below_applications pat \<longleftrightarrow>
     (case snd (parsed pat) of a # b # c # d # _ \<Rightarrow> [a, b, c] = [''api'', ''v1'', ''applications''] | _ \<Rightarrow> False)"

lemma routes_below_applications:
  "list_all (\<lambda>rt. patternPath (fst rt) = ''/'' \<or>
     (case snd (parsed (fst rt)) of
        a # b # c # d # _ \<Rightarrow>
          ([a, b, c] = [''api'', ''v1'', ''applications''] \<longrightarrow>
             prefix applicationRoutePrefix (patternPath (fst rt)) \<and> \<not> prefix targetsRoutePrefix (patternPath (fst rt)) \<and> prefix ''{'' d)
          \<and> ([a, b, c] = [''api'', ''v1'', ''targets''] \<longrightarrow>
             prefix targetsRoutePrefix (patternPath (fst rt)) \<and> prefix ''{'' d)
          \<and> \<not> prefix ''{'' a \<and> \<not> prefix ''{'' b \<and> \<not> prefix ''{'' c
      | _ \<Rightarrow> True)) routes"
  by code_simp

section \<open>The gate\<close>

lemma mux_routes: "\<exists>rt \<in> set routes. mux routes r = Some rt \<and> route_matches (fst rt) r"
proof -
  have "(''/'', ScopeRead, ''handleNotFound'') \<in> set routes" by (simp add: routes_def)
  moreover have "route_matches ''/'' r"
  proof -
    have "patternPath ''/'' = ''/''" "pattern_method ''/'' = []" by code_simp+
    then show ?thesis by (simp add: route_matches_def method_matches_def path_matches_def)
  qed
  ultimately have "mux routes r \<noteq> None" by (auto simp: mux_def find_None_iff)
  then obtain rt where "mux routes r = Some rt" by blast
  then show ?thesis by (auto simp: mux_def find_Some_iff)
qed

lemma routes_lookup: "(pat, v) \<in> set routes \<Longrightarrow> map_of routes pat = Some v"
  using routes_distinct by (simp add: map_of_eq_Some_iff)

lemma only_not_found: "(pat, a, h) \<in> set routes \<Longrightarrow> patternPath pat = ''/'' \<longleftrightarrow> h = ''handleNotFound''"
proof -
  have "list_all (\<lambda>(pat, a, h). patternPath pat = ''/'' \<longleftrightarrow> h = ''handleNotFound'') routes" by code_simp
  then show "(pat, a, h) \<in> set routes \<Longrightarrow> patternPath pat = ''/'' \<longleftrightarrow> h = ''handleNotFound''"
    by (auto simp: list_all_iff)
qed

text \<open>The segment after a prefix of the path is the one the route has bound, unless it contains a slash.\<close>

lemma pathSegment_plain:
  assumes "CHR ''/'' \<notin> set x" and "base = concat (map (\<lambda>s. CHR ''/'' # s) bs) @ ''/''" and "RSegments r = bs @ x # rest"
  shows "pathSegment (URLPath r) base = x"
proof -
  have "takeWhile (\<lambda>c. c \<noteq> CHR ''/'') (x @ concat (map (\<lambda>s. CHR ''/'' # s) rest)) = x"
    using assms(1) by (cases rest) (auto simp: takeWhile_append)
  then show ?thesis by (simp add: pathSegment_def URLPath_def assms(2,3))
qed

lemma segment_brace: "prefix ''{'' d \<Longrightarrow> segment_matches d x \<Longrightarrow> x \<noteq> []"
  by (simp add: segment_matches_def)

lemma matched_segments:
  assumes "(pat, v) \<in> set routes" and "patternPath pat \<noteq> ''/''" and "route_matches pat r"
    and "RSegments r = s1 # s2 # s3 # x # rest" and "[s1, s2, s3] = [''api'', ''v1'', w]" and "w = ''applications'' \<or> w = ''targets''"
  shows "x \<noteq> []"
    and "w = ''applications'' \<Longrightarrow> prefix applicationRoutePrefix (patternPath pat) \<and> \<not> prefix targetsRoutePrefix (patternPath pat)"
    and "w = ''targets'' \<Longrightarrow> prefix targetsRoutePrefix (patternPath pat)"
proof -
  have m: "list_all2 segment_matches (snd (parsed pat)) (s1 # s2 # s3 # x # rest)"
    using assms(2-4) by (simp add: route_matches_def path_matches_def parsed_def)
  then obtain a b c d ds where p: "snd (parsed pat) = a # b # c # d # ds" and
    seg: "segment_matches a s1" "segment_matches b s2" "segment_matches c s3" "segment_matches d x"
    by (auto simp: list_all2_Cons2)
  have r: "([a, b, c] = [''api'', ''v1'', ''applications''] \<longrightarrow>
             prefix applicationRoutePrefix (patternPath pat) \<and> \<not> prefix targetsRoutePrefix (patternPath pat) \<and> prefix ''{'' d)
          \<and> ([a, b, c] = [''api'', ''v1'', ''targets''] \<longrightarrow>
             prefix targetsRoutePrefix (patternPath pat) \<and> prefix ''{'' d)
          \<and> \<not> prefix ''{'' a \<and> \<not> prefix ''{'' b \<and> \<not> prefix ''{'' c"
    using bspec [OF routes_below_applications [unfolded list_all_iff] assms(1)] assms(2) p by simp
  then have "[a, b, c] = [''api'', ''v1'', w]" using seg(1-3) assms(5) by (simp add: segment_matches_def)
  then show "x \<noteq> []"
    and "w = ''applications'' \<Longrightarrow> prefix applicationRoutePrefix (patternPath pat) \<and> \<not> prefix targetsRoutePrefix (patternPath pat)"
    and "w = ''targets'' \<Longrightarrow> prefix targetsRoutePrefix (patternPath pat)"
    using r seg(4) segment_brace assms(6) by auto
qed

lemma principalFor_Inr:
  assumes "principalFor g r = Inr p"
  shows "RTLS r = None \<and> p = LocalPrincipal \<or>
     (\<exists>clients identity. RemoteIdentities g = Some clients \<and> identity \<in> set clients \<and> CN identity = clientCN r
        \<and> clientCN r \<noteq> [] \<and> p = RemoteIdentity_Principal identity)"
  using assms by (auto simp: principalFor_def FindRemoteIdentity_def find_Some_iff split: if_splits option.splits) (metis nth_mem)

lemma authenticate_Inr:
  assumes "authenticate routes g r = Inr (p, handler)"
  obtains pat scope where "principalFor g r = Inr p" "(pat, scope, handler) \<in> set routes" "route_matches pat r"
    "Allows (PrScope p) scope" "checkApplicationScope g r pat p = None"
proof -
  obtain rt where rt: "rt \<in> set routes" "mux routes r = Some rt" "route_matches (fst rt) r" using mux_routes by blast
  obtain pat scope h where rt_is: "rt = (pat, scope, h)" by (cases rt)
  then have e: "rt = (pat, scope, h)" "map_of routes pat = Some (scope, h)" using rt(1) routes_lookup by simp_all
  show thesis
    using assms rt that [of pat scope] by (auto simp: authenticate_def bind_res_eq_Inr e Let_def split: if_splits option.splits)
qed


definition ci_client :: RemoteIdentity where
  "ci_client = \<lparr>CN = ''ci'', IdScope = ScopeWrite, IdApplications = [''web'']\<rparr>"

definition shop :: Application where
  "shop = \<lparr>AppID = ''app1'', AppName = ''shop/eu'', AppLabels = [], AppCreatedAt = 0, AppUpdatedAt = 0\<rparr>"

definition web :: Application where
  "web = \<lparr>AppID = ''app2'', AppName = ''web'', AppLabels = [], AppCreatedAt = 0, AppUpdatedAt = 0\<rparr>"

definition demo_gate :: Gate where
  "demo_gate = \<lparr>RemoteIdentities = Some [ci_client], Catalogs = Some (empty_cat\<lparr>applications := [shop, web]\<rparr>)\<rparr>"

definition from_ci :: "string \<Rightarrow> string list \<Rightarrow> request" where
  "from_ci m segs = \<lparr>RMethod = m, RSegments = ''api'' # ''v1'' # segs, RTLS = Some [''ci'']\<rparr>"


section \<open>Ways round the gate\<close>

text \<open>The gate takes the first segment of the decoded path, the handler the decoded segment of the route: with an
  encoded slash the gate asks for \<open>shop\<close>, which does not exist, and the handler gets \<open>shop/eu\<close>.\<close>

lemma encoded_slash_bypass:
  "authenticate routes demo_gate (from_ci ''PUT'' [''applications'', ''shop/eu'', ''spec'']) =
     Inr (RemoteIdentity_Principal ci_client, ''handlePutApplicationSpec'')"
  "Catalog_GetApplication (empty_cat\<lparr>applications := [shop, web]\<rparr>) ''shop/eu'' = Inr shop"
  "AppName shop \<notin> set (IdApplications ci_client)"
  by code_simp+

text \<open>A schedule is not an operation: creating one asks for neither the kind nor the application, and takes the name
  of its creator from the request. What the scheduler then creates is a command.\<close>

definition sneaky_env :: sched_env where
  "sneaky_env = sample_env\<lparr>env_codec := (env_codec sample_env)\<lparr>decode_command := (\<lambda>_. Some
     \<lparr>XArgv = [''/bin/sh''], XWorkingDirectory = [], XEnvironment = [], XSecretEnvironment = [], XTimeoutSeconds = 0,
      XMaxOutputBytes = 0, XSensitiveEnvKeys = [], XSensitiveArgIndexes = []\<rparr>)\<rparr>\<rparr>"

definition sneaky_schedule :: CreateScheduleInput where
  "sneaky_schedule =
     \<lparr>InName = ''tidy'', InKind = ScheduleKindInterval, InCron = [], InInterval = minute, InTimezone = [], InResource = ''db'',
      InOperationKind = KindExecutorCommand, InSpec = ''{}'', InMissedRunPolicy = MissedRunSkip, InCreatedBy = ''root''\<rparr>"

lemma schedule_bypass:
  "authenticate routes demo_gate (from_ci ''POST'' [''schedules'']) = Inr (RemoteIdentity_Principal ci_client, ''handleCreateSchedule'')"
  "case ScheduleService_Create sneaky_env sneaky_schedule 0 0 \<lparr>opdb = empty_db, schedules = [], schedule_runs = []\<rparr> of
     (Inr s, db) \<Rightarrow> map (\<lambda>op. (OpKind op, Resource op, OpStatus op)) (operations (opdb (snd (snd (Tick sneaky_env minute 1 db)))))
       = [(KindExecutorCommand, ''db'', StatusPending)]
   | _ \<Rightarrow> False"
  by code_simp+

end
