(* ===== verification/Hosts.thy ===== *)
theory Hosts
  imports Principal Catalog
begin

text \<open>
  Hosts, environments and deployment targets: the tables (\<open>internal/adapters/sqlite/host.go\<close>,
  \<open>internal/adapters/sqlite/target.go\<close>) and the services (\<open>internal/application/host.go\<close>,
  \<open>internal/application/target.go\<close>). The label columns, row scanning and disk failures are not modelled; a
  constraint violation other than a duplicate name is the error INTERNAL. The services are given the time
  and the identifier they generate.
\<close>

section \<open>Tables\<close>

record TargetRow =
  TgApplication :: string
  TgHost :: string
  TgCreatedAt :: time

record HostDb =
  hosts :: "Host list"
  environments :: "Host list"
  application_targets :: "TargetRow list"

text \<open>\<open>Environment\<close> has the fields of \<open>Host\<close> but the address.\<close>

definition insert_named :: "Host \<Rightarrow> Host list \<Rightarrow> ErrorCode + Host list" where
  "insert_named h rows =
     (case Host_Validate h of
        Some e \<Rightarrow> Inl e
      | None \<Rightarrow> if list_ex (\<lambda>q. HostID q = HostID h \<or> HostName q = HostName h) rows then Inl CodeInvalidRequest
               else Inr (rows @ [h]))"

definition named :: "Host list \<Rightarrow> string \<Rightarrow> Host option" where
  "named rows ref = find (\<lambda>q. HostID q = ref \<or> HostName q = ref) rows"

definition by_age :: "Host list \<Rightarrow> Host list" where
  "by_age rows = sort_key (\<lambda>q. (HostCreatedAt q, HostID q)) rows"

definition Store_CreateHost :: "HostDb \<Rightarrow> Host \<Rightarrow> ErrorCode option \<times> HostDb" where
  "Store_CreateHost db h = (case insert_named h (hosts db) of Inl e \<Rightarrow> (Some e, db) | Inr rows \<Rightarrow> (None, db\<lparr>hosts := rows\<rparr>))"

definition Store_GetHost :: "HostDb \<Rightarrow> string \<Rightarrow> ErrorCode + Host" where
  "Store_GetHost db ref = found (named (hosts db) ref) CodeHostNotFound"

definition Store_ListHosts :: "HostDb \<Rightarrow> Host list" where
  "Store_ListHosts db = by_age (hosts db)"

definition FindLocalHost :: "HostDb \<Rightarrow> Host option" where
  "FindLocalHost db = (case by_age (filter (\<lambda>q. Address q = []) (hosts db)) of [] \<Rightarrow> None | h # _ \<Rightarrow> Some h)"

definition Store_CreateEnvironment :: "HostDb \<Rightarrow> Host \<Rightarrow> ErrorCode option \<times> HostDb" where
  "Store_CreateEnvironment db h =
     (case insert_named h (environments db) of Inl e \<Rightarrow> (Some e, db) | Inr rows \<Rightarrow> (None, db\<lparr>environments := rows\<rparr>))"

definition Store_GetEnvironment :: "HostDb \<Rightarrow> string \<Rightarrow> ErrorCode + Host" where
  "Store_GetEnvironment db ref = found (named (environments db) ref) CodeEnvNotFound"

definition Store_ListEnvironments :: "HostDb \<Rightarrow> Host list" where
  "Store_ListEnvironments db = by_age (environments db)"

section \<open>Targets\<close>

text \<open>The inserts of one transaction: the primary key is the pair of application and host.\<close>

fun insert_targets :: "string \<Rightarrow> time \<Rightarrow> string list \<Rightarrow> TargetRow list \<Rightarrow> ErrorCode + TargetRow list" where
  "insert_targets app now [] rows = Inr rows"
| "insert_targets app now (name # names) rows =
     (if list_ex (\<lambda>q. TgApplication q = app \<and> TgHost q = name) rows then Inl CodeInternal
      else insert_targets app now names (rows @ [\<lparr>TgApplication = app, TgHost = name, TgCreatedAt = now\<rparr>]))"

definition ReplaceApplicationTargets :: "HostDb \<Rightarrow> string \<Rightarrow> string list \<Rightarrow> time \<Rightarrow> ErrorCode option \<times> HostDb" where
  "ReplaceApplicationTargets db app names now =
     (if list_ex (\<lambda>name. \<not> list_ex (\<lambda>h. HostName h = name) (hosts db)) names then (Some CodeHostNotFound, db)
      else case insert_targets app now names (filter (\<lambda>q. TgApplication q \<noteq> app) (application_targets db)) of
        Inl e \<Rightarrow> (Some e, db)
      | Inr rows \<Rightarrow> (None, db\<lparr>application_targets := rows\<rparr>))"

definition ListApplicationTargets :: "HostDb \<Rightarrow> string \<Rightarrow> string list" where
  "ListApplicationTargets db app =
     map TgHost (sort_key (\<lambda>q. (TgCreatedAt q, TgHost q)) (filter (\<lambda>q. TgApplication q = app) (application_targets db)))"

text \<open>The rows come ordered; neighbours with the same application are one entry.\<close>

definition add_row :: "(string \<times> string list) list \<Rightarrow> TargetRow \<Rightarrow> (string \<times> string list) list" where
  "add_row acc q =
     (if acc = [] \<or> fst (last acc) \<noteq> TgApplication q then acc @ [(TgApplication q, [TgHost q])]
      else butlast acc @ [(fst (last acc), snd (last acc) @ [TgHost q])])"

definition ListAllApplicationTargets :: "HostDb \<Rightarrow> (string \<times> string list) list" where
  "ListAllApplicationTargets db =
     foldl add_row [] (sort_key (\<lambda>q. (TgApplication q, TgCreatedAt q, TgHost q)) (application_targets db))"

section \<open>Services\<close>

definition localHostName :: string where "localHostName = ''local''"

definition new_host :: "string \<Rightarrow> time \<Rightarrow> string \<Rightarrow> string \<Rightarrow> (string \<times> string) list \<Rightarrow> Host" where
  "new_host i now name address labels =
     \<lparr>HostID = i, HostName = name, Address = address, HostLabels = labels, HostCreatedAt = now, HostUpdatedAt = now\<rparr>"

definition hostNameTaken :: "HostDb \<Rightarrow> string \<Rightarrow> ErrorCode + bool" where
  "hostNameTaken db name =
     (case Store_GetHost db name of Inr _ \<Rightarrow> Inr True | Inl e \<Rightarrow> if e = CodeHostNotFound then Inr False else Inl e)"

definition EnsureLocalHost :: "string \<Rightarrow> time \<Rightarrow> HostDb \<Rightarrow> (ErrorCode + Host) \<times> HostDb" where
  "EnsureLocalHost i now db =
     (case FindLocalHost db of
        Some h \<Rightarrow> (Inr h, db)
      | None \<Rightarrow>
          (case hostNameTaken db localHostName of
             Inl e \<Rightarrow> (Inl e, db)
           | Inr taken \<Rightarrow>
               let h = new_host i now (if taken then localHostName @ ''-'' @ i else localHostName) [] []
               in case Store_CreateHost db h of (Some e, db') \<Rightarrow> (Inl e, db') | (None, db') \<Rightarrow> (Inr h, db')))"

definition HostService_CreateHost ::
  "string \<Rightarrow> time \<Rightarrow> string \<Rightarrow> string \<Rightarrow> (string \<times> string) list \<Rightarrow> HostDb \<Rightarrow> (ErrorCode + Host) \<times> HostDb" where
  "HostService_CreateHost i now name address labels db =
     (let h = new_host i now (TrimSpace name) (TrimSpace address) labels
      in case Store_CreateHost db h of (Some e, db') \<Rightarrow> (Inl e, db') | (None, db') \<Rightarrow> (Inr h, db'))"

definition HostService_GetHost :: "HostDb \<Rightarrow> string \<Rightarrow> ErrorCode + Host" where
  "HostService_GetHost db ref = (if blank ref then Inl CodeInvalidRequest else Store_GetHost db ref)"

definition HostService_CreateEnvironment ::
  "string \<Rightarrow> time \<Rightarrow> string \<Rightarrow> (string \<times> string) list \<Rightarrow> HostDb \<Rightarrow> (ErrorCode + Host) \<times> HostDb" where
  "HostService_CreateEnvironment i now name labels db =
     (let h = new_host i now (TrimSpace name) [] labels
      in case Store_CreateEnvironment db h of (Some e, db') \<Rightarrow> (Inl e, db') | (None, db') \<Rightarrow> (Inr h, db'))"

definition HostService_GetEnvironment :: "HostDb \<Rightarrow> string \<Rightarrow> ErrorCode + Host" where
  "HostService_GetEnvironment db ref = (if blank ref then Inl CodeInvalidRequest else Store_GetEnvironment db ref)"

definition SetTargets :: "string \<Rightarrow> string list \<Rightarrow> time \<Rightarrow> HostDb \<Rightarrow> (ErrorCode + string list) \<times> HostDb" where
  "SetTargets app names now db =
     (case ValidateApplicationName app of
        Some e \<Rightarrow> (Inl e, db)
      | None \<Rightarrow>
          if NormalizeTargets names = [] then (Inl CodeInvalidRequest, db)
          else case ReplaceApplicationTargets db app (NormalizeTargets names) now of
            (Some e, db') \<Rightarrow> (Inl e, db')
          | (None, db') \<Rightarrow> (Inr (NormalizeTargets names), db'))"

definition Targets :: "HostDb \<Rightarrow> string \<Rightarrow> ErrorCode + string list" where
  "Targets db app = (case ValidateApplicationName app of Some e \<Rightarrow> Inl e | None \<Rightarrow> Inr (ListApplicationTargets db app))"

section \<open>Well-formed tables\<close>

definition rows_ok :: "Host list \<Rightarrow> bool" where
  "rows_ok rows \<longleftrightarrow> distinct (map HostID rows) \<and> distinct (map HostName rows) \<and> (\<forall>h \<in> set rows. \<not> blank (HostName h))"

definition target_key :: "TargetRow \<Rightarrow> string \<times> string" where
  "target_key q = (TgApplication q, TgHost q)"

definition hosts_ok :: "HostDb \<Rightarrow> bool" where
  "hosts_ok db \<longleftrightarrow> rows_ok (hosts db) \<and> rows_ok (environments db)
     \<and> distinct (map target_key (application_targets db))
     \<and> (\<forall>q \<in> set (application_targets db). TgHost q \<in> HostName ` set (hosts db))"

lemma insert_named_ok: "insert_named h rows = Inr rows' \<Longrightarrow> rows_ok rows \<Longrightarrow> rows_ok rows' \<and> rows' = rows @ [h]"
  by (auto simp: insert_named_def rows_ok_def Host_Validate_def list_ex_iff split: option.splits if_splits) metis+

lemma insert_targets_Inr:
  "insert_targets app now names rows = Inr rows' \<Longrightarrow>
     rows' = rows @ map (\<lambda>n. \<lparr>TgApplication = app, TgHost = n, TgCreatedAt = now\<rparr>) names"
  by (induction app now names rows rule: insert_targets.induct) (auto split: if_splits)

lemma insert_targets_keys:
  "insert_targets app now names rows = Inr rows' \<Longrightarrow> distinct (map target_key rows) \<Longrightarrow> distinct (map target_key rows')"
proof (induction app now names rows rule: insert_targets.induct)
  case (2 app now name names rows)
  have "(app, name) \<notin> target_key ` set rows" using 2(2) by (auto simp: list_ex_iff target_key_def split: if_splits)
  then have "distinct (map target_key (rows @ [\<lparr>TgApplication = app, TgHost = name, TgCreatedAt = now\<rparr>]))"
    using 2(3) by (simp add: target_key_def [of "\<lparr>TgApplication = app, TgHost = name, TgCreatedAt = now\<rparr>"])
  then show ?case using 2(1,2) by (simp split: if_splits)
qed simp

text \<open>Without duplicates among the names the inserts succeed.\<close>

lemma insert_targets_distinct:
  assumes "distinct names" and "\<forall>q \<in> set rows. TgApplication q \<noteq> app \<or> TgHost q \<notin> set names"
  shows "\<exists>rows'. insert_targets app now names rows = Inr rows'"
  using assms by (induction app now names rows rule: insert_targets.induct) (auto simp: list_ex_iff)

text \<open>The requests that change the tables.\<close>

inductive host_step :: "HostDb \<Rightarrow> HostDb \<Rightarrow> bool" where
  ensure_local: "EnsureLocalHost i now db = (r, db') \<Longrightarrow> host_step db db'"
| create_host: "HostService_CreateHost i now name address labels db = (r, db') \<Longrightarrow> host_step db db'"
| create_environment: "HostService_CreateEnvironment i now name labels db = (r, db') \<Longrightarrow> host_step db db'"
| set_targets: "SetTargets app names now db = (s, db') \<Longrightarrow> host_step db db'"

inductive_cases host_stepE: "host_step db db'"

definition empty_hosts :: HostDb where
  "empty_hosts = \<lparr>hosts = [], environments = [], application_targets = []\<rparr>"

lemma CreateHost_ok: "Store_CreateHost db h = (r, db') \<Longrightarrow> hosts_ok db \<Longrightarrow> hosts_ok db'"
  using insert_named_ok [of h "hosts db"] by (auto simp: Store_CreateHost_def hosts_ok_def split: sum.splits)

lemma CreateEnvironment_ok: "Store_CreateEnvironment db h = (r, db') \<Longrightarrow> hosts_ok db \<Longrightarrow> hosts_ok db'"
  using insert_named_ok [of h "environments db"] by (auto simp: Store_CreateEnvironment_def hosts_ok_def split: sum.splits)

lemma Replace_ok:
  assumes "ReplaceApplicationTargets db app names now = (r, db')" and "hosts_ok db"
  shows "hosts_ok db'"
proof (cases r)
  case None
  then obtain rows where *: "list_all (\<lambda>name. list_ex (\<lambda>h. HostName h = name) (hosts db)) names"
    "insert_targets app now names (filter (\<lambda>q. TgApplication q \<noteq> app) (application_targets db)) = Inr rows"
    "db' = db\<lparr>application_targets := rows\<rparr>"
    using assms(1) by (auto simp: ReplaceApplicationTargets_def list_all_iff list_ex_iff split: if_splits sum.splits)
  have "distinct (map target_key (filter (\<lambda>q. TgApplication q \<noteq> app) (application_targets db)))"
    using assms(2) by (simp add: hosts_ok_def distinct_map_filter)
  then show ?thesis
    using assms(2) insert_targets_keys [OF *(2)] insert_targets_Inr [OF *(2)] *(1)
    by (auto simp: hosts_ok_def *(3) list_all_iff list_ex_iff)
next
  case (Some e)
  then show ?thesis using assms by (auto simp: ReplaceApplicationTargets_def split: if_splits sum.splits)
qed

text \<open>C28 In every state the requests lead to, identifiers and names of hosts and environments are unique and not
  blank, an application has a host at most once as a target, and every target is a known host.\<close>

theorem host_tables_wellformed:
  assumes "host_step\<^sup>*\<^sup>* empty_hosts db"
  shows "hosts_ok db"
  using assms
proof (induction rule: rtranclp_induct)
  case base
  show ?case by (simp add: hosts_ok_def rows_ok_def empty_hosts_def)
next
  case (step db db')
  from step.hyps(2) show ?case
    by cases (use step.IH CreateHost_ok CreateEnvironment_ok Replace_ok in
      \<open>auto simp: EnsureLocalHost_def HostService_CreateHost_def HostService_CreateEnvironment_def SetTargets_def Let_def
         split: option.splits sum.splits prod.splits if_splits\<close>)
qed

theorem host_tables_wellformed_witness:
  "hosts_ok (snd (SetTargets ''web'' [''local''] 2 (snd (EnsureLocalHost ''host1'' 1 empty_hosts))))"
proof -
  have "host_step empty_hosts (snd (EnsureLocalHost ''host1'' 1 empty_hosts))"
    by (rule ensure_local [of "''host1''" 1 _ "fst (EnsureLocalHost ''host1'' 1 empty_hosts)"]) simp
  moreover have "host_step db (snd (SetTargets ''web'' [''local''] 2 db))" for db
    by (rule set_targets [of "''web''" "[''local'']" 2 _ "fst (SetTargets ''web'' [''local''] 2 db)"]) simp
  ultimately show ?thesis by (intro host_tables_wellformed) (meson rtranclp.intros)
qed

section \<open>Reading targets back\<close>

lemma sort_key_iso:
  assumes "\<And>x y. x \<in> set xs \<Longrightarrow> y \<in> set xs \<Longrightarrow> f x \<le> f y \<longleftrightarrow> g x \<le> g y"
  shows "sort_key f xs = sort_key g xs"
proof -
  have ins: "insort_key f x ys = insort_key g x ys" if "\<forall>y \<in> set ys. f x \<le> f y \<longleftrightarrow> g x \<le> g y" for x ys
    using that by (induction ys) auto
  from assms show ?thesis
    by (induction xs) (auto intro!: ins)
qed

lemma sort_new_rows:
  "sort_key (\<lambda>q. (TgCreatedAt q, TgHost q)) (map (\<lambda>n. \<lparr>TgApplication = app, TgHost = n, TgCreatedAt = now\<rparr>) names)
     = map (\<lambda>n. \<lparr>TgApplication = app, TgHost = n, TgCreatedAt = now\<rparr>) (sort names)"
proof -
  have ins: "insort_key (\<lambda>q. (TgCreatedAt q, TgHost q)) \<lparr>TgApplication = app, TgHost = n, TgCreatedAt = now\<rparr>
      (map (\<lambda>n. \<lparr>TgApplication = app, TgHost = n, TgCreatedAt = now\<rparr>) ns)
    = map (\<lambda>n. \<lparr>TgApplication = app, TgHost = n, TgCreatedAt = now\<rparr>) (insort n ns)" for n ns
    by (induction ns) auto
  show ?thesis by (induction names) (simp_all add: ins)
qed

lemma Replace_Inr:
  assumes "ReplaceApplicationTargets db app names now = (None, db')"
  shows "ListApplicationTargets db' app = sort names" and "b \<noteq> app \<Longrightarrow> ListApplicationTargets db' b = ListApplicationTargets db b"
    and "set names \<subseteq> HostName ` set (hosts db)" and "hosts db' = hosts db"
proof -
  obtain rows where *: "list_all (\<lambda>name. list_ex (\<lambda>h. HostName h = name) (hosts db)) names"
    "insert_targets app now names (filter (\<lambda>q. TgApplication q \<noteq> app) (application_targets db)) = Inr rows"
    "db' = db\<lparr>application_targets := rows\<rparr>"
    using assms(1) by (auto simp: ReplaceApplicationTargets_def list_all_iff list_ex_iff split: if_splits sum.splits)
  note rows = insert_targets_Inr [OF *(2)]
  have mine: "filter (\<lambda>q. TgApplication q = app) rows = map (\<lambda>n. \<lparr>TgApplication = app, TgHost = n, TgCreatedAt = now\<rparr>) names"
    by (simp add: rows o_def)
  show "ListApplicationTargets db' app = sort names"
    by (simp add: ListApplicationTargets_def *(3) mine sort_new_rows o_def)
  have "filter (\<lambda>q. TgApplication q = b) rows = filter (\<lambda>q. TgApplication q = b) (application_targets db)" if "b \<noteq> app"
    using that by (auto simp: rows o_def intro: filter_cong)
  then show "b \<noteq> app \<Longrightarrow> ListApplicationTargets db' b = ListApplicationTargets db b"
    by (simp add: ListApplicationTargets_def *(3))
  show "set names \<subseteq> HostName ` set (hosts db)" "hosts db' = hosts db" using *(1,3) by (auto simp: list_all_iff list_ex_iff)
qed

text \<open>Registering the targets of an application replaces them by known hosts, each once, and leaves those of the other
  applications alone; but they are read back in alphabetical order, not in the order they were given.\<close>

theorem targets_read_back_sorted:
  assumes "SetTargets app names now db = (Inr ts, db')"
  shows "ts = NormalizeTargets names \<and> Targets db' app = Inr (sort ts) \<and> set ts \<subseteq> HostName ` set (hosts db)
     \<and> (\<forall>b. ListApplicationTargets db' b = (if b = app then sort ts else ListApplicationTargets db b))"
proof -
  have "ValidateApplicationName app = None" "ts = NormalizeTargets names"
    and r: "ReplaceApplicationTargets db app (NormalizeTargets names) now = (None, db')"
    using assms by (auto simp: SetTargets_def split: option.splits if_splits prod.splits)
  then show ?thesis using Replace_Inr [OF r] by (simp add: Targets_def)
qed

definition two_hosts :: HostDb where
  "two_hosts = \<lparr>hosts = [new_host ''h1'' 1 ''canary'' ''10.0.0.2:9443'' [], new_host ''h2'' 2 ''big'' ''10.0.0.1:9443'' []],
     environments = [], application_targets = []\<rparr>"

theorem targets_read_back_sorted_witness:
  "case SetTargets ''web'' [''canary'', '' big'', ''canary''] 5 two_hosts of
     (Inr ts, db) \<Rightarrow> ts = [''canary'', ''big''] \<and> Targets db ''web'' = Inr [''big'', ''canary''] | _ \<Rightarrow> False"
proof -
  obtain db' where run: "SetTargets ''web'' [''canary'', '' big'', ''canary''] 5 two_hosts = (Inr [''canary'', ''big''], db')"
  proof -
    have "fst (SetTargets ''web'' [''canary'', '' big'', ''canary''] 5 two_hosts) = Inr [''canary'', ''big'']" by code_simp
    then show thesis using that by (cases "SetTargets ''web'' [''canary'', '' big'', ''canary''] 5 two_hosts") simp
  qed
  have "sort [''canary'', ''big''] = [''big'', ''canary'']" by code_simp
  then show ?thesis using targets_read_back_sorted [OF run] by (simp add: run)
qed

section \<open>All targets\<close>

lemma add_rows:
  "foldl add_row [] rows = [] \<longleftrightarrow> rows = []"
  "rows \<noteq> [] \<Longrightarrow> fst (last (foldl add_row [] rows)) = TgApplication (last rows)"
  by (induction rows rule: rev_induct) (auto simp: add_row_def)

text \<open>On rows in which equal applications are neighbours, the entries are the rows by application.\<close>

lemma add_rows_grouped:
  assumes "sorted (map TgApplication rows)"
  shows "sorted_wrt (<) (map fst (foldl add_row [] rows)) \<and> fst ` set (foldl add_row [] rows) = TgApplication ` set rows
     \<and> (\<forall>p \<in> set (foldl add_row [] rows). snd p = map TgHost (filter (\<lambda>q. TgApplication q = fst p) rows))"
  using assms
proof (induction rows rule: rev_induct)
  case (snoc q rows)
  define acc where "acc = foldl add_row [] rows"
  have srt: "sorted (map TgApplication rows)" "\<forall>r \<in> set rows. TgApplication r \<le> TgApplication q"
    using snoc.prems by (auto simp: sorted_append)
  note IH = snoc.IH [OF srt(1), folded acc_def]
  show ?case
  proof (cases "acc = [] \<or> fst (last acc) \<noteq> TgApplication q")
    case True
    have new: "\<forall>r \<in> set rows. TgApplication r < TgApplication q"
    proof (cases rows rule: rev_cases)
      case (snoc rows' l)
      then have "TgApplication l \<noteq> TgApplication q" using True add_rows [of rows] by (auto simp: acc_def)
      then have "TgApplication l < TgApplication q" using srt(2) snoc by auto
      moreover have "\<forall>r \<in> set rows'. TgApplication r \<le> TgApplication l" using srt(1) snoc by (auto simp: sorted_append)
      ultimately show ?thesis using snoc by (auto intro: le_less_trans)
    qed simp
    then have "\<forall>r \<in> set rows. TgApplication r \<noteq> TgApplication q" by auto
    moreover have "\<forall>a \<in> fst ` set acc. a < TgApplication q" using IH new by auto
    moreover have "(TgApplication q, b) \<notin> set acc" for b
    proof
      assume "(TgApplication q, b) \<in> set acc"
      then have "TgApplication q \<in> TgApplication ` set rows" using IH by force
      then show False using calculation(1) by auto
    qed
    moreover have "add_row acc q = acc @ [(TgApplication q, [TgHost q])]" using True by (auto simp: add_row_def)
    ultimately show ?thesis using IH by (auto simp: acc_def [symmetric] sorted_wrt_append filter_empty_conv)
  next
    case False
    then obtain pre a hs where acc: "acc = pre @ [(a, hs)]" "a = TgApplication q" by (cases acc rule: rev_cases) auto
    have pre: "\<forall>p \<in> set pre. fst p < a" using IH by (auto simp: acc(1) sorted_wrt_append)
    have "a \<in> fst ` set acc" by (simp add: acc(1))
    then have "a \<in> TgApplication ` set rows" using IH by blast
    moreover have "add_row acc q = pre @ [(a, hs @ [TgHost q])]" by (simp add: add_row_def acc)
    ultimately have step: "foldl add_row [] (rows @ [q]) = pre @ [(a, hs @ [TgHost q])]" "a \<in> TgApplication ` set rows"
      by (simp_all add: acc_def)
    let ?new = "pre @ [(a, hs @ [TgHost q])]"
    have keys: "map fst ?new = map fst acc" by (simp add: acc(1))
    have "fst ` set ?new = fst ` set acc" by (simp add: acc(1))
    also have "\<dots> = TgApplication ` set rows" using IH by blast
    also have "\<dots> = TgApplication ` set (rows @ [q])" using step(2) by (auto simp: acc(2))
    finally have apps: "fst ` set ?new = TgApplication ` set (rows @ [q])" .
    have "\<forall>p \<in> set pre. snd p = map TgHost (filter (\<lambda>r. TgApplication r = fst p) (rows @ [q]))"
      using IH pre by (auto simp: acc dest: less_imp_neq)
    moreover have "hs @ [TgHost q] = map TgHost (filter (\<lambda>r. TgApplication r = a) (rows @ [q]))"
      using IH by (simp add: acc)
    ultimately have "\<forall>p \<in> set ?new. snd p = map TgHost (filter (\<lambda>r. TgApplication r = fst p) (rows @ [q]))"
      by (auto simp del: filter_append map_append)
    then show ?thesis using IH apps by (simp only: step(1) keys)
  qed
qed simp

text \<open>The list of all targets is that of the single applications: each application with targets once, in
  alphabetical order, with the targets that are listed for it alone.\<close>

theorem all_targets_agree:
  "map fst (ListAllApplicationTargets db) = sorted_list_of_set (TgApplication ` set (application_targets db))
   \<and> (\<forall>(a, hs) \<in> set (ListAllApplicationTargets db). hs = ListApplicationTargets db a)"
proof -
  let ?rows = "sort_key (\<lambda>q. (TgApplication q, TgCreatedAt q, TgHost q)) (application_targets db)"
  have "sorted (map (\<lambda>q. (TgApplication q, TgCreatedAt q, TgHost q)) ?rows)" by simp
  then have "sorted (map TgApplication ?rows)"
    by (simp add: sorted_map less_eq_prod_def sorted_wrt_mono_rel [of _ _ "\<lambda>x y. TgApplication x \<le> TgApplication y"])
      (erule sorted_wrt_mono_rel [rotated], auto simp: less_eq_prod_def)
  note g = add_rows_grouped [OF this]
  have mine: "filter (\<lambda>q. TgApplication q = a) ?rows
      = sort_key (\<lambda>q. (TgCreatedAt q, TgHost q)) (filter (\<lambda>q. TgApplication q = a) (application_targets db))" for a
    by (simp add: filter_sort) (rule sort_key_iso, simp)
  let ?all = "foldl add_row [] ?rows"
  have "sorted (map fst ?all)" "distinct (map fst ?all)" using g unfolding strict_sorted_iff by simp_all
  then have "map fst ?all = sorted_list_of_set (set (map fst ?all))"
    by (rule sorted_list_of_set.idem_if_sorted_distinct [symmetric])
  also have "set (map fst ?all) = TgApplication ` set (application_targets db)" using g by simp
  finally have keys: "map fst ?all = sorted_list_of_set (TgApplication ` set (application_targets db))" .
  have "\<forall>p \<in> set ?all. snd p = ListApplicationTargets db (fst p)" using g by (simp add: ListApplicationTargets_def mine)
  then show ?thesis by (simp add: ListAllApplicationTargets_def keys case_prod_beta)
qed

definition three_targets :: HostDb where
  "three_targets = two_hosts\<lparr>application_targets := [\<lparr>TgApplication = ''web'', TgHost = ''big'', TgCreatedAt = 2\<rparr>,
     \<lparr>TgApplication = ''api'', TgHost = ''big'', TgCreatedAt = 3\<rparr>, \<lparr>TgApplication = ''web'', TgHost = ''canary'', TgCreatedAt = 1\<rparr>]\<rparr>"

theorem all_targets_agree_witness: "ListApplicationTargets three_targets ''web'' = [''canary'', ''big'']"
proof -
  have "ListAllApplicationTargets three_targets = [(''api'', [''big'']), (''web'', [''canary'', ''big''])]" by code_simp
  then have "(''web'', [''canary'', ''big'']) \<in> set (ListAllApplicationTargets three_targets)" by simp
  then have "[''canary'', ''big''] = ListApplicationTargets three_targets ''web''" using all_targets_agree [of three_targets] by fast
  then show ?thesis by (rule sym)
qed

section \<open>The local host\<close>

text \<open>A text with a byte that is no part of a white-space character is not blank.\<close>

lemma strip_prefixes_keeps: "\<forall>e \<in> set es. c \<notin> set e \<Longrightarrow> c \<in> set s \<Longrightarrow> c \<in> set (strip_prefixes es s)"
proof (induction es s rule: strip_prefixes.induct)
  case (1 es s)
  show ?case
  proof (cases "find (\<lambda>e. e \<noteq> [] \<and> prefix e s) es")
    case None
    then show ?thesis using 1 by (subst strip_prefixes.simps) simp
  next
    case (Some e)
    then obtain t where t: "s = e @ t" "e \<in> set es" by (auto simp: find_Some_iff prefix_def)
    then have "c \<in> set t" using 1(2,3) by auto
    then show ?thesis using 1(1) [OF Some] 1(2) t Some by (subst strip_prefixes.simps) simp
  qed
qed

lemma solid_byte: "solid c \<Longrightarrow> c \<in> set s \<Longrightarrow> \<not> blank s"
  using strip_prefixes_keeps [of "map rev space_encodings" c "rev (strip_prefixes space_encodings s)"]
    strip_prefixes_keeps [of space_encodings c s]
  by (auto simp: solid_def blank_def TrimSpace_def)

text \<open>A daemon that starts finds or creates the record of its own host, whatever the names in use, as long as the name
  derived from the fresh identifier is not; the second start changes nothing.\<close>

lemma local_host_once:
  assumes "i \<notin> HostID ` set (hosts db)" and "i \<notin> HostName ` set (hosts db)"
    and "localHostName \<notin> HostID ` set (hosts db)" and "localHostName @ ''-'' @ i \<notin> HostName ` set (hosts db)"
  shows "\<exists>h db'. EnsureLocalHost i now db = (Inr h, db') \<and> h \<in> set (hosts db') \<and> Address h = []
     \<and> EnsureLocalHost j later db' = (Inr h, db') \<and> (\<forall>q \<in> set (hosts db). q \<in> set (hosts db'))"
proof (cases "FindLocalHost db")
  case (Some h)
  have "h \<in> set (by_age (filter (\<lambda>q. Address q = []) (hosts db)))"
    using Some by (simp add: FindLocalHost_def split: list.splits)
  then have "h \<in> set (filter (\<lambda>q. Address q = []) (hosts db))" by (simp add: by_age_def)
  then show ?thesis using Some by (auto simp: EnsureLocalHost_def)
next
  case None
  have "set (by_age (filter (\<lambda>q. Address q = []) (hosts db))) = {}"
    using None by (auto simp: FindLocalHost_def split: list.splits)
  then have far: "filter (\<lambda>q. Address q = []) (hosts db) = []" by (simp add: by_age_def filter_empty_conv)
  let ?taken = "\<exists>q \<in> set (hosts db). HostName q = localHostName"
  have taken: "hostNameTaken db localHostName = Inr ?taken"
  proof (cases "find (\<lambda>q. HostID q = localHostName \<or> HostName q = localHostName) (hosts db)")
    case None
    then have "\<not> ?taken" by (auto simp: find_None_iff)
    then show ?thesis using None by (simp add: hostNameTaken_def Store_GetHost_def named_def found_def)
  next
    case (Some q)
    then have "q \<in> set (hosts db)" "HostID q = localHostName \<or> HostName q = localHostName" by (auto simp: find_Some_iff)
    moreover have "HostID q \<noteq> localHostName" using assms(3) \<open>q \<in> set (hosts db)\<close> by (metis image_eqI)
    ultimately have "HostName q = localHostName" by blast
    then show ?thesis using Some \<open>q \<in> set (hosts db)\<close> by (auto simp: hostNameTaken_def Store_GetHost_def named_def found_def)
  qed
  define h where "h = new_host i now (if ?taken then localHostName @ ''-'' @ i else localHostName) [] []"
  have "solid CHR ''l''" by code_simp
  then have "Host_Validate h = None"
    by (simp add: Host_Validate_def h_def new_host_def localHostName_def solid_byte [of "CHR ''l''"])
  moreover have "\<forall>q \<in> set (hosts db). HostID q \<noteq> i \<and> HostName q \<noteq> localHostName @ ''-'' @ i"
    using assms(1,4) by (metis image_eqI)
  ultimately have "Store_CreateHost db h = (None, db\<lparr>hosts := hosts db @ [h]\<rparr>)"
    by (auto simp: Store_CreateHost_def insert_named_def list_ex_iff h_def new_host_def)
  then have run: "EnsureLocalHost i now db = (Inr h, db\<lparr>hosts := hosts db @ [h]\<rparr>)"
    using None taken by (simp add: EnsureLocalHost_def Let_def h_def)
  have "Address h = []" by (simp add: h_def new_host_def)
  then have "FindLocalHost (db\<lparr>hosts := hosts db @ [h]\<rparr>) = Some h" using far by (simp add: FindLocalHost_def by_age_def)
  then show ?thesis using run \<open>Address h = []\<close> by (auto simp: EnsureLocalHost_def)
qed

end
