(* ===== verification/Unitfile.thy ===== *)
theory Unitfile
  imports Nginx UnixFs
begin

text \<open>
  The text of unit files and environment files (\<open>internal/adapters/runtime/unitfile/\<close>): escaping of
  arguments and values, the compatibility tier of a systemd version, the rendering of a unit, the
  detection of the version and the check of a Java interpreter.

  \<open>systemctl --version\<close> is a parameter. The list of degradations that comes with a rendered unit, a text
  for people, is left out. The readers \<open>split_args\<close> and \<open>read_env\<close> are the rules of systemd as the
  comments of the source state them.
\<close>

section \<open>Escaping\<close>

abbreviation (input) dq :: char where "dq \<equiv> CHR 0x22"
abbreviation (input) bs :: char where "bs \<equiv> CHR 0x5C"

definition escape_bytes :: "string \<Rightarrow> string" where
  "escape_bytes s = concat (map (\<lambda>c. if c = dq \<or> c = bs then [bs, c] else [c]) s)"

definition arg_special :: "char \<Rightarrow> bool" where
  "arg_special c \<longleftrightarrow> c \<in> set [CHR '' '', CHR 0x09, CHR 0x0A, CHR 0x0D, dq, CHR 0x27, bs]"

definition EscapeArg :: "string \<Rightarrow> string" where
  "EscapeArg arg =
     (if arg = [] then [dq, dq]
      else if \<not> list_ex arg_special arg then arg
      else dq # escape_bytes arg @ [dq])"

definition EscapeArgs :: "string list \<Rightarrow> string" where
  "EscapeArgs argv = Join CHR '' '' (map EscapeArg argv)"

definition EscapeEnvValue :: "string \<Rightarrow> string" where
  "EscapeEnvValue v = dq # escape_bytes v @ [dq]"

text \<open>The values are a map: an association list whose names are distinct.\<close>

definition RenderEnvFile :: "(string \<times> string) list \<Rightarrow> string" where
  "RenderEnvFile vals =
     concat (map (\<lambda>n. n @ ''='' @ EscapeEnvValue (the (map_of vals n)) @ nl) (sort (map fst vals)))"

definition HasNewline :: "string \<Rightarrow> bool" where
  "HasNewline v \<longleftrightarrow> CHR 0x0A \<in> set v \<or> CHR 0x0D \<in> set v"

section \<open>Tiers\<close>

datatype Tier = TierStrict | TierLegacy | TierOther string

definition MinSupportedSystemdVersion :: int where "MinSupportedSystemdVersion = 219"
definition TierStrictMinVersion :: int where "TierStrictMinVersion = 240"
definition RestartSec :: duration where "RestartSec = 5 * second"

fun tier_name :: "Tier \<Rightarrow> string" where
  "tier_name TierStrict = ''strict''"
| "tier_name TierLegacy = ''legacy''"
| "tier_name (TierOther s) = s"

definition TierFor :: "int \<Rightarrow> ErrorCode + Tier" where
  "TierFor v =
     (if TierStrictMinVersion \<le> v then Inr TierStrict
      else if MinSupportedSystemdVersion \<le> v then Inr TierLegacy
      else Inl CodeRuntimeUnsupport)"

definition Tier_Valid :: "Tier \<Rightarrow> bool" where
  "Tier_Valid t \<longleftrightarrow> t = TierStrict \<or> t = TierLegacy"

section \<open>Rendering\<close>

record Rendered =
  Content :: string
  RnTier :: Tier
  SystemdVersion :: int
  RnArgv :: "string list"

text \<open>The comments, as the UTF-8 bytes of the source.\<close>

definition unit_notice :: string where
  "unit_notice =
     [CHR 0x23, CHR 0x20, CHR 0xE6, CHR 0x9C, CHR 0xAC, CHR 0xE6, CHR 0x96, CHR 0x87, CHR 0xE4, CHR 0xBB,
      CHR 0xB6, CHR 0xE7, CHR 0x94, CHR 0xB1, CHR 0x20, CHR 0x6F, CHR 0x70, CHR 0x73, CHR 0x64, CHR 0x20,
      CHR 0xE7, CHR 0x94, CHR 0x9F, CHR 0xE6, CHR 0x88, CHR 0x90, CHR 0xEF, CHR 0xBC, CHR 0x8C, CHR 0xE8,
      CHR 0xAF, CHR 0xB7, CHR 0xE5, CHR 0x8B, CHR 0xBF, CHR 0xE6, CHR 0x89, CHR 0x8B, CHR 0xE5, CHR 0xB7,
      CHR 0xA5, CHR 0xE7, CHR 0xBC, CHR 0x96, CHR 0xE8, CHR 0xBE, CHR 0x91, CHR 0xEF, CHR 0xBC, CHR 0x9B,
      CHR 0xE4, CHR 0xB8, CHR 0x8B, CHR 0xE6, CHR 0xAC, CHR 0xA1, CHR 0x20, CHR 0x50, CHR 0x72, CHR 0x65,
      CHR 0x70, CHR 0x61, CHR 0x72, CHR 0x65, CHR 0x20, CHR 0xE4, CHR 0xBC, CHR 0x9A, CHR 0xE6, CHR 0x8C,
      CHR 0x89, CHR 0xE8, CHR 0xA7, CHR 0x84, CHR 0xE6, CHR 0xA0, CHR 0xBC, CHR 0x20, CHR 0x31, CHR 0x63,
      CHR 0x20, CHR 0xE7, CHR 0xAC, CHR 0xAC, CHR 0x20, CHR 0x36, CHR 0x20, CHR 0xE8, CHR 0x8A, CHR 0x82,
      CHR 0xE9, CHR 0x87, CHR 0x8D, CHR 0xE5, CHR 0x86, CHR 0x99, CHR 0xE3, CHR 0x80, CHR 0x82]"

definition version_note :: string where
  "version_note =
     [CHR 0x23, CHR 0x20, CHR 0x73, CHR 0x79, CHR 0x73, CHR 0x74, CHR 0x65, CHR 0x6D, CHR 0x64, CHR 0x20,
      CHR 0xE7, CHR 0x89, CHR 0x88, CHR 0xE6, CHR 0x9C, CHR 0xAC, CHR 0x3D]"

definition tier_note :: string where
  "tier_note =
     [CHR 0x20, CHR 0xE6, CHR 0xA1, CHR 0xA3, CHR 0xE4, CHR 0xBD, CHR 0x8D, CHR 0x3D]"

definition legacy_note1 :: string where
  "legacy_note1 =
     [CHR 0x23, CHR 0x20, CHR 0xE6, CHR 0xA1, CHR 0xA3, CHR 0xE4, CHR 0xBD, CHR 0x8D, CHR 0x20, CHR 0x6C,
      CHR 0x65, CHR 0x67, CHR 0x61, CHR 0x63, CHR 0x79, CHR 0xEF, CHR 0xBC, CHR 0x88, CHR 0x73, CHR 0x79,
      CHR 0x73, CHR 0x74, CHR 0x65, CHR 0x6D, CHR 0x64, CHR 0x20, CHR 0x32, CHR 0x31, CHR 0x39, CHR 0xEF,
      CHR 0xBD, CHR 0x9E, CHR 0x32, CHR 0x33, CHR 0x39, CHR 0xEF, CHR 0xBC, CHR 0x89, CHR 0xEF, CHR 0xBC,
      CHR 0x9A, CHR 0xE6, CHR 0x9C, CHR 0xAC, CHR 0xE6, CHR 0x9C, CHR 0xBA, CHR 0xE6, CHR 0x97, CHR 0xA0,
      CHR 0xE6, CHR 0xB3, CHR 0x95, CHR 0xE4, CHR 0xBD, CHR 0xBF, CHR 0xE7, CHR 0x94, CHR 0xA8, CHR 0x20,
      CHR 0x50, CHR 0x72, CHR 0x6F, CHR 0x74, CHR 0x65, CHR 0x63, CHR 0x74, CHR 0x53, CHR 0x79, CHR 0x73,
      CHR 0x74, CHR 0x65, CHR 0x6D, CHR 0x3D, CHR 0x73, CHR 0x74, CHR 0x72, CHR 0x69, CHR 0x63, CHR 0x74,
      CHR 0xE3, CHR 0x80, CHR 0x81]"

definition legacy_note2 :: string where
  "legacy_note2 =
     [CHR 0x23, CHR 0x20, CHR 0x52, CHR 0x65, CHR 0x61, CHR 0x64, CHR 0x57, CHR 0x72, CHR 0x69, CHR 0x74,
      CHR 0x65, CHR 0x50, CHR 0x61, CHR 0x74, CHR 0x68, CHR 0x73, CHR 0x3D, CHR 0x20, CHR 0xE4, CHR 0xB8,
      CHR 0x8E, CHR 0x20, CHR 0x53, CHR 0x74, CHR 0x61, CHR 0x6E, CHR 0x64, CHR 0x61, CHR 0x72, CHR 0x64,
      CHR 0x4F, CHR 0x75, CHR 0x74, CHR 0x70, CHR 0x75, CHR 0x74, CHR 0x3D, CHR 0x61, CHR 0x70, CHR 0x70,
      CHR 0x65, CHR 0x6E, CHR 0x64, CHR 0x3A, CHR 0xEF, CHR 0xBC, CHR 0x8C, CHR 0xE5, CHR 0x9B, CHR 0xA0,
      CHR 0xE6, CHR 0xAD, CHR 0xA4, CHR 0xE9, CHR 0x99, CHR 0x8D, CHR 0xE7, CHR 0xBA, CHR 0xA7, CHR 0xE4,
      CHR 0xB8, CHR 0xBA, CHR 0x20, CHR 0x50, CHR 0x72, CHR 0x6F, CHR 0x74, CHR 0x65, CHR 0x63, CHR 0x74,
      CHR 0x53, CHR 0x79, CHR 0x73, CHR 0x74, CHR 0x65, CHR 0x6D, CHR 0x3D, CHR 0x79, CHR 0x65, CHR 0x73,
      CHR 0xE3, CHR 0x80, CHR 0x81]"

definition legacy_note3 :: string where
  "legacy_note3 =
     [CHR 0x23, CHR 0x20, CHR 0x52, CHR 0x65, CHR 0x61, CHR 0x64, CHR 0x57, CHR 0x72, CHR 0x69, CHR 0x74,
      CHR 0x65, CHR 0x44, CHR 0x69, CHR 0x72, CHR 0x65, CHR 0x63, CHR 0x74, CHR 0x6F, CHR 0x72, CHR 0x69,
      CHR 0x65, CHR 0x73, CHR 0x3D, CHR 0x20, CHR 0xE4, CHR 0xB8, CHR 0x8E, CHR 0x20, CHR 0x6A, CHR 0x6F,
      CHR 0x75, CHR 0x72, CHR 0x6E, CHR 0x61, CHR 0x6C, CHR 0xE3, CHR 0x80, CHR 0x82, CHR 0xE8, CHR 0xAF,
      CHR 0xAD, CHR 0xE4, CHR 0xB9, CHR 0x89, CHR 0xE6, CHR 0x8D, CHR 0x9F, CHR 0xE5, CHR 0xA4, CHR 0xB1,
      CHR 0xEF, CHR 0xBC, CHR 0x9A, CHR 0xE6, CHR 0x97, CHR 0xA5, CHR 0xE5, CHR 0xBF, CHR 0x97, CHR 0xE4,
      CHR 0xB8, CHR 0x8D, CHR 0xE5, CHR 0x86, CHR 0x8D, CHR 0xE8, CHR 0xBF, CHR 0xBD, CHR 0xE5, CHR 0x8A,
      CHR 0xA0, CHR 0xE5, CHR 0x88, CHR 0xB0, CHR 0x20, CHR 0x3C, CHR 0x6C, CHR 0x6F, CHR 0x67, CHR 0x73,
      CHR 0x2E, CHR 0x64, CHR 0x69, CHR 0x72, CHR 0x65, CHR 0x63, CHR 0x74, CHR 0x6F, CHR 0x72, CHR 0x79,
      CHR 0x3E, CHR 0x2F, CHR 0x63, CHR 0x75, CHR 0x72, CHR 0x72, CHR 0x65, CHR 0x6E, CHR 0x74, CHR 0x2E,
      CHR 0x6C, CHR 0x6F, CHR 0x67, CHR 0xEF, CHR 0xBC, CHR 0x8C]"

definition legacy_note4 :: string where
  "legacy_note4 =
     [CHR 0x23, CHR 0x20, CHR 0xE6, CHR 0x8C, CHR 0x89, CHR 0x20, CHR 0x4F, CHR 0x70, CHR 0x65, CHR 0x72,
      CHR 0x61, CHR 0x74, CHR 0x69, CHR 0x6F, CHR 0x6E, CHR 0x20, CHR 0xE6, CHR 0x9F, CHR 0xA5, CHR 0xE6,
      CHR 0x97, CHR 0xA5, CHR 0xE5, CHR 0xBF, CHR 0x97, CHR 0xE9, CHR 0x9C, CHR 0x80, CHR 0xE8, CHR 0xA6,
      CHR 0x81, CHR 0xE8, CHR 0xB5, CHR 0xB0, CHR 0x20, CHR 0x6A, CHR 0x6F, CHR 0x75, CHR 0x72, CHR 0x6E,
      CHR 0x61, CHR 0x6C, CHR 0x63, CHR 0x74, CHR 0x6C, CHR 0xEF, CHR 0xBC, CHR 0x88, CHR 0x6F, CHR 0x70,
      CHR 0x73, CHR 0x64, CHR 0x20, CHR 0xE5, CHR 0xBD, CHR 0x93, CHR 0xE5, CHR 0x89, CHR 0x8D, CHR 0xE6,
      CHR 0x8C, CHR 0x89, CHR 0xE6, CHR 0x96, CHR 0x87, CHR 0xE4, CHR 0xBB, CHR 0xB6, CHR 0xE8, CHR 0xAF,
      CHR 0xBB, CHR 0xE6, CHR 0x97, CHR 0xA5, CHR 0xE5, CHR 0xBF, CHR 0x97, CHR 0xEF, CHR 0xBC, CHR 0x89,
      CHR 0xEF, CHR 0xBC, CHR 0x9B]"

definition legacy_note5 :: string where
  "legacy_note5 =
     [CHR 0x23, CHR 0x20, CHR 0x50, CHR 0x72, CHR 0x6F, CHR 0x74, CHR 0x65, CHR 0x63, CHR 0x74, CHR 0x53,
      CHR 0x79, CHR 0x73, CHR 0x74, CHR 0x65, CHR 0x6D, CHR 0x3D, CHR 0x79, CHR 0x65, CHR 0x73, CHR 0x20,
      CHR 0xE5, CHR 0x8F, CHR 0xAA, CHR 0xE4, CHR 0xBF, CHR 0x9D, CHR 0xE6, CHR 0x8A, CHR 0xA4, CHR 0x20,
      CHR 0x2F, CHR 0x75, CHR 0x73, CHR 0x72, CHR 0xEF, CHR 0xBC, CHR 0x8C, CHR 0xE6, CHR 0x9C, CHR 0xAA,
      CHR 0xE5, CHR 0xA3, CHR 0xB0, CHR 0xE6, CHR 0x98, CHR 0x8E, CHR 0xE7, CHR 0x9A, CHR 0x84, CHR 0x20,
      CHR 0x2F, CHR 0x76, CHR 0x61, CHR 0x72, CHR 0x20, CHR 0xE8, CHR 0xB7, CHR 0xAF, CHR 0xE5, CHR 0xBE,
      CHR 0x84, CHR 0xE4, CHR 0xBB, CHR 0x8D, CHR 0xE7, CHR 0x84, CHR 0xB6, CHR 0xE5, CHR 0x8F, CHR 0xAF,
      CHR 0xE5, CHR 0x86, CHR 0x99, CHR 0xEF, CHR 0xBC, CHR 0x9B]"

definition legacy_note6 :: string where
  "legacy_note6 =
     [CHR 0x23, CHR 0x20, CHR 0xE5, CHR 0x86, CHR 0x85, CHR 0xE5, CHR 0xAD, CHR 0x98, CHR 0xE4, CHR 0xB8,
      CHR 0x8A, CHR 0xE9, CHR 0x99, CHR 0x90, CHR 0xE7, CHR 0x94, CHR 0xA8, CHR 0x20, CHR 0x4D, CHR 0x65,
      CHR 0x6D, CHR 0x6F, CHR 0x72, CHR 0x79, CHR 0x4C, CHR 0x69, CHR 0x6D, CHR 0x69, CHR 0x74, CHR 0x3D,
      CHR 0x20, CHR 0xE8, CHR 0xA1, CHR 0xA8, CHR 0xE8, CHR 0xBE, CHR 0xBE, CHR 0xEF, CHR 0xBC, CHR 0x88,
      CHR 0xE5, CHR 0xAE, CHR 0x83, CHR 0xE4, CHR 0xB8, CHR 0x8E, CHR 0x20, CHR 0x4D, CHR 0x65, CHR 0x6D,
      CHR 0x6F, CHR 0x72, CHR 0x79, CHR 0x4D, CHR 0x61, CHR 0x78, CHR 0x3D, CHR 0x20, CHR 0xE5, CHR 0x90,
      CHR 0x8C, CHR 0xE4, CHR 0xB9, CHR 0x89, CHR 0xEF, CHR 0xBC, CHR 0x8C, CHR 0xE4, CHR 0xBD, CHR 0x86,
      CHR 0xE5, CHR 0x90, CHR 0x8E, CHR 0xE8, CHR 0x80, CHR 0x85, CHR 0x20, CHR 0x32, CHR 0x33, CHR 0x31,
      CHR 0x20, CHR 0xE6, CHR 0x89, CHR 0x8D, CHR 0xE5, CHR 0x87, CHR 0xBA, CHR 0xE7, CHR 0x8E, CHR 0xB0,
      CHR 0xE3, CHR 0x80, CHR 0x81]"

definition legacy_note7 :: string where
  "legacy_note7 =
     [CHR 0x23, CHR 0x20, CHR 0xE5, CHR 0x9C, CHR 0xA8, CHR 0x20, CHR 0x32, CHR 0x31, CHR 0x39, CHR 0x20,
      CHR 0xE4, CHR 0xB8, CHR 0x8A, CHR 0xE5, CHR 0x86, CHR 0x99, CHR 0xE5, CHR 0x87, CHR 0xBA, CHR 0xE5,
      CHR 0x8E, CHR 0xBB, CHR 0xE7, CHR 0xAD, CHR 0x89, CHR 0xE4, CHR 0xBA, CHR 0x8E, CHR 0xE6, CHR 0xB2,
      CHR 0xA1, CHR 0xE6, CHR 0x9C, CHR 0x89, CHR 0xE6, CHR 0x95, CHR 0x88, CHR 0xE6, CHR 0x9E, CHR 0x9C,
      CHR 0xEF, CHR 0xBC, CHR 0x89, CHR 0xE3, CHR 0x80, CHR 0x82]"

definition legacy_note8 :: string where
  "legacy_note8 =
     [CHR 0x23, CHR 0x20, CHR 0x6C, CHR 0x65, CHR 0x67, CHR 0x61, CHR 0x63, CHR 0x79, CHR 0x20, CHR 0xE6,
      CHR 0xA1, CHR 0xA3, CHR 0xE5, CHR 0xB7, CHR 0xB2, CHR 0xE5, CHR 0x9C, CHR 0xA8, CHR 0xE7, CHR 0x9C,
      CHR 0x9F, CHR 0xE5, CHR 0xAE, CHR 0x9E, CHR 0xE7, CHR 0x9A, CHR 0x84, CHR 0x20, CHR 0x73, CHR 0x79,
      CHR 0x73, CHR 0x74, CHR 0x65, CHR 0x6D, CHR 0x64, CHR 0x20, CHR 0x32, CHR 0x31, CHR 0x39, CHR 0x20,
      CHR 0xE4, CHR 0xB8, CHR 0x8A, CHR 0xE9, CHR 0xAA, CHR 0x8C, CHR 0xE8, CHR 0xAF, CHR 0x81, CHR 0xEF,
      CHR 0xBC, CHR 0x9B, CHR 0x32, CHR 0x33, CHR 0x32, CHR 0xEF, CHR 0xBD, CHR 0x9E, CHR 0x32, CHR 0x33,
      CHR 0x39, CHR 0x20, CHR 0xE9, CHR 0x82, CHR 0xA3, CHR 0xE4, CHR 0xB8, CHR 0x80, CHR 0xE6, CHR 0xAE,
      CHR 0xB5, CHR 0xE4, CHR 0xBB, CHR 0x8D, CHR 0xE6, CHR 0x9C, CHR 0xAA, CHR 0xE9, CHR 0xAA, CHR 0x8C,
      CHR 0xE8, CHR 0xAF, CHR 0x81, CHR 0xE3, CHR 0x80, CHR 0x82]"

definition slot_open :: string where
  "slot_open =
     [CHR 0xEF, CHR 0xBC, CHR 0x88, CHR 0xE6, CHR 0xA7, CHR 0xBD, CHR 0xE4, CHR 0xBD, CHR 0x8D, CHR 0x20]"


definition writeHeader :: "Tier \<Rightarrow> int \<Rightarrow> string list" where
  "writeHeader tier v =
     [unit_notice, version_note @ Itoa v @ tier_note @ tier_name tier]
     @ (if tier \<noteq> TierLegacy then []
        else [legacy_note1, legacy_note2, legacy_note3, legacy_note4, legacy_note5, legacy_note6, legacy_note7,
              legacy_note8])"

definition unit_unsafe :: "char \<Rightarrow> bool" where
  "unit_unsafe c \<longleftrightarrow> (of_char c :: nat) \<le> 32 \<or> c \<in> set [CHR 0x7F, dq, CHR 0x27, bs]"

definition checkRenderablePath :: "string \<Rightarrow> ErrorCode option" where
  "checkRenderablePath p = fail_if (p = [] \<or> list_ex unit_unsafe p) CodeManifestInvalid"

definition wholeSeconds :: "duration \<Rightarrow> ErrorCode + int" where
  "wholeSeconds d = (if d < 0 \<or> d mod second \<noteq> 0 then Inl CodeManifestInvalid else Inr (d div second))"

fun restart_name :: "RestartPolicy \<Rightarrow> string" where
  "restart_name RestartAlways = ''always''"
| "restart_name RestartOnFailure = ''on-failure''"
| "restart_name RestartNo = ''no''"
| "restart_name (RestartOther s) = s"

definition writable_paths :: "ApplicationSpec \<Rightarrow> Slot \<Rightarrow> string list" where
  "writable_paths s slot =
     [ExWorkingDirectory (SpExec s), LogsDirectory s, ReleaseRootDir (SpApplication s)]
     @ (if slot \<noteq> NoSlot then [SlotDir (SpApplication s) slot] else [])"

definition hardening :: "ApplicationSpec \<Rightarrow> Slot \<Rightarrow> Tier \<Rightarrow> string list" where
  "hardening s slot tier =
     (let dirs = Join CHR '' '' (writable_paths s slot);
          currentLog = PathJoin [LogsDirectory s, ''current.log'']
      in if tier = TierStrict then
           [''ProtectSystem=strict'', ''ProtectHome=true'', ''ReadWritePaths='' @ dirs,
            ''StandardOutput=append:'' @ currentLog, ''StandardError=append:'' @ currentLog]
         else if tier = TierLegacy then
           [''ProtectSystem=yes'', ''ProtectHome=true'', ''ReadWriteDirectories='' @ dirs,
            ''StandardOutput=journal'', ''StandardError=journal'']
         else [])"

text \<open>The lines written one after the other, each with a newline behind it.\<close>

definition service_lines :: "ApplicationSpec \<Rightarrow> Slot \<Rightarrow> Tier \<Rightarrow> string list \<Rightarrow> int \<Rightarrow> int \<Rightarrow> string list" where
  "service_lines s slot tier argv startSeconds stopSeconds =
     [[], ''[Service]'',
      ''Type=simple'',
      ''User='' @ RunUser (SpExec s),
      ''Group='' @ RunUser (SpExec s),
      ''WorkingDirectory='' @ ExWorkingDirectory (SpExec s),
      ''EnvironmentFile=-'' @ EnvFilePathFor (SpApplication s) slot,
      ''EnvironmentFile='' @ SecretsEnvFilePathFor (SpApplication s) slot,
      ''ExecStart='' @ EscapeArgs argv,
      ''Restart='' @ restart_name (RestPolicy (SpSystemd s)),
      ''RestartSec='' @ Itoa (RestartSec div second),
      ''TimeoutStartSec='' @ Itoa startSeconds,
      ''TimeoutStopSec='' @ Itoa stopSeconds]
     @ (if 0 < CPUQuotaPercent (SpResources s) then [''CPUQuota='' @ Itoa (CPUQuotaPercent (SpResources s)) @ ''%''] else [])
     @ (if 0 < MemoryMaxBytes (SpResources s) then
          [(if tier = TierLegacy then ''MemoryLimit'' else ''MemoryMax'') @ ''='' @ Itoa (MemoryMaxBytes (SpResources s))]
        else [])
     @ [''NoNewPrivileges=true'', ''PrivateTmp=true'']
     @ hardening s slot tier"

definition unit_lines :: "ApplicationSpec \<Rightarrow> Slot \<Rightarrow> Tier \<Rightarrow> int \<Rightarrow> string list \<Rightarrow> int \<Rightarrow> int \<Rightarrow> string list" where
  "unit_lines s slot tier v argv startSeconds stopSeconds =
     writeHeader tier v
     @ [[], ''[Unit]'',
        ''Description='' @ SpApplication s @ (if slot \<noteq> NoSlot then slot_open @ slot_name slot @ paren_close else []),
        ''After=network.target'', ''Wants=network.target'']
     @ service_lines s slot tier argv startSeconds stopSeconds
     @ [[], ''[Install]'', ''WantedBy=multi-user.target'']"

text \<open>The manifest is validated again, which fills in the defaults; \<open>None\<close> is no manifest.\<close>

definition RenderUnit :: "url_parser \<Rightarrow> ApplicationSpec option \<Rightarrow> Slot \<Rightarrow> Tier \<Rightarrow> int \<Rightarrow> ErrorCode + Rendered" where
  "RenderUnit urls spec slot tier v =
     (case spec of
        None \<Rightarrow> Inl CodeManifestInvalid
      | Some s0 \<Rightarrow>
      bind_res (TierFor v) (\<lambda>selected.
      if tier \<noteq> selected then Inl CodeManifestInvalid
      else bind_res (ApplicationSpec_Validate urls s0) (\<lambda>s.
      bind_res (ResolveArgv (SpApplication s) slot (ExArgv (SpExec s))) (\<lambda>argv.
      case first_err (map checkRenderablePath (writable_paths s slot)) of
        Some e \<Rightarrow> Inl e
      | None \<Rightarrow>
      bind_res (wholeSeconds (StartTimeout (SpHealth s))) (\<lambda>startSeconds.
      bind_res (wholeSeconds (StopTimeout (SpHealth s))) (\<lambda>stopSeconds.
        Inr \<lparr>Content = concat (map (\<lambda>l. l @ nl) (unit_lines s slot tier v argv startSeconds stopSeconds)),
             RnTier = tier, SystemdVersion = v, RnArgv = argv\<rparr>))))))"

definition RenderForVersion :: "url_parser \<Rightarrow> ApplicationSpec option \<Rightarrow> Slot \<Rightarrow> int \<Rightarrow> ErrorCode + Rendered" where
  "RenderForVersion urls spec slot v = bind_res (TierFor v) (\<lambda>tier. RenderUnit urls spec slot tier v)"

section \<open>The version\<close>

text \<open>\<open>strings.Fields\<close>: the parts between white space.\<close>

fun upto_space :: "string \<Rightarrow> string" where
  "upto_space [] = []"
| "upto_space (c # cs) = (if list_ex (\<lambda>e. prefix e (c # cs)) space_encodings then [] else c # upto_space cs)"

text \<open>The first two fields, and whether there is a second one.\<close>

definition two_fields :: "string \<Rightarrow> string \<times> string" where
  "two_fields line =
     (let rest = TrimSpace line; f = upto_space rest; rest' = TrimSpace (drop (length f) rest)
      in (f, upto_space rest'))"

definition ParseSystemctlVersion :: "string \<Rightarrow> ErrorCode + int" where
  "ParseSystemctlVersion output =
     (let (f0, f1) = two_fields (fst (Cut output CHR 0x0A))
      in if f1 = [] \<or> f0 \<noteq> ''systemd'' then Inl CodeRuntimeUnsupport
         else case Atoi f1 of None \<Rightarrow> Inl CodeRuntimeUnsupport | Some v \<Rightarrow> Inr v)"

definition SystemctlArgv :: "string list" where "SystemctlArgv = [''systemctl'', ''--version'']"

text \<open>The prober is the function that runs a command, \<open>None\<close> when there is none.\<close>

definition Detect :: "(string list \<Rightarrow> unit + string) option \<Rightarrow> ErrorCode + int" where
  "Detect prober =
     (case prober of
        None \<Rightarrow> Inl CodeInternal
      | Some run \<Rightarrow>
          (case run SystemctlArgv of
             Inl _ \<Rightarrow> Inl CodeRuntimeUnsupport
           | Inr stdout \<Rightarrow>
               bind_res (ParseSystemctlVersion stdout) (\<lambda>v. bind_res (TierFor v) (\<lambda>_. Inr v))))"

definition RenderForHost ::
    "url_parser \<Rightarrow> ApplicationSpec option \<Rightarrow> Slot \<Rightarrow> (string list \<Rightarrow> unit + string) option \<Rightarrow> ErrorCode + Rendered" where
  "RenderForHost urls spec slot prober = bind_res (Detect prober) (\<lambda>v. RenderForVersion urls spec slot v)"

section \<open>The interpreter\<close>

definition executable_node :: "Node \<Rightarrow> bool" where
  "executable_node n \<longleftrightarrow> kind n \<noteq> Dir \<and> (mode n mod 2 = 1 \<or> mode n div 8 mod 2 = 1 \<or> mode n div 64 mod 2 = 1)"

definition PreflightInterpreter :: "UFs \<Rightarrow> ApplicationSpec option \<Rightarrow> ErrorCode option" where
  "PreflightInterpreter fs spec =
     (case spec of
        None \<Rightarrow> None
      | Some s \<Rightarrow>
          (case ExArgv (SpExec s) of
             [] \<Rightarrow> None
           | interpreter # _ \<Rightarrow>
               if SpRuntime s \<noteq> RuntimeKindJava \<or> \<not> PathIsAbs interpreter then None
               else case ustat fs interpreter of
                 Inl _ \<Rightarrow> Some CodeManifestInvalid
               | Inr n \<Rightarrow> fail_if (\<not> executable_node n) CodeManifestInvalid))"

section \<open>The readers\<close>

text \<open>Arguments are separated by white space; one in double quotes runs to the closing quote, and a
  backslash in it stands for the character behind it, a quote or a backslash.\<close>

datatype reader = Between | Bare string | Quoted string | Escaped string | Closed string

fun read_args :: "reader \<Rightarrow> string \<Rightarrow> string list option" where
  "read_args Between [] = Some []"
| "read_args (Bare w) [] = Some [w]"
| "read_args (Closed w) [] = Some [w]"
| "read_args (Quoted w) [] = None"
| "read_args (Escaped w) [] = None"
| "read_args Between (c # cs) =
     (if c \<in> set [CHR '' '', CHR 0x09, CHR 0x0A, CHR 0x0D] then read_args Between cs
      else if c = dq then read_args (Quoted []) cs
      else if c = bs \<or> c = CHR 0x27 then None else read_args (Bare [c]) cs)"
| "read_args (Bare w) (c # cs) =
     (if c \<in> set [CHR '' '', CHR 0x09, CHR 0x0A, CHR 0x0D] then map_option (Cons w) (read_args Between cs)
      else if c \<in> set [dq, CHR 0x27, bs] then None else read_args (Bare (w @ [c])) cs)"
| "read_args (Quoted w) (c # cs) =
     (if c = dq then read_args (Closed w) cs else if c = bs then read_args (Escaped w) cs
      else read_args (Quoted (w @ [c])) cs)"
| "read_args (Escaped w) (c # cs) =
     (if c = dq \<or> c = bs then read_args (Quoted (w @ [c])) cs else None)"
| "read_args (Closed w) (c # cs) =
     (if c \<in> set [CHR '' '', CHR 0x09, CHR 0x0A, CHR 0x0D] then map_option (Cons w) (read_args Between cs) else None)"

definition split_args :: "string \<Rightarrow> string list option" where
  "split_args = read_args Between"

text \<open>Within the quotes of an environment file only a quote and a backslash are escaped.\<close>

fun unquote_env :: "string \<Rightarrow> string option" where
  "unquote_env [] = None"
| "unquote_env [c] = (if c = dq then Some [] else None)"
| "unquote_env (c # d # cs) =
     (if c = dq then None
      else if c = bs \<and> (d = dq \<or> d = bs) then map_option (Cons d) (unquote_env cs)
      else map_option (Cons c) (unquote_env (d # cs)))"

definition read_env_line :: "string \<Rightarrow> (string \<times> string) option" where
  "read_env_line l =
     (let n = takeWhile (\<lambda>c. c \<noteq> CHR ''='') l; rest = drop (length n) l
      in if take 2 rest = [CHR ''='', dq] then map_option (Pair n) (unquote_env (drop 2 rest)) else None)"

definition read_env :: "string \<Rightarrow> (string \<times> string) list option" where
  "read_env t = those (map read_env_line (filter (\<lambda>l. l \<noteq> []) (Split CHR 0x0A t)))"

text \<open>The directives of a unit in their order: what is before and what is behind the first \<open>=\<close> of a line
  that is neither empty nor a comment.\<close>

definition line_directives :: "string list \<Rightarrow> (string \<times> string) list" where
  "line_directives ls =
     map (\<lambda>l. (takeWhile (\<lambda>c. c \<noteq> CHR ''='') l, drop 1 (dropWhile (\<lambda>c. c \<noteq> CHR ''='') l)))
       (filter (\<lambda>l. l \<noteq> [] \<and> hd l \<noteq> CHR ''#'') ls)"

definition unit_directives :: "string \<Rightarrow> (string \<times> string) list" where
  "unit_directives t = line_directives (Split CHR 0x0A t)"

definition unit_keys :: "ApplicationSpec \<Rightarrow> Tier \<Rightarrow> string list" where
  "unit_keys s tier =
     [''[Unit]'', ''Description'', ''After'', ''Wants'', ''[Service]'', ''Type'', ''User'', ''Group'',
      ''WorkingDirectory'', ''EnvironmentFile'', ''EnvironmentFile'', ''ExecStart'', ''Restart'', ''RestartSec'',
      ''TimeoutStartSec'', ''TimeoutStopSec'']
     @ (if 0 < CPUQuotaPercent (SpResources s) then [''CPUQuota''] else [])
     @ (if 0 < MemoryMaxBytes (SpResources s) then [if tier = TierLegacy then ''MemoryLimit'' else ''MemoryMax''] else [])
     @ [''NoNewPrivileges'', ''PrivateTmp'', ''ProtectSystem'', ''ProtectHome'',
        if tier = TierLegacy then ''ReadWriteDirectories'' else ''ReadWritePaths'',
        ''StandardOutput'', ''StandardError'', ''[Install]'', ''WantedBy'']"

section \<open>What is written is read back\<close>

lemma escape_bytes_simps [simp]:
  "escape_bytes [] = []"
  "escape_bytes (c # cs) = (if c = dq \<or> c = bs then [bs, c] else [c]) @ escape_bytes cs"
  by (simp_all add: escape_bytes_def)

lemma read_quoted: "read_args (Quoted w) (escape_bytes s @ dq # rest) = read_args (Closed (w @ s)) rest"
  by (induction s arbitrary: w) auto

lemma read_bare: "\<not> list_ex arg_special s \<Longrightarrow> read_args (Bare w) (s @ rest) = read_args (Bare (w @ s)) rest"
  by (induction s arbitrary: w) (auto simp: arg_special_def)

lemma read_escaped:
  "read_args Between (EscapeArg a) = Some [a]"
  "read_args Between (EscapeArg a @ CHR '' '' # rest) = map_option (Cons a) (read_args Between rest)"
proof -
  have bare: "read_args Between (a @ rest') = read_args (Bare a) rest'" if "a \<noteq> []" "\<not> list_ex arg_special a" for rest'
    using that read_bare [of "tl a" "[hd a]" rest'] by (cases a) (auto simp: arg_special_def)
  show "read_args Between (EscapeArg a) = Some [a]"
    using read_quoted [of "[]" a "[]"] bare [of "[]"] by (auto simp: EscapeArg_def)
  show "read_args Between (EscapeArg a @ CHR '' '' # rest) = map_option (Cons a) (read_args Between rest)"
    using read_quoted [of "[]" a "CHR '' '' # rest"] bare [of "CHR '' '' # rest"] by (auto simp: EscapeArg_def)
qed

lemma split_escaped: "split_args (EscapeArgs argv) = Some argv"
  unfolding split_args_def EscapeArgs_def
proof (induction argv)
  case (Cons a argv)
  then show ?case by (cases argv) (simp_all add: read_escaped)
qed simp



lemma unquote_escape: "unquote_env (escape_bytes v @ [dq]) = Some v"
proof (induction v)
  case (Cons c v)
  then show ?case by (cases "escape_bytes v @ [dq]") auto
qed simp

lemma env_name_chars: "validEnvName n \<Longrightarrow> CHR ''='' \<notin> set n \<and> CHR 0x0A \<notin> set n \<and> n \<noteq> []"
  by (auto simp: validEnvName_def list_all_iff upper_def lower_def digit_def split: list.splits)

lemma escape_bytes_set: "set (escape_bytes v) \<subseteq> insert bs (set v)"
  by (induction v) auto

lemma read_env_line_escaped: "CHR ''='' \<notin> set n \<Longrightarrow> read_env_line (n @ ''='' @ EscapeEnvValue v) = Some (n, v)"
proof -
  assume n: "CHR ''='' \<notin> set n"
  have take_n: "takeWhile (\<lambda>c. c \<noteq> CHR ''='') (n @ CHR ''='' # r) = n" for r
    using n by (induction n) auto
  show ?thesis
    by (simp add: read_env_line_def EscapeEnvValue_def take_n unquote_escape Let_def numeral_2_eq_2)
qed

lemma Split_lines:
  "\<forall>l \<in> set ls. CHR 0x0A \<notin> set l \<Longrightarrow> Split CHR 0x0A (concat (map (\<lambda>l. l @ nl) ls)) = ls @ [[]]"
  by (induction ls) (simp_all add: nl_def Split_append)

text \<open>The environment file systemd reads back holds exactly the given values under their names, the
  names in order, when no value has a line break.\<close>

theorem env_file_roundtrip:
  assumes names: "\<forall>(n, v) \<in> set vals. validEnvName n \<and> \<not> HasNewline v" and "distinct (map fst vals)"
  shows "\<exists>entries. read_env (RenderEnvFile vals) = Some entries
    \<and> map fst entries = sort (map fst vals) \<and> map_of entries = map_of vals"
proof -
  let ?content = "\<lambda>n. the (map_of vals n)"
  let ?line = "\<lambda>n. n @ ''='' @ EscapeEnvValue (?content n)"
  let ?ns = "sort (map fst vals)"
  have ok: "validEnvName n \<and> \<not> HasNewline (?content n)" if "n \<in> set ?ns" for n
  proof -
    from that obtain v where "map_of vals n = Some v" by (metis list.set_map map_of_eq_None_iff not_None_eq set_sort)
    then show ?thesis using names map_of_SomeD [of vals n v] by auto
  qed
  have "CHR 0x0A \<notin> set (?line n)" if "n \<in> set ?ns" for n
    using ok [OF that] env_name_chars [of n] escape_bytes_set [of "?content n"]
    by (auto simp: EscapeEnvValue_def HasNewline_def)
  then have "\<forall>l \<in> set (map ?line ?ns). CHR 0x0A \<notin> set l" by auto
  from Split_lines [OF this] have "Split CHR 0x0A (RenderEnvFile vals) = map ?line ?ns @ [[]]"
    by (simp add: RenderEnvFile_def comp_def)
  then have "read_env (RenderEnvFile vals) = those (map read_env_line (map ?line ?ns))"
    by (simp add: read_env_def filter_id_conv del: append_Cons)
  also have "map read_env_line (map ?line ?ns) = map Some (map (\<lambda>n. (n, ?content n)) ?ns)"
    using ok env_name_chars by (auto simp: read_env_line_escaped simp del: append_Cons append_Nil)
  also have "those (map Some xs) = Some xs" for xs :: "(string \<times> string) list"
    by (induction xs) simp_all
  finally have "read_env (RenderEnvFile vals) = Some (map (\<lambda>n. (n, ?content n)) ?ns)" .
  moreover have "map fst (map (\<lambda>n. (n, ?content n)) ?ns) = ?ns" by (simp add: comp_def)
  moreover have "map_of (map (\<lambda>n. (n, ?content n)) ?ns) n = map_of vals n" for n
    using map_of_eq_None_iff [of vals n] by (cases "map_of vals n") (simp_all add: map_of_map_restrict restrict_map_def)
  ultimately show ?thesis by blast
qed

lemma Join_set: "p \<in> set ps \<Longrightarrow> set p \<subseteq> set (Join c ps)"
  by (induction c ps rule: Join.induct) auto

lemma Split_subset: "s \<in> set (Split c p) \<Longrightarrow> set s \<subseteq> set p"
  using Join_set [of s "Split c p" c] by simp

lemma Join_mem: "x \<in> set (Join c ps) \<Longrightarrow> x = c \<or> (\<exists>p \<in> set ps. x \<in> set p)"
  by (induction c ps rule: Join.induct) auto

lemma clean_segments_mem:
  "s \<in> set (fold (clean_segment r) segs stack) \<Longrightarrow> s \<in> set segs \<or> s \<in> set stack \<or> s = ''..''"
proof (induction segs arbitrary: stack)
  case (Cons seg segs)
  then have "s \<in> set segs \<or> s \<in> set (clean_segment r seg stack) \<or> s = ''..''" by simp
  then show ?case by (auto simp: clean_segment_def split: if_splits list.splits)
qed simp

lemma PathClean_mem: "x \<in> set (PathClean p) \<Longrightarrow> x \<in> set p \<or> x = CHR ''/'' \<or> x = CHR ''.''"
proof -
  assume x: "x \<in> set (PathClean p)"
  let ?segs = "\<lambda>r. rev (fold (clean_segment r) (Split CHR ''/'' p) [])"
  have "x \<in> set p \<or> x = CHR ''/'' \<or> x = CHR ''.''" if join: "x \<in> set (Join CHR ''/'' (?segs r))" for r
  proof (cases "x = CHR ''/''")
    case False
    then obtain s where s: "s \<in> set (?segs r)" "x \<in> set s" using Join_mem [OF join] by auto
    then show ?thesis
      using clean_segments_mem [of s r "Split CHR ''/'' p" "[]"] Split_subset [of s "CHR ''/''" p] by auto
  qed simp
  then show ?thesis using x unfolding PathClean_def by (auto simp: Let_def split: if_splits)
qed

lemma PathJoin_mem: "x \<in> set (PathJoin ps) \<Longrightarrow> x = CHR ''/'' \<or> x = CHR ''.'' \<or> (\<exists>p \<in> set ps. x \<in> set p)"
  using PathClean_mem [of x] Join_mem [of x]
  by (fastforce simp: PathJoin_def Let_def split: if_splits)


section \<open>The lines of a unit\<close>

lemma RenderUnit_Inr:
  "RenderUnit urls (Some s0) slot tier v = Inr r \<longleftrightarrow>
     TierFor v = Inr tier \<and> (\<exists>s argv start stop. ApplicationSpec_Validate urls s0 = Inr s
       \<and> ResolveArgv (SpApplication s) slot (ExArgv (SpExec s)) = Inr argv
       \<and> first_err (map checkRenderablePath (writable_paths s slot)) = None
       \<and> wholeSeconds (StartTimeout (SpHealth s)) = Inr start \<and> wholeSeconds (StopTimeout (SpHealth s)) = Inr stop
       \<and> r = \<lparr>Content = concat (map (\<lambda>l. l @ nl) (unit_lines s slot tier v argv start stop)),
              RnTier = tier, SystemdVersion = v, RnArgv = argv\<rparr>)"
  by (auto simp: RenderUnit_def bind_res_eq_Inr split: option.splits if_splits)

lemma TierFor_valid: "TierFor v = Inr tier \<Longrightarrow> tier = TierStrict \<or> tier = TierLegacy"
  by (auto simp: TierFor_def split: if_splits)

lemma app_name_chars: "applicationNamePattern a \<Longrightarrow> CHR 0x0A \<notin> set a"
  by (auto simp: applicationNamePattern_def pattern_def list_all_iff alnum_def upper_def lower_def digit_def split: list.splits)

lemma run_user_chars: "runUserPattern a \<Longrightarrow> CHR 0x0A \<notin> set a"
  by (auto simp: runUserPattern_def pattern_def list_all_iff lower_def digit_def split: list.splits)

lemma renderable_chars: "checkRenderablePath p = None \<Longrightarrow> CHR 0x0A \<notin> set p"
proof
  assume "checkRenderablePath p = None" "CHR 0x0A \<in> set p"
  moreover have "unit_unsafe CHR 0x0A" by (simp add: unit_unsafe_def)
  ultimately show False by (auto simp: checkRenderablePath_def list_ex_iff)
qed

lemma EscapeArgs_chars: "\<forall>a \<in> set argv. CHR 0x0A \<notin> set a \<Longrightarrow> CHR 0x0A \<notin> set (EscapeArgs argv)"
proof -
  assume *: "\<forall>a \<in> set argv. CHR 0x0A \<notin> set a"
  have "CHR 0x0A \<notin> set (EscapeArg a)" if "CHR 0x0A \<notin> set a" for a
    using that escape_bytes_set [of a] by (auto simp: EscapeArg_def)
  then show ?thesis using * Join_mem [of "CHR 0x0A" "CHR '' ''" "map EscapeArg argv"] by (auto simp: EscapeArgs_def)
qed

lemma Itoa_chars [simp]: "CHR 0x0A \<notin> set (Itoa i)" "CHR ''='' \<notin> set (Itoa i)"
  by (simp_all add: Itoa_plain digit_val_def)

lemma slot_name_chars: "slot = NoSlot \<or> Slot_Valid slot \<Longrightarrow> CHR 0x0A \<notin> set (slot_name slot)"
  by (auto simp: Slot_Valid_def)

lemma app_paths_chars:
  assumes "CHR 0x0A \<notin> set app" and "CHR 0x0A \<notin> set (slot_name slot)"
  shows "CHR 0x0A \<notin> set (EnvFilePathFor app slot)" "CHR 0x0A \<notin> set (SecretsEnvFilePathFor app slot)"
    "CHR 0x0A \<notin> set (SlotCurrentDir app slot)" "CHR 0x0A \<notin> set (CurrentReleaseDir app)"
proof -
  have join: "CHR 0x0A \<notin> set (PathJoin ps)" if "\<forall>p \<in> set ps. CHR 0x0A \<notin> set p" for ps
    using that PathJoin_mem [of "CHR 0x0A" ps] by auto
  have dir: "CHR 0x0A \<notin> set (PathDir p)" if "CHR 0x0A \<notin> set p" for p
    using that PathClean_mem [of "CHR 0x0A" "rev (dropWhile (\<lambda>c. c \<noteq> CHR ''/'') (rev p))"] set_dropWhileD [of "CHR 0x0A" _ "rev p"]
    by (auto simp: PathDir_def)
  show "CHR 0x0A \<notin> set (EnvFilePathFor app slot)" "CHR 0x0A \<notin> set (SecretsEnvFilePathFor app slot)"
    "CHR 0x0A \<notin> set (SlotCurrentDir app slot)" "CHR 0x0A \<notin> set (CurrentReleaseDir app)"
    using assms
    by (simp_all add: EnvFilePathFor_def SecretsEnvFilePathFor_def EnvFilePath_def SecretsEnvFilePath_def
        SlotEnvFilePath_def SlotSecretsEnvFilePath_def SlotCurrentDir_def SlotDir_def CurrentReleaseDir_def
        ReleaseRootDir_def ReleaseDir_def apps_etc_def apps_opt_def join dir)
qed

lemma ResolveArgv_chars:
  assumes "ResolveArgv app slot argv = Inr argv'" and "CHR 0x0A \<notin> set app" and "CHR 0x0A \<notin> set (slot_name slot)"
    and "\<forall>a \<in> set argv. CHR 0x0A \<notin> set a"
  shows "\<forall>a \<in> set argv'. CHR 0x0A \<notin> set a"
  using assms PathJoin_mem [of "CHR 0x0A"] app_paths_chars [OF assms(2,3)]
  by (fastforce simp: ResolveArgv_def Let_def split: list.splits if_splits)

lemma header_chars: "\<forall>l \<in> set [unit_notice, version_note, tier_note, legacy_note1, legacy_note2, legacy_note3, legacy_note4,
    legacy_note5, legacy_note6, legacy_note7, legacy_note8, slot_open, paren_close]. CHR 0x0A \<notin> set l"
  by code_simp

lemma comment_marks:
  "hd unit_notice = CHR ''#''" "hd version_note = CHR ''#''" "hd legacy_note1 = CHR ''#''" "hd legacy_note2 = CHR ''#''"
  "hd legacy_note3 = CHR ''#''" "hd legacy_note4 = CHR ''#''" "hd legacy_note5 = CHR ''#''" "hd legacy_note6 = CHR ''#''"
  "hd legacy_note7 = CHR ''#''" "hd legacy_note8 = CHR ''#''" "version_note \<noteq> []"
  by (simp_all add: unit_notice_def version_note_def legacy_note1_def legacy_note2_def legacy_note3_def legacy_note4_def
      legacy_note5_def legacy_note6_def legacy_note7_def legacy_note8_def)

lemma unit_lines_chars:
  assumes app: "CHR 0x0A \<notin> set (SpApplication s)" and slot: "CHR 0x0A \<notin> set (slot_name slot)"
    and user: "CHR 0x0A \<notin> set (RunUser (SpExec s))" and paths: "\<forall>p \<in> set (writable_paths s slot). CHR 0x0A \<notin> set p"
    and argv: "\<forall>a \<in> set argv. CHR 0x0A \<notin> set a" and policy: "CHR 0x0A \<notin> set (restart_name (RestPolicy (SpSystemd s)))"
    and tier: "tier = TierStrict \<or> tier = TierLegacy"
  shows "\<forall>l \<in> set (unit_lines s slot tier v argv start stop). CHR 0x0A \<notin> set l"
proof -
  have "\<forall>l \<in> set (writeHeader tier v). CHR 0x0A \<notin> set l"
    using header_chars tier by (auto simp: writeHeader_def)
  moreover have "CHR 0x0A \<notin> set (Join CHR '' '' (writable_paths s slot))"
    using paths Join_mem [of "CHR 0x0A" "CHR '' ''"] by fastforce
  moreover have "CHR 0x0A \<notin> set (PathJoin [LogsDirectory s, ''current.log''])" "CHR 0x0A \<notin> set (ExWorkingDirectory (SpExec s))"
    using paths PathJoin_mem [of "CHR 0x0A" "[LogsDirectory s, ''current.log'']"] by (auto simp: writable_paths_def)
  ultimately show ?thesis
    using app user policy slot header_chars app_paths_chars(1,2) [OF app slot] EscapeArgs_chars [OF argv]
    unfolding list_all_iff [symmetric] unit_lines_def service_lines_def hardening_def Let_def
    by (simp del: append.simps)
qed


lemma line_directives_simps:
  "line_directives [] = []"
  "line_directives (l # ls) =
     (if l = [] \<or> hd l = CHR ''#'' then [] else [(takeWhile (\<lambda>c. c \<noteq> CHR ''='') l, drop 1 (dropWhile (\<lambda>c. c \<noteq> CHR ''='') l))])
     @ line_directives ls"
  "line_directives (ls @ ms) = line_directives ls @ line_directives ms"
  "line_directives (if b then ls else []) = (if b then line_directives ls else [])"
  by (simp_all add: line_directives_def)

lemma header_dropped: "line_directives (writeHeader tier v) = []"
  using comment_marks by (simp add: writeHeader_def line_directives_def)

lemma hardening_directives:
  "tier = TierStrict \<or> tier = TierLegacy \<Longrightarrow> map fst (line_directives (hardening s slot tier)) =
     [''ProtectSystem'', ''ProtectHome'', if tier = TierLegacy then ''ReadWriteDirectories'' else ''ReadWritePaths'',
      ''StandardOutput'', ''StandardError'']"
  by (elim disjE; simp add: hardening_def line_directives_simps Let_def)

lemma service_directives:
  "tier = TierStrict \<or> tier = TierLegacy \<Longrightarrow> line_directives (service_lines s slot tier argv start stop) =
     [(''[Service]'', []), (''Type'', ''simple''), (''User'', RunUser (SpExec s)), (''Group'', RunUser (SpExec s)),
      (''WorkingDirectory'', ExWorkingDirectory (SpExec s)),
      (''EnvironmentFile'', ''-'' @ EnvFilePathFor (SpApplication s) slot),
      (''EnvironmentFile'', SecretsEnvFilePathFor (SpApplication s) slot), (''ExecStart'', EscapeArgs argv),
      (''Restart'', restart_name (RestPolicy (SpSystemd s))), (''RestartSec'', Itoa (RestartSec div second)),
      (''TimeoutStartSec'', Itoa start), (''TimeoutStopSec'', Itoa stop)]
     @ (if 0 < CPUQuotaPercent (SpResources s) then [(''CPUQuota'', Itoa (CPUQuotaPercent (SpResources s)) @ ''%'')] else [])
     @ (if 0 < MemoryMaxBytes (SpResources s) then
          [(if tier = TierLegacy then ''MemoryLimit'' else ''MemoryMax'', Itoa (MemoryMaxBytes (SpResources s)))] else [])
     @ [(''NoNewPrivileges'', ''true''), (''PrivateTmp'', ''true'')]
     @ line_directives (hardening s slot tier)"
  unfolding service_lines_def line_directives_simps by simp

lemma lines_directives:
  assumes "tier = TierStrict \<or> tier = TierLegacy"
    and "\<forall>l \<in> set (unit_lines s slot tier v argv start stop). CHR 0x0A \<notin> set l"
  defines "ds \<equiv> unit_directives (concat (map (\<lambda>l. l @ nl) (unit_lines s slot tier v argv start stop)))"
  shows "map fst ds = unit_keys s tier" "map_of ds ''User'' = Some (RunUser (SpExec s))"
    "map_of ds ''ExecStart'' = Some (EscapeArgs argv)"
proof -
  have ds: "ds = line_directives (unit_lines s slot tier v argv start stop)"
    unfolding ds_def unit_directives_def Split_lines [OF assms(2)] by (simp add: line_directives_simps)
  have "line_directives (unit_lines s slot tier v argv start stop) =
      [(''[Unit]'', []), (''Description'', SpApplication s @ (if slot \<noteq> NoSlot then slot_open @ slot_name slot @ paren_close else [])),
       (''After'', ''network.target''), (''Wants'', ''network.target'')]
      @ line_directives (service_lines s slot tier argv start stop)
      @ [(''[Install]'', []), (''WantedBy'', ''multi-user.target'')]"
    unfolding unit_lines_def line_directives_simps header_dropped by simp
  then show "map fst ds = unit_keys s tier" "map_of ds ''User'' = Some (RunUser (SpExec s))"
    "map_of ds ''ExecStart'' = Some (EscapeArgs argv)"
    unfolding ds service_directives [OF assms(1)]
    by (simp_all add: hardening_directives [OF assms(1)] unit_keys_def)
qed

lemma accepted_restart:
  assumes "ApplicationSpec_Validate urls s0 = Inr s" and "RestartPolicy_known (RestPolicy (SpSystemd s0))"
  shows "CHR 0x0A \<notin> set (restart_name (RestPolicy (SpSystemd s)))"
  using assms unfolding Validate_Inr by (auto simp: default_systemd_def Let_def RestartPolicy_known_def)


text \<open>Two manifests that render.\<close>

definition renders :: "ApplicationSpec \<Rightarrow> Slot \<Rightarrow> bool" where
  "renders s slot \<longleftrightarrow> \<not> isl (ResolveArgv (SpApplication s) slot (ExArgv (SpExec s)))
     \<and> first_err (map checkRenderablePath (writable_paths s slot)) = None
     \<and> \<not> isl (wholeSeconds (StartTimeout (SpHealth s))) \<and> \<not> isl (wholeSeconds (StopTimeout (SpHealth s)))"

lemma renders_Inr:
  assumes "ApplicationSpec_Validate urls s0 = Inr s" and "TierFor v = Inr tier" and "renders s slot"
  shows "\<exists>r. RenderUnit urls (Some s0) slot tier v = Inr r"
  using assms unfolding RenderUnit_Inr renders_def
  by (auto simp: isl_def split: sum.splits) (metis old.sum.exhaust)+

lemma sample_single_renders: "\<exists>r. RenderUnit (\<lambda>_. None) (Some sample_single) NoSlot TierStrict 255 = Inr r"
proof -
  have "case ApplicationSpec_Validate (\<lambda>_. None) sample_single of Inl _ \<Rightarrow> False | Inr s \<Rightarrow> renders s NoSlot" by code_simp
  moreover have "TierFor 255 = Inr TierStrict" by code_simp
  ultimately show ?thesis by (cases "ApplicationSpec_Validate (\<lambda>_. None) sample_single") (simp_all add: renders_Inr)
qed

lemma sample_blue_green_renders: "\<exists>r. RenderUnit (\<lambda>_. None) (Some sample_blue_green) SlotBlue TierLegacy 219 = Inr r"
proof -
  have "case ApplicationSpec_Validate (\<lambda>_. None) sample_blue_green of Inl _ \<Rightarrow> False | Inr s \<Rightarrow> renders s SlotBlue" by code_simp
  moreover have "TierFor 219 = Inr TierLegacy" by code_simp
  ultimately show ?thesis by (cases "ApplicationSpec_Validate (\<lambda>_. None) sample_blue_green") (simp_all add: renders_Inr)
qed


theorem env_file_roundtrip_witness:
  "\<exists>entries. read_env (RenderEnvFile [(''PORT'', ''80''), (''KEY'', [dq, CHR ''a'', bs])]) = Some entries
     \<and> map fst entries = [''KEY'', ''PORT''] \<and> map_of entries ''KEY'' = Some [dq, CHR ''a'', bs]"
proof -
  let ?vals = "[(''PORT'', ''80''), (''KEY'', [dq, CHR ''a'', bs])]"
  have "list_all (\<lambda>(n, v). validEnvName n \<and> \<not> HasNewline v) ?vals \<and> distinct (map fst ?vals)
      \<and> sort (map fst ?vals) = [''KEY'', ''PORT'']" by code_simp
  then show ?thesis using env_file_roundtrip [of ?vals] by (auto simp: list_all_iff)
qed

text \<open>But nothing forbids a line break in an argument, and within the quotes of an argument it is written
  as it is: any lines without quotes and backslashes become lines of the unit.\<close>

lemma validate_argv:
  assumes "SpecExec_validate urls e = None" and "x \<noteq> []"
  shows "SpecExec_validate urls (e\<lparr>ExArgv := ExArgv e @ [x]\<rparr>) = None"
proof -
  let ?e = "e\<lparr>ExArgv := ExArgv e @ [x]\<rparr>"
  have same: "slot_spec ?e = slot_spec e" "check_slot_env ?e = check_slot_env e" "check_app_secret ?e = check_app_secret e"
    by (rule ext, simp add: slot_spec_def check_slot_env_def check_app_secret_def)+
  have "check_slots urls ?e seen slots = check_slots urls e seen slots" for seen slots
    by (induction slots arbitrary: seen) (simp_all add: same Let_def cong: if_cong split: sum.split option.split)
  then show ?thesis
    using assms by (simp add: SpecExec_validate_def first_err_Cons_None validateSlots_def same split: if_splits)
qed

lemma Split_inside: "set (Split CHR 0x0A ls) \<subseteq> set (Split CHR 0x0A (a @ nl @ ls @ nl @ b))"
  by (auto simp: nl_def Split_append_slash)

lemma line_break_injects:
  assumes "RenderUnit urls (Some s) slot tier v = Inr r" and "dq \<notin> set ls" "bs \<notin> set ls"
  shows "\<exists>r'. RenderUnit urls (Some (s\<lparr>SpExec := (SpExec s)\<lparr>ExArgv := ExArgv (SpExec s) @ [nl @ ls @ nl]\<rparr>\<rparr>)) slot tier v = Inr r'
    \<and> set (Split CHR 0x0A ls) \<subseteq> set (Split CHR 0x0A (Content r'))"
proof -
  let ?x = "nl @ ls @ nl"
  let ?arg = "\<lambda>s. s\<lparr>SpExec := (SpExec s)\<lparr>ExArgv := ExArgv (SpExec s) @ [?x]\<rparr>\<rparr>"
  from assms(1) obtain s1 cmd start stop where s1: "ApplicationSpec_Validate urls s = Inr s1"
    and cmd: "ResolveArgv (SpApplication s1) slot (ExArgv (SpExec s1)) = Inr cmd"
    and paths: "first_err (map checkRenderablePath (writable_paths s1 slot)) = None"
    and secs: "wholeSeconds (StartTimeout (SpHealth s1)) = Inr start" "wholeSeconds (StopTimeout (SpHealth s1)) = Inr stop"
    and tier: "TierFor v = Inr tier"
    unfolding RenderUnit_Inr by auto
  have argv: "ExArgv (SpExec s1) \<noteq> []"
    using s1 unfolding Validate_Inr by (auto simp: SpecExec_validate_def first_err_Cons_None)
  have "validateBlueGreen (?arg s) = validateBlueGreen s" "SpecNginx_validate n (?arg s) = SpecNginx_validate n s"
    "BlueGreen (?arg s) = BlueGreen s" for n
    by (simp_all add: validateBlueGreen_def BlueGreen_def SpecNginx_validate_def)
  note same = this
  from s1 obtain a k where a: "SpecArtifact_validate (SpArtifact s) = Inr a" "SpecRelease_validate (KeepLast s) = Inr k"
    and s1_eq: "s1 = applyDefaults (s\<lparr>SpArtifact := a, KeepLast := k\<rparr>)"
    unfolding Validate_Inr by blast
  have "?arg s1 = applyDefaults ((?arg s)\<lparr>SpArtifact := a, KeepLast := k\<rparr>)"
    unfolding s1_eq by (simp add: applyDefaults_def fill_slots_def default_systemd_def BlueGreen_def Let_def)
  moreover have "SpecExec_validate urls (SpExec (?arg s)) = None"
    using s1 validate_argv [of urls "SpExec s" ?x] unfolding Validate_Inr by (simp add: nl_def)
  ultimately have s2: "ApplicationSpec_Validate urls (?arg s) = Inr (?arg s1)"
    using s1 a unfolding Validate_Inr same by simp
  have cmd2: "ResolveArgv (SpApplication s1) slot (ExArgv (SpExec s1) @ [?x]) = Inr (cmd @ [?x])"
    using cmd argv by (auto simp: ResolveArgv_def Let_def split: list.splits if_splits)
  let ?lines = "unit_lines (?arg s1) slot tier v (cmd @ [?x]) start stop"
  let ?r = "\<lparr>Content = concat (map (\<lambda>l. l @ nl) ?lines), RnTier = tier, SystemdVersion = v, RnArgv = cmd @ [?x]\<rparr>"
  have "writable_paths (?arg s1) slot = writable_paths s1 slot" by (simp add: writable_paths_def)
  then have "RenderUnit urls (Some (?arg s)) slot tier v = Inr ?r"
    unfolding RenderUnit_Inr using s2 cmd2 paths secs tier by simp
  moreover have "set (Split CHR 0x0A ls) \<subseteq> set (Split CHR 0x0A (Content ?r))"
  proof -
    have "escape_bytes ls = ls" using assms(2,3) by (induction ls) auto
    then have "escape_bytes ?x = nl @ ls @ nl" by (simp add: escape_bytes_def nl_def)
    then have "EscapeArg ?x = dq # nl @ ls @ nl @ [dq]" by (simp add: EscapeArg_def nl_def arg_special_def)
    moreover have "\<exists>p. EscapeArgs (cmd @ [?x]) = p @ EscapeArg ?x" unfolding EscapeArgs_def
    proof (induction cmd)
      case (Cons c cmd)
      then obtain p where "Join CHR '' '' (map EscapeArg (cmd @ [?x])) = p @ EscapeArg ?x" by blast
      then have "Join CHR '' '' (map EscapeArg ((c # cmd) @ [?x])) = (EscapeArg c @ CHR '' '' # p) @ EscapeArg ?x"
        by (simp add: Join_Cons)
      then show ?case by blast
    qed simp
    ultimately obtain p where p: "EscapeArgs (cmd @ [?x]) = p @ dq # nl @ ls @ nl @ [dq]" by auto
    obtain pre post where "?lines = pre @ (''ExecStart='' @ EscapeArgs (cmd @ [?x])) # post"
    proof -
      have "''ExecStart='' @ EscapeArgs (cmd @ [?x]) \<in> set ?lines"
        unfolding unit_lines_def service_lines_def by (simp only: set_append list.set Un_iff insert_iff simp_thms)
      then show ?thesis using that split_list by fast
    qed
    then have "Content ?r = (concat (map (\<lambda>l. l @ nl) pre) @ ''ExecStart='' @ p @ [dq]) @ nl @ ls @ nl
        @ ([dq] @ nl @ concat (map (\<lambda>l. l @ nl) post))"
      using p by (simp only: map_append list.map concat.simps concat_append append.assoc append.simps Rendered.simps)
    then show ?thesis by (simp only: Split_inside)
  qed
  ultimately show ?thesis by blast
qed


text \<open>C32 Whatever manifest renders, one more argument with a line break still renders and puts any lines it
  likes into the unit, also a second \<open>User\<close> and a second \<open>ExecStart\<close>: the check that keeps line breaks out of
  paths, as the boundary against such manifests, has no counterpart for the arguments.\<close>

theorem unit_injection:
  assumes "RenderUnit urls (Some s) slot tier v = Inr r" and "dq \<notin> set ls" and "bs \<notin> set ls"
  shows "\<exists>argument r'. RenderUnit urls (Some (s\<lparr>SpExec := (SpExec s)\<lparr>ExArgv := ExArgv (SpExec s) @ [argument]\<rparr>\<rparr>)) slot tier v = Inr r'
    \<and> set (Split CHR 0x0A ls) \<subseteq> set (Split CHR 0x0A (Content r'))"
  using line_break_injects [OF assms] by blast

theorem unit_injection_witness:
  "\<exists>argument r'. RenderUnit (\<lambda>_. None) (Some (sample_blue_green\<lparr>SpExec := (SpExec sample_blue_green)\<lparr>ExArgv :=
       ExArgv (SpExec sample_blue_green) @ [argument]\<rparr>\<rparr>)) SlotBlue TierLegacy 219 = Inr r'
     \<and> ''User=root'' \<in> set (Split CHR 0x0A (Content r'))"
proof -
  obtain r where "RenderUnit (\<lambda>_. None) (Some sample_blue_green) SlotBlue TierLegacy 219 = Inr r"
    using sample_blue_green_renders by blast
  moreover have "dq \<notin> set ''User=root''" "bs \<notin> set ''User=root''" "''User=root'' \<in> set (Split CHR 0x0A ''User=root'')"
    by simp_all
  ultimately show ?thesis using unit_injection [of "\<lambda>_. None" sample_blue_green SlotBlue TierLegacy 219 r "''User=root''"] by blast
qed

end
