(* ===== verification/Execution.thy ===== *)
theory Execution
  imports CommandSpec UnixFs
begin

text \<open>
  Running commands (\<open>internal/adapters/executor/executor.go\<close>): what may be run, the environment, bounded
  capture of the output, streams, and how the end of a process becomes a result and an error code.

  The process is a parameter: given the command it says in which pieces it writes, how it ends, how long
  it runs, whether the caller's context was cancelled or the deadline passed by then, and whether its
  input was read to the end. A writer of the caller is a function on its own state; it either takes a
  piece or fails with an error, which carries a code or not.
\<close>

section \<open>Processes and streams\<close>

datatype stream_error = CodedFailure ErrorCode | PlainFailure

datatype run_end = Exited int | ExecForbidden | ExecFailed

record Command =
  CmArgv :: "string list"
  CmDir :: string
  CmEnv :: "string list"
  CmStdin :: "string option"
  CmTimeout :: duration

record Run =
  RunStdout :: "string list"
  RunStderr :: "string list"
  RunEnd :: run_end
  RunElapsed :: duration
  ContextCancelled :: bool
  DeadlineExceeded :: bool
  StdinDrained :: bool

type_synonym process = "Command \<Rightarrow> Run"
type_synonym 'w sink = "string \<Rightarrow> 'w \<Rightarrow> stream_error option \<times> 'w"
type_synonym source = "string \<times> stream_error option"

record ExecResult =
  XrExitCode :: int
  XrStdout :: string
  XrStderr :: string
  XrTruncated :: bool
  XrDurationMS :: int
  XrExecuted :: bool

definition no_result :: ExecResult where
  "no_result = \<lparr>XrExitCode = 0, XrStdout = [], XrStderr = [], XrTruncated = False, XrDurationMS = 0, XrExecuted = False\<rparr>"

definition wrapStreamFailure :: "stream_error \<Rightarrow> ErrorCode" where
  "wrapStreamFailure e = (case e of CodedFailure c \<Rightarrow> c | PlainFailure \<Rightarrow> CodeInternal)"

text \<open>After the first failure nothing is written any more.\<close>

fun write_all :: "'w sink \<Rightarrow> string list \<Rightarrow> 'w \<Rightarrow> stream_error option \<times> 'w" where
  "write_all dst [] w = (None, w)"
| "write_all dst (p # ps) w = (case dst p w of (Some e, w') \<Rightarrow> (Some e, w') | (None, w') \<Rightarrow> write_all dst ps w')"

section \<open>Bounded capture\<close>

record limitedBuffer =
  Buf :: string
  Limit :: int
  Truncated :: bool

definition newLimitedBuffer :: "int \<Rightarrow> limitedBuffer" where
  "newLimitedBuffer n = \<lparr>Buf = [], Limit = n, Truncated = False\<rparr>"

definition limited_write :: "string \<Rightarrow> limitedBuffer \<Rightarrow> limitedBuffer" where
  "limited_write p b =
     (let remaining = Limit b - int (length (Buf b))
      in if remaining \<le> 0 then b\<lparr>Truncated := True\<rparr>
         else if remaining < int (length p) then b\<lparr>Buf := Buf b @ take (nat remaining) p, Truncated := True\<rparr>
         else b\<lparr>Buf := Buf b @ p\<rparr>)"

definition captured :: "int \<Rightarrow> string list \<Rightarrow> limitedBuffer" where
  "captured n ps = fold limited_write ps (newLimitedBuffer n)"

section \<open>The environment\<close>

text \<open>The overrides are a map: an association list whose keys are distinct.\<close>

definition mergeEnv :: "string list \<Rightarrow> (string \<times> string) list \<Rightarrow> string list" where
  "mergeEnv base overrides =
     (if overrides = [] then base
      else filter (\<lambda>kv. fst (Cut kv CHR ''='') \<notin> fst ` set overrides) base
           @ map (\<lambda>k. k @ ''='' @ the (map_of overrides k)) (sort (map fst overrides)))"

section \<open>The executor\<close>

record CommandExecutor =
  Allow :: "(string \<Rightarrow> bool) option"
  XDefaultTimeout :: duration
  DefaultMaxOutput :: int
  DefaultSensitive :: "string list"

definition NewExecutor :: "(string \<Rightarrow> bool) option \<Rightarrow> duration \<Rightarrow> int \<Rightarrow> string list \<Rightarrow> CommandExecutor" where
  "NewExecutor allow timeout maxOutput keys =
     \<lparr>Allow = allow, XDefaultTimeout = (if timeout \<le> 0 then 300 * second else timeout),
      DefaultMaxOutput = (if maxOutput \<le> 0 then 2 ^ 20 else maxOutput), DefaultSensitive = keys\<rparr>"

fun unseen_keys :: "string list \<Rightarrow> string list \<Rightarrow> string list" where
  "unseen_keys seen [] = []"
| "unseen_keys seen (k # ks) =
     (if k = [] \<or> k \<in> set seen then unseen_keys seen ks else k # unseen_keys (k # seen) ks)"

definition Executor_SensitiveEnvKeys :: "CommandExecutor \<Rightarrow> string list \<Rightarrow> string list" where
  "Executor_SensitiveEnvKeys e extra = unseen_keys [] (DefaultSensitive e @ extra)"

definition permitted :: "CommandExecutor \<Rightarrow> string \<Rightarrow> bool" where
  "permitted e path = (case Allow e of None \<Rightarrow> True | Some allow \<Rightarrow> allow path)"

definition command_of :: "CommandExecutor \<Rightarrow> string list \<Rightarrow> CommandSpec \<Rightarrow> source option \<Rightarrow> Command" where
  "command_of e environ spec src =
     \<lparr>CmArgv = Argv spec, CmDir = WorkingDirectory spec, CmEnv = mergeEnv environ (Environment spec),
      CmStdin = map_option fst src,
      CmTimeout = (if Timeout spec \<le> 0 then XDefaultTimeout e else Timeout spec)\<rparr>"

definition output_limit :: "CommandExecutor \<Rightarrow> CommandSpec \<Rightarrow> int" where
  "output_limit e spec = (if MaxOutputBytes spec \<le> 0 then DefaultMaxOutput e else MaxOutputBytes spec)"

text \<open>How a process that was started ends: the result with its exit code, and the error.\<close>

definition classify :: "Run \<Rightarrow> stream_error option \<Rightarrow> stream_error option \<Rightarrow> ExecResult \<Rightarrow> ExecResult \<times> ErrorCode option" where
  "classify run stdinErr stdoutErr result =
     (if ContextCancelled run then (result, Some CodeExecCancelled)
      else if DeadlineExceeded run then (result, Some CodeExecTimeout)
      else case stdinErr of
        Some e \<Rightarrow> (result, Some (wrapStreamFailure e))
      | None \<Rightarrow>
          (case stdoutErr of
             Some e \<Rightarrow> (result, Some (wrapStreamFailure e))
           | None \<Rightarrow>
               (case RunEnd run of
                  Exited code \<Rightarrow> (result\<lparr>XrExitCode := code\<rparr>, if code = 0 then None else Some CodeExecExitNonZero)
                | ExecForbidden \<Rightarrow> (result, Some CodePermissionDenied)
                | ExecFailed \<Rightarrow> (result, Some CodeInternal))))"

definition run_process ::
    "CommandExecutor \<Rightarrow> string list \<Rightarrow> process \<Rightarrow> CommandSpec \<Rightarrow> source option \<Rightarrow> 'w sink option \<Rightarrow> 'w
      \<Rightarrow> (ExecResult \<times> ErrorCode option) \<times> 'w" where
  "run_process e environ proc spec src dst w =
     (let run = proc (command_of e environ spec src);
          stderr = captured (output_limit e spec) (RunStderr run);
          result = no_result\<lparr>XrStderr := Buf stderr, XrTruncated := Truncated stderr,
            XrDurationMS := RunElapsed run div millisecond, XrExecuted := True\<rparr>;
          stdinErr = (case src of None \<Rightarrow> None | Some (_, err) \<Rightarrow> if StdinDrained run then err else None)
      in case dst of
           None \<Rightarrow>
             let stdout = captured (output_limit e spec) (RunStdout run)
             in (classify run stdinErr None
                   (result\<lparr>XrStdout := Buf stdout, XrTruncated := Truncated stderr \<or> Truncated stdout\<rparr>), w)
         | Some wr \<Rightarrow>
             let (stdoutErr, w') = write_all wr (RunStdout run) w
             in (classify run stdinErr stdoutErr result, w'))"

definition execInternal ::
    "CommandExecutor \<Rightarrow> string list \<Rightarrow> process \<Rightarrow> CommandSpec \<Rightarrow> source option \<Rightarrow> 'w sink option \<Rightarrow> 'w
      \<Rightarrow> (ExecResult \<times> ErrorCode option) \<times> 'w" where
  "execInternal e environ proc spec src dst w =
     (case Argv spec of
        [] \<Rightarrow> ((no_result, Some CodeInvalidRequest), w)
      | path # args \<Rightarrow>
          if blank path then ((no_result, Some CodeInvalidRequest), w)
          else if \<not> permitted e path then ((no_result, Some CodePermissionDenied), w)
          else if CmdDryRun spec then ((no_result, None), w)
          else run_process e environ proc spec src dst w)"

definition Executor_Run ::
    "CommandExecutor \<Rightarrow> string list \<Rightarrow> process \<Rightarrow> CommandSpec \<Rightarrow> ExecResult \<times> ErrorCode option" where
  "Executor_Run e environ proc spec = fst (execInternal e environ proc spec None (None :: unit sink option) ())"

definition RunStream ::
    "CommandExecutor \<Rightarrow> string list \<Rightarrow> process \<Rightarrow> CommandSpec \<Rightarrow> source option \<Rightarrow> 'w sink option \<Rightarrow> 'w
      \<Rightarrow> (ExecResult \<times> ErrorCode option) \<times> 'w" where
  "RunStream = execInternal"

section \<open>What is captured\<close>

lemma limited_write_prefix:
  assumes "Limit b = int n" and "Buf b = take n s" and "Truncated b \<longleftrightarrow> n < length s" and "p \<noteq> []"
  shows "Limit (limited_write p b) = int n \<and> Buf (limited_write p b) = take n (s @ p)
    \<and> (Truncated (limited_write p b) \<longleftrightarrow> n < length (s @ p))"
proof (cases "n \<le> length s")
  case True
  then show ?thesis using assms by (cases p) (simp_all add: limited_write_def Let_def)
next
  case False
  then have "Buf b = s" "\<not> Truncated b" using assms by simp_all
  then show ?thesis using assms False by (auto simp: limited_write_def Let_def nat_diff_distrib of_nat_diff)
qed

lemma captured_prefix:
  assumes "\<forall>p \<in> set ps. p \<noteq> []" and "0 \<le> n"
  shows "Buf (captured n ps) = take (nat n) (concat ps)"
    and "Truncated (captured n ps) \<longleftrightarrow> nat n < length (concat ps)"
proof -
  have "Limit b = int m \<Longrightarrow> Buf b = take m s \<Longrightarrow> (Truncated b \<longleftrightarrow> m < length s) \<Longrightarrow>
      Buf (fold limited_write ps b) = take m (s @ concat ps)
      \<and> (Truncated (fold limited_write ps b) \<longleftrightarrow> m < length (s @ concat ps))" for b m s
    using assms(1)
  proof (induction ps arbitrary: b s)
    case (Cons p ps)
    have "p \<noteq> []" using Cons.prems(4) by simp
    note step = limited_write_prefix [OF Cons.prems(1-3) this]
    have "\<forall>p \<in> set ps. p \<noteq> []" using Cons.prems(4) by simp
    from Cons.IH [OF step [THEN conjunct1] step [THEN conjunct2, THEN conjunct1] step [THEN conjunct2, THEN conjunct2] this]
    show ?case by (simp only: fold.simps comp_apply concat.simps append.assoc)
  qed simp
  from this [of "newLimitedBuffer n" "nat n" "[]"] assms(2)
  show "Buf (captured n ps) = take (nat n) (concat ps)" "Truncated (captured n ps) \<longleftrightarrow> nat n < length (concat ps)"
    by (simp_all add: captured_def newLimitedBuffer_def)
qed


section \<open>Properties\<close>

text \<open>A command that was started: everything else ends before the process exists.\<close>

lemma started:
  assumes "execInternal e environ proc spec src dst w = ((res, err), w')" and "XrExecuted res"
  shows "run_process e environ proc spec src dst w = ((res, err), w') \<and> Argv spec \<noteq> []
    \<and> permitted e (hd (Argv spec)) \<and> \<not> CmdDryRun spec"
  using assms by (cases "Argv spec") (auto simp: execInternal_def no_result_def split: if_splits)

lemma classify_keeps:
  "XrStdout (fst (classify run a b r)) = XrStdout r" "XrStderr (fst (classify run a b r)) = XrStderr r"
  "XrTruncated (fst (classify run a b r)) = XrTruncated r" "XrExecuted (fst (classify run a b r)) = XrExecuted r"
  by (simp_all add: classify_def split: option.split run_end.split)

lemma output_limit_positive: "0 < DefaultMaxOutput e \<Longrightarrow> 0 < output_limit e spec"
  by (simp add: output_limit_def)

text \<open>C33 However much a process writes and however it ends, the captured output is the beginning of what it
  wrote and never longer than the limit, and the result says whether anything is missing.\<close>

theorem captured_output_bounded:
  assumes "Executor_Run e environ proc spec = (res, err)" and "XrExecuted res" and "0 < DefaultMaxOutput e"
    and "run = proc (command_of e environ spec None)"
    and "\<forall>p \<in> set (RunStdout run) \<union> set (RunStderr run). p \<noteq> []"
  shows "XrStdout res = take (nat (output_limit e spec)) (concat (RunStdout run))
    \<and> XrStderr res = take (nat (output_limit e spec)) (concat (RunStderr run))
    \<and> (XrTruncated res \<longleftrightarrow> nat (output_limit e spec) < length (concat (RunStdout run))
                          \<or> nat (output_limit e spec) < length (concat (RunStderr run)))"
proof -
  obtain w' where exec: "execInternal e environ proc spec None (None :: unit sink option) () = ((res, err), w')"
    using assms(1) by (metis Executor_Run_def prod.collapse)
  have pieces: "\<forall>p \<in> set (RunStdout run). p \<noteq> []" "\<forall>p \<in> set (RunStderr run). p \<noteq> []" using assms(5) by auto
  have limit: "0 \<le> output_limit e spec" using output_limit_positive [OF assms(3)] by (rule less_imp_le)
  from started [OF exec assms(2)] have "run_process e environ proc spec None (None :: unit sink option) () = ((res, err), w')" ..
  then have "res = fst (classify run None None (no_result\<lparr>XrStderr := Buf (captured (output_limit e spec) (RunStderr run)),
      XrDurationMS := RunElapsed run div millisecond, XrExecuted := True,
      XrStdout := Buf (captured (output_limit e spec) (RunStdout run)),
      XrTruncated := Truncated (captured (output_limit e spec) (RunStderr run))
        \<or> Truncated (captured (output_limit e spec) (RunStdout run))\<rparr>))"
    by (simp add: run_process_def Let_def assms(4))
  then show ?thesis
    using captured_prefix [OF pieces(1) limit] captured_prefix [OF pieces(2) limit] by (auto simp: classify_keeps)
qed

text \<open>C34 A streamed command is reported as a success only if nothing is missing: the process exited with 0
  in time and was not cancelled, the writer took every piece of its output, and the input that was read to
  its end had no error. Neither half a dump nor half a restore passes for a whole one.\<close>

theorem stream_success_complete:
  assumes "RunStream e environ proc spec src (Some wr) w = ((res, None), w')" and "XrExecuted res"
    and "run = proc (command_of e environ spec src)"
  shows "RunEnd run = Exited 0 \<and> \<not> ContextCancelled run \<and> \<not> DeadlineExceeded run
    \<and> write_all wr (RunStdout run) w = (None, w')
    \<and> (\<forall>bytes err. src = Some (bytes, err) \<and> StdinDrained run \<longrightarrow> err = None)"
proof -
  have exec: "execInternal e environ proc spec src (Some wr) w = ((res, None), w')" using assms(1) by (simp add: RunStream_def)
  obtain stdoutErr v where out: "write_all wr (RunStdout run) w = (stdoutErr, v)" by fastforce
  from started [OF exec assms(2)] have "run_process e environ proc spec src (Some wr) w = ((res, None), w')" ..
  then obtain r stdinErr where c: "classify run stdinErr stdoutErr r = (res, None)" and v: "v = w'"
    and s: "stdinErr = (case src of None \<Rightarrow> None | Some (_, err) \<Rightarrow> if StdinDrained run then err else None)"
    by (auto simp: run_process_def Let_def assms(3) [symmetric] out)
  then have "RunEnd run = Exited 0 \<and> \<not> ContextCancelled run \<and> \<not> DeadlineExceeded run \<and> stdoutErr = None \<and> stdinErr = None"
    by (auto simp: classify_def split: if_splits option.splits run_end.splits)
  then show ?thesis using out v s by auto
qed

text \<open>A command that is not permitted and a dry run start nothing.\<close>

lemma nothing_started:
  "\<not> permitted e (hd (Argv spec)) \<or> CmdDryRun spec \<Longrightarrow>
     execInternal e environ proc spec src dst w = execInternal e environ proc' spec src dst w"
  by (auto simp: execInternal_def split: list.split)

text \<open>A dump that fills the limit of the memory buffer, and one that a storage refuses half-way.\<close>

definition sample_executor :: CommandExecutor where
  "sample_executor = NewExecutor (Some (\<lambda>p. p = ''/bin/dump'')) 0 8 []"

definition sample_command :: CommandSpec where
  "sample_command = \<lparr>Argv = [''/bin/dump''], WorkingDirectory = [], Environment = [], SecretEnv = [], Timeout = 0,
     MaxOutputBytes = 0, SensitiveEnvKeys = [], SensitiveArgIndexes = [], CmdDryRun = False\<rparr>"

definition sample_process :: process where
  "sample_process c = \<lparr>RunStdout = [''hello '', ''world''], RunStderr = [], RunEnd = Exited 0, RunElapsed = second,
     ContextCancelled = False, DeadlineExceeded = False, StdinDrained = True\<rparr>"

theorem captured_output_bounded_witness:
  "XrStdout (fst (Executor_Run sample_executor [] sample_process sample_command)) = ''hello wo''
    \<and> XrTruncated (fst (Executor_Run sample_executor [] sample_process sample_command))"
proof -
  let ?run = "sample_process (command_of sample_executor [] sample_command None)"
  obtain res err where run: "Executor_Run sample_executor [] sample_process sample_command = (res, err)" by fastforce
  have "XrExecuted (fst (Executor_Run sample_executor [] sample_process sample_command))
      \<and> 0 < DefaultMaxOutput sample_executor \<and> output_limit sample_executor sample_command = 8
      \<and> list_all (\<lambda>p. p \<noteq> []) (RunStdout ?run @ RunStderr ?run)" by code_simp
  then have "XrExecuted res" "0 < DefaultMaxOutput sample_executor" "output_limit sample_executor sample_command = 8"
    "\<forall>p \<in> set (RunStdout ?run) \<union> set (RunStderr ?run). p \<noteq> []" by (simp_all add: run list_all_iff ball_Un)
  then show ?thesis
    using captured_output_bounded [OF run _ _ refl] by (simp add: run sample_process_def)
qed

theorem stream_success_complete_witness:
  "write_all (\<lambda>p w. (None, w @ p)) (RunStdout (sample_process (command_of sample_executor [] sample_command None))) []
     = (None, ''hello world'')"
proof -
  let ?sink = "\<lambda>p w. (None, w @ p) :: stream_error option \<times> string"
  have "case RunStream sample_executor [] sample_process sample_command None (Some ?sink) [] of
      ((res, err), w') \<Rightarrow> XrExecuted res \<and> err = None \<and> w' = ''hello world''" by code_simp
  then obtain res where "RunStream sample_executor [] sample_process sample_command None (Some ?sink) [] = ((res, None), ''hello world'')"
    and "XrExecuted res" by (auto split: prod.splits)
  from stream_success_complete [OF this refl] show ?thesis by simp
qed

end
