(* ===== verification/Configuration.thy ===== *)
theory Configuration
  imports Execution AppSpec
begin

text \<open>
  The configuration of the daemon (\<open>internal/adapters/config/config.go\<close>, \<open>remote.go\<close>, the check of a
  private key in \<open>internal/pki/pki.go\<close>): loading with migrations, defaults, validation, modes, and which
  executables are allowed.

  Reading YAML is a parameter: the envelope, the document as a value of type \<open>'d\<close> with its
  \<open>apiVersion\<close>, and the strict decoding of a document. A client of the white list is the
  \<open>RemoteIdentity\<close> it becomes. The problems of a configuration are reported together; only whether there
  is one is modelled.
\<close>

section \<open>The configuration\<close>

record SocketConfig =
  SocketPath :: string
  SocketMode :: string

record RuntimeConfig =
  WorkDirectory :: string
  LogDirectory :: string
  Workers :: int
  ShutdownGraceSecs :: int

record ExecutionConfig =
  DefaultTimeoutSeconds :: int
  ExMaxOutputBytes :: int
  AllowedPaths :: "string list"
  ExSensitiveEnvKeys :: "string list"

record ArtifactStoreConfig =
  ArtRoot :: string
  ArtFileMode :: string
  ArtDirMode :: string
  ArtMaxUploadBytes :: int
  ArtQuotaBytes :: int

record BackupStoreConfig =
  BakRoot :: string
  BakFileMode :: string
  BakDirMode :: string
  BakQuotaBytes :: int

record RemoteConfig =
  RmListen :: string
  CertFile :: string
  KeyFile :: string
  ClientCAFile :: string
  Clients :: "RemoteIdentity list"

record NginxConfig =
  NcConfDir :: string
  NcBinary :: string
  NcMainConfig :: string

record Config =
  CfAPIVersion :: string
  CfKind :: string
  CfSocket :: SocketConfig
  DatabasePath :: string
  CfRuntime :: RuntimeConfig
  CfExecution :: ExecutionConfig
  ArtifactStore :: ArtifactStoreConfig
  BackupStore :: BackupStoreConfig
  AllowedFileDirectories :: "string list"
  SudoAllowedCommands :: "string list"
  CfNginx :: NginxConfig
  Remote :: RemoteConfig

definition ConfigAPIVersion :: string where "ConfigAPIVersion = ''ops.frz.io/v1alpha1''"
definition ConfigKind :: string where "ConfigKind = ''OpsdConfig''"
definition DefaultWorkers :: int where "DefaultWorkers = 2"
definition DefaultCommandSeconds :: int where "DefaultCommandSeconds = 300"
definition DefaultMaxOutputBytes :: int where "DefaultMaxOutputBytes = 2 ^ 20"
definition DefaultSocketMode :: string where "DefaultSocketMode = ''0660''"
definition DefaultShutdownGraceSec :: int where "DefaultShutdownGraceSec = 10"
definition DefaultStoreFileMode :: string where "DefaultStoreFileMode = ''0640''"
definition DefaultStoreDirMode :: string where "DefaultStoreDirMode = ''0750''"
definition DefaultMaxUploadBytes :: int where "DefaultMaxUploadBytes = 2 * 2 ^ 30"
definition DefaultStoreQuota :: int where "DefaultStoreQuota = 20 * 2 ^ 30"
definition maxMigrationSteps :: nat where "maxMigrationSteps = 16"

definition or_default :: "'a \<Rightarrow> 'a \<Rightarrow> 'a \<Rightarrow> 'a" where
  "or_default zero d x = (if x = zero then d else x)"

definition ArtifactStoreEnabled :: "Config \<Rightarrow> bool" where
  "ArtifactStoreEnabled c \<longleftrightarrow> ArtRoot (ArtifactStore c) \<noteq> []"

definition BackupStoreEnabled :: "Config \<Rightarrow> bool" where
  "BackupStoreEnabled c \<longleftrightarrow> BakRoot (BackupStore c) \<noteq> []"

definition RemoteEnabled :: "Config \<Rightarrow> bool" where
  "RemoteEnabled c \<longleftrightarrow> \<not> blank (RmListen (Remote c))"

definition fill_artifact_store :: "ArtifactStoreConfig \<Rightarrow> ArtifactStoreConfig" where
  "fill_artifact_store a = a
     \<lparr>ArtFileMode := or_default [] DefaultStoreFileMode (ArtFileMode a), ArtDirMode := or_default [] DefaultStoreDirMode (ArtDirMode a),
      ArtMaxUploadBytes := or_default 0 DefaultMaxUploadBytes (ArtMaxUploadBytes a),
      ArtQuotaBytes := or_default 0 DefaultStoreQuota (ArtQuotaBytes a)\<rparr>"

definition fill_backup_store :: "BackupStoreConfig \<Rightarrow> BackupStoreConfig" where
  "fill_backup_store b = b
     \<lparr>BakFileMode := or_default [] DefaultStoreFileMode (BakFileMode b), BakDirMode := or_default [] DefaultStoreDirMode (BakDirMode b),
      BakQuotaBytes := or_default 0 DefaultStoreQuota (BakQuotaBytes b)\<rparr>"

definition Config_applyDefaults :: "Config \<Rightarrow> Config" where
  "Config_applyDefaults c = c
     \<lparr>CfSocket := (CfSocket c)\<lparr>SocketMode := or_default [] DefaultSocketMode (SocketMode (CfSocket c))\<rparr>,
      CfRuntime := (CfRuntime c)\<lparr>Workers := or_default 0 DefaultWorkers (Workers (CfRuntime c)),
        ShutdownGraceSecs := or_default 0 DefaultShutdownGraceSec (ShutdownGraceSecs (CfRuntime c))\<rparr>,
      CfExecution := (CfExecution c)
        \<lparr>DefaultTimeoutSeconds := or_default 0 DefaultCommandSeconds (DefaultTimeoutSeconds (CfExecution c)),
         ExMaxOutputBytes := or_default 0 DefaultMaxOutputBytes (ExMaxOutputBytes (CfExecution c))\<rparr>,
      ArtifactStore := (if ArtifactStoreEnabled c then fill_artifact_store (ArtifactStore c) else ArtifactStore c),
      BackupStore := (if BackupStoreEnabled c then fill_backup_store (BackupStore c) else BackupStore c)\<rparr>"

section \<open>Modes and paths\<close>

fun read_octal :: "nat \<Rightarrow> string \<Rightarrow> nat option" where
  "read_octal acc [] = Some acc"
| "read_octal acc (c # cs) =
     (if CHR ''0'' \<le> c \<and> c \<le> CHR ''7'' then read_octal (8 * acc + (of_char c - 48)) cs else None)"

text \<open>Octal 0777 is 511.\<close>

definition parseOctalMode :: "string \<Rightarrow> nat option" where
  "parseOctalMode v =
     (if v = [] then None
      else case read_octal 0 v of None \<Rightarrow> None | Some m \<Rightarrow> if 511 < m then None else Some m)"

definition requireAbsolute :: "string \<Rightarrow> bool" where
  "requireAbsolute v \<longleftrightarrow> v \<noteq> [] \<and> PathIsAbs v"

definition SocketFileMode :: "Config \<Rightarrow> nat option" where "SocketFileMode c = parseOctalMode (SocketMode (CfSocket c))"
definition ArtifactFileMode :: "Config \<Rightarrow> nat option" where "ArtifactFileMode c = parseOctalMode (ArtFileMode (ArtifactStore c))"
definition ArtifactDirMode :: "Config \<Rightarrow> nat option" where "ArtifactDirMode c = parseOctalMode (ArtDirMode (ArtifactStore c))"
definition BackupFileMode :: "Config \<Rightarrow> nat option" where "BackupFileMode c = parseOctalMode (BakFileMode (BackupStore c))"
definition BackupDirMode :: "Config \<Rightarrow> nat option" where "BackupDirMode c = parseOctalMode (BakDirMode (BackupStore c))"

definition DefaultTimeout :: "Config \<Rightarrow> duration" where
  "DefaultTimeout c = wrap64 (DefaultTimeoutSeconds (CfExecution c) * second)"

definition ShutdownGrace :: "Config \<Rightarrow> duration" where
  "ShutdownGrace c = wrap64 (ShutdownGraceSecs (CfRuntime c) * second)"

definition ExecutableAllowed :: "Config \<Rightarrow> string \<Rightarrow> bool" where
  "ExecutableAllowed c path =
     list_ex (\<lambda>allowed. PathClean path = PathClean allowed \<or> prefix (PathClean allowed @ ''/'') (PathClean path))
       (AllowedPaths (CfExecution c))"

section \<open>Validation\<close>

text \<open>The private key: a regular file, nothing beyond octal 0600, owned by the running user.\<close>

definition CheckPrivateKey :: "UFs \<Rightarrow> nat \<Rightarrow> string \<Rightarrow> ErrorCode option" where
  "CheckPrivateKey fs euid path =
     (case ustat fs path of
        Inl _ \<Rightarrow> Some CodeConfigInvalid
      | Inr n \<Rightarrow>
          (case kind n of
             File _ \<Rightarrow> fail_if (mode n mod 128 \<noteq> 0 \<or> fst (owner n) \<noteq> euid) CodeConfigInvalid
           | _ \<Rightarrow> Some CodeConfigInvalid))"

definition remote_file_ok :: "UFs \<Rightarrow> string \<Rightarrow> bool" where
  "remote_file_ok fs path \<longleftrightarrow> requireAbsolute path \<and> \<not> isl (ustat fs path)"

fun clients_ok :: "string list \<Rightarrow> RemoteIdentity list \<Rightarrow> bool" where
  "clients_ok seen [] = True"
| "clients_ok seen (c # cs) =
     (let cn = TrimSpace (CN c)
      in cn \<noteq> [] \<and> cn \<notin> set seen \<and> AccessScope_Valid (IdScope c) \<and> list_all (\<lambda>a. \<not> blank a) (IdApplications c)
         \<and> clients_ok (cn # seen) cs)"

definition validateRemote :: "UFs \<Rightarrow> nat \<Rightarrow> Config \<Rightarrow> bool" where
  "validateRemote fs euid c \<longleftrightarrow>
     (let r = Remote c
      in if \<not> RemoteEnabled c then CertFile r = [] \<and> KeyFile r = [] \<and> ClientCAFile r = [] \<and> Clients r = []
         else SplitHostPort_ok (RmListen r)
           \<and> remote_file_ok fs (CertFile r) \<and> remote_file_ok fs (KeyFile r) \<and> CheckPrivateKey fs euid (KeyFile r) = None
           \<and> remote_file_ok fs (ClientCAFile r)
           \<and> Clients r \<noteq> [] \<and> clients_ok [] (Clients r))"

definition validateArtifactStore :: "Config \<Rightarrow> bool" where
  "validateArtifactStore c \<longleftrightarrow>
     (let a = ArtifactStore c
      in ArtifactStoreEnabled c \<longrightarrow>
           requireAbsolute (ArtRoot a) \<and> ArtifactFileMode c \<noteq> None \<and> ArtifactDirMode c \<noteq> None
           \<and> 1 \<le> ArtMaxUploadBytes a \<and> 1 \<le> ArtQuotaBytes a
           \<and> \<not> (0 < ArtQuotaBytes a \<and> ArtQuotaBytes a < ArtMaxUploadBytes a))"

definition Config_Validate :: "UFs \<Rightarrow> nat \<Rightarrow> Config \<Rightarrow> ErrorCode option" where
  "Config_Validate fs euid c =
     fail_if (\<not> (CfAPIVersion c = ConfigAPIVersion \<and> CfKind c = ConfigKind
        \<and> requireAbsolute (SocketPath (CfSocket c)) \<and> requireAbsolute (DatabasePath c)
        \<and> requireAbsolute (WorkDirectory (CfRuntime c)) \<and> requireAbsolute (LogDirectory (CfRuntime c))
        \<and> 1 \<le> Workers (CfRuntime c) \<and> 1 \<le> DefaultTimeoutSeconds (CfExecution c) \<and> 1 \<le> ExMaxOutputBytes (CfExecution c)
        \<and> AllowedPaths (CfExecution c) \<noteq> [] \<and> list_all requireAbsolute (AllowedPaths (CfExecution c))
        \<and> SocketFileMode c \<noteq> None \<and> validateArtifactStore c \<and> validateRemote fs euid c
        \<and> list_all requireAbsolute (AllowedFileDirectories c))) CodeConfigInvalid"

section \<open>Loading\<close>

record 'd yaml =
  read_envelope :: "string \<Rightarrow> (string \<times> string) option"
  read_document :: "string \<Rightarrow> 'd option"
  document_version :: "'d \<Rightarrow> string"
  decode_config :: "'d \<Rightarrow> Config option"

type_synonym 'd migrations = "(string \<times> ('d \<Rightarrow> 'd option)) list"

text \<open>The steps that are left are the first argument.\<close>

fun migrate_steps :: "nat \<Rightarrow> 'd migrations \<Rightarrow> ('d \<Rightarrow> string) \<Rightarrow> 'd \<Rightarrow> string \<Rightarrow> ErrorCode + 'd" where
  "migrate_steps left ms version_of doc version =
     (if version = ConfigAPIVersion then Inr doc
      else case left of
        0 \<Rightarrow> Inl CodeConfigInvalid
      | Suc left' \<Rightarrow>
          (case map_of ms version of
             None \<Rightarrow> Inl CodeConfigInvalid
           | Some migration \<Rightarrow>
               (case migration doc of
                  None \<Rightarrow> Inl CodeConfigInvalid
                | Some doc' \<Rightarrow>
                    if version_of doc' = version then Inl CodeConfigInvalid
                    else migrate_steps left' ms version_of doc' (version_of doc'))))"

declare migrate_steps.simps [simp del]

definition migrate :: "'d migrations \<Rightarrow> ('d \<Rightarrow> string) \<Rightarrow> 'd \<Rightarrow> string \<Rightarrow> ErrorCode + 'd" where
  "migrate ms version_of doc from_version = migrate_steps maxMigrationSteps ms version_of doc from_version"

text \<open>The registry of migrations is empty so far. \<open>None\<close> is a configuration that cannot be read.\<close>

definition no_migrations :: "'d migrations" where "no_migrations = []"

definition LoadReader ::
    "'d migrations \<Rightarrow> 'd yaml \<Rightarrow> UFs \<Rightarrow> nat \<Rightarrow> string option \<Rightarrow> ErrorCode + Config" where
  "LoadReader ms y fs euid input =
     (case input of
        None \<Rightarrow> Inl CodeConfigInvalid
      | Some raw \<Rightarrow>
          (case read_envelope y raw of
             None \<Rightarrow> Inl CodeConfigInvalid
           | Some (version, _) \<Rightarrow>
               if version = [] then Inl CodeConfigInvalid
               else case read_document y raw of
                 None \<Rightarrow> Inl CodeConfigInvalid
               | Some doc \<Rightarrow>
                   bind_res (migrate ms (document_version y) doc version) (\<lambda>doc'.
                   case decode_config y doc' of
                     None \<Rightarrow> Inl CodeConfigInvalid
                   | Some cfg \<Rightarrow>
                       let c = Config_applyDefaults cfg
                       in case Config_Validate fs euid c of Some e \<Rightarrow> Inl e | None \<Rightarrow> Inr c)))"

definition Load :: "'d migrations \<Rightarrow> 'd yaml \<Rightarrow> UFs \<Rightarrow> nat \<Rightarrow> string \<Rightarrow> ErrorCode + Config" where
  "Load ms y fs euid path =
     (case ustat fs path of
        Inl _ \<Rightarrow> Inl CodeConfigInvalid
      | Inr n \<Rightarrow> LoadReader ms y fs euid (case kind n of File raw \<Rightarrow> Some raw | _ \<Rightarrow> None))"

section \<open>Properties\<close>

text \<open>Whatever the migrations do, loading ends: with a document of this version or with CONFIG_INVALID.\<close>

lemma migrate_steps_version:
  "migrate_steps left ms version_of doc version = Inr doc' \<Longrightarrow>
     (version = ConfigAPIVersion \<and> doc' = doc) \<or> version_of doc' = ConfigAPIVersion"
proof (induction left arbitrary: doc version)
  case 0
  then show ?case by (subst (asm) migrate_steps.simps) (simp split: if_splits)
next
  case (Suc left)
  from Suc.prems show ?case
    by (subst (asm) migrate_steps.simps) (auto split: if_splits option.splits dest: Suc.IH)
qed

lemma migrate_steps_error: "migrate_steps left ms version_of doc version = Inl e \<Longrightarrow> e = CodeConfigInvalid"
proof (induction left arbitrary: doc version)
  case 0
  then show ?case by (subst (asm) migrate_steps.simps) (simp split: if_splits)
next
  case (Suc left)
  from Suc.prems show ?case
    by (subst (asm) migrate_steps.simps) (auto split: if_splits option.splits dest: Suc.IH)
qed

lemma Join_relative:
  "ss \<noteq> [] \<Longrightarrow> hd ss \<noteq> [] \<Longrightarrow> hd (hd ss) \<noteq> CHR ''/'' \<Longrightarrow> \<not> PathIsAbs (Join CHR ''/'' ss)"
  by (cases ss; cases "hd ss"; cases "tl ss") (auto simp: PathIsAbs_def Join_Cons)

lemma PathClean_abs: "PathIsAbs (PathClean p) \<longleftrightarrow> PathIsAbs p"
proof (cases "PathIsAbs p")
  case True
  then show ?thesis by (cases p) (auto simp: PathIsAbs_def PathClean_def Let_def)
next
  case False
  have "\<not> PathIsAbs (PathClean p)"
  proof (cases "p = []")
    case False
    let ?segs = "rev (fold (clean_segment False) (Split CHR ''/'' p) [])"
    from False \<open>\<not> PathIsAbs p\<close> have clean: "PathClean p = (if ?segs = [] then ''.'' else Join CHR ''/'' ?segs)"
      by (cases p) (auto simp: PathIsAbs_def PathClean_def Let_def)
    have "s \<noteq> [] \<and> hd s \<noteq> CHR ''/''" if s: "s \<in> set ?segs" for s
    proof -
      have "s \<in> set (Split CHR ''/'' p) \<and> s \<noteq> [] \<or> s = ''..''" using s
      proof -
        have "t \<in> set (fold (clean_segment False) xs stack) \<Longrightarrow> (t \<in> set xs \<and> t \<noteq> []) \<or> t \<in> set stack \<or> t = ''..''" for t xs stack
        proof (induction xs arbitrary: stack)
          case (Cons x xs)
          then have "(t \<in> set xs \<and> t \<noteq> []) \<or> t \<in> set (clean_segment False x stack) \<or> t = ''..''" by simp
          then show ?case by (auto simp: clean_segment_def split: if_splits list.splits)
        qed simp
        from this [of s "Split CHR ''/'' p" "[]"] show ?thesis using s by auto
      qed
      then show ?thesis using Split_parts [of s "CHR ''/''" p] by (cases s) auto
    qed
    then have first: "hd ?segs \<noteq> [] \<and> hd (hd ?segs) \<noteq> CHR ''/''" if "?segs \<noteq> []" using hd_in_set [OF that] by blast
    show ?thesis
    proof (cases "?segs = []")
      case True
      then show ?thesis unfolding clean by (simp add: PathIsAbs_def)
    next
      case False
      show ?thesis unfolding clean if_not_P [OF False] by (rule Join_relative) (use first [OF False] False in blast)+
    qed
  qed (simp add: PathClean_def PathIsAbs_def)
  then show ?thesis using False by simp
qed

text \<open>C35 Under an accepted configuration the executor only ever starts a program by an absolute path that is, or
  lies below, one of the allowed paths; nothing is looked up in the search path.\<close>

theorem executed_paths_allowed:
  assumes "Config_Validate fs euid c = None"
    and "execInternal (NewExecutor (Some (ExecutableAllowed c)) timeout maxOutput keys) environ proc spec src dst w = ((res, err), w')"
    and "XrExecuted res"
  shows "\<exists>path args allowed. Argv spec = path # args \<and> PathIsAbs path \<and> allowed \<in> set (AllowedPaths (CfExecution c))
    \<and> (PathClean path = PathClean allowed \<or> prefix (PathClean allowed @ ''/'') (PathClean path))"
proof -
  from started [OF assms(2,3)] have argv: "Argv spec \<noteq> []" and "ExecutableAllowed c (hd (Argv spec))"
    by (auto simp: permitted_def NewExecutor_def)
  then obtain allowed where allowed: "allowed \<in> set (AllowedPaths (CfExecution c))"
    "PathClean (hd (Argv spec)) = PathClean allowed \<or> prefix (PathClean allowed @ ''/'') (PathClean (hd (Argv spec)))"
    by (auto simp: ExecutableAllowed_def list_ex_iff)
  have "PathIsAbs allowed"
    using assms(1) allowed(1) by (auto simp: Config_Validate_def list_all_iff requireAbsolute_def)
  then have "PathIsAbs (PathClean allowed)" by (simp add: PathClean_abs)
  then have "PathIsAbs (PathClean (hd (Argv spec)))"
    using allowed(2) by (auto simp: PathIsAbs_def intro: prefix_order.trans dest: append_prefixD)
  then have "PathIsAbs (hd (Argv spec))" by (simp add: PathClean_abs)
  then show ?thesis using argv allowed by (metis list.exhaust_sel)
qed

text \<open>The section of the backup store is not looked at at all: an accepted configuration stays accepted with
  any root, also that of the artifact store, and with any modes.\<close>

theorem backup_store_unchecked:
  "Config_Validate fs euid (c\<lparr>BackupStore := b\<rparr>) = Config_Validate fs euid c"
  by (simp add: Config_Validate_def SocketFileMode_def validateArtifactStore_def validateRemote_def ArtifactStoreEnabled_def
      RemoteEnabled_def ArtifactFileMode_def ArtifactDirMode_def)

definition sample_config :: Config where
  "sample_config = \<lparr>CfAPIVersion = ConfigAPIVersion, CfKind = ConfigKind,
     CfSocket = \<lparr>SocketPath = ''/run/opsd.sock'', SocketMode = []\<rparr>, DatabasePath = ''/var/lib/opsd/opsd.db'',
     CfRuntime = \<lparr>WorkDirectory = ''/var/lib/opsd'', LogDirectory = ''/var/log/opsd'', Workers = 0, ShutdownGraceSecs = 0\<rparr>,
     CfExecution = \<lparr>DefaultTimeoutSeconds = 0, ExMaxOutputBytes = 0, AllowedPaths = [''/bin''], ExSensitiveEnvKeys = []\<rparr>,
     ArtifactStore = \<lparr>ArtRoot = ''/srv/blobs'', ArtFileMode = [], ArtDirMode = [], ArtMaxUploadBytes = 0, ArtQuotaBytes = 0\<rparr>,
     BackupStore = \<lparr>BakRoot = ''/srv/blobs'', BakFileMode = ''rw'', BakDirMode = [], BakQuotaBytes = -1\<rparr>,
     AllowedFileDirectories = [], SudoAllowedCommands = [],
     CfNginx = \<lparr>NcConfDir = [], NcBinary = [], NcMainConfig = []\<rparr>,
     Remote = \<lparr>RmListen = [], CertFile = [], KeyFile = [], ClientCAFile = [], Clients = []\<rparr>\<rparr>"

definition no_files :: UFs where
  "no_files = \<lparr>names = [], inodes = [], next_inode = 0, ucalls = 0, ufaulty = \<lambda>_. False\<rparr>"

lemma sample_config_accepted: "Config_Validate no_files 0 (Config_applyDefaults sample_config) = None"
  by code_simp

lemma shared_roots_accepted:
  "let c = Config_applyDefaults sample_config
   in Config_Validate no_files 0 c = None \<and> ArtRoot (ArtifactStore c) = BakRoot (BackupStore c) \<and> BackupFileMode c = None"
  by code_simp

theorem executed_paths_allowed_witness:
  "\<exists>allowed \<in> set (AllowedPaths (CfExecution (Config_applyDefaults sample_config))).
     PathClean ''/bin/dump'' = PathClean allowed \<or> prefix (PathClean allowed @ ''/'') (PathClean ''/bin/dump'')"
proof -
  let ?c = "Config_applyDefaults sample_config"
  let ?e = "NewExecutor (Some (ExecutableAllowed ?c)) 0 0 []"
  obtain res err where run: "execInternal ?e [] sample_process sample_command None (None :: unit sink option) () = ((res, err), ())"
    by (metis old.unit.exhaust prod.exhaust)
  have "XrExecuted (fst (fst (execInternal ?e [] sample_process sample_command None (None :: unit sink option) ())))" by code_simp
  then have "XrExecuted res" by (simp add: run)
  from executed_paths_allowed [OF sample_config_accepted run this]
  show ?thesis by (auto simp: sample_command_def)
qed

text \<open>An allowed path \<open>/\<close> is accepted, but allows nothing below it.\<close>

lemma root_allows_nothing:
  "let c = sample_config\<lparr>CfExecution := (CfExecution sample_config)\<lparr>AllowedPaths := [''/'']\<rparr>\<rparr>
   in Config_Validate no_files 0 (Config_applyDefaults c) = None \<and> \<not> ExecutableAllowed c ''/bin/ls''"
  by code_simp

end
