(* ===== verification/Collection.thy ===== *)
theory Collection
  imports Artifacts Configuration
begin

text \<open>
  What the garbage collection of the artifacts (\<open>internal/application/artifact.go\<close>) takes for an orphan.
\<close>

lemma orphan_loop_Orphans:
  "orphan_loop store live dryRun res entries w = (Inr res', w') \<Longrightarrow>
     Orphans res' = Orphans res @ map StDigest (filter (\<lambda>e. StDigest e \<notin> set live) entries)"
proof (induction entries arbitrary: res w)
  case (Cons e entries)
  show ?case
  proof (cases "StDigest e \<in> set live")
    case True
    then show ?thesis using Cons by simp
  next
    case False
    let ?res = "res\<lparr>Orphans := Orphans res @ [StDigest e], FreedBytes := FreedBytes res + StSize e\<rparr>"
    from Cons.prems False obtain v where "orphan_loop store live dryRun ?res entries v = (Inr res', w')"
      by (auto simp: andthen_Inr)
    from Cons.IH [OF this] False show ?thesis by simp
  qed
qed simp

lemma collect_loop_Orphans:
  "collect_loop store keepLast olderThan cutoff dryRun i res rows w = (Inr res', w') \<Longrightarrow> Orphans res' = Orphans res"
proof (induction rows arbitrary: i res w)
  case (Cons row rows)
  from Cons.prems obtain n :: nat and v where step: "(if i < keepLast \<or> 0 < n \<or> (0 < olderThan \<and> cutoff < ArtCreatedAt row)
     then collect_loop store keepLast olderThan cutoff dryRun (Suc i) (res\<lparr>Kept := Suc (Kept res)\<rparr>) rows
     else andthen
            (if dryRun then give ()
             else andthen now_io (\<lambda>now.
                  andthen (cat_try (\<lambda>db. SoftDeleteArtifact db (ArtID row) now)) (\<lambda>_.
                  call (StDelete store (ArtDigest row))))) (\<lambda>_.
          collect_loop store keepLast olderThan cutoff dryRun (Suc i)
            (res\<lparr>Removed := Removed res @ [ArtID row], FreedBytes := FreedBytes res + ArtSize row\<rparr>) rows)) v = (Inr res', w')"
    unfolding collect_loop.simps by (subst (asm) andthen_Inr) (elim exE conjE, rule that)
  show ?case
  proof (cases "i < keepLast \<or> 0 < n \<or> (0 < olderThan \<and> cutoff < ArtCreatedAt row)")
    case True
    then have "collect_loop store keepLast olderThan cutoff dryRun (Suc i) (res\<lparr>Kept := Suc (Kept res)\<rparr>) rows v = (Inr res', w')"
      using step by (simp only: if_True)
    from Cons.IH [OF this] show ?thesis by simp
  next
    case False
    then obtain u where "collect_loop store keepLast olderThan cutoff dryRun (Suc i)
        (res\<lparr>Removed := Removed res @ [ArtID row], FreedBytes := FreedBytes res + ArtSize row\<rparr>) rows u = (Inr res', w')"
      using step by (simp only: if_False andthen_Inr) (elim exE conjE, rule that)
    from Cons.IH [OF this] show ?thesis by simp
  qed
qed simp

text \<open>C36 The collection takes every stored object for an orphan whose digest does not belong to one of the
  thousand newest artifacts that are not deleted, and deletes it: also the content of an artifact that is
  in use but not among them, and every object another user of the same directory has stored there.\<close>

theorem gc_orphans:
  assumes "Collect_Artifacts s store keepLast olderThan dryRun w = (Inr res, w')"
  shows "\<exists>cancelled h entries h'. StList store cancelled h = (Inr entries, h')
    \<and> Orphans res = map StDigest (filter (\<lambda>e. StDigest e \<notin> ArtDigest ` set (ListArtifacts (cat w) [] maxArtifactLimit)) entries)"
proof -
  let ?rows = "ListArtifacts (cat w) [] maxArtifactLimit"
  from assms obtain res1 w1 w2 entries w3 res2 w4 now where
    "collect_loop store (nat keepLast) olderThan (now - olderThan) dryRun 0
       \<lparr>GcDryRun = dryRun, Removed = [], Orphans = [], Kept = 0, FreedBytes = 0\<rparr> ?rows w1 = (Inr res1, w2)"
    and list: "call (StList store) w2 = (Inr entries, w3)"
    and orphans: "orphan_loop store (map ArtDigest ?rows) dryRun res1 entries w3 = (Inr res2, w4)" and "res2 = res"
    unfolding Collect_Artifacts_def andthen_Inr by (auto simp: cat_ask_def with_ctx_def ask_def split: if_splits)
  then have "Orphans res1 = []" using collect_loop_Orphans by fastforce
  moreover have "\<exists>cancelled h h'. StList store cancelled h = (Inr entries, h')"
    using list by (auto simp: call_def split: prod.splits)
  ultimately show ?thesis using orphan_loop_Orphans [OF orphans] \<open>res2 = res\<close> by (auto simp: comp_def)
qed

text \<open>With more than a thousand artifacts that are not deleted there always is such an artifact.\<close>

lemma unlisted_artifact:
  assumes "maxArtifactLimit < length (filter (\<lambda>q. DeletedAt q = None) (artifacts db))"
    and "distinct (map ArtDigest (filter (\<lambda>q. DeletedAt q = None) (artifacts db)))"
  shows "\<exists>q \<in> set (artifacts db). DeletedAt q = None \<and> ArtDigest q \<notin> ArtDigest ` set (ListArtifacts db [] maxArtifactLimit)"
proof (rule ccontr)
  let ?alive = "filter (\<lambda>q. DeletedAt q = None) (artifacts db)"
  let ?listed = "ListArtifacts db [] maxArtifactLimit"
  assume "\<not> ?thesis"
  then have "set (map ArtDigest ?alive) \<subseteq> set (map ArtDigest ?listed)" by auto
  then have "card (set (map ArtDigest ?alive)) \<le> card (set (map ArtDigest ?listed))" by (intro card_mono) simp
  also have "\<dots> \<le> length (map ArtDigest ?listed)" by (rule card_length)
  also have "\<dots> \<le> maxArtifactLimit" by (simp add: ListArtifacts_def newest_def)
  finally show False using assms by (simp only: distinct_card length_map)
qed

definition shared_store :: "string list StorageBackend" where
  "shared_store = \<lparr>StPut = (\<lambda>_ _ _ h. (Inl Interrupted, h)), StOpen = (\<lambda>_ _ h. (Inl Interrupted, h)),
     StStat = (\<lambda>_ _ h. (Inl Interrupted, h)), StDelete = (\<lambda>d _ h. (Inr (), removeAll d h)),
     StList = (\<lambda>_ h. (Inr (map (\<lambda>d. \<lparr>StDigest = d, StSize = 1\<rparr>) h), h))\<rparr>"

definition shared_world :: "string list World" where
  "shared_world = \<lparr>ops = empty_db, cat = empty_cat, bks = empty_backups, host = [''backup1''], clock = 0, lag = (\<lambda>_. 0),
     reads = 0, cancel_at = None\<rparr>"

definition shared_service :: "string list ArtifactService" where
  "shared_service = \<lparr>asStore = Some shared_store, asPolicy = \<lparr>MaxUploadBytes = 0, QuotaBytes = 0\<rparr>, DigestOf = (\<lambda>s. s)\<rparr>"

theorem gc_orphans_witness:
  "case Collect_Artifacts shared_service shared_store 0 0 False shared_world of
     (Inl _, _) \<Rightarrow> False
   | (Inr res, w') \<Rightarrow> host w' = [] \<and> Orphans res = [''backup1'']
       \<and> (\<exists>cancelled h entries h'. StList shared_store cancelled h = (Inr entries, h')
            \<and> Orphans res = map StDigest (filter (\<lambda>e. StDigest e \<notin> ArtDigest ` set (ListArtifacts empty_cat [] maxArtifactLimit)) entries))"
proof -
  have "case Collect_Artifacts shared_service shared_store 0 0 False shared_world of
     (Inl _, _) \<Rightarrow> False | (Inr res, w') \<Rightarrow> host w' = [] \<and> Orphans res = [''backup1'']" by code_simp
  then obtain res w' where run: "Collect_Artifacts shared_service shared_store 0 0 False shared_world = (Inr res, w')"
    and "host w' = []" "Orphans res = [''backup1'']" by (auto split: prod.splits sum.splits)
  with gc_orphans [OF run] show ?thesis by (simp add: shared_world_def)
qed

end
