(* ===== verification/SecretFiles.thy ===== *)
theory SecretFiles
  imports Secret Effects UnixFs
begin

text \<open>
  Resolving a reference to a secret at the moment of its use (\<open>internal/adapters/secret/resolver.go\<close>), on
  the tree with symbolic links.

  The file system does not change between the calls of one resolution. The environment is a function; the
  flag says whether the context has ended when the file has been read.
\<close>

section \<open>Resolving\<close>

definition maxSecretBytes :: int where "maxSecretBytes = 65536"

text \<open>\<open>filepath.EvalSymlinks\<close> follows at most 255 links and fails for what does not exist.\<close>

definition link_walk :: "UFs \<Rightarrow> string \<Rightarrow> fs_error + string list" where
  "link_walk fs p = walk fs True 255 [] (Split CHR ''/'' p)"

definition EvalSymlinks :: "UFs \<Rightarrow> string \<Rightarrow> string option" where
  "EvalSymlinks fs p =
     (case link_walk fs p of
        Inl _ \<Rightarrow> None
      | Inr q \<Rightarrow> if q \<noteq> [] \<and> node_at fs q = None then None else Some (abs_path q))"

fun withinAllowedDirectory :: "UFs \<Rightarrow> string list \<Rightarrow> string \<Rightarrow> bool" where
  "withinAllowedDirectory fs [] path = False"
| "withinAllowedDirectory fs (dir # dirs) path =
     (case EvalSymlinks fs dir of
        None \<Rightarrow> withinAllowedDirectory fs dirs path
      | Some resolvedDir \<Rightarrow>
          if path = resolvedDir then False
          else if prefix (resolvedDir @ ''/'') path then True
          else withinAllowedDirectory fs dirs path)"

definition trim_line_end :: "string \<Rightarrow> string" where
  "trim_line_end s = rev (dropWhile (\<lambda>c. c = CHR 0x0D \<or> c = CHR 0x0A) (rev s))"

definition unresolved :: "fault + string" where "unresolved = Inl (Fault CodeSecretUnresolved)"

text \<open>Octal 077 are the last six bits of a mode.\<close>

definition resolveFile :: "string list \<Rightarrow> UFs \<Rightarrow> bool \<Rightarrow> string \<Rightarrow> fault + string" where
  "resolveFile dirs fs cancelled path =
     (if \<not> PathIsAbs path then unresolved
      else case EvalSymlinks fs path of
        None \<Rightarrow> unresolved
      | Some resolved \<Rightarrow>
          if \<not> withinAllowedDirectory fs dirs resolved then unresolved
          else case ustat fs resolved of
            Inl _ \<Rightarrow> unresolved
          | Inr info \<Rightarrow>
              (case kind info of
                 File data \<Rightarrow>
                   if mode info mod 64 \<noteq> 0 then unresolved
                   else if maxSecretBytes < int (length data) then unresolved
                   else if cancelled then Inl Interrupted
                   else if trim_line_end data = [] then unresolved
                   else Inr (trim_line_end data)
               | _ \<Rightarrow> unresolved))"

definition resolveEnv :: "(string \<Rightarrow> string option) \<Rightarrow> string \<Rightarrow> fault + string" where
  "resolveEnv lookupEnv name =
     (case lookupEnv name of None \<Rightarrow> unresolved | Some v \<Rightarrow> if v = [] then unresolved else Inr v)"

definition Resolver_Resolve ::
    "string list \<Rightarrow> (string \<Rightarrow> string option) \<Rightarrow> UFs \<Rightarrow> bool \<Rightarrow> SecretRef \<Rightarrow> fault + string" where
  "Resolver_Resolve dirs lookupEnv fs cancelled ref =
     (case SecretRef_Validate ref of
        Some e \<Rightarrow> Inl (Fault e)
      | None \<Rightarrow>
          (case RefKind ref of
             SecretKindEnv \<Rightarrow> resolveEnv lookupEnv (RefName ref)
           | SecretKindFile \<Rightarrow> resolveFile dirs fs cancelled (RefName ref)
           | _ \<Rightarrow> unresolved))"

section \<open>Resolved paths\<close>

lemma dirs_along_butlast: "dirs_along fs p \<Longrightarrow> dirs_along fs (butlast p)"
  by (simp add: butlast_conv_take dirs_along_take)

text \<open>What a walk arrives at lies below real directories only and is no link.\<close>

definition real_path :: "UFs \<Rightarrow> string list \<Rightarrow> bool" where
  "real_path fs q \<longleftrightarrow> (\<forall>s \<in> set q. plain_segment s) \<and> dirs_along fs (butlast q)
     \<and> (\<forall>n t. node_at fs q = Some n \<longrightarrow> kind n \<noteq> Link t)"

lemma real_path_dirs: "\<forall>s \<in> set q. plain_segment s \<Longrightarrow> dirs_along fs q \<Longrightarrow> q = [] \<or> real_path fs q"
proof (cases q rule: rev_cases)
  case (snoc p s)
  assume "\<forall>s \<in> set q. plain_segment s" "dirs_along fs q"
  moreover have "dir_at fs q" using \<open>dirs_along fs q\<close> by (simp add: snoc dirs_along_snoc)
  ultimately show ?thesis
    by (auto simp: real_path_def dirs_along_butlast dir_at_def split: option.splits)
qed simp

lemma walk_real:
  "walk fs follow n cur ss = Inr q \<Longrightarrow> follow \<Longrightarrow> \<forall>s \<in> set cur. plain_segment s \<Longrightarrow> dirs_along fs cur \<Longrightarrow>
     \<forall>s \<in> set ss. CHR ''/'' \<notin> set s \<Longrightarrow> q = [] \<or> real_path fs q"
proof (induction fs follow n cur ss arbitrary: q rule: walk.induct)
  case (1 fs follow n cur)
  then show ?case using real_path_dirs by simp
next
  case (2 fs follow n cur s ss)
  show ?case
  proof (cases "s = [] \<or> s = ''.''")
    case True
    then have "walk fs follow n cur ss = Inr q" using "2.prems"(1) by simp
    from "2.IH"(1) [OF True this] "2.prems" show ?thesis by simp
  next
    case plain: False
    show ?thesis
    proof (cases "s = ''..''")
      case True
      then have "walk fs follow n (butlast cur) ss = Inr q" using "2.prems"(1) by simp
      from "2.IH"(2) [OF plain True this] "2.prems" dirs_along_butlast show ?thesis by (auto dest: in_set_butlastD)
    next
      case False
      have s: "plain_segment s" using plain False "2.prems"(5) by (simp add: plain_segment_def)
      have end_path: "real_path fs (cur @ [s])" if "\<forall>n t. node_at fs (cur @ [s]) = Some n \<longrightarrow> kind n \<noteq> Link t"
        using that s "2.prems" by (simp add: real_path_def)
      show ?thesis
      proof (cases "node_at fs (cur @ [s])")
        case None
        then show ?thesis using "2.prems" plain False end_path by (auto split: if_splits)
      next
        case (Some node)
        show ?thesis
        proof (cases "kind node")
          case (File c)
          then show ?thesis using "2.prems" plain False Some end_path by (auto split: if_splits)
        next
          case Dir
          then have "dirs_along fs (cur @ [s])" using "2.prems"(4) Some by (simp add: dirs_along_snoc dir_at_def)
          moreover have "walk fs follow n (cur @ [s]) ss = Inr q" using "2.prems"(1) plain False Some Dir by simp
          ultimately show ?thesis using "2.IH"(3) [OF plain False Some Dir] "2.prems" s by simp
        next
          case (Link t)
          then obtain m where "n = Suc m" and w: "walk fs follow m (if PathIsAbs t then [] else cur) (Split CHR ''/'' t @ ss) = Inr q"
            using "2.prems"(1,2) plain False Some by (auto split: nat.splits)
          show ?thesis
            by (rule "2.IH"(4) [OF plain False Some Link _ \<open>n = Suc m\<close> w])
              (use "2.prems" Split_parts [of _ "CHR ''/''" t] in \<open>auto split: if_splits\<close>)
        qed
      qed
    qed
  qed
qed

lemma EvalSymlinks_real:
  assumes "EvalSymlinks fs p = Some r"
  obtains q where "r = abs_path q" and "q = [] \<or> real_path fs q" and "q \<noteq> [] \<Longrightarrow> node_at fs q \<noteq> None"
    and "link_walk fs p = Inr q"
  using assms walk_real [of fs True 255 "[]" "Split CHR ''/'' p"] Split_parts [of _ "CHR ''/''" p]
  by (auto simp: EvalSymlinks_def link_walk_def split: sum.splits if_splits)

lemma ustat_real:
  assumes "real_path fs q" and "q \<noteq> []"
  shows "ustat fs (abs_path q) = (case node_at fs q of None \<Rightarrow> Inl NotExist | Some n \<Rightarrow> Inr n)"
proof -
  from assms obtain p s where q: "q = p @ [s]" by (cases q rule: rev_cases) auto
  have "resolve fs True (abs_path (p @ [s])) = Inr (p @ [s])"
    using assms by (intro resolve_plain) (auto simp: real_path_def q)
  then show ?thesis by (simp add: ustat_def q)
qed

lemma within_root: "\<not> withinAllowedDirectory fs dirs (abs_path [])"
proof (induction dirs)
  case (Cons dir dirs)
  have "\<not> prefix (r @ ''/'') ''/''" if "EvalSymlinks fs dir = Some r" for r
  proof -
    from that have "r \<noteq> []" by (auto simp: EvalSymlinks_def abs_path_def split: sum.splits if_splits)
    then show ?thesis by (cases r) auto
  qed
  then show ?case using Cons by (auto simp: abs_path_def split: option.splits)
qed simp

lemma within_below:
  assumes "withinAllowedDirectory fs dirs (abs_path q)" and "q \<noteq> []" and "\<forall>s \<in> set q. plain_segment s"
  shows "\<exists>dir \<in> set dirs. \<exists>d. link_walk fs dir = Inr d \<and> strict_prefix d q"
  using assms(1)
proof (induction dirs)
  case (Cons dir dirs)
  show ?case
  proof (cases "EvalSymlinks fs dir")
    case None
    then show ?thesis using Cons by auto
  next
    case (Some r)
    from EvalSymlinks_real [OF Some] obtain d where d: "r = abs_path d" "d = [] \<or> real_path fs d"
      "link_walk fs dir = Inr d" by metis
    have plain: "\<forall>s \<in> set d \<union> set q. plain_segment s" using d(2) assms(3) by (auto simp: real_path_def)
    show ?thesis
    proof (cases "prefix (abs_path d @ ''/'') (abs_path q)")
      case True
      then have "strict_prefix d q"
        using assms(2) abs_path_strictly_below [OF _ assms(2) plain] by (cases "d = []") (auto simp: strict_prefix_def)
      then show ?thesis using d(3) by auto
    next
      case False
      then show ?thesis using Cons d(1) Some by (auto split: if_splits)
    qed
  qed
qed simp

text \<open>C37 A secret that is read from a file is the content, without the line end, of a regular file that nobody
  else may use, of at most 64 KiB, and that file really lies below one of the allowed directories: links in the
  path and in the directories are followed first, so no link leads out.\<close>

theorem file_secret_confined:
  assumes "Resolver_Resolve dirs lookupEnv fs cancelled ref = Inr v" and "RefKind ref = SecretKindFile"
  shows "\<exists>q info data. link_walk fs (RefName ref) = Inr q \<and> node_at fs q = Some info
    \<and> kind info = File data \<and> v = trim_line_end data \<and> v \<noteq> [] \<and> mode info mod 64 = 0 \<and> int (length data) \<le> maxSecretBytes
    \<and> (\<exists>dir \<in> set dirs. \<exists>d. link_walk fs dir = Inr d \<and> strict_prefix d q)"
proof -
  have content: "resolveFile dirs fs cancelled (RefName ref) = Inr v"
    using assms by (simp add: Resolver_Resolve_def split: option.splits)
  then obtain r where r: "EvalSymlinks fs (RefName ref) = Some r" and within: "withinAllowedDirectory fs dirs r"
    by (auto simp: resolveFile_def unresolved_def split: if_splits option.splits)
  from EvalSymlinks_real [OF r] obtain q where q: "r = abs_path q" "q = [] \<or> real_path fs q"
    and w: "link_walk fs (RefName ref) = Inr q" by metis
  from content r within obtain info data where info: "ustat fs r = Inr info" "kind info = File data" "mode info mod 64 = 0"
    "int (length data) \<le> maxSecretBytes" "trim_line_end data \<noteq> []" "v = trim_line_end data"
    by (auto simp: resolveFile_def unresolved_def split: if_splits option.splits sum.splits content.splits)
  have "q \<noteq> []"
  proof
    assume "q = []"
    then have "\<not> withinAllowedDirectory fs dirs r"
      unfolding q(1) using within_root by simp
    then show False using within by simp
  qed
  then have real: "real_path fs q" using q(2) by simp
  then have "node_at fs q = Some info" using info(1) ustat_real [OF real \<open>q \<noteq> []\<close>] by (simp add: q(1) split: option.splits)
  moreover have "\<forall>s \<in> set q. plain_segment s" using real by (simp add: real_path_def)
  ultimately show ?thesis using w info within_below [OF within [unfolded q(1)] \<open>q \<noteq> []\<close>] by metis
qed

text \<open>A secret behind a link within the allowed directory, and one that a link leads out of it.\<close>

definition secret_tree :: UFs where
  "secret_tree = \<lparr>names = [([''etc''], 1), ([''etc'', ''keys''], 2), ([''etc'', ''keys'', ''db''], 3), ([''etc'', ''keys'', ''out''], 4),
       ([''etc'', ''keys'', ''real''], 5), ([''etc'', ''shadow''], 6)],
     inodes = [(1, \<lparr>kind = Dir, mode = 493, owner = (0, 0)\<rparr>), (2, \<lparr>kind = Dir, mode = 493, owner = (0, 0)\<rparr>),
       (3, \<lparr>kind = Link ''real'', mode = 511, owner = (0, 0)\<rparr>), (4, \<lparr>kind = Link ''../shadow'', mode = 511, owner = (0, 0)\<rparr>),
       (5, \<lparr>kind = File [CHR ''k'', CHR 0x0A], mode = 384, owner = (0, 0)\<rparr>),
       (6, \<lparr>kind = File ''root'', mode = 384, owner = (0, 0)\<rparr>)],
     next_inode = 7, ucalls = 0, ufaulty = (\<lambda>_. False)\<rparr>"

lemma secret_tree_out:
  "Resolver_Resolve [''/etc/keys''] (\<lambda>_. None) secret_tree False \<lparr>RefKind = SecretKindFile, RefName = ''/etc/keys/out''\<rparr> = unresolved"
  by code_simp

theorem file_secret_confined_witness:
  "\<exists>q info. link_walk secret_tree ''/etc/keys/db'' = Inr q \<and> node_at secret_tree q = Some info
     \<and> mode info mod 64 = 0 \<and> (\<exists>d. link_walk secret_tree ''/etc/keys'' = Inr d \<and> strict_prefix d q)"
proof -
  let ?ref = "\<lparr>RefKind = SecretKindFile, RefName = ''/etc/keys/db''\<rparr>"
  have "Resolver_Resolve [''/etc/keys''] (\<lambda>_. None) secret_tree False ?ref = Inr ''k''" by code_simp
  from file_secret_confined [OF this] show ?thesis
    by (auto simp del: split_paired_Ex)
qed

end
