(* ===== verification/CatalogOps.thy ===== *)
theory CatalogOps
  imports Authz
begin

text \<open>
  The services of the catalogue and of the manifests (\<open>internal/application/catalog.go\<close>,
  \<open>internal/application/specstore.go\<close>) over the tables of \<open>Catalog\<close>. The identifier that is generated and
  the time are arguments. A change returns its result and the new tables.
\<close>

section \<open>Applications and releases\<close>

definition maxCatalogLimit :: int where "maxCatalogLimit = 1000"
definition defaultCatalogLimit :: nat where "defaultCatalogLimit = 100"

definition Catalog_CreateApplication ::
    "CatDb \<Rightarrow> string \<Rightarrow> time \<Rightarrow> string \<Rightarrow> (string \<times> string) list \<Rightarrow> (ErrorCode + Application) \<times> CatDb" where
  "Catalog_CreateApplication db i now name labels =
     (let app = \<lparr>AppID = i, AppName = TrimSpace name, AppLabels = labels, AppCreatedAt = now, AppUpdatedAt = now\<rparr>
      in case CreateApplication db app of (Some e, db') \<Rightarrow> (Inl e, db') | (None, db') \<Rightarrow> (Inr app, db'))"

definition Catalog_ListApplications :: "CatDb \<Rightarrow> Application list" where
  "Catalog_ListApplications db = ListApplications db"

definition Catalog_CreateRelease ::
    "CatDb \<Rightarrow> string \<Rightarrow> time \<Rightarrow> string \<Rightarrow> string \<Rightarrow> string \<Rightarrow> (string \<times> string) list \<Rightarrow> string \<Rightarrow> (ErrorCode + Release) \<times> CatDb" where
  "Catalog_CreateRelease db i now appRef artifactRef version labels createdBy =
     (case Catalog_GetApplication db appRef of
        Inl e \<Rightarrow> (Inl e, db)
      | Inr app \<Rightarrow>
          (case GetArtifact db artifactRef of
             Inl e \<Rightarrow> (Inl e, db)
           | Inr artifact \<Rightarrow>
               CreateRelease db
                 \<lparr>RelID = i, RelApplicationID = AppID app, ArtifactID = ArtID artifact, RelVersion = TrimSpace version,
                  RelLabels = labels, RelCreatedAt = now, RelCreatedBy = createdBy, RelStatus = ReleaseStatusOther [],
                  RelSlot = NoSlot, Directory = [], ActivatedAt = None, RelFinishedAt = None, RelErrorCode = None,
                  RelErrorMessage = []\<rparr>))"

definition Catalog_GetRelease :: "CatDb \<Rightarrow> string \<Rightarrow> ErrorCode + Release" where
  "Catalog_GetRelease db i = (if blank i then Inl CodeInvalidRequest else GetRelease db i)"

definition Catalog_ListReleases :: "CatDb \<Rightarrow> string \<Rightarrow> int \<Rightarrow> ErrorCode + Release list" where
  "Catalog_ListReleases db appRef limit =
     bind_res (Catalog_GetApplication db appRef) (\<lambda>app.
       Inr (ListReleases db (AppID app) (if limit \<le> 0 \<or> maxCatalogLimit < limit then defaultCatalogLimit else nat limit)))"

section \<open>Manifests\<close>

text \<open>\<open>None\<close> is no manifest. What is stored is the manifest with the defaults that validation filled in.\<close>

definition PutSpec :: "url_parser \<Rightarrow> CatDb \<Rightarrow> string \<Rightarrow> ApplicationSpec option \<Rightarrow> (ErrorCode + ApplicationSpec) \<times> CatDb" where
  "PutSpec urls db ref spec =
     (case spec of
        None \<Rightarrow> (Inl CodeManifestInvalid, db)
      | Some s \<Rightarrow>
          (case Catalog_GetApplication db ref of
             Inl e \<Rightarrow> (Inl e, db)
           | Inr app \<Rightarrow>
               (case ApplicationSpec_Validate urls s of
                  Inl e \<Rightarrow> (Inl e, db)
                | Inr s' \<Rightarrow>
                    (case PutApplicationSpec db (AppID app) s' of
                       (Some e, db') \<Rightarrow> (Inl e, db')
                     | (None, db') \<Rightarrow> (Inr s', db')))))"

definition GetSpec :: "CatDb \<Rightarrow> string \<Rightarrow> ErrorCode + ApplicationSpec" where
  "GetSpec db ref = bind_res (Catalog_GetApplication db ref) (\<lambda>app. GetApplicationSpec db (AppID app))"

section \<open>Properties\<close>

lemma PutSpec_Inr:
  assumes "PutSpec urls db ref (Some s) = (Inr t, db')"
  obtains app where "Catalog_GetApplication db ref = Inr app" and "ApplicationSpec_Validate urls s = Inr t"
    and "PutApplicationSpec db (AppID app) t = (None, db')"
  using assms by (auto simp: PutSpec_def split: sum.splits prod.splits option.splits)

lemma PutApplicationSpec_tables:
  "PutApplicationSpec db app t = (None, db') \<Longrightarrow> applications db' = applications db
     \<and> application_specs db' = AList.update (app, None) t (application_specs db)"
  by (auto simp: PutApplicationSpec_def putSpec_def split: sum.splits if_splits)

text \<open>What was stored is read back, and no other application's manifest changes.\<close>

lemma spec_put_get:
  assumes "PutSpec urls db ref (Some s) = (Inr t, db')"
  shows "GetSpec db' ref = Inr t"
    and "Catalog_GetApplication db ref = Inr app \<Longrightarrow> other \<noteq> AppID app \<Longrightarrow>
      GetApplicationSpec db' other = GetApplicationSpec db other"
proof -
  from PutSpec_Inr [OF assms] obtain a where a: "Catalog_GetApplication db ref = Inr a"
    and put: "PutApplicationSpec db (AppID a) t = (None, db')" by metis
  note tables = PutApplicationSpec_tables [OF put]
  have "Catalog_GetApplication db' ref = Inr a"
    using a tables by (simp add: Catalog_GetApplication_def GetApplication_def split: if_splits)
  then show "GetSpec db' ref = Inr t"
    using tables by (simp add: GetSpec_def GetApplicationSpec_def update_conv')
  show "GetApplicationSpec db' other = GetApplicationSpec db other" if "Catalog_GetApplication db ref = Inr app" "other \<noteq> AppID app"
    using that a tables by (simp add: GetApplicationSpec_def update_conv')
qed

lemma Validate_rename:
  assumes "ApplicationSpec_Validate urls s = Inr t" and "applicationNamePattern b"
  shows "\<exists>t'. ApplicationSpec_Validate urls (s\<lparr>SpApplication := b\<rparr>) = Inr t' \<and> SpApplication t' = b
    \<and> (UnitName (SpSystemd s) = [] \<and> \<not> BlueGreen s \<longrightarrow> UnitName (SpSystemd t') = b @ unit_suffix)"
proof -
  let ?s = "s\<lparr>SpApplication := b\<rparr>"
  have same: "validateBlueGreen ?s = validateBlueGreen s" "SpecNginx_validate n ?s = SpecNginx_validate n s"
    "BlueGreen ?s = BlueGreen s" for n
    by (simp_all add: validateBlueGreen_def BlueGreen_def SpecNginx_validate_def)
  from assms(1) obtain a k where "SpecArtifact_validate (SpArtifact s) = Inr a" "SpecRelease_validate (KeepLast s) = Inr k"
    unfolding Validate_Inr by blast
  then have "ApplicationSpec_Validate urls ?s = Inr (applyDefaults (?s\<lparr>SpArtifact := a, KeepLast := k\<rparr>))"
    using assms unfolding Validate_Inr same by simp
  moreover have "UnitName (SpSystemd (applyDefaults (?s\<lparr>SpArtifact := a, KeepLast := k\<rparr>))) = b @ unit_suffix"
    if "UnitName (SpSystemd s) = []" "\<not> BlueGreen s"
    using that by (simp add: default_systemd_def BlueGreen_def Let_def)
  ultimately show ?thesis by auto
qed


definition two_applications :: CatDb where
  "two_applications =
     snd (Catalog_CreateApplication (snd (Catalog_CreateApplication empty_cat ''app1'' 1 ''shop'' [])) ''app2'' 2 ''billing'' [])"


end
