(* ===== verification/Fleet.thy ===== *)
theory Fleet
  imports Operation Effects GoStrings
begin

text \<open>
  Rolling one version out to many hosts (\<open>internal/fleet/fleet.go\<close>, \<open>exec.go\<close>, \<open>prepare.go\<close>): preparation
  of every host before any is touched, waves, waiting for the operation of a host, and the report.

  A host is a state of type \<open>'h\<close> that only the calls of its client change, so the hosts of one wave do not
  influence each other and the order in which their goroutines run does not matter. The environment says
  when the work on a host starts, how late each reading of the clock is, when the context ends, and
  whether it ends in the pause behind a wave. Progress output and the texts of reasons are not modelled.
\<close>

section \<open>Clients, targets, results\<close>

datatype Action = ActionDeploy | ActionRollback | ActionOther string

record RemoteOperation =
  RoStatus :: Status
  RoErrorCode :: "ErrorCode option"

record DeployResponse =
  DrNoop :: bool
  DrOperation :: "string option"
  DrVersion :: string
  DrSlot :: string
  DrReleaseSlot :: string

record 'h HostClient =
  HcIdentity :: "('h, unit) io"
  HcGetApplication :: "string \<Rightarrow> ('h, unit) io"
  HcGetArtifact :: "string \<Rightarrow> ('h, unit) io"
  HcUploadArtifact :: "string \<Rightarrow> string \<Rightarrow> ('h, unit) io"
  HcListReleases :: "string \<Rightarrow> nat \<Rightarrow> ('h, string list) io"
  HcDeploy :: "string \<Rightarrow> string \<Rightarrow> string \<Rightarrow> string \<Rightarrow> ('h, DeployResponse) io"
  HcRollback :: "string \<Rightarrow> string \<Rightarrow> string \<Rightarrow> string \<Rightarrow> ('h, DeployResponse) io"
  HcGetOperation :: "string \<Rightarrow> ('h, RemoteOperation) io"

record 'h Target =
  TargetName :: string
  TargetAddress :: string
  TargetClient :: "'h HostClient"

text \<open>\<open>Undecided\<close> is the empty status.\<close>

datatype FleetStatus = FleetSucceeded | FleetFailed | FleetSkipped | FleetNotRun | Undecided

record HostResult =
  HrHost :: string
  HrAddress :: string
  HrStatus :: FleetStatus
  HrNoop :: bool
  HrOperationID :: string
  HrVersion :: string
  HrSlot :: string
  HrErrorCode :: "ErrorCode option"

record 'h Request =
  RqAction :: Action
  RqApplication :: string
  RqManifest :: string
  RqVersion :: string
  RqDigest :: string
  ArtifactPath :: string
  RqTargets :: "'h Target list"
  BatchID :: string
  BatchSize :: int
  Concurrency :: int
  Pause :: duration
  AllowPartial :: bool
  KeepGoing :: bool
  RqCreatedBy :: string
  PollInterval :: duration
  PollTimeout :: duration
  RqUpload :: "('h Target \<Rightarrow> string \<Rightarrow> ('h, unit) io) option"

definition defaultPollInterval :: duration where "defaultPollInterval = 500 * millisecond"
definition defaultPollTimeout :: duration where "defaultPollTimeout = 15 * minute"

record Report =
  Results :: "HostResult list"
  StoppedEarly :: bool
  Succeeded :: nat
  Failed :: nat
  Skipped :: nat
  NotRun :: nat

record FleetEnv =
  WorkStart :: "nat \<Rightarrow> time"
  ClockLag :: "nat \<Rightarrow> nat \<Rightarrow> nat"
  ContextEnds :: "time option"
  CutInPause :: "nat \<Rightarrow> bool"

definition count_status :: "FleetStatus \<Rightarrow> HostResult list \<Rightarrow> nat" where
  "count_status st rs = length (filter (\<lambda>r. HrStatus r = st) rs)"

definition make_report :: "HostResult list \<Rightarrow> bool \<Rightarrow> Report" where
  "make_report rs early = \<lparr>Results = rs, StoppedEarly = early, Succeeded = count_status FleetSucceeded rs,
     Failed = count_status FleetFailed rs, Skipped = count_status FleetSkipped rs, NotRun = count_status FleetNotRun rs\<rparr>"

section \<open>The request\<close>

definition check_request :: "'h Request \<Rightarrow> ErrorCode option" where
  "check_request q =
     first_err [
       fail_if (RqAction q \<noteq> ActionDeploy \<and> RqAction q \<noteq> ActionRollback) CodeInvalidRequest,
       fail_if (blank (RqApplication q)) CodeInvalidRequest,
       fail_if (RqTargets q = []) CodeInvalidRequest,
       fail_if (BatchID q = []) CodeInternal,
       fail_if (RqAction q = ActionDeploy \<and> RqDigest q = []) CodeInternal]"

definition fill_request :: "'h Request \<Rightarrow> 'h Request" where
  "fill_request q =
     (let size = (if BatchSize q \<le> 0 then int (length (RqTargets q)) else BatchSize q)
      in q\<lparr>BatchSize := size,
           Concurrency := (if Concurrency q \<le> 0 \<or> size < Concurrency q then size else Concurrency q),
           PollInterval := (if PollInterval q \<le> 0 then defaultPollInterval else PollInterval q),
           PollTimeout := (if PollTimeout q \<le> 0 then defaultPollTimeout else PollTimeout q)\<rparr>)"

fun action_name :: "Action \<Rightarrow> string" where
  "action_name ActionDeploy = ''deploy''"
| "action_name ActionRollback = ''rollback''"
| "action_name (ActionOther s) = s"

definition idempotencyKey :: "'h Request \<Rightarrow> string" where
  "idempotencyKey q = BatchID q @ '':'' @ action_name (RqAction q) @ '':'' @ RqApplication q"

section \<open>Preparation\<close>

definition ensureArtifact :: "'h Request \<Rightarrow> 'h Target \<Rightarrow> ('h, unit) io" where
  "ensureArtifact q t =
     attempt (HcGetArtifact (TargetClient t) (RqDigest q))
       (\<lambda>err. if CodeOf err \<noteq> CodeArtifactNotFound then raise err
              else case RqUpload q of
                Some upload \<Rightarrow> upload t (RqDigest q)
              | None \<Rightarrow>
                  if ArtifactPath q \<noteq> [] then HcUploadArtifact (TargetClient t) (ArtifactPath q) (RqCreatedBy q)
                  else raise (Fault CodeArtifactNotFound))
       (\<lambda>_. give ())"

definition ensureRollbackTarget :: "'h Request \<Rightarrow> 'h Target \<Rightarrow> ('h, unit) io" where
  "ensureRollbackTarget q t =
     (if RqVersion q = [] then give ()
      else andthen (HcListReleases (TargetClient t) (RqApplication q) 200) (\<lambda>versions.
           guard_io (RqVersion q \<in> set versions) CodeReleaseNotFound))"

definition prepareOne :: "'h Request \<Rightarrow> 'h Target \<Rightarrow> ('h, unit) io" where
  "prepareOne q t =
     andthen (HcIdentity (TargetClient t)) (\<lambda>_.
     andthen (attempt (HcGetApplication (TargetClient t) (RqApplication q)) (\<lambda>err. raise (Fault (CodeOf err))) give) (\<lambda>_.
     case RqAction q of
       ActionDeploy \<Rightarrow> ensureArtifact q t
     | ActionRollback \<Rightarrow> ensureRollbackTarget q t
     | _ \<Rightarrow> give ()))"

type_synonym 'h site = "HostResult \<times> 'h"

definition prepare_site :: "'h Request \<Rightarrow> 'h Target \<Rightarrow> 'h site \<Rightarrow> 'h site" where
  "prepare_site q t site =
     (case prepareOne q t (snd site) of
        (Inl _, h) \<Rightarrow> ((fst site)\<lparr>HrStatus := FleetSkipped\<rparr>, h)
      | (Inr _, h) \<Rightarrow> ((fst site)\<lparr>HrStatus := Undecided\<rparr>, h))"

definition prepareAll :: "'h Request \<Rightarrow> 'h site list \<Rightarrow> 'h site list" where
  "prepareAll q sites = map2 (prepare_site q) (RqTargets q) sites"

section \<open>One host\<close>

definition terminal :: "Status \<Rightarrow> bool" where
  "terminal st \<longleftrightarrow> st \<in> {StatusSucceeded, StatusFailed, StatusCancelled}"

text \<open>One round: ask, look at the clock, sleep. \<open>None\<close>: the end of the operation was not seen. The interval is
  positive for every request that was filled in.\<close>

function wait_loop ::
    "(nat \<Rightarrow> nat) \<Rightarrow> time option \<Rightarrow> duration \<Rightarrow> time \<Rightarrow> 'h HostClient \<Rightarrow> string \<Rightarrow> nat \<Rightarrow> time \<Rightarrow> 'h
      \<Rightarrow> RemoteOperation option \<times> 'h" where
  "wait_loop late ends interval deadline client i k t h =
     (let (answer, h') = HcGetOperation client i h;
          now = t + int (late k);
          again = (if deadline < now then (None, h')
                   else if (case ends of None \<Rightarrow> False | Some e \<Rightarrow> e \<le> now + interval) then (None, h')
                   else wait_loop late ends interval deadline client i (Suc k) (now + max 1 interval) h')
      in case answer of
           Inl _ \<Rightarrow> again
         | Inr operation \<Rightarrow> if terminal (RoStatus operation) then (Some operation, h') else again)"
  by pat_completeness auto

termination wait_loop
  by (relation "measure (\<lambda>(late, ends, interval, deadline, client, i, k, t, h). nat (deadline + 1 - t))") auto

declare wait_loop.simps [simp del]

definition waitForOperation ::
    "FleetEnv \<Rightarrow> 'h Request \<Rightarrow> nat \<Rightarrow> 'h Target \<Rightarrow> string \<Rightarrow> 'h \<Rightarrow> RemoteOperation option \<times> 'h" where
  "waitForOperation env q index t i h =
     wait_loop (ClockLag env index) (ContextEnds env) (PollInterval q) (WorkStart env index + PollTimeout q)
       (TargetClient t) i 0 (WorkStart env index) h"

definition submit :: "'h Request \<Rightarrow> 'h Target \<Rightarrow> ('h, DeployResponse) io" where
  "submit q t =
     (if RqAction q = ActionRollback
      then HcRollback (TargetClient t) (RqApplication q) (RqVersion q) (idempotencyKey q) (RqCreatedBy q)
      else HcDeploy (TargetClient t) (RqApplication q) (RqManifest q) (idempotencyKey q) (RqCreatedBy q))"

definition runOne :: "FleetEnv \<Rightarrow> 'h Request \<Rightarrow> nat \<Rightarrow> 'h Target \<Rightarrow> 'h site \<Rightarrow> 'h site" where
  "runOne env q index t site =
     (case submit q t (snd site) of
        (Inl err, h) \<Rightarrow> ((fst site)\<lparr>HrStatus := FleetFailed, HrErrorCode := Some (CodeOf err)\<rparr>, h)
      | (Inr response, h) \<Rightarrow>
          let r = (fst site)\<lparr>HrVersion := DrVersion response,
                    HrSlot := (if DrSlot response = [] then DrReleaseSlot response else DrSlot response)\<rparr>
          in (case (DrNoop response, DrOperation response) of
                (False, Some i) \<Rightarrow>
                  let r' = r\<lparr>HrOperationID := i\<rparr>
                  in (case waitForOperation env q index t i h of
                        (None, h') \<Rightarrow> (r'\<lparr>HrStatus := FleetFailed, HrErrorCode := Some CodeBatchFailed\<rparr>, h')
                      | (Some operation, h') \<Rightarrow>
                          (if RoStatus operation \<noteq> StatusSucceeded
                           then r'\<lparr>HrStatus := FleetFailed, HrErrorCode := RoErrorCode operation\<rparr>
                           else r'\<lparr>HrStatus := FleetSucceeded\<rparr>, h'))
              | _ \<Rightarrow> (r\<lparr>HrStatus := FleetSucceeded, HrNoop := True\<rparr>, h)))"

section \<open>Waves\<close>

definition runWave :: "FleetEnv \<Rightarrow> 'h Request \<Rightarrow> nat list \<Rightarrow> 'h site list \<Rightarrow> 'h site list" where
  "runWave env q indexes sites =
     fold (\<lambda>i sites. sites[i := runOne env q i (RqTargets q ! i) (sites ! i)]) indexes sites"

definition mark_not_run :: "nat list \<Rightarrow> 'h site list \<Rightarrow> 'h site list" where
  "mark_not_run indexes sites =
     fold (\<lambda>i sites. sites[i := ((fst (sites ! i))\<lparr>HrStatus := FleetNotRun\<rparr>, snd (sites ! i))]) indexes sites"

definition failed_in :: "nat list \<Rightarrow> 'h site list \<Rightarrow> bool" where
  "failed_in indexes sites \<longleftrightarrow> list_ex (\<lambda>i. HrStatus (fst (sites ! i)) = FleetFailed) indexes"

text \<open>The result says whether the batch stopped behind a failed wave, and whether it was cancelled in a
  pause. \<open>n\<close> is one less than the size of a wave, which is positive for every request that was filled in.\<close>

function waves :: "FleetEnv \<Rightarrow> 'h Request \<Rightarrow> nat \<Rightarrow> nat \<Rightarrow> nat list \<Rightarrow> 'h site list \<Rightarrow> 'h site list \<times> bool \<times> bool" where
  "waves env q n wave pending sites =
     (if pending = [] then (sites, False, False)
      else
        let current = take (Suc n) pending; rest = drop (Suc n) pending;
            sites' = runWave env q current sites
        in if failed_in current sites' \<and> \<not> KeepGoing q \<and> rest \<noteq> [] then (mark_not_run rest sites', True, False)
           else if rest \<noteq> [] \<and> 0 < Pause q \<and> CutInPause env wave then (mark_not_run rest sites', False, True)
           else waves env q n (Suc wave) rest sites')"
  by pat_completeness auto

termination waves
  by (relation "measure (\<lambda>(env, q, n, wave, pending, sites). length pending)") auto

declare waves.simps [simp del]

definition undecided :: "'h site list \<Rightarrow> nat list" where
  "undecided sites = filter (\<lambda>i. HrStatus (fst (sites ! i)) = Undecided) [0..<length sites]"

definition start_sites :: "'h Request \<Rightarrow> 'h list \<Rightarrow> 'h site list" where
  "start_sites q hs =
     map2 (\<lambda>t h. (\<lparr>HrHost = TargetName t, HrAddress = TargetAddress t, HrStatus = Undecided, HrNoop = False,
                    HrOperationID = [], HrVersion = [], HrSlot = [], HrErrorCode = None\<rparr>, h)) (RqTargets q) hs"

text \<open>The error of a batch: a code, or the end of the context.\<close>

definition fleet_Run :: "FleetEnv \<Rightarrow> 'h Request \<Rightarrow> 'h list \<Rightarrow> (Report \<times> fault option) \<times> 'h list" where
  "fleet_Run env q0 hs =
     (case check_request q0 of
        Some e \<Rightarrow> ((\<lparr>Results = [], StoppedEarly = False, Succeeded = 0, Failed = 0, Skipped = 0, NotRun = 0\<rparr>, Some (Fault e)), hs)
      | None \<Rightarrow>
          let q = fill_request q0; sites = prepareAll q (start_sites q hs)
          in if list_ex (\<lambda>site. HrStatus (fst site) = FleetSkipped) sites \<and> \<not> AllowPartial q
             then let sites' = mark_not_run (undecided sites) sites
                  in ((make_report (map fst sites') False, Some (Fault CodeBatchPreflightFailed)), map snd sites')
             else case waves env q (nat (BatchSize q) - 1) 0 (undecided sites) sites of
               (sites', early, cancelled) \<Rightarrow>
                 let report = make_report (map fst sites') early
                 in ((report, if cancelled then Some Interrupted
                              else if 0 < count_status FleetFailed (map fst sites') then Some (Fault CodeBatchFailed)
                              else None), map snd sites'))"

section \<open>What happens to a host\<close>

lemma runOne_fields:
  "HrStatus (fst (runOne env q i t site)) = FleetSucceeded \<or> HrStatus (fst (runOne env q i t site)) = FleetFailed"
  "HrHost (fst (runOne env q i t site)) = HrHost (fst site)"
  by (auto simp: runOne_def Let_def split: prod.splits sum.splits bool.splits option.splits)

lemma runWave_nth:
  "distinct indexes \<Longrightarrow> \<forall>i \<in> set indexes. i < length sites \<Longrightarrow> length (runWave env q indexes sites) = length sites
     \<and> (\<forall>j < length sites. runWave env q indexes sites ! j =
          (if j \<in> set indexes then runOne env q j (RqTargets q ! j) (sites ! j) else sites ! j))"
proof (induction indexes arbitrary: sites)
  case (Cons i indexes)
  let ?sites = "sites[i := runOne env q i (RqTargets q ! i) (sites ! i)]"
  have "runWave env q (i # indexes) sites = runWave env q indexes ?sites" by (simp add: runWave_def)
  moreover from Cons have "length (runWave env q indexes ?sites) = length sites
     \<and> (\<forall>j < length sites. runWave env q indexes ?sites ! j =
          (if j \<in> set indexes then runOne env q j (RqTargets q ! j) (?sites ! j) else ?sites ! j))"
    by simp
  ultimately show ?case using Cons.prems by (auto simp: nth_list_update)
qed (simp add: runWave_def)

lemma mark_not_run_nth:
  "distinct indexes \<Longrightarrow> \<forall>i \<in> set indexes. i < length sites \<Longrightarrow> length (mark_not_run indexes sites) = length sites
     \<and> (\<forall>j < length sites. mark_not_run indexes sites ! j =
          (if j \<in> set indexes then ((fst (sites ! j))\<lparr>HrStatus := FleetNotRun\<rparr>, snd (sites ! j)) else sites ! j))"
proof (induction indexes arbitrary: sites)
  case (Cons i indexes)
  let ?sites = "sites[i := ((fst (sites ! i))\<lparr>HrStatus := FleetNotRun\<rparr>, snd (sites ! i))]"
  have "mark_not_run (i # indexes) sites = mark_not_run indexes ?sites" by (simp add: mark_not_run_def)
  moreover from Cons have "length (mark_not_run indexes ?sites) = length sites
     \<and> (\<forall>j < length sites. mark_not_run indexes ?sites ! j =
          (if j \<in> set indexes then ((fst (?sites ! j))\<lparr>HrStatus := FleetNotRun\<rparr>, snd (?sites ! j)) else ?sites ! j))"
    by simp
  ultimately show ?case using Cons.prems by (auto simp: nth_list_update)
qed (simp add: mark_not_run_def)

text \<open>What the waves make of a host, given what they were started on.\<close>

definition settled :: "'h site \<Rightarrow> 'h site \<Rightarrow> bool" where
  "settled before after \<longleftrightarrow>
     HrHost (fst after) = HrHost (fst before) \<and>
     (HrStatus (fst after) \<in> {FleetSucceeded, FleetFailed}
      \<or> HrStatus (fst after) = FleetNotRun \<and> snd after = snd before)"

text \<open>Without \<open>KeepGoing\<close> nothing behind a failed wave is run: \<open>a\<close> and \<open>b\<close> are positions in the list of waiting
  hosts, and \<open>a div m < b div m\<close> says that \<open>b\<close> belongs to a later wave than \<open>a\<close>.\<close>

definition stops :: "nat \<Rightarrow> nat list \<Rightarrow> 'h site list \<Rightarrow> bool" where
  "stops m pending sites \<longleftrightarrow>
     (\<forall>a b. b < length pending \<and> a div m < b div m \<and> HrStatus (fst (sites ! (pending ! a))) = FleetFailed
        \<longrightarrow> HrStatus (fst (sites ! (pending ! b))) = FleetNotRun)"

lemma waves_spec:
  assumes "waves env q n wave pending sites = (sites', early, cancelled)" and "distinct pending"
    and "\<forall>i \<in> set pending. i < length sites"
  shows "length sites' = length sites
    \<and> (\<forall>j < length sites. if j \<in> set pending then settled (sites ! j) (sites' ! j) else sites' ! j = sites ! j)
    \<and> (\<not> KeepGoing q \<longrightarrow> stops (Suc n) pending sites')"
  using assms
proof (induction env q n wave pending sites arbitrary: sites' rule: waves.induct)
  case (1 env q n wave pending sites)
  show ?case
  proof (cases "pending = []")
    case True
    then show ?thesis using 1 by (subst (asm) (2) waves.simps) (simp add: stops_def)
  next
    case False
    let ?current = "take (Suc n) pending" and ?rest = "drop (Suc n) pending"
    let ?run = "runWave env q ?current sites"
    have split: "set pending = set ?current \<union> set ?rest" "set ?current \<inter> set ?rest = {}"
      and parts: "distinct ?current" "distinct ?rest" "\<forall>i \<in> set ?current. i < length sites" "\<forall>i \<in> set ?rest. i < length sites"
      using "1.prems"(2,3) set_append [of ?current ?rest] distinct_append [of ?current ?rest]
      by (simp_all only: append_take_drop_id) (auto dest: in_set_takeD in_set_dropD)
    note run = runWave_nth [OF parts(1,3), of env q]
    have after_run: "settled (sites ! j) (?run ! j)" if "j \<in> set ?current" for j
      using that run parts(3) runOne_fields [of env q j "RqTargets q ! j" "sites ! j"] by (auto simp: settled_def)
    have late: "pending ! b = ?rest ! (b - Suc n) \<and> b - Suc n < length ?rest" if "b < length pending" "Suc n \<le> b" for b
      using that by auto
    show ?thesis
    proof (cases "failed_in ?current ?run \<and> \<not> KeepGoing q \<and> ?rest \<noteq> [] \<or> ?rest \<noteq> [] \<and> 0 < Pause q \<and> CutInPause env wave")
      case True
      then have sites': "sites' = mark_not_run ?rest ?run"
        using "1.prems"(1) False by (subst (asm) waves.simps) (auto simp: Let_def split: if_splits)
      have rest: "\<forall>i \<in> set ?rest. i < length ?run" using parts(4) run by simp
      note mark = mark_not_run_nth [OF parts(2) rest]
      have "stops (Suc n) pending sites'" unfolding stops_def
      proof (intro allI impI)
        fix a b
        assume ab: "b < length pending \<and> a div Suc n < b div Suc n \<and> HrStatus (fst (sites' ! (pending ! a))) = FleetFailed"
        then have "Suc n \<le> b" by (metis div_less gr_implies_not0 not_less)
        then have "pending ! b \<in> set ?rest" using late ab by (metis nth_mem)
        then show "HrStatus (fst (sites' ! (pending ! b))) = FleetNotRun" using mark rest run by (simp add: sites')
      qed
      moreover have "if j \<in> set pending then settled (sites ! j) (sites' ! j) else sites' ! j = sites ! j" if "j < length sites" for j
      proof (cases "j \<in> set ?rest")
        case True
        then have "?run ! j = sites ! j" using run that split(2) by auto
        then show ?thesis using True that mark run split(1) by (simp add: sites' settled_def)
      next
        case False
        then have "sites' ! j = ?run ! j" using mark run that by (simp add: sites')
        then show ?thesis using False that run split(1) after_run [of j] by auto
      qed
      moreover have "length sites' = length sites" using mark run by (simp add: sites')
      ultimately show ?thesis by blast
    next
      case go: False
      then have step: "waves env q n (Suc wave) ?rest ?run = (sites', early, cancelled)"
        using "1.prems"(1) False by (subst (asm) waves.simps) (auto simp: Let_def split: if_splits)
      have rest: "\<forall>i \<in> set ?rest. i < length ?run" using parts(4) run by simp
      from "1.IH" [OF False refl refl refl _ _ step parts(2) rest] go
      have ih: "length sites' = length ?run"
        "\<And>j. j < length ?run \<Longrightarrow> if j \<in> set ?rest then settled (?run ! j) (sites' ! j) else sites' ! j = ?run ! j"
        "\<not> KeepGoing q \<Longrightarrow> stops (Suc n) ?rest sites'"
        by blast+
      have same: "sites' ! j = ?run ! j" if "j \<in> set ?current" for j
        using ih(2) [of j] that parts(3) run split(2) by (auto split: if_splits)
      have "if j \<in> set pending then settled (sites ! j) (sites' ! j) else sites' ! j = sites ! j" if j: "j < length sites" for j
        using ih(2) [of j] j run split after_run [of j] same [of j] by (auto simp: settled_def split: if_splits)
      moreover have "stops (Suc n) pending sites'" if "\<not> KeepGoing q" unfolding stops_def
      proof (intro allI impI)
        fix a b
        assume ab: "b < length pending \<and> a div Suc n < b div Suc n \<and> HrStatus (fst (sites' ! (pending ! a))) = FleetFailed"
        then have b: "Suc n \<le> b" by (metis div_less gr_implies_not0 not_less)
        then have "?rest \<noteq> []" using ab by auto
        show "HrStatus (fst (sites' ! (pending ! b))) = FleetNotRun"
        proof (cases "a < Suc n")
          case True
          then have "pending ! a \<in> set ?current" using ab b by (metis in_set_conv_nth length_take less_le_trans min_less_iff_conj nth_take order_le_less_trans less_imp_le)
          then have "failed_in ?current ?run" using ab same by (auto simp: failed_in_def list_ex_iff)
          then show ?thesis using go that \<open>?rest \<noteq> []\<close> by simp
        next
          case False
          then have "(a - Suc n) div Suc n < (b - Suc n) div Suc n" using ab b by (simp add: le_div_geq)
          have "a < b" using ab by (meson div_le_mono not_less)
          then have places: "pending ! a = ?rest ! (a - Suc n)" "pending ! b = ?rest ! (b - Suc n)" "b - Suc n < length ?rest"
            using late ab b False by simp_all
          have "HrStatus (fst (sites' ! (?rest ! (b - Suc n)))) = FleetNotRun"
            using ih(3) [OF that, unfolded stops_def] \<open>(a - Suc n) div Suc n < (b - Suc n) div Suc n\<close> places ab by metis
          then show ?thesis using places by simp
        qed
      qed
      moreover have "length sites' = length sites" using ih(1) run by simp
      ultimately show ?thesis by blast
    qed
  qed
qed

section \<open>The batch\<close>

text \<open>What a host looks like when everything is prepared and nothing is started.\<close>

definition prepared_site :: "'h Request \<Rightarrow> 'h list \<Rightarrow> nat \<Rightarrow> 'h site" where
  "prepared_site q hs j = prepareAll (fill_request q) (start_sites (fill_request q) hs) ! j"

lemma fill_request_fields [simp]:
  "RqTargets (fill_request q) = RqTargets q" "KeepGoing (fill_request q) = KeepGoing q"
  "AllowPartial (fill_request q) = AllowPartial q"
  by (simp_all add: fill_request_def Let_def)

lemma filled_size: "RqTargets q \<noteq> [] \<Longrightarrow> 0 < BatchSize (fill_request q)"
  by (simp add: fill_request_def Let_def)

lemma prepared:
  assumes "length hs = length (RqTargets q)"
  shows "length (prepareAll (fill_request q) (start_sites (fill_request q) hs)) = length hs"
    and "j < length hs \<Longrightarrow> HrHost (fst (prepared_site q hs j)) = TargetName (RqTargets q ! j)
      \<and> snd (prepared_site q hs j) = snd (prepareOne (fill_request q) (RqTargets q ! j) (hs ! j))
      \<and> HrStatus (fst (prepared_site q hs j)) \<in> {FleetSkipped, Undecided}"
  using assms
  by (auto simp: prepareAll_def start_sites_def prepared_site_def prepare_site_def split: prod.splits sum.splits)

definition outcome :: "'h Request \<Rightarrow> 'h list \<Rightarrow> Report \<Rightarrow> 'h list \<Rightarrow> 'h site list \<Rightarrow> bool" where
  "outcome q hs r hs' sites \<longleftrightarrow>
     length sites = length hs \<and> Results r = map fst sites \<and> hs' = map snd sites
     \<and> (\<forall>j < length hs. if HrStatus (fst (prepared_site q hs j)) = Undecided then settled (prepared_site q hs j) (sites ! j)
          else sites ! j = prepared_site q hs j)"

lemma undecided_set: "set (undecided sites) = {j. j < length sites \<and> HrStatus (fst (sites ! j)) = Undecided}"
  and undecided_distinct: "distinct (undecided sites)"
  by (auto simp: undecided_def)

lemma fleet_run_cases:
  assumes run: "fleet_Run env q hs = ((r, err), hs')" and ok: "check_request q = None"
    and len: "length hs = length (RqTargets q)"
  obtains (refused) sites where "outcome q hs r hs' sites" "\<forall>j < length hs. HrStatus (fst (sites ! j)) \<in> {FleetSkipped, FleetNotRun}"
      "err = Some (Fault CodeBatchPreflightFailed)" "r = make_report (map fst sites) False"
  | (ran) sites early cut' where "outcome q hs r hs' sites" "r = make_report (map fst sites) early"
      "err = (if cut' then Some Interrupted else if 0 < count_status FleetFailed (map fst sites) then Some (Fault CodeBatchFailed) else None)"
      "\<not> KeepGoing q \<longrightarrow> stops (nat (BatchSize (fill_request q)))
         (undecided (prepareAll (fill_request q) (start_sites (fill_request q) hs))) sites"
proof -
  let ?q = "fill_request q"
  let ?sites = "prepareAll ?q (start_sites ?q hs)"
  let ?pending = "undecided ?sites"
  note size = prepared(1) [OF len] and at = prepared(2) [OF len]
  have nth: "?sites ! j = prepared_site q hs j" for j by (simp add: prepared_site_def)
  have inside: "\<forall>i \<in> set ?pending. i < length ?sites" by (simp add: undecided_set)
  have targets: "RqTargets q \<noteq> []" using ok by (auto simp: check_request_def fail_if_def split: if_splits)
  show thesis
  proof (cases "list_ex (\<lambda>site. HrStatus (fst site) = FleetSkipped) ?sites \<and> \<not> AllowPartial q")
    case True
    define final where "final = mark_not_run ?pending ?sites"
    have res: "r = make_report (map fst final) False" "err = Some (Fault CodeBatchPreflightFailed)" "hs' = map snd final"
      using run ok True by (auto simp: fleet_Run_def Let_def final_def)
    note mark = mark_not_run_nth [OF undecided_distinct inside, folded final_def]
    have "length final = length hs" using mark size by simp
    have each: "(if HrStatus (fst (prepared_site q hs j)) = Undecided then settled (prepared_site q hs j) (final ! j)
          else final ! j = prepared_site q hs j) \<and> HrStatus (fst (final ! j)) \<in> {FleetSkipped, FleetNotRun}"
      if "j < length hs" for j
      using that mark at [of j] nth [of j] size by (auto simp: undecided_set settled_def)
    show thesis
    proof (rule refused)
      show "outcome q hs r hs' final" using each \<open>length final = length hs\<close> res by (simp add: outcome_def make_report_def)
      show "\<forall>j < length hs. HrStatus (fst (final ! j)) \<in> {FleetSkipped, FleetNotRun}" using each by blast
    qed (use res in simp_all)
  next
    case False
    obtain final early cut' where waves: "waves env ?q (nat (BatchSize ?q) - 1) 0 ?pending ?sites = (final, early, cut')"
      by (metis prod_cases3)
    have res: "r = make_report (map fst final) early" "hs' = map snd final"
      "err = (if cut' then Some Interrupted else if 0 < count_status FleetFailed (map fst final) then Some (Fault CodeBatchFailed) else None)"
      using run ok False waves by (auto simp: fleet_Run_def Let_def)
    have m: "Suc (nat (BatchSize ?q) - 1) = nat (BatchSize ?q)" using filled_size [OF targets] by simp
    note spec = waves_spec [OF waves undecided_distinct inside, unfolded m]
    have each: "if HrStatus (fst (prepared_site q hs j)) = Undecided then settled (prepared_site q hs j) (final ! j)
          else final ! j = prepared_site q hs j" if "j < length hs" for j
      using that spec nth [of j] size by (auto simp: undecided_set)
    show thesis
    proof (rule ran)
      have "length final = length hs" using spec size by simp
      then show "outcome q hs r hs' final" using each res by (simp add: outcome_def make_report_def)
    qed (use res spec in simp_all)
  qed
qed

lemma outcome_status:
  assumes "outcome q hs r hs' sites" and "length hs = length (RqTargets q)" and "j < length hs"
  shows "HrStatus (fst (sites ! j)) \<in> {FleetSucceeded, FleetFailed, FleetSkipped, FleetNotRun}"
    and "HrHost (fst (sites ! j)) = TargetName (RqTargets q ! j)"
    and "HrStatus (fst (sites ! j)) \<in> {FleetSkipped, FleetNotRun} \<Longrightarrow>
      snd (sites ! j) = snd (prepareOne (fill_request q) (RqTargets q ! j) (hs ! j))"
    and "HrStatus (fst (sites ! j)) = FleetSkipped \<longleftrightarrow> HrStatus (fst (prepared_site q hs j)) = FleetSkipped"
  using assms prepared(2) [OF assms(2,3)] by (auto simp: outcome_def settled_def split: if_splits)

lemma count_status_all:
  "\<forall>x \<in> set rs. HrStatus x \<in> {FleetSucceeded, FleetFailed, FleetSkipped, FleetNotRun} \<Longrightarrow>
    count_status FleetSucceeded rs + count_status FleetFailed rs + count_status FleetSkipped rs + count_status FleetNotRun rs = length rs"
  by (induction rs) (auto simp: count_status_def)

lemma count_status_zero: "count_status st rs = 0 \<longleftrightarrow> (\<forall>x \<in> set rs. HrStatus x \<noteq> st)"
  by (auto simp: count_status_def filter_empty_conv)

text \<open>C38 Every target host of a batch is in the report, under its name and in the order of the request, with
  one of the four statuses, and the four counts add up to the number of hosts. A host that is reported as
  skipped or as not run has seen its preparation and nothing else; in a batch that is refused with
  \<open>BATCH_PREFLIGHT_FAILED\<close> no host succeeded or failed, so none was touched. A batch returns without an
  error only when no host failed.\<close>

theorem fleet_accounted:
  assumes run: "fleet_Run env q hs = ((r, err), hs')" and ok: "check_request q = None"
    and targets: "length hs = length (RqTargets q)"
  shows "map HrHost (Results r) = map TargetName (RqTargets q)
    \<and> Succeeded r + Failed r + Skipped r + NotRun r = length (RqTargets q)
    \<and> (\<forall>j < length hs. HrStatus (Results r ! j) \<in> {FleetSkipped, FleetNotRun} \<longrightarrow>
         hs' ! j = snd (prepareOne (fill_request q) (RqTargets q ! j) (hs ! j)))
    \<and> (err = Some (Fault CodeBatchPreflightFailed) \<longrightarrow> Succeeded r = 0 \<and> Failed r = 0)
    \<and> (err = None \<longrightarrow> Failed r = 0)"
proof -
  obtain sites early where out: "outcome q hs r hs' sites" and r: "r = make_report (map fst sites) early"
    and err: "err = Some (Fault CodeBatchPreflightFailed) \<Longrightarrow> \<forall>j < length hs. HrStatus (fst (sites ! j)) \<in> {FleetSkipped, FleetNotRun}"
      "err = None \<Longrightarrow> count_status FleetFailed (map fst sites) = 0"
    by (cases rule: fleet_run_cases [OF run ok targets]) (auto split: if_splits)
  note status = outcome_status [OF out targets]
  have len: "length sites = length hs" "Results r = map fst sites" "hs' = map snd sites" using out by (simp_all add: outcome_def)
  have all: "\<forall>x \<in> set (map fst sites). HrStatus x \<in> {FleetSucceeded, FleetFailed, FleetSkipped, FleetNotRun}"
    using status(1) len(1) unfolding list_all_iff [symmetric] list_all_length by simp
  have "map HrHost (Results r) = map TargetName (RqTargets q)"
    by (rule nth_equalityI) (use status(2) len targets in simp_all)
  moreover have "Succeeded r + Failed r + Skipped r + NotRun r = length (RqTargets q)"
    using count_status_all [OF all] len targets by (simp add: r make_report_def)
  moreover have "Succeeded r = 0 \<and> Failed r = 0" if "err = Some (Fault CodeBatchPreflightFailed)"
  proof -
    have "\<forall>x \<in> set (map fst sites). HrStatus x \<in> {FleetSkipped, FleetNotRun}"
      using err(1) [OF that] len(1) unfolding list_all_iff [symmetric] list_all_length by simp
    then show ?thesis by (auto simp: r make_report_def count_status_zero)
  qed
  moreover have "Failed r = 0" if "err = None" using err(2) [OF that] by (simp add: r make_report_def)
  ultimately show ?thesis using status(3) len by simp
qed

text \<open>C39 Without \<open>KeepGoing\<close> a batch goes no further than the wave in which a host failed. The hosts that
  passed their preparation are taken in the order of the request, \<open>BatchSize\<close> at a time; when one of them
  failed, every host of a later wave is reported as not run.\<close>

theorem fleet_stops_at_failure:
  assumes run: "fleet_Run env q hs = ((r, err), hs')" and ok: "check_request q = None"
    and targets: "length hs = length (RqTargets q)" and stop: "\<not> KeepGoing q"
    and pending: "pending = filter (\<lambda>j. HrStatus (Results r ! j) \<noteq> FleetSkipped) [0..<length hs]"
    and later: "a div nat (BatchSize (fill_request q)) < b div nat (BatchSize (fill_request q))" "b < length pending"
    and failed: "HrStatus (Results r ! (pending ! a)) = FleetFailed"
  shows "HrStatus (Results r ! (pending ! b)) = FleetNotRun"
proof -
  have "a < b" using later(1) by (meson div_le_mono not_less)
  have same: "pending = undecided (prepareAll (fill_request q) (start_sites (fill_request q) hs))"
    if out: "outcome q hs r hs' sites" for sites
  proof -
    have len: "length sites = length hs" "Results r = map fst sites" using out by (simp_all add: outcome_def)
    show ?thesis unfolding pending undecided_def prepared(1) [OF targets]
      by (rule filter_cong)
        (use outcome_status(4) [OF out targets] prepared(2) [OF targets] len in \<open>auto simp: prepared_site_def\<close>)
  qed
  have at: "pending ! k < length hs" if "k < length pending" for k
    using nth_mem [OF that] by (simp add: pending)
  from run ok targets show ?thesis
  proof (cases rule: fleet_run_cases)
    case (refused sites)
    then have "HrStatus (Results r ! (pending ! a)) \<in> {FleetSkipped, FleetNotRun}"
      using at [of a] \<open>a < b\<close> later(2) by (simp add: outcome_def)
    then show ?thesis using failed by simp
  next
    case (ran sites early cut')
    have res: "Results r ! (pending ! k) = fst (sites ! (pending ! k))" if "k < length pending" for k
      using ran(1) at [OF that] by (simp add: outcome_def)
    have "stops (nat (BatchSize (fill_request q))) pending sites" using ran(4) stop same [OF ran(1)] by simp
    then show ?thesis using later failed res [of a] res [of b] \<open>a < b\<close> by (auto simp: stops_def)
  qed
qed

section \<open>A batch of three hosts\<close>

text \<open>A host is the list of the calls it got, and whether its deployments fail.\<close>

type_synonym demo_host = "bool \<times> string list"

definition called :: "string \<Rightarrow> 'a \<Rightarrow> (demo_host, 'a) io" where
  "called name answer = (\<lambda>(bad, calls). (Inr answer, (bad, calls @ [name])))"

definition demo_client :: "demo_host HostClient" where
  "demo_client = \<lparr>HcIdentity = called ''identity'' (), HcGetApplication = (\<lambda>_. called ''application'' ()),
     HcGetArtifact = (\<lambda>_. called ''artifact'' ()), HcUploadArtifact = (\<lambda>_ _. called ''upload'' ()),
     HcListReleases = (\<lambda>_ _. called ''releases'' []),
     HcDeploy = (\<lambda>_ _ _ _. called ''deploy''
        \<lparr>DrNoop = False, DrOperation = Some ''op'', DrVersion = ''2'', DrSlot = ''blue'', DrReleaseSlot = []\<rparr>),
     HcRollback = (\<lambda>_ _ _ _. called ''rollback''
        \<lparr>DrNoop = True, DrOperation = None, DrVersion = ''1'', DrSlot = [], DrReleaseSlot = []\<rparr>),
     HcGetOperation = (\<lambda>_ (bad, calls). (Inr \<lparr>RoStatus = (if bad then StatusFailed else StatusSucceeded),
        RoErrorCode = (if bad then Some CodeInternal else None)\<rparr>, (bad, calls @ [''operation''])))\<rparr>"

definition demo_batch :: "demo_host Request" where
  "demo_batch = \<lparr>RqAction = ActionDeploy, RqApplication = ''shop'', RqManifest = ''m'', RqVersion = [], RqDigest = ''d'',
     ArtifactPath = [], RqTargets = map (\<lambda>n. \<lparr>TargetName = n, TargetAddress = [], TargetClient = demo_client\<rparr>) [''a'', ''b'', ''c''],
     BatchID = ''x'', BatchSize = 1, Concurrency = 0, Pause = 0, AllowPartial = False, KeepGoing = False,
     RqCreatedBy = ''ops'', PollInterval = 1, PollTimeout = 10, RqUpload = None\<rparr>"

definition demo_env :: FleetEnv where
  "demo_env = \<lparr>WorkStart = (\<lambda>_. 0), ClockLag = (\<lambda>_ _. 0), ContextEnds = None, CutInPause = (\<lambda>_. False)\<rparr>"

definition demo_hosts :: "demo_host list" where
  "demo_hosts = [(False, []), (True, []), (False, [])]"

lemma demo_batch_run:
  "map HrStatus (Results (fst (fst (fleet_Run demo_env demo_batch demo_hosts)))) = [FleetSucceeded, FleetFailed, FleetNotRun]"
  "snd (fst (fleet_Run demo_env demo_batch demo_hosts)) = Some (Fault CodeBatchFailed)"
  "check_request demo_batch = None"
  by code_simp+

lemma demo_batch_result:
  "fleet_Run demo_env demo_batch demo_hosts =
     ((fst (fst (fleet_Run demo_env demo_batch demo_hosts)), snd (fst (fleet_Run demo_env demo_batch demo_hosts))),
      snd (fleet_Run demo_env demo_batch demo_hosts))"
  by simp

lemma demo_batch_statuses:
  "HrStatus (Results (fst (fst (fleet_Run demo_env demo_batch demo_hosts))) ! 1) = FleetFailed"
  "HrStatus (Results (fst (fst (fleet_Run demo_env demo_batch demo_hosts))) ! 2) = FleetNotRun"
  "filter (\<lambda>j. HrStatus (Results (fst (fst (fleet_Run demo_env demo_batch demo_hosts))) ! j) \<noteq> FleetSkipped) [0..<length demo_hosts] = [0, 1, 2]"
  by code_simp+

theorem fleet_accounted_witness:
  "snd (fleet_Run demo_env demo_batch demo_hosts) ! 2 = (False, [''identity'', ''application'', ''artifact''])"
proof -
  have "length demo_hosts = length (RqTargets demo_batch)" by code_simp
  note all = fleet_accounted [OF demo_batch_result demo_batch_run(3) this]
  have "snd (prepareOne (fill_request demo_batch) (RqTargets demo_batch ! 2) (demo_hosts ! 2))
     = (False, [''identity'', ''application'', ''artifact''])" by code_simp
  moreover have "2 < length demo_hosts" by (simp add: demo_hosts_def)
  ultimately show ?thesis using all demo_batch_statuses(2) by simp
qed

theorem fleet_stops_at_failure_witness:
  "HrStatus (Results (fst (fst (fleet_Run demo_env demo_batch demo_hosts))) ! 2) = FleetNotRun"
proof -
  have "length demo_hosts = length (RqTargets demo_batch)" by code_simp
  moreover have "\<not> KeepGoing demo_batch" by code_simp
  moreover have "(1::nat) div nat (BatchSize (fill_request demo_batch)) < 2 div nat (BatchSize (fill_request demo_batch))" by code_simp
  ultimately show ?thesis
    using fleet_stops_at_failure [OF demo_batch_result demo_batch_run(3) _ _ demo_batch_statuses(3) [symmetric], of 1 2]
      demo_batch_statuses(1) by simp
qed

text \<open>When every host is skipped, a batch that allows partial success reports success: no host failed, and
  none succeeded.\<close>

lemma all_skipped_is_success:
  "(case fleet_Run demo_env (demo_batch\<lparr>RqAction := ActionRollback, RqVersion := ''1'', AllowPartial := True\<rparr>) demo_hosts of
     ((r, err), _) \<Rightarrow> err = None \<and> Succeeded r = 0 \<and> Skipped r = 3)"
  by code_simp

end
